(* ===== verification/Preludio.thy ===== *)
theory Preludio
  imports Main
begin

text \<open>
  Shared vocabulary of the development: collections of simplification rules, reachable
  states of a transition system with its invariant rule as a locale, the results of
  blocking operating-system calls, and the facts on lists of integers that the belts
  and the token tables use.
\<close>

named_theorems lista_simps "facts on updated lists and their sums"
named_theorems paso_simps "characteristic equations of the operations of a component"
named_theorems inv_intros "preservation lemmas of the components"

section \<open>Results of calls that may block or fail\<close>

text \<open>
  The errors the program raises, by exception class (\<^verbatim>\<open>common/*error.h\<close>,
  \<^verbatim>\<open>os/oserror.h\<close>, \<^verbatim>\<open>os/interrupted.h\<close>); \<open>Fuera_de_rango\<close> is
  an access outside an array or vector, undefined behaviour in C++.
\<close>

datatype falla =
    OSError | InterruptedSyscall | GenericError | CommError | ValueError
  | MessageBrokerError | RuntimeError | PuestoSinVuelo | Fuera_de_rango

text \<open>A call returns, blocks until another process moves, or raises.\<close>

datatype 'a llamada = Listo 'a | Bloqueado | Fallo falla

primrec completa :: "'a llamada \<Rightarrow> bool" where
  "completa (Listo x) = True"
| "completa Bloqueado = False"
| "completa (Fallo e) = False"

lemma completa_iff: "completa r \<longleftrightarrow> (\<exists>x. r = Listo x)"
  by (cases r) auto

section \<open>Transition systems\<close>

inductive alcanzable :: "('s \<Rightarrow> bool) \<Rightarrow> ('s \<Rightarrow> 's \<Rightarrow> bool) \<Rightarrow> 's \<Rightarrow> bool"
  for ini :: "'s \<Rightarrow> bool" and paso :: "'s \<Rightarrow> 's \<Rightarrow> bool" where
  inicio: "ini s \<Longrightarrow> alcanzable ini paso s"
| avance: "alcanzable ini paso s \<Longrightarrow> paso s t \<Longrightarrow> alcanzable ini paso t"

text \<open>
  The contract between a component's step relation and its invariant: whoever provides
  \<open>inv_ini\<close> and \<open>inv_paso\<close> gets the invariant in every reachable state and along every
  finite run.
\<close>

fun ejecucion :: "('s \<Rightarrow> 's \<Rightarrow> bool) \<Rightarrow> 's \<Rightarrow> 's list \<Rightarrow> bool" where
  "ejecucion paso s [] = True"
| "ejecucion paso s (t # ts) = (paso s t \<and> ejecucion paso t ts)"

locale sistema =
  fixes ini :: "'s \<Rightarrow> bool" and paso :: "'s \<Rightarrow> 's \<Rightarrow> bool" and inv :: "'s \<Rightarrow> bool"
  assumes inv_ini: "ini s \<Longrightarrow> inv s"
    and inv_paso: "inv s \<Longrightarrow> paso s t \<Longrightarrow> inv t"
begin

lemma inv_alcanzable: "alcanzable ini paso s \<Longrightarrow> inv s"
  by (induction rule: alcanzable.induct) (auto intro: inv_ini inv_paso)

lemma inv_ejecucion: "inv s \<Longrightarrow> ejecucion paso s ts \<Longrightarrow> t \<in> set ts \<Longrightarrow> inv t"
  by (induction ts arbitrary: s) (auto intro: inv_paso)

lemma alcanzable_ejecucion:
  "alcanzable ini paso s \<Longrightarrow> ejecucion paso s ts \<Longrightarrow> t \<in> set ts \<Longrightarrow> alcanzable ini paso t"
  by (induction ts arbitrary: s) (auto intro: alcanzable.avance)

end

section \<open>Lists of integers\<close>

lemma sum_list_update_int [lista_simps]:
  "k < length xs \<Longrightarrow> sum_list (xs[k := (x::int)]) = sum_list xs + x - xs ! k"
  by (induction xs arbitrary: k) (auto split: nat.split)

lemma sum_list_cero [lista_simps]:
  "(\<And>x. x \<in> set xs \<Longrightarrow> x = (0::int)) \<Longrightarrow> sum_list xs = 0"
  by (induction xs) auto

lemma sum_list_positiva:
  assumes "\<And>x. x \<in> set xs \<Longrightarrow> (0::int) \<le> x" and "k < length xs"
  shows "xs ! k \<le> sum_list xs"
  using assms
proof (induction xs arbitrary: k)
  case Nil
  then show ?case by simp
next
  case (Cons a xs)
  have "0 \<le> sum_list xs" by (rule sum_list_nonneg) (use Cons.prems in auto)
  with Cons show ?case by (cases k) (force simp: add_increasing)+
qed

lemma sum_list_binaria:
  "set xs \<subseteq> {0, 1::int} \<Longrightarrow> 0 \<le> sum_list xs \<and> sum_list xs \<le> int (length xs)"
  by (induction xs) auto

lemma set_lista_update: "set (xs[k := x]) \<subseteq> insert x (set xs)"
  by (rule set_update_subset_insert)

lemma nth_binaria: "set xs \<subseteq> {0, 1::int} \<Longrightarrow> k < length xs \<Longrightarrow> xs ! k = 0 \<or> xs ! k = 1"
  using nth_mem by blast

text \<open>A positive sum of flags has a raised flag.\<close>

lemma sum_list_binaria_pos:
  "set xs \<subseteq> {0, 1::int} \<Longrightarrow> (0 < sum_list xs) = (\<exists>k < length xs. xs ! k = 1)"
proof
  assume b: "set xs \<subseteq> {0, 1}" and "0 < sum_list xs"
  then have "\<not> (\<forall>x \<in> set xs. x = 0)" using sum_list_cero [of xs] by auto
  then obtain x where "x \<in> set xs" "x = 1" using b by auto
  then show "\<exists>k < length xs. xs ! k = 1" by (auto simp: in_set_conv_nth)
next
  assume b: "set xs \<subseteq> {0, 1}" and "\<exists>k < length xs. xs ! k = 1"
  then obtain k where "k < length xs" "xs ! k = 1" by auto
  with b have "1 \<le> sum_list xs" using sum_list_positiva [of xs k] by force
  then show "0 < sum_list xs" by simp
qed

section \<open>Executable schedules\<close>

text \<open>
  A list of actions run by a partial step function; \<open>None\<close> when an action is not enabled.
  A component whose actions are steps of its relation extends the contract of a system, and
  the states its schedules end in are reachable.
\<close>

fun ejecutar :: "('a \<Rightarrow> 's \<Rightarrow> 's option) \<Rightarrow> 'a list \<Rightarrow> 's \<Rightarrow> 's option" where
  "ejecutar hacer [] s = Some s"
| "ejecutar hacer (a # as) s = (case hacer a s of None \<Rightarrow> None | Some t \<Rightarrow> ejecutar hacer as t)"

locale sistema_ejecutable = sistema ini paso inv
  for ini :: "'s \<Rightarrow> bool" and paso :: "'s \<Rightarrow> 's \<Rightarrow> bool" and inv :: "'s \<Rightarrow> bool" +
  fixes hacer :: "'a \<Rightarrow> 's \<Rightarrow> 's option"
  assumes hacer_paso: "hacer a s = Some t \<Longrightarrow> paso s t"
begin

lemma ejecutar_alcanzable:
  "alcanzable ini paso s \<Longrightarrow> ejecutar hacer as s = Some t \<Longrightarrow> alcanzable ini paso t"
  by (induction as arbitrary: s) (auto split: option.splits, blast intro: alcanzable.avance hacer_paso)

lemma ejecutar_inicio: "ini s \<Longrightarrow> ejecutar hacer as s = Some t \<Longrightarrow> alcanzable ini paso t"
  by (rule ejecutar_alcanzable) (rule alcanzable.inicio)

end

end
