(* ===== verification/Anillo.thy ===== *)
theory Anillo
  imports Preludio
begin

text \<open>
  The circular buffer that the four conveyor belts lay out at the head of their shared
  memory (\<^verbatim>\<open>tamanio_vector, posicion_libre, posicion_ocupada, cantidad_elementos,
  vector_elementos\<close>), the two statements groups every belt runs on it (store at
  \<^verbatim>\<open>posicion_libre\<close>, fetch at \<^verbatim>\<open>posicion_ocupada\<close>), the list it
  represents, and the contract \<open>cinta_fifo\<close> that makes a belt a bounded queue.
\<close>

section \<open>The shared memory of a belt\<close>

record 'a anillo =
  tamanio_vector :: int
  posicion_libre :: int
  posicion_ocupada :: int
  cantidad_elementos :: int
  vector_elementos :: "'a list"

definition colocar :: "'a \<Rightarrow> ('a, 'z) anillo_scheme \<Rightarrow> ('a, 'z) anillo_scheme" where
  "colocar e a = a\<lparr>
     vector_elementos := (vector_elementos a)[nat (posicion_libre a) := e],
     posicion_libre := (posicion_libre a + 1) mod tamanio_vector a,
     cantidad_elementos := cantidad_elementos a + 1\<rparr>"

definition leer :: "('a, 'z) anillo_scheme \<Rightarrow> 'a" where
  "leer a = vector_elementos a ! nat (posicion_ocupada a)"

definition retirar :: "('a, 'z) anillo_scheme \<Rightarrow> ('a, 'z) anillo_scheme" where
  "retirar a = a\<lparr>
     posicion_ocupada := (posicion_ocupada a + 1) mod tamanio_vector a,
     cantidad_elementos := cantidad_elementos a - 1\<rparr>"

section \<open>Well-formed buffers and the queue they represent\<close>

definition anillo_ok :: "('a, 'z) anillo_scheme \<Rightarrow> bool" where
  "anillo_ok a \<longleftrightarrow>
     0 < tamanio_vector a \<and>
     length (vector_elementos a) = nat (tamanio_vector a) \<and>
     0 \<le> posicion_ocupada a \<and> posicion_ocupada a < tamanio_vector a \<and>
     0 \<le> cantidad_elementos a \<and> cantidad_elementos a \<le> tamanio_vector a \<and>
     posicion_libre a = (posicion_ocupada a + cantidad_elementos a) mod tamanio_vector a"

definition contenido :: "('a, 'z) anillo_scheme \<Rightarrow> 'a list" where
  "contenido a = map (\<lambda>k. vector_elementos a ! nat ((posicion_ocupada a + int k) mod tamanio_vector a))
     [0..<nat (cantidad_elementos a)]"

lemma length_contenido: "length (contenido a) = nat (cantidad_elementos a)"
  by (simp add: contenido_def)

lemma contenido_vacio: "cantidad_elementos a = 0 \<Longrightarrow> contenido a = []"
  by (simp add: contenido_def)

lemma contenido_vacio_iff: "anillo_ok a \<Longrightarrow> (contenido a = []) = (cantidad_elementos a = 0)"
  by (auto simp: contenido_def anillo_ok_def)

lemma anillo_indices:
  assumes "anillo_ok a"
  shows "nat (posicion_ocupada a) < length (vector_elementos a)"
    and "nat (posicion_libre a) < length (vector_elementos a)"
    and "0 \<le> posicion_libre a"
  using assms by (auto simp: anillo_ok_def nat_less_eq_zless)

lemma anillo_ok_truncate [simp]: "anillo_ok (anillo.truncate a) = anillo_ok a"
  by (simp add: anillo_ok_def anillo.truncate_def)

lemma colocar_campos [simp]:
  "tamanio_vector (colocar e a) = tamanio_vector a"
  "posicion_ocupada (colocar e a) = posicion_ocupada a"
  "cantidad_elementos (colocar e a) = cantidad_elementos a + 1"
  "anillo.more (colocar e a) = anillo.more a"
  by (simp_all add: colocar_def)

lemma retirar_campos [simp]:
  "tamanio_vector (retirar a) = tamanio_vector a"
  "cantidad_elementos (retirar a) = cantidad_elementos a - 1"
  "vector_elementos (retirar a) = vector_elementos a"
  "posicion_libre (retirar a) = posicion_libre a"
  "anillo.more (retirar a) = anillo.more a"
  by (simp_all add: retirar_def)

lemma colocar_anillo_ok [inv_intros]:
  assumes "anillo_ok a" and "cantidad_elementos a < tamanio_vector a"
  shows "anillo_ok (colocar e a)"
proof -
  have "(posicion_libre a + 1) mod tamanio_vector a
      = (posicion_ocupada a + (cantidad_elementos a + 1)) mod tamanio_vector a"
    using assms by (simp add: anillo_ok_def mod_add_left_eq add.assoc)
  with assms show ?thesis by (simp add: anillo_ok_def colocar_def)
qed

lemma retirar_anillo_ok [inv_intros]:
  assumes "anillo_ok a" and "0 < cantidad_elementos a"
  shows "anillo_ok (retirar a)"
proof -
  have "posicion_libre a
      = ((posicion_ocupada a + 1) mod tamanio_vector a + (cantidad_elementos a - 1)) mod tamanio_vector a"
    using assms by (simp add: anillo_ok_def mod_add_left_eq)
  with assms show ?thesis by (simp add: anillo_ok_def retirar_def)
qed

text \<open>Two positions closer than the size of the buffer never share a cell.\<close>

lemma mod_distintos:
  assumes "0 \<le> (i::int)" "i < j" "j < n"
  shows "(p + i) mod n \<noteq> (p + j) mod n"
proof
  assume "(p + i) mod n = (p + j) mod n"
  then have "n dvd (p + j) - (p + i)" by (metis mod_eq_dvd_iff)
  then have "n dvd j - i" by (simp add: algebra_simps)
  with assms show False by (auto dest: zdvd_imp_le)
qed

lemma contenido_colocar [paso_simps]:
  assumes ok: "anillo_ok a" and lugar: "cantidad_elementos a < tamanio_vector a"
  shows "contenido (colocar e a) = contenido a @ [e]"
proof -
  let ?n = "tamanio_vector a" and ?p = "posicion_ocupada a" and ?c = "cantidad_elementos a"
  have libre: "posicion_libre a = (?p + ?c) mod ?n" and c: "0 \<le> ?c" and n: "0 < ?n"
    using ok by (auto simp: anillo_ok_def)
  have celda: "nat (posicion_libre a) < length (vector_elementos a)"
    using ok by (rule anillo_indices)
  have viejo: "(vector_elementos a)[nat (posicion_libre a) := e] ! nat ((?p + int k) mod ?n)
      = vector_elementos a ! nat ((?p + int k) mod ?n)" if "k < nat ?c" for k
  proof -
    have "(?p + int k) mod ?n \<noteq> (?p + ?c) mod ?n"
      using that lugar c by (intro mod_distintos) auto
    with libre n have "nat ((?p + int k) mod ?n) \<noteq> nat (posicion_libre a)"
      by (simp add: nat_eq_iff)
    then show ?thesis by simp
  qed
  have "nat (?c + 1) = Suc (nat ?c)" using c by simp
  then show ?thesis
    using viejo celda libre c by (simp add: contenido_def colocar_def)
qed

lemma contenido_retirar [paso_simps]:
  assumes ok: "anillo_ok a" and hay: "0 < cantidad_elementos a"
  shows "contenido a = leer a # contenido (retirar a)"
proof -
  let ?n = "tamanio_vector a" and ?p = "posicion_ocupada a" and ?c = "cantidad_elementos a"
  have p: "?p mod ?n = ?p" using ok by (simp add: anillo_ok_def)
  have "nat ?c = Suc (nat (?c - 1))" using hay by simp
  then have "[0..<nat ?c] = 0 # map Suc [0..<nat (?c - 1)]"
    by (simp add: upt_conv_Cons map_Suc_upt del: upt_Suc)
  moreover have "((?p + 1) mod ?n + int k) mod ?n = (?p + int (Suc k)) mod ?n" for k
    by (simp add: mod_add_left_eq add.assoc)
  ultimately show ?thesis
    using p by (simp add: contenido_def leer_def retirar_def)
qed

section \<open>The contract of a belt\<close>

text \<open>
  A bounded queue seen through its contents. A provider gives an invariant, the contents
  and capacity of a state, and the effect of a store or a fetch that goes through; the
  client lemmas say that any sequence of such operations delivers the elements in the
  order they were stored, none lost and none invented.
\<close>

datatype 'a maniobra = Poner 'a | Sacar

locale cinta_fifo =
  fixes bien :: "'s \<Rightarrow> bool" and lista :: "'s \<Rightarrow> 'a list" and capacidad :: "'s \<Rightarrow> nat"
    and poner :: "'a \<Rightarrow> 's \<Rightarrow> 's" and mirar :: "'s \<Rightarrow> 'a" and sacar :: "'s \<Rightarrow> 's"
  assumes bien_poner: "bien s \<Longrightarrow> length (lista s) < capacidad s \<Longrightarrow> bien (poner e s)"
    and lista_poner: "bien s \<Longrightarrow> length (lista s) < capacidad s \<Longrightarrow> lista (poner e s) = lista s @ [e]"
    and capacidad_poner: "bien s \<Longrightarrow> capacidad (poner e s) = capacidad s"
    and bien_sacar: "bien s \<Longrightarrow> lista s \<noteq> [] \<Longrightarrow> bien (sacar s)"
    and lista_sacar: "bien s \<Longrightarrow> lista s \<noteq> [] \<Longrightarrow> lista s = mirar s # lista (sacar s)"
    and capacidad_sacar: "bien s \<Longrightarrow> capacidad (sacar s) = capacidad s"
    and acotada: "bien s \<Longrightarrow> length (lista s) \<le> capacidad s"
begin

text \<open>One operation that goes through, or the state unchanged when it would have to wait.\<close>

fun maniobrar :: "'s \<Rightarrow> 'a maniobra \<Rightarrow> 's \<times> 'a list \<times> 'a list" where
  "maniobrar s (Poner e) =
     (if length (lista s) < capacidad s then (poner e s, [e], []) else (s, [], []))"
| "maniobrar s Sacar =
     (if lista s \<noteq> [] then (sacar s, [], [mirar s]) else (s, [], []))"

fun maniobras :: "'s \<Rightarrow> 'a maniobra list \<Rightarrow> 's \<times> 'a list \<times> 'a list" where
  "maniobras s [] = (s, [], [])"
| "maniobras s (m # ms) =
     (case maniobrar s m of (s', ps, qs) \<Rightarrow>
      case maniobras s' ms of (s'', ps', qs') \<Rightarrow> (s'', ps @ ps', qs @ qs'))"

lemma maniobrar_ok:
  "bien s \<Longrightarrow> maniobrar s m = (s', ps, qs) \<Longrightarrow>
     bien s' \<and> capacidad s' = capacidad s \<and> lista s @ ps = qs @ lista s'"
  by (cases m)
    (auto simp: lista_poner lista_sacar [symmetric] capacidad_poner capacidad_sacar
      intro: bien_poner bien_sacar split: if_splits)

lemma maniobras_ok:
  "bien s \<Longrightarrow> maniobras s ms = (s', ps, qs) \<Longrightarrow>
     bien s' \<and> capacidad s' = capacidad s \<and> lista s @ ps = qs @ lista s'"
proof (induction ms arbitrary: s s' ps qs)
  case Nil
  then show ?case by simp
next
  case (Cons m ms)
  obtain s1 p1 q1 where m: "maniobrar s m = (s1, p1, q1)" by (metis prod_cases3)
  obtain s2 p2 q2 where ms: "maniobras s1 ms = (s2, p2, q2)" by (metis prod_cases3)
  have 1: "bien s1 \<and> capacidad s1 = capacidad s \<and> lista s @ p1 = q1 @ lista s1"
    using Cons.prems(1) m by (rule maniobrar_ok)
  then have 2: "bien s2 \<and> capacidad s2 = capacidad s1 \<and> lista s1 @ p2 = q2 @ lista s2"
    using ms by (intro Cons.IH) auto
  have "lista s @ p1 @ p2 = q1 @ q2 @ lista s2"
    using 1 2 by (metis append.assoc)
  with 1 2 Cons.prems(2) m ms show ?case by auto
qed

lemma maniobras_fifo:
  assumes "bien s" and "lista s = []" and "maniobras s ms = (s', ps, qs)"
  shows "ps = qs @ lista s' \<and> length ps \<le> length qs + capacidad s"
  using maniobras_ok [OF assms(1,3)] assms(2) acotada [of s'] by simp

end

text \<open>
  The buffer itself, with the store and fetch of the shared memory, is such a belt.
\<close>

interpretation anillo_fifo: cinta_fifo anillo_ok contenido "\<lambda>a. nat (tamanio_vector a)" colocar leer retirar
proof unfold_locales
  fix a :: "('a, 'z) anillo_scheme" and e :: 'a
  assume ok: "anillo_ok a"
  show "nat (tamanio_vector (colocar e a)) = nat (tamanio_vector a)" by simp
  show "nat (tamanio_vector (retirar a)) = nat (tamanio_vector a)" by simp
  show "length (contenido a) \<le> nat (tamanio_vector a)"
    using ok by (auto simp: length_contenido anillo_ok_def intro: nat_mono)
  {
    assume "length (contenido a) < nat (tamanio_vector a)"
    then have lugar: "cantidad_elementos a < tamanio_vector a" by (simp add: length_contenido)
    show "anillo_ok (colocar e a)" using ok lugar by (rule colocar_anillo_ok)
    show "contenido (colocar e a) = contenido a @ [e]" using ok lugar by (rule contenido_colocar)
  }
  {
    assume "contenido a \<noteq> []"
    then have hay: "0 < cantidad_elementos a"
      using ok by (auto simp: contenido_vacio_iff anillo_ok_def)
    show "anillo_ok (retirar a)" using ok hay by (rule retirar_anillo_ok)
    show "contenido a = leer a # contenido (retirar a)" using ok hay by (rule contenido_retirar)
  }
qed

end
