(* ===== verification/Semaforos.thy ===== *)
theory Semaforos
  imports Preludio
begin

text \<open>
  System V semaphore sets as \<^verbatim>\<open>ipc/semaphoreset.cpp\<close> and \<^verbatim>\<open>ipc/mutex.cpp\<close> use
  them, the contract of a set of counting semaphores that the belts rely on, and the loop
  that wakes the processes whose flag is raised, which three of the belts share.
\<close>

section \<open>Semaphore sets\<close>

type_synonym semset = "nat list"

text \<open>
  \<^verbatim>\<open>SemaphoreSet::op\<close>: one \<^verbatim>\<open>semop\<close> with \<^verbatim>\<open>sem_op\<close> 1 or -1. The kernel
  refuses a number outside the set (the code throws \<^verbatim>\<open>OSError\<close>) and blocks a decrement
  of a semaphore that is 0. A signal delivered while it blocks is
  \<open>op_interrumpida\<close> (\<^verbatim>\<open>EINTR\<close>, thrown as \<^verbatim>\<open>InterruptedSyscall\<close>).
\<close>

definition semset_op :: "nat \<Rightarrow> bool \<Rightarrow> semset \<Rightarrow> semset llamada" where
  "semset_op semnum signal_action s =
     (if semnum \<ge> length s then Fallo OSError
      else if signal_action then Listo (s[semnum := s ! semnum + 1])
      else if s ! semnum = 0 then Bloqueado
      else Listo (s[semnum := s ! semnum - 1]))"

definition op_interrumpida :: "semset llamada" where
  "op_interrumpida = Fallo InterruptedSyscall"

definition wait_on :: "nat \<Rightarrow> semset \<Rightarrow> semset llamada" where
  "wait_on semnum = semset_op semnum False"

definition signalize :: "nat \<Rightarrow> semset \<Rightarrow> semset llamada" where
  "signalize semnum = semset_op semnum True"

text \<open>The constructor that creates a set from its initial values; another process gets it by key.\<close>

definition crear_semset :: "nat list \<Rightarrow> semset" where
  "crear_semset vals = vals"

text \<open>\<^verbatim>\<open>Mutex\<close> is one semaphore of a set.\<close>

definition mutex_lock :: "nat \<Rightarrow> semset \<Rightarrow> semset llamada" where
  "mutex_lock n s = wait_on n s"

definition mutex_unlock :: "nat \<Rightarrow> semset \<Rightarrow> semset llamada" where
  "mutex_unlock n s = signalize n s"

lemma wait_on_Listo [paso_simps]:
  "(wait_on n s = Listo s') = (n < length s \<and> 0 < s ! n \<and> s' = s[n := s ! n - 1])"
  by (auto simp: wait_on_def semset_op_def)

lemma wait_on_Bloqueado [paso_simps]: "(wait_on n s = Bloqueado) = (n < length s \<and> s ! n = 0)"
  by (auto simp: wait_on_def semset_op_def)

lemma signalize_Listo [paso_simps]:
  "(signalize n s = Listo s') = (n < length s \<and> s' = s[n := s ! n + 1])"
  by (auto simp: signalize_def semset_op_def)

lemma signalize_no_bloquea: "signalize n s \<noteq> Bloqueado"
  by (simp add: signalize_def semset_op_def)

section \<open>The contract of a set of semaphores\<close>

text \<open>
  What the clients of a set rely on: \<open>valor\<close> reads a counter, a wait goes through exactly
  when the counter is positive and takes one from it, a signal always goes through and adds
  one, and neither touches the other counters.
\<close>

locale semaforos =
  fixes valor :: "'s \<Rightarrow> nat \<Rightarrow> nat" and existe :: "'s \<Rightarrow> nat \<Rightarrow> bool"
    and espera :: "nat \<Rightarrow> 's \<Rightarrow> 's llamada" and senial :: "nat \<Rightarrow> 's \<Rightarrow> 's llamada"
  assumes espera_ok: "existe s n \<Longrightarrow> 0 < valor s n \<Longrightarrow>
      \<exists>t. espera n s = Listo t \<and> valor t = (valor s)(n := valor s n - 1) \<and> existe t = existe s"
    and espera_bloquea: "existe s n \<Longrightarrow> valor s n = 0 \<Longrightarrow> espera n s = Bloqueado"
    and senial_ok: "existe s n \<Longrightarrow>
      \<exists>t. senial n s = Listo t \<and> valor t = (valor s)(n := valor s n + 1) \<and> existe t = existe s"
begin

text \<open>A wait after a signal returns to the same counters; a wait that blocks is released by a signal.\<close>

lemma senial_espera:
  assumes "existe s n"
  obtains t u where "senial n s = Listo t" "espera n t = Listo u" "valor u = valor s"
proof -
  obtain t where t: "senial n s = Listo t" "valor t = (valor s)(n := valor s n + 1)" "existe t = existe s"
    using senial_ok [OF assms] by blast
  then obtain u where "espera n t = Listo u" "valor u = (valor t)(n := valor t n - 1)"
    using espera_ok [of t n] assms by force
  with t that show thesis by (metis add_diff_cancel_right' fun_upd_same fun_upd_triv fun_upd_upd)
qed

lemma espera_completa_iff: "existe s n \<Longrightarrow> completa (espera n s) = (0 < valor s n)"
  using espera_ok [of s n] espera_bloquea [of s n] by (cases "valor s n = 0") auto

end

definition valor_semset :: "semset \<Rightarrow> nat \<Rightarrow> nat" where
  "valor_semset s n = (if n < length s then s ! n else 0)"

definition existe_semset :: "semset \<Rightarrow> nat \<Rightarrow> bool" where
  "existe_semset s n \<longleftrightarrow> n < length s"

interpretation semset: semaforos valor_semset existe_semset wait_on signalize
proof unfold_locales
  fix s n
  assume n: "existe_semset s n"
  show "0 < valor_semset s n \<Longrightarrow> \<exists>t. wait_on n s = Listo t \<and>
      valor_semset t = (valor_semset s)(n := valor_semset s n - 1) \<and> existe_semset t = existe_semset s"
    using n by (auto simp: paso_simps valor_semset_def existe_semset_def fun_eq_iff)
  show "valor_semset s n = 0 \<Longrightarrow> wait_on n s = Bloqueado"
    using n by (auto simp: paso_simps valor_semset_def existe_semset_def)
  show "\<exists>t. signalize n s = Listo t \<and>
      valor_semset t = (valor_semset s)(n := valor_semset s n + 1) \<and> existe_semset t = existe_semset s"
    using n by (auto simp: paso_simps valor_semset_def existe_semset_def fun_eq_iff)
qed

section \<open>Waking the sleepers\<close>

text \<open>
  The loop of \<^verbatim>\<open>despertar_productores\<close> and \<^verbatim>\<open>despertar_consumidores\<close>:
  for \<^verbatim>\<open>i < cantidad\<close>, a raised flag \<^verbatim>\<open>ids[i]\<close> is lowered and its semaphore
  signalled. The state is the pair of the flags and the semaphores. \<open>subir\<close> is the
  effect of a signal on an existing semaphore.
\<close>

definition subir :: "nat \<Rightarrow> semset \<Rightarrow> semset" where
  "subir n s = s[n := s ! n + 1]"

lemma subir_signalize: "n < length s \<Longrightarrow> signalize n s = Listo (subir n s)"
  by (simp add: subir_def paso_simps)

lemma length_subir [simp]: "length (subir n s) = length s"
  by (simp add: subir_def)

lemma subir_Nil [simp]: "(subir n s = []) = (s = [])"
  by (simp add: subir_def)

lemma nth_subir: "i < length s \<Longrightarrow> subir n s ! i = (if i = n then s ! i + 1 else s ! i)"
  by (simp add: subir_def nth_list_update)

fun despertar :: "nat \<Rightarrow> int list \<times> semset \<Rightarrow> int list \<times> semset" where
  "despertar 0 st = st"
| "despertar (Suc i) st =
     (case despertar i st of (ids, sem) \<Rightarrow>
        if ids ! i = 1 then (ids[i := 0], subir i sem) else (ids, sem))"

lemma despertar_length:
  "despertar n (ids, sem) = (ids', sem') \<Longrightarrow> length ids' = length ids \<and> length sem' = length sem"
  by (induction n arbitrary: ids' sem') (auto split: prod.splits if_splits)

lemma despertar_nth:
  assumes "despertar n (ids, sem) = (ids', sem')" and "n \<le> length ids" and "length sem = length ids"
    and "i < length ids"
  shows "ids' ! i = (if i < n \<and> ids ! i = 1 then 0 else ids ! i)"
    and "sem' ! i = (if i < n \<and> ids ! i = 1 then sem ! i + 1 else sem ! i)"
proof -
  have "ids' ! i = (if i < n \<and> ids ! i = 1 then 0 else ids ! i) \<and>
        sem' ! i = (if i < n \<and> ids ! i = 1 then sem ! i + 1 else sem ! i)"
    using assms(1,2)
  proof (induction n arbitrary: ids' sem')
    case 0
    then show ?case by simp
  next
    case (Suc n)
    obtain ids1 sem1 where 1: "despertar n (ids, sem) = (ids1, sem1)" by fastforce
    have len: "length ids1 = length ids" "length sem1 = length sem"
      using despertar_length [OF 1] by auto
    have "ids1 ! i = (if i < n \<and> ids ! i = 1 then 0 else ids ! i) \<and>
        sem1 ! i = (if i < n \<and> ids ! i = 1 then sem ! i + 1 else sem ! i)"
      using Suc.IH [OF 1] Suc.prems(2) by simp
    moreover have "ids1 ! n = ids ! n"
    proof -
      have "despertar k (ids, sem) = (a, b) \<Longrightarrow> k \<le> n \<Longrightarrow> a ! n = ids ! n" for k a b
        by (induction k arbitrary: a b) (auto split: prod.splits if_splits)
      with 1 show ?thesis by blast
    qed
    ultimately show ?case
      using Suc.prems 1 len assms(3,4)
      by (cases "i = n") (auto simp: nth_list_update nth_subir less_Suc_eq split: if_splits)
  qed
  then show "ids' ! i = (if i < n \<and> ids ! i = 1 then 0 else ids ! i)"
    and "sem' ! i = (if i < n \<and> ids ! i = 1 then sem ! i + 1 else sem ! i)" by auto
qed

text \<open>When every flag is looked at, all of them end lowered.\<close>

lemma despertar_todos:
  assumes "despertar (length ids) (ids, sem) = (ids', sem')" and "length sem = length ids"
    and "set ids \<subseteq> {0, 1}"
  shows "ids' = replicate (length ids) 0"
    and "\<And>i. i < length ids \<Longrightarrow> int (sem' ! i) = int (sem ! i) + ids ! i"
proof -
  have len: "length ids' = length ids" using despertar_length [OF assms(1)] by simp
  show "ids' = replicate (length ids) 0"
  proof (rule nth_equalityI)
    fix i assume i: "i < length ids'"
    then show "ids' ! i = replicate (length ids) 0 ! i"
      using despertar_nth(1) [OF assms(1) _ assms(2), of i] nth_binaria [OF assms(3), of i] len
      by (auto split: if_splits)
  qed (simp add: len)
  fix i assume i: "i < length ids"
  show "int (sem' ! i) = int (sem ! i) + ids ! i"
    using despertar_nth(2) [OF assms(1) _ assms(2) i] nth_binaria [OF assms(3) i] i
    by (auto split: if_splits)
qed

section \<open>One token per process\<close>

text \<open>
  The bookkeeping of a side of a belt: the number of processes, how many sleep, the flags
  and the semaphores. Every process has one token, which is in its semaphore, with the
  process inside its section (\<open>t i = 1\<close>), or parked in its raised flag.
\<close>

definition fichas_ok :: "(nat \<Rightarrow> int) \<Rightarrow> int \<Rightarrow> int \<Rightarrow> int list \<Rightarrow> semset \<Rightarrow> bool" where
  "fichas_ok t cant esp ids sem \<longleftrightarrow>
     cant = int (length ids) \<and> length sem = length ids \<and> set ids \<subseteq> {0, 1} \<and>
     esp = sum_list ids \<and> (\<forall>i < length ids. int (sem ! i) + t i + ids ! i = 1)"

lemma fichas_despertar:
  assumes "fichas_ok t cant esp ids sem" and "despertar (nat cant) (ids, sem) = (ids', sem')"
  shows "fichas_ok t cant 0 ids' sem' \<and> length ids' = length ids"
proof -
  have d: "despertar (length ids) (ids, sem) = (ids', sem')" using assms by (simp add: fichas_ok_def)
  have l: "length ids' = length ids" "length sem' = length ids"
    using despertar_length [OF d] assms(1) by (auto simp: fichas_ok_def)
  note todos = despertar_todos [OF d]
  show ?thesis using assms(1) l todos by (auto simp: fichas_ok_def sum_list_replicate)
qed

lemma fichas_nadie: "fichas_ok t cant esp ids sem \<Longrightarrow> \<not> 0 < esp \<Longrightarrow> esp = 0"
  using sum_list_binaria [of ids] by (auto simp: fichas_ok_def)

lemma fichas_wait:
  assumes ok: "fichas_ok t cant esp ids sem" and i: "i < length ids" and n: "0 \<le> t i"
    and w: "wait_on i sem = Listo sem'"
  shows "t i = 0 \<and> fichas_ok (t(i := 1)) cant esp ids sem'"
proof -
  have s: "0 < sem ! i" "sem' = sem[i := sem ! i - 1]" using w by (auto simp: paso_simps)
  have f: "0 \<le> ids ! i" using ok i nth_binaria [of ids i] by (auto simp: fichas_ok_def)
  have tok: "int (sem ! i) + t i + ids ! i = 1" using ok i by (auto simp: fichas_ok_def)
  have "t i = 0" and "sem ! i = 1 \<and> ids ! i = 0" using s f tok n by linarith+
  then show ?thesis using ok i s by (auto simp: fichas_ok_def nth_list_update)
qed

lemma fichas_dormir:
  assumes ok: "fichas_ok t cant esp ids sem" and i: "i < length ids" and t: "t i = 1"
  shows "fichas_ok (t(i := 0)) cant (esp + 1) (ids[i := 1]) sem"
proof -
  have bin: "set ids \<subseteq> {0, 1}" and tok: "int (sem ! i) + t i + ids ! i = 1"
    using ok i by (auto simp: fichas_ok_def)
  then have baja: "ids ! i = 0" using t nth_binaria [OF bin i] by auto
  have "set (ids[i := 1]) \<subseteq> {0, 1}" using bin set_lista_update [of ids i 1] by auto
  with ok i t baja show ?thesis by (auto simp: fichas_ok_def lista_simps nth_list_update)
qed

lemma fichas_subir:
  "fichas_ok t cant esp ids sem \<Longrightarrow> i < length ids \<Longrightarrow> t i = 1 \<Longrightarrow>
     fichas_ok (t(i := 0)) cant esp ids (subir i sem)"
  by (auto simp: fichas_ok_def nth_subir)

text \<open>A process that finds its semaphore at zero without being inside is one of the sleepers.\<close>

lemma fichas_dormido:
  assumes ok: "fichas_ok t cant esp ids sem" and i: "i < length ids" and t: "t i = 0"
    and b: "wait_on i sem = Bloqueado"
  shows "0 < esp"
proof -
  have bin: "set ids \<subseteq> {0, 1}" and suma: "esp = sum_list ids"
    and "int (sem ! i) + t i + ids ! i = 1" using ok i by (auto simp: fichas_ok_def)
  then have "ids ! i = 1" using b t by (simp add: paso_simps)
  then show ?thesis using i suma sum_list_binaria_pos [OF bin] by auto
qed

section \<open>Processes at a semaphore\<close>

text \<open>
  Where a process is in the loops of a belt: outside, waiting for its semaphore, or past it
  and about to run its section under the lock of the shared memory.
\<close>

datatype 'a productor = P_fuera | P_espera 'a | P_turno 'a
datatype consumidor = C_fuera | C_espera | C_turno

primrec turno_productor :: "'a productor \<Rightarrow> int" where
  "turno_productor P_fuera = 0"
| "turno_productor (P_espera e) = 0"
| "turno_productor (P_turno e) = 1"

primrec turno_consumidor :: "consumidor \<Rightarrow> int" where
  "turno_consumidor C_fuera = 0"
| "turno_consumidor C_espera = 0"
| "turno_consumidor C_turno = 1"

lemma turnos_nonneg [simp]: "0 \<le> turno_productor p" "0 \<le> turno_consumidor q"
  by (cases p; simp) (cases q; simp)

end
