(* ===== verification/CintaCheckin.thy ===== *)
theory CintaCheckin
  imports Anillo Semaforos
begin

text \<open>
  The check-in belt, \<^verbatim>\<open>api/cinta.h\<close>: producers (check-in desks) put luggage on a
  circular buffer in distributed shared memory, one consumer (the check-in robot) takes it
  off. A process sleeps on its own semaphore by keeping it at zero and raising its flag;
  the other side wakes it when the belt stops being full or empty. The record keeps the
  shared memory in the layout of the constructor; the two critical sections are functions on
  it; the whole belt with its processes is a step relation with one rule per blocking point
  of the loops.
\<close>

section \<open>Shared memory\<close>

record 'a cinta = "'a anillo" +
  cantidad_productores :: int
  cantidad_consumidores :: int
  cantidad_productores_esperando :: int
  cantidad_consumidores_esperando :: int
  ids_productores_esperando :: "int list"
  ids_consumidores_esperando :: "int list"
  semaforo_productores :: semset
  semaforo_consumidores :: semset

text \<open>
  The constructor lays its pointers over the words of the segment: eight counters, then one
  flag per producer, one per consumer, then the elements.
\<close>

definition abrir_cinta :: "int list \<Rightarrow> 'a list \<Rightarrow> semset \<Rightarrow> semset \<Rightarrow> 'a cinta" where
  "abrir_cinta palabras elementos sem_prod sem_cons =
     \<lparr>tamanio_vector = palabras ! 0, posicion_libre = palabras ! 1,
      posicion_ocupada = palabras ! 2, cantidad_elementos = palabras ! 3,
      vector_elementos = elementos,
      cantidad_productores = palabras ! 4, cantidad_consumidores = palabras ! 5,
      cantidad_productores_esperando = palabras ! 6,
      cantidad_consumidores_esperando = palabras ! 7,
      ids_productores_esperando = take (nat (palabras ! 4)) (drop 8 palabras),
      ids_consumidores_esperando = take (nat (palabras ! 5)) (drop (8 + nat (palabras ! 4)) palabras),
      semaforo_productores = sem_prod, semaforo_consumidores = sem_cons\<rparr>"

text \<open>
  The semaphores a process connects to when it opens the belt: the consumer (number \<open>-1\<close>)
  to every producer's, a desk to its own; everybody to the consumers'.
\<close>

definition CANTIDAD_MAX_PRODUCTORES_CINTA_CHECKIN :: nat where
  "CANTIDAD_MAX_PRODUCTORES_CINTA_CHECKIN = 4"

definition CANTIDAD_MAX_CONSUMIDORES_CINTA_CHECKIN :: nat where
  "CANTIDAD_MAX_CONSUMIDORES_CINTA_CHECKIN = 1"

definition conexiones_cinta :: "int \<Rightarrow> nat list \<times> nat list" where
  "conexiones_cinta numero_cinta =
     (if numero_cinta = -1 then [0..<CANTIDAD_MAX_PRODUCTORES_CINTA_CHECKIN]
      else [nat (numero_cinta - 1)],
      [0..<CANTIDAD_MAX_CONSUMIDORES_CINTA_CHECKIN])"

section \<open>Operations\<close>

definition despertar_consumidores :: "('a, 'z) cinta_scheme \<Rightarrow> ('a, 'z) cinta_scheme" where
  "despertar_consumidores c =
     (if cantidad_consumidores_esperando c > 0
      then (case despertar (nat (cantidad_consumidores c))
              (ids_consumidores_esperando c, semaforo_consumidores c) of (ids, sem) \<Rightarrow>
              c\<lparr>ids_consumidores_esperando := ids, semaforo_consumidores := sem,
                cantidad_consumidores_esperando := 0\<rparr>)
      else c)"

definition despertar_productores :: "('a, 'z) cinta_scheme \<Rightarrow> ('a, 'z) cinta_scheme" where
  "despertar_productores c =
     (if cantidad_productores_esperando c > 0
      then (case despertar (nat (cantidad_productores c))
              (ids_productores_esperando c, semaforo_productores c) of (ids, sem) \<Rightarrow>
              c\<lparr>ids_productores_esperando := ids, semaforo_productores := sem,
                cantidad_productores_esperando := 0\<rparr>)
      else c)"

text \<open>
  \<^verbatim>\<open>poner_equipaje\<close> between \<^verbatim>\<open>lock\<close> and \<^verbatim>\<open>unlock\<close>: the new
  memory and whether the element was placed. \<open>i\<close> is \<^verbatim>\<open>id_productor - 1\<close>.
\<close>

definition poner_colocacion :: "'a \<Rightarrow> ('a, 'z) cinta_scheme \<Rightarrow> ('a, 'z) cinta_scheme \<times> bool" where
  "poner_colocacion e c =
     (if cantidad_elementos c < tamanio_vector c
      then let c1 = colocar e c
           in (if cantidad_elementos c1 = 1 then despertar_consumidores c1 else c1, True)
      else (c, False))"

definition poner_cierre :: "nat \<Rightarrow> ('a, 'z) cinta_scheme \<Rightarrow> ('a, 'z) cinta_scheme" where
  "poner_cierre i c =
     (if cantidad_elementos c = tamanio_vector c
      then c\<lparr>cantidad_productores_esperando := cantidad_productores_esperando c + 1,
             ids_productores_esperando := (ids_productores_esperando c)[i := 1]\<rparr>
      else c\<lparr>semaforo_productores := subir i (semaforo_productores c)\<rparr>)"

definition poner_seccion :: "'a \<Rightarrow> nat \<Rightarrow> ('a, 'z) cinta_scheme \<Rightarrow> ('a, 'z) cinta_scheme \<times> bool" where
  "poner_seccion e i c =
     (case poner_colocacion e c of (c1, coloque) \<Rightarrow> (poner_cierre i c1, coloque))"

text \<open>\<^verbatim>\<open>sacar_equipaje\<close> between \<^verbatim>\<open>lock\<close> and \<^verbatim>\<open>unlock\<close>, for the consumer of index \<open>j\<close>.\<close>

definition sacar_extraccion :: "('a, 'z) cinta_scheme \<Rightarrow> ('a, 'z) cinta_scheme \<times> 'a option" where
  "sacar_extraccion c =
     (if cantidad_elementos c > 0
      then let c1 = retirar c
           in (if cantidad_elementos c1 = tamanio_vector c1 - 1 then despertar_productores c1 else c1,
               Some (leer c))
      else (c, None))"

definition sacar_cierre :: "nat \<Rightarrow> ('a, 'z) cinta_scheme \<Rightarrow> ('a, 'z) cinta_scheme" where
  "sacar_cierre j c =
     (if cantidad_elementos c = 0
      then c\<lparr>cantidad_consumidores_esperando := cantidad_consumidores_esperando c + 1,
             ids_consumidores_esperando := (ids_consumidores_esperando c)[j := 1]\<rparr>
      else c\<lparr>semaforo_consumidores := subir j (semaforo_consumidores c)\<rparr>)"

definition sacar_seccion :: "nat \<Rightarrow> ('a, 'z) cinta_scheme \<Rightarrow> ('a, 'z) cinta_scheme \<times> 'a option" where
  "sacar_seccion j c =
     (case sacar_extraccion c of (c1, elemento) \<Rightarrow> (sacar_cierre j c1, elemento))"

section \<open>Invariant of the shared memory\<close>

text \<open>
  Every producer's semaphore token is in exactly one place: in the semaphore, with the
  process that passed \<^verbatim>\<open>wait_on\<close> and has not left its section (\<open>tp i = 1\<close>), or
  parked in the raised flag of a sleeper. Nobody sleeps while there is work: a producer's
  flag is up only on a full belt, a consumer's only on an empty one, and the counters of
  sleepers count the raised flags.
\<close>

definition productores_ok :: "(nat \<Rightarrow> int) \<Rightarrow> ('a, 'z) cinta_scheme \<Rightarrow> bool" where
  "productores_ok tp c \<longleftrightarrow>
     fichas_ok tp (cantidad_productores c) (cantidad_productores_esperando c)
       (ids_productores_esperando c) (semaforo_productores c)"

definition consumidores_ok :: "(nat \<Rightarrow> int) \<Rightarrow> ('a, 'z) cinta_scheme \<Rightarrow> bool" where
  "consumidores_ok tc c \<longleftrightarrow>
     fichas_ok tc (cantidad_consumidores c) (cantidad_consumidores_esperando c)
       (ids_consumidores_esperando c) (semaforo_consumidores c)"

definition nadie_duerme_de_mas :: "('a, 'z) cinta_scheme \<Rightarrow> bool" where
  "nadie_duerme_de_mas c \<longleftrightarrow>
     (0 < cantidad_productores_esperando c \<longrightarrow> cantidad_elementos c = tamanio_vector c) \<and>
     (0 < cantidad_consumidores_esperando c \<longrightarrow> cantidad_elementos c = 0)"

definition cinta_ok :: "(nat \<Rightarrow> int) \<Rightarrow> (nat \<Rightarrow> int) \<Rightarrow> ('a, 'z) cinta_scheme \<Rightarrow> bool" where
  "cinta_ok tp tc c \<longleftrightarrow>
     anillo_ok c \<and> productores_ok tp c \<and> consumidores_ok tc c \<and> nadie_duerme_de_mas c"

lemmas cinta_ok_defs = cinta_ok_def productores_ok_def consumidores_ok_def fichas_ok_def nadie_duerme_de_mas_def

text \<open>The buffer does not see the fields of the belt, and the other way round.\<close>

lemma anillo_ok_marco [simp]:
  "anillo_ok (c\<lparr>cantidad_productores_esperando := n, ids_productores_esperando := ids\<rparr>) = anillo_ok c"
  "anillo_ok (c\<lparr>cantidad_consumidores_esperando := n, ids_consumidores_esperando := ids\<rparr>) = anillo_ok c"
  "anillo_ok (c\<lparr>semaforo_productores := s\<rparr>) = anillo_ok c"
  "anillo_ok (c\<lparr>semaforo_consumidores := s\<rparr>) = anillo_ok c"
  by (simp_all add: anillo_ok_def)

lemma contenido_marco [simp]:
  "contenido (c\<lparr>cantidad_productores_esperando := n, ids_productores_esperando := ids\<rparr>) = contenido c"
  "contenido (c\<lparr>cantidad_consumidores_esperando := n, ids_consumidores_esperando := ids\<rparr>) = contenido c"
  "contenido (c\<lparr>semaforo_productores := s\<rparr>) = contenido c"
  "contenido (c\<lparr>semaforo_consumidores := s\<rparr>) = contenido c"
  by (simp_all add: contenido_def)


section \<open>Effect of the operations on the invariant\<close>

lemma despertar_productores_ok:
  assumes "productores_ok tp c"
  shows "productores_ok tp (despertar_productores c)"
    and "cantidad_productores_esperando (despertar_productores c) = 0"
    and "cinta.more (despertar_productores c) = cinta.more c"
  using assms fichas_despertar [of tp "cantidad_productores c"]
    fichas_nadie [of tp "cantidad_productores c" "cantidad_productores_esperando c"]
  by (auto simp: despertar_productores_def productores_ok_def split: prod.splits)

lemma despertar_consumidores_ok:
  assumes "consumidores_ok tc c"
  shows "consumidores_ok tc (despertar_consumidores c)"
    and "cantidad_consumidores_esperando (despertar_consumidores c) = 0"
    and "cinta.more (despertar_consumidores c) = cinta.more c"
  using assms fichas_despertar [of tc "cantidad_consumidores c"]
    fichas_nadie [of tc "cantidad_consumidores c" "cantidad_consumidores_esperando c"]
  by (auto simp: despertar_consumidores_def consumidores_ok_def split: prod.splits)

text \<open>What each group of fields does not see.\<close>

lemma despertar_productores_marco [simp]:
  "anillo_ok (despertar_productores c) = anillo_ok c"
  "contenido (despertar_productores c) = contenido c"
  "cantidad_elementos (despertar_productores c) = cantidad_elementos c"
  "tamanio_vector (despertar_productores c) = tamanio_vector c"
  "consumidores_ok tc (despertar_productores c) = consumidores_ok tc c"
  "cantidad_consumidores_esperando (despertar_productores c) = cantidad_consumidores_esperando c"
  "ids_consumidores_esperando (despertar_productores c) = ids_consumidores_esperando c"
  "semaforo_consumidores (despertar_productores c) = semaforo_consumidores c"
  "cantidad_productores (despertar_productores c) = cantidad_productores c"
  "cantidad_consumidores (despertar_productores c) = cantidad_consumidores c"
  by (auto simp: despertar_productores_def anillo_ok_def contenido_def consumidores_ok_def
      split: prod.splits)

lemma despertar_consumidores_marco [simp]:
  "anillo_ok (despertar_consumidores c) = anillo_ok c"
  "contenido (despertar_consumidores c) = contenido c"
  "cantidad_elementos (despertar_consumidores c) = cantidad_elementos c"
  "tamanio_vector (despertar_consumidores c) = tamanio_vector c"
  "productores_ok tp (despertar_consumidores c) = productores_ok tp c"
  "cantidad_productores_esperando (despertar_consumidores c) = cantidad_productores_esperando c"
  "ids_productores_esperando (despertar_consumidores c) = ids_productores_esperando c"
  "semaforo_productores (despertar_consumidores c) = semaforo_productores c"
  "cantidad_productores (despertar_consumidores c) = cantidad_productores c"
  "cantidad_consumidores (despertar_consumidores c) = cantidad_consumidores c"
  by (auto simp: despertar_consumidores_def anillo_ok_def contenido_def productores_ok_def
      split: prod.splits)

lemma colocar_marco [simp]:
  "productores_ok tp (colocar e c) = productores_ok tp c"
  "consumidores_ok tc (colocar e c) = consumidores_ok tc c"
  "cantidad_productores_esperando (colocar e c) = cantidad_productores_esperando c"
  "cantidad_consumidores_esperando (colocar e c) = cantidad_consumidores_esperando c"
  "ids_productores_esperando (colocar e c) = ids_productores_esperando c"
  "ids_consumidores_esperando (colocar e c) = ids_consumidores_esperando c"
  "semaforo_productores (colocar e c) = semaforo_productores c"
  "semaforo_consumidores (colocar e c) = semaforo_consumidores c"
  "cantidad_productores (colocar e c) = cantidad_productores c"
  "cantidad_consumidores (colocar e c) = cantidad_consumidores c"
  "cinta.more (colocar e c) = cinta.more c"
  by (simp_all add: colocar_def productores_ok_def consumidores_ok_def)

lemma retirar_marco [simp]:
  "productores_ok tp (retirar c) = productores_ok tp c"
  "consumidores_ok tc (retirar c) = consumidores_ok tc c"
  "cantidad_productores_esperando (retirar c) = cantidad_productores_esperando c"
  "cantidad_consumidores_esperando (retirar c) = cantidad_consumidores_esperando c"
  "ids_productores_esperando (retirar c) = ids_productores_esperando c"
  "ids_consumidores_esperando (retirar c) = ids_consumidores_esperando c"
  "semaforo_productores (retirar c) = semaforo_productores c"
  "semaforo_consumidores (retirar c) = semaforo_consumidores c"
  "cantidad_productores (retirar c) = cantidad_productores c"
  "cantidad_consumidores (retirar c) = cantidad_consumidores c"
  "cinta.more (retirar c) = cinta.more c"
  by (simp_all add: retirar_def productores_ok_def consumidores_ok_def)

text \<open>
  Placing an element: done exactly when there is room; the sleeping consumers are woken
  when the belt was empty.
\<close>

lemma poner_colocacion_ok:
  assumes ok: "cinta_ok tp tc c" and p: "poner_colocacion e c = (c1, coloque)"
  shows "cinta_ok tp tc c1"
    and "coloque = (cantidad_elementos c < tamanio_vector c)"
    and "contenido c1 = (if coloque then contenido c @ [e] else contenido c)"
    and "cinta.more c1 = cinta.more c"
    and "length (ids_productores_esperando c1) = length (ids_productores_esperando c)"
    and "tamanio_vector c1 = tamanio_vector c"
proof -
  have "cinta_ok tp tc c1 \<and> coloque = (cantidad_elementos c < tamanio_vector c) \<and>
      contenido c1 = (if coloque then contenido c @ [e] else contenido c) \<and>
      cinta.more c1 = cinta.more c \<and>
      length (ids_productores_esperando c1) = length (ids_productores_esperando c) \<and>
      tamanio_vector c1 = tamanio_vector c"
  proof (cases "cantidad_elementos c < tamanio_vector c")
    case False
    with ok p show ?thesis by (auto simp: poner_colocacion_def)
  next
    case lugar: True
    have ring: "anillo_ok (colocar e c)" and cont: "contenido (colocar e c) = contenido c @ [e]"
      using ok lugar by (auto simp: cinta_ok_def colocar_anillo_ok contenido_colocar)
    have nadie: "cantidad_productores_esperando c \<le> 0"
      using ok lugar by (auto simp: cinta_ok_def nadie_duerme_de_mas_def)
    have pok: "productores_ok tp c" and cok: "consumidores_ok tc c" using ok by (auto simp: cinta_ok_def)
    have sin: "cantidad_consumidores_esperando c \<le> 0 \<or> cantidad_elementos c = 0"
      using ok by (auto simp: cinta_ok_def nadie_duerme_de_mas_def)
    have cok': "consumidores_ok tc (colocar e c)" using cok by simp
    show ?thesis
      using p lugar ring cont nadie pok cok sin despertar_consumidores_ok [OF cok']
      by (auto simp: poner_colocacion_def Let_def cinta_ok_def nadie_duerme_de_mas_def
          split: if_splits)
  qed
  then show "cinta_ok tp tc c1"
    and "coloque = (cantidad_elementos c < tamanio_vector c)"
    and "contenido c1 = (if coloque then contenido c @ [e] else contenido c)"
    and "cinta.more c1 = cinta.more c"
    and "length (ids_productores_esperando c1) = length (ids_productores_esperando c)"
    and "tamanio_vector c1 = tamanio_vector c" by auto
qed

text \<open>
  Leaving the section: the token of producer \<open>i\<close> goes back to its semaphore, or stays
  with the sleeper when the belt is full.
\<close>

lemma poner_cierre_ok:
  assumes ok: "cinta_ok tp tc c" and i: "i < length (ids_productores_esperando c)" and t: "tp i = 1"
  shows "cinta_ok (tp(i := 0)) tc (poner_cierre i c)"
    and "contenido (poner_cierre i c) = contenido c"
    and "cinta.more (poner_cierre i c) = cinta.more c"
    and "length (ids_productores_esperando (poner_cierre i c)) = length (ids_productores_esperando c)"
proof -
  have f: "fichas_ok tp (cantidad_productores c) (cantidad_productores_esperando c)
      (ids_productores_esperando c) (semaforo_productores c)"
    using ok by (simp add: cinta_ok_def productores_ok_def)
  note casos = fichas_dormir [where t = tp, OF f i t] fichas_subir [where t = tp, OF f i t]
  have "\<not> 0 < cantidad_consumidores_esperando c" if "cantidad_elementos c = tamanio_vector c"
    using ok that by (auto simp: cinta_ok_def nadie_duerme_de_mas_def anillo_ok_def)
  then show "cinta_ok (tp(i := 0)) tc (poner_cierre i c)"
    using ok casos
    by (auto simp: poner_cierre_def cinta_ok_def productores_ok_def consumidores_ok_def nadie_duerme_de_mas_def)
  show "contenido (poner_cierre i c) = contenido c" and "cinta.more (poner_cierre i c) = cinta.more c"
    and "length (ids_productores_esperando (poner_cierre i c)) = length (ids_productores_esperando c)"
    by (simp_all add: poner_cierre_def)
qed

lemma poner_seccion_ok:
  assumes ok: "cinta_ok tp tc c" and i: "i < length (ids_productores_esperando c)" and t: "tp i = 1"
    and p: "poner_seccion e i c = (c', coloque)"
  shows "cinta_ok (tp(i := 0)) tc c'"
    and "coloque = (cantidad_elementos c < tamanio_vector c)"
    and "contenido c' = (if coloque then contenido c @ [e] else contenido c)"
    and "cinta.more c' = cinta.more c"
    and "length (ids_productores_esperando c') = length (ids_productores_esperando c)"
proof -
  obtain c1 where c1: "poner_colocacion e c = (c1, coloque)" and c': "c' = poner_cierre i c1"
    using p by (auto simp: poner_seccion_def split: prod.splits)
  note a = poner_colocacion_ok [OF ok c1]
  note b = poner_cierre_ok [OF a(1) _ t]
  show "cinta_ok (tp(i := 0)) tc c'" and "coloque = (cantidad_elementos c < tamanio_vector c)"
    and "contenido c' = (if coloque then contenido c @ [e] else contenido c)"
    and "cinta.more c' = cinta.more c"
    and "length (ids_productores_esperando c') = length (ids_productores_esperando c)"
    using a b i c' by auto
qed

lemma sacar_extraccion_ok:
  assumes ok: "cinta_ok tp tc c" and p: "sacar_extraccion c = (c1, r)"
  shows "cinta_ok tp tc c1"
    and "(r = None) = (cantidad_elementos c = 0)"
    and "contenido c = (case r of None \<Rightarrow> [] | Some x \<Rightarrow> [x]) @ contenido c1"
    and "cinta.more c1 = cinta.more c"
    and "length (ids_consumidores_esperando c1) = length (ids_consumidores_esperando c)"
proof -
  have "cinta_ok tp tc c1 \<and> (r = None) = (cantidad_elementos c = 0) \<and>
      contenido c = (case r of None \<Rightarrow> [] | Some x \<Rightarrow> [x]) @ contenido c1 \<and>
      cinta.more c1 = cinta.more c \<and>
      length (ids_consumidores_esperando c1) = length (ids_consumidores_esperando c)"
  proof (cases "cantidad_elementos c > 0")
    case False
    moreover have "0 \<le> cantidad_elementos c" using ok by (simp add: cinta_ok_def anillo_ok_def)
    ultimately show ?thesis using ok p by (auto simp: sacar_extraccion_def)
  next
    case hay: True
    have ring: "anillo_ok (retirar c)" and cont: "contenido c = leer c # contenido (retirar c)"
      using ok hay by (auto simp: cinta_ok_def retirar_anillo_ok contenido_retirar)
    have nadie: "cantidad_consumidores_esperando c \<le> 0"
      using ok hay by (auto simp: cinta_ok_def nadie_duerme_de_mas_def)
    have pok: "productores_ok tp c" and cok: "consumidores_ok tc c" using ok by (auto simp: cinta_ok_def)
    have sin: "cantidad_productores_esperando c \<le> 0 \<or> cantidad_elementos c = tamanio_vector c"
      using ok by (auto simp: cinta_ok_def nadie_duerme_de_mas_def)
    have pok': "productores_ok tp (retirar c)" using pok by simp
    show ?thesis
      using p hay ring cont nadie pok cok sin despertar_productores_ok [OF pok']
      by (auto simp: sacar_extraccion_def Let_def cinta_ok_def nadie_duerme_de_mas_def
          split: if_splits)
  qed
  then show "cinta_ok tp tc c1" and "(r = None) = (cantidad_elementos c = 0)"
    and "contenido c = (case r of None \<Rightarrow> [] | Some x \<Rightarrow> [x]) @ contenido c1"
    and "cinta.more c1 = cinta.more c"
    and "length (ids_consumidores_esperando c1) = length (ids_consumidores_esperando c)" by auto
qed

lemma sacar_cierre_ok:
  assumes ok: "cinta_ok tp tc c" and j: "j < length (ids_consumidores_esperando c)" and t: "tc j = 1"
  shows "cinta_ok tp (tc(j := 0)) (sacar_cierre j c)"
    and "contenido (sacar_cierre j c) = contenido c"
    and "cinta.more (sacar_cierre j c) = cinta.more c"
    and "length (ids_consumidores_esperando (sacar_cierre j c)) = length (ids_consumidores_esperando c)"
proof -
  have f: "fichas_ok tc (cantidad_consumidores c) (cantidad_consumidores_esperando c)
      (ids_consumidores_esperando c) (semaforo_consumidores c)"
    using ok by (simp add: cinta_ok_def consumidores_ok_def)
  note casos = fichas_dormir [where t = tc, OF f j t] fichas_subir [where t = tc, OF f j t]
  have "\<not> 0 < cantidad_productores_esperando c" if "cantidad_elementos c = 0"
    using ok that by (auto simp: cinta_ok_def nadie_duerme_de_mas_def anillo_ok_def)
  then show "cinta_ok tp (tc(j := 0)) (sacar_cierre j c)"
    using ok casos
    by (auto simp: sacar_cierre_def cinta_ok_def productores_ok_def consumidores_ok_def nadie_duerme_de_mas_def)
  show "contenido (sacar_cierre j c) = contenido c" and "cinta.more (sacar_cierre j c) = cinta.more c"
    and "length (ids_consumidores_esperando (sacar_cierre j c)) = length (ids_consumidores_esperando c)"
    by (simp_all add: sacar_cierre_def)
qed

lemma sacar_seccion_ok:
  assumes ok: "cinta_ok tp tc c" and j: "j < length (ids_consumidores_esperando c)" and t: "tc j = 1"
    and p: "sacar_seccion j c = (c', r)"
  shows "cinta_ok tp (tc(j := 0)) c'"
    and "(r = None) = (cantidad_elementos c = 0)"
    and "contenido c = (case r of None \<Rightarrow> [] | Some x \<Rightarrow> [x]) @ contenido c'"
    and "cinta.more c' = cinta.more c"
    and "length (ids_consumidores_esperando c') = length (ids_consumidores_esperando c)"
proof -
  obtain c1 where c1: "sacar_extraccion c = (c1, r)" and c': "c' = sacar_cierre j c1"
    using p by (auto simp: sacar_seccion_def split: prod.splits)
  note a = sacar_extraccion_ok [OF ok c1]
  note b = sacar_cierre_ok [OF a(1) _ t]
  show "cinta_ok tp (tc(j := 0)) c'" and "(r = None) = (cantidad_elementos c = 0)"
    and "contenido c = (case r of None \<Rightarrow> [] | Some x \<Rightarrow> [x]) @ contenido c'"
    and "cinta.more c' = cinta.more c"
    and "length (ids_consumidores_esperando c') = length (ids_consumidores_esperando c)"
    using a b j c' by auto
qed

text \<open>Passing \<^verbatim>\<open>wait_on\<close> moves the token from the semaphore to the process.\<close>

lemma wait_productor_ok:
  assumes "cinta_ok tp tc c" and "i < length (ids_productores_esperando c)"
    and "0 \<le> tp i" and "wait_on i (semaforo_productores c) = Listo sem"
  shows "tp i = 0" and "cinta_ok (tp(i := 1)) tc (c\<lparr>semaforo_productores := sem\<rparr>)"
  using assms fichas_wait [of tp _ _ "ids_productores_esperando c"]
  by (auto simp: cinta_ok_def productores_ok_def consumidores_ok_def nadie_duerme_de_mas_def)

lemma wait_consumidor_ok:
  assumes "cinta_ok tp tc c" and "j < length (ids_consumidores_esperando c)"
    and "0 \<le> tc j" and "wait_on j (semaforo_consumidores c) = Listo sem"
  shows "tc j = 0" and "cinta_ok tp (tc(j := 1)) (c\<lparr>semaforo_consumidores := sem\<rparr>)"
  using assms fichas_wait [of tc _ _ "ids_consumidores_esperando c"]
  by (auto simp: cinta_ok_def productores_ok_def consumidores_ok_def nadie_duerme_de_mas_def)

lemma dormido_productor:
  assumes "cinta_ok tp tc c" and "i < length (ids_productores_esperando c)" and "tp i = 0"
    and "wait_on i (semaforo_productores c) = Bloqueado"
  shows "0 < cantidad_productores_esperando c"
  using assms fichas_dormido [of tp] by (auto simp: cinta_ok_def productores_ok_def)

lemma dormido_consumidor:
  assumes "cinta_ok tp tc c" and "j < length (ids_consumidores_esperando c)" and "tc j = 0"
    and "wait_on j (semaforo_consumidores c) = Bloqueado"
  shows "0 < cantidad_consumidores_esperando c"
  using assms fichas_dormido [of tc] by (auto simp: cinta_ok_def consumidores_ok_def)

section \<open>The belt with its processes\<close>

text \<open>
  \<open>puestos\<close> and \<open>sacados\<close> record the elements of the calls that returned, in the
  order of their sections. Producer \<open>i\<close> is the process with \<^verbatim>\<open>id_productor = i + 1\<close>;
  the code has one consumer, of index 0.
\<close>

record 'a sis_checkin =
  mem :: "'a cinta"
  prod :: "nat \<Rightarrow> 'a productor"
  cons :: consumidor
  puestos :: "'a list"
  sacados :: "'a list"

text \<open>The state after a section: the loop ends when the element was placed or taken.\<close>

definition fin_poner :: "nat \<Rightarrow> 'a \<Rightarrow> 'a sis_checkin \<Rightarrow> 'a sis_checkin" where
  "fin_poner i e s = (case poner_seccion e i (mem s) of (c', coloque) \<Rightarrow>
     s\<lparr>prod := (prod s)(i := if coloque then P_fuera else P_espera e), mem := c',
       puestos := puestos s @ (if coloque then [e] else [])\<rparr>)"

definition fin_sacar :: "'a sis_checkin \<Rightarrow> 'a sis_checkin" where
  "fin_sacar s = (case sacar_seccion 0 (mem s) of (c', r) \<Rightarrow>
     s\<lparr>cons := (case r of None \<Rightarrow> C_espera | Some x \<Rightarrow> C_fuera), mem := c',
       sacados := sacados s @ (case r of None \<Rightarrow> [] | Some x \<Rightarrow> [x])\<rparr>)"

inductive paso_checkin :: "'a sis_checkin \<Rightarrow> 'a sis_checkin \<Rightarrow> bool" where
  llama_poner: "i < length (ids_productores_esperando (mem s)) \<Longrightarrow> prod s i = P_fuera \<Longrightarrow>
     paso_checkin s (s\<lparr>prod := (prod s)(i := P_espera e)\<rparr>)"
| pasa_poner: "i < length (ids_productores_esperando (mem s)) \<Longrightarrow> prod s i = P_espera e \<Longrightarrow>
     wait_on i (semaforo_productores (mem s)) = Listo sem \<Longrightarrow>
     paso_checkin s (s\<lparr>prod := (prod s)(i := P_turno e), mem := (mem s)\<lparr>semaforo_productores := sem\<rparr>\<rparr>)"
| seccion_poner: "i < length (ids_productores_esperando (mem s)) \<Longrightarrow> prod s i = P_turno e \<Longrightarrow>
     paso_checkin s (fin_poner i e s)"
| llama_sacar: "cons s = C_fuera \<Longrightarrow> paso_checkin s (s\<lparr>cons := C_espera\<rparr>)"
| pasa_sacar: "cons s = C_espera \<Longrightarrow> wait_on 0 (semaforo_consumidores (mem s)) = Listo sem \<Longrightarrow>
     paso_checkin s (s\<lparr>cons := C_turno, mem := (mem s)\<lparr>semaforo_consumidores := sem\<rparr>\<rparr>)"
| seccion_sacar: "cons s = C_turno \<Longrightarrow> paso_checkin s (fin_sacar s)"

inductive_cases paso_checkinE: "paso_checkin s t"

text \<open>The segment as \<^verbatim>\<open>locks/cinta_checkin.init\<close> fills it, every semaphore at 1.\<close>

definition palabras_checkin :: "int list" where
  "palabras_checkin = [10, 0, 0, 0, 4, 1, 0, 0] @ replicate 4 0 @ replicate 1 0"

definition ini_checkin :: "'a \<Rightarrow> 'a sis_checkin" where
  "ini_checkin vacio =
     \<lparr>mem = abrir_cinta palabras_checkin (replicate 10 vacio) (replicate 4 1) (replicate 1 1),
      prod = (\<lambda>_. P_fuera), cons = C_fuera, puestos = [], sacados = []\<rparr>"

definition turnos_p :: "'a sis_checkin \<Rightarrow> nat \<Rightarrow> int" where
  "turnos_p s i = turno_productor (prod s i)"

definition turnos_c :: "'a sis_checkin \<Rightarrow> nat \<Rightarrow> int" where
  "turnos_c s j = (if j = 0 then turno_consumidor (cons s) else 0)"

definition inv_checkin :: "'a sis_checkin \<Rightarrow> bool" where
  "inv_checkin s \<longleftrightarrow>
     cinta_ok (turnos_p s) (turnos_c s) (mem s) \<and>
     0 < length (ids_consumidores_esperando (mem s)) \<and>
     puestos s = sacados s @ contenido (mem s)"

lemma largo_consumidores [simp]:
  "length (ids_consumidores_esperando (despertar_consumidores c)) = length (ids_consumidores_esperando c)"
  by (auto simp: despertar_consumidores_def dest: despertar_length split: prod.splits)

lemma largo_productores [simp]:
  "length (ids_productores_esperando (despertar_productores c)) = length (ids_productores_esperando c)"
  by (auto simp: despertar_productores_def dest: despertar_length split: prod.splits)

lemma poner_seccion_largo:
  "poner_seccion e i c = (c', b) \<Longrightarrow>
     length (ids_consumidores_esperando c') = length (ids_consumidores_esperando c) \<and>
     tamanio_vector c' = tamanio_vector c"
  by (auto simp: poner_seccion_def poner_colocacion_def poner_cierre_def Let_def
      split: prod.splits if_splits)

lemma sacar_seccion_largo:
  "sacar_seccion j c = (c', r) \<Longrightarrow>
     length (ids_productores_esperando c') = length (ids_productores_esperando c) \<and>
     tamanio_vector c' = tamanio_vector c"
  by (auto simp: sacar_seccion_def sacar_extraccion_def sacar_cierre_def Let_def
      split: prod.splits if_splits)

lemma turnos_p_upd:
  "turnos_p (s\<lparr>prod := (prod s)(i := p), mem := c\<rparr>) = (turnos_p s)(i := turno_productor p)"
  "turnos_p (s\<lparr>prod := (prod s)(i := p)\<rparr>) = (turnos_p s)(i := turno_productor p)"
  "turnos_p (s\<lparr>prod := (prod s)(i := p), mem := c, puestos := ps\<rparr>) = (turnos_p s)(i := turno_productor p)"
  "turnos_p (s\<lparr>cons := q, mem := c\<rparr>) = turnos_p s"
  "turnos_p (s\<lparr>cons := q\<rparr>) = turnos_p s"
  "turnos_p (s\<lparr>cons := q, mem := c, sacados := qs\<rparr>) = turnos_p s"
  by (auto simp: turnos_p_def)

lemma turnos_c_upd:
  "turnos_c (s\<lparr>cons := q, mem := c\<rparr>) = (turnos_c s)(0 := turno_consumidor q)"
  "turnos_c (s\<lparr>cons := q\<rparr>) = (turnos_c s)(0 := turno_consumidor q)"
  "turnos_c (s\<lparr>cons := q, mem := c, sacados := qs\<rparr>) = (turnos_c s)(0 := turno_consumidor q)"
  "turnos_c (s\<lparr>prod := p, mem := c\<rparr>) = turnos_c s"
  "turnos_c (s\<lparr>prod := p\<rparr>) = turnos_c s"
  "turnos_c (s\<lparr>prod := p, mem := c, puestos := ps\<rparr>) = turnos_c s"
  by (auto simp: turnos_c_def)

lemmas turnos_simps = turnos_p_upd turnos_c_upd

lemma inv_checkin_ini: "inv_checkin (ini_checkin vacio)"
  by (auto simp: inv_checkin_def ini_checkin_def abrir_cinta_def palabras_checkin_def cinta_ok_defs
      anillo_ok_def contenido_def turnos_p_def turnos_c_def less_Suc_eq numeral_eq_Suc)

lemma inv_checkin_paso: "inv_checkin s \<Longrightarrow> paso_checkin s t \<Longrightarrow> inv_checkin t"
proof (erule paso_checkinE; (simp only:)?)
  fix i e
  assume "inv_checkin s" "prod s i = P_fuera"
  moreover have "(turnos_p s)(i := 0) = turnos_p s"
    using \<open>prod s i = P_fuera\<close> by (auto simp: turnos_p_def)
  ultimately show "inv_checkin (s\<lparr>prod := (prod s)(i := P_espera e)\<rparr>)"
    by (simp add: inv_checkin_def turnos_simps)
next
  fix i e sem
  assume inv: "inv_checkin s" and i: "i < length (ids_productores_esperando (mem s))"
    and w: "wait_on i (semaforo_productores (mem s)) = Listo sem"
  then have "cinta_ok ((turnos_p s)(i := 1)) (turnos_c s) ((mem s)\<lparr>semaforo_productores := sem\<rparr>)"
    by (intro wait_productor_ok(2)) (auto simp: inv_checkin_def turnos_p_def)
  with inv show "inv_checkin (s\<lparr>prod := (prod s)(i := P_turno e), mem := (mem s)\<lparr>semaforo_productores := sem\<rparr>\<rparr>)"
    by (simp add: inv_checkin_def turnos_simps)
next
  fix i e
  assume inv: "inv_checkin s" and i: "i < length (ids_productores_esperando (mem s))"
    and pc: "prod s i = P_turno e"
  obtain c' coloque where sec: "poner_seccion e i (mem s) = (c', coloque)" by fastforce
  have ok: "cinta_ok (turnos_p s) (turnos_c s) (mem s)" and t: "turnos_p s i = 1"
    using inv pc by (auto simp: inv_checkin_def turnos_p_def)
  show "inv_checkin (fin_poner i e s)"
    using poner_seccion_ok [OF ok i t sec] poner_seccion_largo [OF sec] inv sec
    by (auto simp: inv_checkin_def turnos_simps fin_poner_def)
next
  assume "inv_checkin s" "cons s = C_fuera"
  moreover have "(turnos_c s)(0 := 0) = turnos_c s"
    using \<open>cons s = C_fuera\<close> by (auto simp: turnos_c_def)
  ultimately show "inv_checkin (s\<lparr>cons := C_espera\<rparr>)"
    by (simp add: inv_checkin_def turnos_simps)
next
  fix sem
  assume inv: "inv_checkin s" and w: "wait_on 0 (semaforo_consumidores (mem s)) = Listo sem"
  then have "cinta_ok (turnos_p s) ((turnos_c s)(0 := 1)) ((mem s)\<lparr>semaforo_consumidores := sem\<rparr>)"
    by (intro wait_consumidor_ok(2)) (auto simp: inv_checkin_def turnos_c_def)
  with inv show "inv_checkin (s\<lparr>cons := C_turno, mem := (mem s)\<lparr>semaforo_consumidores := sem\<rparr>\<rparr>)"
    by (simp add: inv_checkin_def turnos_simps)
next
  assume inv: "inv_checkin s" and pc: "cons s = C_turno"
  obtain c' r where sec: "sacar_seccion 0 (mem s) = (c', r)" by fastforce
  have ok: "cinta_ok (turnos_p s) (turnos_c s) (mem s)" and t: "turnos_c s 0 = 1"
    and j: "0 < length (ids_consumidores_esperando (mem s))"
    using inv pc by (auto simp: inv_checkin_def turnos_c_def)
  show "inv_checkin (fin_sacar s)"
    using sacar_seccion_ok [OF ok j t sec] inv sec
    by (auto simp: inv_checkin_def turnos_simps fin_sacar_def split: option.splits)
qed

section \<open>Schedules\<close>

datatype 'a accion_checkin =
  Llama_poner nat 'a | Pasa_poner nat | Seccion_poner nat | Llama_sacar | Pasa_sacar | Seccion_sacar

fun hacer_checkin :: "'a accion_checkin \<Rightarrow> 'a sis_checkin \<Rightarrow> 'a sis_checkin option" where
  "hacer_checkin (Llama_poner i e) s =
     (if i < length (ids_productores_esperando (mem s))
      then (case prod s i of P_fuera \<Rightarrow> Some (s\<lparr>prod := (prod s)(i := P_espera e)\<rparr>) | _ \<Rightarrow> None)
      else None)"
| "hacer_checkin (Pasa_poner i) s =
     (if i < length (ids_productores_esperando (mem s))
      then (case prod s i of
          P_espera e \<Rightarrow>
            (case wait_on i (semaforo_productores (mem s)) of
               Listo sem \<Rightarrow> Some (s\<lparr>prod := (prod s)(i := P_turno e),
                 mem := (mem s)\<lparr>semaforo_productores := sem\<rparr>\<rparr>)
             | _ \<Rightarrow> None)
        | _ \<Rightarrow> None)
      else None)"
| "hacer_checkin (Seccion_poner i) s =
     (if i < length (ids_productores_esperando (mem s))
      then (case prod s i of
          P_turno e \<Rightarrow> Some (fin_poner i e s)
        | _ \<Rightarrow> None)
      else None)"
| "hacer_checkin Llama_sacar s =
     (if cons s = C_fuera then Some (s\<lparr>cons := C_espera\<rparr>) else None)"
| "hacer_checkin Pasa_sacar s =
     (if cons s = C_espera
      then (case wait_on 0 (semaforo_consumidores (mem s)) of
              Listo sem \<Rightarrow> Some (s\<lparr>cons := C_turno, mem := (mem s)\<lparr>semaforo_consumidores := sem\<rparr>\<rparr>)
            | _ \<Rightarrow> None)
      else None)"
| "hacer_checkin Seccion_sacar s =
     (if cons s = C_turno then Some (fin_sacar s) else None)"

lemma hacer_checkin_paso: "hacer_checkin a s = Some t \<Longrightarrow> paso_checkin s t"
  by (cases a)
    (auto split: if_splits productor.splits llamada.splits intro: paso_checkin.intros)

interpretation checkin: sistema_ejecutable "\<lambda>s. \<exists>vacio. s = ini_checkin vacio" paso_checkin inv_checkin
    hacer_checkin
  by unfold_locales (auto intro: inv_checkin_ini inv_checkin_paso hacer_checkin_paso)

text \<open>The states of the belt that its processes can reach from the initialised memory.\<close>

abbreviation checkin_alcanzable :: "'a sis_checkin \<Rightarrow> bool" where
  "checkin_alcanzable \<equiv> alcanzable (\<lambda>s. \<exists>vacio. s = ini_checkin vacio) paso_checkin"

text \<open>Two desks each put a piece, the robot takes one: a run used by the witnesses.\<close>

definition corrida_checkin :: "nat accion_checkin list" where
  "corrida_checkin =
     [Llama_sacar, Pasa_sacar, Seccion_sacar, Llama_poner 0 7, Llama_poner 2 9, Pasa_poner 0, Pasa_poner 2,
      Seccion_poner 2, Seccion_poner 0, Pasa_sacar, Seccion_sacar, Llama_sacar, Llama_poner 1 5]"

definition estado_checkin :: "nat sis_checkin" where
  "estado_checkin = the (ejecutar hacer_checkin corrida_checkin (ini_checkin 0))"

lemma corrida_checkin_ok:
  "ejecutar hacer_checkin corrida_checkin (ini_checkin 0) = Some estado_checkin"
proof -
  have "ejecutar hacer_checkin corrida_checkin (ini_checkin 0) \<noteq> None" by code_simp
  then show ?thesis unfolding estado_checkin_def by force
qed

lemma estado_checkin_alcanzable: "checkin_alcanzable estado_checkin"
  by (rule checkin.ejecutar_inicio [OF _ corrida_checkin_ok]) auto

lemma estado_checkin_valores:
  "puestos estado_checkin = [9, 7]" "sacados estado_checkin = [9]"
  "contenido (mem estado_checkin) = [7]"
  "prod estado_checkin 1 = P_espera 5" "cons estado_checkin = C_espera"
  "cantidad_elementos (mem estado_checkin) = 1"
  "tamanio_vector (mem estado_checkin) = 10"
  "length (ids_productores_esperando (mem estado_checkin)) = 4"
  by code_simp+

lemma tamanio_checkin: "checkin_alcanzable s \<Longrightarrow> tamanio_vector (mem s) = 10 \<and>
    length (ids_productores_esperando (mem s)) = 4"
proof (induction rule: alcanzable.induct)
  case (inicio s)
  then show ?case by (auto simp: ini_checkin_def abrir_cinta_def palabras_checkin_def)
next
  case (avance s t)
  from avance(2) have "tamanio_vector (mem t) = tamanio_vector (mem s) \<and>
      length (ids_productores_esperando (mem t)) = length (ids_productores_esperando (mem s))"
  proof (cases rule: paso_checkin.cases)
    case (seccion_poner i e)
    obtain c' coloque where sec: "poner_seccion e i (mem s) = (c', coloque)" by fastforce
    from avance(1) have "inv_checkin s" by (rule checkin.inv_alcanzable)
    then have ok: "cinta_ok (turnos_p s) (turnos_c s) (mem s)" by (simp add: inv_checkin_def)
    have "turnos_p s i = 1" using seccion_poner by (simp add: turnos_p_def)
    from poner_seccion_ok(5) [OF ok seccion_poner(2) this sec]
    show ?thesis using seccion_poner poner_seccion_largo [OF sec] sec by (simp add: fin_poner_def)
  qed (auto simp: fin_sacar_def dest: sacar_seccion_largo split: prod.splits)
  with avance show ?case by simp
qed

section \<open>Properties\<close>

text \<open>
  C3. The check-in belt is a bounded FIFO under every interleaving of its desks and its
  robot: in each reachable state the pieces put so far are, in order, the pieces taken
  followed by the contents of the buffer, and never more than the ten of
  \<^verbatim>\<open>CAPACIDAD_CINTA_CHECKIN\<close> are on it.
\<close>

theorem checkin_fifo:
  assumes "checkin_alcanzable s"
  shows "puestos s = sacados s @ contenido (mem s) \<and> length (contenido (mem s)) \<le> 10"
proof -
  have "inv_checkin s" using assms by (rule checkin.inv_alcanzable)
  then show ?thesis
    using tamanio_checkin [OF assms]
    by (auto simp: inv_checkin_def cinta_ok_def anillo_ok_def length_contenido)
qed

theorem checkin_fifo_witness:
  "checkin_alcanzable estado_checkin \<and> puestos estado_checkin = [9] @ [7]"
  using checkin_fifo [OF estado_checkin_alcanzable] estado_checkin_alcanzable
  by (simp add: estado_checkin_valores)

text \<open>
  C4. No wake-up is lost on the check-in belt: in every reachable state a desk that waits
  passes its semaphore at once unless the belt is full, and the robot passes its own at once
  unless the belt is empty; so a waiting desk and the waiting robot are never both blocked.
\<close>

theorem checkin_sin_despertar_perdido:
  assumes "checkin_alcanzable s"
  shows "(\<forall>i e. i < 4 \<and> prod s i = P_espera e \<and> wait_on i (semaforo_productores (mem s)) = Bloqueado
            \<longrightarrow> cantidad_elementos (mem s) = tamanio_vector (mem s))
       \<and> (cons s = C_espera \<and> wait_on 0 (semaforo_consumidores (mem s)) = Bloqueado
            \<longrightarrow> cantidad_elementos (mem s) = 0)
       \<and> cantidad_elementos (mem s) \<in> {0..10} \<and> tamanio_vector (mem s) = 10"
proof (intro conjI allI impI; (elim conjE)?)
  have inv: "inv_checkin s" using assms by (rule checkin.inv_alcanzable)
  then have ok: "cinta_ok (turnos_p s) (turnos_c s) (mem s)" by (simp add: inv_checkin_def)
  note tam = tamanio_checkin [OF assms]
  show "tamanio_vector (mem s) = 10" using tam by simp
  show "cantidad_elementos (mem s) \<in> {0..10}" using ok tam by (auto simp: cinta_ok_def anillo_ok_def)
  {
    fix i e
    assume "i < 4" and "prod s i = P_espera e" and "wait_on i (semaforo_productores (mem s)) = Bloqueado"
    then have "0 < cantidad_productores_esperando (mem s)"
      using tam by (intro dormido_productor [OF ok, of i]) (simp_all add: turnos_p_def)
    then show "cantidad_elementos (mem s) = tamanio_vector (mem s)"
      using ok by (auto simp: cinta_ok_defs)
  }
  assume "cons s = C_espera" and "wait_on 0 (semaforo_consumidores (mem s)) = Bloqueado"
  then have "0 < cantidad_consumidores_esperando (mem s)"
    using inv by (intro dormido_consumidor [OF ok, of 0]) (simp_all add: turnos_c_def inv_checkin_def)
  then show "cantidad_elementos (mem s) = 0" using ok by (auto simp: cinta_ok_defs)
qed

theorem checkin_sin_despertar_perdido_witness:
  "prod estado_checkin 1 = P_espera 5 \<and> cons estado_checkin = C_espera \<and>
   wait_on 1 (semaforo_productores (mem estado_checkin)) \<noteq> Bloqueado"
  using checkin_sin_despertar_perdido [OF estado_checkin_alcanzable] estado_checkin_valores by force

end
