(* ===== verification/CintaContenedor.thy ===== *)
theory CintaContenedor
  imports CintaCheckin
begin

text \<open>
  The container belt of a zone, \<^verbatim>\<open>api/cintacarga.h\<close>: the dispatch robot puts
  luggage, the loading robot takes it, and the check-in controller announces the close of
  check-in with the number of pieces to expect. The segment is that of \<open>cinta\<close> with two
  more words. A \<^verbatim>\<open>sacar_equipaje\<close> can return without a piece, once per load, to
  report the close.
\<close>

section \<open>Shared memory and operations\<close>

record 'a cinta_carga = "'a cinta" +
  checkin_cerrado :: int
  numero_de_valijas_totales :: int

text \<open>
  The constructor: ten counters, then \<^verbatim>\<open>CANTIDAD_MAX_CINTAS_CONTENEDOR\<close> flags for
  the producers and as many for the consumers. A process connects to one semaphore of each
  set, the one of its belt.
\<close>

definition CANTIDAD_MAX_CINTAS_CONTENEDOR :: nat where
  "CANTIDAD_MAX_CINTAS_CONTENEDOR = 8"

definition abrir_cinta_carga :: "int list \<Rightarrow> 'a list \<Rightarrow> semset \<Rightarrow> semset \<Rightarrow> 'a cinta_carga" where
  "abrir_cinta_carga palabras elementos sem_prod sem_cons =
     \<lparr>tamanio_vector = palabras ! 0, posicion_libre = palabras ! 1,
      posicion_ocupada = palabras ! 2, cantidad_elementos = palabras ! 3,
      vector_elementos = elementos,
      cantidad_productores = palabras ! 4, cantidad_consumidores = palabras ! 5,
      cantidad_productores_esperando = palabras ! 6,
      cantidad_consumidores_esperando = palabras ! 7,
      ids_productores_esperando = take CANTIDAD_MAX_CINTAS_CONTENEDOR (drop 10 palabras),
      ids_consumidores_esperando =
        take CANTIDAD_MAX_CINTAS_CONTENEDOR (drop (10 + CANTIDAD_MAX_CINTAS_CONTENEDOR) palabras),
      semaforo_productores = sem_prod, semaforo_consumidores = sem_cons,
      checkin_cerrado = palabras ! 8, numero_de_valijas_totales = palabras ! 9\<rparr>"

definition carga_despertar_consumidores :: "'a cinta_carga \<Rightarrow> 'a cinta_carga" where
  "carga_despertar_consumidores c =
     (if cantidad_consumidores_esperando c > 0
      then (case despertar (nat (cantidad_consumidores c))
              (ids_consumidores_esperando c, semaforo_consumidores c) of (ids, sem) \<Rightarrow>
              c\<lparr>ids_consumidores_esperando := ids, semaforo_consumidores := sem,
                cantidad_consumidores_esperando := 0\<rparr>)
      else c)"

definition carga_despertar_productores :: "'a cinta_carga \<Rightarrow> 'a cinta_carga" where
  "carga_despertar_productores c =
     (if cantidad_productores_esperando c > 0
      then (case despertar (nat (cantidad_productores c))
              (ids_productores_esperando c, semaforo_productores c) of (ids, sem) \<Rightarrow>
              c\<lparr>ids_productores_esperando := ids, semaforo_productores := sem,
                cantidad_productores_esperando := 0\<rparr>)
      else c)"

text \<open>\<^verbatim>\<open>poner_equipaje\<close> under the lock, for the producer of index \<open>i\<close>.\<close>

definition carga_poner :: "'a \<Rightarrow> nat \<Rightarrow> 'a cinta_carga \<Rightarrow> 'a cinta_carga \<times> bool" where
  "carga_poner e i c =
     (let (c1, coloque) =
        (if cantidad_elementos c < tamanio_vector c
         then let c' = colocar e c
              in (if cantidad_elementos c' = 1 then carga_despertar_consumidores c' else c', True)
         else (c, False))
      in (if cantidad_elementos c1 = tamanio_vector c1
          then c1\<lparr>cantidad_productores_esperando := cantidad_productores_esperando c1 + 1,
                  ids_productores_esperando := (ids_productores_esperando c1)[i := 1]\<rparr>
          else c1\<lparr>semaforo_productores := subir i (semaforo_productores c1)\<rparr>, coloque))"

text \<open>
  \<^verbatim>\<open>sacar_equipaje\<close> under the lock: nothing yet, a piece, or the dummy element that
  reports the close. \<open>ya\<close> is \<^verbatim>\<open>ya_me_desperto_el_cierre_de_checkin\<close>, private to
  the process.
\<close>

datatype 'a extraccion = Nada | Pieza 'a | Aviso_cierre

definition carga_tomar :: "nat \<Rightarrow> 'a cinta_carga \<Rightarrow> 'a cinta_carga \<times> 'a extraccion" where
  "carga_tomar j c =
     (let (c1, r) =
        (if cantidad_elementos c > 0
         then let c' = retirar c
              in (if cantidad_elementos c' = tamanio_vector c' - 1 then carga_despertar_productores c' else c',
                  Pieza (leer c))
         else (c, Nada))
      in (if cantidad_elementos c1 = 0
          then c1\<lparr>cantidad_consumidores_esperando := cantidad_consumidores_esperando c1 + 1,
                  ids_consumidores_esperando := (ids_consumidores_esperando c1)[j := 1]\<rparr>
          else c1\<lparr>semaforo_consumidores := subir j (semaforo_consumidores c1)\<rparr>, r))"

definition carga_sacar :: "nat \<Rightarrow> bool \<Rightarrow> 'a cinta_carga \<Rightarrow> 'a cinta_carga \<times> bool \<times> 'a extraccion" where
  "carga_sacar j ya c =
     (if ya \<or> checkin_cerrado c = 0 then (case carga_tomar j c of (c', r) \<Rightarrow> (c', ya, r))
      else if \<not> ya \<and> checkin_cerrado c = 1
      then (c\<lparr>semaforo_consumidores := subir j (semaforo_consumidores c)\<rparr>, True, Aviso_cierre)
      else (c, ya, Nada))"

definition comenzar_nueva_carga :: "'a cinta_carga \<Rightarrow> 'a cinta_carga \<times> bool" where
  "comenzar_nueva_carga c = (c\<lparr>numero_de_valijas_totales := 0, checkin_cerrado := 0\<rparr>, False)"

definition checkin_ya_cerro :: "bool \<Rightarrow> bool" where
  "checkin_ya_cerro ya = ya"

definition cantidad_valijas_totales :: "bool \<Rightarrow> 'a cinta_carga \<Rightarrow> int" where
  "cantidad_valijas_totales ya c = (if ya then numero_de_valijas_totales c else -1)"

definition avisar_cierre_de_checkin :: "int \<Rightarrow> 'a cinta_carga \<Rightarrow> 'a cinta_carga" where
  "avisar_cierre_de_checkin cantidad_de_valijas c =
     carga_despertar_consumidores
       (c\<lparr>numero_de_valijas_totales := cantidad_de_valijas, checkin_cerrado := 1\<rparr>)"

section \<open>The sections are those of the check-in belt\<close>

text \<open>
  The two class templates share their text; so the sections agree with those of \<open>cinta\<close>
  on the extended segment and its lemmas apply.
\<close>

lemma carga_despertar_consumidores_eq: "carga_despertar_consumidores = despertar_consumidores"
  by (simp add: fun_eq_iff carga_despertar_consumidores_def despertar_consumidores_def)

lemma carga_despertar_productores_eq: "carga_despertar_productores = despertar_productores"
  by (simp add: fun_eq_iff carga_despertar_productores_def despertar_productores_def)

lemma carga_poner_eq: "carga_poner e i c = poner_seccion e i c"
  by (simp add: carga_poner_def poner_seccion_def poner_colocacion_def poner_cierre_def Let_def
      carga_despertar_consumidores_eq)

definition como_extraccion :: "'a option \<Rightarrow> 'a extraccion" where
  "como_extraccion r = (case r of None \<Rightarrow> Nada | Some x \<Rightarrow> Pieza x)"

lemma carga_tomar_eq:
  "carga_tomar j c = (case sacar_seccion j c of (c', r) \<Rightarrow> (c', como_extraccion r))"
  by (simp add: carga_tomar_def sacar_seccion_def sacar_extraccion_def sacar_cierre_def Let_def
      carga_despertar_productores_eq como_extraccion_def)

lemma cierre_marco [simp]:
  "cinta_ok tp tc (c\<lparr>numero_de_valijas_totales := n, checkin_cerrado := k\<rparr>) = cinta_ok tp tc c"
  "consumidores_ok tc (c\<lparr>numero_de_valijas_totales := n, checkin_cerrado := k\<rparr>) = consumidores_ok tc c"
  "contenido (c\<lparr>numero_de_valijas_totales := n, checkin_cerrado := k\<rparr>) = contenido c"
  by (simp_all add: cinta_ok_defs anillo_ok_def contenido_def)

lemma more_cerrado: "cinta.more c = cinta.more c' \<Longrightarrow>
    checkin_cerrado c = checkin_cerrado c' \<and> numero_de_valijas_totales c = numero_de_valijas_totales c'"
  for c c' :: "'a cinta_carga"
  by (cases c; cases c') simp

lemma carga_poner_ok:
  assumes "cinta_ok tp tc c" and "i < length (ids_productores_esperando c)" and "tp i = 1"
    and "carga_poner e i c = (c', coloque)"
  shows "cinta_ok (tp(i := 0)) tc c'"
    and "coloque = (cantidad_elementos c < tamanio_vector c)"
    and "contenido c' = (if coloque then contenido c @ [e] else contenido c)"
    and "checkin_cerrado c' = checkin_cerrado c"
    and "length (ids_productores_esperando c') = length (ids_productores_esperando c)"
    and "length (ids_consumidores_esperando c') = length (ids_consumidores_esperando c)"
proof -
  have sec: "poner_seccion e i c = (c', coloque)" using assms(4) by (simp add: carga_poner_eq)
  note a = poner_seccion_ok [OF assms(1-3) sec]
  show "cinta_ok (tp(i := 0)) tc c'" and "coloque = (cantidad_elementos c < tamanio_vector c)"
    and "contenido c' = (if coloque then contenido c @ [e] else contenido c)"
    and "length (ids_productores_esperando c') = length (ids_productores_esperando c)"
    using a by auto
  show "checkin_cerrado c' = checkin_cerrado c" using a(4) more_cerrado by blast
  show "length (ids_consumidores_esperando c') = length (ids_consumidores_esperando c)"
    using poner_seccion_largo [OF sec] by simp
qed

lemma carga_tomar_ok:
  assumes "cinta_ok tp tc c" and "j < length (ids_consumidores_esperando c)" and "tc j = 1"
    and "carga_tomar j c = (c', r)"
  shows "cinta_ok tp (tc(j := 0)) c'"
    and "(r = Nada) = (cantidad_elementos c = 0)" and "r \<noteq> Aviso_cierre"
    and "contenido c = (case r of Pieza x \<Rightarrow> [x] | _ \<Rightarrow> []) @ contenido c'"
    and "checkin_cerrado c' = checkin_cerrado c"
    and "length (ids_consumidores_esperando c') = length (ids_consumidores_esperando c)"
    and "length (ids_productores_esperando c') = length (ids_productores_esperando c)"
proof -
  obtain q where sec: "sacar_seccion j c = (c', q)" and r: "r = como_extraccion q"
    using assms(4) by (auto simp: carga_tomar_eq split: prod.splits)
  note a = sacar_seccion_ok [OF assms(1-3) sec]
  show "cinta_ok tp (tc(j := 0)) c'" and "(r = Nada) = (cantidad_elementos c = 0)"
    and "r \<noteq> Aviso_cierre"
    and "contenido c = (case r of Pieza x \<Rightarrow> [x] | _ \<Rightarrow> []) @ contenido c'"
    and "length (ids_consumidores_esperando c') = length (ids_consumidores_esperando c)"
    using a r by (auto simp: como_extraccion_def split: option.splits)
  show "checkin_cerrado c' = checkin_cerrado c" using a(4) more_cerrado by blast
  show "length (ids_productores_esperando c') = length (ids_productores_esperando c)"
    using sacar_seccion_largo [OF sec] by simp
qed

section \<open>The belt of a zone with its processes\<close>

text \<open>
  Belt \<open>k + 1\<close> has one producer (the dispatch robot), one consumer (the loading robot
  of the zone) and the controller. The ghost fields record the placed pieces, everything
  handed to the loading robot, what was handed to it since it began the current load, and
  the last announced total.
\<close>

record 'a sis_contenedor =
  zmem :: "'a cinta_carga"
  zprod :: "'a productor"
  zcons :: consumidor
  zya :: bool
  zpuestos :: "'a list"
  zentregados :: "'a extraccion list"
  zcarga :: "'a extraccion list"
  zanuncio :: int

definition fin_carga_poner :: "nat \<Rightarrow> 'a \<Rightarrow> 'a sis_contenedor \<Rightarrow> 'a sis_contenedor" where
  "fin_carga_poner k e s = (case carga_poner e k (zmem s) of (c', coloque) \<Rightarrow>
     s\<lparr>zprod := if coloque then P_fuera else P_espera e, zmem := c',
       zpuestos := zpuestos s @ (if coloque then [e] else [])\<rparr>)"

definition fin_carga_sacar :: "nat \<Rightarrow> 'a sis_contenedor \<Rightarrow> 'a sis_contenedor" where
  "fin_carga_sacar k s = (case carga_sacar k (zya s) (zmem s) of (c', ya', r) \<Rightarrow>
     s\<lparr>zcons := if r = Nada then C_espera else C_fuera, zmem := c', zya := ya',
       zentregados := zentregados s @ (if r = Nada then [] else [r]),
       zcarga := zcarga s @ (if r = Nada then [] else [r])\<rparr>)"

definition fin_nueva_carga :: "'a sis_contenedor \<Rightarrow> 'a sis_contenedor" where
  "fin_nueva_carga s = (case comenzar_nueva_carga (zmem s) of (c', ya') \<Rightarrow>
     s\<lparr>zmem := c', zya := ya', zcarga := []\<rparr>)"

definition fin_avisar :: "int \<Rightarrow> 'a sis_contenedor \<Rightarrow> 'a sis_contenedor" where
  "fin_avisar n s = s\<lparr>zmem := avisar_cierre_de_checkin n (zmem s), zanuncio := n\<rparr>"

inductive paso_contenedor :: "nat \<Rightarrow> 'a sis_contenedor \<Rightarrow> 'a sis_contenedor \<Rightarrow> bool" for k :: nat where
  z_llama_poner: "zprod s = P_fuera \<Longrightarrow> paso_contenedor k s (s\<lparr>zprod := P_espera e\<rparr>)"
| z_pasa_poner: "zprod s = P_espera e \<Longrightarrow> wait_on k (semaforo_productores (zmem s)) = Listo sem \<Longrightarrow>
     paso_contenedor k s (s\<lparr>zprod := P_turno e, zmem := (zmem s)\<lparr>semaforo_productores := sem\<rparr>\<rparr>)"
| z_seccion_poner: "zprod s = P_turno e \<Longrightarrow> paso_contenedor k s (fin_carga_poner k e s)"
| z_llama_sacar: "zcons s = C_fuera \<Longrightarrow> paso_contenedor k s (s\<lparr>zcons := C_espera\<rparr>)"
| z_pasa_sacar: "zcons s = C_espera \<Longrightarrow> wait_on k (semaforo_consumidores (zmem s)) = Listo sem \<Longrightarrow>
     paso_contenedor k s (s\<lparr>zcons := C_turno, zmem := (zmem s)\<lparr>semaforo_consumidores := sem\<rparr>\<rparr>)"
| z_seccion_sacar: "zcons s = C_turno \<Longrightarrow> paso_contenedor k s (fin_carga_sacar k s)"
| z_nueva_carga: "zcons s = C_fuera \<Longrightarrow> paso_contenedor k s (fin_nueva_carga s)"
| z_avisar: "paso_contenedor k s (fin_avisar n s)"

inductive_cases paso_contenedorE: "paso_contenedor k s t"

text \<open>The segment as \<^verbatim>\<open>locks/cinta_contenedor.init\<close> fills it; of each set, only the semaphore of the belt is used.\<close>

definition palabras_contenedor :: "int list" where
  "palabras_contenedor = [10, 0, 0, 0, 8, 8, 0, 0, 0, 0] @ replicate 8 0 @ replicate 8 0"

definition ini_contenedor :: "nat \<Rightarrow> 'a \<Rightarrow> 'a sis_contenedor" where
  "ini_contenedor k vacio =
     \<lparr>zmem = abrir_cinta_carga palabras_contenedor (replicate 10 vacio)
        ((replicate 8 0)[k := 1]) ((replicate 8 0)[k := 1]),
      zprod = P_fuera, zcons = C_fuera, zya = False, zpuestos = [], zentregados = [],
      zcarga = [], zanuncio = 0\<rparr>"

primrec pieza_de :: "'a extraccion \<Rightarrow> 'a list" where
  "pieza_de Nada = []"
| "pieza_de (Pieza x) = [x]"
| "pieza_de Aviso_cierre = []"

definition piezas :: "'a extraccion list \<Rightarrow> 'a list" where
  "piezas rs = concat (map pieza_de rs)"

definition avisos :: "'a extraccion list \<Rightarrow> nat" where
  "avisos rs = length (filter (\<lambda>r. r = Aviso_cierre) rs)"

text \<open>The tokens of the other belts' semaphores count as being elsewhere.\<close>

definition zturnos_p :: "nat \<Rightarrow> 'a sis_contenedor \<Rightarrow> nat \<Rightarrow> int" where
  "zturnos_p k s i = (if i = k then turno_productor (zprod s) else 1)"

definition zturnos_c :: "nat \<Rightarrow> 'a sis_contenedor \<Rightarrow> nat \<Rightarrow> int" where
  "zturnos_c k s i = (if i = k then turno_consumidor (zcons s) else 1)"

definition cierre_ok :: "bool \<Rightarrow> int \<Rightarrow> 'a cinta_carga \<Rightarrow> bool" where
  "cierre_ok ya n c \<longleftrightarrow>
     checkin_cerrado c \<in> {0, 1} \<and>
     (ya \<longrightarrow> checkin_cerrado c = 1) \<and>
     (checkin_cerrado c = 1 \<longrightarrow> numero_de_valijas_totales c = n) \<and>
     (checkin_cerrado c = 1 \<and> 0 < cantidad_consumidores_esperando c \<longrightarrow> ya)"

definition inv_contenedor :: "nat \<Rightarrow> 'a sis_contenedor \<Rightarrow> bool" where
  "inv_contenedor k s \<longleftrightarrow>
     cinta_ok (zturnos_p k s) (zturnos_c k s) (zmem s) \<and>
     k < length (ids_productores_esperando (zmem s)) \<and>
     k < length (ids_consumidores_esperando (zmem s)) \<and>
     cierre_ok (zya s) (zanuncio s) (zmem s) \<and>
     zpuestos s = piezas (zentregados s) @ contenido (zmem s) \<and>
     avisos (zcarga s) = (if zya s then 1 else 0)"

lemma poner_seccion_esperando:
  "poner_seccion e i c = (c', b) \<Longrightarrow> 0 < cantidad_consumidores_esperando c' \<Longrightarrow>
     0 < cantidad_consumidores_esperando c"
  by (auto simp: poner_seccion_def poner_colocacion_def poner_cierre_def Let_def despertar_consumidores_def
      split: prod.splits if_splits)

lemma carga_poner_cierre_ok:
  assumes "cinta_ok tp tc c" and "i < length (ids_productores_esperando c)" and "tp i = 1"
    and "carga_poner e i c = (c', coloque)" and "cierre_ok ya n c"
  shows "cierre_ok ya n c'"
proof -
  have sec: "poner_seccion e i c = (c', coloque)" using assms(4) by (simp add: carga_poner_eq)
  have "checkin_cerrado c' = checkin_cerrado c \<and> numero_de_valijas_totales c' = numero_de_valijas_totales c"
    by (rule more_cerrado) (rule poner_seccion_ok(4) [OF assms(1-3) sec])
  then show ?thesis using assms(5) poner_seccion_esperando [OF sec] by (auto simp: cierre_ok_def)
qed

lemma carga_tomar_cierre_ok:
  assumes "cinta_ok tp tc c" and "j < length (ids_consumidores_esperando c)" and "tc j = 1"
    and "carga_tomar j c = (c', r)" and "cierre_ok ya n c" and "ya \<or> checkin_cerrado c = 0"
  shows "cierre_ok ya n c'"
proof -
  obtain q where sec: "sacar_seccion j c = (c', q)"
    using assms(4) by (auto simp: carga_tomar_eq split: prod.splits)
  have "checkin_cerrado c' = checkin_cerrado c \<and> numero_de_valijas_totales c' = numero_de_valijas_totales c"
    by (rule more_cerrado) (rule sacar_seccion_ok(4) [OF assms(1-3) sec])
  then show ?thesis using assms(5,6) by (auto simp: cierre_ok_def)
qed

text \<open>
  The whole section of \<^verbatim>\<open>sacar_equipaje\<close>: the piece is the oldest, and the close is
  reported exactly when it was announced and not reported before.
\<close>

lemma carga_sacar_ok:
  assumes ok: "cinta_ok tp tc c" and j: "j < length (ids_consumidores_esperando c)" and t: "tc j = 1"
    and s: "carga_sacar j ya c = (c', ya', r)" and z: "cierre_ok ya n c"
  shows "cinta_ok tp (tc(j := 0)) c'" and "contenido c = pieza_de r @ contenido c'"
    and "cierre_ok ya' n c'" and "avisos [r] = (if ya' then 1 else 0) - (if ya then 1 else 0)"
    and "ya \<longrightarrow> ya'"
    and "length (ids_productores_esperando c') = length (ids_productores_esperando c)"
    and "length (ids_consumidores_esperando c') = length (ids_consumidores_esperando c)"
proof -
  have "cinta_ok tp (tc(j := 0)) c' \<and> contenido c = pieza_de r @ contenido c' \<and>
      cierre_ok ya' n c' \<and> avisos [r] = (if ya' then 1 else 0) - (if ya then 1 else 0) \<and> (ya \<longrightarrow> ya') \<and>
      length (ids_productores_esperando c') = length (ids_productores_esperando c) \<and>
      length (ids_consumidores_esperando c') = length (ids_consumidores_esperando c)"
  proof (cases "ya \<or> checkin_cerrado c = 0")
    case True
    then have sec: "carga_tomar j c = (c', r)" and y: "ya' = ya"
      using s by (auto simp: carga_sacar_def split: prod.splits)
    note a = carga_tomar_ok [OF ok j t sec] carga_tomar_cierre_ok [OF ok j t sec z True]
    have "contenido c = pieza_de r @ contenido c'" using a(4) by (cases r) auto
    then show ?thesis using a y by (auto simp: avisos_def)
  next
    case False
    then have uno: "checkin_cerrado c = 1" and nya: "\<not> ya" using z by (auto simp: cierre_ok_def)
    then have c': "c' = c\<lparr>semaforo_consumidores := subir j (semaforo_consumidores c)\<rparr>"
      and r: "r = Aviso_cierre" and y: "ya'" using s by (auto simp: carga_sacar_def)
    have nadie: "cantidad_consumidores_esperando c \<le> 0" using z uno nya by (auto simp: cierre_ok_def)
    have "int (semaforo_consumidores c ! j) + tc j + ids_consumidores_esperando c ! j = 1"
      using ok j by (auto simp: cinta_ok_defs)
    with t ok j have "cinta_ok tp (tc(j := 0)) c'"
      using nth_subir [of _ "semaforo_consumidores c" j] by (auto simp: cinta_ok_defs c')
    then show ?thesis using z uno nya r y c' by (auto simp: cierre_ok_def avisos_def)
  qed
  then show "cinta_ok tp (tc(j := 0)) c'" and "contenido c = pieza_de r @ contenido c'"
    and "cierre_ok ya' n c'" and "avisos [r] = (if ya' then 1 else 0) - (if ya then 1 else 0)"
    and "ya \<longrightarrow> ya'"
    and "length (ids_productores_esperando c') = length (ids_productores_esperando c)"
    and "length (ids_consumidores_esperando c') = length (ids_consumidores_esperando c)" by auto
qed

lemma avisar_ok:
  assumes "cinta_ok tp tc c" and "cierre_ok ya n c"
  shows "cinta_ok tp tc (avisar_cierre_de_checkin m c)"
    and "contenido (avisar_cierre_de_checkin m c) = contenido c"
    and "cierre_ok ya m (avisar_cierre_de_checkin m c)"
    and "length (ids_productores_esperando (avisar_cierre_de_checkin m c)) = length (ids_productores_esperando c)"
    and "length (ids_consumidores_esperando (avisar_cierre_de_checkin m c)) = length (ids_consumidores_esperando c)"
proof -
  let ?d = "c\<lparr>numero_de_valijas_totales := m, checkin_cerrado := 1\<rparr>"
  have ok: "cinta_ok tp tc ?d" and cons: "consumidores_ok tc ?d"
    using assms(1) by (simp_all add: cinta_ok_def [of tp tc c])
  have more: "cinta.more (despertar_consumidores ?d) = cinta.more ?d"
    and cero: "cantidad_consumidores_esperando (despertar_consumidores ?d) = 0"
    using despertar_consumidores_ok [OF cons] by auto
  show "cinta_ok tp tc (avisar_cierre_de_checkin m c)"
    using ok despertar_consumidores_ok [OF cons] cero
    by (simp add: avisar_cierre_de_checkin_def carga_despertar_consumidores_eq cinta_ok_def
        nadie_duerme_de_mas_def)
  show "contenido (avisar_cierre_de_checkin m c) = contenido c"
    by (simp add: avisar_cierre_de_checkin_def carga_despertar_consumidores_eq)
  show "cierre_ok ya m (avisar_cierre_de_checkin m c)"
    using more_cerrado [OF more] cero
    by (simp add: avisar_cierre_de_checkin_def carga_despertar_consumidores_eq cierre_ok_def)
  show "length (ids_productores_esperando (avisar_cierre_de_checkin m c)) = length (ids_productores_esperando c)"
    and "length (ids_consumidores_esperando (avisar_cierre_de_checkin m c)) = length (ids_consumidores_esperando c)"
    by (simp_all add: avisar_cierre_de_checkin_def carga_despertar_consumidores_eq)
qed

lemma zturnos_p_upd:
  "zturnos_p k (s\<lparr>zprod := p\<rparr>) = (zturnos_p k s)(k := turno_productor p)"
  "zturnos_p k (s\<lparr>zprod := p, zmem := c\<rparr>) = (zturnos_p k s)(k := turno_productor p)"
  "zturnos_p k (s\<lparr>zprod := p, zmem := c, zpuestos := ps\<rparr>) = (zturnos_p k s)(k := turno_productor p)"
  "zturnos_p k (s\<lparr>zcons := q\<rparr>) = zturnos_p k s"
  "zturnos_p k (s\<lparr>zcons := q, zmem := c\<rparr>) = zturnos_p k s"
  "zturnos_p k (s\<lparr>zcons := q, zmem := c, zya := y, zentregados := qs, zcarga := cs\<rparr>) = zturnos_p k s"
  "zturnos_p k (s\<lparr>zmem := c, zya := y, zcarga := cs\<rparr>) = zturnos_p k s"
  "zturnos_p k (s\<lparr>zmem := c, zanuncio := n\<rparr>) = zturnos_p k s"
  by (auto simp: zturnos_p_def)

lemma zturnos_c_upd:
  "zturnos_c k (s\<lparr>zcons := q\<rparr>) = (zturnos_c k s)(k := turno_consumidor q)"
  "zturnos_c k (s\<lparr>zcons := q, zmem := c\<rparr>) = (zturnos_c k s)(k := turno_consumidor q)"
  "zturnos_c k (s\<lparr>zcons := q, zmem := c, zya := y, zentregados := qs, zcarga := cs\<rparr>)
     = (zturnos_c k s)(k := turno_consumidor q)"
  "zturnos_c k (s\<lparr>zprod := p\<rparr>) = zturnos_c k s"
  "zturnos_c k (s\<lparr>zprod := p, zmem := c\<rparr>) = zturnos_c k s"
  "zturnos_c k (s\<lparr>zprod := p, zmem := c, zpuestos := ps\<rparr>) = zturnos_c k s"
  "zturnos_c k (s\<lparr>zmem := c, zya := y, zcarga := cs\<rparr>) = zturnos_c k s"
  "zturnos_c k (s\<lparr>zmem := c, zanuncio := n\<rparr>) = zturnos_c k s"
  by (auto simp: zturnos_c_def)

lemmas zturnos_simps = zturnos_p_upd zturnos_c_upd

lemma piezas_append [simp]: "piezas (xs @ ys) = piezas xs @ piezas ys" "piezas [r] = pieza_de r" "piezas [] = []"
  by (simp_all add: piezas_def)

lemma avisos_append [simp]: "avisos (xs @ ys) = avisos xs + avisos ys" "avisos [] = 0"
  by (simp_all add: avisos_def)

lemma avisos_nada [simp]: "avisos [Nada] = 0"
  by (simp add: avisos_def)

lemma inv_contenedor_ini: "k < 8 \<Longrightarrow> inv_contenedor k (ini_contenedor k vacio)"
  by (auto simp: inv_contenedor_def ini_contenedor_def abrir_cinta_carga_def palabras_contenedor_def
      CANTIDAD_MAX_CINTAS_CONTENEDOR_def cinta_ok_defs cierre_ok_def anillo_ok_def contenido_def
      zturnos_p_def zturnos_c_def nth_list_update sum_list_replicate)

lemma inv_contenedor_seccion_poner:
  assumes inv: "inv_contenedor k s" and pc: "zprod s = P_turno e"
  shows "inv_contenedor k (fin_carga_poner k e s)"
proof -
  obtain c' coloque where sec: "carga_poner e k (zmem s) = (c', coloque)" by fastforce
  have ok: "cinta_ok (zturnos_p k s) (zturnos_c k s) (zmem s)" and t: "zturnos_p k s k = 1"
    and i: "k < length (ids_productores_esperando (zmem s))"
    and z: "cierre_ok (zya s) (zanuncio s) (zmem s)"
    using inv pc by (auto simp: inv_contenedor_def zturnos_p_def)
  show ?thesis
    using carga_poner_ok [OF ok i t sec] carga_poner_cierre_ok [OF ok i t sec z] inv sec
    by (auto simp: inv_contenedor_def zturnos_simps fin_carga_poner_def)
qed

lemma inv_contenedor_seccion_sacar:
  assumes inv: "inv_contenedor k s" and pc: "zcons s = C_turno"
  shows "inv_contenedor k (fin_carga_sacar k s)"
proof -
  obtain c' ya' r where sec: "carga_sacar k (zya s) (zmem s) = (c', ya', r)" by (metis prod_cases3)
  have ok: "cinta_ok (zturnos_p k s) (zturnos_c k s) (zmem s)" and t: "zturnos_c k s k = 1"
    and j: "k < length (ids_consumidores_esperando (zmem s))"
    and z: "cierre_ok (zya s) (zanuncio s) (zmem s)"
    using inv pc by (auto simp: inv_contenedor_def zturnos_c_def)
  have a: "avisos (zcarga s) + avisos [r] = (if ya' then 1 else 0)"
    using carga_sacar_ok(4,5) [OF ok j t sec z] inv by (auto simp: inv_contenedor_def)
  show ?thesis
    using carga_sacar_ok [OF ok j t sec z] inv sec a
    by (auto simp: inv_contenedor_def zturnos_simps fin_carga_sacar_def)
qed

lemma inv_contenedor_paso: "inv_contenedor k s \<Longrightarrow> paso_contenedor k s t \<Longrightarrow> inv_contenedor k t"
proof (erule paso_contenedorE; (simp only:)?)
  fix e
  assume "inv_contenedor k s" "zprod s = P_fuera"
  moreover from this(2) have "(zturnos_p k s)(k := 0) = zturnos_p k s" by (auto simp: zturnos_p_def)
  ultimately show "inv_contenedor k (s\<lparr>zprod := P_espera e\<rparr>)" by (simp add: inv_contenedor_def zturnos_simps)
next
  fix e sem
  assume inv: "inv_contenedor k s" and w: "wait_on k (semaforo_productores (zmem s)) = Listo sem"
  then have "cinta_ok ((zturnos_p k s)(k := 1)) (zturnos_c k s) ((zmem s)\<lparr>semaforo_productores := sem\<rparr>)"
    by (intro wait_productor_ok(2)) (auto simp: inv_contenedor_def zturnos_p_def)
  with inv show "inv_contenedor k (s\<lparr>zprod := P_turno e, zmem := (zmem s)\<lparr>semaforo_productores := sem\<rparr>\<rparr>)"
    by (simp add: inv_contenedor_def zturnos_simps cierre_ok_def)
next
  assume "inv_contenedor k s" "zcons s = C_fuera"
  moreover from this(2) have "(zturnos_c k s)(k := 0) = zturnos_c k s" by (auto simp: zturnos_c_def)
  ultimately show "inv_contenedor k (s\<lparr>zcons := C_espera\<rparr>)" by (simp add: inv_contenedor_def zturnos_simps)
next
  fix sem
  assume inv: "inv_contenedor k s" and w: "wait_on k (semaforo_consumidores (zmem s)) = Listo sem"
  then have "cinta_ok (zturnos_p k s) ((zturnos_c k s)(k := 1)) ((zmem s)\<lparr>semaforo_consumidores := sem\<rparr>)"
    by (intro wait_consumidor_ok(2)) (auto simp: inv_contenedor_def zturnos_c_def)
  with inv show "inv_contenedor k (s\<lparr>zcons := C_turno, zmem := (zmem s)\<lparr>semaforo_consumidores := sem\<rparr>\<rparr>)"
    by (simp add: inv_contenedor_def zturnos_simps cierre_ok_def)
next
  assume "inv_contenedor k s"
  then show "inv_contenedor k (fin_nueva_carga s)"
    by (simp add: inv_contenedor_def fin_nueva_carga_def comenzar_nueva_carga_def zturnos_simps cierre_ok_def)
next
  fix n
  assume inv: "inv_contenedor k s"
  then have ok: "cinta_ok (zturnos_p k s) (zturnos_c k s) (zmem s)"
    and z: "cierre_ok (zya s) (zanuncio s) (zmem s)" by (auto simp: inv_contenedor_def)
  show "inv_contenedor k (fin_avisar n s)"
    using avisar_ok [OF ok z] inv by (simp add: inv_contenedor_def fin_avisar_def zturnos_simps)
qed (blast intro: inv_contenedor_seccion_poner inv_contenedor_seccion_sacar)+

section \<open>Schedules\<close>

datatype 'a accion_contenedor =
    Z_llama_poner 'a | Z_pasa_poner | Z_seccion_poner
  | Z_llama_sacar | Z_pasa_sacar | Z_seccion_sacar | Z_nueva_carga | Z_avisar int

fun hacer_contenedor :: "nat \<Rightarrow> 'a accion_contenedor \<Rightarrow> 'a sis_contenedor \<Rightarrow> 'a sis_contenedor option" where
  "hacer_contenedor k (Z_llama_poner e) s =
     (case zprod s of P_fuera \<Rightarrow> Some (s\<lparr>zprod := P_espera e\<rparr>) | _ \<Rightarrow> None)"
| "hacer_contenedor k Z_pasa_poner s =
     (case zprod s of
        P_espera e \<Rightarrow>
          (case wait_on k (semaforo_productores (zmem s)) of
             Listo sem \<Rightarrow> Some (s\<lparr>zprod := P_turno e, zmem := (zmem s)\<lparr>semaforo_productores := sem\<rparr>\<rparr>)
           | _ \<Rightarrow> None)
      | _ \<Rightarrow> None)"
| "hacer_contenedor k Z_seccion_poner s =
     (case zprod s of P_turno e \<Rightarrow> Some (fin_carga_poner k e s) | _ \<Rightarrow> None)"
| "hacer_contenedor k Z_llama_sacar s =
     (if zcons s = C_fuera then Some (s\<lparr>zcons := C_espera\<rparr>) else None)"
| "hacer_contenedor k Z_pasa_sacar s =
     (if zcons s = C_espera
      then (case wait_on k (semaforo_consumidores (zmem s)) of
              Listo sem \<Rightarrow> Some (s\<lparr>zcons := C_turno, zmem := (zmem s)\<lparr>semaforo_consumidores := sem\<rparr>\<rparr>)
            | _ \<Rightarrow> None)
      else None)"
| "hacer_contenedor k Z_seccion_sacar s =
     (if zcons s = C_turno then Some (fin_carga_sacar k s) else None)"
| "hacer_contenedor k Z_nueva_carga s =
     (if zcons s = C_fuera then Some (fin_nueva_carga s) else None)"
| "hacer_contenedor k (Z_avisar n) s = Some (fin_avisar n s)"

lemma hacer_contenedor_paso: "hacer_contenedor k a s = Some t \<Longrightarrow> paso_contenedor k s t"
  by (cases a)
    (auto split: if_splits productor.splits llamada.splits intro: paso_contenedor.intros)

interpretation contenedor: sistema_ejecutable "\<lambda>s. k < 8 \<and> (\<exists>vacio. s = ini_contenedor k vacio)"
    "paso_contenedor k" "inv_contenedor k" "hacer_contenedor k" for k
  by unfold_locales (auto intro: inv_contenedor_ini inv_contenedor_paso hacer_contenedor_paso)

abbreviation contenedor_alcanzable :: "nat \<Rightarrow> 'a sis_contenedor \<Rightarrow> bool" where
  "contenedor_alcanzable k \<equiv>
     alcanzable (\<lambda>s. k < 8 \<and> (\<exists>vacio. s = ini_contenedor k vacio)) (paso_contenedor k)"

text \<open>
  A run of belt 3: the loading robot sleeps on the empty belt, the close is announced with
  two pieces to come, it is reported, and the two pieces follow.
\<close>

definition corrida_contenedor :: "nat accion_contenedor list" where
  "corrida_contenedor =
     [Z_llama_sacar, Z_pasa_sacar, Z_seccion_sacar, Z_avisar 2, Z_pasa_sacar, Z_seccion_sacar,
      Z_llama_poner 7, Z_pasa_poner, Z_seccion_poner, Z_llama_sacar, Z_pasa_sacar, Z_seccion_sacar,
      Z_llama_poner 9, Z_pasa_poner, Z_seccion_poner, Z_llama_sacar]"

definition estado_contenedor :: "nat sis_contenedor" where
  "estado_contenedor = the (ejecutar (hacer_contenedor 2) corrida_contenedor (ini_contenedor 2 0))"

lemma corrida_contenedor_ok:
  "ejecutar (hacer_contenedor 2) corrida_contenedor (ini_contenedor 2 0) = Some estado_contenedor"
proof -
  have "ejecutar (hacer_contenedor 2) corrida_contenedor (ini_contenedor 2 0) \<noteq> None" by code_simp
  then show ?thesis unfolding estado_contenedor_def by force
qed

lemma estado_contenedor_alcanzable: "contenedor_alcanzable 2 estado_contenedor"
  by (rule contenedor.ejecutar_inicio [OF _ corrida_contenedor_ok]) auto

lemma estado_contenedor_valores:
  "zpuestos estado_contenedor = [7, 9]" "zentregados estado_contenedor = [Aviso_cierre, Pieza 7]"
  "contenido (zmem estado_contenedor) = [9]"
  "zya estado_contenedor" "zcons estado_contenedor = C_espera"
  "cantidad_elementos (zmem estado_contenedor) = 1"
  "cantidad_valijas_totales (zya estado_contenedor) (zmem estado_contenedor) = 2"
  "zcarga estado_contenedor = [Aviso_cierre, Pieza 7]"
  "zanuncio estado_contenedor = 2"
  by code_simp+

section \<open>Properties\<close>

text \<open>
  C5. The container belt is a FIFO through any number of loads: in every reachable state
  the pieces the dispatch robot put are, in order, the pieces the loading robot received
  followed by the contents of the buffer; the close notices in between neither lose nor
  reorder a piece.
\<close>

theorem contenedor_fifo:
  assumes "contenedor_alcanzable k s"
  shows "zpuestos s = piezas (zentregados s) @ contenido (zmem s)"
  using contenedor.inv_alcanzable [OF assms] by (simp add: inv_contenedor_def)

theorem contenedor_fifo_witness:
  "contenedor_alcanzable 2 estado_contenedor \<and> zpuestos estado_contenedor = [7] @ [9]"
  using contenedor_fifo [OF estado_contenedor_alcanzable] estado_contenedor_alcanzable
  by (simp add: estado_contenedor_valores piezas_def)

text \<open>
  C6. No wake-up is lost on the container belt, closing included: when the loading robot is
  blocked in \<^verbatim>\<open>sacar_equipaje\<close> the belt is empty and no announced close is still to
  be reported to it; when the dispatch robot is blocked the belt is full.
\<close>

theorem contenedor_sin_despertar_perdido:
  assumes "contenedor_alcanzable k s"
  shows "(zcons s = C_espera \<and> wait_on k (semaforo_consumidores (zmem s)) = Bloqueado \<longrightarrow>
            cantidad_elementos (zmem s) = 0 \<and> (checkin_cerrado (zmem s) = 0 \<or> zya s)) \<and>
         (\<forall>e. zprod s = P_espera e \<and> wait_on k (semaforo_productores (zmem s)) = Bloqueado \<longrightarrow>
            cantidad_elementos (zmem s) = tamanio_vector (zmem s))"
proof (intro conjI allI impI; (elim conjE)?)
  have inv: "inv_contenedor k s" using assms by (rule contenedor.inv_alcanzable)
  then have ok: "cinta_ok (zturnos_p k s) (zturnos_c k s) (zmem s)"
    and jk: "k < length (ids_productores_esperando (zmem s))" "k < length (ids_consumidores_esperando (zmem s))"
    and z: "cierre_ok (zya s) (zanuncio s) (zmem s)" by (auto simp: inv_contenedor_def)
  {
    assume "zcons s = C_espera" and b: "wait_on k (semaforo_consumidores (zmem s)) = Bloqueado"
    then have "0 < cantidad_consumidores_esperando (zmem s)"
      by (intro dormido_consumidor [OF ok jk(2)]) (simp_all add: zturnos_c_def)
    then show "cantidad_elementos (zmem s) = 0" and "checkin_cerrado (zmem s) = 0 \<or> zya s"
      using ok z by (auto simp: cinta_ok_defs cierre_ok_def)
  next
    fix e
    assume "zprod s = P_espera e" and "wait_on k (semaforo_productores (zmem s)) = Bloqueado"
    then have "0 < cantidad_productores_esperando (zmem s)"
      by (intro dormido_productor [OF ok jk(1)]) (simp_all add: zturnos_p_def)
    then show "cantidad_elementos (zmem s) = tamanio_vector (zmem s)" using ok by (auto simp: cinta_ok_defs)
  }
qed

theorem contenedor_sin_despertar_perdido_witness:
  "zcons estado_contenedor = C_espera \<and> cantidad_elementos (zmem estado_contenedor) = 1 \<and>
   wait_on 2 (semaforo_consumidores (zmem estado_contenedor)) \<noteq> Bloqueado"
  using contenedor_sin_despertar_perdido [OF estado_contenedor_alcanzable] estado_contenedor_valores
  by force

text \<open>
  The close of check-in is reported at most once per load and with the right total:
  since the last \<^verbatim>\<open>comenzar_nueva_carga\<close> the loading robot has received one notice
  if it knows of the close and none otherwise, and then \<^verbatim>\<open>cantidad_valijas_totales\<close>
  gives the total last announced; before the notice it gives -1.
\<close>

theorem contenedor_cierre_una_vez:
  assumes "contenedor_alcanzable k s"
  shows "avisos (zcarga s) = (if checkin_ya_cerro (zya s) then 1 else 0) \<and>
         cantidad_valijas_totales (zya s) (zmem s) = (if checkin_ya_cerro (zya s) then zanuncio s else -1)"
  using contenedor.inv_alcanzable [OF assms]
  by (simp add: inv_contenedor_def cierre_ok_def checkin_ya_cerro_def cantidad_valijas_totales_def)

theorem contenedor_cierre_una_vez_witness:
  "contenedor_alcanzable 2 estado_contenedor \<and> avisos (zcarga estado_contenedor) = 1 \<and>
   cantidad_valijas_totales (zya estado_contenedor) (zmem estado_contenedor) = 2"
  using contenedor_cierre_una_vez [OF estado_contenedor_alcanzable] estado_contenedor_alcanzable
  by (simp add: estado_contenedor_valores checkin_ya_cerro_def)

end
