(* ===== verification/CintaCentral.thy ===== *)
theory CintaCentral
  imports Anillo Semaforos
begin

text \<open>
  The main belt, \<^verbatim>\<open>api/cintaprincipal.h\<close>, and the part of
  \<^verbatim>\<open>api/api_despachante.cpp\<close> that reads it. Six producers; three consumers in a ring,
  two dispatch robots and the control of suspicious luggage: only the one that holds the
  token of the consumers looks at the element in front, and then either extracts it or lets
  the next consumer see it.
\<close>

section \<open>Shared memory\<close>

record 'a cinta_principal = "'a anillo" +
  cantidad_productores :: int
  cantidad_consumidores :: int
  cantidad_productores_esperando :: int
  consumidor_esperando :: int
  ids_productores_esperando :: "int list"
  semaforo_productores :: semset
  semaforo_consumidores :: semset

definition abrir_cinta_principal :: "int list \<Rightarrow> 'a list \<Rightarrow> semset \<Rightarrow> semset \<Rightarrow> 'a cinta_principal" where
  "abrir_cinta_principal palabras elementos sem_prod sem_cons =
     \<lparr>tamanio_vector = palabras ! 0, posicion_libre = palabras ! 1,
      posicion_ocupada = palabras ! 2, cantidad_elementos = palabras ! 3,
      vector_elementos = elementos,
      cantidad_productores = palabras ! 4, cantidad_consumidores = palabras ! 5,
      cantidad_productores_esperando = palabras ! 6, consumidor_esperando = palabras ! 7,
      ids_productores_esperando = take (nat (palabras ! 4)) (drop 8 palabras),
      semaforo_productores = sem_prod, semaforo_consumidores = sem_cons\<rparr>"

definition CANTIDAD_MAX_PRODUCTORES_CINTA_CENTRAL :: nat where
  "CANTIDAD_MAX_PRODUCTORES_CINTA_CENTRAL = 6"

definition CANTIDAD_MAX_CONSUMIDORES_CINTA_CENTRAL :: int where
  "CANTIDAD_MAX_CONSUMIDORES_CINTA_CENTRAL = 3"

text \<open>The consumer semaphores and the producer semaphores a process connects to.\<close>

definition conexiones_cinta_principal :: "int \<Rightarrow> int \<Rightarrow> int list \<times> int list" where
  "conexiones_cinta_principal id_consumidor id_productor =
     (if id_consumidor = CANTIDAD_MAX_CONSUMIDORES_CINTA_CENTRAL - 1 then [0, id_consumidor]
      else if id_consumidor > 0 \<and> id_consumidor < CANTIDAD_MAX_CONSUMIDORES_CINTA_CENTRAL - 1
           then [0, id_consumidor, id_consumidor + 1]
      else if id_consumidor = 0 then [0, 1]
      else [0],
      if id_productor \<ge> 0 then [id_productor]
      else map int [0..<CANTIDAD_MAX_PRODUCTORES_CINTA_CENTRAL])"

section \<open>Operations\<close>

text \<open>\<^verbatim>\<open>colocar_elemento\<close> under the lock; \<open>i\<close> is \<^verbatim>\<open>id_productor - 1\<close>.\<close>

definition colocar_elemento :: "'a \<Rightarrow> nat \<Rightarrow> 'a cinta_principal \<Rightarrow> 'a cinta_principal \<times> bool" where
  "colocar_elemento e i c =
     (let (c1, coloque) =
        (if cantidad_elementos c < tamanio_vector c
         then let c' = colocar e c
              in (if cantidad_elementos c' = 1
                  then if consumidor_esperando c' > 0
                       then c'\<lparr>consumidor_esperando := 0,
                               semaforo_consumidores := subir 0 (semaforo_consumidores c')\<rparr>
                       else c'
                  else c', True)
         else (c, False))
      in (if cantidad_elementos c1 = tamanio_vector c1
          then c1\<lparr>cantidad_productores_esperando := cantidad_productores_esperando c1 + 1,
                  ids_productores_esperando := (ids_productores_esperando c1)[i := 1]\<rparr>
          else c1\<lparr>semaforo_productores := subir i (semaforo_productores c1)\<rparr>, coloque))"

text \<open>\<^verbatim>\<open>avanzar_cinta\<close> for the consumer of number \<open>id_consumidor\<close>, counted from 1.\<close>

definition avanzar_cinta :: "int \<Rightarrow> 'a cinta_principal \<Rightarrow> 'a cinta_principal" where
  "avanzar_cinta id_consumidor c =
     (if id_consumidor < cantidad_consumidores c
      then c\<lparr>semaforo_consumidores := subir (nat id_consumidor) (semaforo_consumidores c)\<rparr>
      else c\<lparr>semaforo_consumidores := subir 0 (semaforo_consumidores c)\<rparr>)"

definition principal_despertar_productores :: "'a cinta_principal \<Rightarrow> 'a cinta_principal" where
  "principal_despertar_productores c =
     (if cantidad_productores_esperando c > 0
      then (case despertar (nat (cantidad_productores c))
              (ids_productores_esperando c, semaforo_productores c) of (ids, sem) \<Rightarrow>
              c\<lparr>ids_productores_esperando := ids, semaforo_productores := sem,
                cantidad_productores_esperando := 0\<rparr>)
      else c)"

definition extraer_elemento :: "'a cinta_principal \<Rightarrow> 'a cinta_principal" where
  "extraer_elemento c =
     (let c1 = retirar c;
          c2 = (if cantidad_elementos c1 = tamanio_vector c1 - 1
                then principal_despertar_productores c1 else c1)
      in if cantidad_elementos c2 = 0 then c2\<lparr>consumidor_esperando := 1\<rparr>
         else c2\<lparr>semaforo_consumidores := subir 0 (semaforo_consumidores c2)\<rparr>)"

text \<open>\<^verbatim>\<open>leer_elemento\<close> under the lock: the element in front, or a raised flag.\<close>

definition leer_elemento :: "'a cinta_principal \<Rightarrow> 'a cinta_principal \<times> 'a option" where
  "leer_elemento c =
     (if cantidad_elementos c = 0 then c\<lparr>consumidor_esperando := 1\<rparr> else c,
      if cantidad_elementos c > 0 then Some (leer c) else None)"

section \<open>The reader's interface\<close>

text \<open>
  \<^verbatim>\<open>ApiDespachante\<close>: its number, the last element read, and whether it has been dealt
  with. Each call does its part on the belt; \<open>proximo_inicio\<close> is
  \<^verbatim>\<open>leer_proximo_equipaje\<close> up to the wait in \<^verbatim>\<open>leer_elemento\<close>, \<open>proximo_fin\<close>
  what follows the return of it.
\<close>

record 'a despachante =
  numero_despachante :: int
  ultimo_equipaje_leido :: 'a
  saco_elemento :: bool

definition crear_despachante :: "int \<Rightarrow> 'a \<Rightarrow> 'a despachante" where
  "crear_despachante n vacio =
     \<lparr>numero_despachante = n, ultimo_equipaje_leido = vacio, saco_elemento = True\<rparr>"

definition proximo_inicio :: "'a despachante \<Rightarrow> 'a cinta_principal \<Rightarrow> 'a despachante \<times> 'a cinta_principal" where
  "proximo_inicio d c =
     (if \<not> saco_elemento d then (d\<lparr>saco_elemento := True\<rparr>, avanzar_cinta (numero_despachante d) c)
      else (d, c))"

definition proximo_fin :: "'a \<Rightarrow> 'a despachante \<Rightarrow> 'a despachante" where
  "proximo_fin e d = d\<lparr>ultimo_equipaje_leido := e, saco_elemento := False\<rparr>"

definition despachante_extraer :: "'a despachante \<Rightarrow> 'a cinta_principal \<Rightarrow> 'a despachante \<times> 'a cinta_principal \<times> 'a" where
  "despachante_extraer d c =
     (d\<lparr>saco_elemento := True\<rparr>, extraer_elemento c, ultimo_equipaje_leido d)"

definition despachante_avanzar :: "'a despachante \<Rightarrow> 'a cinta_principal \<Rightarrow> 'a despachante \<times> 'a cinta_principal" where
  "despachante_avanzar d c =
     (if \<not> saco_elemento d then (d\<lparr>saco_elemento := True\<rparr>, avanzar_cinta (numero_despachante d) c)
      else (d, c))"

section \<open>Invariants of the segment\<close>

definition principal_ok :: "(nat \<Rightarrow> int) \<Rightarrow> 'a cinta_principal \<Rightarrow> bool" where
  "principal_ok tp c \<longleftrightarrow>
     anillo_ok c \<and>
     fichas_ok tp (cantidad_productores c) (cantidad_productores_esperando c)
       (ids_productores_esperando c) (semaforo_productores c) \<and>
     (0 < cantidad_productores_esperando c \<longrightarrow> cantidad_elementos c = tamanio_vector c)"

text \<open>
  Where the token of the consumers is: in the semaphore of one of them, in the hands of one
  (\<open>t j = 1\<close>), or parked in \<^verbatim>\<open>consumidor_esperando\<close> on an empty belt.
\<close>

definition testigo :: "(nat \<Rightarrow> int) \<Rightarrow> 'a cinta_principal \<Rightarrow> int" where
  "testigo t c = (\<Sum>j < length (semaforo_consumidores c). int (semaforo_consumidores c ! j) + t j)
     + consumidor_esperando c"

definition testigo_ok :: "(nat \<Rightarrow> int) \<Rightarrow> 'a cinta_principal \<Rightarrow> bool" where
  "testigo_ok t c \<longleftrightarrow>
     testigo t c = 1 \<and> cantidad_consumidores c = int (length (semaforo_consumidores c)) \<and>
     semaforo_consumidores c \<noteq> [] \<and> (\<forall>j. 0 \<le> t j) \<and>
     consumidor_esperando c \<in> {0, 1} \<and>
     (consumidor_esperando c = 1 \<longrightarrow> cantidad_elementos c = 0) \<and>
     (\<forall>j < length (semaforo_consumidores c). 0 < j \<and> 0 < int (semaforo_consumidores c ! j) + t j \<longrightarrow>
        0 < cantidad_elementos c)"

lemma suma_fichas:
  "j < n \<Longrightarrow> (\<Sum>i < n. (t(j := v)) i) = (\<Sum>i < n. t i) + v - t j" for t :: "nat \<Rightarrow> int"
  by (simp add: sum.remove [of _ j])

lemma suma_subir:
  "j < length sem \<Longrightarrow> (\<Sum>i < length sem. int (subir j sem ! i)) = (\<Sum>i < length sem. int (sem ! i)) + 1"
proof -
  assume j: "j < length sem"
  have "(\<Sum>i < length sem. int (subir j sem ! i))
      = (\<Sum>i < length sem. ((\<lambda>i. int (sem ! i))(j := int (sem ! j) + 1)) i)"
    by (rule sum.cong) (auto simp: nth_subir)
  with j show ?thesis by (simp add: suma_fichas del: fun_upd_apply)
qed

lemma testigo_partes:
  "testigo t c = (\<Sum>j < length (semaforo_consumidores c). int (semaforo_consumidores c ! j))
     + (\<Sum>j < length (semaforo_consumidores c). t j) + consumidor_esperando c"
  by (simp add: testigo_def sum.distrib)

text \<open>While one consumer has the token, in its hands or in its semaphore, nobody else does.\<close>

lemma testigo_unico:
  assumes ok: "testigo_ok t c" and j: "j < length (semaforo_consumidores c)"
    and p: "0 < int (semaforo_consumidores c ! j) + t j"
  shows "int (semaforo_consumidores c ! j) + t j = 1" and "consumidor_esperando c = 0"
    and "\<And>i. i < length (semaforo_consumidores c) \<Longrightarrow> i \<noteq> j \<Longrightarrow> semaforo_consumidores c ! i = 0 \<and> t i = 0"
proof -
  let ?f = "\<lambda>i. int (semaforo_consumidores c ! i) + t i" and ?n = "length (semaforo_consumidores c)"
  have nn: "0 \<le> ?f i" for i using ok by (simp add: testigo_ok_def)
  have s: "(\<Sum>i < ?n. ?f i) = ?f j + (\<Sum>i \<in> {..<?n} - {j}. ?f i)"
    using j by (simp add: sum.remove)
  have r: "0 \<le> (\<Sum>i \<in> {..<?n} - {j}. ?f i)" by (rule sum_nonneg) (rule nn)
  have uno: "(\<Sum>i < ?n. ?f i) + consumidor_esperando c = 1"
    using ok by (simp add: testigo_ok_def testigo_def)
  have e: "0 \<le> consumidor_esperando c" using ok by (auto simp: testigo_ok_def)
  show "?f j = 1" and "consumidor_esperando c = 0" using s r uno e p by linarith+
  have "(\<Sum>i \<in> {..<?n} - {j}. ?f i) = 0" using s r uno e p by linarith
  then have "\<forall>i \<in> {..<?n} - {j}. ?f i = 0" by (subst (asm) sum_nonneg_eq_0_iff) (auto simp: nn)
  moreover fix i assume "i < ?n" "i \<noteq> j"
  ultimately have "?f i = 0" by simp
  moreover have "0 \<le> t i" using ok by (simp add: testigo_ok_def)
  ultimately show "semaforo_consumidores c ! i = 0 \<and> t i = 0" by linarith
qed

text \<open>
  The operations one by one. Placing keeps the producers' tokens and gives the parked token
  to the first consumer.
\<close>

lemma colocar_central_marco [simp]:
  "cantidad_productores (colocar e c) = cantidad_productores c"
  "cantidad_consumidores (colocar e c) = cantidad_consumidores c"
  "cantidad_productores_esperando (colocar e c) = cantidad_productores_esperando c"
  "consumidor_esperando (colocar e c) = consumidor_esperando c"
  "ids_productores_esperando (colocar e c) = ids_productores_esperando c"
  "semaforo_productores (colocar e c) = semaforo_productores c"
  "semaforo_consumidores (colocar e c) = semaforo_consumidores c"
  by (simp_all add: colocar_def)

lemma retirar_central_marco [simp]:
  "cantidad_productores (retirar c) = cantidad_productores c"
  "cantidad_consumidores (retirar c) = cantidad_consumidores c"
  "cantidad_productores_esperando (retirar c) = cantidad_productores_esperando c"
  "consumidor_esperando (retirar c) = consumidor_esperando c"
  "ids_productores_esperando (retirar c) = ids_productores_esperando c"
  "semaforo_productores (retirar c) = semaforo_productores c"
  "semaforo_consumidores (retirar c) = semaforo_consumidores c"
  by (simp_all add: retirar_def)

lemma anillo_central_marco [simp]:
  "anillo_ok (c\<lparr>cantidad_productores_esperando := n, ids_productores_esperando := ids\<rparr>) = anillo_ok c"
  "anillo_ok (c\<lparr>semaforo_productores := s\<rparr>) = anillo_ok c"
  "anillo_ok (c\<lparr>semaforo_consumidores := s\<rparr>) = anillo_ok c"
  "anillo_ok (c\<lparr>consumidor_esperando := k\<rparr>) = anillo_ok c"
  "anillo_ok (c\<lparr>consumidor_esperando := k, semaforo_consumidores := s\<rparr>) = anillo_ok c"
  "contenido (c\<lparr>cantidad_productores_esperando := n, ids_productores_esperando := ids\<rparr>) = contenido c"
  "contenido (c\<lparr>semaforo_productores := s\<rparr>) = contenido c"
  "contenido (c\<lparr>semaforo_consumidores := s\<rparr>) = contenido c"
  "contenido (c\<lparr>consumidor_esperando := k\<rparr>) = contenido c"
  "contenido (c\<lparr>consumidor_esperando := k, semaforo_consumidores := s\<rparr>) = contenido c"
  by (simp_all add: anillo_ok_def contenido_def)

definition colocar_avisar :: "'a \<Rightarrow> 'a cinta_principal \<Rightarrow> 'a cinta_principal" where
  "colocar_avisar e c =
     (let c' = colocar e c
      in if cantidad_elementos c' = 1 \<and> consumidor_esperando c' > 0
         then c'\<lparr>consumidor_esperando := 0, semaforo_consumidores := subir 0 (semaforo_consumidores c')\<rparr>
         else c')"

definition colocar_cerrar :: "nat \<Rightarrow> 'a cinta_principal \<Rightarrow> 'a cinta_principal" where
  "colocar_cerrar i c =
     (if cantidad_elementos c = tamanio_vector c
      then c\<lparr>cantidad_productores_esperando := cantidad_productores_esperando c + 1,
             ids_productores_esperando := (ids_productores_esperando c)[i := 1]\<rparr>
      else c\<lparr>semaforo_productores := subir i (semaforo_productores c)\<rparr>)"

lemma colocar_elemento_partes:
  "colocar_elemento e i c =
     (if cantidad_elementos c < tamanio_vector c then (colocar_cerrar i (colocar_avisar e c), True)
      else (colocar_cerrar i c, False))"
  by (simp add: colocar_elemento_def colocar_avisar_def colocar_cerrar_def Let_def)

lemma colocar_avisar_ok:
  assumes pok: "principal_ok tp c" and cok: "testigo_ok t c" and lugar: "cantidad_elementos c < tamanio_vector c"
  shows "principal_ok tp (colocar_avisar e c)" and "testigo_ok t (colocar_avisar e c)"
    and "contenido (colocar_avisar e c) = contenido c @ [e]"
    and "length (ids_productores_esperando (colocar_avisar e c)) = length (ids_productores_esperando c)"
    and "tamanio_vector (colocar_avisar e c) = tamanio_vector c"
    and "length (semaforo_consumidores (colocar_avisar e c)) = length (semaforo_consumidores c)"
proof -
  have ring: "anillo_ok (colocar e c)" and cont: "contenido (colocar e c) = contenido c @ [e]"
    using pok lugar by (auto simp: principal_ok_def colocar_anillo_ok contenido_colocar)
  have pos: "0 \<le> cantidad_elementos c" using pok by (simp add: principal_ok_def anillo_ok_def)
  show "principal_ok tp (colocar_avisar e c)"
    using pok ring lugar by (auto simp: principal_ok_def colocar_avisar_def Let_def)
  show "contenido (colocar_avisar e c) = contenido c @ [e]"
    and "length (ids_productores_esperando (colocar_avisar e c)) = length (ids_productores_esperando c)"
    and "tamanio_vector (colocar_avisar e c) = tamanio_vector c"
    and "length (semaforo_consumidores (colocar_avisar e c)) = length (semaforo_consumidores c)"
    using cont by (auto simp: colocar_avisar_def Let_def)
  have "consumidor_esperando c = 1 \<longrightarrow> cantidad_elementos c = 0" and "consumidor_esperando c \<in> {0, 1}"
    using cok by (auto simp: testigo_ok_def)
  then show "testigo_ok t (colocar_avisar e c)"
    using cok pos
    by (auto simp: testigo_ok_def colocar_avisar_def Let_def testigo_partes suma_subir)
qed

lemma colocar_cerrar_ok:
  assumes pok: "principal_ok tp c" and i: "i < length (ids_productores_esperando c)" and tp: "tp i = 1"
  shows "principal_ok (tp(i := 0)) (colocar_cerrar i c)"
    and "testigo_ok t (colocar_cerrar i c) = testigo_ok t c"
    and "contenido (colocar_cerrar i c) = contenido c"
    and "length (ids_productores_esperando (colocar_cerrar i c)) = length (ids_productores_esperando c)"
    and "tamanio_vector (colocar_cerrar i c) = tamanio_vector c"
    and "length (semaforo_consumidores (colocar_cerrar i c)) = length (semaforo_consumidores c)"
proof -
  have f: "fichas_ok tp (cantidad_productores c) (cantidad_productores_esperando c)
      (ids_productores_esperando c) (semaforo_productores c)"
    using pok by (simp add: principal_ok_def)
  note casos = fichas_dormir [where t = tp, OF f i tp] fichas_subir [where t = tp, OF f i tp]
  show "principal_ok (tp(i := 0)) (colocar_cerrar i c)"
    using pok casos by (auto simp: principal_ok_def colocar_cerrar_def)
qed (auto simp: colocar_cerrar_def testigo_ok_def testigo_def)

lemma colocar_elemento_ok:
  assumes "principal_ok tp c" and "testigo_ok t c" and "i < length (ids_productores_esperando c)" and "tp i = 1"
    and "colocar_elemento e i c = (c', coloque)"
  shows "principal_ok (tp(i := 0)) c'" and "testigo_ok t c'"
    and "contenido c' = (if coloque then contenido c @ [e] else contenido c)"
    and "length (ids_productores_esperando c') = length (ids_productores_esperando c)"
    and "tamanio_vector c' = tamanio_vector c"
    and "length (semaforo_consumidores c') = length (semaforo_consumidores c)"
proof -
  have "principal_ok (tp(i := 0)) c' \<and> testigo_ok t c' \<and>
      contenido c' = (if coloque then contenido c @ [e] else contenido c) \<and>
      length (ids_productores_esperando c') = length (ids_productores_esperando c) \<and>
      tamanio_vector c' = tamanio_vector c \<and>
      length (semaforo_consumidores c') = length (semaforo_consumidores c)"
  proof (cases "cantidad_elementos c < tamanio_vector c")
    case True
    note a = colocar_avisar_ok [OF assms(1,2) True, of e]
    have i: "i < length (ids_productores_esperando (colocar_avisar e c))" using a assms(3) by simp
    show ?thesis using a colocar_cerrar_ok [OF a(1) i assms(4)] True assms(5)
      by (auto simp: colocar_elemento_partes)
  next
    case False
    then show ?thesis using colocar_cerrar_ok [OF assms(1,3,4)] assms(2,5)
      by (auto simp: colocar_elemento_partes)
  qed
  then show "principal_ok (tp(i := 0)) c'" and "testigo_ok t c'"
    and "contenido c' = (if coloque then contenido c @ [e] else contenido c)"
    and "length (ids_productores_esperando c') = length (ids_productores_esperando c)"
    and "tamanio_vector c' = tamanio_vector c"
    and "length (semaforo_consumidores c') = length (semaforo_consumidores c)" by auto
qed

text \<open>
  A consumer that holds the token on a non-empty belt passes it to the next one, or extracts
  the element in front.
\<close>

definition nadie_lo_tiene :: "(nat \<Rightarrow> int) \<Rightarrow> 'a cinta_principal \<Rightarrow> bool" where
  "nadie_lo_tiene t c \<longleftrightarrow>
     cantidad_consumidores c = int (length (semaforo_consumidores c)) \<and> semaforo_consumidores c \<noteq> [] \<and>
     (\<forall>j. 0 \<le> t j) \<and> consumidor_esperando c = 0 \<and>
     (\<forall>i < length (semaforo_consumidores c). semaforo_consumidores c ! i = 0 \<and> t i = 0)"

lemma testigo_soltar:
  assumes ok: "testigo_ok t c" and j: "j < length (semaforo_consumidores c)" and t: "t j = 1"
  shows "nadie_lo_tiene (t(j := 0)) c"
  using testigo_unico [OF ok j] ok t by (auto simp: nadie_lo_tiene_def testigo_ok_def)

lemma nadie_sumas:
  assumes "nadie_lo_tiene t c"
  shows "(\<Sum>i < length (semaforo_consumidores c). int (semaforo_consumidores c ! i)) = 0"
    and "(\<Sum>i < length (semaforo_consumidores c). t i) = 0"
  using assms by (auto simp: nadie_lo_tiene_def)

lemma testigo_ceder:
  assumes z: "nadie_lo_tiene t c"
    and m: "m < length (semaforo_consumidores c)" and el: "0 < m \<longrightarrow> 0 < cantidad_elementos c"
  shows "testigo_ok t (c\<lparr>semaforo_consumidores := subir m (semaforo_consumidores c)\<rparr>)"
proof -
  have "testigo t (c\<lparr>semaforo_consumidores := subir m (semaforo_consumidores c)\<rparr>) = 1"
    using z nadie_sumas [OF z] m by (simp add: testigo_partes suma_subir nadie_lo_tiene_def)
  then show ?thesis using z m el by (auto simp: testigo_ok_def nadie_lo_tiene_def nth_subir)
qed

lemma testigo_aparcar:
  assumes z: "nadie_lo_tiene t c" and el: "cantidad_elementos c = 0"
  shows "testigo_ok t (c\<lparr>consumidor_esperando := 1\<rparr>)"
proof -
  have "testigo t (c\<lparr>consumidor_esperando := 1\<rparr>) = 1"
    using nadie_sumas [OF z] by (simp add: testigo_partes)
  then show ?thesis using z el by (auto simp: testigo_ok_def nadie_lo_tiene_def)
qed

lemma avanzar_cinta_ok:
  assumes pok: "principal_ok tp c" and cok: "testigo_ok t c" and j: "j < length (semaforo_consumidores c)"
    and t: "t j = 1" and el: "0 < cantidad_elementos c"
  shows "principal_ok tp (avanzar_cinta (int j + 1) c)"
    and "testigo_ok (t(j := 0)) (avanzar_cinta (int j + 1) c)"
    and "contenido (avanzar_cinta (int j + 1) c) = contenido c"
    and "avanzar_cinta (int j + 1) c =
           c\<lparr>semaforo_consumidores :=
             subir ((j + 1) mod length (semaforo_consumidores c)) (semaforo_consumidores c)\<rparr>"
proof -
  have n: "cantidad_consumidores c = int (length (semaforo_consumidores c))"
    using cok by (simp add: testigo_ok_def)
  have s: "nat (int j + 1) = Suc j" by simp
  show *: "avanzar_cinta (int j + 1) c =
      c\<lparr>semaforo_consumidores :=
        subir ((j + 1) mod length (semaforo_consumidores c)) (semaforo_consumidores c)\<rparr>"
  proof (cases "Suc j < length (semaforo_consumidores c)")
    case True
    then show ?thesis using n s by (simp add: avanzar_cinta_def)
  next
    case False
    then have "Suc j = length (semaforo_consumidores c)" using j by simp
    then show ?thesis using n by (simp add: avanzar_cinta_def)
  qed
  have m: "(j + 1) mod length (semaforo_consumidores c) < length (semaforo_consumidores c)"
    using j by (auto intro: mod_less_divisor)
  show "principal_ok tp (avanzar_cinta (int j + 1) c)" using pok unfolding * by (simp add: principal_ok_def)
  show "contenido (avanzar_cinta (int j + 1) c) = contenido c" unfolding * by simp
  show "testigo_ok (t(j := 0)) (avanzar_cinta (int j + 1) c)"
    unfolding * by (rule testigo_ceder [OF testigo_soltar [OF cok j t] m]) (simp add: el)
qed

lemma principal_despertar_ok:
  assumes "anillo_ok c"
    and "fichas_ok tp (cantidad_productores c) (cantidad_productores_esperando c)
      (ids_productores_esperando c) (semaforo_productores c)"
  shows "principal_ok tp (principal_despertar_productores c)"
    and "length (ids_productores_esperando (principal_despertar_productores c)) = length (ids_productores_esperando c)"
  using assms fichas_despertar [OF assms(2)] fichas_nadie [OF assms(2)]
  by (auto simp: principal_ok_def principal_despertar_productores_def anillo_ok_def split: prod.splits)

lemma principal_despertar_marco [simp]:
  "contenido (principal_despertar_productores c) = contenido c"
  "cantidad_elementos (principal_despertar_productores c) = cantidad_elementos c"
  "tamanio_vector (principal_despertar_productores c) = tamanio_vector c"
  "consumidor_esperando (principal_despertar_productores c) = consumidor_esperando c"
  "semaforo_consumidores (principal_despertar_productores c) = semaforo_consumidores c"
  "cantidad_consumidores (principal_despertar_productores c) = cantidad_consumidores c"
  by (auto simp: principal_despertar_productores_def contenido_def split: prod.splits)

lemma extraer_elemento_ok:
  assumes pok: "principal_ok tp c" and cok: "testigo_ok t c" and j: "j < length (semaforo_consumidores c)"
    and t: "t j = 1" and el: "0 < cantidad_elementos c"
  shows "principal_ok tp (extraer_elemento c)" and "testigo_ok (t(j := 0)) (extraer_elemento c)"
    and "contenido c = leer c # contenido (extraer_elemento c)"
    and "length (ids_productores_esperando (extraer_elemento c)) = length (ids_productores_esperando c)"
    and "tamanio_vector (extraer_elemento c) = tamanio_vector c"
    and "length (semaforo_consumidores (extraer_elemento c)) = length (semaforo_consumidores c)"
proof -
  define d where "d = (if cantidad_elementos (retirar c) = tamanio_vector (retirar c) - 1
      then principal_despertar_productores (retirar c) else retirar c)"
  have x: "extraer_elemento c = (if cantidad_elementos d = 0 then d\<lparr>consumidor_esperando := 1\<rparr>
      else d\<lparr>semaforo_consumidores := subir 0 (semaforo_consumidores d)\<rparr>)"
    by (simp add: extraer_elemento_def Let_def d_def)
  have ring: "anillo_ok (retirar c)" and cont: "contenido c = leer c # contenido (retirar c)"
    using pok el by (auto simp: principal_ok_def retirar_anillo_ok contenido_retirar)
  have f: "fichas_ok tp (cantidad_productores (retirar c)) (cantidad_productores_esperando (retirar c))
      (ids_productores_esperando (retirar c)) (semaforo_productores (retirar c))"
    using pok by (simp add: principal_ok_def)
  have dok: "principal_ok tp d"
    using principal_despertar_ok [OF ring f] ring f pok by (auto simp: d_def principal_ok_def)
  then show "principal_ok tp (extraer_elemento c)" by (auto simp: x principal_ok_def)
  have s: "semaforo_consumidores d = semaforo_consumidores c" "cantidad_consumidores d = cantidad_consumidores c"
    "consumidor_esperando d = consumidor_esperando c" "contenido d = contenido (retirar c)"
    "tamanio_vector d = tamanio_vector c"
    "length (ids_productores_esperando d) = length (ids_productores_esperando c)"
    using principal_despertar_ok(2) [OF ring f] by (simp_all add: d_def)
  have libre: "nadie_lo_tiene (t(j := 0)) d"
    using testigo_soltar [OF cok j t] s by (auto simp: nadie_lo_tiene_def)
  show "testigo_ok (t(j := 0)) (extraer_elemento c)"
  proof (cases "cantidad_elementos d = 0")
    case True
    then show ?thesis using testigo_aparcar [OF libre] by (simp add: x)
  next
    case False
    then show ?thesis using testigo_ceder [OF libre, of 0] s cok by (auto simp: x testigo_ok_def)
  qed
  show "contenido c = leer c # contenido (extraer_elemento c)"
    and "length (ids_productores_esperando (extraer_elemento c)) = length (ids_productores_esperando c)"
    and "tamanio_vector (extraer_elemento c) = tamanio_vector c"
    and "length (semaforo_consumidores (extraer_elemento c)) = length (semaforo_consumidores c)"
    using cont s by (simp_all add: x)
qed

section \<open>The belt with its processes\<close>

text \<open>
  Reader \<open>j\<close> is \<^verbatim>\<open>numero_despachante = j + 1\<close>. Outside its calls it holds the token
  exactly when it has read an element it has not dealt with. The readers extract only after
  a read, as the robots do. \<open>qpuestos\<close> and \<open>qsacados\<close> record the elements in the
  order of their sections.
\<close>

record 'a sis_central =
  qmem :: "'a cinta_principal"
  qprod :: "nat \<Rightarrow> 'a productor"
  qdesp :: "nat \<Rightarrow> 'a despachante"
  qcons :: "nat \<Rightarrow> consumidor"
  qpuestos :: "'a list"
  qsacados :: "'a list"

definition fin_colocar :: "nat \<Rightarrow> 'a \<Rightarrow> 'a sis_central \<Rightarrow> 'a sis_central" where
  "fin_colocar i e s = (case colocar_elemento e i (qmem s) of (c', coloque) \<Rightarrow>
     s\<lparr>qprod := (qprod s)(i := if coloque then P_fuera else P_espera e), qmem := c',
       qpuestos := qpuestos s @ (if coloque then [e] else [])\<rparr>)"

definition fin_proximo :: "nat \<Rightarrow> 'a sis_central \<Rightarrow> 'a sis_central" where
  "fin_proximo j s = (case proximo_inicio (qdesp s j) (qmem s) of (d', c') \<Rightarrow>
     s\<lparr>qmem := c', qdesp := (qdesp s)(j := d'), qcons := (qcons s)(j := C_espera)\<rparr>)"

definition fin_leer :: "nat \<Rightarrow> 'a sis_central \<Rightarrow> 'a sis_central" where
  "fin_leer j s = (case leer_elemento (qmem s) of
       (c', None) \<Rightarrow> s\<lparr>qmem := c', qcons := (qcons s)(j := C_espera)\<rparr>
     | (c', Some x) \<Rightarrow>
         s\<lparr>qmem := c', qdesp := (qdesp s)(j := proximo_fin x (qdesp s j)), qcons := (qcons s)(j := C_fuera)\<rparr>)"

definition fin_extraer :: "nat \<Rightarrow> 'a sis_central \<Rightarrow> 'a sis_central" where
  "fin_extraer j s = (case despachante_extraer (qdesp s j) (qmem s) of (d', c', x) \<Rightarrow>
     s\<lparr>qmem := c', qdesp := (qdesp s)(j := d'), qsacados := qsacados s @ [x]\<rparr>)"

definition fin_avanzar :: "nat \<Rightarrow> 'a sis_central \<Rightarrow> 'a sis_central" where
  "fin_avanzar j s = (case despachante_avanzar (qdesp s j) (qmem s) of (d', c') \<Rightarrow>
     s\<lparr>qmem := c', qdesp := (qdesp s)(j := d')\<rparr>)"

inductive paso_central :: "'a sis_central \<Rightarrow> 'a sis_central \<Rightarrow> bool" where
  q_llama: "i < length (ids_productores_esperando (qmem s)) \<Longrightarrow> qprod s i = P_fuera \<Longrightarrow>
     paso_central s (s\<lparr>qprod := (qprod s)(i := P_espera e)\<rparr>)"
| q_pasa: "i < length (ids_productores_esperando (qmem s)) \<Longrightarrow> qprod s i = P_espera e \<Longrightarrow>
     wait_on i (semaforo_productores (qmem s)) = Listo sem \<Longrightarrow>
     paso_central s (s\<lparr>qprod := (qprod s)(i := P_turno e), qmem := (qmem s)\<lparr>semaforo_productores := sem\<rparr>\<rparr>)"
| q_coloca: "i < length (ids_productores_esperando (qmem s)) \<Longrightarrow> qprod s i = P_turno e \<Longrightarrow>
     paso_central s (fin_colocar i e s)"
| q_proximo: "j < length (semaforo_consumidores (qmem s)) \<Longrightarrow> qcons s j = C_fuera \<Longrightarrow>
     paso_central s (fin_proximo j s)"
| q_entra: "j < length (semaforo_consumidores (qmem s)) \<Longrightarrow> qcons s j = C_espera \<Longrightarrow>
     wait_on j (semaforo_consumidores (qmem s)) = Listo sem \<Longrightarrow>
     paso_central s (s\<lparr>qcons := (qcons s)(j := C_turno), qmem := (qmem s)\<lparr>semaforo_consumidores := sem\<rparr>\<rparr>)"
| q_lee: "j < length (semaforo_consumidores (qmem s)) \<Longrightarrow> qcons s j = C_turno \<Longrightarrow> paso_central s (fin_leer j s)"
| q_extrae: "j < length (semaforo_consumidores (qmem s)) \<Longrightarrow> qcons s j = C_fuera \<Longrightarrow>
     \<not> saco_elemento (qdesp s j) \<Longrightarrow> paso_central s (fin_extraer j s)"
| q_avanza: "j < length (semaforo_consumidores (qmem s)) \<Longrightarrow> qcons s j = C_fuera \<Longrightarrow>
     paso_central s (fin_avanzar j s)"

inductive_cases paso_centralE: "paso_central s t"

text \<open>
  \<^verbatim>\<open>locks/cinta_principal.init\<close>, every producer's semaphore at 1, the first consumer's
  at 1 and the others' at 0.
\<close>

definition palabras_central :: "int list" where
  "palabras_central = [10, 0, 0, 0, 6, 3, 0, 0] @ replicate 6 0"

definition ini_central :: "'a \<Rightarrow> 'a sis_central" where
  "ini_central vacio =
     \<lparr>qmem = abrir_cinta_principal palabras_central (replicate 10 vacio) (replicate 6 1) [1, 0, 0],
      qprod = (\<lambda>_. P_fuera), qdesp = (\<lambda>j. crear_despachante (int j + 1) vacio), qcons = (\<lambda>_. C_fuera),
      qpuestos = [], qsacados = []\<rparr>"

definition ficha_lector :: "consumidor \<Rightarrow> bool \<Rightarrow> int" where
  "ficha_lector q saco = (if q = C_turno \<or> q = C_fuera \<and> \<not> saco then 1 else 0)"

definition qturnos_p :: "'a sis_central \<Rightarrow> nat \<Rightarrow> int" where
  "qturnos_p s i = turno_productor (qprod s i)"

definition qturnos_c :: "'a sis_central \<Rightarrow> nat \<Rightarrow> int" where
  "qturnos_c s j = ficha_lector (qcons s j) (saco_elemento (qdesp s j))"

definition inv_central :: "'a sis_central \<Rightarrow> bool" where
  "inv_central s \<longleftrightarrow>
     principal_ok (qturnos_p s) (qmem s) \<and> testigo_ok (qturnos_c s) (qmem s) \<and>
     (\<forall>j. numero_despachante (qdesp s j) = int j + 1 \<and>
        (qcons s j \<noteq> C_fuera \<longrightarrow> saco_elemento (qdesp s j))) \<and>
     (\<forall>j < length (semaforo_consumidores (qmem s)). qcons s j = C_fuera \<and> \<not> saco_elemento (qdesp s j) \<longrightarrow>
        (\<exists>xs. contenido (qmem s) = ultimo_equipaje_leido (qdesp s j) # xs)) \<and>
     qpuestos s = qsacados s @ contenido (qmem s)"

lemma qturnos_p_upd:
  "qturnos_p (s\<lparr>qprod := (qprod s)(i := p)\<rparr>) = (qturnos_p s)(i := turno_productor p)"
  "qturnos_p (s\<lparr>qprod := (qprod s)(i := p), qmem := c\<rparr>) = (qturnos_p s)(i := turno_productor p)"
  "qturnos_p (s\<lparr>qprod := (qprod s)(i := p), qmem := c, qpuestos := ps\<rparr>) = (qturnos_p s)(i := turno_productor p)"
  "qturnos_p (s\<lparr>qmem := c, qdesp := d, qcons := q\<rparr>) = qturnos_p s"
  "qturnos_p (s\<lparr>qmem := c\<rparr>) = qturnos_p s"
  "qturnos_p (s\<lparr>qdesp := d\<rparr>) = qturnos_p s"
  "qturnos_p (s\<lparr>qcons := q\<rparr>) = qturnos_p s"
  "qturnos_p (s\<lparr>qsacados := xs\<rparr>) = qturnos_p s"
  by (auto simp: qturnos_p_def)

lemma qturnos_c_upd:
  "qturnos_c (s\<lparr>qmem := c\<rparr>) = qturnos_c s"
  "qturnos_c (s\<lparr>qprod := f\<rparr>) = qturnos_c s"
  "qturnos_c (s\<lparr>qprod := f, qmem := c\<rparr>) = qturnos_c s"
  "qturnos_c (s\<lparr>qprod := f, qmem := c, qpuestos := ps\<rparr>) = qturnos_c s"
  "qturnos_c (s\<lparr>qmem := c, qdesp := (qdesp s)(j := d), qcons := (qcons s)(j := q)\<rparr>)
     = (qturnos_c s)(j := ficha_lector q (saco_elemento d))"
  "qturnos_c (s\<lparr>qdesp := (qdesp s)(j := d)\<rparr>)
     = (qturnos_c s)(j := ficha_lector (qcons s j) (saco_elemento d))"
  "qturnos_c (s\<lparr>qcons := (qcons s)(j := q)\<rparr>)
     = (qturnos_c s)(j := ficha_lector q (saco_elemento (qdesp s j)))"
  "qturnos_c (s\<lparr>qdesp := (qdesp s)(j := d), qcons := (qcons s)(j := q)\<rparr>)
     = (qturnos_c s)(j := ficha_lector q (saco_elemento d))"
  "qturnos_c (s\<lparr>qmem := c, qcons := (qcons s)(j := q)\<rparr>)
     = (qturnos_c s)(j := ficha_lector q (saco_elemento (qdesp s j)))"
  "qturnos_c (s\<lparr>qcons := (qcons s)(j := q), qmem := c\<rparr>)
     = (qturnos_c s)(j := ficha_lector q (saco_elemento (qdesp s j)))"
  "qturnos_c (s\<lparr>qmem := c, qdesp := (qdesp s)(j := d)\<rparr>)
     = (qturnos_c s)(j := ficha_lector (qcons s j) (saco_elemento d))"
  "qturnos_c (s\<lparr>qmem := c, qdesp := (qdesp s)(j := d), qsacados := xs\<rparr>)
     = (qturnos_c s)(j := ficha_lector (qcons s j) (saco_elemento d))"
  by (auto simp: qturnos_c_def)

lemmas qturnos_simps = qturnos_p_upd qturnos_c_upd

lemma inv_centralD:
  assumes "inv_central s"
  shows "principal_ok (qturnos_p s) (qmem s)" and "testigo_ok (qturnos_c s) (qmem s)"
    and "qpuestos s = qsacados s @ contenido (qmem s)"
    and "numero_despachante (qdesp s j) = int j + 1"
    and "qcons s j \<noteq> C_fuera \<Longrightarrow> saco_elemento (qdesp s j)"
    and "j < length (semaforo_consumidores (qmem s)) \<Longrightarrow> qcons s j = C_fuera \<Longrightarrow> \<not> saco_elemento (qdesp s j) \<Longrightarrow>
      \<exists>xs. contenido (qmem s) = ultimo_equipaje_leido (qdesp s j) # xs"
  using assms by (auto simp: inv_central_def)

text \<open>A reader that holds an element is the only one with the token, and the element is in front.\<close>

lemma lector_con_elemento:
  assumes inv: "inv_central s" and j: "j < length (semaforo_consumidores (qmem s))"
    and f: "qcons s j = C_fuera" "\<not> saco_elemento (qdesp s j)"
  shows "qturnos_c s j = 1" and "0 < cantidad_elementos (qmem s)"
    and "leer (qmem s) = ultimo_equipaje_leido (qdesp s j)"
    and "\<And>i. i < length (semaforo_consumidores (qmem s)) \<Longrightarrow> i \<noteq> j \<Longrightarrow>
          \<not> (qcons s i = C_fuera \<and> \<not> saco_elemento (qdesp s i))"
proof -
  show t: "qturnos_c s j = 1" using f by (simp add: qturnos_c_def ficha_lector_def)
  obtain xs where xs: "contenido (qmem s) = ultimo_equipaje_leido (qdesp s j) # xs"
    using inv_centralD(6) [OF inv j f] by blast
  have ring: "anillo_ok (qmem s)" using inv by (simp add: inv_central_def principal_ok_def)
  then show el: "0 < cantidad_elementos (qmem s)"
    using xs length_contenido [of "qmem s"] by (simp add: anillo_ok_def)
  show "leer (qmem s) = ultimo_equipaje_leido (qdesp s j)"
    using contenido_retirar [OF ring el] xs by simp
  fix i assume "i < length (semaforo_consumidores (qmem s))" "i \<noteq> j"
  then have "qturnos_c s i = 0"
    using testigo_unico(3) [OF inv_centralD(2) [OF inv] j] t by simp
  then show "\<not> (qcons s i = C_fuera \<and> \<not> saco_elemento (qdesp s i))"
    by (auto simp: qturnos_c_def ficha_lector_def split: if_splits)
qed

lemma inv_central_ini: "inv_central (ini_central vacio)"
  by (auto simp: inv_central_def ini_central_def abrir_cinta_principal_def palabras_central_def
      principal_ok_def fichas_ok_def testigo_ok_def testigo_def anillo_ok_def contenido_def
      qturnos_p_def qturnos_c_def ficha_lector_def crear_despachante_def
      less_Suc_eq numeral_eq_Suc)

lemma inv_central_colocar:
  assumes inv: "inv_central s" and i: "i < length (ids_productores_esperando (qmem s))"
    and pc: "qprod s i = P_turno e"
  shows "inv_central (fin_colocar i e s)"
proof -
  obtain c' coloque where sec: "colocar_elemento e i (qmem s) = (c', coloque)" by fastforce
  have t: "qturnos_p s i = 1" using pc by (simp add: qturnos_p_def)
  note a = colocar_elemento_ok [OF inv_centralD(1,2) [OF inv] i t sec]
  have "\<exists>ys. contenido c' = ultimo_equipaje_leido (qdesp s j) # ys"
    if "j < length (semaforo_consumidores (qmem s))" "qcons s j = C_fuera" "\<not> saco_elemento (qdesp s j)" for j
    using inv_centralD(6) [OF inv that] a(3) by auto
  then show ?thesis
    using inv a sec by (auto simp: inv_central_def qturnos_simps fin_colocar_def)
qed

lemma inv_central_ceder:
  assumes inv: "inv_central s" and j: "j < length (semaforo_consumidores (qmem s))"
    and f: "qcons s j = C_fuera" "\<not> saco_elemento (qdesp s j)"
    and q: "q \<in> {C_fuera, C_espera}" and d: "saco_elemento d" "numero_despachante d = int j + 1"
  shows "inv_central (s\<lparr>qmem := avanzar_cinta (int j + 1) (qmem s), qdesp := (qdesp s)(j := d),
            qcons := (qcons s)(j := q)\<rparr>)"
proof -
  note l = lector_con_elemento [OF inv j f]
  note a = avanzar_cinta_ok [OF inv_centralD(1,2) [OF inv] j l(1,2)]
  have "length (semaforo_consumidores (avanzar_cinta (int j + 1) (qmem s)))
      = length (semaforo_consumidores (qmem s))" unfolding a(4) by simp
  moreover have "ficha_lector q True = 0" using q by (auto simp: ficha_lector_def)
  ultimately show ?thesis
    using inv a(1-3) d l(4) by (auto simp: inv_central_def qturnos_simps)
qed

lemma qdesp_igual: "s\<lparr>qmem := c, qdesp := f, qcons := qcons s\<rparr> = s\<lparr>qmem := c, qdesp := f\<rparr>"
  by (cases s) simp

lemma inv_central_avanzar:
  assumes inv: "inv_central s" and j: "j < length (semaforo_consumidores (qmem s))" and f: "qcons s j = C_fuera"
  shows "inv_central (fin_avanzar j s)"
proof (cases "saco_elemento (qdesp s j)")
  case True
  then show ?thesis using inv by (simp add: fin_avanzar_def despachante_avanzar_def)
next
  case False
  have "(qcons s)(j := C_fuera) = qcons s" using f by auto
  with False show ?thesis
    using inv_central_ceder [OF inv j f False, of C_fuera "(qdesp s j)\<lparr>saco_elemento := True\<rparr>"]
      inv_centralD(4) [OF inv]
    by (simp add: fin_avanzar_def despachante_avanzar_def qdesp_igual)
qed

lemma inv_central_proximo:
  assumes inv: "inv_central s" and j: "j < length (semaforo_consumidores (qmem s))" and f: "qcons s j = C_fuera"
  shows "inv_central (fin_proximo j s)"
proof (cases "saco_elemento (qdesp s j)")
  case True
  have "(qturnos_c s)(j := 0) = qturnos_c s"
    using True f by (auto simp: qturnos_c_def ficha_lector_def)
  then show ?thesis using inv True
    by (auto simp: fin_proximo_def proximo_inicio_def inv_central_def qturnos_simps ficha_lector_def)
next
  case False
  then show ?thesis
    using inv_central_ceder [OF inv j f False, of C_espera "(qdesp s j)\<lparr>saco_elemento := True\<rparr>"]
      inv_centralD(4) [OF inv]
    by (simp add: fin_proximo_def proximo_inicio_def)
qed

lemma testigo_lee_vacia:
  assumes ok: "testigo_ok t c" and j: "j < length (semaforo_consumidores c)" and t: "t j = 1"
    and el: "cantidad_elementos c = 0"
  shows "testigo_ok (t(j := 0)) (c\<lparr>consumidor_esperando := 1\<rparr>)"
  using testigo_aparcar [OF testigo_soltar [OF ok j t] el] .

lemma inv_central_leer:
  assumes inv: "inv_central s" and j: "j < length (semaforo_consumidores (qmem s))" and f: "qcons s j = C_turno"
  shows "inv_central (fin_leer j s)"
proof -
  have t: "qturnos_c s j = 1" using f by (simp add: qturnos_c_def ficha_lector_def)
  have ring: "anillo_ok (qmem s)" using inv by (simp add: inv_central_def principal_ok_def)
  show ?thesis
  proof (cases "0 < cantidad_elementos (qmem s)")
    case True
    have "(qturnos_c s)(j := 1) = qturnos_c s" using t by auto
    then show ?thesis
      using inv True contenido_retirar [OF ring True]
      by (auto simp: fin_leer_def leer_elemento_def proximo_fin_def inv_central_def qturnos_simps
          ficha_lector_def)
  next
    case False
    then have cero: "cantidad_elementos (qmem s) = 0" using ring by (simp add: anillo_ok_def)
    have "saco_elemento (qdesp s j)" using inv_centralD(5) [OF inv, of j] f by simp
    then show ?thesis
      using inv cero testigo_lee_vacia [OF inv_centralD(2) [OF inv] j t cero]
      by (auto simp: fin_leer_def leer_elemento_def inv_central_def qturnos_simps
          ficha_lector_def principal_ok_def)
  qed
qed

lemma inv_central_extraer:
  assumes inv: "inv_central s" and j: "j < length (semaforo_consumidores (qmem s))"
    and f: "qcons s j = C_fuera" "\<not> saco_elemento (qdesp s j)"
  shows "inv_central (fin_extraer j s)"
proof -
  note l = lector_con_elemento [OF inv j f]
  note a = extraer_elemento_ok [OF inv_centralD(1,2) [OF inv] j l(1,2)]
  define c' where "c' = extraer_elemento (qmem s)"
  define d' where "d' = (qdesp s j)\<lparr>saco_elemento := True\<rparr>"
  have x: "fin_extraer j s = s\<lparr>qmem := c', qdesp := (qdesp s)(j := d'),
      qsacados := qsacados s @ [ultimo_equipaje_leido (qdesp s j)]\<rparr>"
    by (simp add: fin_extraer_def despachante_extraer_def c'_def d'_def)
  have t: "ficha_lector (qcons s j) (saco_elemento d') = 0" using f by (simp add: ficha_lector_def d'_def)
  have p: "qpuestos s = qsacados s @ ultimo_equipaje_leido (qdesp s j) # contenido c'"
    using inv_centralD(3) [OF inv] a(3) l(3) by (simp add: c'_def)
  have otros: "\<forall>i < length (semaforo_consumidores c'). qcons s i = C_fuera \<longrightarrow> saco_elemento (((qdesp s)(j := d')) i)"
    using l(4) a(6) by (simp add: c'_def d'_def)
  have num: "numero_despachante d' = int j + 1" "saco_elemento d'"
    using inv_centralD(4) [OF inv] by (simp_all add: d'_def)
  have "principal_ok (qturnos_p s) c'" and "testigo_ok ((qturnos_c s)(j := 0)) c'"
    using a(1,2) by (simp_all add: c'_def)
  then show ?thesis
    unfolding x inv_central_def using p otros num t inv_centralD(4,5) [OF inv]
    by (auto simp: qturnos_simps split: if_splits)
qed

lemma inv_central_pasa:
  assumes inv: "inv_central s" and i: "i < length (ids_productores_esperando (qmem s))"
    and w: "wait_on i (semaforo_productores (qmem s)) = Listo sem"
  shows "inv_central (s\<lparr>qprod := (qprod s)(i := P_turno e), qmem := (qmem s)\<lparr>semaforo_productores := sem\<rparr>\<rparr>)"
proof -
  have "fichas_ok ((qturnos_p s)(i := 1)) (cantidad_productores (qmem s))
      (cantidad_productores_esperando (qmem s)) (ids_productores_esperando (qmem s)) sem"
    using inv fichas_wait [OF _ i _ w, of "qturnos_p s"]
    by (auto simp: inv_central_def principal_ok_def qturnos_p_def)
  with inv show ?thesis
    by (auto simp: inv_central_def principal_ok_def qturnos_simps testigo_ok_def testigo_def)
qed

lemma testigo_entra:
  assumes ok: "testigo_ok t c" and j: "j < length (semaforo_consumidores c)"
    and w: "wait_on j (semaforo_consumidores c) = Listo sem"
  shows "testigo_ok (t(j := 1)) (c\<lparr>semaforo_consumidores := sem\<rparr>)" and "t j = 0"
proof -
  have s: "0 < semaforo_consumidores c ! j" "sem = (semaforo_consumidores c)[j := semaforo_consumidores c ! j - 1]"
    using w by (auto simp: paso_simps)
  have tj: "0 \<le> t j" using ok by (simp add: testigo_ok_def)
  with s have p: "0 < int (semaforo_consumidores c ! j) + t j" by simp
  note u = testigo_unico [OF ok j p]
  show cero: "t j = 0" using s(1) tj u(1) by linarith
  then have uno: "semaforo_consumidores c ! j = 1" using u(1) by simp
  have igual: "int (sem ! i) + (t(j := 1)) i = int (semaforo_consumidores c ! i) + t i"
    if "i < length (semaforo_consumidores c)" for i
    using that s uno cero by (simp add: nth_list_update)
  have "testigo (t(j := 1)) (c\<lparr>semaforo_consumidores := sem\<rparr>) = testigo t c"
    using igual s by (simp add: testigo_def del: fun_upd_apply)
  moreover have "length sem = length (semaforo_consumidores c)" using s by simp
  moreover have "sem \<noteq> []" using s j by auto
  moreover have "\<forall>i. 0 \<le> (t(j := 1)) i" using ok by (simp add: testigo_ok_def)
  ultimately show "testigo_ok (t(j := 1)) (c\<lparr>semaforo_consumidores := sem\<rparr>)"
    using ok igual by (simp add: testigo_ok_def del: fun_upd_apply)
qed

lemma inv_central_entra:
  assumes inv: "inv_central s" and j: "j < length (semaforo_consumidores (qmem s))" and f: "qcons s j = C_espera"
    and w: "wait_on j (semaforo_consumidores (qmem s)) = Listo sem"
  shows "inv_central (s\<lparr>qcons := (qcons s)(j := C_turno), qmem := (qmem s)\<lparr>semaforo_consumidores := sem\<rparr>\<rparr>)"
proof -
  have "length sem = length (semaforo_consumidores (qmem s))" using w by (auto simp: paso_simps)
  then show ?thesis
    using inv testigo_entra [OF inv_centralD(2) [OF inv] j w] inv_centralD(5) [OF inv, of j] f
    by (auto simp: inv_central_def qturnos_simps ficha_lector_def principal_ok_def)
qed

lemma inv_central_llama:
  assumes inv: "inv_central s" and f: "qprod s i = P_fuera"
  shows "inv_central (s\<lparr>qprod := (qprod s)(i := P_espera e)\<rparr>)"
proof -
  have "(qturnos_p s)(i := 0) = qturnos_p s" using f by (auto simp: qturnos_p_def)
  with inv show ?thesis by (simp add: inv_central_def qturnos_simps)
qed

lemma inv_central_paso: "inv_central s \<Longrightarrow> paso_central s t \<Longrightarrow> inv_central t"
  by (erule paso_centralE; simp only:)
    (blast intro: inv_central_llama inv_central_pasa inv_central_colocar inv_central_proximo
      inv_central_entra inv_central_leer inv_central_extraer inv_central_avanzar)+

section \<open>Schedules\<close>

datatype 'a accion_central =
    Q_llama nat 'a | Q_pasa nat | Q_coloca nat
  | Q_proximo nat | Q_entra nat | Q_lee nat | Q_extrae nat | Q_avanza nat

fun hacer_central :: "'a accion_central \<Rightarrow> 'a sis_central \<Rightarrow> 'a sis_central option" where
  "hacer_central (Q_llama i e) s =
     (if i < length (ids_productores_esperando (qmem s))
      then (case qprod s i of P_fuera \<Rightarrow> Some (s\<lparr>qprod := (qprod s)(i := P_espera e)\<rparr>) | _ \<Rightarrow> None)
      else None)"
| "hacer_central (Q_pasa i) s =
     (if i < length (ids_productores_esperando (qmem s))
      then (case qprod s i of
          P_espera e \<Rightarrow>
            (case wait_on i (semaforo_productores (qmem s)) of
               Listo sem \<Rightarrow> Some (s\<lparr>qprod := (qprod s)(i := P_turno e),
                 qmem := (qmem s)\<lparr>semaforo_productores := sem\<rparr>\<rparr>)
             | _ \<Rightarrow> None)
        | _ \<Rightarrow> None)
      else None)"
| "hacer_central (Q_coloca i) s =
     (if i < length (ids_productores_esperando (qmem s))
      then (case qprod s i of P_turno e \<Rightarrow> Some (fin_colocar i e s) | _ \<Rightarrow> None)
      else None)"
| "hacer_central (Q_proximo j) s =
     (if j < length (semaforo_consumidores (qmem s)) \<and> qcons s j = C_fuera
      then Some (fin_proximo j s) else None)"
| "hacer_central (Q_entra j) s =
     (if j < length (semaforo_consumidores (qmem s)) \<and> qcons s j = C_espera
      then (case wait_on j (semaforo_consumidores (qmem s)) of
              Listo sem \<Rightarrow> Some (s\<lparr>qcons := (qcons s)(j := C_turno),
                qmem := (qmem s)\<lparr>semaforo_consumidores := sem\<rparr>\<rparr>)
            | _ \<Rightarrow> None)
      else None)"
| "hacer_central (Q_lee j) s =
     (if j < length (semaforo_consumidores (qmem s)) \<and> qcons s j = C_turno
      then Some (fin_leer j s) else None)"
| "hacer_central (Q_extrae j) s =
     (if j < length (semaforo_consumidores (qmem s)) \<and> qcons s j = C_fuera \<and> \<not> saco_elemento (qdesp s j)
      then Some (fin_extraer j s) else None)"
| "hacer_central (Q_avanza j) s =
     (if j < length (semaforo_consumidores (qmem s)) \<and> qcons s j = C_fuera
      then Some (fin_avanzar j s) else None)"

lemma hacer_central_paso: "hacer_central a s = Some t \<Longrightarrow> paso_central s t"
  by (cases a)
    (auto split: if_splits productor.splits llamada.splits intro: paso_central.intros)

interpretation central: sistema_ejecutable "\<lambda>s. \<exists>vacio. s = ini_central vacio" paso_central inv_central
    hacer_central
  by unfold_locales (auto intro: inv_central_ini inv_central_paso hacer_central_paso)

abbreviation central_alcanzable :: "'a sis_central \<Rightarrow> bool" where
  "central_alcanzable \<equiv> alcanzable (\<lambda>s. \<exists>vacio. s = ini_central vacio) paso_central"

definition dimensiones :: "'a cinta_principal \<Rightarrow> int \<times> nat \<times> nat" where
  "dimensiones c = (tamanio_vector c, length (ids_productores_esperando c), length (semaforo_consumidores c))"

lemma dimensiones_colocar: "dimensiones (fst (colocar_elemento e i c)) = dimensiones c"
  by (auto simp: dimensiones_def colocar_elemento_partes colocar_avisar_def colocar_cerrar_def Let_def)

lemma dimensiones_avanzar: "dimensiones (avanzar_cinta n c) = dimensiones c"
  by (simp add: dimensiones_def avanzar_cinta_def)

lemma dimensiones_extraer: "dimensiones (extraer_elemento c) = dimensiones c"
  by (auto simp: dimensiones_def extraer_elemento_def Let_def principal_despertar_productores_def
      dest: despertar_length split: prod.splits)

lemma dimensiones_leer: "dimensiones (fst (leer_elemento c)) = dimensiones c"
  by (simp add: dimensiones_def leer_elemento_def)

lemma dimensiones_paso: "paso_central s t \<Longrightarrow> dimensiones (qmem t) = dimensiones (qmem s)"
proof (induction rule: paso_central.induct)
  case (q_coloca i s e)
  then show ?case using dimensiones_colocar [of e i "qmem s"]
    by (auto simp: fin_colocar_def split: prod.splits)
next
  case (q_lee j s)
  then show ?case using dimensiones_leer [of "qmem s"]
    by (auto simp: fin_leer_def split: prod.splits option.splits)
next
  case (q_entra j s sem)
  then show ?case by (auto simp: dimensiones_def paso_simps)
qed (auto simp: fin_proximo_def proximo_inicio_def fin_avanzar_def despachante_avanzar_def fin_extraer_def
    despachante_extraer_def dimensiones_avanzar dimensiones_extraer, auto simp: dimensiones_def)

lemma dimensiones_ini: "dimensiones (qmem (ini_central vacio)) = (10, 6, 3)"
  by (simp add: dimensiones_def ini_central_def abrir_cinta_principal_def palabras_central_def)

lemma dimensiones_central: "central_alcanzable s \<Longrightarrow> dimensiones (qmem s) = (10, 6, 3)"
  by (induction rule: alcanzable.induct) (auto simp: dimensiones_paso dimensiones_ini)

text \<open>
  Two producers put a piece each; the first robot lets the first piece pass, the second
  extracts it, and the first one reads the next.
\<close>

definition corrida_central :: "nat accion_central list" where
  "corrida_central =
     [Q_proximo 0, Q_entra 0, Q_lee 0, Q_llama 5 7, Q_pasa 5, Q_coloca 5, Q_llama 2 9, Q_pasa 2, Q_coloca 2,
      Q_proximo 1, Q_proximo 2, Q_entra 0, Q_lee 0, Q_avanza 0, Q_entra 1, Q_lee 1, Q_extrae 1,
      Q_proximo 0, Q_entra 0, Q_lee 0]"

definition estado_central :: "nat sis_central" where
  "estado_central = the (ejecutar hacer_central corrida_central (ini_central 0))"

lemma corrida_central_ok:
  "ejecutar hacer_central corrida_central (ini_central 0) = Some estado_central"
proof -
  have "ejecutar hacer_central corrida_central (ini_central 0) \<noteq> None" by code_simp
  then show ?thesis unfolding estado_central_def by force
qed

lemma estado_central_alcanzable: "central_alcanzable estado_central"
  by (rule central.ejecutar_inicio [OF _ corrida_central_ok]) auto

lemma estado_central_valores:
  "qpuestos estado_central = [7, 9]" "qsacados estado_central = [7]"
  "contenido (qmem estado_central) = [9]"
  "cantidad_elementos (qmem estado_central) = 1"
  "qcons estado_central 0 = C_fuera" "\<not> saco_elemento (qdesp estado_central 0)"
  "ultimo_equipaje_leido (qdesp estado_central 0) = 9"
  "qcons estado_central 2 = C_espera"
  "wait_on 2 (semaforo_consumidores (qmem estado_central)) = Bloqueado"
  by code_simp+

section \<open>Properties\<close>

text \<open>
  C7. The main belt is a bounded FIFO whoever extracts: in every reachable state the pieces
  put are, in order, the pieces extracted by any of the readers followed by the contents of
  the buffer, and what \<^verbatim>\<open>extraer_equipaje\<close> would return to a reader that has just
  read is the piece it would remove, the one in front.
\<close>

theorem central_fifo:
  assumes "central_alcanzable s"
  shows "qpuestos s = qsacados s @ contenido (qmem s) \<and> length (contenido (qmem s)) \<le> 10 \<and>
         (\<forall>j < 3. qcons s j = C_fuera \<and> \<not> saco_elemento (qdesp s j) \<longrightarrow>
            (\<exists>d' c'. despachante_extraer (qdesp s j) (qmem s) = (d', c', hd (contenido (qmem s))) \<and>
               contenido (qmem s) = hd (contenido (qmem s)) # contenido c'))"
proof (intro conjI allI impI; (elim conjE)?)
  have inv: "inv_central s" using assms by (rule central.inv_alcanzable)
  have dim: "tamanio_vector (qmem s) = 10" "length (semaforo_consumidores (qmem s)) = 3"
    using dimensiones_central [OF assms] by (auto simp: dimensiones_def)
  show "qpuestos s = qsacados s @ contenido (qmem s)" by (rule inv_centralD(3) [OF inv])
  show "length (contenido (qmem s)) \<le> 10"
    using inv dim by (auto simp: inv_central_def principal_ok_def anillo_ok_def length_contenido)
  fix j :: nat
  assume "j < 3" and f: "qcons s j = C_fuera" "\<not> saco_elemento (qdesp s j)"
  then have j: "j < length (semaforo_consumidores (qmem s))" using dim by simp
  note l = lector_con_elemento [OF inv j f]
  note a = extraer_elemento_ok [OF inv_centralD(1,2) [OF inv] j l(1,2)]
  have "hd (contenido (qmem s)) = ultimo_equipaje_leido (qdesp s j)"
    using inv_centralD(6) [OF inv j f] by auto
  then show "\<exists>d' c'. despachante_extraer (qdesp s j) (qmem s) = (d', c', hd (contenido (qmem s))) \<and>
      contenido (qmem s) = hd (contenido (qmem s)) # contenido c'"
    using a(3) l(3) by (simp add: despachante_extraer_def)
qed

theorem central_fifo_witness:
  "qcons estado_central 0 = C_fuera \<and> \<not> saco_elemento (qdesp estado_central 0) \<and>
   length (contenido (qmem estado_central)) \<le> 10 \<and> qpuestos estado_central = [7] @ [9]"
  using central_fifo [OF estado_central_alcanzable] by (simp add: estado_central_valores)

text \<open>
  C8. The readers of the main belt see it one at a time: in no reachable state have two of
  the three consumers passed their semaphore, be it inside \<^verbatim>\<open>leer_elemento\<close> or holding
  a piece they read and have not dealt with.
\<close>

theorem central_un_lector:
  assumes "central_alcanzable s" and "i < 3" and "j < 3"
    and "qcons s i = C_turno \<or> qcons s i = C_fuera \<and> \<not> saco_elemento (qdesp s i)"
    and "qcons s j = C_turno \<or> qcons s j = C_fuera \<and> \<not> saco_elemento (qdesp s j)"
  shows "i = j"
proof (rule ccontr)
  assume "i \<noteq> j"
  have inv: "inv_central s" using assms(1) by (rule central.inv_alcanzable)
  have n: "length (semaforo_consumidores (qmem s)) = 3"
    using dimensiones_central [OF assms(1)] by (auto simp: dimensiones_def)
  have t: "qturnos_c s i = 1" "qturnos_c s j = 1"
    using assms(4,5) by (auto simp: qturnos_c_def ficha_lector_def)
  have "qturnos_c s j = 0"
    using testigo_unico(3) [OF inv_centralD(2) [OF inv], of i j] n assms(2,3) t \<open>i \<noteq> j\<close> by simp
  with t show False by simp
qed

theorem central_un_lector_witness:
  "\<not> (qcons estado_central 1 = C_turno)"
  using central_un_lector [OF estado_central_alcanzable, of 0 1] estado_central_valores by auto

text \<open>
  The main belt does not stall: in every reachable state, a producer blocked in
  \<^verbatim>\<open>colocar_elemento\<close> means the belt is full, and if the three readers are all blocked in
  \<^verbatim>\<open>leer_elemento\<close> the belt is empty.
\<close>

theorem central_sin_estancarse:
  assumes "central_alcanzable s"
  shows "(\<forall>i e. i < 6 \<and> qprod s i = P_espera e \<and> wait_on i (semaforo_productores (qmem s)) = Bloqueado \<longrightarrow>
            cantidad_elementos (qmem s) = 10) \<and>
         ((\<forall>j < 3. qcons s j = C_espera \<and> wait_on j (semaforo_consumidores (qmem s)) = Bloqueado) \<longrightarrow>
            cantidad_elementos (qmem s) = 0)"
proof (intro conjI allI impI; (elim conjE)?)
  have inv: "inv_central s" using assms by (rule central.inv_alcanzable)
  have dim: "tamanio_vector (qmem s) = 10" "length (semaforo_consumidores (qmem s)) = 3"
    "length (ids_productores_esperando (qmem s)) = 6"
    using dimensiones_central [OF assms] by (auto simp: dimensiones_def)
  {
    fix i e
    assume "i < 6" and "qprod s i = P_espera e" and "wait_on i (semaforo_productores (qmem s)) = Bloqueado"
    then have "0 < cantidad_productores_esperando (qmem s)"
      using inv dim fichas_dormido [of "qturnos_p s" _ _ "ids_productores_esperando (qmem s)"]
      by (auto simp: inv_central_def principal_ok_def qturnos_p_def)
    then show "cantidad_elementos (qmem s) = 10" using inv dim by (auto simp: inv_central_def principal_ok_def)
  }
  assume todos: "\<forall>j < 3. qcons s j = C_espera \<and> wait_on j (semaforo_consumidores (qmem s)) = Bloqueado"
  then have "\<forall>j < 3. semaforo_consumidores (qmem s) ! j = 0 \<and> qturnos_c s j = 0"
    by (auto simp: paso_simps qturnos_c_def ficha_lector_def)
  then have "consumidor_esperando (qmem s) = 1"
    using inv dim by (simp add: inv_central_def testigo_ok_def testigo_def)
  then show "cantidad_elementos (qmem s) = 0" using inv by (auto simp: inv_central_def testigo_ok_def)
qed

theorem central_sin_estancarse_witness:
  "central_alcanzable estado_central \<and> cantidad_elementos (qmem estado_central) = 1 \<and>
   \<not> (\<forall>j < 3. qcons estado_central j = C_espera \<and>
        wait_on j (semaforo_consumidores (qmem estado_central)) = Bloqueado)"
  using central_sin_estancarse [OF estado_central_alcanzable] estado_central_alcanzable
  by (simp add: estado_central_valores)

end
