(* ===== verification/CintaEscaner.thy ===== *)
theory CintaEscaner
  imports Anillo Semaforos
begin

text \<open>
  The scanner belts, \<^verbatim>\<open>api/cintascanner.h\<close>: one producer (the check-in robot) and up
  to four scanners, each with a belt of its own. A control segment says which belts take
  luggage; the producer goes round the belts and sleeps on semaphore 0 when none does,
  scanner \<open>j\<close> sleeps on semaphore \<open>j + 1\<close>.
\<close>

section \<open>Shared memory\<close>

definition MAX_SCANNERS :: nat where
  "MAX_SCANNERS = 4"

record 'a banda = "'a anillo" +
  consumidor_esperando :: int

record 'a cinta_escaner =
  cintas :: "'a banda list"
  control_cantidad_de_escaners_activos :: int
  control_ids_escaners_activos :: "int list"
  control_cinta_llena :: "int list"
  control_productor_esperando :: int
  semaforos :: semset

text \<open>
  \<^verbatim>\<open>asignar_punteros\<close> over the words of a belt, and the layout of the control segment
  with the semaphores, as the constructors open them.
\<close>

definition asignar_punteros :: "int list \<Rightarrow> 'a list \<Rightarrow> 'a banda" where
  "asignar_punteros palabras elementos =
     \<lparr>tamanio_vector = palabras ! 0, posicion_libre = palabras ! 1, posicion_ocupada = palabras ! 2,
      cantidad_elementos = palabras ! 3, vector_elementos = elementos,
      consumidor_esperando = palabras ! 4\<rparr>"

definition abrir_cinta_escaner :: "'a banda list \<Rightarrow> int list \<Rightarrow> semset \<Rightarrow> 'a cinta_escaner" where
  "abrir_cinta_escaner bandas control sem =
     \<lparr>cintas = bandas, control_cantidad_de_escaners_activos = control ! 0,
      control_ids_escaners_activos = take MAX_SCANNERS (drop 1 control),
      control_cinta_llena = take MAX_SCANNERS (drop (1 + MAX_SCANNERS) control),
      control_productor_esperando = control ! (1 + 2 * MAX_SCANNERS), semaforos = sem\<rparr>"

definition inicializar_estructuras :: "int \<Rightarrow> 'a cinta_escaner \<Rightarrow> 'a cinta_escaner" where
  "inicializar_estructuras tamanio_vectores c =
     c\<lparr>cintas := map (\<lambda>b. b\<lparr>tamanio_vector := tamanio_vectores, posicion_libre := 0, posicion_ocupada := 0,
                              cantidad_elementos := 0, consumidor_esperando := 0\<rparr>) (cintas c),
       control_ids_escaners_activos := replicate MAX_SCANNERS 0,
       control_cinta_llena := replicate MAX_SCANNERS (-1),
       control_cantidad_de_escaners_activos := 0, control_productor_esperando := 0\<rparr>"

section \<open>Operations\<close>

text \<open>
  The constructor of scanner \<open>j + 1\<close>, its section under the lock of the control segment
  and the signal after it.
\<close>

definition escaner_activar :: "nat \<Rightarrow> 'a cinta_escaner \<Rightarrow> 'a cinta_escaner" where
  "escaner_activar j c =
     (let c1 = c\<lparr>control_ids_escaners_activos := (control_ids_escaners_activos c)[j := int j + 1],
                 control_cantidad_de_escaners_activos := control_cantidad_de_escaners_activos c + 1,
                 control_cinta_llena :=
                   (if control_cinta_llena c ! j = -1 then (control_cinta_llena c)[j := 0]
                    else control_cinta_llena c)\<rparr>
      in if control_productor_esperando c1 = 1
         then c1\<lparr>control_productor_esperando := 0, semaforos := subir 0 (semaforos c1)\<rparr>
         else c1)"

text \<open>
  \<^verbatim>\<open>poner_equipaje\<close>, first section (control lock): the search for a belt that takes
  luggage, from \<^verbatim>\<open>proxima_cinta_a_colocar\<close> on; the result is whether there is one.
\<close>

function buscar_cinta :: "nat \<Rightarrow> nat \<Rightarrow> int list \<Rightarrow> nat \<times> nat" where
  "buscar_cinta cantidad_cintas_llenas p llena =
     (if cantidad_cintas_llenas < MAX_SCANNERS \<and> llena ! p \<noteq> 0
      then buscar_cinta (cantidad_cintas_llenas + 1) ((p + 1) mod MAX_SCANNERS) llena
      else (cantidad_cintas_llenas, p))"
  by auto
termination by (relation "measure (\<lambda>(n, p, llena). MAX_SCANNERS - n)") auto

declare buscar_cinta.simps [simp del]

definition escaner_elegir :: "nat \<Rightarrow> 'a cinta_escaner \<Rightarrow> 'a cinta_escaner \<times> nat \<times> bool" where
  "escaner_elegir p c =
     (case buscar_cinta 0 p (control_cinta_llena c) of (cantidad_cintas_llenas, p') \<Rightarrow>
        (if cantidad_cintas_llenas = MAX_SCANNERS then c\<lparr>control_productor_esperando := 1\<rparr> else c,
         p', cantidad_cintas_llenas < MAX_SCANNERS))"

text \<open>Second section (lock of belt \<open>p\<close>, and the control lock inside it when the belt gets full).\<close>

definition escaner_colocar :: "'a \<Rightarrow> nat \<Rightarrow> 'a cinta_escaner \<Rightarrow> 'a cinta_escaner \<times> nat" where
  "escaner_colocar e p c =
     (let b1 = colocar e (cintas c ! p);
          despierta = (cantidad_elementos b1 = 1 \<and> consumidor_esperando b1 = 1);
          b2 = (if despierta then b1\<lparr>consumidor_esperando := 0\<rparr> else b1);
          sem1 = (if despierta then subir (p + 1) (semaforos c) else semaforos c)
      in (c\<lparr>cintas := (cintas c)[p := b2],
            control_cinta_llena :=
              (if cantidad_elementos b2 = tamanio_vector b2 then (control_cinta_llena c)[p := 1]
               else control_cinta_llena c),
            semaforos := subir 0 sem1\<rparr>,
          (p + 1) mod MAX_SCANNERS))"

text \<open>
  \<^verbatim>\<open>sacar_equipaje\<close> of scanner \<open>j\<close>. Reopening a belt that was full is done under the
  control lock.
\<close>

definition escaner_reabrir :: "nat \<Rightarrow> 'a cinta_escaner \<Rightarrow> 'a cinta_escaner" where
  "escaner_reabrir j c =
     (if control_cinta_llena c ! j = 1
      then let c1 = c\<lparr>control_cinta_llena := (control_cinta_llena c)[j := 0]\<rparr>
           in if control_productor_esperando c1 = 1
              then c1\<lparr>control_productor_esperando := 0, semaforos := subir 0 (semaforos c1)\<rparr>
              else c1
      else c)"

definition escaner_sacar :: "nat \<Rightarrow> 'a cinta_escaner \<Rightarrow> 'a cinta_escaner \<times> 'a option" where
  "escaner_sacar j c =
     (let (c1, r) =
        (if cantidad_elementos (cintas c ! j) > 0
         then let b' = retirar (cintas c ! j);
                  c' = c\<lparr>cintas := (cintas c)[j := b']\<rparr>
              in (if cantidad_elementos b' = tamanio_vector b' - 1 then escaner_reabrir j c' else c',
                  Some (leer (cintas c ! j)))
         else (c, None))
      in (if cantidad_elementos (cintas c1 ! j) = 0
          then c1\<lparr>cintas := (cintas c1)[j := (cintas c1 ! j)\<lparr>consumidor_esperando := 1\<rparr>]\<rparr>
          else c1\<lparr>semaforos := subir (j + 1) (semaforos c1)\<rparr>, r))"

section \<open>The search\<close>

lemma buscar_cinta_ok:
  assumes "p < MAX_SCANNERS" and "n \<le> MAX_SCANNERS" and "buscar_cinta n p ll = (n', p')"
  shows "n \<le> n' \<and> n' \<le> MAX_SCANNERS \<and> p' = (p + (n' - n)) mod MAX_SCANNERS \<and>
    (\<forall>m < n' - n. ll ! ((p + m) mod MAX_SCANNERS) \<noteq> 0) \<and> (n' < MAX_SCANNERS \<longrightarrow> ll ! p' = 0)"
  using assms
proof (induction n p ll arbitrary: n' p' rule: buscar_cinta.induct)
  case (1 n p ll)
  show ?case
  proof (cases "n < MAX_SCANNERS \<and> ll ! p \<noteq> 0")
    case False
    then show ?thesis using 1(2-4) by (auto simp: buscar_cinta.simps [of n])
  next
    case True
    let ?q = "(p + 1) mod MAX_SCANNERS"
    have r: "buscar_cinta (n + 1) ?q ll = (n', p')" using 1(4) True by (simp add: buscar_cinta.simps [of n])
    have q: "?q < MAX_SCANNERS" using 1(2) by (auto intro: mod_less_divisor)
    have n: "n + 1 \<le> MAX_SCANNERS" using True by simp
    have ih: "n + 1 \<le> n' \<and> n' \<le> MAX_SCANNERS \<and> p' = (?q + (n' - (n + 1))) mod MAX_SCANNERS \<and>
        (\<forall>m < n' - (n + 1). ll ! ((?q + m) mod MAX_SCANNERS) \<noteq> 0) \<and> (n' < MAX_SCANNERS \<longrightarrow> ll ! p' = 0)"
      by (rule 1(1) [OF True q n r])
    have des: "(?q + m) mod MAX_SCANNERS = (p + Suc m) mod MAX_SCANNERS" for m by (simp add: mod_simps)
    have "Suc (n' - (n + 1)) = n' - n" using conjunct1 [OF ih] by simp
    then have "p' = (p + (n' - n)) mod MAX_SCANNERS" using ih des [of "n' - (n + 1)"] by simp
    moreover have "ll ! ((p + m) mod MAX_SCANNERS) \<noteq> 0" if "m < n' - n" for m
    proof (cases m)
      case 0
      then show ?thesis using True 1(2) by simp
    next
      case (Suc k)
      then have "k < n' - (n + 1)" using that by simp
      then have "ll ! ((?q + k) mod MAX_SCANNERS) \<noteq> 0" using ih by blast
      then show ?thesis using Suc des [of k] by simp
    qed
    moreover have "n \<le> n'" using conjunct1 [OF ih] by simp
    ultimately show ?thesis using ih by blast
  qed
qed

lemma vuelta_completa: "p < MAX_SCANNERS \<Longrightarrow> k < MAX_SCANNERS \<Longrightarrow> \<exists>m < MAX_SCANNERS. (p + m) mod MAX_SCANNERS = k"
  unfolding MAX_SCANNERS_def by presburger

section \<open>Invariant of the segments\<close>

text \<open>
  Each belt with its entry \<open>ll\<close> of the control segment, its scanner's semaphore \<open>n\<close>
  and that scanner's token in use \<open>t\<close>: closed (\<open>-1\<close>) belts are empty, the entry is 1
  exactly on a full belt, and the scanner's token is in one place.
\<close>

definition banda_ok :: "'a banda \<Rightarrow> int \<Rightarrow> nat \<Rightarrow> int \<Rightarrow> bool" where
  "banda_ok b ll n t \<longleftrightarrow>
     anillo_ok b \<and> ll \<in> {-1, 0, 1} \<and> (ll = 1 \<longleftrightarrow> cantidad_elementos b = tamanio_vector b) \<and>
     (ll = -1 \<longrightarrow> cantidad_elementos b = 0) \<and>
     int n + t + consumidor_esperando b = 1 \<and> consumidor_esperando b \<in> {0, 1} \<and> 0 \<le> t \<and>
     (consumidor_esperando b = 1 \<longrightarrow> cantidad_elementos b = 0)"

definition control_ok :: "int \<Rightarrow> 'a cinta_escaner \<Rightarrow> bool" where
  "control_ok tp c \<longleftrightarrow>
     int (semaforos c ! 0) + tp + control_productor_esperando c = 1 \<and>
     control_productor_esperando c \<in> {0, 1} \<and> 0 \<le> tp \<and>
     (control_productor_esperando c = 1 \<longrightarrow> (\<forall>k < MAX_SCANNERS. control_cinta_llena c ! k \<noteq> 0))"

definition escaner_ok :: "int \<Rightarrow> (nat \<Rightarrow> int) \<Rightarrow> 'a cinta_escaner \<Rightarrow> bool" where
  "escaner_ok tp tc c \<longleftrightarrow>
     length (cintas c) = MAX_SCANNERS \<and> length (control_cinta_llena c) = MAX_SCANNERS \<and>
     length (semaforos c) = MAX_SCANNERS + 1 \<and> control_ok tp c \<and>
     (\<forall>k < MAX_SCANNERS. banda_ok (cintas c ! k) (control_cinta_llena c ! k) (semaforos c ! (k + 1)) (tc k))"

lemma banda_marco [simp]:
  "anillo_ok (b\<lparr>consumidor_esperando := n\<rparr>) = anillo_ok b"
  "contenido (b\<lparr>consumidor_esperando := n\<rparr>) = contenido b"
  "consumidor_esperando (colocar e b) = consumidor_esperando b"
  "consumidor_esperando (retirar b) = consumidor_esperando b"
  by (simp_all add: anillo_ok_def contenido_def colocar_def retirar_def)

lemma activar_ok:
  assumes "escaner_ok tp tc c" and "j < MAX_SCANNERS"
  shows "escaner_ok tp tc (escaner_activar j c)" and "cintas (escaner_activar j c) = cintas c"
    and "control_cinta_llena (escaner_activar j c) ! j \<noteq> -1"
    and "i \<noteq> j \<Longrightarrow> control_cinta_llena (escaner_activar j c) ! i = control_cinta_llena c ! i"
  using assms
  by (auto simp: escaner_activar_def Let_def escaner_ok_def control_ok_def banda_ok_def nth_list_update
      nth_subir anillo_ok_def)

lemma elegir_ok:
  assumes ok: "escaner_ok 1 tc c" and p: "p < MAX_SCANNERS" and e: "escaner_elegir p c = (c', p', hay)"
  shows "p' < MAX_SCANNERS" and "cintas c' = cintas c" and "control_cinta_llena c' = control_cinta_llena c"
    and "if hay then c' = c \<and> control_cinta_llena c ! p' = 0 else escaner_ok 0 tc c'"
proof -
  obtain n where b: "buscar_cinta 0 p (control_cinta_llena c) = (n, p')"
    using e by (auto simp: escaner_elegir_def split: prod.splits)
  note r = buscar_cinta_ok [OF p _ b]
  show "p' < MAX_SCANNERS" using r p by (simp add: MAX_SCANNERS_def)
  show "cintas c' = cintas c" "control_cinta_llena c' = control_cinta_llena c"
    using e b by (auto simp: escaner_elegir_def split: if_splits)
  show "if hay then c' = c \<and> control_cinta_llena c ! p' = 0 else escaner_ok 0 tc c'"
  proof (cases "n < MAX_SCANNERS")
    case True
    then show ?thesis using e b r by (auto simp: escaner_elegir_def)
  next
    case False
    then have "n = MAX_SCANNERS" using r by simp
    then have "\<forall>m < MAX_SCANNERS. control_cinta_llena c ! ((p + m) mod MAX_SCANNERS) \<noteq> 0" using r by simp
    then have "\<forall>k < MAX_SCANNERS. control_cinta_llena c ! k \<noteq> 0" using vuelta_completa [OF p] by metis
    then show ?thesis using e b ok \<open>n = MAX_SCANNERS\<close>
      by (auto simp: escaner_elegir_def escaner_ok_def control_ok_def)
  qed
qed

lemma escaner_colocar_ok:
  assumes ok: "escaner_ok 1 tc c" and p: "p < MAX_SCANNERS" and ll: "control_cinta_llena c ! p = 0"
    and e: "escaner_colocar e p c = (c', p')"
  shows "escaner_ok 0 tc c'" and "p' < MAX_SCANNERS"
    and "contenido (cintas c' ! p) = contenido (cintas c ! p) @ [e]"
    and "k \<noteq> p \<Longrightarrow> cintas c' ! k = cintas c ! k"
    and "(control_cinta_llena c' ! k = -1) = (control_cinta_llena c ! k = -1)"
proof -
  let ?b = "cintas c ! p"
  have b: "banda_ok ?b 0 (semaforos c ! (p + 1)) (tc p)"
    and l: "length (cintas c) = MAX_SCANNERS" "length (control_cinta_llena c) = MAX_SCANNERS"
      "length (semaforos c) = MAX_SCANNERS + 1"
    using ok p ll by (force simp: escaner_ok_def)+
  have lugar: "cantidad_elementos ?b < tamanio_vector ?b" and ring: "anillo_ok ?b"
    using b by (auto simp: banda_ok_def anillo_ok_def)
  note c1 = colocar_anillo_ok [OF ring lugar] contenido_colocar [OF ring lugar]
  have bc: "banda_ok b' (if cantidad_elementos b' = tamanio_vector b' then 1 else 0) n (tc p)"
    if "b' = (if d then (colocar e ?b)\<lparr>consumidor_esperando := 0\<rparr> else colocar e ?b)"
      and "d = (cantidad_elementos (colocar e ?b) = 1 \<and> consumidor_esperando (colocar e ?b) = 1)"
      and "n = semaforos c ! (p + 1) + (if d then 1 else 0)" for b' d n
    using b c1 that by (auto simp: banda_ok_def anillo_ok_def [of ?b])
  show "p' < MAX_SCANNERS" using e by (auto simp: escaner_colocar_def Let_def MAX_SCANNERS_def)
  show "contenido (cintas c' ! p) = contenido (cintas c ! p) @ [e]"
    using e p l c1 by (auto simp: escaner_colocar_def Let_def)
  show "k \<noteq> p \<Longrightarrow> cintas c' ! k = cintas c ! k" using e by (auto simp: escaner_colocar_def Let_def)
  show "(control_cinta_llena c' ! k = -1) = (control_cinta_llena c ! k = -1)"
    using e p l ll by (cases "k = p") (auto simp: escaner_colocar_def Let_def split: if_splits)
  show "escaner_ok 0 tc c'"
    using ok e p l ll bc [OF refl refl refl]
    by (auto simp: escaner_colocar_def Let_def escaner_ok_def control_ok_def nth_list_update nth_subir
        split: if_splits)
qed

text \<open>Fetching: the state between taking the element and leaving the section is that of \<open>sacar_tomar\<close>.\<close>

definition sacar_tomar :: "nat \<Rightarrow> 'a cinta_escaner \<Rightarrow> 'a cinta_escaner \<times> 'a option" where
  "sacar_tomar j c =
     (if cantidad_elementos (cintas c ! j) > 0
      then (if cantidad_elementos (retirar (cintas c ! j)) = tamanio_vector (retirar (cintas c ! j)) - 1
            then escaner_reabrir j (c\<lparr>cintas := (cintas c)[j := retirar (cintas c ! j)]\<rparr>)
            else c\<lparr>cintas := (cintas c)[j := retirar (cintas c ! j)]\<rparr>, Some (leer (cintas c ! j)))
      else (c, None))"

definition sacar_dejar :: "nat \<Rightarrow> 'a cinta_escaner \<Rightarrow> 'a cinta_escaner" where
  "sacar_dejar j c =
     (if cantidad_elementos (cintas c ! j) = 0
      then c\<lparr>cintas := (cintas c)[j := (cintas c ! j)\<lparr>consumidor_esperando := 1\<rparr>]\<rparr>
      else c\<lparr>semaforos := subir (j + 1) (semaforos c)\<rparr>)"

lemma escaner_sacar_partes: "escaner_sacar j c = (case sacar_tomar j c of (c1, r) \<Rightarrow> (sacar_dejar j c1, r))"
  by (simp add: escaner_sacar_def sacar_tomar_def sacar_dejar_def Let_def)

lemma reabrir_ok:
  assumes "length (control_cinta_llena c) = MAX_SCANNERS" and "length (semaforos c) = MAX_SCANNERS + 1"
    and "j < MAX_SCANNERS" and "control_ok tp c"
  shows "control_ok tp (escaner_reabrir j c)" and "cintas (escaner_reabrir j c) = cintas c"
    and "length (control_cinta_llena (escaner_reabrir j c)) = MAX_SCANNERS"
    and "length (semaforos (escaner_reabrir j c)) = MAX_SCANNERS + 1"
    and "control_cinta_llena (escaner_reabrir j c) =
      (if control_cinta_llena c ! j = 1 then (control_cinta_llena c)[j := 0] else control_cinta_llena c)"
    and "semaforos (escaner_reabrir j c) ! (k + 1) = semaforos c ! (k + 1)"
proof -
  have "semaforos c \<noteq> []" using assms(2) by auto
  then show "control_ok tp (escaner_reabrir j c)"
    using assms by (auto simp: escaner_reabrir_def Let_def control_ok_def nth_subir)
  show "semaforos (escaner_reabrir j c) ! (k + 1) = semaforos c ! (k + 1)"
    by (simp add: escaner_reabrir_def Let_def subir_def)
qed (use assms in \<open>simp_all add: escaner_reabrir_def Let_def\<close>)

lemma sacar_tomar_ok:
  assumes ok: "escaner_ok tp tc c" and j: "j < MAX_SCANNERS" and t: "tc j = 1"
    and e: "sacar_tomar j c = (c1, r)"
  shows "escaner_ok tp tc c1" and "(r = None) = (cantidad_elementos (cintas c ! j) = 0)"
    and "contenido (cintas c ! j) = (case r of None \<Rightarrow> [] | Some x \<Rightarrow> [x]) @ contenido (cintas c1 ! j)"
    and "k \<noteq> j \<Longrightarrow> cintas c1 ! k = cintas c ! k"
    and "k < MAX_SCANNERS \<Longrightarrow> (control_cinta_llena c1 ! k = -1) = (control_cinta_llena c ! k = -1)"
proof -
  let ?b = "cintas c ! j" and ?d = "c\<lparr>cintas := (cintas c)[j := retirar (cintas c ! j)]\<rparr>"
  have b: "banda_ok ?b (control_cinta_llena c ! j) (semaforos c ! (j + 1)) (tc j)"
    and l: "length (cintas c) = MAX_SCANNERS" "length (control_cinta_llena c) = MAX_SCANNERS"
      "length (semaforos c) = MAX_SCANNERS + 1" and con: "control_ok tp ?d"
    using ok j by (auto simp: escaner_ok_def control_ok_def)
  have ring: "anillo_ok ?b" and nn: "0 \<le> cantidad_elementos ?b" using b by (auto simp: banda_ok_def anillo_ok_def)
  note R = reabrir_ok [of ?d j tp, simplified, OF l(2) _ j con]
  have "escaner_ok tp tc c1 \<and> (r = None) = (cantidad_elementos ?b = 0) \<and>
      contenido ?b = (case r of None \<Rightarrow> [] | Some x \<Rightarrow> [x]) @ contenido (cintas c1 ! j) \<and>
      (\<forall>k. k \<noteq> j \<longrightarrow> cintas c1 ! k = cintas c ! k) \<and>
      (\<forall>k < MAX_SCANNERS. (control_cinta_llena c1 ! k = -1) = (control_cinta_llena c ! k = -1))"
  proof (cases "cantidad_elementos ?b > 0")
    case False
    then show ?thesis using e ok nn by (auto simp: sacar_tomar_def contenido_vacio)
  next
    case hay: True
    note r1 = retirar_anillo_ok [OF ring hay] contenido_retirar [OF ring hay]
    have nb: "banda_ok (retirar ?b) (if control_cinta_llena c ! j = 1 then 0 else control_cinta_llena c ! j)
        (semaforos c ! (j + 1)) (tc j)"
      using b r1 hay by (auto simp: banda_ok_def anillo_ok_def [of ?b])
    show ?thesis
    proof (cases "cantidad_elementos ?b = tamanio_vector ?b")
      case True
      then have c1: "c1 = escaner_reabrir j ?d" and r: "r = Some (leer ?b)"
        using e hay by (auto simp: sacar_tomar_def)
      show ?thesis
        unfolding c1 r using ok l j nb R r1 hay
        by (auto simp: escaner_ok_def nth_list_update)
    next
      case False
      then have c1: "c1 = ?d" and r: "r = Some (leer ?b)" using e hay by (auto simp: sacar_tomar_def)
      have "control_cinta_llena c ! j \<noteq> 1" using b False by (auto simp: banda_ok_def)
      then show ?thesis
        unfolding c1 r using ok l j nb con r1 hay by (auto simp: escaner_ok_def nth_list_update)
    qed
  qed
  then show "escaner_ok tp tc c1" and "(r = None) = (cantidad_elementos (cintas c ! j) = 0)"
    and "contenido (cintas c ! j) = (case r of None \<Rightarrow> [] | Some x \<Rightarrow> [x]) @ contenido (cintas c1 ! j)"
    and "k \<noteq> j \<Longrightarrow> cintas c1 ! k = cintas c ! k"
    and "k < MAX_SCANNERS \<Longrightarrow> (control_cinta_llena c1 ! k = -1) = (control_cinta_llena c ! k = -1)"
    by auto
qed

lemma sacar_dejar_ok:
  assumes ok: "escaner_ok tp tc c" and j: "j < MAX_SCANNERS" and t: "tc j = 1"
  shows "escaner_ok tp (tc(j := 0)) (sacar_dejar j c)"
    and "contenido (cintas (sacar_dejar j c) ! k) = contenido (cintas c ! k)"
    and "cantidad_elementos (cintas (sacar_dejar j c) ! k) = cantidad_elementos (cintas c ! k)"
    and "control_cinta_llena (sacar_dejar j c) = control_cinta_llena c"
proof -
  have b: "banda_ok (cintas c ! j) (control_cinta_llena c ! j) (semaforos c ! (j + 1)) (tc j)"
    and l: "length (cintas c) = MAX_SCANNERS" "length (semaforos c) = MAX_SCANNERS + 1"
    using ok j by (auto simp: escaner_ok_def)
  have "semaforos c \<noteq> []" using l(2) by auto
  then show "escaner_ok tp (tc(j := 0)) (sacar_dejar j c)"
    using ok b j t l
    by (auto simp: sacar_dejar_def escaner_ok_def control_ok_def banda_ok_def nth_list_update nth_subir)
  show "contenido (cintas (sacar_dejar j c) ! k) = contenido (cintas c ! k)"
    and "cantidad_elementos (cintas (sacar_dejar j c) ! k) = cantidad_elementos (cintas c ! k)"
    using j l by (cases "k = j"; simp add: sacar_dejar_def)+
  show "control_cinta_llena (sacar_dejar j c) = control_cinta_llena c" by (simp add: sacar_dejar_def)
qed

lemma escaner_sacar_ok:
  assumes ok: "escaner_ok tp tc c" and j: "j < MAX_SCANNERS" and t: "tc j = 1"
    and e: "escaner_sacar j c = (c', r)"
  shows "escaner_ok tp (tc(j := 0)) c'"
    and "contenido (cintas c ! j) = (case r of None \<Rightarrow> [] | Some x \<Rightarrow> [x]) @ contenido (cintas c' ! j)"
    and "k \<noteq> j \<Longrightarrow> contenido (cintas c' ! k) = contenido (cintas c ! k)"
    and "k < MAX_SCANNERS \<Longrightarrow> (control_cinta_llena c' ! k = -1) = (control_cinta_llena c ! k = -1)"
proof -
  obtain c1 where c1: "sacar_tomar j c = (c1, r)" and c': "c' = sacar_dejar j c1"
    using e by (auto simp: escaner_sacar_partes split: prod.splits)
  note a = sacar_tomar_ok [OF ok j t c1]
  note d = sacar_dejar_ok [OF a(1) j t]
  show "escaner_ok tp (tc(j := 0)) c'"
    and "contenido (cintas c ! j) = (case r of None \<Rightarrow> [] | Some x \<Rightarrow> [x]) @ contenido (cintas c' ! j)"
    using a d c' by auto
  show "k \<noteq> j \<Longrightarrow> contenido (cintas c' ! k) = contenido (cintas c ! k)"
    and "k < MAX_SCANNERS \<Longrightarrow> (control_cinta_llena c' ! k = -1) = (control_cinta_llena c ! k = -1)"
    using a(4,5) [of k] d c' by auto
qed

section \<open>The belts with their processes\<close>

text \<open>
  The producer is outside, waits for semaphore 0, is about to search, or has chosen belt
  \<open>proxima\<close>. A scanner has not started (its object is not constructed), or is as on the
  other belts. \<open>epuestos k\<close> and \<open>esacados k\<close> record what went through belt \<open>k\<close>.
\<close>

datatype 'a productor_escaner = E_fuera | E_espera 'a | E_busca 'a | E_coloca 'a

record 'a sis_escaner =
  emem :: "'a cinta_escaner"
  eprod :: "'a productor_escaner"
  eproxima :: nat
  eactivo :: "nat \<Rightarrow> bool"
  econs :: "nat \<Rightarrow> consumidor"
  epuestos :: "nat \<Rightarrow> 'a list"
  esacados :: "nat \<Rightarrow> 'a list"

definition fin_elegir :: "'a \<Rightarrow> 'a sis_escaner \<Rightarrow> 'a sis_escaner" where
  "fin_elegir e s = (case escaner_elegir (eproxima s) (emem s) of (c', p', hay) \<Rightarrow>
     s\<lparr>emem := c', eprod := if hay then E_coloca e else E_espera e, eproxima := p'\<rparr>)"

definition fin_poner_escaner :: "'a \<Rightarrow> 'a sis_escaner \<Rightarrow> 'a sis_escaner" where
  "fin_poner_escaner e s = (case escaner_colocar e (eproxima s) (emem s) of (c', p') \<Rightarrow>
     s\<lparr>emem := c', eprod := E_fuera, eproxima := p',
       epuestos := (epuestos s)(eproxima s := epuestos s (eproxima s) @ [e])\<rparr>)"

definition fin_sacar_escaner :: "nat \<Rightarrow> 'a sis_escaner \<Rightarrow> 'a sis_escaner" where
  "fin_sacar_escaner j s = (case escaner_sacar j (emem s) of (c', r) \<Rightarrow>
     s\<lparr>emem := c', econs := (econs s)(j := if r = None then C_espera else C_fuera),
       esacados := (esacados s)(j := esacados s j @ (case r of None \<Rightarrow> [] | Some x \<Rightarrow> [x]))\<rparr>)"

inductive paso_escaner :: "'a sis_escaner \<Rightarrow> 'a sis_escaner \<Rightarrow> bool" where
  e_llama: "eprod s = E_fuera \<Longrightarrow> paso_escaner s (s\<lparr>eprod := E_espera e\<rparr>)"
| e_pasa: "eprod s = E_espera e \<Longrightarrow> wait_on 0 (semaforos (emem s)) = Listo sem \<Longrightarrow>
     paso_escaner s (s\<lparr>emem := (emem s)\<lparr>semaforos := sem\<rparr>, eprod := E_busca e\<rparr>)"
| e_busca: "eprod s = E_busca e \<Longrightarrow> paso_escaner s (fin_elegir e s)"
| e_coloca: "eprod s = E_coloca e \<Longrightarrow> paso_escaner s (fin_poner_escaner e s)"
| e_activa: "j < MAX_SCANNERS \<Longrightarrow> \<not> eactivo s j \<Longrightarrow>
     paso_escaner s (s\<lparr>emem := escaner_activar j (emem s), eactivo := (eactivo s)(j := True)\<rparr>)"
| e_pide: "j < MAX_SCANNERS \<Longrightarrow> eactivo s j \<Longrightarrow> econs s j = C_fuera \<Longrightarrow>
     paso_escaner s (s\<lparr>econs := (econs s)(j := C_espera)\<rparr>)"
| e_entra: "j < MAX_SCANNERS \<Longrightarrow> econs s j = C_espera \<Longrightarrow>
     wait_on (j + 1) (semaforos (emem s)) = Listo sem \<Longrightarrow>
     paso_escaner s (s\<lparr>emem := (emem s)\<lparr>semaforos := sem\<rparr>, econs := (econs s)(j := C_turno)\<rparr>)"
| e_saca: "j < MAX_SCANNERS \<Longrightarrow> econs s j = C_turno \<Longrightarrow> paso_escaner s (fin_sacar_escaner j s)"

inductive_cases paso_escanerE: "paso_escaner s t"

text \<open>\<^verbatim>\<open>locks/cinta_escaner*.init\<close>: empty belts of ten places, no scanner, every semaphore at 1.\<close>

definition ini_escaner :: "'a \<Rightarrow> 'a sis_escaner" where
  "ini_escaner vacio =
     \<lparr>emem = abrir_cinta_escaner
        (replicate 4 (asignar_punteros [10, 0, 0, 0, 0] (replicate 10 vacio)))
        ([0] @ replicate 4 0 @ replicate 4 (-1) @ [0]) (replicate 5 1),
      eprod = E_fuera, eproxima = 0, eactivo = (\<lambda>_. False), econs = (\<lambda>_. C_fuera),
      epuestos = (\<lambda>_. []), esacados = (\<lambda>_. [])\<rparr>"

definition ficha_productor :: "'a productor_escaner \<Rightarrow> int" where
  "ficha_productor p = (case p of E_busca e \<Rightarrow> 1 | E_coloca e \<Rightarrow> 1 | _ \<Rightarrow> 0)"

definition eturnos :: "'a sis_escaner \<Rightarrow> nat \<Rightarrow> int" where
  "eturnos s j = turno_consumidor (econs s j)"

definition inv_escaner :: "'a sis_escaner \<Rightarrow> bool" where
  "inv_escaner s \<longleftrightarrow>
     escaner_ok (ficha_productor (eprod s)) (eturnos s) (emem s) \<and> eproxima s < MAX_SCANNERS \<and>
     (\<forall>e. eprod s = E_coloca e \<longrightarrow> control_cinta_llena (emem s) ! eproxima s = 0) \<and>
     (\<forall>k < MAX_SCANNERS. (control_cinta_llena (emem s) ! k = -1) = (\<not> eactivo s k) \<and>
        (\<not> eactivo s k \<longrightarrow> econs s k = C_fuera) \<and>
        tamanio_vector (cintas (emem s) ! k) = 10 \<and>
        epuestos s k = esacados s k @ contenido (cintas (emem s) ! k))"

lemma reabrir_cero:
  "control_cinta_llena c ! k = 0 \<Longrightarrow> control_cinta_llena (escaner_reabrir j c) ! k = 0"
  by (cases "k = j") (auto simp: escaner_reabrir_def Let_def)

lemma reabrir_cintas: "cintas (escaner_reabrir j c) = cintas c"
  by (simp add: escaner_reabrir_def Let_def)

lemma escaner_sacar_cero:
  "escaner_sacar j c = (c', r) \<Longrightarrow> control_cinta_llena c ! k = 0 \<Longrightarrow> control_cinta_llena c' ! k = 0"
  by (auto simp: escaner_sacar_partes sacar_tomar_def sacar_dejar_def reabrir_cero split: prod.splits if_splits)

lemma escaner_sacar_tamanio:
  assumes "escaner_sacar j c = (c', r)" and "j < length (cintas c)"
  shows "tamanio_vector (cintas c' ! k) = tamanio_vector (cintas c ! k)"
  using assms by (cases "k = j")
    (auto simp: escaner_sacar_partes sacar_tomar_def sacar_dejar_def reabrir_cintas split: prod.splits if_splits)

lemma escaner_colocar_tamanio:
  assumes "escaner_colocar e p c = (c', p')" and "p < length (cintas c)"
  shows "tamanio_vector (cintas c' ! k) = tamanio_vector (cintas c ! k)"
  using assms by (cases "k = p") (auto simp: escaner_colocar_def Let_def)

lemma eturnos_upd:
  "eturnos (s\<lparr>emem := c\<rparr>) = eturnos s"
  "eturnos (s\<lparr>eprod := p\<rparr>) = eturnos s"
  "eturnos (s\<lparr>eproxima := n\<rparr>) = eturnos s"
  "eturnos (s\<lparr>eactivo := a\<rparr>) = eturnos s"
  "eturnos (s\<lparr>epuestos := ps\<rparr>) = eturnos s"
  "eturnos (s\<lparr>esacados := xs\<rparr>) = eturnos s"
  "eturnos (s\<lparr>econs := (econs s)(j := q)\<rparr>) = (eturnos s)(j := turno_consumidor q)"
  "eturnos (s\<lparr>emem := c, econs := (econs s)(j := q)\<rparr>) = (eturnos s)(j := turno_consumidor q)"
  by (auto simp: eturnos_def)

lemma inv_escaner_ini: "inv_escaner (ini_escaner vacio)"
  by (auto simp: inv_escaner_def ini_escaner_def abrir_cinta_escaner_def asignar_punteros_def
      escaner_ok_def control_ok_def banda_ok_def anillo_ok_def contenido_def MAX_SCANNERS_def
      ficha_productor_def eturnos_def less_Suc_eq numeral_eq_Suc)

lemma inv_escaner_busca:
  assumes inv: "inv_escaner s" and pc: "eprod s = E_busca e"
  shows "inv_escaner (fin_elegir e s)"
proof -
  obtain c' p' hay where x: "escaner_elegir (eproxima s) (emem s) = (c', p', hay)" by (metis prod_cases3)
  have "escaner_ok 1 (eturnos s) (emem s)" and "eproxima s < MAX_SCANNERS"
    using inv pc by (auto simp: inv_escaner_def ficha_productor_def)
  note a = elegir_ok [OF this x]
  show ?thesis
    using inv pc x a
    by (cases hay) (auto simp: fin_elegir_def inv_escaner_def eturnos_upd ficha_productor_def)
qed

lemma inv_escaner_coloca:
  assumes inv: "inv_escaner s" and pc: "eprod s = E_coloca e"
  shows "inv_escaner (fin_poner_escaner e s)"
proof -
  let ?p = "eproxima s"
  obtain c' p' where x: "escaner_colocar e ?p (emem s) = (c', p')" by fastforce
  have ok: "escaner_ok 1 (eturnos s) (emem s)" and p: "?p < MAX_SCANNERS"
    and ll: "control_cinta_llena (emem s) ! ?p = 0" and l: "?p < length (cintas (emem s))"
    using inv pc by (auto simp: inv_escaner_def ficha_productor_def escaner_ok_def)
  note a = escaner_colocar_ok [OF ok p ll x] escaner_colocar_tamanio [OF x l]
  have "epuestos s k = esacados s k @ contenido (cintas c' ! k)" if "k < MAX_SCANNERS" "k \<noteq> ?p" for k
    using inv that a(4) [of k] by (simp add: inv_escaner_def)
  moreover have "epuestos s ?p @ [e] = esacados s ?p @ contenido (cintas c' ! ?p)"
    using inv p a(3) by (simp add: inv_escaner_def)
  ultimately show ?thesis
    using inv x a(1,2,5,6)
    by (auto simp: fin_poner_escaner_def inv_escaner_def eturnos_upd ficha_productor_def)
qed

lemma inv_escaner_saca:
  assumes inv: "inv_escaner s" and j: "j < MAX_SCANNERS" and pc: "econs s j = C_turno"
  shows "inv_escaner (fin_sacar_escaner j s)"
proof -
  obtain c' r where x: "escaner_sacar j (emem s) = (c', r)" by fastforce
  have ok: "escaner_ok (ficha_productor (eprod s)) (eturnos s) (emem s)" and t: "eturnos s j = 1"
    and l: "j < length (cintas (emem s))"
    using inv pc j by (auto simp: inv_escaner_def eturnos_def escaner_ok_def)
  note a = escaner_sacar_ok [OF ok j t x] escaner_sacar_tamanio [OF x l] escaner_sacar_cero [OF x]
  have "epuestos s k = esacados s k @ contenido (cintas c' ! k)" if "k < MAX_SCANNERS" "k \<noteq> j" for k
    using inv that a(3) [of k] by (simp add: inv_escaner_def)
  moreover have "epuestos s j = (esacados s j @ (case r of None \<Rightarrow> [] | Some x \<Rightarrow> [x])) @ contenido (cintas c' ! j)"
    using inv j a(2) by (simp add: inv_escaner_def)
  moreover have "eactivo s j" using inv j pc by (auto simp: inv_escaner_def)
  ultimately show ?thesis
    using inv x a(1,4,5,6)
    by (auto simp: fin_sacar_escaner_def inv_escaner_def eturnos_upd)
qed

lemma inv_escaner_activa:
  assumes inv: "inv_escaner s" and j: "j < MAX_SCANNERS" and n: "\<not> eactivo s j"
  shows "inv_escaner (s\<lparr>emem := escaner_activar j (emem s), eactivo := (eactivo s)(j := True)\<rparr>)"
proof -
  have ok: "escaner_ok (ficha_productor (eprod s)) (eturnos s) (emem s)" using inv by (simp add: inv_escaner_def)
  note a = activar_ok [OF ok j]
  have "control_cinta_llena (emem s) ! j = -1" using inv j n by (simp add: inv_escaner_def)
  then have "control_cinta_llena (escaner_activar j (emem s)) ! eproxima s = 0"
    if "control_cinta_llena (emem s) ! eproxima s = 0"
    using that a(4) [of "eproxima s"] by (cases "eproxima s = j") auto
  then show ?thesis
    using inv a(1-3) a(4) by (auto simp: inv_escaner_def eturnos_upd)
qed

lemma escaner_wait_productor:
  assumes ok: "escaner_ok 0 tc c" and w: "wait_on 0 (semaforos c) = Listo sem"
  shows "escaner_ok 1 tc (c\<lparr>semaforos := sem\<rparr>)"
proof -
  have s: "0 < semaforos c ! 0" "sem = (semaforos c)[0 := semaforos c ! 0 - 1]" using w by (auto simp: paso_simps)
  have "int (semaforos c ! 0) + control_productor_esperando c = 1" "0 \<le> control_productor_esperando c"
    using ok by (auto simp: escaner_ok_def control_ok_def)
  with s(1) have "semaforos c ! 0 = 1" by linarith
  then show ?thesis
    using ok s by (auto simp: escaner_ok_def control_ok_def MAX_SCANNERS_def nth_list_update)
qed

lemma escaner_wait_consumidor:
  assumes ok: "escaner_ok tp tc c" and j: "j < MAX_SCANNERS" and w: "wait_on (j + 1) (semaforos c) = Listo sem"
  shows "escaner_ok tp (tc(j := 1)) (c\<lparr>semaforos := sem\<rparr>)"
proof -
  have s: "0 < semaforos c ! (j + 1)" "sem = (semaforos c)[j + 1 := semaforos c ! (j + 1) - 1]"
    using w by (auto simp: paso_simps)
  have b: "banda_ok (cintas c ! j) (control_cinta_llena c ! j) (semaforos c ! (j + 1)) (tc j)"
    using ok j by (simp add: escaner_ok_def)
  then have "semaforos c ! (j + 1) = 1 \<and> tc j = 0" using s(1) by (auto simp: banda_ok_def)
  then show ?thesis
    using ok j s by (auto simp: escaner_ok_def control_ok_def banda_ok_def nth_list_update)
qed

lemma inv_escaner_paso: "inv_escaner s \<Longrightarrow> paso_escaner s t \<Longrightarrow> inv_escaner t"
proof (erule paso_escanerE; (simp only:)?)
  fix e
  assume "inv_escaner s" "eprod s = E_fuera"
  then show "inv_escaner (s\<lparr>eprod := E_espera e\<rparr>)" by (simp add: inv_escaner_def eturnos_upd ficha_productor_def)
next
  fix e sem
  assume inv: "inv_escaner s" and pc: "eprod s = E_espera e" and w: "wait_on 0 (semaforos (emem s)) = Listo sem"
  have "escaner_ok 1 (eturnos s) ((emem s)\<lparr>semaforos := sem\<rparr>)"
    using escaner_wait_productor [OF _ w] inv pc by (auto simp: inv_escaner_def ficha_productor_def)
  with inv show "inv_escaner (s\<lparr>emem := (emem s)\<lparr>semaforos := sem\<rparr>, eprod := E_busca e\<rparr>)"
    by (simp add: inv_escaner_def eturnos_upd ficha_productor_def)
next
  fix j
  assume inv: "inv_escaner s" and "eactivo s j" and "econs s j = C_fuera"
  moreover from this(3) have "(eturnos s)(j := 0) = eturnos s" by (auto simp: eturnos_def)
  ultimately show "inv_escaner (s\<lparr>econs := (econs s)(j := C_espera)\<rparr>)"
    by (auto simp: inv_escaner_def eturnos_upd)
next
  fix j sem
  assume inv: "inv_escaner s" and j: "j < MAX_SCANNERS" and pc: "econs s j = C_espera"
    and w: "wait_on (Suc j) (semaforos (emem s)) = Listo sem"
  have "escaner_ok (ficha_productor (eprod s)) ((eturnos s)(j := 1)) ((emem s)\<lparr>semaforos := sem\<rparr>)"
    using escaner_wait_consumidor [OF _ j] w inv by (auto simp: inv_escaner_def)
  with inv j pc show "inv_escaner (s\<lparr>emem := (emem s)\<lparr>semaforos := sem\<rparr>, econs := (econs s)(j := C_turno)\<rparr>)"
    by (auto simp: inv_escaner_def eturnos_upd)
qed (blast intro: inv_escaner_busca inv_escaner_coloca inv_escaner_saca inv_escaner_activa)+

section \<open>Schedules\<close>

datatype 'a accion_escaner =
  E_llama 'a | E_pasa | E_elige | E_pone | E_activa nat | E_pide nat | E_entra nat | E_saca nat

fun hacer_escaner :: "'a accion_escaner \<Rightarrow> 'a sis_escaner \<Rightarrow> 'a sis_escaner option" where
  "hacer_escaner (E_llama e) s = (case eprod s of E_fuera \<Rightarrow> Some (s\<lparr>eprod := E_espera e\<rparr>) | _ \<Rightarrow> None)"
| "hacer_escaner E_pasa s =
     (case eprod s of
        E_espera e \<Rightarrow>
          (case wait_on 0 (semaforos (emem s)) of
             Listo sem \<Rightarrow> Some (s\<lparr>emem := (emem s)\<lparr>semaforos := sem\<rparr>, eprod := E_busca e\<rparr>)
           | _ \<Rightarrow> None)
      | _ \<Rightarrow> None)"
| "hacer_escaner E_elige s = (case eprod s of E_busca e \<Rightarrow> Some (fin_elegir e s) | _ \<Rightarrow> None)"
| "hacer_escaner E_pone s = (case eprod s of E_coloca e \<Rightarrow> Some (fin_poner_escaner e s) | _ \<Rightarrow> None)"
| "hacer_escaner (E_activa j) s =
     (if j < MAX_SCANNERS \<and> \<not> eactivo s j
      then Some (s\<lparr>emem := escaner_activar j (emem s), eactivo := (eactivo s)(j := True)\<rparr>) else None)"
| "hacer_escaner (E_pide j) s =
     (if j < MAX_SCANNERS \<and> eactivo s j \<and> econs s j = C_fuera
      then Some (s\<lparr>econs := (econs s)(j := C_espera)\<rparr>) else None)"
| "hacer_escaner (E_entra j) s =
     (if j < MAX_SCANNERS \<and> econs s j = C_espera
      then (case wait_on (j + 1) (semaforos (emem s)) of
              Listo sem \<Rightarrow> Some (s\<lparr>emem := (emem s)\<lparr>semaforos := sem\<rparr>, econs := (econs s)(j := C_turno)\<rparr>)
            | _ \<Rightarrow> None)
      else None)"
| "hacer_escaner (E_saca j) s =
     (if j < MAX_SCANNERS \<and> econs s j = C_turno then Some (fin_sacar_escaner j s) else None)"

lemma hacer_escaner_paso: "hacer_escaner a s = Some t \<Longrightarrow> paso_escaner s t"
  by (cases a)
    (auto split: if_splits productor_escaner.splits llamada.splits intro: paso_escaner.intros)

interpretation escaner: sistema_ejecutable "\<lambda>s. \<exists>vacio. s = ini_escaner vacio" paso_escaner inv_escaner
    hacer_escaner
  by unfold_locales (auto intro: inv_escaner_ini inv_escaner_paso hacer_escaner_paso)

abbreviation escaner_alcanzable :: "'a sis_escaner \<Rightarrow> bool" where
  "escaner_alcanzable \<equiv> alcanzable (\<lambda>s. \<exists>vacio. s = ini_escaner vacio) paso_escaner"

text \<open>
  The producer finds no scanner and sleeps; scanners 2 and 4 start; the piece goes to belt
  2, the next one to belt 4, and scanner 2 takes its own.
\<close>

definition corrida_escaner :: "nat accion_escaner list" where
  "corrida_escaner =
     [E_llama 7, E_pasa, E_elige, E_activa 1, E_activa 3, E_pasa, E_elige, E_pone,
      E_llama 9, E_pasa, E_elige, E_pone, E_pide 1, E_entra 1, E_saca 1, E_pide 1, E_pide 3,
      E_llama 5]"

definition estado_escaner :: "nat sis_escaner" where
  "estado_escaner = the (ejecutar hacer_escaner corrida_escaner (ini_escaner 0))"

lemma corrida_escaner_ok:
  "ejecutar hacer_escaner corrida_escaner (ini_escaner 0) = Some estado_escaner"
proof -
  have "ejecutar hacer_escaner corrida_escaner (ini_escaner 0) \<noteq> None" by code_simp
  then show ?thesis unfolding estado_escaner_def by force
qed

lemma estado_escaner_alcanzable: "escaner_alcanzable estado_escaner"
  by (rule escaner.ejecutar_inicio [OF _ corrida_escaner_ok]) auto

lemma estado_escaner_valores:
  "epuestos estado_escaner 1 = [7]" "esacados estado_escaner 1 = [7]" "epuestos estado_escaner 3 = [9]"
  "esacados estado_escaner 3 = []" "\<not> eactivo estado_escaner 0" "eactivo estado_escaner 3"
  "contenido (cintas (emem estado_escaner) ! 3) = [9]"
  "cantidad_elementos (cintas (emem estado_escaner) ! 3) = 1"
  "econs estado_escaner 3 = C_espera" "eprod estado_escaner = E_espera 5"
  by code_simp+

section \<open>Properties\<close>

text \<open>
  The producer's search goes round the belts: starting at belt \<open>p\<close> it stops at the
  first belt, in cyclic order, that takes luggage, and gives up (raising its own flag) only
  when none of the four does; nothing else changes.
\<close>

theorem escaner_reparto:
  assumes "p < MAX_SCANNERS" and "escaner_elegir p c = (c', p', hay)"
  shows "hay = (\<exists>k < MAX_SCANNERS. control_cinta_llena c ! k = 0) \<and>
         (hay \<longrightarrow> c' = c \<and> control_cinta_llena c ! p' = 0 \<and>
            (\<exists>n < MAX_SCANNERS. p' = (p + n) mod MAX_SCANNERS \<and>
               (\<forall>m < n. control_cinta_llena c ! ((p + m) mod MAX_SCANNERS) \<noteq> 0))) \<and>
         (\<not> hay \<longrightarrow> c' = c\<lparr>control_productor_esperando := 1\<rparr>)"
proof -
  obtain n where b: "buscar_cinta 0 p (control_cinta_llena c) = (n, p')"
    and hay: "hay = (n < MAX_SCANNERS)"
    and c': "c' = (if n = MAX_SCANNERS then c\<lparr>control_productor_esperando := 1\<rparr> else c)"
    using assms(2) by (auto simp: escaner_elegir_def split: prod.splits)
  have r: "n \<le> MAX_SCANNERS" "p' = (p + n) mod MAX_SCANNERS"
    "\<forall>m < n. control_cinta_llena c ! ((p + m) mod MAX_SCANNERS) \<noteq> 0"
    "n < MAX_SCANNERS \<longrightarrow> control_cinta_llena c ! p' = 0"
    using buscar_cinta_ok [OF assms(1) _ b] by auto
  show ?thesis
  proof (cases "n < MAX_SCANNERS")
    case True
    have "p' < MAX_SCANNERS" using r(2) by (simp add: MAX_SCANNERS_def)
    then have "\<exists>k < MAX_SCANNERS. control_cinta_llena c ! k = 0" using r(4) True by blast
    then show ?thesis using True r hay c' by auto
  next
    case False
    then have "\<forall>k < MAX_SCANNERS. control_cinta_llena c ! k \<noteq> 0"
      using r(1,3) vuelta_completa [OF assms(1)] by (metis le_neq_implies_less)
    then show ?thesis using False r(1) hay c' by auto
  qed
qed

theorem escaner_reparto_witness:
  "\<exists>c' p'. escaner_elegir 2 (emem estado_escaner) = (c', p', True) \<and>
     (\<exists>k < MAX_SCANNERS. control_cinta_llena (emem estado_escaner) ! k = 0)"
proof -
  have "snd (snd (escaner_elegir 2 (emem estado_escaner)))" by code_simp
  then obtain c' p' where e: "escaner_elegir 2 (emem estado_escaner) = (c', p', True)"
    by (metis prod.collapse)
  have "2 < MAX_SCANNERS" by (simp add: MAX_SCANNERS_def)
  from escaner_reparto [OF this e] e show ?thesis by auto
qed

text \<open>
  C9. Each scanner receives, in order, the pieces that were put on its belt: in every
  reachable state and for each of the four belts, the pieces put on it are those its scanner
  took followed by its buffer, at most ten; and nothing is ever put on the belt of a scanner
  that has not started.
\<close>

theorem escaner_fifo:
  assumes "escaner_alcanzable s" and "k < MAX_SCANNERS"
  shows "epuestos s k = esacados s k @ contenido (cintas (emem s) ! k) \<and>
         length (contenido (cintas (emem s) ! k)) \<le> 10 \<and>
         (\<not> eactivo s k \<longrightarrow> contenido (cintas (emem s) ! k) = [])"
proof -
  have inv: "inv_escaner s" using assms(1) by (rule escaner.inv_alcanzable)
  then have b: "banda_ok (cintas (emem s) ! k) (control_cinta_llena (emem s) ! k)
      (semaforos (emem s) ! (k + 1)) (eturnos s k)"
    using assms(2) by (simp add: inv_escaner_def escaner_ok_def)
  then show ?thesis
    using inv assms(2) by (auto simp: inv_escaner_def banda_ok_def anillo_ok_def length_contenido contenido_vacio)
qed

theorem escaner_fifo_witness:
  "epuestos estado_escaner 3 = [] @ [9] \<and> length (contenido (cintas (emem estado_escaner) ! 3)) \<le> 10"
  using escaner_fifo [OF estado_escaner_alcanzable, of 3] estado_escaner_valores
  by (simp add: MAX_SCANNERS_def)

text \<open>
  C10. No wake-up is lost on the scanner belts: in every reachable state, when the check-in
  robot is blocked every scanner that has started has a full belt, and when a scanner is
  blocked its belt is empty.
\<close>

theorem escaner_sin_despertar_perdido:
  assumes "escaner_alcanzable s"
  shows "(\<forall>e. eprod s = E_espera e \<and> wait_on 0 (semaforos (emem s)) = Bloqueado \<longrightarrow>
            (\<forall>k < MAX_SCANNERS. eactivo s k \<longrightarrow>
               cantidad_elementos (cintas (emem s) ! k) = tamanio_vector (cintas (emem s) ! k))) \<and>
         (\<forall>j < MAX_SCANNERS. econs s j = C_espera \<and> wait_on (j + 1) (semaforos (emem s)) = Bloqueado \<longrightarrow>
            cantidad_elementos (cintas (emem s) ! j) = 0)"
proof (intro conjI allI impI; (elim conjE)?)
  have inv: "inv_escaner s" using assms by (rule escaner.inv_alcanzable)
  have b: "banda_ok (cintas (emem s) ! k) (control_cinta_llena (emem s) ! k)
      (semaforos (emem s) ! (k + 1)) (eturnos s k)" if "k < MAX_SCANNERS" for k
    using inv that by (simp add: inv_escaner_def escaner_ok_def)
  {
    fix e k
    assume pc: "eprod s = E_espera e" and w: "wait_on 0 (semaforos (emem s)) = Bloqueado"
      and k: "k < MAX_SCANNERS" and act: "eactivo s k"
    have "control_productor_esperando (emem s) = 1"
      using inv pc w by (auto simp: inv_escaner_def escaner_ok_def control_ok_def ficha_productor_def paso_simps)
    then have "control_cinta_llena (emem s) ! k \<noteq> 0"
      using inv k by (auto simp: inv_escaner_def escaner_ok_def control_ok_def)
    moreover have "control_cinta_llena (emem s) ! k \<noteq> -1" using inv k act by (simp add: inv_escaner_def)
    ultimately show "cantidad_elementos (cintas (emem s) ! k) = tamanio_vector (cintas (emem s) ! k)"
      using b [OF k] by (auto simp: banda_ok_def)
  }
  fix j
  assume j: "j < MAX_SCANNERS" and "econs s j = C_espera" and "wait_on (j + 1) (semaforos (emem s)) = Bloqueado"
  then have "semaforos (emem s) ! (j + 1) = 0 \<and> eturnos s j = 0" by (simp add: paso_simps eturnos_def)
  then show "cantidad_elementos (cintas (emem s) ! j) = 0" using b [OF j] by (auto simp: banda_ok_def)
qed

theorem escaner_sin_despertar_perdido_witness:
  "econs estado_escaner 3 = C_espera \<and> wait_on (3 + 1) (semaforos (emem estado_escaner)) \<noteq> Bloqueado"
  using escaner_sin_despertar_perdido [OF estado_escaner_alcanzable] estado_escaner_valores(8,9)
  by (auto simp: MAX_SCANNERS_def)

section \<open>A scanner that leaves\<close>

text \<open>
  The destructor, without the lock, when a scanner ends by an exception; its belt stays as it is.
\<close>

definition escaner_cerrar :: "nat \<Rightarrow> 'a cinta_escaner \<Rightarrow> 'a cinta_escaner" where
  "escaner_cerrar j c =
     c\<lparr>control_ids_escaners_activos := (control_ids_escaners_activos c)[j := 0],
       control_cantidad_de_escaners_activos := control_cantidad_de_escaners_activos c - 1,
       control_cinta_llena := (control_cinta_llena c)[j := -1]\<rparr>"

text \<open>A belt that is closed gets no luggage.\<close>

lemma cerrar_no_recibe:
  assumes "p < MAX_SCANNERS" and "length (control_cinta_llena c) = MAX_SCANNERS" and "j < MAX_SCANNERS"
    and "escaner_elegir p (escaner_cerrar j c) = (c', p', True)"
  shows "p' \<noteq> j"
proof -
  obtain n where b: "buscar_cinta 0 p (control_cinta_llena (escaner_cerrar j c)) = (n, p')" and n: "n < MAX_SCANNERS"
    using assms(4) by (auto simp: escaner_elegir_def split: prod.splits)
  have "control_cinta_llena (escaner_cerrar j c) ! p' = 0"
    using buscar_cinta_ok [OF assms(1) le0 b] n by blast
  then show ?thesis using assms(2,3) by (auto simp: escaner_cerrar_def)
qed

text \<open>
  The scanner that starts again opens its belt as if it were empty: if it was full, the producer
  takes it, and the piece it puts is the one at the front, over the oldest.
\<close>

lemma reinicio_pisa:
  fixes c :: "'a cinta_escaner"
  assumes j: "j < MAX_SCANNERS" and l: "length (control_cinta_llena c) = MAX_SCANNERS" "length (cintas c) = MAX_SCANNERS"
    and b: "anillo_ok (cintas c ! j)" "cantidad_elementos (cintas c ! j) = tamanio_vector (cintas c ! j)"
  defines "c1 \<equiv> escaner_activar j (escaner_cerrar j c)"
  shows "\<exists>c2. escaner_elegir j c1 = (c1, j, True) \<and> escaner_colocar e j c1 = (c2, (j + 1) mod MAX_SCANNERS) \<and>
    leer (cintas c2 ! j) = e \<and> cantidad_elementos (cintas c2 ! j) = tamanio_vector (cintas c2 ! j) + 1"
proof -
  have ll: "control_cinta_llena c1 ! j = 0" and cs: "cintas c1 = cintas c"
    using j l by (simp_all add: c1_def escaner_activar_def escaner_cerrar_def Let_def)
  have "buscar_cinta 0 j (control_cinta_llena c1) = (0, j)" using ll by (subst buscar_cinta.simps) simp
  then have el: "escaner_elegir j c1 = (c1, j, True)" using j by (simp add: escaner_elegir_def MAX_SCANNERS_def)
  have "posicion_libre (cintas c ! j) = posicion_ocupada (cintas c ! j)"
    using b by (simp add: anillo_ok_def mod_pos_pos_trivial)
  then have "leer (colocar e (cintas c ! j)) = e"
    using b by (simp add: leer_def colocar_def anillo_ok_def)
  moreover have "leer (b'\<lparr>consumidor_esperando := x\<rparr>) = leer b'" for b' :: "'a banda" and x by (simp add: leer_def)
  ultimately show ?thesis
    using el cs j l(2) b(2) by (auto simp: escaner_colocar_def Let_def)
qed

end
