(* ===== verification/Colas.thy ===== *)
theory Colas
  imports Preludio
begin

text \<open>
  System V message queues as \<^verbatim>\<open>ipc/messagequeue.cpp\<close> uses them, behind the interface
  \<^verbatim>\<open>IMessageQueue\<close>. A message is its \<^verbatim>\<open>mtype\<close> and its text; the kernel's limits
  on the bytes of a queue are not modelled, so a \<^verbatim>\<open>push\<close> never blocks. The contract of
  the interface, a FIFO per message type, is the locale \<open>cola_mensajes\<close>: the message broker
  of the network provides it too.
\<close>

section \<open>Operations\<close>

type_synonym 'm cola = "(int \<times> 'm) list"

text \<open>\<^verbatim>\<open>msgsnd\<close> refuses a type that is not positive.\<close>

definition push :: "int \<Rightarrow> 'm \<Rightarrow> 'm cola \<Rightarrow> 'm cola llamada" where
  "push mtype m q = (if mtype \<le> 0 then Fallo OSError else Listo (q @ [(mtype, m)]))"

text \<open>
  \<^verbatim>\<open>msgrcv\<close>: type 0 takes the first message, a positive type the first of that type, a
  negative one the first of the lowest type not above its absolute value.
\<close>

fun sacar_primero :: "('a \<Rightarrow> bool) \<Rightarrow> 'a list \<Rightarrow> ('a \<times> 'a list) option" where
  "sacar_primero P [] = None"
| "sacar_primero P (x # xs) =
     (if P x then Some (x, xs)
      else case sacar_primero P xs of None \<Rightarrow> None | Some (y, ys) \<Rightarrow> Some (y, x # ys))"

fun menor_tipo :: "int \<Rightarrow> 'm cola \<Rightarrow> int option" where
  "menor_tipo tope [] = None"
| "menor_tipo tope ((t, m) # q) =
     (case menor_tipo tope q of
        None \<Rightarrow> (if t \<le> tope then Some t else None)
      | Some u \<Rightarrow> Some (if t \<le> u then t else u))"

definition pull :: "int \<Rightarrow> 'm cola \<Rightarrow> ((int \<times> 'm) \<times> 'm cola) llamada" where
  "pull type q =
     (case (if type = 0 then sacar_primero (\<lambda>_. True) q
            else if type > 0 then sacar_primero (\<lambda>p. fst p = type) q
            else case menor_tipo (- type) q of
                   None \<Rightarrow> None
                 | Some t \<Rightarrow> sacar_primero (\<lambda>p. fst p = t) q) of
        None \<Rightarrow> Bloqueado
      | Some r \<Rightarrow> Listo r)"

definition pull_interrumpido :: "((int \<times> 'm) \<times> 'm cola) llamada" where
  "pull_interrumpido = Fallo InterruptedSyscall"

section \<open>The messages of a type\<close>

definition de_tipo :: "int \<Rightarrow> 'm cola \<Rightarrow> 'm list" where
  "de_tipo t q = map snd (filter (\<lambda>p. fst p = t) q)"

lemma de_tipo_simps [simp]:
  "de_tipo t [] = []"
  "de_tipo t ((u, m) # q) = (if u = t then m # de_tipo t q else de_tipo t q)"
  "de_tipo t (q @ r) = de_tipo t q @ de_tipo t r"
  by (simp_all add: de_tipo_def)

lemma push_Listo [paso_simps]: "(push t m q = Listo q') = (0 < t \<and> q' = q @ [(t, m)])"
  by (auto simp: push_def)

lemma sacar_primero_None: "(sacar_primero (\<lambda>p. fst p = t) q = None) = (de_tipo t q = [])"
  by (induction q) (auto split: option.splits if_splits)

lemma sacar_primero_Some:
  "sacar_primero (\<lambda>p. fst p = t) q = Some (p, q') \<Longrightarrow>
     fst p = t \<and> de_tipo t q = snd p # de_tipo t q' \<and> (\<forall>u. u \<noteq> t \<longrightarrow> de_tipo u q' = de_tipo u q)"
  by (induction q arbitrary: q') (auto split: if_splits option.splits)

lemma sacar_primero_mset:
  "sacar_primero P q = Some (p, q') \<Longrightarrow> P p \<and> length q = Suc (length q') \<and> set q = insert p (set q')"
  by (induction q arbitrary: q') (auto split: if_splits option.splits)

lemma pull_tipo_Listo [paso_simps]:
  assumes "0 < t"
  shows "(\<exists>r. pull t q = Listo r) = (de_tipo t q \<noteq> [])"
    and "(pull t q = Bloqueado) = (de_tipo t q = [])"
  using assms sacar_primero_None [of t q] by (auto simp: pull_def split: option.splits)

lemma pull_tipo_ok:
  assumes "0 < t" and "pull t q = Listo ((u, m), q')"
  shows "u = t" and "de_tipo t q = m # de_tipo t q'" and "v \<noteq> t \<Longrightarrow> de_tipo v q' = de_tipo v q"
    and "length q = Suc (length q')" and "set q = insert (t, m) (set q')"
proof -
  have s: "sacar_primero (\<lambda>p. fst p = t) q = Some ((u, m), q')"
    using assms by (auto simp: pull_def split: option.splits)
  note a = sacar_primero_Some [OF s] sacar_primero_mset [OF s]
  show "u = t" and "de_tipo t q = m # de_tipo t q'" and "v \<noteq> t \<Longrightarrow> de_tipo v q' = de_tipo v q"
    and "length q = Suc (length q')" and "set q = insert (t, m) (set q')"
    using a by auto
qed

lemma pull_0_Listo [paso_simps]: "(pull 0 q = Listo (p, q')) = (q = p # q')"
  by (cases q) (auto simp: pull_def)

section \<open>The contract of a queue\<close>

text \<open>
  What the clients of \<^verbatim>\<open>IMessageQueue\<close> rely on: per type, what was pushed comes out in
  order; a push or a pull of a type leaves the others alone; a pull of a type without
  messages blocks. \<open>cabe\<close> is what a queue promises to carry.
\<close>

locale cola_mensajes =
  fixes mensajes :: "'q \<Rightarrow> int \<Rightarrow> 'm list" and bien :: "'q \<Rightarrow> bool" and cabe :: "'m \<Rightarrow> bool"
    and meter :: "int \<Rightarrow> 'm \<Rightarrow> 'q \<Rightarrow> 'q llamada"
    and tomar :: "int \<Rightarrow> 'q \<Rightarrow> ('m \<times> 'q) llamada"
  assumes meter_ok: "bien q \<Longrightarrow> 0 < t \<Longrightarrow> cabe m \<Longrightarrow>
      \<exists>q'. meter t m q = Listo q' \<and> bien q' \<and> mensajes q' = (mensajes q)(t := mensajes q t @ [m])"
    and tomar_ok: "bien q \<Longrightarrow> 0 < t \<Longrightarrow> mensajes q t = m # ms \<Longrightarrow>
      \<exists>q'. tomar t q = Listo (m, q') \<and> bien q' \<and> mensajes q' = (mensajes q)(t := ms)"
    and tomar_bloquea: "bien q \<Longrightarrow> 0 < t \<Longrightarrow> mensajes q t = [] \<Longrightarrow> tomar t q = Bloqueado"
begin

text \<open>A list of messages pushed with a type; then as many pulls of the type give it back.\<close>

fun meter_todos :: "int \<Rightarrow> 'm list \<Rightarrow> 'q \<Rightarrow> 'q llamada" where
  "meter_todos t [] q = Listo q"
| "meter_todos t (m # ms) q = (case meter t m q of Listo q' \<Rightarrow> meter_todos t ms q' | Bloqueado \<Rightarrow> Bloqueado | Fallo e \<Rightarrow> Fallo e)"

fun tomar_n :: "int \<Rightarrow> nat \<Rightarrow> 'q \<Rightarrow> ('m list \<times> 'q) llamada" where
  "tomar_n t 0 q = Listo ([], q)"
| "tomar_n t (Suc n) q =
     (case tomar t q of
        Listo (m, q') \<Rightarrow>
          (case tomar_n t n q' of Listo (ms, q'') \<Rightarrow> Listo (m # ms, q'') | Bloqueado \<Rightarrow> Bloqueado | Fallo e \<Rightarrow> Fallo e)
      | Bloqueado \<Rightarrow> Bloqueado
      | Fallo e \<Rightarrow> Fallo e)"

lemma meter_todos_ok:
  "bien q \<Longrightarrow> 0 < t \<Longrightarrow> \<forall>m \<in> set ms. cabe m \<Longrightarrow>
     \<exists>q'. meter_todos t ms q = Listo q' \<and> bien q' \<and> mensajes q' = (mensajes q)(t := mensajes q t @ ms)"
proof (induction ms arbitrary: q)
  case Nil
  then show ?case by simp
next
  case (Cons m ms)
  obtain q1 where "meter t m q = Listo q1" "bien q1" "mensajes q1 = (mensajes q)(t := mensajes q t @ [m])"
    using meter_ok [OF Cons.prems(1,2), of m] Cons.prems(3) by auto
  with Cons.IH [of q1] Cons.prems(2,3) show ?case by force
qed

lemma tomar_n_ok:
  "bien q \<Longrightarrow> 0 < t \<Longrightarrow> mensajes q t = ms @ rs \<Longrightarrow>
     \<exists>q'. tomar_n t (length ms) q = Listo (ms, q') \<and> bien q' \<and> mensajes q' = (mensajes q)(t := rs)"
proof (induction ms arbitrary: q)
  case Nil
  then show ?case by (auto simp: fun_upd_idem)
next
  case (Cons m ms)
  obtain q1 where "tomar t q = Listo (m, q1)" "bien q1" "mensajes q1 = (mensajes q)(t := ms @ rs)"
    using tomar_ok [OF Cons.prems(1,2), of m "ms @ rs"] Cons.prems(3) by auto
  with Cons.IH [of q1] Cons.prems(2) show ?case by force
qed

lemma ida_y_vuelta:
  assumes "bien q" and "0 < t" and "mensajes q t = []" and "\<forall>m \<in> set ms. cabe m"
  shows "\<exists>q' q''. meter_todos t ms q = Listo q' \<and> tomar_n t (length ms) q' = Listo (ms, q'') \<and>
      mensajes q'' = mensajes q"
proof -
  obtain q' where q': "meter_todos t ms q = Listo q'" "bien q'" "mensajes q' = (mensajes q)(t := ms)"
    using meter_todos_ok [OF assms(1,2,4)] assms(3) by auto
  then obtain q'' where "tomar_n t (length ms) q' = Listo (ms, q'')" "mensajes q'' = (mensajes q')(t := [])"
    using tomar_n_ok [OF q'(2) assms(2), of ms "[]"] by auto
  with q' assms(3) show ?thesis by (metis fun_upd_triv fun_upd_upd)
qed

end

text \<open>The kernel's queue provides the contract; \<open>tomar_texto\<close> forgets the type of the message.\<close>

definition tomar_texto :: "int \<Rightarrow> 'm cola \<Rightarrow> ('m \<times> 'm cola) llamada" where
  "tomar_texto t q = (case pull t q of Listo ((u, m), q') \<Rightarrow> Listo (m, q') | Bloqueado \<Rightarrow> Bloqueado | Fallo e \<Rightarrow> Fallo e)"

lemma tomar_texto_ok:
  assumes "0 < t" and "de_tipo t q = m # ms"
  shows "\<exists>q'. tomar_texto t q = Listo (m, q') \<and> (\<lambda>u. de_tipo u q') = (\<lambda>u. de_tipo u q)(t := ms)"
proof -
  obtain u x q' where r: "pull t q = Listo ((u, x), q')"
    using pull_tipo_Listo(1) [OF assms(1)] assms(2) by (metis list.distinct(1) prod.exhaust)
  from pull_tipo_ok [OF assms(1) r] assms(2) r show ?thesis
    by (auto simp: tomar_texto_def fun_eq_iff)
qed

interpretation cola_kernel: cola_mensajes "\<lambda>q t. de_tipo t q" "\<lambda>_. True" "\<lambda>_. True" push tomar_texto
proof unfold_locales
  fix q :: "'m cola" and t :: int and m :: 'm and ms
  assume t: "0 < t"
  show "\<exists>q'. push t m q = Listo q' \<and> True \<and> (\<lambda>u. de_tipo u q') = (\<lambda>u. de_tipo u q)(t := de_tipo t q @ [m])"
    using t by (auto simp: push_def fun_eq_iff)
  show "de_tipo t q = [] \<Longrightarrow> tomar_texto t q = Bloqueado"
    using pull_tipo_Listo(2) [OF t, of q] by (simp add: tomar_texto_def)
  show "de_tipo t q = m # ms \<Longrightarrow>
      \<exists>q'. tomar_texto t q = Listo (m, q') \<and> True \<and> (\<lambda>u. de_tipo u q') = (\<lambda>u. de_tipo u q)(t := ms)"
    using tomar_texto_ok [OF t] by simp
qed

end
