(* ===== verification/Grupo.thy ===== *)
theory Grupo
  imports Colas Semaforos "HOL-Library.Word"
begin

text \<open>
  The groups of a local broker: \<^verbatim>\<open>local_broker/grupo.cpp\<close> (the table of groups, the
  clients of a group, the token) and the loop of \<^verbatim>\<open>local_broker/token_manager.cpp\<close>. A
  resource of the airport (a shared segment, a semaphore) is a group; whoever holds its token
  owns the resource. Names are the C strings of the table: no NUL inside, compared and copied
  up to \<^verbatim>\<open>MAX_NOMBRE_RECURSO\<close> characters, a free entry being the empty one.
\<close>

section \<open>Names and tables\<close>

definition MAX_CLIENTS :: nat where
  "MAX_CLIENTS = 50"

definition MAX_GRUPOS :: nat where
  "MAX_GRUPOS = 128"

definition MAX_NOMBRE_RECURSO :: nat where
  "MAX_NOMBRE_RECURSO = 64"

definition strncmp_igual :: "string \<Rightarrow> string \<Rightarrow> nat \<Rightarrow> bool" where
  "strncmp_igual a b n \<longleftrightarrow> take n a = take n b"

type_synonym byte = "8 word"

record grupo =
  cant_clientes :: int
  mem_size :: nat
  client_names :: "string list"
  tengo_token_grupo :: int
  tengo_token_cliente :: int
  token_enviado :: int
  avisar_envio :: int
  memoria_compartida :: "byte list"
  mutex_grupo :: nat

text \<open>
  The head of the segment: how many processes wait for a group to exist, the names of the
  groups and where each one's block starts; with it, the semaphores 0 (its mutex) and 1
  (where the waiting ones sleep).
\<close>

record tabla_grupos =
  cantidad_clientes_esperando :: int
  grupos_creados :: "string list"
  offsets :: "nat list"
  sem_tabla :: nat
  sem_espera :: nat

definition TAMANIO_TABLA_CLIENTES :: nat where
  "TAMANIO_TABLA_CLIENTES = 4 + 8 + MAX_NOMBRE_RECURSO * MAX_CLIENTS + 4 * 4"

definition TAMANIO_TABLA_GRUPOS_CREADOS :: nat where
  "TAMANIO_TABLA_GRUPOS_CREADOS = 4 + (MAX_NOMBRE_RECURSO + 8) * MAX_GRUPOS"

text \<open>The master constructor, on a fresh (zeroed) segment.\<close>

definition crear_tabla :: "tabla_grupos" where
  "crear_tabla =
     \<lparr>cantidad_clientes_esperando = 0, grupos_creados = replicate MAX_GRUPOS [],
      offsets = (replicate MAX_GRUPOS 0)[0 := TAMANIO_TABLA_GRUPOS_CREADOS],
      sem_tabla = 1, sem_espera = 0\<rparr>"

fun buscar_grupo :: "string \<Rightarrow> nat \<Rightarrow> string list \<Rightarrow> nat option" where
  "buscar_grupo nombre i [] = None"
| "buscar_grupo nombre i (g # gs) =
     (if g \<noteq> [] \<and> strncmp_igual nombre g MAX_NOMBRE_RECURSO then Some i
      else buscar_grupo nombre (i + 1) gs)"

definition existe_grupo :: "string \<Rightarrow> tabla_grupos \<Rightarrow> bool" where
  "existe_grupo nombre t = (buscar_grupo nombre 0 (grupos_creados t) \<noteq> None)"

text \<open>
  The constructor that looks a group up, one turn of its loop: the position of the group, or
  the process registers as waiting (and then sleeps on semaphore 1).
\<close>

definition buscar_o_esperar :: "string \<Rightarrow> tabla_grupos \<Rightarrow> tabla_grupos \<times> nat option" where
  "buscar_o_esperar nombre t =
     (case buscar_grupo nombre 0 (grupos_creados t) of
        Some i \<Rightarrow> (t, Some i)
      | None \<Rightarrow> (t\<lparr>cantidad_clientes_esperando := cantidad_clientes_esperando t + 1\<rparr>, None))"

text \<open>
  The constructor that creates a group: its position is that of its name or the first free
  one, before which nobody else's is looked at. \<open>None\<close> when the table is full: the code goes
  on with a position it never set.
\<close>

fun lugar_grupo :: "string \<Rightarrow> nat \<Rightarrow> string list \<Rightarrow> nat option" where
  "lugar_grupo nombre i [] = None"
| "lugar_grupo nombre i (g # gs) =
     (if g = [] \<or> strncmp_igual nombre g MAX_NOMBRE_RECURSO then Some i
      else lugar_grupo nombre (i + 1) gs)"

text \<open>An \<^verbatim>\<open>int\<close>, or a sum, as a \<^verbatim>\<open>size_t\<close> of 64 bits.\<close>

definition a_size_t :: "int \<Rightarrow> nat" where
  "a_size_t x = nat (x mod 2 ^ 64)"

lemma a_size_t_igual: "0 \<le> x \<Longrightarrow> x < 2 ^ 64 \<Longrightarrow> int (a_size_t x) = x"
  by (simp add: a_size_t_def)

lemma a_size_t_nat: "n < 2 ^ 64 \<Longrightarrow> a_size_t (int n) = n"
  by (metis a_size_t_igual nat_int nat_less_iff of_nat_0_le_iff of_nat_numeral of_nat_power)

definition crear_grupo :: "string \<Rightarrow> nat \<Rightarrow> tabla_grupos \<Rightarrow> (tabla_grupos \<times> nat) llamada" where
  "crear_grupo nombre tamanio_memoria t =
     (case lugar_grupo nombre 0 (grupos_creados t) of
        None \<Rightarrow> Fallo Fuera_de_rango
      | Some pos \<Rightarrow>
          let t1 = t\<lparr>grupos_creados :=
                      (if grupos_creados t ! pos = []
                       then (grupos_creados t)[pos := take MAX_NOMBRE_RECURSO nombre] else grupos_creados t),
                     sem_espera := sem_espera t + nat (cantidad_clientes_esperando t),
                     cantidad_clientes_esperando := 0\<rparr>
          in if pos + 1 < length (offsets t)
             then Listo (t1\<lparr>offsets := (offsets t1)[pos + 1 :=
                      a_size_t (int (offsets t1 ! pos + tamanio_memoria + TAMANIO_TABLA_CLIENTES))]\<rparr>, pos)
             else Fallo Fuera_de_rango)"

text \<open>
  What it leaves in the block of the group. The loop that should clear the names only clears
  characters 1 to 49 of the first one (\<^verbatim>\<open>(*client_names)[i]\<close>); \<open>nombres\<close> is what the
  block held.
\<close>

definition iniciar_grupo :: "nat \<Rightarrow> string list \<Rightarrow> byte list \<Rightarrow> grupo" where
  "iniciar_grupo tamanio_memoria nombres mem =
     \<lparr>cant_clientes = 0, mem_size = tamanio_memoria, client_names = nombres[0 := take 1 (nombres ! 0)],
      tengo_token_grupo = 0, tengo_token_cliente = 0, token_enviado = 1, avisar_envio = 0,
      memoria_compartida = mem, mutex_grupo = 1\<rparr>"

section \<open>The clients of a group\<close>

text \<open>
  Each operation takes the mutex of the group first. \<open>con_mutex\<close> is that wait and the
  signal at the end; the body works in between.
\<close>

definition con_mutex :: "(grupo \<Rightarrow> grupo \<times> 'r) \<Rightarrow> grupo \<Rightarrow> (grupo \<times> 'r) llamada" where
  "con_mutex cuerpo g =
     (if mutex_grupo g = 0 then Bloqueado
      else case cuerpo (g\<lparr>mutex_grupo := mutex_grupo g - 1\<rparr>) of (g', r) \<Rightarrow>
             Listo (g'\<lparr>mutex_grupo := mutex_grupo g' + 1\<rparr>, r))"

text \<open>\<^verbatim>\<open>locked_ya_esta_cliente\<close> signals the mutex itself when it finds the name.\<close>

definition locked_ya_esta_cliente :: "string \<Rightarrow> grupo \<Rightarrow> grupo \<times> bool" where
  "locked_ya_esta_cliente nombre g =
     (if \<exists>n \<in> set (client_names g). strncmp_igual n nombre MAX_NOMBRE_RECURSO
      then (g\<lparr>mutex_grupo := mutex_grupo g + 1\<rparr>, True) else (g, False))"

definition ya_esta_cliente :: "string \<Rightarrow> grupo \<Rightarrow> (grupo \<times> bool) llamada" where
  "ya_esta_cliente nombre = con_mutex (locked_ya_esta_cliente nombre)"

fun buscar_nombre :: "(string \<Rightarrow> bool) \<Rightarrow> nat \<Rightarrow> string list \<Rightarrow> nat option" where
  "buscar_nombre P i [] = None"
| "buscar_nombre P i (n # ns) = (if P n then Some i else buscar_nombre P (i + 1) ns)"

text \<open>
  \<^verbatim>\<open>join\<close>: an error, or the entry that was taken (none when no entry was free, which
  the counter excludes); the queue of the client is that entry plus the base of the group.
\<close>

definition join :: "string \<Rightarrow> grupo \<Rightarrow> (grupo \<times> (falla + nat option)) llamada" where
  "join nombre = con_mutex (\<lambda>g.
     if cant_clientes g = int MAX_CLIENTS then (g, Inl GenericError)
     else case locked_ya_esta_cliente nombre g of (g1, esta) \<Rightarrow>
            if esta then (g1, Inl GenericError)
            else case buscar_nombre (\<lambda>n. n = []) 0 (client_names g1) of
                   None \<Rightarrow> (g1, Inr None)
                 | Some i \<Rightarrow>
                     (g1\<lparr>client_names := (client_names g1)[i := take MAX_NOMBRE_RECURSO nombre],
                         cant_clientes := cant_clientes g1 + 1\<rparr>, Inr (Some i)))"

definition leave :: "string \<Rightarrow> grupo \<Rightarrow> (grupo \<times> unit) llamada" where
  "leave nombre = con_mutex (\<lambda>g.
     case buscar_nombre (\<lambda>n. strncmp_igual n nombre MAX_NOMBRE_RECURSO) 0 (client_names g) of
       None \<Rightarrow> (g, ())
     | Some i \<Rightarrow> (g\<lparr>client_names := (client_names g)[i := []], cant_clientes := cant_clientes g - 1\<rparr>, ()))"

section \<open>The token\<close>

text \<open>A message of the token queues: \<^verbatim>\<open>tipo\<close> 1 passes the token, 2 replicates memory, 3 asks for a group.\<close>

record traspaso =
  tipo :: int
  recurso :: string

text \<open>
  The search for the next client, one turn per unit of fuel (\<open>None\<close> would be the fuel
  running out); it stops at an occupied entry, or back at \<open>cliente_actual\<close>.
\<close>

fun buscar_ocupado :: "nat \<Rightarrow> nat \<Rightarrow> nat \<Rightarrow> string list \<Rightarrow> nat option" where
  "buscar_ocupado 0 cliente_actual i nombres = None"
| "buscar_ocupado (Suc n) cliente_actual i nombres =
     (if nombres ! i \<noteq> [] then Some i
      else if cliente_actual \<noteq> (i + 1) mod MAX_CLIENTS
           then buscar_ocupado n cliente_actual ((i + 1) mod MAX_CLIENTS) nombres
           else Some cliente_actual)"

definition proximo :: "nat \<Rightarrow> string list \<Rightarrow> nat option" where
  "proximo cliente_actual nombres =
     buscar_ocupado MAX_CLIENTS cliente_actual ((cliente_actual + 1) mod MAX_CLIENTS) nombres"

text \<open>
  \<^verbatim>\<open>obtener_proximo_cliente\<close>: the value returned and the new \<^verbatim>\<open>cliente_actual\<close>,
  which an empty group does not move. \<open>None\<close> is a call that does not return: the mutex is
  taken, or the search does not end.
\<close>

definition obtener_proximo_cliente :: "nat \<Rightarrow> grupo \<Rightarrow> (nat \<times> nat) option" where
  "obtener_proximo_cliente cliente_actual g =
     (if mutex_grupo g = 0 then None
      else if cant_clientes g = 0 then Some (0, cliente_actual)
      else case proximo cliente_actual (client_names g) of None \<Rightarrow> None | Some c \<Rightarrow> Some (c, c))"

definition es_localbroker :: "string \<Rightarrow> bool" where
  "es_localbroker nombre = strncmp_igual nombre ''localbroker'' (length ''localbroker'')"

text \<open>
  \<^verbatim>\<open>pasar_token_a_proximo_cliente\<close>: the message goes to the queue of the chosen entry,
  or to that of entry 0 when the group is empty. The mutex of the group is held meanwhile and
  back at the end (\<open>None\<close>: the wait for it, or the search, does not end). The result is the new
  \<^verbatim>\<open>cliente_actual\<close>, the group and the queue.
\<close>

definition pasar_token :: "nat \<Rightarrow> string \<Rightarrow> nat \<Rightarrow> grupo \<Rightarrow> traspaso cola \<Rightarrow> (nat \<times> grupo \<times> traspaso cola) option" where
  "pasar_token base nombre_recurso cliente_actual g q =
     (case (if mutex_grupo g = 0 then None
            else if cant_clientes g = 0 then Some 0 else proximo cliente_actual (client_names g)) of
        None \<Rightarrow> None
      | Some c \<Rightarrow>
          Some (c,
            (if es_localbroker (client_names g ! c) then g\<lparr>tengo_token_grupo := 0, token_enviado := 0\<rparr>
             else g\<lparr>tengo_token_grupo := 1\<rparr>)\<lparr>tengo_token_cliente := int c\<rparr>,
            q @ [(int (base + (if cant_clientes g = 0 then 0 else c)), \<lparr>tipo = 1, recurso = nombre_recurso\<rparr>)]))"

text \<open>\<^verbatim>\<open>replicar_brokers\<close>: a message of type 2 to the first client whose name starts with \<^verbatim>\<open>localbroker\<close>.\<close>

definition replicar_brokers :: "nat \<Rightarrow> string \<Rightarrow> grupo \<Rightarrow> traspaso cola \<Rightarrow> traspaso cola option" where
  "replicar_brokers base nombre_recurso g q =
     (if mem_size g = 0 then Some q
      else if mutex_grupo g = 0 then None
      else if cant_clientes g > 0
      then (case buscar_nombre es_localbroker 0 (client_names g) of
              None \<Rightarrow> Some q
            | Some j \<Rightarrow> Some (q @ [(int (base + j), \<lparr>tipo = 2, recurso = nombre_recurso\<rparr>)]))
      else Some q)"

text \<open>\<^verbatim>\<open>reenviar_token_al_cliente\<close>: the token again for the client that had it last.\<close>

definition reenviar_token :: "nat \<Rightarrow> string \<Rightarrow> nat \<Rightarrow> traspaso cola \<Rightarrow> grupo \<Rightarrow> (grupo \<times> traspaso cola) llamada" where
  "reenviar_token base nombre_recurso cliente_actual q =
     con_mutex (\<lambda>g. (g, q @ [(int (cliente_actual + base), \<lparr>tipo = 1, recurso = nombre_recurso\<rparr>)]))"

definition lock_token :: "nat \<Rightarrow> traspaso cola \<Rightarrow> (int \<times> traspaso cola) llamada" where
  "lock_token numero_cola_asignada q =
     (case pull (int numero_cola_asignada) q of
        Listo ((t, m), q') \<Rightarrow> Listo (tipo m, q') | Bloqueado \<Rightarrow> Bloqueado | Fallo e \<Rightarrow> Fallo e)"

definition release_token :: "string \<Rightarrow> traspaso cola \<Rightarrow> traspaso cola" where
  "release_token nombre_recurso cola_token_mgr = cola_token_mgr @ [(1, \<lparr>tipo = 1, recurso = nombre_recurso\<rparr>)]"

text \<open>The flags of the sender and receiver of the ring of brokers.\<close>

definition tengo_el_token :: "grupo \<Rightarrow> (grupo \<times> bool) llamada" where
  "tengo_el_token = con_mutex (\<lambda>g. (g, tengo_token_grupo g = 1))"

definition esta_enviando_token :: "grupo \<Rightarrow> (grupo \<times> bool) llamada" where
  "esta_enviando_token = con_mutex (\<lambda>g. (g, token_enviado g = 0))"

definition el_token_se_envio :: "grupo \<Rightarrow> (grupo \<times> unit) llamada" where
  "el_token_se_envio = con_mutex (\<lambda>g. (g\<lparr>token_enviado := 1, avisar_envio := 0\<rparr>, ()))"

definition avisar_si_se_esta_enviando_token :: "grupo \<Rightarrow> (grupo \<times> unit) llamada" where
  "avisar_si_se_esta_enviando_token = con_mutex (\<lambda>g.
     (if tengo_token_grupo g = 0 \<and> token_enviado g = 0 then g\<lparr>avisar_envio := 1\<rparr> else g, ()))"

definition tengo_que_avisar_envio :: "grupo \<Rightarrow> (grupo \<times> bool) llamada" where
  "tengo_que_avisar_envio = con_mutex (\<lambda>g. (g, avisar_envio g = 1))"

definition tengo_el_token_cliente :: "nat \<Rightarrow> nat \<Rightarrow> grupo \<Rightarrow> (grupo \<times> bool) llamada" where
  "tengo_el_token_cliente numero_cola base =
     con_mutex (\<lambda>g. (g, int numero_cola - int base = tengo_token_cliente g))"

section \<open>The table of clients\<close>

definition registrado :: "string \<Rightarrow> grupo \<Rightarrow> bool" where
  "registrado nombre g \<longleftrightarrow> (\<exists>n \<in> set (client_names g). strncmp_igual n nombre MAX_NOMBRE_RECURSO)"

definition clientes_ok :: "grupo \<Rightarrow> bool" where
  "clientes_ok g \<longleftrightarrow>
     length (client_names g) = MAX_CLIENTS \<and>
     cant_clientes g = int (length (filter (\<lambda>n. n \<noteq> []) (client_names g))) \<and>
     distinct (filter (\<lambda>n. n \<noteq> []) (client_names g)) \<and>
     (\<forall>n \<in> set (client_names g). length n \<le> MAX_NOMBRE_RECURSO)"

lemma buscar_nombre_None: "(buscar_nombre P i ns = None) = (\<forall>n \<in> set ns. \<not> P n)"
  by (induction ns arbitrary: i) auto

lemma buscar_nombre_Some:
  "buscar_nombre P i ns = Some k \<Longrightarrow> i \<le> k \<and> k - i < length ns \<and> P (ns ! (k - i)) \<and> (\<forall>j < k - i. \<not> P (ns ! j))"
proof (induction ns arbitrary: i)
  case Nil
  then show ?case by simp
next
  case (Cons n ns)
  show ?case
  proof (cases "P n")
    case True
    then show ?thesis using Cons.prems by auto
  next
    case False
    then have "buscar_nombre P (i + 1) ns = Some k" using Cons.prems by simp
    note h = Cons.IH [OF this]
    then obtain d where d: "k - i = Suc d" "d = k - (i + 1)" by (metis Suc_diff_Suc Suc_eq_plus1 Suc_le_lessD)
    then show ?thesis using h False by (auto simp: nth_Cons split: nat.splits)
  qed
qed

lemma buscar_nombre_0:
  "buscar_nombre P 0 ns = Some k \<Longrightarrow> k < length ns \<and> P (ns ! k) \<and> (\<forall>j < k. \<not> P (ns ! j))"
  using buscar_nombre_Some [of P 0 ns k] by simp

lemma filter_update:
  "k < length ns \<Longrightarrow> filter P (ns[k := x]) =
     filter P (take k ns) @ (if P x then [x] else []) @ filter P (drop (Suc k) ns)"
  by (simp add: upd_conv_take_nth_drop)

lemma filter_nth:
  "k < length ns \<Longrightarrow> filter P ns = filter P (take k ns) @ (if P (ns ! k) then [ns ! k] else []) @ filter P (drop (Suc k) ns)"
proof -
  assume "k < length ns"
  from id_take_nth_drop [OF this]
  have "filter P ns = filter P (take k ns @ ns ! k # drop (Suc k) ns)" by (rule arg_cong)
  then show ?thesis by simp
qed

lemma strncmp_igual_corto:
  "length a \<le> n \<Longrightarrow> strncmp_igual a b n = (a = take n b)"
  by (simp add: strncmp_igual_def)

lemma lugar_libre:
  assumes "clientes_ok g" and "cant_clientes g \<noteq> int MAX_CLIENTS"
  shows "\<exists>i. buscar_nombre (\<lambda>n. n = []) 0 (client_names g) = Some i"
proof (rule ccontr)
  assume "\<nexists>i. buscar_nombre (\<lambda>n. n = []) 0 (client_names g) = Some i"
  then have "\<forall>n \<in> set (client_names g). n \<noteq> []" 
    using buscar_nombre_None [of "\<lambda>n. n = []" 0 "client_names g"] by auto
  then have "filter (\<lambda>n. n \<noteq> []) (client_names g) = client_names g" by (simp add: filter_id_conv)
  with assms show False by (simp add: clientes_ok_def)
qed

lemma clientes_ok_alta:
  assumes ok: "clientes_ok g" and i: "i < MAX_CLIENTS" and libre: "client_names g ! i = []"
    and n: "nombre \<noteq> []" and nuevo: "\<not> registrado nombre g"
  shows "clientes_ok (g\<lparr>client_names := (client_names g)[i := take MAX_NOMBRE_RECURSO nombre],
           cant_clientes := cant_clientes g + 1\<rparr>)"
proof -
  let ?ns = "client_names g" and ?x = "take MAX_NOMBRE_RECURSO nombre"
  have l: "i < length ?ns" using ok i by (simp add: clientes_ok_def)
  have x: "?x \<noteq> []" using n by (simp add: MAX_NOMBRE_RECURSO_def)
  have "?x \<notin> set ?ns"
    using nuevo by (auto simp: registrado_def strncmp_igual_def)
  moreover have "filter (\<lambda>n. n \<noteq> []) ?ns =
      filter (\<lambda>n. n \<noteq> []) (take i ?ns) @ filter (\<lambda>n. n \<noteq> []) (drop (Suc i) ?ns)"
    using filter_nth [OF l, of "\<lambda>n. n \<noteq> []"] libre by simp
  moreover have "filter (\<lambda>n. n \<noteq> []) (?ns[i := ?x]) =
      filter (\<lambda>n. n \<noteq> []) (take i ?ns) @ [?x] @ filter (\<lambda>n. n \<noteq> []) (drop (Suc i) ?ns)"
    using filter_update [OF l, of "\<lambda>n. n \<noteq> []" ?x] x by simp
  ultimately show ?thesis
    using ok set_update_subset_insert [of ?ns i ?x]
    by (auto simp: clientes_ok_def dest: in_set_takeD in_set_dropD)
qed

lemma clientes_ok_baja:
  assumes ok: "clientes_ok g" and i: "i < MAX_CLIENTS" and oc: "client_names g ! i \<noteq> []"
  shows "clientes_ok (g\<lparr>client_names := (client_names g)[i := []], cant_clientes := cant_clientes g - 1\<rparr>)"
proof -
  let ?ns = "client_names g"
  have l: "i < length ?ns" using ok i by (simp add: clientes_ok_def)
  have "filter (\<lambda>n. n \<noteq> []) ?ns =
      filter (\<lambda>n. n \<noteq> []) (take i ?ns) @ [?ns ! i] @ filter (\<lambda>n. n \<noteq> []) (drop (Suc i) ?ns)"
    using filter_nth [OF l, of "\<lambda>n. n \<noteq> []"] oc by simp
  moreover have "filter (\<lambda>n. n \<noteq> []) (?ns[i := []]) =
      filter (\<lambda>n. n \<noteq> []) (take i ?ns) @ filter (\<lambda>n. n \<noteq> []) (drop (Suc i) ?ns)"
    using filter_update [OF l, of "\<lambda>n. n \<noteq> []" "[]"] by simp
  ultimately show ?thesis
    using ok set_update_subset_insert [of ?ns i "[]"] by (auto simp: clientes_ok_def)
qed

lemma join_nuevo:
  assumes ok: "clientes_ok g" and m: "mutex_grupo g \<noteq> 0" and n: "nombre \<noteq> []"
    and lugar: "cant_clientes g \<noteq> int MAX_CLIENTS" and nuevo: "\<not> registrado nombre g"
  obtains i where "i < MAX_CLIENTS" "client_names g ! i = []" "\<forall>j < i. client_names g ! j \<noteq> []"
    "join nombre g = Listo (g\<lparr>client_names := (client_names g)[i := take MAX_NOMBRE_RECURSO nombre],
       cant_clientes := cant_clientes g + 1\<rparr>, Inr (Some i))"
proof -
  obtain i where i: "buscar_nombre (\<lambda>n. n = []) 0 (client_names g) = Some i"
    using lugar_libre [OF ok lugar] by blast
  have "join nombre g = Listo (g\<lparr>client_names := (client_names g)[i := take MAX_NOMBRE_RECURSO nombre],
       cant_clientes := cant_clientes g + 1\<rparr>, Inr (Some i))"
    using m lugar nuevo i
    by (auto simp: join_def con_mutex_def locked_ya_esta_cliente_def registrado_def)
  then show thesis using that buscar_nombre_0 [OF i] ok by (auto simp: clientes_ok_def)
qed

lemma join_repetido:
  assumes "mutex_grupo g \<noteq> 0" and "cant_clientes g \<noteq> int MAX_CLIENTS" and "registrado nombre g"
  shows "join nombre g = Listo (g\<lparr>mutex_grupo := mutex_grupo g + 1\<rparr>, Inl GenericError)"
  using assms by (auto simp: join_def con_mutex_def locked_ya_esta_cliente_def registrado_def)

lemma join_lleno:
  assumes "mutex_grupo g \<noteq> 0" and "cant_clientes g = int MAX_CLIENTS"
  shows "join nombre g = Listo (g, Inl GenericError)"
  using assms by (auto simp: join_def con_mutex_def)

lemma leave_ok:
  assumes ok: "clientes_ok g" and m: "mutex_grupo g \<noteq> 0" and i: "i < MAX_CLIENTS"
    and n: "client_names g ! i = take MAX_NOMBRE_RECURSO nombre" "nombre \<noteq> []"
  shows "leave nombre g = Listo (g\<lparr>client_names := (client_names g)[i := []],
           cant_clientes := cant_clientes g - 1\<rparr>, ())"
proof -
  let ?ns = "client_names g" and ?P = "\<lambda>n. strncmp_igual n nombre MAX_NOMBRE_RECURSO"
  have l: "i < length ?ns" and corto: "\<forall>n \<in> set ?ns. length n \<le> MAX_NOMBRE_RECURSO"
    using ok i by (auto simp: clientes_ok_def)
  have P: "?P n = (n = take MAX_NOMBRE_RECURSO nombre)" if "n \<in> set ?ns" for n
    using corto that by (simp add: strncmp_igual_corto)
  have "take MAX_NOMBRE_RECURSO nombre \<in> set ?ns" using l n nth_mem by metis
  then obtain k where k: "buscar_nombre ?P 0 ?ns = Some k"
    using P buscar_nombre_None [of ?P 0 ?ns] by (cases "buscar_nombre ?P 0 ?ns") auto
  have kk: "k < length ?ns" "?ns ! k = take MAX_NOMBRE_RECURSO nombre"
    using buscar_nombre_0 [OF k] P nth_mem by blast+
  have x: "take MAX_NOMBRE_RECURSO nombre \<noteq> []" using n(2) by (simp add: MAX_NOMBRE_RECURSO_def)
  have "k = i"
  proof (rule ccontr)
    assume "k \<noteq> i"
    have "distinct (filter (\<lambda>n. n \<noteq> []) (?ns))" using ok by (simp add: clientes_ok_def)
    moreover have "\<not> distinct (filter (\<lambda>n. n \<noteq> []) ns)"
      if "a < b" "b < length ns" "ns ! a = ns ! b" "ns ! a \<noteq> []" for a b and ns :: "string list"
    proof -
      have "ns ! a \<in> set (take b ns)" using that by (simp add: in_set_conv_nth) (metis min_less_iff_conj nth_take)
      then show ?thesis using that filter_nth [of b ns "\<lambda>n. n \<noteq> []"] by auto
    qed
    ultimately show False using kk n(1) x l \<open>k \<noteq> i\<close> by (metis linorder_neqE_nat)
  qed
  then show ?thesis using k m by (auto simp: leave_def con_mutex_def)
qed

section \<open>The round of the token\<close>

lemma buscar_ocupado_ok:
  assumes "c < MAX_CLIENTS" and "0 < d" and "d < MAX_CLIENTS" and "MAX_CLIENTS - d \<le> n"
  shows "\<exists>e. d \<le> e \<and> e \<le> MAX_CLIENTS \<and>
    buscar_ocupado n c ((c + d) mod MAX_CLIENTS) ns = Some ((c + e) mod MAX_CLIENTS) \<and>
    (\<forall>x. d \<le> x \<and> x < e \<longrightarrow> ns ! ((c + x) mod MAX_CLIENTS) = []) \<and>
    (e < MAX_CLIENTS \<longrightarrow> ns ! ((c + e) mod MAX_CLIENTS) \<noteq> [])"
  using assms
proof (induction n arbitrary: d)
  case 0
  then show ?case by simp
next
  case (Suc n)
  let ?i = "(c + d) mod MAX_CLIENTS"
  have sig: "(?i + 1) mod MAX_CLIENTS = (c + Suc d) mod MAX_CLIENTS" by (simp add: mod_simps)
  show ?case
  proof (cases "ns ! ?i = []")
    case False
    then show ?thesis using Suc.prems by (intro exI [of _ d]) auto
  next
    case libre: True
    show ?thesis
    proof (cases "Suc d = MAX_CLIENTS")
      case True
      then have "(c + Suc d) mod MAX_CLIENTS = c" using Suc.prems(1) by simp
      moreover have "ns ! ((c + x) mod MAX_CLIENTS) = []" if "d \<le> x" "x < MAX_CLIENTS" for x
      proof -
        have "x = d" using that True by simp
        then show ?thesis using libre by simp
      qed
      ultimately show ?thesis using libre True Suc.prems sig
        by (intro exI [of _ MAX_CLIENTS]) auto
    next
      case False
      then have d: "Suc d < MAX_CLIENTS" using Suc.prems by simp
      then have "(c + Suc d) mod MAX_CLIENTS \<noteq> c"
        using Suc.prems(1) by (cases "c + Suc d < MAX_CLIENTS") (auto simp: mod_if)
      then have r: "buscar_ocupado (Suc n) c ?i ns = buscar_ocupado n c ((c + Suc d) mod MAX_CLIENTS) ns"
        using libre sig by simp
      have resto: "MAX_CLIENTS - Suc d \<le> n" using Suc.prems(4) by simp
      obtain e where e: "Suc d \<le> e" "e \<le> MAX_CLIENTS"
        "buscar_ocupado n c ((c + Suc d) mod MAX_CLIENTS) ns = Some ((c + e) mod MAX_CLIENTS)"
        "\<forall>x. Suc d \<le> x \<and> x < e \<longrightarrow> ns ! ((c + x) mod MAX_CLIENTS) = []"
        "e < MAX_CLIENTS \<longrightarrow> ns ! ((c + e) mod MAX_CLIENTS) \<noteq> []"
        using Suc.IH [OF Suc.prems(1) zero_less_Suc d resto] by blast
      have "\<forall>x. d \<le> x \<and> x < e \<longrightarrow> ns ! ((c + x) mod MAX_CLIENTS) = []"
        using e(4) libre by (metis le_eq_less_or_eq Suc_le_eq)
      then show ?thesis using e r by (intro exI [of _ e]) simp
    qed
  qed
qed

lemma proximo_ok:
  assumes "c < MAX_CLIENTS"
  obtains e where "0 < e" "e \<le> MAX_CLIENTS" "proximo c ns = Some ((c + e) mod MAX_CLIENTS)"
    "\<And>x. 0 < x \<Longrightarrow> x < e \<Longrightarrow> ns ! ((c + x) mod MAX_CLIENTS) = []"
    "e < MAX_CLIENTS \<Longrightarrow> ns ! ((c + e) mod MAX_CLIENTS) \<noteq> []"
proof -
  obtain e where e: "1 \<le> e" "e \<le> MAX_CLIENTS"
    "buscar_ocupado MAX_CLIENTS c ((c + 1) mod MAX_CLIENTS) ns = Some ((c + e) mod MAX_CLIENTS)"
    "\<forall>x. 1 \<le> x \<and> x < e \<longrightarrow> ns ! ((c + x) mod MAX_CLIENTS) = []"
    "e < MAX_CLIENTS \<longrightarrow> ns ! ((c + e) mod MAX_CLIENTS) \<noteq> []"
    using buscar_ocupado_ok [OF assms, of 1 MAX_CLIENTS ns] by (auto simp: MAX_CLIENTS_def)
  show thesis by (rule that [of e]) (use e in \<open>auto simp: proximo_def\<close>)
qed

lemma distancia:
  assumes "c < MAX_CLIENTS" and "m < MAX_CLIENTS"
  obtains D where "0 < D" "D \<le> MAX_CLIENTS" "m = (c + D) mod MAX_CLIENTS"
proof (cases "c < m")
  case True
  then show thesis using assms by (intro that [of "m - c"]) auto
next
  case False
  then show thesis using assms by (intro that [of "m + MAX_CLIENTS - c"]) auto
qed

text \<open>The next \<open>k\<close> clients the token visits while the table does not change.\<close>

fun turnos :: "nat \<Rightarrow> nat \<Rightarrow> string list \<Rightarrow> nat list" where
  "turnos 0 c ns = []"
| "turnos (Suc k) c ns = (case proximo c ns of None \<Rightarrow> [] | Some c' \<Rightarrow> c' # turnos k c' ns)"

lemma turnos_llega:
  assumes "c < MAX_CLIENTS" and "0 < D" and "D \<le> k" and "D \<le> MAX_CLIENTS" and "ns ! ((c + D) mod MAX_CLIENTS) \<noteq> []"
  shows "(c + D) mod MAX_CLIENTS \<in> set (turnos k c ns)"
  using assms
proof (induction k arbitrary: c D)
  case 0
  then show ?case by simp
next
  case (Suc k)
  obtain e where e: "0 < e" "e \<le> MAX_CLIENTS" "proximo c ns = Some ((c + e) mod MAX_CLIENTS)"
    "\<And>x. 0 < x \<Longrightarrow> x < e \<Longrightarrow> ns ! ((c + x) mod MAX_CLIENTS) = []"
    "e < MAX_CLIENTS \<Longrightarrow> ns ! ((c + e) mod MAX_CLIENTS) \<noteq> []"
    using proximo_ok [OF Suc.prems(1), of ns] by blast
  have "e \<le> D" using e(4) [of D] Suc.prems(2,5) by (cases "D < e") auto
  show ?case
  proof (cases "e = D")
    case True
    then show ?thesis using e(3) by simp
  next
    case False
    let ?c = "(c + e) mod MAX_CLIENTS"
    have "(?c + (D - e)) mod MAX_CLIENTS = (c + e + (D - e)) mod MAX_CLIENTS"
      by (simp only: mod_add_left_eq)
    then have m: "(?c + (D - e)) mod MAX_CLIENTS = (c + D) mod MAX_CLIENTS" using \<open>e \<le> D\<close> by simp
    have "?c < MAX_CLIENTS" by (simp add: MAX_CLIENTS_def)
    then have "(?c + (D - e)) mod MAX_CLIENTS \<in> set (turnos k ?c ns)"
      using Suc.IH [of ?c "D - e"] Suc.prems \<open>e \<le> D\<close> False e(1) m by auto
    then show ?thesis using e(3) m by simp
  qed
qed

text \<open>With a client in the table the token always goes to one.\<close>

lemma proximo_ocupado:
  assumes "c < MAX_CLIENTS" and "m < MAX_CLIENTS" and "ns ! m \<noteq> []" and "proximo c ns = Some c'"
  shows "c' < MAX_CLIENTS \<and> ns ! c' \<noteq> []"
proof -
  obtain e where e: "0 < e" "e \<le> MAX_CLIENTS" "proximo c ns = Some ((c + e) mod MAX_CLIENTS)"
    "\<And>x. 0 < x \<Longrightarrow> x < e \<Longrightarrow> ns ! ((c + x) mod MAX_CLIENTS) = []"
    "e < MAX_CLIENTS \<Longrightarrow> ns ! ((c + e) mod MAX_CLIENTS) \<noteq> []"
    using proximo_ok [OF assms(1), of ns] by blast
  obtain D where D: "0 < D" "D \<le> MAX_CLIENTS" "m = (c + D) mod MAX_CLIENTS"
    using distancia [OF assms(1,2)] by blast
  have "e \<le> D" using e(4) [of D] D assms(3) by (cases "D < e") auto
  then have "e = MAX_CLIENTS \<longrightarrow> D = e" using D by simp
  moreover have "(c + e) mod MAX_CLIENTS < MAX_CLIENTS" by (simp add: MAX_CLIENTS_def)
  ultimately show ?thesis using e D assms(3,4) by (cases "e < MAX_CLIENTS") auto
qed

section \<open>A group with its clients and the token manager\<close>

text \<open>
  Entry \<open>p\<close> of the table is served by one client handler: not there, waiting in
  \<^verbatim>\<open>lock_token\<close> on queue \<open>base + p\<close>, or with the token at its client; it carries
  the client's name. The handlers join under distinct names, none that of a
  \<^verbatim>\<open>localbroker\<close> (the ring of brokers is switched off in the build). \<open>gmgr\<close> is the
  queue of the token manager, which also gets messages that are not about this group.
\<close>

datatype handler = H_fuera | H_espera string | H_token string

record sis_grupo =
  ggrupo :: grupo
  gcola :: "traspaso cola"
  gmgr :: "traspaso cola"
  gcur :: nat
  ghs :: "nat \<Rightarrow> handler"

text \<open>
  One turn of \<^verbatim>\<open>TokenManager::run\<close> on a message for the group; a message of another
  group or of type 3 leaves the group alone.
\<close>

definition manager_turno :: "nat \<Rightarrow> string \<Rightarrow> traspaso \<Rightarrow> sis_grupo \<Rightarrow> sis_grupo option" where
  "manager_turno base rec m s =
     (if tipo m = 3 \<or> recurso m \<noteq> rec then Some s
      else case replicar_brokers base rec (ggrupo s) (gcola s) of
             None \<Rightarrow> None
           | Some q1 \<Rightarrow>
               (case pasar_token base rec (gcur s) (ggrupo s) q1 of
                  None \<Rightarrow> None
                | Some (c, g, q) \<Rightarrow> Some (s\<lparr>ggrupo := g, gcola := q, gcur := c\<rparr>)))"

definition fin_join :: "nat \<Rightarrow> string \<Rightarrow> grupo \<Rightarrow> sis_grupo \<Rightarrow> sis_grupo" where
  "fin_join p n g s = s\<lparr>ggrupo := g, ghs := (ghs s)(p := H_espera n)\<rparr>"

definition fin_leave :: "string \<Rightarrow> nat \<Rightarrow> grupo \<Rightarrow> sis_grupo \<Rightarrow> sis_grupo" where
  "fin_leave rec p g s = s\<lparr>ggrupo := g, gmgr := release_token rec (gmgr s), ghs := (ghs s)(p := H_fuera)\<rparr>"

inductive paso_grupo :: "nat \<Rightarrow> string \<Rightarrow> sis_grupo \<Rightarrow> sis_grupo \<Rightarrow> bool" for base :: nat and rec :: string where
  g_join: "n \<noteq> [] \<Longrightarrow> \<not> es_localbroker n \<Longrightarrow> \<not> registrado n (ggrupo s) \<Longrightarrow>
     join n (ggrupo s) = Listo (g, Inr (Some p)) \<Longrightarrow> paso_grupo base rec s (fin_join p n g s)"
| g_lock: "ghs s p = H_espera n \<Longrightarrow> lock_token (base + p) (gcola s) = Listo (t, q) \<Longrightarrow>
     paso_grupo base rec s (s\<lparr>gcola := q, ghs := (ghs s)(p := H_token n)\<rparr>)"
| g_release: "ghs s p = H_token n \<Longrightarrow>
     paso_grupo base rec s (s\<lparr>gmgr := release_token rec (gmgr s), ghs := (ghs s)(p := H_espera n)\<rparr>)"
| g_leave: "ghs s p = H_token n \<Longrightarrow> leave n (ggrupo s) = Listo (g, ()) \<Longrightarrow>
     paso_grupo base rec s (fin_leave rec p g s)"
| g_manager: "pull 0 (gmgr s) = Listo ((t, m), q) \<Longrightarrow>
     manager_turno base rec m (s\<lparr>gmgr := q\<rparr>) = Some s' \<Longrightarrow> paso_grupo base rec s s'"
| g_ajeno: "tipo m = 3 \<or> recurso m \<noteq> rec \<Longrightarrow> push 1 m (gmgr s) = Listo q \<Longrightarrow>
     paso_grupo base rec s (s\<lparr>gmgr := q\<rparr>)"

inductive_cases paso_grupoE: "paso_grupo base rec s t"

text \<open>The group just created on a zeroed block: its token goes to the token manager (\<^verbatim>\<open>crear_grupo\<close>).\<close>

definition ini_grupo :: "string \<Rightarrow> nat \<Rightarrow> byte list \<Rightarrow> sis_grupo" where
  "ini_grupo rec tamanio mem =
     \<lparr>ggrupo = iniciar_grupo tamanio (replicate MAX_CLIENTS []) mem, gcola = [],
      gmgr = release_token rec [], gcur = 0, ghs = (\<lambda>_. H_fuera)\<rparr>"

definition es_token :: "string \<Rightarrow> traspaso \<Rightarrow> bool" where
  "es_token rec m \<longleftrightarrow> \<not> (tipo m = 3 \<or> recurso m \<noteq> rec)"

definition tiene :: "handler \<Rightarrow> nat" where
  "tiene h = (case h of H_token n \<Rightarrow> 1 | _ \<Rightarrow> 0)"

definition cantidad_tokens :: "string \<Rightarrow> sis_grupo \<Rightarrow> nat" where
  "cantidad_tokens rec s =
     length (gcola s) + length (filter (\<lambda>p. es_token rec (snd p)) (gmgr s)) + (\<Sum>p < MAX_CLIENTS. tiene (ghs s p))"

definition nombre_de :: "handler \<Rightarrow> string" where
  "nombre_de h = (case h of H_fuera \<Rightarrow> [] | H_espera n \<Rightarrow> n | H_token n \<Rightarrow> n)"

definition tabla_ok :: "grupo \<Rightarrow> bool" where
  "tabla_ok g \<longleftrightarrow> clientes_ok g \<and> mutex_grupo g = 1 \<and> (\<forall>n \<in> set (client_names g). \<not> es_localbroker n)"

definition handlers_ok :: "string list \<Rightarrow> (nat \<Rightarrow> handler) \<Rightarrow> bool" where
  "handlers_ok ns hs \<longleftrightarrow>
     (\<forall>p < MAX_CLIENTS. ns ! p = take MAX_NOMBRE_RECURSO (nombre_de (hs p)) \<and> (hs p = H_fuera \<or> nombre_de (hs p) \<noteq> [])) \<and>
     (\<forall>p \<ge> MAX_CLIENTS. hs p = H_fuera)"

text \<open>Where a message in the queue of the group can be: addressed to a client, or to entry 0 of an empty group.\<close>

definition destino_ok :: "nat \<Rightarrow> int \<Rightarrow> (nat \<Rightarrow> handler) \<Rightarrow> int \<Rightarrow> bool" where
  "destino_ok base cant hs t \<longleftrightarrow>
     (\<exists>p < MAX_CLIENTS. t = int (base + p) \<and> (hs p \<noteq> H_fuera \<or> p = 0 \<and> cant = 0))"

definition cola_ok :: "nat \<Rightarrow> int \<Rightarrow> (nat \<Rightarrow> handler) \<Rightarrow> traspaso cola \<Rightarrow> bool" where
  "cola_ok base cant hs q \<longleftrightarrow> (\<forall>m \<in> set q. destino_ok base cant hs (fst m) \<and> tipo (snd m) = 1)"

definition inv_grupo :: "nat \<Rightarrow> string \<Rightarrow> sis_grupo \<Rightarrow> bool" where
  "inv_grupo base rec s \<longleftrightarrow>
     0 < base \<and> gcur s < MAX_CLIENTS \<and> tabla_ok (ggrupo s) \<and>
     handlers_ok (client_names (ggrupo s)) (ghs s) \<and>
     cola_ok base (cant_clientes (ggrupo s)) (ghs s) (gcola s) \<and> cantidad_tokens rec s = 1"

lemma suma_quitar: "q < n \<Longrightarrow> (\<Sum>p < n. f p) = f q + (\<Sum>p \<in> {..<n} - {q}. f p)" for q n :: nat and f :: "nat \<Rightarrow> nat"
  by (simp add: sum.remove)

lemma suma_tiene:
  fixes q n :: nat
  assumes "q < n"
  shows "(\<Sum>p < n. tiene ((f(q := h)) p)) + tiene (f q) = (\<Sum>p < n. tiene (f p)) + tiene h"
proof -
  have "(\<Sum>p \<in> {..<n} - {q}. tiene ((f(q := h)) p)) = (\<Sum>p \<in> {..<n} - {q}. tiene (f p))"
    by (rule sum.cong) auto
  then show ?thesis
    using suma_quitar [OF assms, of "\<lambda>p. tiene ((f(q := h)) p)"] suma_quitar [OF assms, of "\<lambda>p. tiene (f p)"] by simp
qed

lemma suma_tiene_uno: "q < n \<Longrightarrow> tiene (f q) \<le> (\<Sum>p < n. tiene (f p))" for q n :: nat
  using suma_quitar [of q n "\<lambda>p. tiene (f p)"] by simp

lemma cant_cero:
  assumes "clientes_ok g" and "cant_clientes g = 0" and "i < MAX_CLIENTS"
  shows "client_names g ! i = []"
proof -
  have "filter (\<lambda>n. n \<noteq> []) (client_names g) = []" and "i < length (client_names g)"
    using assms by (auto simp: clientes_ok_def)
  then show ?thesis using nth_mem by (fastforce simp: filter_empty_conv)
qed

lemma cant_positiva:
  assumes "clientes_ok g" and "cant_clientes g \<noteq> 0"
  obtains i where "i < MAX_CLIENTS" "client_names g ! i \<noteq> []"
proof -
  have "filter (\<lambda>n. n \<noteq> []) (client_names g) \<noteq> []" using assms by (auto simp: clientes_ok_def)
  then obtain n where "n \<in> set (client_names g)" "n \<noteq> []" by (auto simp: filter_empty_conv)
  then show thesis using that assms(1) by (auto simp: clientes_ok_def in_set_conv_nth)
qed

lemma handlers_ok_dentro: "handlers_ok ns hs \<Longrightarrow> hs p \<noteq> H_fuera \<Longrightarrow> p < MAX_CLIENTS"
  by (auto simp: handlers_ok_def not_le [symmetric])

lemma handlers_ok_ocupado: "handlers_ok ns hs \<Longrightarrow> p < MAX_CLIENTS \<Longrightarrow> (ns ! p = []) = (hs p = H_fuera)"
  by (auto simp: handlers_ok_def MAX_NOMBRE_RECURSO_def nombre_de_def)

lemma handlers_ok_upd:
  assumes "handlers_ok ns hs" and "p < MAX_CLIENTS" and "length ns = MAX_CLIENTS"
    and "h = H_fuera \<or> nombre_de h \<noteq> []"
  shows "handlers_ok (ns[p := take MAX_NOMBRE_RECURSO (nombre_de h)]) (hs(p := h))"
  using assms by (auto simp: handlers_ok_def nth_list_update)

lemma handlers_ok_mismo:
  assumes "handlers_ok ns hs" and "nombre_de h = nombre_de (hs p)" and "hs p \<noteq> H_fuera" and "h \<noteq> H_fuera"
  shows "handlers_ok ns (hs(p := h))"
  using assms by (auto simp: handlers_ok_def)

lemma cola_ok_mas:
  assumes "cola_ok base cant hs q" and "\<And>p. hs p \<noteq> H_fuera \<Longrightarrow> hs' p \<noteq> H_fuera"
    and "cant = 0 \<Longrightarrow> hs' 0 \<noteq> H_fuera \<or> cant' = 0"
  shows "cola_ok base cant' hs' q"
  using assms unfolding cola_ok_def destino_ok_def by blast

lemma sin_localbroker:
  assumes "tabla_ok g"
  shows "replicar_brokers base rec g q = Some q"
  using assms buscar_nombre_None [of es_localbroker 0 "client_names g"]
  by (auto simp: replicar_brokers_def tabla_ok_def split: option.splits)

lemma inv_grupo_ini: "0 < base \<Longrightarrow> inv_grupo base rec (ini_grupo rec tamanio mem)"
proof -
  assume "0 < base"
  let ?g = "ggrupo (ini_grupo rec tamanio mem)"
  have n: "client_names ?g = replicate MAX_CLIENTS []"
    by (simp add: ini_grupo_def iniciar_grupo_def MAX_CLIENTS_def list_update_same_conv)
  have "clientes_ok ?g" by (simp add: clientes_ok_def n) (simp add: ini_grupo_def iniciar_grupo_def)
  then have "tabla_ok ?g"
    by (simp add: tabla_ok_def n es_localbroker_def strncmp_igual_def) (simp add: ini_grupo_def iniciar_grupo_def)
  moreover have "handlers_ok (client_names ?g) (ghs (ini_grupo rec tamanio mem))"
    by (simp add: handlers_ok_def n) (simp add: ini_grupo_def nombre_de_def)
  ultimately show ?thesis
    using \<open>0 < base\<close>
    by (simp add: inv_grupo_def) (simp add: ini_grupo_def cola_ok_def cantidad_tokens_def release_token_def
        es_token_def tiene_def MAX_CLIENTS_def)
qed

lemma inv_grupo_join:
  assumes inv: "inv_grupo base rec s" and n: "n \<noteq> []" and lb: "\<not> es_localbroker n"
    and nuevo: "\<not> registrado n (ggrupo s)" and j: "join n (ggrupo s) = Listo (g, Inr (Some p))"
  shows "inv_grupo base rec (fin_join p n g s)"
proof -
  let ?g = "ggrupo s" and ?x = "take MAX_NOMBRE_RECURSO n"
  have ok: "clientes_ok ?g" and m: "mutex_grupo ?g \<noteq> 0"
    and h: "handlers_ok (client_names ?g) (ghs s)" and q: "cola_ok base (cant_clientes ?g) (ghs s) (gcola s)"
    using inv by (auto simp: inv_grupo_def tabla_ok_def)
  have lugar: "cant_clientes ?g \<noteq> int MAX_CLIENTS" using j join_lleno [OF m] by auto
  obtain i where i: "i < MAX_CLIENTS" "client_names ?g ! i = []" "\<forall>k < i. client_names ?g ! k \<noteq> []"
    "join n ?g = Listo (?g\<lparr>client_names := (client_names ?g)[i := ?x], cant_clientes := cant_clientes ?g + 1\<rparr>,
       Inr (Some i))"
    using join_nuevo [OF ok m n lugar nuevo] by blast
  have p: "p = i" and g: "g = ?g\<lparr>client_names := (client_names ?g)[i := ?x], cant_clientes := cant_clientes ?g + 1\<rparr>"
    using i(4) j by auto
  have fuera: "ghs s i = H_fuera" using handlers_ok_ocupado [OF h i(1)] i(2) by simp
  have primero: "i = 0" if "cant_clientes ?g = 0" using cant_cero [OF ok that] i(1,3) by (cases i) auto
  have lb': "\<not> es_localbroker ?x" using lb by (simp add: es_localbroker_def strncmp_igual_def MAX_NOMBRE_RECURSO_def)
  have t: "cantidad_tokens rec (fin_join p n g s) = 1"
    using inv suma_tiene [OF i(1), of "ghs s" "H_espera n"] fuera
    by (simp add: inv_grupo_def cantidad_tokens_def fin_join_def p tiene_def)
  have "clientes_ok g" unfolding g by (rule clientes_ok_alta [OF ok i(1,2) n nuevo])
  then have "tabla_ok g"
    using inv lb' set_update_subset_insert [of "client_names ?g" i] by (auto simp: inv_grupo_def tabla_ok_def g)
  moreover have "handlers_ok (client_names g) ((ghs s)(i := H_espera n))"
    using handlers_ok_upd [OF h i(1), of "H_espera n"] ok n by (simp add: g nombre_de_def clientes_ok_def)
  moreover have "cola_ok base (cant_clientes g) ((ghs s)(i := H_espera n)) (gcola s)"
    by (rule cola_ok_mas [OF q]) (use primero in auto)
  ultimately show ?thesis using inv t by (simp add: inv_grupo_def fin_join_def p)
qed

lemma inv_grupo_lock:
  assumes inv: "inv_grupo base rec s" and h: "ghs s p = H_espera n"
    and k: "lock_token (base + p) (gcola s) = Listo (t, q)"
  shows "inv_grupo base rec (s\<lparr>gcola := q, ghs := (ghs s)(p := H_token n)\<rparr>)"
proof -
  have hs: "handlers_ok (client_names (ggrupo s)) (ghs s)" and b: "0 < base"
    and co: "cola_ok base (cant_clientes (ggrupo s)) (ghs s) (gcola s)" using inv by (auto simp: inv_grupo_def)
  have p: "p < MAX_CLIENTS" using handlers_ok_dentro [OF hs, of p] h by simp
  obtain u m where r: "pull (int (base + p)) (gcola s) = Listo ((u, m), q)"
    using k by (auto simp: lock_token_def split: llamada.splits)
  have "0 < int (base + p)" using b by simp
  note a = pull_tipo_ok(4,5) [OF this r]
  have "cantidad_tokens rec (s\<lparr>gcola := q, ghs := (ghs s)(p := H_token n)\<rparr>) = 1"
    using inv suma_tiene [OF p, of "ghs s" "H_token n"] h a(1)
    by (simp add: inv_grupo_def cantidad_tokens_def tiene_def)
  moreover have "cola_ok base (cant_clientes (ggrupo s)) ((ghs s)(p := H_token n)) q"
    by (rule cola_ok_mas [of _ _ "ghs s"]) (use co a(2) in \<open>auto simp: cola_ok_def\<close>)
  moreover have "handlers_ok (client_names (ggrupo s)) ((ghs s)(p := H_token n))"
    by (rule handlers_ok_mismo [OF hs]) (use h in \<open>simp_all add: nombre_de_def\<close>)
  ultimately show ?thesis using inv by (simp add: inv_grupo_def)
qed

text \<open>While a handler has the token, no message of the group is anywhere.\<close>

lemma token_afuera:
  assumes inv: "inv_grupo base rec s" and h: "ghs s p = H_token n"
  shows "p < MAX_CLIENTS" and "gcola s = []" and "filter (\<lambda>m. es_token rec (snd m)) (gmgr s) = []"
    and "(\<Sum>x < MAX_CLIENTS. tiene (ghs s x)) = 1"
proof -
  have hs: "handlers_ok (client_names (ggrupo s)) (ghs s)" and t: "cantidad_tokens rec s = 1"
    using inv by (auto simp: inv_grupo_def)
  show p: "p < MAX_CLIENTS" using handlers_ok_dentro [OF hs, of p] h by simp
  have "1 \<le> (\<Sum>x < MAX_CLIENTS. tiene (ghs s x))"
    using suma_tiene_uno [OF p, of "ghs s"] h by (simp add: tiene_def)
  with t have "length (gcola s) = 0 \<and> length (filter (\<lambda>m. es_token rec (snd m)) (gmgr s)) = 0 \<and>
      (\<Sum>x < MAX_CLIENTS. tiene (ghs s x)) = 1"
    unfolding cantidad_tokens_def by linarith
  then show "gcola s = []" and "filter (\<lambda>m. es_token rec (snd m)) (gmgr s) = []"
    and "(\<Sum>x < MAX_CLIENTS. tiene (ghs s x)) = 1" by simp_all
qed

lemma release_es_token: "es_token rec \<lparr>tipo = 1, recurso = rec\<rparr>"
  by (simp add: es_token_def)

lemma inv_grupo_release:
  assumes inv: "inv_grupo base rec s" and h: "ghs s p = H_token n"
  shows "inv_grupo base rec (s\<lparr>gmgr := release_token rec (gmgr s), ghs := (ghs s)(p := H_espera n)\<rparr>)"
proof -
  note a = token_afuera [OF inv h]
  have hs: "handlers_ok (client_names (ggrupo s)) (ghs s)" using inv by (simp add: inv_grupo_def)
  have "cantidad_tokens rec (s\<lparr>gmgr := release_token rec (gmgr s), ghs := (ghs s)(p := H_espera n)\<rparr>) = 1"
    using suma_tiene [OF a(1), of "ghs s" "H_espera n"] h a
    by (simp add: cantidad_tokens_def tiene_def release_token_def release_es_token)
  moreover have "handlers_ok (client_names (ggrupo s)) ((ghs s)(p := H_espera n))"
    by (rule handlers_ok_mismo [OF hs]) (use h in \<open>simp_all add: nombre_de_def\<close>)
  ultimately show ?thesis using inv a(2) by (simp add: inv_grupo_def cola_ok_def)
qed

lemma inv_grupo_leave:
  assumes inv: "inv_grupo base rec s" and h: "ghs s p = H_token n" and l: "leave n (ggrupo s) = Listo (g, ())"
  shows "inv_grupo base rec (fin_leave rec p g s)"
proof -
  let ?g = "ggrupo s"
  note a = token_afuera [OF inv h]
  have ok: "clientes_ok ?g" and m: "mutex_grupo ?g \<noteq> 0" and hs: "handlers_ok (client_names ?g) (ghs s)"
    using inv by (auto simp: inv_grupo_def tabla_ok_def)
  have n: "client_names ?g ! p = take MAX_NOMBRE_RECURSO n" "n \<noteq> []"
    using hs a(1) h by (auto simp: handlers_ok_def nombre_de_def)
  have g: "g = ?g\<lparr>client_names := (client_names ?g)[p := []], cant_clientes := cant_clientes ?g - 1\<rparr>"
    using leave_ok [OF ok m a(1) n] l by simp
  have oc: "client_names ?g ! p \<noteq> []" using n by (simp add: MAX_NOMBRE_RECURSO_def)
  have "clientes_ok g" unfolding g by (rule clientes_ok_baja [OF ok a(1) oc])
  then have "tabla_ok g"
    using inv set_update_subset_insert [of "client_names ?g" p "[]"]
    by (auto simp: inv_grupo_def tabla_ok_def g es_localbroker_def strncmp_igual_def)
  moreover have "handlers_ok (client_names g) ((ghs s)(p := H_fuera))"
    using handlers_ok_upd [OF hs a(1), of H_fuera] ok by (simp add: g nombre_de_def clientes_ok_def)
  moreover have "cantidad_tokens rec (fin_leave rec p g s) = 1"
    using suma_tiene [OF a(1), of "ghs s" H_fuera] h a
    by (simp add: cantidad_tokens_def tiene_def release_token_def release_es_token fin_leave_def)
  ultimately show ?thesis using inv a(2) by (simp add: inv_grupo_def fin_leave_def cola_ok_def)
qed

lemma pasar_token_ok:
  assumes ok: "clientes_ok g" and c: "c < MAX_CLIENTS" and p: "pasar_token base rec c g q = Some (c', g', q')"
  shows "c' < MAX_CLIENTS" and "client_names g' = client_names g" and "cant_clientes g' = cant_clientes g"
    and "mutex_grupo g' = mutex_grupo g" and "memoria_compartida g' = memoria_compartida g"
    and "q' = q @ [(int (base + c'), \<lparr>tipo = 1, recurso = rec\<rparr>)]"
    and "client_names g ! c' \<noteq> [] \<or> c' = 0 \<and> cant_clientes g = 0"
proof -
  have x: "(if cant_clientes g = 0 then Some 0 else proximo c (client_names g)) = Some c'"
    using p by (auto simp: pasar_token_def split: option.splits if_splits)
  have d: "client_names g ! c' \<noteq> [] \<and> c' < MAX_CLIENTS \<or> c' = 0 \<and> cant_clientes g = 0"
  proof (cases "cant_clientes g = 0")
    case True
    then show ?thesis using x by simp
  next
    case False
    then obtain m where m: "m < MAX_CLIENTS" "client_names g ! m \<noteq> []" using cant_positiva [OF ok] by blast
    have "proximo c (client_names g) = Some c'" using x False by simp
    from proximo_ocupado [OF c m this] show ?thesis by simp
  qed
  then show "c' < MAX_CLIENTS" and "client_names g ! c' \<noteq> [] \<or> c' = 0 \<and> cant_clientes g = 0"
    by (auto simp: MAX_CLIENTS_def)
  show "client_names g' = client_names g" and "cant_clientes g' = cant_clientes g"
    and "mutex_grupo g' = mutex_grupo g" and "memoria_compartida g' = memoria_compartida g"
    and "q' = q @ [(int (base + c'), \<lparr>tipo = 1, recurso = rec\<rparr>)]"
    using p x by (auto simp: pasar_token_def split: if_splits)
qed

lemma inv_grupo_manager:
  assumes inv: "inv_grupo base rec s" and r: "pull 0 (gmgr s) = Listo ((t, m), q)"
    and k: "manager_turno base rec m (s\<lparr>gmgr := q\<rparr>) = Some s'"
  shows "inv_grupo base rec s'"
proof (cases "es_token rec m")
  case False
  then show ?thesis
    using inv r k by (auto simp: manager_turno_def es_token_def inv_grupo_def cantidad_tokens_def paso_simps)
next
  case True
  let ?g = "ggrupo s"
  have tab: "tabla_ok ?g" and ok: "clientes_ok ?g" and c: "gcur s < MAX_CLIENTS"
    and hs: "handlers_ok (client_names ?g) (ghs s)" and tok: "cantidad_tokens rec s = 1"
    using inv by (auto simp: inv_grupo_def tabla_ok_def)
  have vacia: "gcola s = []" and resto: "filter (\<lambda>m. es_token rec (snd m)) q = []"
    and nadie: "(\<Sum>x < MAX_CLIENTS. tiene (ghs s x)) = 0"
    using tok r True by (auto simp: cantidad_tokens_def paso_simps)
  obtain c' g' q' where x: "pasar_token base rec (gcur s) ?g [] = Some (c', g', q')"
    and s': "s' = s\<lparr>gmgr := q, ggrupo := g', gcola := q', gcur := c'\<rparr>"
    using k True vacia by (auto simp: manager_turno_def es_token_def sin_localbroker [OF tab] split: option.splits)
  note a = pasar_token_ok [OF ok c x]
  have "destino_ok base (cant_clientes ?g) (ghs s) (int (base + c'))"
    using a(1,7) handlers_ok_ocupado [OF hs a(1)] unfolding destino_ok_def by blast
  then show ?thesis
    using inv a nadie resto
    by (auto simp: s' inv_grupo_def tabla_ok_def clientes_ok_def cola_ok_def cantidad_tokens_def)
qed

lemma inv_grupo_ajeno:
  assumes "inv_grupo base rec s" and "\<not> es_token rec m"
  shows "inv_grupo base rec (s\<lparr>gmgr := gmgr s @ [(1, m)]\<rparr>)"
  using assms by (simp add: inv_grupo_def cantidad_tokens_def)

lemma inv_grupo_paso: "paso_grupo base rec s t \<Longrightarrow> inv_grupo base rec s \<Longrightarrow> inv_grupo base rec t"
proof (induction rule: paso_grupo.induct)
  case (g_join n s g p)
  show ?case by (rule inv_grupo_join [OF g_join(5,1,2,3,4)])
next
  case (g_lock s p n t q)
  show ?case by (rule inv_grupo_lock [OF g_lock(3,1,2)])
next
  case (g_release s p n)
  show ?case by (rule inv_grupo_release [OF g_release(2,1)])
next
  case (g_leave s p n g)
  show ?case by (rule inv_grupo_leave [OF g_leave(3,1,2)])
next
  case (g_manager s t m q s')
  show ?case by (rule inv_grupo_manager [OF g_manager(3,1,2)])
next
  case (g_ajeno m s q)
  then show ?case using inv_grupo_ajeno [of base rec s m] by (simp add: es_token_def push_def)
qed

section \<open>The reachable groups\<close>

text \<open>\<open>hacer_grupo\<close> runs a schedule: who does the next step.\<close>

datatype accion_grupo = A_join string | A_lock nat | A_release nat | A_leave nat | A_manager

fun hacer_grupo :: "nat \<Rightarrow> string \<Rightarrow> accion_grupo \<Rightarrow> sis_grupo \<Rightarrow> sis_grupo option" where
  "hacer_grupo base rec (A_join n) s =
     (if n = [] \<or> es_localbroker n \<or> registrado n (ggrupo s) then None
      else case join n (ggrupo s) of Listo (g, Inr (Some p)) \<Rightarrow> Some (fin_join p n g s) | _ \<Rightarrow> None)"
| "hacer_grupo base rec (A_lock p) s =
     (case ghs s p of
        H_espera n \<Rightarrow> (case lock_token (base + p) (gcola s) of
                         Listo (t, q) \<Rightarrow> Some (s\<lparr>gcola := q, ghs := (ghs s)(p := H_token n)\<rparr>) | _ \<Rightarrow> None)
      | _ \<Rightarrow> None)"
| "hacer_grupo base rec (A_release p) s =
     (case ghs s p of
        H_token n \<Rightarrow> Some (s\<lparr>gmgr := release_token rec (gmgr s), ghs := (ghs s)(p := H_espera n)\<rparr>)
      | _ \<Rightarrow> None)"
| "hacer_grupo base rec (A_leave p) s =
     (case ghs s p of
        H_token n \<Rightarrow> (case leave n (ggrupo s) of Listo (g, u) \<Rightarrow> Some (fin_leave rec p g s) | _ \<Rightarrow> None)
      | _ \<Rightarrow> None)"
| "hacer_grupo base rec A_manager s =
     (case pull 0 (gmgr s) of
        Listo ((t, m), q) \<Rightarrow> manager_turno base rec m (s\<lparr>gmgr := q\<rparr>) | _ \<Rightarrow> None)"

lemma hacer_grupo_paso: "hacer_grupo base rec a s = Some t \<Longrightarrow> paso_grupo base rec s t"
  by (cases a) (auto intro: paso_grupo.intros
      split: if_splits llamada.splits prod.splits sum.splits option.splits handler.splits)

definition es_ini_grupo :: "string \<Rightarrow> nat \<Rightarrow> sis_grupo \<Rightarrow> bool" where
  "es_ini_grupo rec base s \<longleftrightarrow> 0 < base \<and> (\<exists>tamanio mem. s = ini_grupo rec tamanio mem)"

definition grupo_alcanzable :: "nat \<Rightarrow> string \<Rightarrow> sis_grupo \<Rightarrow> bool" where
  "grupo_alcanzable base rec = alcanzable (es_ini_grupo rec base) (paso_grupo base rec)"

interpretation grupo_sis: sistema_ejecutable "es_ini_grupo rec base" "paso_grupo base rec" "inv_grupo base rec"
    "hacer_grupo base rec"
  for base :: nat and rec :: string
  by unfold_locales (auto simp: es_ini_grupo_def intro: inv_grupo_ini inv_grupo_paso hacer_grupo_paso)

lemma grupo_alcanzable_inv: "grupo_alcanzable base rec s \<Longrightarrow> inv_grupo base rec s"
  unfolding grupo_alcanzable_def by (rule grupo_sis.inv_alcanzable)

text \<open>Two clients join, the token goes round: the second one has it, the first one waits.\<close>

definition corrida_grupo :: "accion_grupo list" where
  "corrida_grupo = [A_join ''a'', A_join ''b'', A_manager, A_lock 1, A_release 1, A_manager, A_lock 0,
     A_release 0, A_manager, A_lock 1]"

definition estado_grupo :: sis_grupo where
  "estado_grupo = the (ejecutar (hacer_grupo 51 ''r'') corrida_grupo (ini_grupo ''r'' 4 [1, 2, 3, 4]))"

lemma corrida_grupo_ok:
  "ejecutar (hacer_grupo 51 ''r'') corrida_grupo (ini_grupo ''r'' 4 [1, 2, 3, 4]) = Some estado_grupo"
proof -
  have "ejecutar (hacer_grupo 51 ''r'') corrida_grupo (ini_grupo ''r'' 4 [1, 2, 3, 4]) \<noteq> None" by code_simp
  then show ?thesis by (auto simp: estado_grupo_def)
qed

lemma estado_grupo_alcanzable: "grupo_alcanzable 51 ''r'' estado_grupo"
  unfolding grupo_alcanzable_def
  by (rule grupo_sis.ejecutar_inicio [OF _ corrida_grupo_ok]) (auto simp: es_ini_grupo_def)

lemma estado_grupo_valores:
  "ghs estado_grupo 1 = H_token ''b''" "ghs estado_grupo 0 = H_espera ''a''"
  "client_names (ggrupo estado_grupo) = ''a'' # ''b'' # replicate 48 []" "cant_clientes (ggrupo estado_grupo) = 2"
  "gcur estado_grupo = 1" "gmgr estado_grupo = []" "gcola estado_grupo = []" "mutex_grupo (ggrupo estado_grupo) = 1"
  by code_simp+

lemma cola_de_un_token:
  assumes "cola_ok base cant hs q" and "q \<noteq> []" and "length q = 1" and "0 < base"
  obtains p t q' where "p < MAX_CLIENTS" "hs p \<noteq> H_fuera \<or> p = 0 \<and> cant = 0" "lock_token (base + p) q = Listo (t, q')"
proof -
  obtain u m where q: "q = [(u, m)]" using assms(3) by (cases q) (auto simp: length_Suc_conv)
  with assms(1) obtain p where p: "p < MAX_CLIENTS" "u = int (base + p)" "hs p \<noteq> H_fuera \<or> p = 0 \<and> cant = 0"
    by (auto simp: cola_ok_def destino_ok_def)
  have "lock_token (base + p) q = Listo (tipo m, [])"
    using assms(4) p(2) by (simp add: q lock_token_def pull_def)
  then show thesis using that p by blast
qed

lemma grupo_con_clientes:
  assumes "handlers_ok (client_names g) hs" and "clientes_ok g" and "hs p \<noteq> H_fuera"
  shows "cant_clientes g \<noteq> 0"
  using assms cant_cero [of g p] handlers_ok_dentro [OF assms(1,3)] handlers_ok_ocupado [OF assms(1), of p] by auto

lemma manager_no_falla:
  assumes inv: "inv_grupo base rec s"
  shows "\<exists>s'. manager_turno base rec m (s\<lparr>gmgr := q\<rparr>) = Some s'"
proof -
  have c: "gcur s < MAX_CLIENTS" and t: "tabla_ok (ggrupo s)" using inv by (auto simp: inv_grupo_def)
  obtain c' where "proximo (gcur s) (client_names (ggrupo s)) = Some c'" using proximo_ok [OF c] by metis
  then show ?thesis using t by (simp add: manager_turno_def pasar_token_def sin_localbroker [OF t] tabla_ok_def)
qed

section \<open>The table of groups\<close>

lemma lugar_grupo_Some:
  "lugar_grupo nombre i gs = Some k \<Longrightarrow> i \<le> k \<and> k - i < length gs \<and>
     (gs ! (k - i) = [] \<or> strncmp_igual nombre (gs ! (k - i)) MAX_NOMBRE_RECURSO) \<and>
     (\<forall>j < k - i. gs ! j \<noteq> [] \<and> \<not> strncmp_igual nombre (gs ! j) MAX_NOMBRE_RECURSO)"
proof (induction gs arbitrary: i)
  case Nil
  then show ?case by simp
next
  case (Cons g gs)
  show ?case
  proof (cases "g = [] \<or> strncmp_igual nombre g MAX_NOMBRE_RECURSO")
    case True
    then show ?thesis using Cons.prems by auto
  next
    case False
    then have "lugar_grupo nombre (i + 1) gs = Some k" using Cons.prems by simp
    note h = Cons.IH [OF this]
    then obtain d where d: "k - i = Suc d" "d = k - (i + 1)" by (metis Suc_diff_Suc Suc_eq_plus1 Suc_le_lessD)
    then show ?thesis using h False by (auto simp: nth_Cons split: nat.splits)
  qed
qed

lemma buscar_grupo_primero:
  assumes "k < length gs" and "gs ! k \<noteq> []" and "strncmp_igual nombre (gs ! k) MAX_NOMBRE_RECURSO"
    and "\<forall>j < k. gs ! j = [] \<or> \<not> strncmp_igual nombre (gs ! j) MAX_NOMBRE_RECURSO"
  shows "buscar_grupo nombre i gs = Some (i + k)"
  using assms
proof (induction gs arbitrary: i k)
  case Nil
  then show ?case by simp
next
  case (Cons g gs)
  show ?case
  proof (cases k)
    case 0
    then show ?thesis using Cons.prems by simp
  next
    case (Suc d)
    have "\<forall>j < d. gs ! j = [] \<or> \<not> strncmp_igual nombre (gs ! j) MAX_NOMBRE_RECURSO"
      using Cons.prems(4) Suc by fastforce
    then have "buscar_grupo nombre (i + 1) gs = Some (i + 1 + d)"
      using Cons.prems(1-3) Suc by (intro Cons.IH) simp_all
    moreover have "\<not> (g \<noteq> [] \<and> strncmp_igual nombre g MAX_NOMBRE_RECURSO)" using Cons.prems(4) Suc by fastforce
    ultimately show ?thesis using Suc by simp
  qed
qed

lemma buscar_grupo_otro:
  assumes "gs ! k = []" and "\<not> strncmp_igual m x MAX_NOMBRE_RECURSO"
  shows "buscar_grupo m i (gs[k := x]) = buscar_grupo m i gs"
  using assms by (induction gs arbitrary: i k) (auto split: nat.splits)

text \<open>A table with one group and two processes waiting for the next.\<close>

definition tabla_ejemplo :: tabla_grupos where
  "tabla_ejemplo =
     \<lparr>cantidad_clientes_esperando = 2, grupos_creados = ''a'' # [] # replicate 126 [],
      offsets = TAMANIO_TABLA_GRUPOS_CREADOS # (TAMANIO_TABLA_GRUPOS_CREADOS + 4 + TAMANIO_TABLA_CLIENTES) # replicate 126 0,
      sem_tabla = 1, sem_espera = 0\<rparr>"

section \<open>Properties\<close>

text \<open>
  C11. A client joins a group. A full group answers an error; a name already there answers an
  error and leaves the mutex one too high; a new name takes the first free entry and nothing
  else moves but the counter, and leaving afterwards restores the group as it was.
\<close>

theorem join_contrato:
  assumes ok: "clientes_ok g" and m: "mutex_grupo g = 1" and n: "nombre \<noteq> []"
  shows "(cant_clientes g = int MAX_CLIENTS \<longrightarrow> join nombre g = Listo (g, Inl GenericError)) \<and>
    (cant_clientes g \<noteq> int MAX_CLIENTS \<and> registrado nombre g \<longrightarrow>
       join nombre g = Listo (g\<lparr>mutex_grupo := 2\<rparr>, Inl GenericError)) \<and>
    (cant_clientes g \<noteq> int MAX_CLIENTS \<and> \<not> registrado nombre g \<longrightarrow>
       (\<exists>i g'. i < MAX_CLIENTS \<and> client_names g ! i = [] \<and> (\<forall>j < i. client_names g ! j \<noteq> []) \<and>
          join nombre g = Listo (g', Inr (Some i)) \<and> clientes_ok g' \<and>
          client_names g' ! i = take MAX_NOMBRE_RECURSO nombre \<and> cant_clientes g' = cant_clientes g + 1 \<and>
          leave nombre g' = Listo (g, ())))"
proof (intro conjI impI; (elim conjE)?)
  have m': "mutex_grupo g \<noteq> 0" using m by simp
  show "join nombre g = Listo (g, Inl GenericError)" if "cant_clientes g = int MAX_CLIENTS"
    by (rule join_lleno [OF m' that])
  show "join nombre g = Listo (g\<lparr>mutex_grupo := 2\<rparr>, Inl GenericError)"
    if "cant_clientes g \<noteq> int MAX_CLIENTS" "registrado nombre g"
    using join_repetido [OF m' that] m by (simp add: numeral_2_eq_2)
  show "\<exists>i g'. i < MAX_CLIENTS \<and> client_names g ! i = [] \<and> (\<forall>j < i. client_names g ! j \<noteq> []) \<and>
          join nombre g = Listo (g', Inr (Some i)) \<and> clientes_ok g' \<and>
          client_names g' ! i = take MAX_NOMBRE_RECURSO nombre \<and> cant_clientes g' = cant_clientes g + 1 \<and>
          leave nombre g' = Listo (g, ())"
    if lugar: "cant_clientes g \<noteq> int MAX_CLIENTS" and nuevo: "\<not> registrado nombre g"
  proof -
    let ?g = "\<lambda>i. g\<lparr>client_names := (client_names g)[i := take MAX_NOMBRE_RECURSO nombre],
       cant_clientes := cant_clientes g + 1\<rparr>"
    obtain i where i: "i < MAX_CLIENTS" "client_names g ! i = []" "\<forall>j < i. client_names g ! j \<noteq> []"
      "join nombre g = Listo (?g i, Inr (Some i))"
      using join_nuevo [OF ok m' n lugar nuevo] by blast
    have l: "i < length (client_names g)" using ok i(1) by (simp add: clientes_ok_def)
    have ok': "clientes_ok (?g i)" by (rule clientes_ok_alta [OF ok i(1,2) n nuevo])
    have "leave nombre (?g i) = Listo (g, ())"
      using leave_ok [OF ok' _ i(1) _ n] m l i(2) by (simp add: list_update_same_conv)
    then show ?thesis using i ok' l by (intro exI [of _ i] exI [of _ "?g i"]) simp
  qed
qed

theorem join_contrato_witness:
  "join ''b'' (ggrupo estado_grupo) = Listo ((ggrupo estado_grupo)\<lparr>mutex_grupo := 2\<rparr>, Inl GenericError)"
proof -
  have "clientes_ok (ggrupo estado_grupo)"
    using grupo_alcanzable_inv [OF estado_grupo_alcanzable] by (simp add: inv_grupo_def tabla_ok_def)
  moreover have "registrado ''b'' (ggrupo estado_grupo)" by code_simp
  ultimately show ?thesis
    using join_contrato [of "ggrupo estado_grupo" "''b''"] estado_grupo_valores by (simp add: MAX_CLIENTS_def)
qed

text \<open>
  C12. The token of a resource is unique: in every reachable state of a group exactly one
  token exists, be it a message to a client, a message in the queue of the token manager or a
  client that has it; so two clients never have it at once, and while one has it no message
  of the group is on its way. It is about groups whose clients give back the one message they got
  (memories and mutexes); a signal on a semaphore makes new tokens on purpose and has its own system.
\<close>

theorem token_unico:
  assumes "grupo_alcanzable base rec s"
  shows "cantidad_tokens rec s = 1 \<and>
    (\<forall>p q n m. ghs s p = H_token n \<and> ghs s q = H_token m \<longrightarrow> p = q) \<and>
    (\<forall>p n. ghs s p = H_token n \<longrightarrow> gcola s = [] \<and> (\<forall>x \<in> set (gmgr s). \<not> es_token rec (snd x)))"
proof (intro conjI allI impI; (elim conjE)?)
  note inv = grupo_alcanzable_inv [OF assms]
  show "cantidad_tokens rec s = 1" using inv by (simp add: inv_grupo_def)
  show "p = q" if h: "ghs s p = H_token n" "ghs s q = H_token m" for p q n m
  proof (rule ccontr)
    assume "p \<noteq> q"
    note a = token_afuera [OF inv h(1)] and b = token_afuera(1) [OF inv h(2)]
    have "(\<Sum>x \<in> {..<MAX_CLIENTS} - {p}. tiene (ghs s x)) = 0"
      using suma_quitar [OF a(1), of "\<lambda>x. tiene (ghs s x)"] a(4) h(1) by (simp add: tiene_def)
    then have "tiene (ghs s q) = 0" using b \<open>p \<noteq> q\<close> by auto
    then show False using h(2) by (simp add: tiene_def)
  qed
  show "gcola s = []" and "\<forall>x \<in> set (gmgr s). \<not> es_token rec (snd x)" if "ghs s p = H_token n" for p n
    using token_afuera(2,3) [OF inv that] by (auto simp: filter_empty_conv)
qed

theorem token_unico_witness: "cantidad_tokens ''r'' estado_grupo = 1 \<and> gcola estado_grupo = []"
  using token_unico [OF estado_grupo_alcanzable] estado_grupo_valores by blast

text \<open>
  C13. The token goes round: in every reachable group, among the next 50 hand-overs of the
  token manager every client of the table gets its turn, whatever entry had it last; and none
  goes to a free entry.
\<close>

theorem ronda_justa:
  assumes "grupo_alcanzable base rec s" and "m < MAX_CLIENTS" and "client_names (ggrupo s) ! m \<noteq> []"
  shows "m \<in> set (turnos MAX_CLIENTS (gcur s) (client_names (ggrupo s))) \<and>
    (\<forall>c' g q. pasar_token base rec (gcur s) (ggrupo s) (gcola s) = Some (c', g, q) \<longrightarrow>
       proximo (gcur s) (client_names (ggrupo s)) = Some c' \<and> client_names (ggrupo s) ! c' \<noteq> [])"
proof (intro conjI allI impI)
  let ?ns = "client_names (ggrupo s)"
  note inv = grupo_alcanzable_inv [OF assms(1)]
  have c: "gcur s < MAX_CLIENTS" and ok: "clientes_ok (ggrupo s)" using inv by (auto simp: inv_grupo_def tabla_ok_def)
  obtain D where D: "0 < D" "D \<le> MAX_CLIENTS" "m = (gcur s + D) mod MAX_CLIENTS" using distancia [OF c assms(2)] by blast
  show "m \<in> set (turnos MAX_CLIENTS (gcur s) ?ns)"
    using turnos_llega [OF c D(1,2,2), of ?ns] assms(3) D(3) by simp
  fix c' g q
  assume p: "pasar_token base rec (gcur s) (ggrupo s) (gcola s) = Some (c', g, q)"
  have n0: "cant_clientes (ggrupo s) \<noteq> 0" using cant_cero [OF ok _ assms(2)] assms(3) by auto
  show pr: "proximo (gcur s) ?ns = Some c'" using p n0 by (auto simp: pasar_token_def split: option.splits if_splits)
  show "?ns ! c' \<noteq> []" using proximo_ocupado [OF c assms(2,3) pr] by simp
qed

theorem ronda_justa_witness:
  "0 \<in> set (turnos MAX_CLIENTS 1 (''a'' # ''b'' # replicate 48 []))"
  using ronda_justa [OF estado_grupo_alcanzable, of 0] estado_grupo_valores by (simp add: MAX_CLIENTS_def)

text \<open>
  C14. A group with clients is never stuck: in every reachable state the token manager's turn
  on any message ends; and when a client is waiting, either some client has the token, or it
  is in the queue of the token manager, or the \<^verbatim>\<open>lock_token\<close> of a waiting client returns.
\<close>

theorem token_no_se_traba:
  assumes "grupo_alcanzable base rec s"
  shows "(\<forall>m q. \<exists>s'. manager_turno base rec m (s\<lparr>gmgr := q\<rparr>) = Some s') \<and>
    (\<forall>p n. ghs s p = H_espera n \<longrightarrow>
       (\<exists>p' n'. ghs s p' = H_token n') \<or> (\<exists>x \<in> set (gmgr s). es_token rec (snd x)) \<or>
       (\<exists>p' n' t q. ghs s p' = H_espera n' \<and> lock_token (base + p') (gcola s) = Listo (t, q)))"
proof (intro conjI allI impI)
  note inv = grupo_alcanzable_inv [OF assms]
  show "\<exists>s'. manager_turno base rec m (s\<lparr>gmgr := q\<rparr>) = Some s'" for m q by (rule manager_no_falla [OF inv])
  fix p n
  assume h: "ghs s p = H_espera n"
  show "(\<exists>p' n'. ghs s p' = H_token n') \<or> (\<exists>x \<in> set (gmgr s). es_token rec (snd x)) \<or>
       (\<exists>p' n' t q. ghs s p' = H_espera n' \<and> lock_token (base + p') (gcola s) = Listo (t, q))"
  proof (rule ccontr)
    assume no: "\<not> ?thesis"
    then have "\<forall>x. tiene (ghs s x) = 0" by (auto simp: tiene_def split: handler.splits)
    moreover have "filter (\<lambda>x. es_token rec (snd x)) (gmgr s) = []" using no by (auto simp: filter_empty_conv)
    ultimately have l: "length (gcola s) = 1" using inv by (simp add: inv_grupo_def cantidad_tokens_def)
    then have ne: "gcola s \<noteq> []" by auto
    have co: "cola_ok base (cant_clientes (ggrupo s)) (ghs s) (gcola s)" and b: "0 < base"
      and hs: "handlers_ok (client_names (ggrupo s)) (ghs s)" and ok: "clientes_ok (ggrupo s)"
      using inv by (auto simp: inv_grupo_def tabla_ok_def)
    have "cant_clientes (ggrupo s) \<noteq> 0" by (rule grupo_con_clientes [OF hs ok, of p]) (simp add: h)
    then obtain p' t q where "ghs s p' \<noteq> H_fuera" "lock_token (base + p') (gcola s) = Listo (t, q)"
      using cola_de_un_token [OF co ne l b] by metis
    with no show False by (cases "ghs s p'") blast+
  qed
qed

theorem token_no_se_traba_witness:
  "ghs estado_grupo 0 = H_espera ''a'' \<and>
   (\<exists>s'. manager_turno 51 ''r'' \<lparr>tipo = 1, recurso = ''r''\<rparr> (estado_grupo\<lparr>gmgr := []\<rparr>) = Some s')"
  using token_no_se_traba [OF estado_grupo_alcanzable] estado_grupo_valores(2) by blast

text \<open>
  Creating a group. Its name takes the first free position and is found there from then
  on, without moving any other group; its block starts after the one before; and every process
  that waits for a group to exist gets its wake-up. The last of the 128 positions writes
  outside the table of offsets.
\<close>

theorem crear_grupo_contrato:
  assumes l: "length (grupos_creados t) = MAX_GRUPOS" "length (offsets t) = MAX_GRUPOS" and n: "nombre \<noteq> []"
    and pos: "lugar_grupo nombre 0 (grupos_creados t) = Some pos"
  shows "(pos + 1 = MAX_GRUPOS \<longrightarrow> crear_grupo nombre tam t = Fallo Fuera_de_rango) \<and>
    (pos + 1 < MAX_GRUPOS \<longrightarrow> (\<exists>t'. crear_grupo nombre tam t = Listo (t', pos) \<and>
       buscar_o_esperar nombre t' = (t', Some pos) \<and>
       (\<forall>m. \<not> strncmp_igual m nombre MAX_NOMBRE_RECURSO \<longrightarrow>
          buscar_grupo m 0 (grupos_creados t') = buscar_grupo m 0 (grupos_creados t)) \<and>
       offsets t' ! (pos + 1) = a_size_t (int (offsets t ! pos + tam + TAMANIO_TABLA_CLIENTES)) \<and>
       sem_espera t' = sem_espera t + nat (cantidad_clientes_esperando t) \<and>
       cantidad_clientes_esperando t' = 0))"
proof (intro conjI impI)
  note lg = lugar_grupo_Some [OF pos, simplified]
  show "crear_grupo nombre tam t = Fallo Fuera_de_rango" if "pos + 1 = MAX_GRUPOS"
    using pos l that by (simp add: crear_grupo_def Let_def)
  assume p: "pos + 1 < MAX_GRUPOS"
  let ?gs = "if grupos_creados t ! pos = [] then (grupos_creados t)[pos := take MAX_NOMBRE_RECURSO nombre]
    else grupos_creados t"
  have "buscar_grupo nombre 0 ?gs = Some (0 + pos)"
    by (rule buscar_grupo_primero) (use lg n in \<open>auto simp: strncmp_igual_def MAX_NOMBRE_RECURSO_def\<close>)
  moreover have "buscar_grupo m 0 ?gs = buscar_grupo m 0 (grupos_creados t)"
    if "\<not> strncmp_igual m nombre MAX_NOMBRE_RECURSO" for m
    using that by (auto intro!: buscar_grupo_otro simp: strncmp_igual_def)
  ultimately show "\<exists>t'. crear_grupo nombre tam t = Listo (t', pos) \<and>
       buscar_o_esperar nombre t' = (t', Some pos) \<and>
       (\<forall>m. \<not> strncmp_igual m nombre MAX_NOMBRE_RECURSO \<longrightarrow>
          buscar_grupo m 0 (grupos_creados t') = buscar_grupo m 0 (grupos_creados t)) \<and>
       offsets t' ! (pos + 1) = a_size_t (int (offsets t ! pos + tam + TAMANIO_TABLA_CLIENTES)) \<and>
       sem_espera t' = sem_espera t + nat (cantidad_clientes_esperando t) \<and> cantidad_clientes_esperando t' = 0"
    using pos l p by (simp add: crear_grupo_def Let_def buscar_o_esperar_def)
qed

theorem crear_grupo_contrato_witness:
  "\<exists>t'. crear_grupo ''b'' 8 tabla_ejemplo = Listo (t', 1) \<and> buscar_o_esperar ''b'' t' = (t', Some 1) \<and>
     sem_espera t' = 2"
proof -
  have "lugar_grupo ''b'' 0 (grupos_creados tabla_ejemplo) = Some 1" and "length (grupos_creados tabla_ejemplo) = MAX_GRUPOS"
    and "length (offsets tabla_ejemplo) = MAX_GRUPOS" and "sem_espera tabla_ejemplo = 0"
    and "cantidad_clientes_esperando tabla_ejemplo = 2"
    by (simp_all add: tabla_ejemplo_def strncmp_igual_def MAX_NOMBRE_RECURSO_def MAX_GRUPOS_def)
  then show ?thesis using crear_grupo_contrato [of tabla_ejemplo "''b''" 1 8] by (auto simp: MAX_GRUPOS_def)
qed

end
