(* ===== verification/Transferencia.thy ===== *)
theory Transferencia
  imports Grupo
begin

text \<open>
  The token of a shared memory travels with the memory: \<^verbatim>\<open>ClientHandler::send_token\<close>
  and \<^verbatim>\<open>recv_token\<close> on the broker's side (\<^verbatim>\<open>local_broker/client_handler.cpp\<close>),
  \<^verbatim>\<open>LocalBrokerComm::wait_token\<close> and \<^verbatim>\<open>send_token\<close> on the client's
  (\<^verbatim>\<open>clientes/local_broker_comm.cpp\<close>). The memory is cut in blocks of
  \<^verbatim>\<open>DATA_SIZE\<close> bytes, each inside a message of fixed size (\<^verbatim>\<open>network/mensajes_de_red.h\<close>);
  a stream socket hands the bytes over in pieces of any size. The model works on bytes.
\<close>

section \<open>Messages\<close>

definition DATA_SIZE :: nat where
  "DATA_SIZE = 256"

text \<open>\<^verbatim>\<open>mensajes_local_broker_token_t\<close>: two enumerations of 4 bytes, the resource, the data.\<close>

definition POS_RECURSO :: nat where
  "POS_RECURSO = 8"

definition POS_DATOS :: nat where
  "POS_DATOS = POS_RECURSO + MAX_NOMBRE_RECURSO"

definition TAMANIO_MENSAJE :: nat where
  "TAMANIO_MENSAJE = POS_DATOS + DATA_SIZE"

datatype peticion = REGISTER | JOIN | JOIN_FORK | LEAVE | TOKEN_FREE | END | LEAVED | TOKEN_LEAVE

fun codigo :: "peticion \<Rightarrow> byte" where
  "codigo REGISTER = 0"
| "codigo JOIN = 1"
| "codigo JOIN_FORK = 2"
| "codigo LEAVE = 3"
| "codigo TOKEN_FREE = 4"
| "codigo END = 5"
| "codigo LEAVED = 6"
| "codigo TOKEN_LEAVE = 7"

text \<open>\<^verbatim>\<open>memcpy\<close> of \<open>bs\<close> at an offset; an enumeration is its code in four bytes, lowest first.\<close>

definition escribir :: "nat \<Rightarrow> byte list \<Rightarrow> byte list \<Rightarrow> byte list" where
  "escribir pos bs buf = take pos buf @ bs @ drop (pos + length bs) buf"

definition entero_4 :: "byte \<Rightarrow> byte list" where
  "entero_4 c = [c, 0, 0, 0]"

definition poner_peticion :: "peticion \<Rightarrow> byte list \<Rightarrow> byte list" where
  "poner_peticion p buf = escribir 0 (entero_4 (codigo p)) buf"

definition es_peticion :: "peticion \<Rightarrow> byte list \<Rightarrow> bool" where
  "es_peticion p buf \<longleftrightarrow> take 4 buf = entero_4 (codigo p)"

definition campo_recurso :: "string \<Rightarrow> byte list" where
  "campo_recurso nombre = take MAX_NOMBRE_RECURSO (map of_char nombre @ replicate MAX_NOMBRE_RECURSO 0)"

definition datos :: "byte list \<Rightarrow> byte list" where
  "datos buf = drop POS_DATOS buf"

section \<open>Sending\<close>

text \<open>\<^verbatim>\<open>join_group\<close>: how many messages carry a memory of that size (one, when it is empty).\<close>

definition cantidad_de_bloques :: "nat \<Rightarrow> nat" where
  "cantidad_de_bloques tamanio =
     tamanio div DATA_SIZE + (if tamanio mod DATA_SIZE \<noteq> 0 \<or> tamanio = 0 \<or> tamanio < DATA_SIZE then 1 else 0)"

definition largo_bloque :: "nat \<Rightarrow> nat \<Rightarrow> nat" where
  "largo_bloque tamanio i = min (tamanio - i * DATA_SIZE) DATA_SIZE"

definition bloque :: "nat \<Rightarrow> nat \<Rightarrow> byte list \<Rightarrow> byte list" where
  "bloque tamanio i memoria = take (largo_bloque tamanio i) (drop (i * DATA_SIZE) memoria)"

text \<open>
  One message of each side. The buffer is the member \<^verbatim>\<open>mensaje\<close>, which keeps what was
  in it: the broker never writes its \<^verbatim>\<open>peticion\<close>, the client never its \<^verbatim>\<open>recurso\<close>.
\<close>

definition mensaje_broker :: "string \<Rightarrow> nat \<Rightarrow> byte list \<Rightarrow> nat \<Rightarrow> byte list \<Rightarrow> byte list" where
  "mensaje_broker nombre tamanio memoria i buf =
     (let b = escribir POS_RECURSO (campo_recurso nombre) buf
      in if tamanio \<noteq> 0 then escribir POS_DATOS (bloque tamanio i memoria) b else b)"

definition mensaje_cliente :: "bool \<Rightarrow> nat \<Rightarrow> byte list \<Rightarrow> nat \<Rightarrow> byte list \<Rightarrow> byte list" where
  "mensaje_cliente salir tamanio memoria i buf =
     (let b = (if tamanio \<noteq> 0 then escribir POS_DATOS (bloque tamanio i memoria) buf else buf)
      in poner_peticion (if salir then TOKEN_LEAVE else TOKEN_FREE) b)"

text \<open>The messages \<open>i\<close>, \<open>i + 1\<close>, \dots of a transfer and the buffer at the end.\<close>

fun enviar_bloques :: "(nat \<Rightarrow> byte list \<Rightarrow> byte list) \<Rightarrow> nat \<Rightarrow> nat \<Rightarrow> byte list \<Rightarrow> byte list list \<times> byte list" where
  "enviar_bloques armar i 0 buf = ([], buf)"
| "enviar_bloques armar i (Suc n) buf =
     (let b = armar i buf; (ms, b') = enviar_bloques armar (i + 1) n b in (b # ms, b'))"

definition send_token_broker :: "string \<Rightarrow> bool \<Rightarrow> nat \<Rightarrow> byte list \<Rightarrow> byte list \<Rightarrow> byte list list \<times> byte list" where
  "send_token_broker nombre saliendo tamanio memoria buf =
     (if saliendo then ([], buf)
      else enviar_bloques (mensaje_broker nombre tamanio memoria) 0 (cantidad_de_bloques tamanio) buf)"

definition send_token_cliente :: "bool \<Rightarrow> nat \<Rightarrow> byte list \<Rightarrow> byte list \<Rightarrow> byte list list \<times> byte list" where
  "send_token_cliente salir tamanio memoria buf =
     enviar_bloques (mensaje_cliente salir tamanio memoria) 0 (cantidad_de_bloques tamanio) buf"

section \<open>Receiving\<close>

text \<open>
  \<^verbatim>\<open>receivesome\<close> on the bytes \<open>red\<close> that are there: at most what was asked, at
  least one, as many as the kernel hands over (\<open>cortes\<close> lists its choices). With none
  there it waits, or answers 0 when the peer has closed.
\<close>

definition leidos :: "nat \<Rightarrow> byte list \<Rightarrow> nat list \<Rightarrow> nat" where
  "leidos pedido red cortes =
     min (min pedido (length red)) (case cortes of [] \<Rightarrow> pedido | c # cs \<Rightarrow> Suc c)"

datatype recepcion = Completo "byte list" "byte list" "nat list" | Dejado "byte list" | Cerrado "byte list" | Falta

text \<open>
  The inner loop: pieces go into the buffer until the message is complete. \<open>deja\<close> is the
  test after each piece that gives up (the broker's, for \<^verbatim>\<open>LEAVE\<close>).
\<close>

function recibir_mensaje :: "(byte list \<Rightarrow> bool) \<Rightarrow> bool \<Rightarrow> nat \<Rightarrow> byte list \<Rightarrow> byte list \<Rightarrow> nat list \<Rightarrow> recepcion" where
  "recibir_mensaje deja abierta cant buf red cortes =
     (let n = leidos (TAMANIO_MENSAJE - cant) red cortes; b = escribir cant (take n red) buf
      in if n = 0 \<and> abierta then Falta
         else if deja b then Dejado b
         else if n = 0 then Cerrado b
         else if cant + n < TAMANIO_MENSAJE
              then recibir_mensaje deja abierta (cant + n) b (drop n red) (tl cortes)
              else Completo b (drop n red) (tl cortes))"
  by pat_completeness auto
termination
  by (relation "measure (\<lambda>(deja, abierta, cant, buf, red, cortes). length red)") (auto simp: leidos_def Let_def)

declare recibir_mensaje.simps [simp del]

text \<open>
  The outer loop, over the blocks; each one is copied to its place when \<open>copia\<close> holds
  (the client does not copy once it is leaving).
\<close>

fun recibir_bloques ::
  "(byte list \<Rightarrow> bool) \<Rightarrow> bool \<Rightarrow> bool \<Rightarrow> nat \<Rightarrow> nat \<Rightarrow> nat \<Rightarrow> byte list \<Rightarrow> byte list \<Rightarrow> byte list \<Rightarrow> nat list \<Rightarrow> byte list \<times> recepcion" where
  "recibir_bloques deja abierta copia tamanio i 0 memoria buf red cortes = (memoria, Completo buf red cortes)"
| "recibir_bloques deja abierta copia tamanio i (Suc n) memoria buf red cortes =
     (case recibir_mensaje deja abierta 0 buf red cortes of
        Completo b red' cortes' \<Rightarrow>
          recibir_bloques deja abierta copia tamanio (i + 1) n
            (if copia \<and> tamanio \<noteq> 0
             then escribir (i * DATA_SIZE) (take (largo_bloque tamanio i) (datos b)) memoria else memoria)
            b red' cortes'
      | r \<Rightarrow> (memoria, r))"

definition wait_token :: "bool \<Rightarrow> bool \<Rightarrow> nat \<Rightarrow> byte list \<Rightarrow> byte list \<Rightarrow> byte list \<Rightarrow> nat list \<Rightarrow> byte list \<times> recepcion" where
  "wait_token abierta salir tamanio memoria buf red cortes =
     recibir_bloques (\<lambda>_. False) abierta (\<not> salir) tamanio 0 (cantidad_de_bloques tamanio) memoria buf red cortes"

text \<open>
  The broker gathers the blocks in \<^verbatim>\<open>mem_local\<close>, zeroed before, and copies them to the
  memory of the group at the end. The results: the memory of the group, the value returned (0
  when the client left or closed) and the buffer; and the bytes left in the socket, which no
  one reads after a 0.
\<close>

definition recv_token ::
  "bool \<Rightarrow> bool \<Rightarrow> nat \<Rightarrow> byte list \<Rightarrow> byte list \<Rightarrow> byte list \<Rightarrow> nat list \<Rightarrow>
     (byte list \<times> nat \<times> byte list \<times> byte list) llamada" where
  "recv_token saliendo abierta tamanio memoria buf red cortes =
     (if saliendo then Listo (if tamanio \<noteq> 0 then replicate tamanio 0 else memoria,
                              cantidad_de_bloques tamanio * DATA_SIZE, buf, red)
      else case recibir_bloques (es_peticion LEAVE) abierta True tamanio 0 (cantidad_de_bloques tamanio)
                  (replicate tamanio 0) buf red cortes of
             (mem_local, Completo b red' cortes') \<Rightarrow>
               Listo (if tamanio \<noteq> 0 then mem_local else memoria, cantidad_de_bloques tamanio * DATA_SIZE, b, red')
           | (mem_local, Falta) \<Rightarrow> Bloqueado
           | (mem_local, Dejado b) \<Rightarrow> Listo (memoria, 0, b, [])
           | (mem_local, Cerrado b) \<Rightarrow> Listo (memoria, 0, b, []))"

section \<open>A message survives the pieces\<close>

lemma length_escribir [simp]: "pos + length bs \<le> length buf \<Longrightarrow> length (escribir pos bs buf) = length buf"
  by (simp add: escribir_def)

lemma leidos_cotas: "leidos p red cs \<le> p" "leidos p red cs \<le> length red"
  by (simp_all add: leidos_def)

lemma leidos_pos: "0 < p \<Longrightarrow> red \<noteq> [] \<Longrightarrow> 0 < leidos p red cs"
  by (auto simp: leidos_def split: list.splits)

lemma recibir_mensaje_ok:
  assumes "cant < TAMANIO_MENSAJE" and "length buf = TAMANIO_MENSAJE" and "TAMANIO_MENSAJE - cant \<le> length red"
    and "\<And>k. cant < k \<Longrightarrow> k \<le> TAMANIO_MENSAJE \<Longrightarrow> \<not> deja (take cant buf @ take (k - cant) red @ drop k buf)"
  shows "\<exists>cs. recibir_mensaje deja abierta cant buf red cortes =
    Completo (take cant buf @ take (TAMANIO_MENSAJE - cant) red) (drop (TAMANIO_MENSAJE - cant) red) cs"
  using assms
proof (induction deja abierta cant buf red cortes rule: recibir_mensaje.induct)
  case (1 deja abierta cant buf red cortes)
  define n where "n = leidos (TAMANIO_MENSAJE - cant) red cortes"
  have "red \<noteq> []" using 1(2,4) by auto
  then have n: "0 < n" "n \<le> TAMANIO_MENSAJE - cant" "n \<le> length red"
    using leidos_pos [of "TAMANIO_MENSAJE - cant" red cortes] leidos_cotas [of "TAMANIO_MENSAJE - cant" red cortes] 1(2,4)
    unfolding n_def by auto
  define b where "b = take cant buf @ take n red @ drop (cant + n) buf"
  have e: "escribir cant (take n red) buf = b" using n(3) by (simp add: escribir_def b_def)
  have nd: "\<not> deja b" using 1(5) [of "cant + n"] n 1(2) by (simp add: b_def)
  show ?case
  proof (cases "cant + n < TAMANIO_MENSAJE")
    case False
    then have "cant + n = TAMANIO_MENSAJE" using n(2) 1(2) by simp
    then have fin: "n = TAMANIO_MENSAJE - cant" and bb: "b = take cant buf @ take n red" using 1(3) by (simp_all add: b_def)
    have "recibir_mensaje deja abierta cant buf red cortes = Completo b (drop n red) (tl cortes)"
      using nd n(1) False e by (simp add: recibir_mensaje.simps [of _ _ cant] Let_def n_def [symmetric])
    then show ?thesis using fin bb by simp
  next
    case True
    have lb: "length b = TAMANIO_MENSAJE" using 1(2,3) n by (simp add: b_def)
    have tb: "take (cant + n) b = take cant buf @ take n red" using 1(2,3) n by (simp add: b_def)
    have r: "take (k - cant) red = take n red @ take (k - (cant + n)) (drop n red)" if "cant + n \<le> k" for k
      using take_add [of n "k - (cant + n)" red] that by simp
    have nd': "\<not> deja (take (cant + n) b @ take (k - (cant + n)) (drop n red) @ drop k b)"
      if "cant + n < k" "k \<le> TAMANIO_MENSAJE" for k
    proof -
      have "drop k b = drop k buf" using that 1(2,3) n by (simp add: b_def)
      then show ?thesis using 1(5) [of k] that tb r [of k] by simp
    qed
    have rec: "recibir_mensaje deja abierta cant buf red cortes =
        recibir_mensaje deja abierta (cant + n) b (drop n red) (tl cortes)"
      using nd n(1) True e by (simp add: recibir_mensaje.simps [of _ _ cant] Let_def n_def [symmetric])
    have "\<exists>cs. recibir_mensaje deja abierta (cant + n) b (drop n red) (tl cortes) =
        Completo (take (cant + n) b @ take (TAMANIO_MENSAJE - (cant + n)) (drop n red))
          (drop (TAMANIO_MENSAJE - (cant + n)) (drop n red)) cs"
      by (rule 1(1) [OF n_def e [symmetric]]) (use True n nd nd' lb 1(4) in auto)
    moreover have "take (cant + n) b @ take (TAMANIO_MENSAJE - (cant + n)) (drop n red) =
        take cant buf @ take (TAMANIO_MENSAJE - cant) red"
      using tb r [of TAMANIO_MENSAJE] True by simp
    moreover have "drop (TAMANIO_MENSAJE - (cant + n)) (drop n red) = drop (TAMANIO_MENSAJE - cant) red"
      using True by simp
    ultimately show ?thesis using rec by simp
  qed
qed

section \<open>The blocks of a memory\<close>

lemma DATA_SIZE_pos: "0 < DATA_SIZE"
  by (simp add: DATA_SIZE_def)

lemma cantidad_de_bloques_cubre:
  shows "tamanio \<le> cantidad_de_bloques tamanio * DATA_SIZE"
    and "tamanio \<noteq> 0 \<Longrightarrow> (i < cantidad_de_bloques tamanio) = (i * DATA_SIZE < tamanio)"
    and "0 < cantidad_de_bloques tamanio"
proof -
  have e: "tamanio = tamanio div DATA_SIZE * DATA_SIZE + tamanio mod DATA_SIZE" by simp
  have m: "tamanio mod DATA_SIZE < DATA_SIZE" using DATA_SIZE_pos by simp
  show c: "tamanio \<le> cantidad_de_bloques tamanio * DATA_SIZE"
  proof (cases "tamanio mod DATA_SIZE = 0")
    case True
    then have "tamanio = tamanio div DATA_SIZE * DATA_SIZE" using e by simp
    then show ?thesis by (simp add: cantidad_de_bloques_def add_mult_distrib)
  next
    case False
    then have "cantidad_de_bloques tamanio * DATA_SIZE = tamanio div DATA_SIZE * DATA_SIZE + DATA_SIZE"
      by (simp add: cantidad_de_bloques_def)
    then show ?thesis using e m by linarith
  qed
  show "0 < cantidad_de_bloques tamanio"
    by (auto simp: cantidad_de_bloques_def div_eq_0_iff not_less)
  show "(i < cantidad_de_bloques tamanio) = (i * DATA_SIZE < tamanio)" if "tamanio \<noteq> 0"
  proof
    assume "i * DATA_SIZE < tamanio"
    then have "i * DATA_SIZE < cantidad_de_bloques tamanio * DATA_SIZE" using c by (rule less_le_trans)
    then show "i < cantidad_de_bloques tamanio" by simp
  next
    assume i: "i < cantidad_de_bloques tamanio"
    show "i * DATA_SIZE < tamanio"
    proof (cases "i < tamanio div DATA_SIZE")
      case True
      then have "(i + 1) * DATA_SIZE \<le> tamanio div DATA_SIZE * DATA_SIZE" by (intro mult_le_mono1) simp
      then have "i * DATA_SIZE + DATA_SIZE \<le> tamanio div DATA_SIZE * DATA_SIZE" by simp
      then show ?thesis using DATA_SIZE_pos e m by linarith
    next
      case False
      then have "i = tamanio div DATA_SIZE" and "tamanio mod DATA_SIZE \<noteq> 0 \<or> tamanio < DATA_SIZE"
        using i that by (auto simp: cantidad_de_bloques_def split: if_splits)
      then have "0 < tamanio mod DATA_SIZE" and i: "i = tamanio div DATA_SIZE" using that by auto
      then show ?thesis unfolding i using e by linarith
    qed
  qed
qed

text \<open>\<open>copiado i tamanio mem dest\<close>: the first \<open>i\<close> blocks of \<open>dest\<close> are those of \<open>mem\<close>.\<close>

definition copiado :: "nat \<Rightarrow> byte list \<Rightarrow> byte list \<Rightarrow> bool" where
  "copiado i mem dest \<longleftrightarrow> length dest = length mem \<and> take (i * DATA_SIZE) dest = take (i * DATA_SIZE) mem"

lemma largo_bloque_bloque:
  "length mem = tamanio \<Longrightarrow> length (bloque tamanio i mem) = largo_bloque tamanio i"
  by (simp add: bloque_def largo_bloque_def)

lemma copiado_paso:
  assumes "copiado i mem dest" and "i * DATA_SIZE < length mem"
  shows "copiado (i + 1) mem (escribir (i * DATA_SIZE) (bloque (length mem) i mem) dest)"
proof -
  let ?p = "i * DATA_SIZE" and ?b = "bloque (length mem) i mem"
  have l: "length ?b = min (length mem - ?p) DATA_SIZE"
    using largo_bloque_bloque [of mem "length mem" i] by (simp add: largo_bloque_def)
  have b: "?b = take DATA_SIZE (drop ?p mem)" by (simp add: bloque_def largo_bloque_def min_def)
  have ld: "length dest = length mem" and td: "take ?p dest = take ?p mem" using assms(1) by (auto simp: copiado_def)
  have "take (?p + DATA_SIZE) (escribir ?p ?b dest) = take ?p mem @ ?b"
  proof (cases "length ?b = DATA_SIZE")
    case True
    then show ?thesis using assms(2) ld td by (simp add: escribir_def)
  next
    case False
    then have "length mem \<le> ?p + length ?b" using l by auto
    then show ?thesis using assms(2) ld td l by (simp add: escribir_def)
  qed
  also have "\<dots> = take (?p + DATA_SIZE) mem" by (simp add: b take_add)
  finally show ?thesis using ld assms(2) l by (simp add: copiado_def add.commute)
qed

lemma copiado_total:
  assumes "copiado (cantidad_de_bloques (length mem)) mem dest"
  shows "dest = mem"
proof -
  let ?n = "cantidad_de_bloques (length mem) * DATA_SIZE"
  have "length dest = length mem" and "take ?n dest = take ?n mem" using assms by (auto simp: copiado_def)
  moreover have "length mem \<le> ?n" by (rule cantidad_de_bloques_cubre(1))
  ultimately show ?thesis by simp
qed

text \<open>A list of messages that carry blocks \<open>i\<close>, \<open>i + 1\<close>, \dots of a memory.\<close>

definition lleva :: "nat \<Rightarrow> byte list \<Rightarrow> byte list list \<Rightarrow> bool" where
  "lleva i mem ms \<longleftrightarrow>
     (\<forall>k < length ms. length (ms ! k) = TAMANIO_MENSAJE \<and>
        (mem \<noteq> [] \<longrightarrow> take (largo_bloque (length mem) (i + k)) (datos (ms ! k)) = bloque (length mem) (i + k) mem))"

lemma lleva_Cons:
  "lleva i mem (m # ms) \<longleftrightarrow> length m = TAMANIO_MENSAJE \<and>
     (mem \<noteq> [] \<longrightarrow> take (largo_bloque (length mem) i) (datos m) = bloque (length mem) i mem) \<and> lleva (i + 1) mem ms"
proof -
  have "(\<forall>k < length (m # ms). P k) = (P 0 \<and> (\<forall>k < length ms. P (Suc k)))" for P
    by (metis less_Suc_eq_0_disj length_Cons not0_implies_Suc Suc_less_eq)
  then show ?thesis by (simp add: lleva_def)
qed

lemma recibir_bloques_ok:
  assumes "lleva i mem ms" and "length buf = TAMANIO_MENSAJE" and "copiado i mem dest"
    and "i + length ms \<le> cantidad_de_bloques (length mem)"
    and "\<And>b m k. b \<in> set (buf # ms) \<Longrightarrow> m \<in> set ms \<Longrightarrow> 0 < k \<Longrightarrow> \<not> deja (take k m @ drop k b)"
  shows "\<exists>dest' cs. copiado (i + length ms) mem dest' \<and>
    recibir_bloques deja abierta True (length mem) i (length ms) dest buf (concat ms @ resto) cortes =
      (dest', Completo (last (buf # ms)) resto cs)"
  using assms
proof (induction ms arbitrary: i dest buf cortes)
  case Nil
  then show ?case by auto
next
  case (Cons m ms)
  have m: "length m = TAMANIO_MENSAJE" and ms: "lleva (i + 1) mem ms"
    and d: "mem \<noteq> [] \<Longrightarrow> take (largo_bloque (length mem) i) (datos m) = bloque (length mem) i mem"
    using Cons.prems(1) by (auto simp: lleva_Cons)
  let ?dest = "if mem \<noteq> [] then escribir (i * DATA_SIZE) (bloque (length mem) i mem) dest else dest"
  have nd: "\<not> deja (take 0 buf @ take (k - 0) (concat (m # ms) @ resto) @ drop k buf)"
    if "0 < k" "k \<le> TAMANIO_MENSAJE" for k
    using Cons.prems(5) [of buf m k] that m by simp
  obtain cs where r: "recibir_mensaje deja abierta 0 buf (concat (m # ms) @ resto) cortes = Completo m (concat ms @ resto) cs"
    using recibir_mensaje_ok [of 0 buf "concat (m # ms) @ resto" deja abierta cortes] Cons.prems(2) nd m
    by (auto simp: TAMANIO_MENSAJE_def POS_DATOS_def POS_RECURSO_def)
  have "copiado (i + 1) mem ?dest"
  proof (cases "mem = []")
    case True
    then show ?thesis using Cons.prems(3) by (simp add: copiado_def)
  next
    case False
    then have "i * DATA_SIZE < length mem" using cantidad_de_bloques_cubre(2) [of "length mem" i] Cons.prems(4) by simp
    then show ?thesis using copiado_paso [OF Cons.prems(3)] False by simp
  qed
  then have "\<exists>dest' cs'. copiado (i + 1 + length ms) mem dest' \<and>
      recibir_bloques deja abierta True (length mem) (i + 1) (length ms) ?dest m (concat ms @ resto) cs =
        (dest', Completo (last (m # ms)) resto cs')"
    using Cons.prems(4,5) m ms by (intro Cons.IH) auto
  then show ?case using r d by (cases "mem = []") auto
qed

section \<open>What the senders put on the wire\<close>

lemma largo_bloque_le: "largo_bloque tamanio i \<le> DATA_SIZE"
  by (simp add: largo_bloque_def)

lemma enviar_bloques_Suc:
  "enviar_bloques armar i (Suc n) buf =
     (armar i buf # fst (enviar_bloques armar (i + 1) n (armar i buf)), snd (enviar_bloques armar (i + 1) n (armar i buf)))"
  by (simp add: Let_def split: prod.split)

lemma length_entero_4 [simp]: "length (entero_4 c) = 4"
  by (simp add: entero_4_def)

lemma enviar_bloques_ok:
  assumes "\<And>j b. length b = TAMANIO_MENSAJE \<Longrightarrow> length (armar j b) = TAMANIO_MENSAJE \<and>
      (mem \<noteq> [] \<longrightarrow> take (largo_bloque (length mem) j) (datos (armar j b)) = bloque (length mem) j mem)"
    and "length buf = TAMANIO_MENSAJE"
  shows "lleva i mem (fst (enviar_bloques armar i n buf)) \<and> length (fst (enviar_bloques armar i n buf)) = n \<and>
    length (snd (enviar_bloques armar i n buf)) = TAMANIO_MENSAJE"
  using assms(2)
proof (induction n arbitrary: i buf)
  case 0
  then show ?case by (simp add: lleva_def)
next
  case (Suc n)
  have a: "length (armar i buf) = TAMANIO_MENSAJE \<and>
      (mem \<noteq> [] \<longrightarrow> take (largo_bloque (length mem) i) (datos (armar i buf)) = bloque (length mem) i mem)"
    by (rule assms(1) [OF Suc.prems])
  show ?case unfolding enviar_bloques_Suc using a Suc.IH [of "armar i buf" "i + 1"] by (simp add: lleva_Cons)
qed

lemma enviar_bloques_todos:
  "(\<And>j b. P (armar j b)) \<Longrightarrow> m \<in> set (fst (enviar_bloques armar i n buf)) \<Longrightarrow> P m"
  by (induction n arbitrary: i buf) (simp, unfold enviar_bloques_Suc, auto)

lemma datos_escribir_datos:
  "length b = TAMANIO_MENSAJE \<Longrightarrow> length bs \<le> DATA_SIZE \<Longrightarrow> take (length bs) (datos (escribir POS_DATOS bs b)) = bs"
  by (simp add: datos_def escribir_def TAMANIO_MENSAJE_def)

lemma datos_poner_peticion: "length b = TAMANIO_MENSAJE \<Longrightarrow> datos (poner_peticion p b) = datos b"
  by (simp add: datos_def poner_peticion_def escribir_def POS_DATOS_def POS_RECURSO_def)

lemma length_campo_recurso: "length (campo_recurso nombre) = MAX_NOMBRE_RECURSO"
  by (simp add: campo_recurso_def)

lemma mensaje_broker_ok:
  assumes "length b = TAMANIO_MENSAJE"
  shows "length (mensaje_broker nombre (length mem) mem j b) = TAMANIO_MENSAJE \<and>
    (mem \<noteq> [] \<longrightarrow> take (largo_bloque (length mem) j) (datos (mensaje_broker nombre (length mem) mem j b)) =
       bloque (length mem) j mem)"
proof -
  let ?b = "escribir POS_RECURSO (campo_recurso nombre) b" and ?m = "bloque (length mem) j mem"
  have l: "length ?b = TAMANIO_MENSAJE"
    using assms by (simp add: length_campo_recurso TAMANIO_MENSAJE_def POS_DATOS_def)
  have m: "length ?m = largo_bloque (length mem) j" "length ?m \<le> DATA_SIZE"
    using largo_bloque_bloque [of mem "length mem" j] largo_bloque_le by simp_all
  then have "length (escribir POS_DATOS ?m ?b) = TAMANIO_MENSAJE" using l by (simp add: TAMANIO_MENSAJE_def)
  moreover have "take (largo_bloque (length mem) j) (datos (escribir POS_DATOS ?m ?b)) = ?m"
    using datos_escribir_datos [OF l m(2)] m(1) by simp
  ultimately show ?thesis using l by (simp add: mensaje_broker_def Let_def)
qed

lemma mensaje_cliente_ok:
  assumes "length b = TAMANIO_MENSAJE"
  shows "length (mensaje_cliente salir (length mem) mem j b) = TAMANIO_MENSAJE \<and>
    (mem \<noteq> [] \<longrightarrow> take (largo_bloque (length mem) j) (datos (mensaje_cliente salir (length mem) mem j b)) =
       bloque (length mem) j mem)"
proof -
  let ?m = "bloque (length mem) j mem"
  have m: "length ?m = largo_bloque (length mem) j" "length ?m \<le> DATA_SIZE"
    using largo_bloque_bloque [of mem "length mem" j] largo_bloque_le by simp_all
  have p: "length (poner_peticion p x) = TAMANIO_MENSAJE" if "length x = TAMANIO_MENSAJE" for p x
    using that by (simp add: poner_peticion_def TAMANIO_MENSAJE_def POS_DATOS_def POS_RECURSO_def)
  have l: "length (escribir POS_DATOS ?m b) = TAMANIO_MENSAJE" using assms m(2) by (simp add: TAMANIO_MENSAJE_def)
  show ?thesis
    using assms p l m datos_escribir_datos [OF assms m(2)] datos_poner_peticion [OF l]
    by (simp add: mensaje_cliente_def Let_def)
qed

text \<open>While a message arrives over an old one, the request read is that of the new one.\<close>

lemma peticion_mezclada:
  assumes "take 4 m = entero_4 c" and "take 4 b = entero_4 c'" and "0 < k" and "4 \<le> length m"
  shows "take 4 (take k m @ drop k b) = entero_4 c"
proof (cases "4 \<le> k")
  case True
  then show ?thesis using assms(1,4) by simp
next
  case False
  have m: "take k m = take k (entero_4 c)" using False assms(1) by (metis min.absorb1 nat_le_linear take_take)
  have b: "take (4 - k) (drop k b) = drop k (entero_4 c')" using assms(2) by (metis drop_take)
  have "take 4 (take k m @ drop k b) = take k (entero_4 c) @ drop k (entero_4 c')"
    using False assms(4) m b by simp
  moreover have "k = 1 \<or> k = 2 \<or> k = 3" using False assms(3) by auto
  ultimately show ?thesis by (auto simp: entero_4_def numeral_2_eq_2 numeral_3_eq_3)
qed

lemma mensaje_cliente_peticion:
  "take 4 (mensaje_cliente salir tamanio mem j b) = entero_4 (if salir then 7 else 4)"
  by (simp add: mensaje_cliente_def Let_def poner_peticion_def escribir_def)

definition sin_leave :: "byte list \<Rightarrow> bool" where
  "sin_leave b \<longleftrightarrow> (\<exists>c. take 4 b = entero_4 c \<and> c \<noteq> codigo LEAVE)"

lemma sin_leave_mezcla:
  assumes "sin_leave b" and "sin_leave m" and "0 < k" and "4 \<le> length m"
  shows "\<not> es_peticion LEAVE (take k m @ drop k b)"
  using assms peticion_mezclada [OF _ _ assms(3,4)] by (auto simp: sin_leave_def es_peticion_def entero_4_def)

lemma send_token_broker_ok:
  assumes "length buf = TAMANIO_MENSAJE" and "send_token_broker nombre False (length mem) mem buf = (ms, b)"
  shows "lleva 0 mem ms" and "length ms = cantidad_de_bloques (length mem)" and "length b = TAMANIO_MENSAJE"
  using enviar_bloques_ok [of "mensaje_broker nombre (length mem) mem" mem, OF mensaje_broker_ok assms(1)] assms(2)
  by (metis (lifting) send_token_broker_def fst_conv snd_conv)+

text \<open>The broker does not touch the request of its buffer.\<close>

lemma take_4_escribir: "4 \<le> pos \<Longrightarrow> pos \<le> length b \<Longrightarrow> take 4 (escribir pos bs b) = take 4 b"
  by (simp add: escribir_def)

lemma send_token_broker_leave:
  assumes "length buf = TAMANIO_MENSAJE" and "sin_leave buf"
    and "send_token_broker nombre False (length mem) mem buf = (ms, b)"
  shows "sin_leave b"
proof -
  let ?f = "mensaje_broker nombre (length mem) mem"
  have p: "4 \<le> POS_RECURSO" "4 \<le> POS_DATOS" "POS_RECURSO \<le> TAMANIO_MENSAJE" "POS_DATOS \<le> TAMANIO_MENSAJE"
    by (simp_all add: TAMANIO_MENSAJE_def POS_DATOS_def POS_RECURSO_def)
  have r: "length (escribir POS_RECURSO (campo_recurso nombre) x) = TAMANIO_MENSAJE" if "length x = TAMANIO_MENSAJE" for x
    using that by (simp add: length_campo_recurso TAMANIO_MENSAJE_def POS_DATOS_def)
  have t: "take 4 (?f j x) = take 4 x" if "length x = TAMANIO_MENSAJE" for j x
    using that p r [OF that] by (simp add: mensaje_broker_def Let_def take_4_escribir)
  have "sin_leave (snd (enviar_bloques ?f i n x))" if "length x = TAMANIO_MENSAJE" "sin_leave x" for i n x
    using that
  proof (induction n arbitrary: i x)
    case 0
    then show ?case by simp
  next
    case (Suc n)
    have "length (?f i x) = TAMANIO_MENSAJE" using mensaje_broker_ok [OF Suc.prems(1)] by simp
    moreover have "sin_leave (?f i x)" using Suc.prems t by (simp add: sin_leave_def)
    ultimately show ?case unfolding enviar_bloques_Suc using Suc.IH by simp
  qed
  then show ?thesis using assms by (metis (lifting) send_token_broker_def snd_conv)
qed

lemma send_token_cliente_ok:
  assumes "length buf = TAMANIO_MENSAJE" and "send_token_cliente salir (length mem) mem buf = (ms, b)"
  shows "lleva 0 mem ms" and "length ms = cantidad_de_bloques (length mem)" and "length b = TAMANIO_MENSAJE"
    and "\<forall>m \<in> set ms. sin_leave m"
proof -
  show "lleva 0 mem ms" and "length ms = cantidad_de_bloques (length mem)" and "length b = TAMANIO_MENSAJE"
    using enviar_bloques_ok [of "mensaje_cliente salir (length mem) mem" mem, OF mensaje_cliente_ok assms(1)] assms(2)
    by (metis (lifting) send_token_cliente_def fst_conv snd_conv)+
  have "sin_leave (mensaje_cliente salir (length mem) mem j x)" for j x
    by (cases salir) (simp_all add: sin_leave_def mensaje_cliente_peticion entero_4_def)
  then show "\<forall>m \<in> set ms. sin_leave m"
    using enviar_bloques_todos [of sin_leave "mensaje_cliente salir (length mem) mem"] assms(2)
    by (metis send_token_cliente_def fst_conv)
qed

section \<open>A transfer cut short\<close>

lemma recibir_mensaje_consume:
  "recibir_mensaje deja abierta cant buf red cortes = Completo b red' cs \<Longrightarrow> cant < TAMANIO_MENSAJE \<Longrightarrow>
     length red = length red' + (TAMANIO_MENSAJE - cant)"
proof (induction deja abierta cant buf red cortes rule: recibir_mensaje.induct)
  case (1 deja abierta cant buf red cortes)
  define n where "n = leidos (TAMANIO_MENSAJE - cant) red cortes"
  define x where "x = escribir cant (take n red) buf"
  note c = leidos_cotas [of "TAMANIO_MENSAJE - cant" red cortes, folded n_def]
  have e: "\<not> (n = 0 \<and> abierta)" "\<not> deja x" "n \<noteq> 0"
    using 1(2) by (auto simp: recibir_mensaje.simps [of _ _ cant] Let_def n_def [symmetric] x_def [symmetric] split: if_splits)
  show ?case
  proof (cases "cant + n < TAMANIO_MENSAJE")
    case True
    then have "recibir_mensaje deja abierta (cant + n) x (drop n red) (tl cortes) = Completo b red' cs"
      using 1(2) e by (simp add: recibir_mensaje.simps [of _ _ cant] Let_def n_def [symmetric] x_def [symmetric])
    from 1(1) [OF n_def x_def e True this True] show ?thesis using True c by simp
  next
    case False
    then have "red' = drop n red"
      using 1(2) e by (simp add: recibir_mensaje.simps [of _ _ cant] Let_def n_def [symmetric] x_def [symmetric])
    then show ?thesis using False c 1(3) by simp
  qed
qed

lemma TAMANIO_MENSAJE_pos: "0 < TAMANIO_MENSAJE"
  by (simp add: TAMANIO_MENSAJE_def POS_DATOS_def POS_RECURSO_def)

lemma recibir_bloques_corto:
  "length red < n * TAMANIO_MENSAJE \<Longrightarrow>
     \<nexists>b red' cs. snd (recibir_bloques deja abierta copia tamanio i n dest buf red cortes) = Completo b red' cs"
proof (induction n arbitrary: i dest buf red cortes)
  case 0
  then show ?case by simp
next
  case (Suc n)
  show ?case
  proof (cases "recibir_mensaje deja abierta 0 buf red cortes")
    case (Completo b red' cs)
    then have "length red' < n * TAMANIO_MENSAJE"
      using recibir_mensaje_consume [OF Completo TAMANIO_MENSAJE_pos] Suc.prems by simp
    then show ?thesis using Suc.IH Completo by simp
  qed simp_all
qed

lemma recibir_mensaje_no_falta: "recibir_mensaje deja False cant buf red cortes \<noteq> Falta"
  by (induction deja "False" cant buf red cortes rule: recibir_mensaje.induct)
    (subst recibir_mensaje.simps, auto simp: Let_def)

lemma recibir_bloques_no_falta:
  "snd (recibir_bloques deja False copia tamanio i n dest buf red cortes) \<noteq> Falta"
  by (induction n arbitrary: i dest buf red cortes) (auto simp: recibir_mensaje_no_falta split: recepcion.splits)

section \<open>A whole transfer back\<close>

lemma recv_completo:
  assumes "length buf_c = TAMANIO_MENSAJE" and "length buf_b = TAMANIO_MENSAJE" and "sin_leave buf_b"
    and "length memoria = length copia"
    and "send_token_cliente salir (length copia) copia buf_c = (ms, buf_c')"
  shows "recv_token False abierta (length copia) memoria buf_b (concat ms @ resto) cortes =
      Listo (copia, cantidad_de_bloques (length copia) * DATA_SIZE, last ms, resto) \<and>
    length (last ms) = TAMANIO_MENSAJE \<and> sin_leave (last ms) \<and>
    cantidad_de_bloques (length copia) * DATA_SIZE \<noteq> 0"
proof (intro conjI)
  note a = send_token_cliente_ok [OF assms(1,5)]
  have nd: "\<not> es_peticion LEAVE (take k m @ drop k b)" if "b \<in> set (buf_b # ms)" "m \<in> set ms" "0 < k" for b m k
  proof (rule sin_leave_mezcla)
    show "sin_leave b" using that(1) a(4) assms(3) by auto
    show "sin_leave m" using that(2) a(4) by simp
    have "length m = TAMANIO_MENSAJE" using a(1) that(2) by (auto simp: lleva_def in_set_conv_nth)
    then show "4 \<le> length m" by (simp add: TAMANIO_MENSAJE_def POS_DATOS_def POS_RECURSO_def)
  qed (rule that(3))
  have ne: "ms \<noteq> []" using a(2) cantidad_de_bloques_cubre(3) [of "length copia"] by auto
  have "copiado 0 copia (replicate (length copia) 0)" by (simp add: copiado_def)
  then obtain dest cs where d: "copiado (length ms) copia dest"
    "recibir_bloques (es_peticion LEAVE) abierta True (length copia) 0 (length ms) (replicate (length copia) 0) buf_b
        (concat ms @ resto) cortes = (dest, Completo (last (buf_b # ms)) resto cs)"
    using recibir_bloques_ok [of 0 copia ms buf_b "replicate (length copia) 0" "es_peticion LEAVE" abierta resto cortes] a(1,2) assms(2) nd by auto
  moreover have "dest = copia" using copiado_total [of copia dest] d(1) a(2) by simp
  ultimately show "recv_token False abierta (length copia) memoria buf_b (concat ms @ resto) cortes =
      Listo (copia, cantidad_de_bloques (length copia) * DATA_SIZE, last ms, resto)"
    using assms(4) a(2) ne by (cases copia) (simp_all add: recv_token_def)
  have "last ms \<in> set ms" using ne by simp
  then show "length (last ms) = TAMANIO_MENSAJE" and "sin_leave (last ms)"
    using a(1,4) by (auto simp: lleva_def in_set_conv_nth)
  show "cantidad_de_bloques (length copia) * DATA_SIZE \<noteq> 0"
    using cantidad_de_bloques_cubre(3) [of "length copia"] by (simp add: DATA_SIZE_def)
qed

section \<open>Properties\<close>

definition memoria_ejemplo :: "byte list" where
  "memoria_ejemplo = replicate 300 7"

definition buffer_ejemplo :: "byte list" where
  "buffer_ejemplo = replicate TAMANIO_MENSAJE 0"

text \<open>
  C15. The memory a client receives with the token is the memory of the group: whatever the
  pieces in which the socket hands the messages over, whatever the client's copy and the
  buffers held, the copy ends equal to the group's memory and only the bytes of the transfer
  are consumed.
\<close>

theorem memoria_ida:
  assumes "length buf_b = TAMANIO_MENSAJE" and "length buf_c = TAMANIO_MENSAJE" and "length copia = length memoria"
    and "send_token_broker nombre False (length memoria) memoria buf_b = (ms, buf_b')"
  shows "length (concat ms) = cantidad_de_bloques (length memoria) * TAMANIO_MENSAJE \<and>
    (\<exists>b cs. wait_token abierta False (length memoria) copia buf_c (concat ms @ resto) cortes = (memoria, Completo b resto cs))"
proof
  note a = send_token_broker_ok [OF assms(1,4)]
  have "length m = TAMANIO_MENSAJE" if "m \<in> set ms" for m using a(1) that by (auto simp: lleva_def in_set_conv_nth)
  then have "map length ms = replicate (length ms) TAMANIO_MENSAJE" by (intro replicate_eqI) auto
  then show "length (concat ms) = cantidad_de_bloques (length memoria) * TAMANIO_MENSAJE"
    using a(2) by (simp add: length_concat sum_list_replicate)
  have "copiado 0 memoria copia" using assms(3) by (simp add: copiado_def)
  then obtain dest cs where "copiado (length ms) memoria dest"
    "recibir_bloques (\<lambda>_. False) abierta True (length memoria) 0 (length ms) copia buf_c (concat ms @ resto) cortes =
      (dest, Completo (last (buf_c # ms)) resto cs)"
    using recibir_bloques_ok [of 0 memoria ms buf_c copia "\<lambda>_. False" abierta resto cortes] a assms(2) by auto
  then show "\<exists>b cs. wait_token abierta False (length memoria) copia buf_c (concat ms @ resto) cortes =
      (memoria, Completo b resto cs)"
    using copiado_total [of memoria dest] a(2) by (simp add: wait_token_def)
qed

theorem memoria_ida_witness:
  "\<exists>b cs. wait_token True False 300 (replicate 300 0) buffer_ejemplo
     (concat (fst (send_token_broker ''cinta'' False 300 memoria_ejemplo buffer_ejemplo))) [9, 0, 400] =
     (memoria_ejemplo, Completo b [] cs)"
proof -
  have l: "length buffer_ejemplo = TAMANIO_MENSAJE" and m: "length memoria_ejemplo = 300"
    by (simp_all add: buffer_ejemplo_def memoria_ejemplo_def)
  show ?thesis
    using memoria_ida [OF l l, of "replicate 300 0" memoria_ejemplo "''cinta''" _ _ True "[]" "[9, 0, 400]"] m
    by (metis append_Nil2 length_replicate prod.collapse)
qed

text \<open>
  And back: what the client sends with the token, free or leaving, becomes the memory of
  the group, whatever the pieces; the value returned is never the 0 of a client that left.
\<close>

theorem memoria_vuelta:
  assumes "length buf_c = TAMANIO_MENSAJE" and "length buf_b = TAMANIO_MENSAJE" and "sin_leave buf_b"
    and "length memoria = length copia"
    and "send_token_cliente salir (length copia) copia buf_c = (ms, buf_c')"
  shows "recv_token False abierta (length copia) memoria buf_b (concat ms @ resto) cortes =
      Listo (copia, cantidad_de_bloques (length copia) * DATA_SIZE, last ms, resto) \<and>
    length (last ms) = TAMANIO_MENSAJE \<and> sin_leave (last ms) \<and>
    cantidad_de_bloques (length copia) * DATA_SIZE \<noteq> 0"
  by (rule recv_completo [OF assms])

theorem memoria_vuelta_witness:
  "\<exists>b. recv_token False True 300 (replicate 300 0) buffer_ejemplo
     (concat (fst (send_token_cliente True 300 memoria_ejemplo buffer_ejemplo))) [9, 0, 400] =
     Listo (memoria_ejemplo, 512, b, [])"
proof -
  have l: "length buffer_ejemplo = TAMANIO_MENSAJE" and m: "length memoria_ejemplo = 300"
    by (simp_all add: buffer_ejemplo_def memoria_ejemplo_def)
  have "take 4 buffer_ejemplo = entero_4 0" by code_simp
  then have s: "sin_leave buffer_ejemplo" unfolding sin_leave_def by (intro exI [of _ 0]) simp
  have c: "cantidad_de_bloques 300 * DATA_SIZE = 512" by code_simp
  obtain ms b where e: "send_token_cliente True 300 memoria_ejemplo buffer_ejemplo = (ms, b)" by fastforce
  show ?thesis
    using memoria_vuelta [OF l l s, of "replicate 300 0" memoria_ejemplo True ms b True "[]" "[9, 0, 400]"] m c e
    by simp
qed

text \<open>
  C17. All or nothing: when fewer bytes than a whole transfer arrive, whatever they are, the
  broker leaves the memory of the group as it was and answers 0 (or waits for more, while the
  connection is open). But a broker whose wait for the token was interrupted by a signal
  replaces the memory of the group by zeros, although it does not have the token.
\<close>

theorem recv_token_todo_o_nada:
  assumes "length red < cantidad_de_bloques tamanio * TAMANIO_MENSAJE"
  shows "(\<exists>b. recv_token False False tamanio memoria buf red cortes = Listo (memoria, 0, b, [])) \<and>
    (recv_token False True tamanio memoria buf red cortes = Bloqueado \<or>
       (\<exists>b. recv_token False True tamanio memoria buf red cortes = Listo (memoria, 0, b, []))) \<and>
    (tamanio \<noteq> 0 \<longrightarrow> recv_token True abierta tamanio memoria buf red cortes =
       Listo (replicate tamanio 0, cantidad_de_bloques tamanio * DATA_SIZE, buf, red))"
proof (intro conjI impI)
  let ?r = "\<lambda>ab. recibir_bloques (es_peticion LEAVE) ab True tamanio 0 (cantidad_de_bloques tamanio)
      (replicate tamanio 0) buf red cortes"
  have c: "snd (?r ab) \<noteq> Completo b red' cs" for ab b red' cs using recibir_bloques_corto [OF assms] by blast
  show "\<exists>b. recv_token False False tamanio memoria buf red cortes = Listo (memoria, 0, b, [])"
    using c [of False] recibir_bloques_no_falta [of "es_peticion LEAVE" True tamanio 0 "cantidad_de_bloques tamanio"
        "replicate tamanio 0" buf red cortes]
    by (cases "?r False"; cases "snd (?r False)") (auto simp: recv_token_def)
  show "recv_token False True tamanio memoria buf red cortes = Bloqueado \<or>
      (\<exists>b. recv_token False True tamanio memoria buf red cortes = Listo (memoria, 0, b, []))"
    using c [of True] by (cases "?r True"; cases "snd (?r True)") (auto simp: recv_token_def)
  show "recv_token True abierta tamanio memoria buf red cortes =
       Listo (replicate tamanio 0, cantidad_de_bloques tamanio * DATA_SIZE, buf, red)" if "tamanio \<noteq> 0"
    using that by (simp add: recv_token_def)
qed

theorem recv_token_todo_o_nada_witness:
  "\<exists>b. recv_token False False 300 memoria_ejemplo buffer_ejemplo (replicate 400 0) [100, 200] =
     Listo (memoria_ejemplo, 0, b, [])"
proof -
  have "length (replicate 400 (0 :: byte)) < cantidad_de_bloques 300 * TAMANIO_MENSAJE"
    by (simp add: cantidad_de_bloques_def TAMANIO_MENSAJE_def POS_DATOS_def POS_RECURSO_def DATA_SIZE_def
        MAX_NOMBRE_RECURSO_def)
  from recv_token_todo_o_nada [OF this] show ?thesis by blast
qed

end
