(* ===== verification/MemoriaDistribuida.thy ===== *)
theory MemoriaDistribuida
  imports Transferencia
begin

text \<open>
  The resources an application sees over the network (\<^verbatim>\<open>clientes/\<close>): the note of which
  token it waits for (\<^verbatim>\<open>control_tokens.cpp\<close>), a shared memory, a mutex and a set of
  semaphores (\<^verbatim>\<open>memoria_distribuida.cpp\<close>, \<^verbatim>\<open>mutex_distribuido.cpp\<close>,
  \<^verbatim>\<open>semaphore_set_distribuido.cpp\<close>); and the whole system of a distributed memory:
  applications, their \<^verbatim>\<open>local_broker_comm\<close> processes, the client handlers of the broker
  and the token manager, with the proof that it behaves as one memory under one lock.
\<close>

section \<open>The token an application waits for\<close>

text \<open>One name in shared memory, under a mutex.\<close>

record control_tokens =
  token_esperando :: string
  mutex_control :: nat

definition con_mutex_control :: "(control_tokens \<Rightarrow> control_tokens \<times> 'r) \<Rightarrow> control_tokens \<Rightarrow> (control_tokens \<times> 'r) llamada" where
  "con_mutex_control cuerpo c = (if mutex_control c = 0 then Bloqueado else Listo (cuerpo c))"

definition crear_control :: control_tokens where
  "crear_control = \<lparr>token_esperando = [], mutex_control = 1\<rparr>"

definition cargar_esperando_token :: "string \<Rightarrow> control_tokens \<Rightarrow> (control_tokens \<times> unit) llamada" where
  "cargar_esperando_token nombre =
     con_mutex_control (\<lambda>c. (c\<lparr>token_esperando := take MAX_NOMBRE_RECURSO nombre\<rparr>, ()))"

definition limpiar_esperando_token :: "control_tokens \<Rightarrow> (control_tokens \<times> unit) llamada" where
  "limpiar_esperando_token = con_mutex_control (\<lambda>c. (c\<lparr>token_esperando := []\<rparr>, ()))"

definition comparar_token :: "string \<Rightarrow> control_tokens \<Rightarrow> (control_tokens \<times> bool) llamada" where
  "comparar_token nombre =
     con_mutex_control (\<lambda>c. (c, strncmp_igual (token_esperando c) nombre MAX_NOMBRE_RECURSO))"

text \<open>It clears the name when it is another one (\<^verbatim>\<open>result == 0\<close> on the boolean).\<close>

definition test_and_clear_if_esperando_token :: "string \<Rightarrow> control_tokens \<Rightarrow> (control_tokens \<times> unit) llamada" where
  "test_and_clear_if_esperando_token nombre =
     con_mutex_control (\<lambda>c. (if strncmp_igual (token_esperando c) nombre MAX_NOMBRE_RECURSO then c
                              else c\<lparr>token_esperando := []\<rparr>, ()))"

section \<open>Memory, mutex and semaphores\<close>

text \<open>
  \<open>entregar\<close> and \<open>esperar\<close> are the sides of the communication process; \<^verbatim>\<open>lock\<close> and
  \<^verbatim>\<open>unlock\<close> of a memory are sequences of calls of the application, and steps of the
  system below. Semaphore 0 gives the token to the application, 1 gives it back.
\<close>

definition memoria_entregar_token :: "semset \<Rightarrow> semset llamada" where
  "memoria_entregar_token = signalize 0"

definition memoria_esperar_token :: "semset \<Rightarrow> semset llamada" where
  "memoria_esperar_token = wait_on 1"

definition crear_memoria_distribuida :: "nat \<Rightarrow> byte list \<times> semset" where
  "crear_memoria_distribuida tamanio = (replicate tamanio 0, crear_semset (replicate 2 0))"

definition mutex_entregar_token :: "semset \<Rightarrow> semset llamada" where
  "mutex_entregar_token = signalize 0"

definition mutex_esperar_token :: "semset \<Rightarrow> semset llamada" where
  "mutex_esperar_token = wait_on 1"

definition mutex_forwardear_token :: "semset \<Rightarrow> semset llamada" where
  "mutex_forwardear_token = signalize 1"

text \<open>Semaphore \<open>n\<close> of a set of \<open>c\<close> uses numbers \<open>n\<close> and \<open>n + c\<close>; 125 at most.\<close>

definition crear_semaforos_distribuidos :: "nat \<Rightarrow> falla + semset" where
  "crear_semaforos_distribuidos c = (if c > 125 then Inl GenericError else Inr (crear_semset (replicate (2 * c) 0)))"

definition semaforo_entregar_token :: "nat \<Rightarrow> semset \<Rightarrow> semset llamada" where
  "semaforo_entregar_token n = signalize n"

definition semaforo_esperar_token :: "nat \<Rightarrow> nat \<Rightarrow> semset \<Rightarrow> semset llamada" where
  "semaforo_esperar_token c n = wait_on (n + c)"

definition semaforo_forwardear_token :: "nat \<Rightarrow> nat \<Rightarrow> semset \<Rightarrow> semset llamada" where
  "semaforo_forwardear_token c n = signalize (n + c)"

section \<open>The system of a distributed memory\<close>

text \<open>
  Client \<open>p\<close> of the group: the place of its communication process in \<^verbatim>\<open>loop_memoria\<close>
  (with the bytes on their way to or from the broker), that of the application in
  \<^verbatim>\<open>lock\<close> and \<^verbatim>\<open>unlock\<close>, its copy of the memory, its two semaphores, its
  note, and the buffers of both ends of the connection.
\<close>

datatype comunicacion =
  K_fuera | K_espera | K_ida "byte list" | K_recibido | K_entregado | K_devolver | K_vuelta "byte list"

datatype aplicacion = Ap_afuera | Ap_pide | Ap_concedido | Ap_adentro | Ap_libera

record cliente_dist =
  kcom :: comunicacion
  kapp :: aplicacion
  kcopia :: "byte list"
  ksems :: semset
  kcontrol :: control_tokens
  kbuf_b :: "byte list"
  kbuf_c :: "byte list"

text \<open>\<open>dvalor\<close> is what was last written under the lock; no step reads it.\<close>

record sis_dist =
  dgrupo :: sis_grupo
  dcli :: "nat \<Rightarrow> cliente_dist"
  dvalor :: "byte list"

definition poner_cli :: "nat \<Rightarrow> cliente_dist \<Rightarrow> sis_dist \<Rightarrow> sis_dist" where
  "poner_cli p c s = s\<lparr>dcli := (dcli s)(p := c)\<rparr>"

definition con_memoria :: "byte list \<Rightarrow> sis_grupo \<Rightarrow> sis_grupo" where
  "con_memoria m g = g\<lparr>ggrupo := (ggrupo g)\<lparr>memoria_compartida := m\<rparr>\<rparr>"

definition g_bloqueado :: "nat \<Rightarrow> traspaso cola \<Rightarrow> string \<Rightarrow> sis_grupo \<Rightarrow> sis_grupo" where
  "g_bloqueado p q n g = g\<lparr>gcola := q, ghs := (ghs g)(p := H_token n)\<rparr>"

definition g_liberado :: "string \<Rightarrow> nat \<Rightarrow> string \<Rightarrow> sis_grupo \<Rightarrow> sis_grupo" where
  "g_liberado rec p n g = g\<lparr>gmgr := release_token rec (gmgr g), ghs := (ghs g)(p := H_espera n)\<rparr>"

inductive paso_dist :: "nat \<Rightarrow> string \<Rightarrow> sis_dist \<Rightarrow> sis_dist \<Rightarrow> bool" for base :: nat and rec :: string where
  d_manager: "pull 0 (gmgr (dgrupo s)) = Listo ((t, m), q) \<Longrightarrow>
     manager_turno base rec m ((dgrupo s)\<lparr>gmgr := q\<rparr>) = Some g \<Longrightarrow> paso_dist base rec s (s\<lparr>dgrupo := g\<rparr>)"
| d_ajeno: "tipo m = 3 \<or> recurso m \<noteq> rec \<Longrightarrow> push 1 m (gmgr (dgrupo s)) = Listo q \<Longrightarrow>
     paso_dist base rec s (s\<lparr>dgrupo := (dgrupo s)\<lparr>gmgr := q\<rparr>\<rparr>)"
| d_join: "n \<noteq> [] \<Longrightarrow> \<not> es_localbroker n \<Longrightarrow> \<not> registrado n (ggrupo (dgrupo s)) \<Longrightarrow>
     join n (ggrupo (dgrupo s)) = Listo (g, Inr (Some p)) \<Longrightarrow>
     paso_dist base rec s (poner_cli p ((dcli s p)\<lparr>kcom := K_espera\<rparr>) (s\<lparr>dgrupo := fin_join p n g (dgrupo s)\<rparr>))"
| d_enviar: "ghs (dgrupo s) p = H_espera n \<Longrightarrow> lock_token (base + p) (gcola (dgrupo s)) = Listo (t, q) \<Longrightarrow>
     send_token_broker rec False (length (memoria_compartida (ggrupo (dgrupo s)))) (memoria_compartida (ggrupo (dgrupo s)))
       (kbuf_b (dcli s p)) = (ms, b) \<Longrightarrow>
     paso_dist base rec s (poner_cli p ((dcli s p)\<lparr>kcom := K_ida (concat ms), kbuf_b := b\<rparr>)
       (s\<lparr>dgrupo := g_bloqueado p q n (dgrupo s)\<rparr>))"
| d_recibir: "kcom (dcli s p) = K_ida red \<Longrightarrow>
     wait_token True False (length (kcopia (dcli s p))) (kcopia (dcli s p)) (kbuf_c (dcli s p)) red cortes =
       (m, Completo b resto cs) \<Longrightarrow>
     paso_dist base rec s (poner_cli p ((dcli s p)\<lparr>kcom := K_recibido, kcopia := m, kbuf_c := b\<rparr>) s)"
| d_entregar: "kcom (dcli s p) = K_recibido \<Longrightarrow> comparar_token rec (kcontrol (dcli s p)) = Listo (c, True) \<Longrightarrow>
     memoria_entregar_token (ksems (dcli s p)) = Listo sems \<Longrightarrow>
     paso_dist base rec s (poner_cli p ((dcli s p)\<lparr>kcom := K_entregado, ksems := sems, kcontrol := c\<rparr>) s)"
| d_pasar: "kcom (dcli s p) = K_recibido \<Longrightarrow> comparar_token rec (kcontrol (dcli s p)) = Listo (c, False) \<Longrightarrow>
     paso_dist base rec s (poner_cli p ((dcli s p)\<lparr>kcom := K_devolver, kcontrol := c\<rparr>) s)"
| d_esperar: "kcom (dcli s p) = K_entregado \<Longrightarrow> memoria_esperar_token (ksems (dcli s p)) = Listo sems \<Longrightarrow>
     paso_dist base rec s (poner_cli p ((dcli s p)\<lparr>kcom := K_devolver, ksems := sems\<rparr>) s)"
| d_devolver: "kcom (dcli s p) = K_devolver \<Longrightarrow>
     send_token_cliente False (length (kcopia (dcli s p))) (kcopia (dcli s p)) (kbuf_c (dcli s p)) = (ms, b) \<Longrightarrow>
     paso_dist base rec s (poner_cli p ((dcli s p)\<lparr>kcom := K_vuelta (concat ms), kbuf_c := b\<rparr>) s)"
| d_volver: "kcom (dcli s p) = K_vuelta red \<Longrightarrow> ghs (dgrupo s) p = H_token n \<Longrightarrow>
     recv_token False True (length (memoria_compartida (ggrupo (dgrupo s)))) (memoria_compartida (ggrupo (dgrupo s)))
       (kbuf_b (dcli s p)) red cortes = Listo (m, r, b, resto) \<Longrightarrow> r \<noteq> 0 \<Longrightarrow>
     paso_dist base rec s (poner_cli p ((dcli s p)\<lparr>kcom := K_espera, kbuf_b := b\<rparr>)
       (s\<lparr>dgrupo := g_liberado rec p n (con_memoria m (dgrupo s))\<rparr>))"
| d_pedir: "kapp (dcli s p) = Ap_afuera \<Longrightarrow> cargar_esperando_token rec (kcontrol (dcli s p)) = Listo (c, ()) \<Longrightarrow>
     paso_dist base rec s (poner_cli p ((dcli s p)\<lparr>kapp := Ap_pide, kcontrol := c\<rparr>) s)"
| d_entrar: "kapp (dcli s p) = Ap_pide \<Longrightarrow> wait_on 0 (ksems (dcli s p)) = Listo sems \<Longrightarrow>
     paso_dist base rec s (poner_cli p ((dcli s p)\<lparr>kapp := Ap_concedido, ksems := sems\<rparr>) s)"
| d_limpiar: "kapp (dcli s p) = Ap_concedido \<Longrightarrow> limpiar_esperando_token (kcontrol (dcli s p)) = Listo (c, ()) \<Longrightarrow>
     paso_dist base rec s (poner_cli p ((dcli s p)\<lparr>kapp := Ap_adentro, kcontrol := c\<rparr>) s)"
| d_escribir: "kapp (dcli s p) = Ap_adentro \<Longrightarrow> length m = length (kcopia (dcli s p)) \<Longrightarrow>
     paso_dist base rec s (poner_cli p ((dcli s p)\<lparr>kcopia := m\<rparr>) (s\<lparr>dvalor := m\<rparr>))"
| d_soltar: "kapp (dcli s p) = Ap_adentro \<Longrightarrow> limpiar_esperando_token (kcontrol (dcli s p)) = Listo (c, ()) \<Longrightarrow>
     paso_dist base rec s (poner_cli p ((dcli s p)\<lparr>kapp := Ap_libera, kcontrol := c\<rparr>) s)"
| d_liberar: "kapp (dcli s p) = Ap_libera \<Longrightarrow> signalize 1 (ksems (dcli s p)) = Listo sems \<Longrightarrow>
     paso_dist base rec s (poner_cli p ((dcli s p)\<lparr>kapp := Ap_afuera, ksems := sems\<rparr>) s)"
| d_otro: "kapp (dcli s p) \<in> {Ap_afuera, Ap_adentro} \<Longrightarrow> \<not> strncmp_igual x rec MAX_NOMBRE_RECURSO \<Longrightarrow>
     cargar_esperando_token x (kcontrol (dcli s p)) = Listo (c, ()) \<Longrightarrow>
     paso_dist base rec s (poner_cli p ((dcli s p)\<lparr>kcontrol := c\<rparr>) s)"

inductive_cases paso_distE: "paso_dist base rec s t"

section \<open>The memory of the group does not matter to the token\<close>

lemma con_memoria_simps [simp]:
  "gcola (con_memoria m g) = gcola g" "gmgr (con_memoria m g) = gmgr g" "gcur (con_memoria m g) = gcur g"
  "ghs (con_memoria m g) = ghs g" "memoria_compartida (ggrupo (con_memoria m g)) = m"
  "client_names (ggrupo (con_memoria m g)) = client_names (ggrupo g)"
  "cant_clientes (ggrupo (con_memoria m g)) = cant_clientes (ggrupo g)"
  "mutex_grupo (ggrupo (con_memoria m g)) = mutex_grupo (ggrupo g)"
  "con_memoria m (con_memoria m' g) = con_memoria m g"
  by (simp_all add: con_memoria_def)

lemma inv_grupo_con_memoria: "inv_grupo base rec (con_memoria m g) = inv_grupo base rec g"
  by (simp add: inv_grupo_def tabla_ok_def clientes_ok_def cantidad_tokens_def)

lemma join_memoria:
  "join n g = Listo (g', r) \<Longrightarrow> join n (g\<lparr>memoria_compartida := m\<rparr>) = Listo (g'\<lparr>memoria_compartida := m\<rparr>, r) \<and>
     memoria_compartida g' = memoria_compartida g"
  by (auto simp: join_def con_mutex_def locked_ya_esta_cliente_def split: if_splits option.splits)

lemma leave_memoria:
  "leave n g = Listo (g', r) \<Longrightarrow> leave n (g\<lparr>memoria_compartida := m\<rparr>) = Listo (g'\<lparr>memoria_compartida := m\<rparr>, r)"
  by (auto simp: leave_def con_mutex_def split: if_splits option.splits)

lemma manager_memoria:
  "manager_turno base rec x g = Some g' \<Longrightarrow> manager_turno base rec x (con_memoria m g) = Some (con_memoria m g') \<and>
     memoria_compartida (ggrupo g') = memoria_compartida (ggrupo g) \<and> ghs g' = ghs g"
  by (auto simp: manager_turno_def con_memoria_def replicar_brokers_def pasar_token_def split: if_splits option.splits)

lemma paso_grupo_memoria:
  "paso_grupo base rec s t \<Longrightarrow> paso_grupo base rec (con_memoria m s) (con_memoria m t)"
proof (induction rule: paso_grupo.induct)
  case (g_join n s g p)
  have "con_memoria m (fin_join p n g s) = fin_join p n (g\<lparr>memoria_compartida := m\<rparr>) (con_memoria m s)"
    by (simp add: con_memoria_def fin_join_def)
  moreover have "join n (ggrupo (con_memoria m s)) = Listo (g\<lparr>memoria_compartida := m\<rparr>, Inr (Some p))"
    using join_memoria [OF g_join(4)] by (simp add: con_memoria_def)
  ultimately show ?case using g_join(1-3) paso_grupo.g_join [of n "con_memoria m s"] by (simp add: registrado_def)
next
  case (g_lock s p n t q)
  have "con_memoria m (s\<lparr>gcola := q, ghs := (ghs s)(p := H_token n)\<rparr>) =
      (con_memoria m s)\<lparr>gcola := q, ghs := (ghs (con_memoria m s))(p := H_token n)\<rparr>"
    by (simp add: con_memoria_def)
  then show ?case using g_lock paso_grupo.g_lock [of "con_memoria m s" p n base t q rec] by simp
next
  case (g_release s p n)
  have "con_memoria m (s\<lparr>gmgr := release_token rec (gmgr s), ghs := (ghs s)(p := H_espera n)\<rparr>) =
      (con_memoria m s)\<lparr>gmgr := release_token rec (gmgr (con_memoria m s)), ghs := (ghs (con_memoria m s))(p := H_espera n)\<rparr>"
    by (simp add: con_memoria_def)
  then show ?case using g_release paso_grupo.g_release [of "con_memoria m s" p n base rec] by simp
next
  case (g_leave s p n g)
  have "con_memoria m (fin_leave rec p g s) = fin_leave rec p (g\<lparr>memoria_compartida := m\<rparr>) (con_memoria m s)"
    by (simp add: con_memoria_def fin_leave_def)
  moreover have "leave n (ggrupo (con_memoria m s)) = Listo (g\<lparr>memoria_compartida := m\<rparr>, ())"
    using leave_memoria [OF g_leave(2)] by (simp add: con_memoria_def)
  ultimately show ?case using g_leave(1) paso_grupo.g_leave [of "con_memoria m s" p n _ base rec] by simp
next
  case (g_manager s t x q s')
  have e: "con_memoria m (s\<lparr>gmgr := q\<rparr>) = (con_memoria m s)\<lparr>gmgr := q\<rparr>" by (simp add: con_memoria_def)
  have "manager_turno base rec x ((con_memoria m s)\<lparr>gmgr := q\<rparr>) = Some (con_memoria m s')"
    using manager_memoria [OF g_manager(2), of m] e by simp
  then show ?case using g_manager(1) by (intro paso_grupo.g_manager [of "con_memoria m s" t x q]) simp_all
next
  case (g_ajeno x s q)
  have "con_memoria m (s\<lparr>gmgr := q\<rparr>) = (con_memoria m s)\<lparr>gmgr := q\<rparr>" by (simp add: con_memoria_def)
  then show ?case using g_ajeno paso_grupo.g_ajeno [of x rec "con_memoria m s" q base] by simp
qed

text \<open>Every step of the system is a step of the group, or none, and may replace its memory.\<close>

lemma poner_cli_simps [simp]:
  "dgrupo (poner_cli p c s) = dgrupo s" "dvalor (poner_cli p c s) = dvalor s"
  "dcli (poner_cli p c s) q = (if q = p then c else dcli s q)"
  by (simp_all add: poner_cli_def)

lemma paso_dist_grupo:
  assumes "paso_dist base rec s t"
  shows "dgrupo t = dgrupo s \<or> paso_grupo base rec (dgrupo s) (dgrupo t) \<or>
    (\<exists>m. paso_grupo base rec (con_memoria m (dgrupo s)) (dgrupo t))"
  using assms
proof (induction rule: paso_dist.induct)
  case (d_manager s t m q g)
  then show ?case using paso_grupo.g_manager by simp
next
  case (d_ajeno m s q)
  then show ?case using paso_grupo.g_ajeno by simp
next
  case (d_join n s g p)
  then show ?case using paso_grupo.g_join by simp
next
  case (d_enviar s p n t q ms b)
  then show ?case using paso_grupo.g_lock [of "dgrupo s" p n base t q rec] by (simp add: g_bloqueado_def)
next
  case (d_volver s p red n cortes m r b resto)
  have "paso_grupo base rec (con_memoria m (dgrupo s)) (g_liberado rec p n (con_memoria m (dgrupo s)))"
    unfolding g_liberado_def by (rule paso_grupo.g_release) (use d_volver in simp)
  then show ?case by auto
qed simp_all

lemma paso_dist_olvidar:
  assumes "paso_dist base rec s t"
  shows "con_memoria [] (dgrupo t) = con_memoria [] (dgrupo s) \<or>
    paso_grupo base rec (con_memoria [] (dgrupo s)) (con_memoria [] (dgrupo t))"
  using paso_dist_grupo [OF assms] paso_grupo_memoria [of base rec _ "dgrupo t" "[]"] by fastforce

lemma paso_dist_inv_grupo:
  "paso_dist base rec s t \<Longrightarrow> inv_grupo base rec (dgrupo s) \<Longrightarrow> inv_grupo base rec (dgrupo t)"
  using paso_dist_grupo [of base rec s t] inv_grupo_paso inv_grupo_con_memoria by metis

section \<open>The invariant\<close>

definition sems_ok :: "cliente_dist \<Rightarrow> bool" where
  "sems_ok c \<longleftrightarrow>
     (if kcom c = K_entregado
      then ksems c = [1, 0] \<and> kapp c = Ap_pide
         \<or> ksems c = [0, 0] \<and> kapp c \<in> {Ap_concedido, Ap_adentro, Ap_libera}
         \<or> ksems c = [0, 1] \<and> kapp c \<in> {Ap_afuera, Ap_pide}
      else ksems c = [0, 0] \<and> kapp c \<in> {Ap_afuera, Ap_pide})"

definition nota_ok :: "string \<Rightarrow> cliente_dist \<Rightarrow> bool" where
  "nota_ok rec c \<longleftrightarrow> mutex_control (kcontrol c) = 1 \<and>
     (strncmp_igual (token_esperando (kcontrol c)) rec MAX_NOMBRE_RECURSO \<longrightarrow>
        kapp c \<in> {Ap_pide, Ap_concedido})"

definition bufs_ok :: "nat \<Rightarrow> cliente_dist \<Rightarrow> bool" where
  "bufs_ok tam c \<longleftrightarrow> length (kcopia c) = tam \<and> length (kbuf_b c) = TAMANIO_MENSAJE \<and>
     length (kbuf_c c) = TAMANIO_MENSAJE \<and> sin_leave (kbuf_b c)"

definition enlace :: "handler \<Rightarrow> comunicacion \<Rightarrow> bool" where
  "enlace h k \<longleftrightarrow>
     (case h of H_fuera \<Rightarrow> k = K_fuera | H_espera n \<Rightarrow> k = K_espera | H_token n \<Rightarrow> k \<noteq> K_fuera \<and> k \<noteq> K_espera)"

definition datos_ok :: "string \<Rightarrow> byte list \<Rightarrow> cliente_dist \<Rightarrow> bool" where
  "datos_ok rec v c \<longleftrightarrow>
     (case kcom c of
        K_ida red \<Rightarrow> (\<exists>buf ms b. length buf = TAMANIO_MENSAJE \<and>
          send_token_broker rec False (length v) v buf = (ms, b) \<and> red = concat ms)
      | K_vuelta red \<Rightarrow> (\<exists>salir buf ms b. length buf = TAMANIO_MENSAJE \<and>
          send_token_cliente salir (length v) v buf = (ms, b) \<and> red = concat ms)
      | K_fuera \<Rightarrow> True
      | K_espera \<Rightarrow> True
      | _ \<Rightarrow> kcopia c = v)"

definition cli_ok :: "string \<Rightarrow> nat \<Rightarrow> byte list \<Rightarrow> handler \<Rightarrow> cliente_dist \<Rightarrow> bool" where
  "cli_ok rec tam v h c \<longleftrightarrow> sems_ok c \<and> nota_ok rec c \<and> bufs_ok tam c \<and> enlace h (kcom c) \<and> datos_ok rec v c"

definition inv_dist :: "nat \<Rightarrow> string \<Rightarrow> nat \<Rightarrow> sis_dist \<Rightarrow> bool" where
  "inv_dist base rec tam s \<longleftrightarrow>
     rec \<noteq> [] \<and> inv_grupo base rec (dgrupo s) \<and> length (memoria_compartida (ggrupo (dgrupo s))) = tam \<and>
     length (dvalor s) = tam \<and> (\<forall>p. cli_ok rec tam (dvalor s) (ghs (dgrupo s) p) (dcli s p)) \<and>
     ((\<forall>p n. ghs (dgrupo s) p \<noteq> H_token n) \<longrightarrow> memoria_compartida (ggrupo (dgrupo s)) = dvalor s)"

lemmas cli_defs = cli_ok_def sems_ok_def nota_ok_def bufs_ok_def enlace_def datos_ok_def

text \<open>At most one handler has the token.\<close>

lemma un_token:
  assumes "inv_grupo base rec g" and "ghs g p = H_token n" and "q \<noteq> p"
  shows "ghs g q \<noteq> H_token m"
proof
  assume "ghs g q = H_token m"
  note a = token_afuera [OF assms(1,2)] and b = token_afuera(1) [OF assms(1) this]
  have "(\<Sum>x \<in> {..<MAX_CLIENTS} - {p}. tiene (ghs g x)) = 0"
    using suma_quitar [OF a(1), of "\<lambda>x. tiene (ghs g x)"] a(4) assms(2) by (simp add: tiene_def)
  then have "tiene (ghs g q) = 0" using b assms(3) by auto
  then show False using \<open>ghs g q = H_token m\<close> by (simp add: tiene_def)
qed

text \<open>A step inside client \<open>p\<close>; a change of the value while \<open>p\<close> has the token.\<close>

lemma inv_dist_cli:
  assumes "inv_dist base rec tam s" and "cli_ok rec tam (dvalor s) (ghs (dgrupo s) p) c"
  shows "inv_dist base rec tam (poner_cli p c s)"
  using assms by (simp add: inv_dist_def)

lemma datos_ok_sin_token:
  "cli_ok rec tam v h c \<Longrightarrow> (\<And>n. h \<noteq> H_token n) \<Longrightarrow> cli_ok rec tam v' h c"
  by (cases h) (auto simp: cli_defs)

lemma inv_dist_valor:
  assumes inv: "inv_dist base rec tam s" and h: "ghs (dgrupo s) p = H_token n" and "length v = tam"
    and c: "cli_ok rec tam v (H_token n) c"
  shows "inv_dist base rec tam (poner_cli p c (s\<lparr>dvalor := v\<rparr>))"
proof -
  have g: "inv_grupo base rec (dgrupo s)" using inv by (simp add: inv_dist_def)
  have "cli_ok rec tam v (ghs (dgrupo s) q) (dcli s q)" if "q \<noteq> p" for q
    by (rule datos_ok_sin_token [of rec tam "dvalor s"])
      (use inv un_token [OF g h that] in \<open>simp_all add: inv_dist_def\<close>)
  then show ?thesis using inv h assms(3) c by (auto simp: inv_dist_def)
qed

text \<open>A step of the group that touches neither the handlers nor the memory.\<close>

lemma inv_dist_grupo:
  assumes "inv_dist base rec tam s" and "inv_grupo base rec g" and "ghs g = ghs (dgrupo s)"
    and "memoria_compartida (ggrupo g) = memoria_compartida (ggrupo (dgrupo s))"
  shows "inv_dist base rec tam (s\<lparr>dgrupo := g\<rparr>)"
  using assms by (simp add: inv_dist_def)

lemma cli_token:
  assumes "inv_dist base rec tam s" and "kcom (dcli s p) \<notin> {K_fuera, K_espera}"
  obtains n where "ghs (dgrupo s) p = H_token n"
proof -
  have "enlace (ghs (dgrupo s) p) (kcom (dcli s p))" using assms(1) by (simp add: inv_dist_def cli_ok_def)
  then show thesis using that assms(2) by (cases "ghs (dgrupo s) p") (auto simp: enlace_def)
qed

lemma adentro_entregado:
  "sems_ok c \<Longrightarrow> kapp c \<in> {Ap_concedido, Ap_adentro, Ap_libera} \<Longrightarrow> kcom c = K_entregado \<and> ksems c = [0, 0]"
  by (auto simp: sems_ok_def split: if_splits)

section \<open>Preservation\<close>

lemma control_simps [paso_simps]:
  "(cargar_esperando_token x k = Listo (k', u)) = (mutex_control k \<noteq> 0 \<and> k' = k\<lparr>token_esperando := take MAX_NOMBRE_RECURSO x\<rparr>)"
  "(limpiar_esperando_token k = Listo (k', u)) = (mutex_control k \<noteq> 0 \<and> k' = k\<lparr>token_esperando := []\<rparr>)"
  "(comparar_token x k = Listo (k', r)) =
     (mutex_control k \<noteq> 0 \<and> k' = k \<and> r = strncmp_igual (token_esperando k) x MAX_NOMBRE_RECURSO)"
  by (auto simp: cargar_esperando_token_def limpiar_esperando_token_def comparar_token_def con_mutex_control_def)

lemma inv_cli: "inv_dist base rec tam s \<Longrightarrow> cli_ok rec tam (dvalor s) (ghs (dgrupo s) p) (dcli s p)"
  by (simp add: inv_dist_def)

lemma nota_vacia: "rec \<noteq> [] \<Longrightarrow> \<not> strncmp_igual [] rec MAX_NOMBRE_RECURSO"
  by (cases rec) (simp_all add: strncmp_igual_def MAX_NOMBRE_RECURSO_def)

lemma nota_otra: "\<not> strncmp_igual x rec MAX_NOMBRE_RECURSO \<Longrightarrow>
    \<not> strncmp_igual (take MAX_NOMBRE_RECURSO x) rec MAX_NOMBRE_RECURSO"
  by (simp add: strncmp_igual_def)

lemma inv_d_entregar:
  assumes inv: "inv_dist base rec tam s" and "kcom (dcli s p) = K_recibido"
    and "comparar_token rec (kcontrol (dcli s p)) = Listo (c, True)"
    and "memoria_entregar_token (ksems (dcli s p)) = Listo sems"
  shows "inv_dist base rec tam (poner_cli p ((dcli s p)\<lparr>kcom := K_entregado, ksems := sems, kcontrol := c\<rparr>) s)"
  by (rule inv_dist_cli [OF inv])
    (use inv_cli [OF inv, of p] assms(2-4) in \<open>auto simp: cli_defs memoria_entregar_token_def paso_simps split: handler.splits\<close>)

lemma inv_d_pasar:
  assumes inv: "inv_dist base rec tam s" and "kcom (dcli s p) = K_recibido"
    and "comparar_token rec (kcontrol (dcli s p)) = Listo (c, False)"
  shows "inv_dist base rec tam (poner_cli p ((dcli s p)\<lparr>kcom := K_devolver, kcontrol := c\<rparr>) s)"
  by (rule inv_dist_cli [OF inv])
    (use inv_cli [OF inv, of p] assms(2-3) in \<open>auto simp: cli_defs paso_simps split: handler.splits\<close>)

lemma inv_d_esperar:
  assumes inv: "inv_dist base rec tam s" and "kcom (dcli s p) = K_entregado"
    and "memoria_esperar_token (ksems (dcli s p)) = Listo sems"
  shows "inv_dist base rec tam (poner_cli p ((dcli s p)\<lparr>kcom := K_devolver, ksems := sems\<rparr>) s)"
  by (rule inv_dist_cli [OF inv])
    (use inv_cli [OF inv, of p] assms(2-3) in \<open>auto simp: cli_defs memoria_esperar_token_def paso_simps split: handler.splits\<close>)

lemma inv_d_devolver:
  assumes inv: "inv_dist base rec tam s" and "kcom (dcli s p) = K_devolver"
    and e: "send_token_cliente False (length (kcopia (dcli s p))) (kcopia (dcli s p)) (kbuf_c (dcli s p)) = (ms, b)"
  shows "inv_dist base rec tam (poner_cli p ((dcli s p)\<lparr>kcom := K_vuelta (concat ms), kbuf_c := b\<rparr>) s)"
proof (rule inv_dist_cli [OF inv])
  have l: "length (kbuf_c (dcli s p)) = TAMANIO_MENSAJE" using inv_cli [OF inv, of p] by (simp add: cli_ok_def bufs_ok_def)
  then show "cli_ok rec tam (dvalor s) (ghs (dgrupo s) p) ((dcli s p)\<lparr>kcom := K_vuelta (concat ms), kbuf_c := b\<rparr>)"
    using inv_cli [OF inv, of p] assms(2) send_token_cliente_ok(3) [OF l e] e l
    by (auto simp: cli_defs split: handler.splits)
qed

lemma inv_d_recibir:
  assumes inv: "inv_dist base rec tam s" and k: "kcom (dcli s p) = K_ida red"
    and w: "wait_token True False (length (kcopia (dcli s p))) (kcopia (dcli s p)) (kbuf_c (dcli s p)) red cortes =
      (m, Completo b resto cs)"
  shows "inv_dist base rec tam (poner_cli p ((dcli s p)\<lparr>kcom := K_recibido, kcopia := m, kbuf_c := b\<rparr>) s)"
proof (rule inv_dist_cli [OF inv])
  let ?c = "dcli s p" and ?v = "dvalor s"
  note c = inv_cli [OF inv, of p]
  have v: "length ?v = tam" using inv by (simp add: inv_dist_def)
  have l: "length (kcopia ?c) = length ?v" "length (kbuf_c ?c) = TAMANIO_MENSAJE"
    using c v by (auto simp: cli_ok_def bufs_ok_def)
  obtain buf ms b' where t: "length buf = TAMANIO_MENSAJE" "send_token_broker rec False (length ?v) ?v buf = (ms, b')"
    "red = concat ms"
    using c k by (auto simp: cli_ok_def datos_ok_def)
  have lm: "length x = TAMANIO_MENSAJE" if "x \<in> set ms" for x
    using send_token_broker_ok(1) [OF t(1,2)] that by (auto simp: lleva_def in_set_conv_nth)
  have lv: "lleva 0 ?v ms" and n: "length ms = cantidad_de_bloques (length ?v)" using send_token_broker_ok [OF t(1,2)] by auto
  have "copiado 0 ?v (kcopia ?c)" using l by (simp add: copiado_def)
  then obtain dest cs' where d: "copiado (length ms) ?v dest"
    "recibir_bloques (\<lambda>_. False) True True (length ?v) 0 (length ms) (kcopia ?c) (kbuf_c ?c) (concat ms @ []) cortes =
      (dest, Completo (last (kbuf_c ?c # ms)) [] cs')"
    using recibir_bloques_ok [OF lv l(2), of "kcopia ?c" "\<lambda>_. False" True "[]" cortes] n by auto
  then have "m = dest" and "b = last (kbuf_c ?c # ms)" using w t(3) n l(1) by (auto simp: wait_token_def)
  moreover have "dest = ?v" using copiado_total [of ?v dest] d(1) n by simp
  moreover have "length (last (kbuf_c ?c # ms)) = TAMANIO_MENSAJE" using lm l(2) by (cases ms) auto
  ultimately show "cli_ok rec tam ?v (ghs (dgrupo s) p) (?c\<lparr>kcom := K_recibido, kcopia := m, kbuf_c := b\<rparr>)"
    using c k v by (auto simp: cli_defs split: handler.splits)
qed

lemma inv_d_app:
  assumes inv: "inv_dist base rec tam s"
  shows "kapp (dcli s p) = Ap_afuera \<Longrightarrow> cargar_esperando_token rec (kcontrol (dcli s p)) = Listo (c, ()) \<Longrightarrow>
      inv_dist base rec tam (poner_cli p ((dcli s p)\<lparr>kapp := Ap_pide, kcontrol := c\<rparr>) s)"
    and "kapp (dcli s p) = Ap_pide \<Longrightarrow> wait_on 0 (ksems (dcli s p)) = Listo sems \<Longrightarrow>
      inv_dist base rec tam (poner_cli p ((dcli s p)\<lparr>kapp := Ap_concedido, ksems := sems\<rparr>) s)"
    and "kapp (dcli s p) = Ap_concedido \<Longrightarrow> limpiar_esperando_token (kcontrol (dcli s p)) = Listo (c, ()) \<Longrightarrow>
      inv_dist base rec tam (poner_cli p ((dcli s p)\<lparr>kapp := Ap_adentro, kcontrol := c\<rparr>) s)"
    and "kapp (dcli s p) = Ap_adentro \<Longrightarrow> limpiar_esperando_token (kcontrol (dcli s p)) = Listo (c, ()) \<Longrightarrow>
      inv_dist base rec tam (poner_cli p ((dcli s p)\<lparr>kapp := Ap_libera, kcontrol := c\<rparr>) s)"
    and "kapp (dcli s p) = Ap_libera \<Longrightarrow> signalize 1 (ksems (dcli s p)) = Listo sems \<Longrightarrow>
      inv_dist base rec tam (poner_cli p ((dcli s p)\<lparr>kapp := Ap_afuera, ksems := sems\<rparr>) s)"
    and "kapp (dcli s p) \<in> {Ap_afuera, Ap_adentro} \<Longrightarrow> \<not> strncmp_igual x rec MAX_NOMBRE_RECURSO \<Longrightarrow>
      cargar_esperando_token x (kcontrol (dcli s p)) = Listo (c, ()) \<Longrightarrow>
      inv_dist base rec tam (poner_cli p ((dcli s p)\<lparr>kcontrol := c\<rparr>) s)"
proof -
  note c = inv_cli [OF inv, of p]
  have "rec \<noteq> []" using inv by (simp add: inv_dist_def)
  note nv = nota_vacia [OF this]
  show "kapp (dcli s p) = Ap_afuera \<Longrightarrow> cargar_esperando_token rec (kcontrol (dcli s p)) = Listo (c, ()) \<Longrightarrow>
      inv_dist base rec tam (poner_cli p ((dcli s p)\<lparr>kapp := Ap_pide, kcontrol := c\<rparr>) s)"
    by (rule inv_dist_cli [OF inv]) (use c in \<open>auto simp: cli_defs paso_simps split: comunicacion.splits if_splits\<close>)
  show "kapp (dcli s p) = Ap_pide \<Longrightarrow> wait_on 0 (ksems (dcli s p)) = Listo sems \<Longrightarrow>
      inv_dist base rec tam (poner_cli p ((dcli s p)\<lparr>kapp := Ap_concedido, ksems := sems\<rparr>) s)"
    by (rule inv_dist_cli [OF inv]) (use c in \<open>auto simp: cli_defs paso_simps split: comunicacion.splits if_splits\<close>)
  show "kapp (dcli s p) = Ap_concedido \<Longrightarrow> limpiar_esperando_token (kcontrol (dcli s p)) = Listo (c, ()) \<Longrightarrow>
      inv_dist base rec tam (poner_cli p ((dcli s p)\<lparr>kapp := Ap_adentro, kcontrol := c\<rparr>) s)"
    by (rule inv_dist_cli [OF inv]) (use c nv in \<open>auto simp: cli_defs paso_simps split: comunicacion.splits if_splits\<close>)
  show "kapp (dcli s p) = Ap_adentro \<Longrightarrow> limpiar_esperando_token (kcontrol (dcli s p)) = Listo (c, ()) \<Longrightarrow>
      inv_dist base rec tam (poner_cli p ((dcli s p)\<lparr>kapp := Ap_libera, kcontrol := c\<rparr>) s)"
    by (rule inv_dist_cli [OF inv]) (use c nv in \<open>auto simp: cli_defs paso_simps split: comunicacion.splits if_splits\<close>)
  show "kapp (dcli s p) = Ap_libera \<Longrightarrow> signalize 1 (ksems (dcli s p)) = Listo sems \<Longrightarrow>
      inv_dist base rec tam (poner_cli p ((dcli s p)\<lparr>kapp := Ap_afuera, ksems := sems\<rparr>) s)"
    by (rule inv_dist_cli [OF inv]) (use c in \<open>auto simp: cli_defs paso_simps split: comunicacion.splits if_splits\<close>)
  show "kapp (dcli s p) \<in> {Ap_afuera, Ap_adentro} \<Longrightarrow> \<not> strncmp_igual x rec MAX_NOMBRE_RECURSO \<Longrightarrow>
      cargar_esperando_token x (kcontrol (dcli s p)) = Listo (c, ()) \<Longrightarrow>
      inv_dist base rec tam (poner_cli p ((dcli s p)\<lparr>kcontrol := c\<rparr>) s)"
    using nota_otra [of x rec]
    by (intro inv_dist_cli [OF inv]) (use c in \<open>auto simp: cli_defs paso_simps split: comunicacion.splits if_splits\<close>)
qed

lemma inv_d_escribir:
  assumes inv: "inv_dist base rec tam s" and a: "kapp (dcli s p) = Ap_adentro" and "length m = length (kcopia (dcli s p))"
  shows "inv_dist base rec tam (poner_cli p ((dcli s p)\<lparr>kcopia := m\<rparr>) (s\<lparr>dvalor := m\<rparr>))"
proof -
  note c = inv_cli [OF inv, of p]
  have k: "kcom (dcli s p) = K_entregado" using adentro_entregado [of "dcli s p"] c a by (simp add: cli_ok_def)
  then obtain n where h: "ghs (dgrupo s) p = H_token n" using cli_token [OF inv, of p] by auto
  show ?thesis
    by (rule inv_dist_valor [OF inv h]) (use c h k assms(3) in \<open>auto simp: cli_defs\<close>)
qed

lemma lock_token_vacia: "0 < k \<Longrightarrow> lock_token k [] = Bloqueado"
  by (simp add: lock_token_def pull_def)

lemma inv_d_enviar:
  assumes inv: "inv_dist base rec tam s" and h: "ghs (dgrupo s) p = H_espera n"
    and l: "lock_token (base + p) (gcola (dgrupo s)) = Listo (t, q)"
    and e: "send_token_broker rec False (length (memoria_compartida (ggrupo (dgrupo s)))) (memoria_compartida (ggrupo (dgrupo s)))
       (kbuf_b (dcli s p)) = (ms, b)"
  shows "inv_dist base rec tam (poner_cli p ((dcli s p)\<lparr>kcom := K_ida (concat ms), kbuf_b := b\<rparr>)
       (s\<lparr>dgrupo := g_bloqueado p q n (dgrupo s)\<rparr>))"
proof -
  let ?g = "dgrupo s"
  have g: "inv_grupo base rec ?g" and b0: "0 < base" using inv by (auto simp: inv_dist_def inv_grupo_def)
  have g': "inv_grupo base rec (g_bloqueado p q n ?g)"
    unfolding g_bloqueado_def by (rule inv_grupo_lock [OF g h l])
  have "ghs ?g x \<noteq> H_token y" for x y
  proof
    assume "ghs ?g x = H_token y"
    then have "gcola ?g = []" using token_afuera(2) [OF g] by blast
    then show False using l lock_token_vacia [of "base + p"] b0 by simp
  qed
  then have mem: "memoria_compartida (ggrupo ?g) = dvalor s" using inv by (simp add: inv_dist_def)
  note c = inv_cli [OF inv, of p]
  have lb: "length (kbuf_b (dcli s p)) = TAMANIO_MENSAJE" using c by (simp add: cli_ok_def bufs_ok_def)
  have sl: "sin_leave b"
    using send_token_broker_leave [OF _ _ e] c by (auto simp: cli_ok_def bufs_ok_def)
  have "cli_ok rec tam (dvalor s) (H_token n) ((dcli s p)\<lparr>kcom := K_ida (concat ms), kbuf_b := b\<rparr>)"
    using c h mem e lb sl send_token_broker_ok(3) [OF lb e] by (auto simp: cli_defs)
  then show ?thesis
    using inv g' mem by (simp add: inv_dist_def g_bloqueado_def)
qed

lemma inv_d_volver:
  assumes inv: "inv_dist base rec tam s" and k: "kcom (dcli s p) = K_vuelta red" and h: "ghs (dgrupo s) p = H_token n"
    and r: "recv_token False True (length (memoria_compartida (ggrupo (dgrupo s)))) (memoria_compartida (ggrupo (dgrupo s)))
       (kbuf_b (dcli s p)) red cortes = Listo (m, r, b, resto)"
  shows "inv_dist base rec tam (poner_cli p ((dcli s p)\<lparr>kcom := K_espera, kbuf_b := b\<rparr>)
       (s\<lparr>dgrupo := g_liberado rec p n (con_memoria m (dgrupo s))\<rparr>))"
proof -
  let ?g = "dgrupo s" and ?v = "dvalor s"
  have g: "inv_grupo base rec ?g" and lm: "length (memoria_compartida (ggrupo ?g)) = length ?v" and v: "length ?v = tam"
    using inv by (auto simp: inv_dist_def)
  note c = inv_cli [OF inv, of p]
  have lb: "length (kbuf_b (dcli s p)) = TAMANIO_MENSAJE" "sin_leave (kbuf_b (dcli s p))"
    using c by (auto simp: cli_ok_def bufs_ok_def)
  obtain salir buf ms b' where t: "length buf = TAMANIO_MENSAJE" "send_token_cliente salir (length ?v) ?v buf = (ms, b')"
    "red = concat ms"
    using c k by (auto simp: cli_ok_def datos_ok_def)
  have mb: "m = ?v \<and> length b = TAMANIO_MENSAJE \<and> sin_leave b"
    using recv_completo [OF t(1) lb lm t(2), of True "[]" cortes] r t(3) lm by simp
  have g': "inv_grupo base rec (g_liberado rec p n (con_memoria m ?g))"
    unfolding g_liberado_def
    by (rule inv_grupo_release) (use g h in \<open>simp_all add: inv_grupo_con_memoria\<close>)
  have "cli_ok rec tam ?v (H_espera n) ((dcli s p)\<lparr>kcom := K_espera, kbuf_b := b\<rparr>)"
    using c k mb by (auto simp: cli_defs)
  then show ?thesis
    using inv g' mb v by (simp add: inv_dist_def g_liberado_def)
qed

lemma join_entrada:
  assumes inv: "inv_grupo base rec g" and "n \<noteq> []" and "\<not> registrado n (ggrupo g)"
    and j: "join n (ggrupo g) = Listo (g', Inr (Some p))"
  shows "ghs g p = H_fuera" and "memoria_compartida g' = memoria_compartida (ggrupo g)"
proof -
  have ok: "clientes_ok (ggrupo g)" and m: "mutex_grupo (ggrupo g) \<noteq> 0"
    and h: "handlers_ok (client_names (ggrupo g)) (ghs g)"
    using inv by (auto simp: inv_grupo_def tabla_ok_def)
  have lugar: "cant_clientes (ggrupo g) \<noteq> int MAX_CLIENTS" using j join_lleno [OF m] by auto
  obtain i where i: "i < MAX_CLIENTS" "client_names (ggrupo g) ! i = []" "join n (ggrupo g) = Listo ((ggrupo g)
      \<lparr>client_names := (client_names (ggrupo g))[i := take MAX_NOMBRE_RECURSO n],
       cant_clientes := cant_clientes (ggrupo g) + 1\<rparr>, Inr (Some i))"
    using join_nuevo [OF ok m assms(2) lugar assms(3)] by blast
  then have "p = i" using j by simp
  then show "ghs g p = H_fuera" using handlers_ok_ocupado [OF h i(1)] i(2) by simp
  show "memoria_compartida g' = memoria_compartida (ggrupo g)" using join_memoria [OF j] by simp
qed

lemma inv_d_join:
  assumes inv: "inv_dist base rec tam s" and n: "n \<noteq> []" "\<not> es_localbroker n" "\<not> registrado n (ggrupo (dgrupo s))"
    and j: "join n (ggrupo (dgrupo s)) = Listo (g, Inr (Some p))"
  shows "inv_dist base rec tam (poner_cli p ((dcli s p)\<lparr>kcom := K_espera\<rparr>) (s\<lparr>dgrupo := fin_join p n g (dgrupo s)\<rparr>))"
proof -
  have g: "inv_grupo base rec (dgrupo s)" using inv by (simp add: inv_dist_def)
  note e = join_entrada [OF g n(1,3) j]
  have "inv_grupo base rec (fin_join p n g (dgrupo s))" by (rule inv_grupo_join [OF g n j])
  moreover have "cli_ok rec tam (dvalor s) (H_espera n) ((dcli s p)\<lparr>kcom := K_espera\<rparr>)"
    using inv_cli [OF inv, of p] e(1) by (auto simp: cli_defs)
  moreover have "\<forall>q x. ghs (dgrupo s) q \<noteq> H_token x"
    if "\<forall>q x. ((ghs (dgrupo s))(p := H_espera n)) q \<noteq> H_token x"
    using that e(1) by (metis fun_upd_apply handler.distinct(3))
  ultimately show ?thesis using inv e(2) by (simp add: inv_dist_def fin_join_def)
qed

lemma inv_dist_paso: "paso_dist base rec s t \<Longrightarrow> inv_dist base rec tam s \<Longrightarrow> inv_dist base rec tam t"
proof (induction rule: paso_dist.induct)
  case (d_manager s t m q g)
  have "inv_grupo base rec g"
    using paso_dist_inv_grupo [OF paso_dist.d_manager [OF d_manager(1,2)]] d_manager(3) by (simp add: inv_dist_def)
  then show ?case
    using manager_memoria [OF d_manager(2)] by (intro inv_dist_grupo [OF d_manager(3)]) simp_all
next
  case (d_ajeno m s q)
  have "inv_grupo base rec ((dgrupo s)\<lparr>gmgr := q\<rparr>)"
    using paso_dist_inv_grupo [OF paso_dist.d_ajeno [OF d_ajeno(1,2)]] d_ajeno(3) by (simp add: inv_dist_def)
  then show ?case by (intro inv_dist_grupo [OF d_ajeno(3)]) simp_all
next
  case (d_join n s g p)
  then show ?case by (intro inv_d_join)
next
  case (d_enviar s p n t q ms b)
  then show ?case by (intro inv_d_enviar)
next
  case (d_volver s p red n cortes m r b resto)
  then show ?case by (intro inv_d_volver)
qed (blast intro: inv_d_recibir inv_d_entregar inv_d_pasar inv_d_esperar inv_d_devolver inv_d_app inv_d_escribir)+

section \<open>The reachable systems\<close>

text \<open>
  At the start the group has just been created and initialised, no client has joined, and
  every application has its own segment of the same size with whatever it held.
\<close>

definition cliente_inicial :: "nat \<Rightarrow> cliente_dist \<Rightarrow> bool" where
  "cliente_inicial tam c \<longleftrightarrow> kcom c = K_fuera \<and> kapp c = Ap_afuera \<and>
     ksems c = snd (crear_memoria_distribuida tam) \<and> kcontrol c = crear_control \<and> bufs_ok tam c"

definition ini_dist :: "nat \<Rightarrow> string \<Rightarrow> nat \<Rightarrow> sis_dist \<Rightarrow> bool" where
  "ini_dist base rec tam s \<longleftrightarrow> 0 < base \<and> rec \<noteq> [] \<and> length (dvalor s) = tam \<and>
     dgrupo s = ini_grupo rec tam (dvalor s) \<and> (\<forall>p. cliente_inicial tam (dcli s p))"

lemma inv_dist_ini: "ini_dist base rec tam s \<Longrightarrow> inv_dist base rec tam s"
proof -
  assume i: "ini_dist base rec tam s"
  have g: "inv_grupo base rec (dgrupo s)" using i inv_grupo_ini by (simp add: ini_dist_def)
  have m: "memoria_compartida (ggrupo (dgrupo s)) = dvalor s" and h: "ghs (dgrupo s) p = H_fuera" for p
    using i by (simp_all add: ini_dist_def ini_grupo_def iniciar_grupo_def)
  have "rec \<noteq> []" using i by (simp add: ini_dist_def)
  note nv = nota_vacia [OF this]
  have "cli_ok rec tam (dvalor s) H_fuera (dcli s p)" for p
  proof -
    have "cliente_inicial tam (dcli s p)" using i by (simp add: ini_dist_def)
    then show ?thesis
      using nv by (auto simp: cliente_inicial_def crear_memoria_distribuida_def crear_semset_def crear_control_def
          numeral_2_eq_2 cli_ok_def sems_ok_def nota_ok_def enlace_def datos_ok_def)
  qed
  then show ?thesis using i g m h by (simp add: inv_dist_def ini_dist_def)
qed

datatype accion_dist =
    B_manager | B_join string | B_enviar nat | B_recibir nat "nat list" | B_comparar nat | B_esperar nat
  | B_devolver nat | B_volver nat "nat list" | B_pedir nat | B_entrar nat | B_limpiar nat
  | B_escribir nat "byte list" | B_soltar nat | B_liberar nat | B_ajeno traspaso | B_otro nat string

fun hacer_dist :: "nat \<Rightarrow> string \<Rightarrow> accion_dist \<Rightarrow> sis_dist \<Rightarrow> sis_dist option" where
  "hacer_dist base rec B_manager s =
     (case pull 0 (gmgr (dgrupo s)) of
        Listo ((t, m), q) \<Rightarrow>
          (case manager_turno base rec m ((dgrupo s)\<lparr>gmgr := q\<rparr>) of Some g \<Rightarrow> Some (s\<lparr>dgrupo := g\<rparr>) | None \<Rightarrow> None)
      | _ \<Rightarrow> None)"
| "hacer_dist base rec (B_join n) s =
     (if n = [] \<or> es_localbroker n \<or> registrado n (ggrupo (dgrupo s)) then None
      else case join n (ggrupo (dgrupo s)) of
             Listo (g, Inr (Some p)) \<Rightarrow>
               Some (poner_cli p ((dcli s p)\<lparr>kcom := K_espera\<rparr>) (s\<lparr>dgrupo := fin_join p n g (dgrupo s)\<rparr>))
           | _ \<Rightarrow> None)"
| "hacer_dist base rec (B_enviar p) s =
     (case (ghs (dgrupo s) p, lock_token (base + p) (gcola (dgrupo s))) of
        (H_espera n, Listo (t, q)) \<Rightarrow>
          (case send_token_broker rec False (length (memoria_compartida (ggrupo (dgrupo s))))
                  (memoria_compartida (ggrupo (dgrupo s))) (kbuf_b (dcli s p)) of
             (ms, b) \<Rightarrow> Some (poner_cli p ((dcli s p)\<lparr>kcom := K_ida (concat ms), kbuf_b := b\<rparr>)
                               (s\<lparr>dgrupo := g_bloqueado p q n (dgrupo s)\<rparr>)))
      | _ \<Rightarrow> None)"
| "hacer_dist base rec (B_recibir p cortes) s =
     (case kcom (dcli s p) of
        K_ida red \<Rightarrow>
          (case wait_token True False (length (kcopia (dcli s p))) (kcopia (dcli s p)) (kbuf_c (dcli s p)) red cortes of
             (m, Completo b resto cs) \<Rightarrow> Some (poner_cli p ((dcli s p)\<lparr>kcom := K_recibido, kcopia := m, kbuf_c := b\<rparr>) s)
           | _ \<Rightarrow> None)
      | _ \<Rightarrow> None)"
| "hacer_dist base rec (B_comparar p) s =
     (case (kcom (dcli s p), comparar_token rec (kcontrol (dcli s p))) of
        (K_recibido, Listo (c, True)) \<Rightarrow>
          (case memoria_entregar_token (ksems (dcli s p)) of
             Listo sems \<Rightarrow> Some (poner_cli p ((dcli s p)\<lparr>kcom := K_entregado, ksems := sems, kcontrol := c\<rparr>) s)
           | _ \<Rightarrow> None)
      | (K_recibido, Listo (c, False)) \<Rightarrow> Some (poner_cli p ((dcli s p)\<lparr>kcom := K_devolver, kcontrol := c\<rparr>) s)
      | _ \<Rightarrow> None)"
| "hacer_dist base rec (B_esperar p) s =
     (case (kcom (dcli s p), memoria_esperar_token (ksems (dcli s p))) of
        (K_entregado, Listo sems) \<Rightarrow> Some (poner_cli p ((dcli s p)\<lparr>kcom := K_devolver, ksems := sems\<rparr>) s)
      | _ \<Rightarrow> None)"
| "hacer_dist base rec (B_devolver p) s =
     (case kcom (dcli s p) of
        K_devolver \<Rightarrow>
          (case send_token_cliente False (length (kcopia (dcli s p))) (kcopia (dcli s p)) (kbuf_c (dcli s p)) of
             (ms, b) \<Rightarrow> Some (poner_cli p ((dcli s p)\<lparr>kcom := K_vuelta (concat ms), kbuf_c := b\<rparr>) s))
      | _ \<Rightarrow> None)"
| "hacer_dist base rec (B_volver p cortes) s =
     (case (kcom (dcli s p), ghs (dgrupo s) p) of
        (K_vuelta red, H_token n) \<Rightarrow>
          (case recv_token False True (length (memoria_compartida (ggrupo (dgrupo s))))
                  (memoria_compartida (ggrupo (dgrupo s))) (kbuf_b (dcli s p)) red cortes of
             Listo (m, r, b, resto) \<Rightarrow>
               (if r = 0 then None
                else Some (poner_cli p ((dcli s p)\<lparr>kcom := K_espera, kbuf_b := b\<rparr>)
                      (s\<lparr>dgrupo := g_liberado rec p n (con_memoria m (dgrupo s))\<rparr>)))
           | _ \<Rightarrow> None)
      | _ \<Rightarrow> None)"
| "hacer_dist base rec (B_pedir p) s =
     (case (kapp (dcli s p), cargar_esperando_token rec (kcontrol (dcli s p))) of
        (Ap_afuera, Listo (c, u)) \<Rightarrow> Some (poner_cli p ((dcli s p)\<lparr>kapp := Ap_pide, kcontrol := c\<rparr>) s)
      | _ \<Rightarrow> None)"
| "hacer_dist base rec (B_entrar p) s =
     (case (kapp (dcli s p), wait_on 0 (ksems (dcli s p))) of
        (Ap_pide, Listo sems) \<Rightarrow> Some (poner_cli p ((dcli s p)\<lparr>kapp := Ap_concedido, ksems := sems\<rparr>) s)
      | _ \<Rightarrow> None)"
| "hacer_dist base rec (B_limpiar p) s =
     (case (kapp (dcli s p), limpiar_esperando_token (kcontrol (dcli s p))) of
        (Ap_concedido, Listo (c, u)) \<Rightarrow> Some (poner_cli p ((dcli s p)\<lparr>kapp := Ap_adentro, kcontrol := c\<rparr>) s)
      | _ \<Rightarrow> None)"
| "hacer_dist base rec (B_escribir p m) s =
     (if kapp (dcli s p) = Ap_adentro \<and> length m = length (kcopia (dcli s p))
      then Some (poner_cli p ((dcli s p)\<lparr>kcopia := m\<rparr>) (s\<lparr>dvalor := m\<rparr>)) else None)"
| "hacer_dist base rec (B_soltar p) s =
     (case (kapp (dcli s p), limpiar_esperando_token (kcontrol (dcli s p))) of
        (Ap_adentro, Listo (c, u)) \<Rightarrow> Some (poner_cli p ((dcli s p)\<lparr>kapp := Ap_libera, kcontrol := c\<rparr>) s)
      | _ \<Rightarrow> None)"
| "hacer_dist base rec (B_liberar p) s =
     (case (kapp (dcli s p), signalize 1 (ksems (dcli s p))) of
        (Ap_libera, Listo sems) \<Rightarrow> Some (poner_cli p ((dcli s p)\<lparr>kapp := Ap_afuera, ksems := sems\<rparr>) s)
      | _ \<Rightarrow> None)"
| "hacer_dist base rec (B_ajeno m) s =
     (case push 1 m (gmgr (dgrupo s)) of
        Listo q \<Rightarrow> (if tipo m = 3 \<or> recurso m \<noteq> rec then Some (s\<lparr>dgrupo := (dgrupo s)\<lparr>gmgr := q\<rparr>\<rparr>) else None)
      | _ \<Rightarrow> None)"
| "hacer_dist base rec (B_otro p x) s =
     (case cargar_esperando_token x (kcontrol (dcli s p)) of
        Listo (c, u) \<Rightarrow>
          (if kapp (dcli s p) \<in> {Ap_afuera, Ap_adentro} \<and> \<not> strncmp_igual x rec MAX_NOMBRE_RECURSO
           then Some (poner_cli p ((dcli s p)\<lparr>kcontrol := c\<rparr>) s) else None)
      | _ \<Rightarrow> None)"

lemma hacer_dist_paso: "hacer_dist base rec a s = Some t \<Longrightarrow> paso_dist base rec s t"
  by (cases a) (auto intro: paso_dist.intros
      split: if_splits llamada.splits prod.splits sum.splits option.splits handler.splits comunicacion.splits
        aplicacion.splits bool.splits recepcion.splits)

definition dist_alcanzable :: "nat \<Rightarrow> string \<Rightarrow> nat \<Rightarrow> sis_dist \<Rightarrow> bool" where
  "dist_alcanzable base rec tam = alcanzable (ini_dist base rec tam) (paso_dist base rec)"

interpretation dist: sistema_ejecutable "ini_dist base rec tam" "paso_dist base rec" "inv_dist base rec tam"
    "hacer_dist base rec"
  for base :: nat and rec :: string and tam :: nat
  by unfold_locales (auto intro: inv_dist_ini inv_dist_paso hacer_dist_paso)

lemma dist_alcanzable_inv: "dist_alcanzable base rec tam s \<Longrightarrow> inv_dist base rec tam s"
  unfolding dist_alcanzable_def by (rule dist.inv_alcanzable)

text \<open>Two clients join; the first one gets in and writes.\<close>

definition cliente_ejemplo :: cliente_dist where
  "cliente_ejemplo = \<lparr>kcom = K_fuera, kapp = Ap_afuera, kcopia = [0, 0], ksems = [0, 0], kcontrol = crear_control,
     kbuf_b = buffer_ejemplo, kbuf_c = buffer_ejemplo\<rparr>"

definition dist_ejemplo :: sis_dist where
  "dist_ejemplo = \<lparr>dgrupo = ini_grupo ''m'' 2 [5, 6], dcli = (\<lambda>_. cliente_ejemplo), dvalor = [5, 6]\<rparr>"

definition corrida_dist :: "accion_dist list" where
  "corrida_dist = [B_join ''a'', B_join ''b'', B_manager, B_pedir 1, B_enviar 1, B_recibir 1 [400], B_comparar 1,
     B_entrar 1, B_limpiar 1, B_escribir 1 [8, 9]]"

definition estado_dist :: sis_dist where
  "estado_dist = the (ejecutar (hacer_dist 51 ''m'') corrida_dist dist_ejemplo)"

lemma corrida_dist_valores:
  "case ejecutar (hacer_dist 51 ''m'') corrida_dist dist_ejemplo of
     None \<Rightarrow> False
   | Some s \<Rightarrow> kapp (dcli s 1) = Ap_adentro \<and> dvalor s = [8, 9] \<and> ghs (dgrupo s) 1 = H_token ''b''"
  by code_simp

lemma corrida_dist_ok: "ejecutar (hacer_dist 51 ''m'') corrida_dist dist_ejemplo = Some estado_dist"
  using corrida_dist_valores by (auto simp: estado_dist_def split: option.splits)

lemma estado_dist_valores:
  "kapp (dcli estado_dist 1) = Ap_adentro" "dvalor estado_dist = [8, 9]" "ghs (dgrupo estado_dist) 1 = H_token ''b''"
  using corrida_dist_valores by (simp_all add: corrida_dist_ok)

lemma dist_ejemplo_ini: "ini_dist 51 ''m'' 2 dist_ejemplo"
proof -
  have "take 4 buffer_ejemplo = entero_4 0" by code_simp
  then have "sin_leave buffer_ejemplo" unfolding sin_leave_def by (intro exI [of _ 0]) simp
  then show "ini_dist 51 ''m'' 2 dist_ejemplo"
    by (simp add: ini_dist_def dist_ejemplo_def cliente_inicial_def cliente_ejemplo_def bufs_ok_def
        crear_memoria_distribuida_def crear_semset_def numeral_2_eq_2 buffer_ejemplo_def)
qed

lemma estado_dist_alcanzable: "dist_alcanzable 51 ''m'' 2 estado_dist"
  unfolding dist_alcanzable_def by (rule dist.ejecutar_inicio [OF dist_ejemplo_ini corrida_dist_ok])

text \<open>The same run while the memory travels to the client.\<close>

definition estado_dist_ida :: sis_dist where
  "estado_dist_ida = the (ejecutar (hacer_dist 51 ''m'') (take 5 corrida_dist) dist_ejemplo)"

lemma corrida_dist_ida:
  "case ejecutar (hacer_dist 51 ''m'') (take 5 corrida_dist) dist_ejemplo of
     None \<Rightarrow> False
   | Some s \<Rightarrow> kapp (dcli s 1) = Ap_pide \<and> ghs (dgrupo s) 1 = H_token ''b''"
  by code_simp

lemma estado_dist_ida_ok:
  "dist_alcanzable 51 ''m'' 2 estado_dist_ida" "kapp (dcli estado_dist_ida 1) = Ap_pide"
  "ghs (dgrupo estado_dist_ida) 1 = H_token ''b''"
proof -
  have e: "ejecutar (hacer_dist 51 ''m'') (take 5 corrida_dist) dist_ejemplo = Some estado_dist_ida"
    using corrida_dist_ida by (auto simp: estado_dist_ida_def split: option.splits)
  show "dist_alcanzable 51 ''m'' 2 estado_dist_ida"
    unfolding dist_alcanzable_def by (rule dist.ejecutar_inicio [OF dist_ejemplo_ini e])
  show "kapp (dcli estado_dist_ida 1) = Ap_pide" and "ghs (dgrupo estado_dist_ida) 1 = H_token ''b''"
    using corrida_dist_ida by (simp_all add: e)
qed

section \<open>Progress of the holder\<close>

lemma avanza_comunicacion:
  assumes inv: "inv_dist base rec tam s" and h: "ghs (dgrupo s) p = H_token n"
    and k: "kcom (dcli s p) \<noteq> K_entregado"
  shows "\<exists>t. paso_dist base rec s t \<and> kcom (dcli t p) \<noteq> kcom (dcli s p)"
proof -
  let ?c = "dcli s p" and ?v = "dvalor s" and ?m = "memoria_compartida (ggrupo (dgrupo s))"
  note c = inv_cli [OF inv, of p]
  have v: "length ?v = tam" "length ?m = length ?v" "length (kcopia ?c) = length ?v"
    using inv c by (auto simp: inv_dist_def cli_ok_def bufs_ok_def)
  have b: "length (kbuf_c ?c) = TAMANIO_MENSAJE" "length (kbuf_b ?c) = TAMANIO_MENSAJE" "sin_leave (kbuf_b ?c)"
    using c by (auto simp: cli_ok_def bufs_ok_def)
  have mx: "mutex_control (kcontrol ?c) \<noteq> 0" and sm: "ksems ?c = [0, 0]"
    using c k by (auto simp: cli_ok_def nota_ok_def sems_ok_def)
  show ?thesis
  proof (cases "kcom ?c")
    case (K_ida red)
    then obtain buf ms b' where t: "length buf = TAMANIO_MENSAJE" "send_token_broker rec False (length ?v) ?v buf = (ms, b')"
      "red = concat ms" using c by (auto simp: cli_ok_def datos_ok_def)
    obtain d cs where "copiado (length ms) ?v d"
      "recibir_bloques (\<lambda>_. False) True True (length ?v) 0 (length ms) (kcopia ?c) (kbuf_c ?c) (concat ms @ []) [] =
        (d, Completo (last (kbuf_c ?c # ms)) [] cs)"
      using recibir_bloques_ok [of 0 ?v ms "kbuf_c ?c" "kcopia ?c" "\<lambda>_. False" True "[]" "[]"]
        send_token_broker_ok [OF t(1,2)] b(1) v by (auto simp: copiado_def)
    then have "wait_token True False (length (kcopia ?c)) (kcopia ?c) (kbuf_c ?c) red [] =
        (d, Completo (last (kbuf_c ?c # ms)) [] cs)"
      using send_token_broker_ok(2) [OF t(1,2)] t(3) v by (simp add: wait_token_def)
    from paso_dist.d_recibir [OF K_ida this] show ?thesis using K_ida by fastforce
  next
    case K_recibido
    then show ?thesis
      using paso_dist.d_pasar [OF K_recibido, of rec "kcontrol ?c" base]
        paso_dist.d_entregar [OF K_recibido, of rec "kcontrol ?c" "[1, 0]" base] mx sm
      by (cases "strncmp_igual (token_esperando (kcontrol ?c)) rec MAX_NOMBRE_RECURSO")
        (fastforce simp: paso_simps memoria_entregar_token_def)+
  next
    case K_devolver
    obtain ms b' where "send_token_cliente False (length (kcopia ?c)) (kcopia ?c) (kbuf_c ?c) = (ms, b')" by fastforce
    from paso_dist.d_devolver [OF K_devolver this] show ?thesis using K_devolver by fastforce
  next
    case (K_vuelta red)
    then obtain salir buf ms b' where t: "length buf = TAMANIO_MENSAJE" "send_token_cliente salir (length ?v) ?v buf = (ms, b')"
      "red = concat ms" using c by (auto simp: cli_ok_def datos_ok_def)
    have "recv_token False True (length ?m) ?m (kbuf_b ?c) red [] =
        Listo (?v, cantidad_de_bloques (length ?v) * DATA_SIZE, last ms, [])"
      and "cantidad_de_bloques (length ?v) * DATA_SIZE \<noteq> 0"
      using recv_completo [OF t(1) b(2,3) v(2) t(2), of True "[]" "[]"] t(3) v(2) by simp_all
    from paso_dist.d_volver [OF K_vuelta h this] show ?thesis using K_vuelta by fastforce
  qed (use c h k in \<open>auto simp: cli_ok_def enlace_def\<close>)
qed

lemma avanza_aplicacion:
  assumes inv: "inv_dist base rec tam s" and k: "kcom (dcli s p) = K_entregado" and "kapp (dcli s p) \<noteq> Ap_adentro"
  shows "\<exists>t. paso_dist base rec s t \<and> (kcom (dcli t p) \<noteq> kcom (dcli s p) \<or> kapp (dcli t p) \<noteq> kapp (dcli s p))"
proof -
  let ?c = "dcli s p"
  have mx: "mutex_control (kcontrol ?c) \<noteq> 0" and so: "sems_ok ?c"
    using inv_cli [OF inv, of p] by (auto simp: cli_ok_def nota_ok_def)
  consider "ksems ?c = [1, 0]" "kapp ?c = Ap_pide" | "ksems ?c = [0, 0]" "kapp ?c = Ap_concedido"
    | "ksems ?c = [0, 0]" "kapp ?c = Ap_libera" | "ksems ?c = [0, 1]"
    using so k assms(3) by (auto simp: sems_ok_def)
  then show ?thesis
  proof cases
    case 1
    then show ?thesis using paso_dist.d_entrar [OF 1(2), of "[0, 0]" base rec] by (fastforce simp: paso_simps)
  next
    case 2
    then show ?thesis
      using paso_dist.d_limpiar [OF 2(2), of "(kcontrol ?c)\<lparr>token_esperando := []\<rparr>" base rec] mx
      by (fastforce simp: paso_simps)
  next
    case 3
    then show ?thesis using paso_dist.d_liberar [OF 3(2), of "[0, 1]" base rec] by (fastforce simp: paso_simps)
  next
    case 4
    then show ?thesis using paso_dist.d_esperar [OF k, of "[0, 0]" base rec] k
      by (fastforce simp: paso_simps memoria_esperar_token_def)
  qed
qed

section \<open>Properties\<close>

text \<open>
  C20. The lock of a distributed memory excludes: in every reachable state at most one
  application of the whole network is past its \<^verbatim>\<open>lock()\<close> and before the end of its
  \<^verbatim>\<open>unlock()\<close>, and it is the client that has the group's token.
\<close>

theorem memoria_exclusion:
  assumes "dist_alcanzable base rec tam s"
    and "kapp (dcli s p) \<in> {Ap_concedido, Ap_adentro, Ap_libera}"
  shows "(\<exists>n. ghs (dgrupo s) p = H_token n) \<and>
    (\<forall>q. kapp (dcli s q) \<in> {Ap_concedido, Ap_adentro, Ap_libera} \<longrightarrow> q = p)"
proof -
  note inv = dist_alcanzable_inv [OF assms(1)]
  have tok: "\<exists>n. ghs (dgrupo s) q = H_token n" if "kapp (dcli s q) \<in> {Ap_concedido, Ap_adentro, Ap_libera}" for q
  proof -
    have "kcom (dcli s q) = K_entregado" using adentro_entregado inv_cli [OF inv, of q] that by (simp add: cli_ok_def)
    then show ?thesis using cli_token [OF inv, of q] by auto
  qed
  have g: "inv_grupo base rec (dgrupo s)" using inv by (simp add: inv_dist_def)
  show ?thesis using tok assms(2) un_token [OF g] by blast
qed

theorem memoria_exclusion_witness: "kapp (dcli estado_dist 0) \<noteq> Ap_adentro"
  using memoria_exclusion [OF estado_dist_alcanzable, of 1] estado_dist_valores(1) by force

text \<open>
  C21. A distributed memory is one memory: an application inside the lock sees, byte by byte,
  what was last written in the whole network (or the initial contents); only an application
  inside the lock changes that value, and when nobody has the token the broker's memory holds
  it.
\<close>

theorem memoria_coherente:
  assumes "dist_alcanzable base rec tam s"
  shows "(\<forall>p. kapp (dcli s p) = Ap_adentro \<longrightarrow> kcopia (dcli s p) = dvalor s) \<and>
    (\<forall>t. paso_dist base rec s t \<and> dvalor t \<noteq> dvalor s \<longrightarrow>
       (\<exists>p. kapp (dcli s p) = Ap_adentro \<and> kapp (dcli t p) = Ap_adentro \<and> kcopia (dcli t p) = dvalor t)) \<and>
    ((\<forall>p n. ghs (dgrupo s) p \<noteq> H_token n) \<longrightarrow> memoria_compartida (ggrupo (dgrupo s)) = dvalor s)"
proof (intro conjI allI impI; (elim conjE)?)
  note inv = dist_alcanzable_inv [OF assms]
  show "kcopia (dcli s p) = dvalor s" if "kapp (dcli s p) = Ap_adentro" for p
    using adentro_entregado [of "dcli s p"] inv_cli [OF inv, of p] that by (simp add: cli_ok_def datos_ok_def)
  show "\<exists>p. kapp (dcli s p) = Ap_adentro \<and> kapp (dcli t p) = Ap_adentro \<and> kcopia (dcli t p) = dvalor t"
    if "paso_dist base rec s t" "dvalor t \<noteq> dvalor s" for t
    using that by (induction rule: paso_dist.induct) auto
  show "memoria_compartida (ggrupo (dgrupo s)) = dvalor s" if "\<forall>p n. ghs (dgrupo s) p \<noteq> H_token n"
    using inv that by (simp add: inv_dist_def)
qed

theorem memoria_coherente_witness: "kcopia (dcli estado_dist 1) = [8, 9]"
  using memoria_coherente [OF estado_dist_alcanzable] estado_dist_valores by simp

text \<open>
  C22. The system of a distributed memory refines the group of its token: leaving out the
  bytes of the memory, every state it reaches is a state of the group, whose properties (one
  token, a fair round) hold of it.
\<close>

theorem dist_refina_grupo:
  assumes "dist_alcanzable base rec tam s"
  shows "grupo_alcanzable base rec (con_memoria [] (dgrupo s))"
  using assms unfolding dist_alcanzable_def
proof (induction rule: alcanzable.induct)
  case (inicio s)
  then have "es_ini_grupo rec base (con_memoria [] (dgrupo s))"
    by (auto simp: ini_dist_def es_ini_grupo_def con_memoria_def ini_grupo_def iniciar_grupo_def)
  then show ?case unfolding grupo_alcanzable_def by (rule alcanzable.inicio)
next
  case (avance s t)
  then show ?case
    using paso_dist_olvidar [OF avance(2)] unfolding grupo_alcanzable_def by (metis alcanzable.avance)
qed

theorem dist_refina_grupo_witness:
  "grupo_alcanzable 51 ''m'' (con_memoria [] (dgrupo estado_dist)) \<and> dvalor estado_dist = [8, 9]"
  using dist_refina_grupo [OF estado_dist_alcanzable] estado_dist_valores by simp

text \<open>
  The token is not held but by an application inside its lock: in every reachable state,
  when client \<open>p\<close> has the token and its application is not between \<^verbatim>\<open>lock()\<close> and
  \<^verbatim>\<open>unlock()\<close>, a step that takes the communication process or the application of
  \<open>p\<close> forward is enabled.
\<close>

theorem token_avanza:
  assumes "dist_alcanzable base rec tam s" and "ghs (dgrupo s) p = H_token n" and "kapp (dcli s p) \<noteq> Ap_adentro"
  shows "\<exists>t. paso_dist base rec s t \<and> (kcom (dcli t p) \<noteq> kcom (dcli s p) \<or> kapp (dcli t p) \<noteq> kapp (dcli s p))"
proof -
  note inv = dist_alcanzable_inv [OF assms(1)]
  show ?thesis
    using avanza_comunicacion [OF inv assms(2)] avanza_aplicacion [OF inv _ assms(3)]
    by (cases "kcom (dcli s p) = K_entregado") blast+
qed

theorem token_avanza_witness: "\<exists>t. paso_dist 51 ''m'' estado_dist_ida t"
  using token_avanza [OF estado_dist_ida_ok(1,3)] estado_dist_ida_ok(2) by auto

end
