(* ===== verification/InitParser.thy ===== *)
theory InitParser
  imports Grupo
begin

text \<open>
  The parser of the files that give a group its size and its initial memory:
  \<^verbatim>\<open>local_broker/init_parser.cpp\<close>, and \<^verbatim>\<open>Grupo::inicializar_memoria\<close>, which
  lays the words of a \<^verbatim>\<open>.init\<close> file over the memory of a group. Strings have no NUL;
  \<open>se\<close> is the size in bytes of an \<^verbatim>\<open>Equipaje\<close>, which depends on the compiler.
\<close>

section \<open>Numbers\<close>

definition es_digito :: "char \<Rightarrow> bool" where
  "es_digito c \<longleftrightarrow> c \<in> set ''0123456789''"

definition valor_digito :: "char \<Rightarrow> int" where
  "valor_digito c = int (of_char c) - 48"

text \<open>\<^verbatim>\<open>atoi\<close> on a string of digits with an optional sign; a lone sign or nothing is 0.\<close>

definition numero :: "string \<Rightarrow> int" where
  "numero ds = foldl (\<lambda>n c. n * 10 + valor_digito c) 0 ds"

fun atoi :: "string \<Rightarrow> int" where
  "atoi [] = 0"
| "atoi (c # cs) = (if c = CHR ''-'' then - numero cs else numero (c # cs))"

section \<open>Constants by name\<close>

text \<open>The constants of \<^verbatim>\<open>api/api_constants.h\<close> that the parsers know, in the order each tries them.\<close>

definition tamanio_principal :: "int \<Rightarrow> int" where
  "tamanio_principal se = (8 + 6 + 3) * 4 + se * 10"

definition tamanio_scanner :: "int \<Rightarrow> int" where
  "tamanio_scanner se = 4 * 5 + 10 * se"

definition tamanio_control_scanner :: int where
  "tamanio_control_scanner = 4 * 2 + 4 * 4 * 2"

definition tamanio_carga :: "int \<Rightarrow> int" where
  "tamanio_carga se = 10 * 4 + 4 * (8 + 8) + se * 10"

definition tamanio_checkin :: "int \<Rightarrow> int" where
  "tamanio_checkin se = 8 * 4 + 4 * (4 + 1) + 10 * se"

definition tamanio_zonas :: int where
  "tamanio_zonas = 4 * (10 + 10)"

definition constantes_int :: "int \<Rightarrow> (string \<times> int) list" where
  "constantes_int se =
    [(''CAPACIDAD_CINTA_CHECKIN'', 10), (''CAPACIDAD_CINTA_SCANNER'', 10), (''CAPACIDAD_CINTA_CENTRAL'', 10),
     (''CANTIDAD_MAX_PRODUCTORES_CINTA_CHECKIN'', 4), (''CANTIDAD_MAX_CONSUMIDORES_CINTA_CHECKIN'', 1),
     (''CANTIDAD_MAX_PRODUCTORES_CINTA_SCANNER'', 1), (''CANTIDAD_MAX_CONSUMIDORES_CINTA_SCANNER'', 1),
     (''CANTIDAD_MAX_PRODUCTORES_CINTA_CONTENEDOR'', 1), (''CANTIDAD_MAX_CONSUMIDORES_CINTA_CONTENEDOR'', 1),
     (''CANTIDAD_MAX_PRODUCTORES_CINTA_CENTRAL'', 6), (''CANTIDAD_MAX_CONSUMIDORES_CINTA_CENTRAL'', 3),
     (''CANTIDAD_MAX_CINTAS_CONTENEDOR'', 8), (''CAPACIDAD_CINTA_CONTENEDOR'', 10), (''MAX_SCANNERS'', 4),
     (''ZONAS_POR_ROBOT_DESPACHO'', 2), (''MAX_ROBOTS_INTERCARGO_ESPERANDO_POR_ZONAS'', 10), (''MAX_CLIENTS'', 50),
     (''TAMANIO_MEMORIA_CINTA_PRINCIPAL'', tamanio_principal se), (''TAMANIO_MEMORIA_CINTA_SCANNER'', tamanio_scanner se),
     (''TAMANIO_MEMORIA_CONTROL_CINTA_SCANNER'', tamanio_control_scanner), (''TAMANIO_MEMORIA_CINTA_CARGA'', tamanio_carga se),
     (''TAMANIO_MEMORIA_CINTA_CHECKIN'', tamanio_checkin se), (''TAMANIO_MEMORIA_ZONAS_ASIGNADAS'', tamanio_zonas),
     (''MAX_INTERCARGOS_ESPERANDO'', 10), (''CANT_MUTEX_CENTRAL'', 1), (''Q_ZONAS'', 6), (''Q_PUESTOS_CHECKIN'', 5),
     (''Q_CONTENEDORES'', 4), (''Q_TRASBORDO_LISTO'', 3), (''Q_CHECKINS_CERRADO'', 2), (''Q_CHECKINS_HABILITADOS'', 1),
     (''MTX_CENTRAL'', 0)]"

definition constantes_size_t :: "int \<Rightarrow> (string \<times> int) list" where
  "constantes_size_t se =
    [(''CAPACIDAD_CINTA_CHECKIN'', 10), (''CAPACIDAD_CINTA_SCANNER'', 10), (''CAPACIDAD_CINTA_CENTRAL'', 10),
     (''CANTIDAD_MAX_PRODUCTORES_CINTA_CHECKIN'', 4), (''CANTIDAD_MAX_CONSUMIDORES_CINTA_CHECKIN'', 1),
     (''CANTIDAD_MAX_PRODUCTORES_CINTA_SCANNER'', 1), (''CANTIDAD_MAX_CONSUMIDORES_CINTA_SCANNER'', 1),
     (''CANTIDAD_MAX_PRODUCTORES_CINTA_CONTENEDOR'', 1), (''CANTIDAD_MAX_CONSUMIDORES_CINTA_CONTENEDOR'', 1),
     (''CANTIDAD_MAX_PRODUCTORES_CINTA_CENTRAL'', 6), (''CANTIDAD_MAX_CONSUMIDORES_CINTA_CENTRAL'', 3),
     (''CANTIDAD_MAX_CINTAS_CONTENEDOR'', 8), (''CAPACIDAD_CINTA_CONTENEDOR'', 10),
     (''TAMANIO_MEMORIA_CINTA_PRINCIPAL'', tamanio_principal se), (''TAMANIO_MEMORIA_CINTA_SCANNER'', tamanio_scanner se),
     (''TAMANIO_MEMORIA_CONTROL_CINTA_SCANNER'', tamanio_control_scanner), (''TAMANIO_MEMORIA_CINTA_CARGA'', tamanio_carga se),
     (''TAMANIO_MEMORIA_CINTA_CHECKIN'', tamanio_checkin se), (''TAMANIO_MEMORIA_ZONAS_ASIGNADAS'', tamanio_zonas),
     (''MAX_SCANNERS'', 4), (''ZONAS_POR_ROBOT_DESPACHO'', 2), (''MAX_ROBOTS_INTERCARGO_ESPERANDO_POR_ZONAS'', 10),
     (''MAX_CLIENTS'', 50), (''MAX_INTERCARGOS_ESPERANDO'', 10), (''CANT_MUTEX_CENTRAL'', 1), (''Q_ZONAS'', 6),
     (''Q_PUESTOS_CHECKIN'', 5), (''Q_CONTENEDORES'', 4), (''Q_TRASBORDO_LISTO'', 3), (''Q_CHECKINS_CERRADO'', 2),
     (''Q_CHECKINS_HABILITADOS'', 1), (''MTX_CENTRAL'', 0)]"

text \<open>Digits to the end are a number; otherwise a known name, or 0.\<close>

definition sin_signo :: "string \<Rightarrow> string" where
  "sin_signo val = (case val of [] \<Rightarrow> [] | c # cs \<Rightarrow> if c = CHR ''-'' then cs else val)"

definition parse_int_val :: "int \<Rightarrow> string \<Rightarrow> int" where
  "parse_int_val se val =
     (if dropWhile es_digito (sin_signo val) = [] then atoi val
      else case map_of (constantes_int se) val of Some v \<Rightarrow> v | None \<Rightarrow> 0)"

definition parse_size_t_val :: "int \<Rightarrow> string \<Rightarrow> int" where
  "parse_size_t_val se val =
     (if dropWhile es_digito val = [] then atoi val
      else case map_of (constantes_size_t se) val of Some v \<Rightarrow> v | None \<Rightarrow> 0)"

section \<open>A line\<close>

text \<open>
  The fields of the parser keep what the line before left (at first, anything);
  \<open>tipo_valor\<close> is the enumeration \<^verbatim>\<open>T_TYPE\<close>, whose only value is 0. The scans for a
  blank and for the end of the bounds have no test for the end of the line.
\<close>

definition T_INT :: int where
  "T_INT = 0"

record init_parser =
  valor_int :: int
  cant_vector :: int
  tipo_valor :: int

definition is_vector :: "init_parser \<Rightarrow> bool" where
  "is_vector p \<longleftrightarrow> cant_vector p = 1"

definition parse_type :: "string \<Rightarrow> init_parser \<Rightarrow> init_parser" where
  "parse_type t p = (if t = ''int'' then p\<lparr>tipo_valor := T_INT\<rparr> else p)"

definition saltear :: "string \<Rightarrow> string" where
  "saltear s = dropWhile (\<lambda>c. c = CHR '' '') s"

definition partir_vector :: "string \<Rightarrow> (string option \<times> string) llamada" where
  "partir_vector r =
     (case r of
        [] \<Rightarrow> Listo (None, r)
      | c # cuerpo \<Rightarrow>
          (if c = CHR ''['' then
             (case dropWhile (\<lambda>x. x \<noteq> CHR '' '' \<and> x \<noteq> CHR '']'') cuerpo of
                [] \<Rightarrow> Fallo Fuera_de_rango
              | _ # resto \<Rightarrow> Listo (Some (takeWhile (\<lambda>x. x \<noteq> CHR '' '' \<and> x \<noteq> CHR '']'') cuerpo), saltear resto))
           else Listo (None, r)))"

definition parse_line :: "int \<Rightarrow> string \<Rightarrow> init_parser \<Rightarrow> init_parser llamada" where
  "parse_line se line p =
     (if CHR '' '' \<notin> set line then Fallo Fuera_de_rango
      else case partir_vector (saltear (dropWhile (\<lambda>c. c \<noteq> CHR '' '') line)) of
             Fallo e \<Rightarrow> Fallo e
           | Bloqueado \<Rightarrow> Bloqueado
           | Listo (vector, valor) \<Rightarrow>
               (let p1 = parse_type (takeWhile (\<lambda>c. c \<noteq> CHR '' '') line) p;
                    p2 = p1\<lparr>cant_vector := (case vector of None \<Rightarrow> 1 | Some v \<Rightarrow> parse_int_val se v)\<rparr>
                in Listo (if tipo_valor p2 = T_INT then p2\<lparr>valor_int := parse_int_val se valor\<rparr> else p2)))"

section \<open>A file\<close>

text \<open>
  The lines \<^verbatim>\<open>fscanf\<close> gives: the first one is skipped; after each one, all white space
  is. A line of 100 characters does not fit in \<^verbatim>\<open>data\<close>.
\<close>

definition espacio :: "char \<Rightarrow> bool" where
  "espacio c \<longleftrightarrow> c \<in> {CHR '' '', CHR 0x09, CHR 0x0A, CHR 0x0B, CHR 0x0C, CHR 0x0D}"

function lineas :: "string \<Rightarrow> string list" where
  "lineas s =
     (case dropWhile espacio s of
        [] \<Rightarrow> []
      | c # cs \<Rightarrow> takeWhile (\<lambda>x. x \<noteq> CHR 0x0A) (c # cs) # lineas (dropWhile (\<lambda>x. x \<noteq> CHR 0x0A) (c # cs)))"
  by pat_completeness auto
termination
proof (relation "measure length", simp)
  fix s c cs
  assume d: "dropWhile espacio s = c # cs"
  then have "\<not> espacio c" using hd_dropWhile [of espacio s] by simp
  then have "c \<noteq> CHR 0x0A" by (auto simp: espacio_def)
  then have "length (dropWhile (\<lambda>x. x \<noteq> CHR 0x0A) (c # cs)) \<le> length cs" by (simp add: length_dropWhile_le)
  also have "\<dots> < length (c # cs)" by simp
  also have "\<dots> \<le> length s" using length_dropWhile_le [of espacio s] d by simp
  finally show "(dropWhile (\<lambda>x. x \<noteq> CHR 0x0A) (c # cs), s) \<in> measure length" by simp
qed

declare lineas.simps [simp del]

definition lineas_init :: "string \<Rightarrow> string list" where
  "lineas_init texto = lineas (dropWhile (\<lambda>c. c \<noteq> CHR 0x0A) texto)"

text \<open>The words the loop of \<^verbatim>\<open>inicializar_memoria\<close> lays down, in order.\<close>

fun palabras_de :: "int \<Rightarrow> string list \<Rightarrow> init_parser \<Rightarrow> int list llamada" where
  "palabras_de se [] p = Listo []"
| "palabras_de se (l # ls) p =
     (if 100 \<le> length l then Fallo Fuera_de_rango
      else case parse_line se l p of
             Fallo e \<Rightarrow> Fallo e
           | Bloqueado \<Rightarrow> Bloqueado
           | Listo p' \<Rightarrow>
               (case palabras_de se ls p' of
                  Listo ws \<Rightarrow>
                    Listo ((if tipo_valor p' = T_INT then replicate (nat (cant_vector p')) (valor_int p') else []) @ ws)
                | r \<Rightarrow> r))"

text \<open>
  The memory of the group is \<open>palabras\<close>, words of four bytes. A file that does not exist is
  an error; nothing checks that the words fit.
\<close>

definition inicializar_memoria :: "int \<Rightarrow> string option \<Rightarrow> init_parser \<Rightarrow> nat \<Rightarrow> int list \<Rightarrow> int list llamada" where
  "inicializar_memoria se archivo p tamanio palabras =
     (if tamanio = 0 then Listo palabras
      else case archivo of
             None \<Rightarrow> Fallo GenericError
           | Some texto \<Rightarrow>
               (case palabras_de se (lineas_init texto) p of
                  Listo ws \<Rightarrow> (if 4 * length ws \<le> tamanio then Listo (ws @ drop (length ws) palabras)
                               else Fallo Fuera_de_rango)
                | r \<Rightarrow> r))"

section \<open>Numbers read back\<close>

text \<open>The decimal form of a number, as \<^verbatim>\<open>printf\<close> writes it.\<close>

definition digito :: "nat \<Rightarrow> char" where
  "digito d = ''0123456789'' ! d"

fun decimal :: "nat \<Rightarrow> string" where
  "decimal n = (if n < 10 then [digito n] else decimal (n div 10) @ [digito (n mod 10)])"

declare decimal.simps [simp del]

lemma digito_ok: "d < 10 \<Longrightarrow> es_digito (digito d) \<and> valor_digito (digito d) = int d \<and> digito d \<noteq> CHR ''-''"
proof -
  assume "d < 10"
  then have "d = 0 \<or> d = 1 \<or> d = 2 \<or> d = 3 \<or> d = 4 \<or> d = 5 \<or> d = 6 \<or> d = 7 \<or> d = 8 \<or> d = 9" by auto
  then show ?thesis by (elim disjE) (simp_all add: digito_def es_digito_def valor_digito_def)
qed

lemma decimal_ok: "list_all es_digito (decimal n) \<and> numero (decimal n) = int n \<and> decimal n \<noteq> [] \<and> hd (decimal n) \<noteq> CHR ''-''"
proof (induction n rule: decimal.induct)
  case (1 n)
  show ?case
  proof (cases "n < 10")
    case True
    then show ?thesis using digito_ok [of n] by (simp add: decimal.simps [of n] numero_def)
  next
    case False
    note h = 1 [OF False]
    have "numero (decimal (n div 10)) * 10 + int (n mod 10) = int n"
      using h by (simp add: zdiv_int [symmetric] zmod_int [symmetric]) presburger
    then show ?thesis using h False digito_ok [of "n mod 10"] by (simp add: decimal.simps [of n] numero_def)
  qed
qed

lemma dropWhile_digitos: "list_all es_digito ds \<Longrightarrow> dropWhile es_digito ds = []"
  by (induction ds) auto

lemma parse_int_decimal: "parse_int_val se (decimal n) = int n"
proof -
  obtain c cs where d: "decimal n = c # cs" using decimal_ok [of n] by (cases "decimal n") auto
  then have "c \<noteq> CHR ''-''" and "numero (c # cs) = int n" and "list_all es_digito (c # cs)"
    using decimal_ok [of n] by auto
  then show ?thesis unfolding d using dropWhile_digitos [of "c # cs"] by (simp add: parse_int_val_def sin_signo_def)
qed

lemma parse_int_negativo: "parse_int_val se (CHR ''-'' # decimal n) = - int n"
  using decimal_ok [of n] dropWhile_digitos [of "decimal n"] by (simp add: parse_int_val_def sin_signo_def)

lemma constantes_orden:
  "constantes_size_t se = take 13 (constantes_int se) @ take 6 (drop 17 (constantes_int se)) @
     take 4 (drop 13 (constantes_int se)) @ drop 23 (constantes_int se)"
  by (simp add: constantes_int_def constantes_size_t_def)

lemma constantes_distintas: "distinct (map fst (constantes_int se))"
  by (simp add: constantes_int_def)

lemma map_of_intercambio:
  assumes "distinct (map fst (a @ b @ c @ d))"
  shows "map_of (a @ c @ b @ d) = map_of (a @ b @ c @ d)"
  using assms by (intro map_of_inject_set [THEN iffD2]) auto

lemma constantes_iguales: "map_of (constantes_int se) = map_of (constantes_size_t se)"
proof -
  let ?L = "constantes_int se"
  have p: "take 13 ?L @ take 4 (drop 13 ?L) @ take 6 (drop 17 ?L) @ drop 23 ?L = ?L"
    by (simp add: constantes_int_def)
  then show ?thesis
    using map_of_intercambio [of "take 13 ?L" "take 4 (drop 13 ?L)" "take 6 (drop 17 ?L)" "drop 23 ?L"]
      constantes_distintas [of se] constantes_orden [of se] by metis
qed

lemma constantes_sin_signo: "map_of (constantes_size_t se) (CHR ''-'' # v) = None"
  by (simp add: constantes_size_t_def)

section \<open>Properties\<close>

text \<open>
  The two parsers of values agree: \<^verbatim>\<open>parse_size_t_val\<close>, which tries the names in
  another order, gives what \<^verbatim>\<open>parse_int_val\<close> gives on every string, but for those that
  start with a minus sign, where it gives 0; and both read back the decimal form of a number.
\<close>

theorem parse_equivale:
  "parse_size_t_val se val = (if \<exists>cs. val = CHR ''-'' # cs then 0 else parse_int_val se val) \<and>
   parse_size_t_val se (decimal n) = int n \<and> parse_int_val se (decimal n) = int n \<and>
   parse_int_val se (CHR ''-'' # decimal n) = - int n"
proof -
  have e: "parse_size_t_val se v = (if \<exists>cs. v = CHR ''-'' # cs then 0 else parse_int_val se v)" for v
  proof (cases "\<exists>cs. v = CHR ''-'' # cs")
    case True
    then obtain cs where v: "v = CHR ''-'' # cs" by blast
    have "dropWhile es_digito v = v" by (simp add: v es_digito_def)
    moreover have "map_of (constantes_size_t se) v = None" unfolding v by (rule constantes_sin_signo)
    ultimately show ?thesis using True by (simp add: parse_size_t_val_def v)
  next
    case False
    then have "sin_signo v = v" by (cases v) (auto simp: sin_signo_def)
    then show ?thesis using False by (simp add: parse_size_t_val_def parse_int_val_def constantes_iguales)
  qed
  have "\<nexists>cs. decimal n = CHR ''-'' # cs" using decimal_ok [of n] by auto
  then show ?thesis using e parse_int_decimal parse_int_negativo by simp
qed

end
