(* ===== verification/Arranque.thy ===== *)
theory Arranque
  imports InitParser CintaContenedor CintaCentral CintaEscaner
begin

text \<open>
  How the shared memory comes up: the \<^verbatim>\<open>.init\<close> files of \<^verbatim>\<open>local_broker/locks\<close>
  laid over the memory of the groups, and \<^verbatim>\<open>TokenManager\<close>'s reckoning of the segment
  and creation of the groups as clients ask for them
  (\<^verbatim>\<open>local_broker/token_manager.cpp\<close>). The list of groups is given as its entries.
\<close>

section \<open>The initial contents of the belts\<close>

definition renglones :: "string list \<Rightarrow> string" where
  "renglones ls = concat (map (\<lambda>l. l @ [CHR 0x0A]) ls)"

definition init_cinta_checkin :: string where
  "init_cinta_checkin = renglones [''/*Archivo Inicializacion Memoria Cinta Scanner*/'',
     ''int CAPACIDAD_CINTA_CHECKIN'', ''int 0'', ''int 0'', ''int 0'', ''int CANTIDAD_MAX_PRODUCTORES_CINTA_CHECKIN'',
     ''int CANTIDAD_MAX_CONSUMIDORES_CINTA_CHECKIN'', ''int 0'', ''int 0'',
     ''int [CANTIDAD_MAX_PRODUCTORES_CINTA_CHECKIN] 0''] @ ''int [CANTIDAD_MAX_CONSUMIDORES_CINTA_CHECKIN] 0''"

definition init_cinta_principal :: string where
  "init_cinta_principal = renglones [''/*Archivo Inicializacion Memoria Cinta Principal*/'',
     ''int CAPACIDAD_CINTA_CENTRAL'', ''int 0'', ''int 0'', ''int 0'', ''int CANTIDAD_MAX_PRODUCTORES_CINTA_CENTRAL'',
     ''int CANTIDAD_MAX_CONSUMIDORES_CINTA_CENTRAL'', ''int 0'', ''int 0'',
     ''int [CANTIDAD_MAX_PRODUCTORES_CINTA_CENTRAL] 0'']"

definition init_cinta_contenedor :: string where
  "init_cinta_contenedor = renglones [''/*Archivo Inicializacion Memoria Cinta Scanner*/'',
     ''int CAPACIDAD_CINTA_CONTENEDOR'', ''int 0'', ''int 0'', ''int 0'', ''int CANTIDAD_MAX_CINTAS_CONTENEDOR'',
     ''int CANTIDAD_MAX_CINTAS_CONTENEDOR'', ''int 0'', ''int 0'', ''int 0'', ''int 0'',
     ''int [CANTIDAD_MAX_CINTAS_CONTENEDOR] 0'', ''int [CANTIDAD_MAX_CINTAS_CONTENEDOR] 0'']"

definition init_cinta_escaner :: string where
  "init_cinta_escaner = renglones [''/*Archivo Inicializacion Memoria Cinta Scanner*/'',
     ''int CAPACIDAD_CINTA_SCANNER'', ''int 0'', ''int 0'', ''int 0''] @ ''int 0''"

definition init_cinta_escaner_control :: string where
  "init_cinta_escaner_control = renglones [''/*Archivo Inicializacion Memoria Control Cinta Escaner*/'',
     ''int 0'', ''int [MAX_SCANNERS] 0'', ''int [MAX_SCANNERS] -1''] @ ''int 0''"

lemmas init_archivos = init_cinta_checkin_def init_cinta_principal_def init_cinta_contenedor_def
  init_cinta_escaner_def init_cinta_escaner_control_def

section \<open>The segment of the groups\<close>

record entrada_grupo =
  nombre_grupo :: string
  tamanio_grupo :: string
  valor_inicial :: int

text \<open>
  \<^verbatim>\<open>fscanf\<close> writes the name and the size of a line, each with its terminator, into arrays
  of \<^verbatim>\<open>MAX_NOMBRE_RECURSO\<close> and 200 characters. The size, an \<^verbatim>\<open>int\<close>, is added and passed as
  a \<^verbatim>\<open>size_t\<close>: a negative one wraps.
\<close>

definition cabe_entrada :: "entrada_grupo \<Rightarrow> bool" where
  "cabe_entrada e \<longleftrightarrow> length (nombre_grupo e) < MAX_NOMBRE_RECURSO \<and> length (tamanio_grupo e) < 200"

definition tam_entrada :: "int \<Rightarrow> entrada_grupo \<Rightarrow> nat" where
  "tam_entrada se e = a_size_t (parse_int_val se (tamanio_grupo e))"

definition memoria_total :: "int \<Rightarrow> entrada_grupo list \<Rightarrow> nat" where
  "memoria_total se es = a_size_t (int ((\<Sum>e \<leftarrow> es. tam_entrada se e) + TAMANIO_TABLA_CLIENTES * length es))"

definition chequear_memoria_disponible :: "int \<Rightarrow> nat \<Rightarrow> entrada_grupo list \<Rightarrow> falla + nat \<times> nat" where
  "chequear_memoria_disponible se shmmax es =
     (if \<not> list_all cabe_entrada es then Inl Fuera_de_rango
      else if memoria_total se es > shmmax \<or> length es > 128 then Inl GenericError
      else Inr (memoria_total se es, length es))"

text \<open>The segment the master constructor asks for.\<close>

definition tamanio_segmento :: "int \<Rightarrow> entrada_grupo list \<Rightarrow> nat" where
  "tamanio_segmento se es = a_size_t (int (memoria_total se es + TAMANIO_TABLA_GRUPOS_CREADOS))"

text \<open>
  \<^verbatim>\<open>crear_grupo\<close> reads the file up to the line of the name; an unknown one is only logged.
  When the initial value of the group is 1 its token goes to the manager's own queue.
\<close>

fun buscar_entrada :: "string \<Rightarrow> entrada_grupo list \<Rightarrow> entrada_grupo option llamada" where
  "buscar_entrada nombre [] = Listo None"
| "buscar_entrada nombre (e # es) =
     (if \<not> cabe_entrada e then Fallo Fuera_de_rango
      else if nombre_grupo e = nombre then Listo (Some e) else buscar_entrada nombre es)"

definition manager_crear_grupo ::
  "int \<Rightarrow> entrada_grupo list \<Rightarrow> string \<Rightarrow> tabla_grupos \<times> traspaso cola \<Rightarrow> (tabla_grupos \<times> traspaso cola) llamada" where
  "manager_crear_grupo se es nombre s =
     (case buscar_entrada nombre es of
        Listo None \<Rightarrow> Listo s
      | Listo (Some e) \<Rightarrow>
          (case crear_grupo nombre (tam_entrada se e) (fst s) of
             Listo (t, pos) \<Rightarrow> Listo (t, if valor_inicial e = 1 then release_token nombre (snd s) else snd s)
           | Bloqueado \<Rightarrow> Bloqueado
           | Fallo f \<Rightarrow> Fallo f)
      | Bloqueado \<Rightarrow> Bloqueado
      | Fallo f \<Rightarrow> Fallo f)"

text \<open>A message of type 3, and a sequence of them.\<close>

definition manager_pedido ::
  "int \<Rightarrow> entrada_grupo list \<Rightarrow> string \<Rightarrow> tabla_grupos \<times> traspaso cola \<Rightarrow> (tabla_grupos \<times> traspaso cola) llamada" where
  "manager_pedido se es nombre s = (if existe_grupo nombre (fst s) then Listo s else manager_crear_grupo se es nombre s)"

fun manager_pedidos ::
  "int \<Rightarrow> entrada_grupo list \<Rightarrow> string list \<Rightarrow> tabla_grupos \<times> traspaso cola \<Rightarrow> (tabla_grupos \<times> traspaso cola) llamada" where
  "manager_pedidos se es [] s = Listo s"
| "manager_pedidos se es (n # ns) s =
     (case manager_pedido se es n s of Listo s' \<Rightarrow> manager_pedidos se es ns s' | r \<Rightarrow> r)"

section \<open>The lines of the files\<close>

lemma parse_line_simple:
  assumes "c \<noteq> CHR ''[''" and "c \<noteq> CHR '' ''"
  shows "parse_line se (CHR ''i'' # CHR ''n'' # CHR ''t'' # CHR '' '' # c # v) p =
    Listo \<lparr>valor_int = parse_int_val se (c # v), cant_vector = 1, tipo_valor = T_INT\<rparr>"
  using assms by (simp add: parse_line_def saltear_def partir_vector_def parse_type_def Let_def)

lemma parse_line_vector:
  assumes "\<forall>x \<in> set v. x \<noteq> CHR '' '' \<and> x \<noteq> CHR '']''" and "c \<noteq> CHR '' ''"
  shows "parse_line se (CHR ''i'' # CHR ''n'' # CHR ''t'' # CHR '' '' # CHR ''['' # v @ CHR '']'' # CHR '' '' # c # w) p =
    Listo \<lparr>valor_int = parse_int_val se (c # w), cant_vector = parse_int_val se v, tipo_valor = T_INT\<rparr>"
proof -
  have "dropWhile (\<lambda>x. x \<noteq> CHR '' '' \<and> x \<noteq> CHR '']'') (v @ CHR '']'' # r) = CHR '']'' # r"
    and "takeWhile (\<lambda>x. x \<noteq> CHR '' '' \<and> x \<noteq> CHR '']'') (v @ CHR '']'' # r) = v" for r
    using assms(1) by (simp_all add: dropWhile_append3 takeWhile_append2 cong: dropWhile_cong)
  then show ?thesis using assms(2) by (simp add: parse_line_def saltear_def partir_vector_def parse_type_def Let_def)
qed

lemma valores_init:
  "parse_int_val se ''0'' = 0" "parse_int_val se ''-1'' = -1" "parse_int_val se ''CAPACIDAD_CINTA_CHECKIN'' = 10"
  "parse_int_val se ''CAPACIDAD_CINTA_CENTRAL'' = 10" "parse_int_val se ''CAPACIDAD_CINTA_CONTENEDOR'' = 10"
  "parse_int_val se ''CAPACIDAD_CINTA_SCANNER'' = 10" "parse_int_val se ''CANTIDAD_MAX_PRODUCTORES_CINTA_CHECKIN'' = 4"
  "parse_int_val se ''CANTIDAD_MAX_CONSUMIDORES_CINTA_CHECKIN'' = 1"
  "parse_int_val se ''CANTIDAD_MAX_PRODUCTORES_CINTA_CENTRAL'' = 6"
  "parse_int_val se ''CANTIDAD_MAX_CONSUMIDORES_CINTA_CENTRAL'' = 3"
  "parse_int_val se ''CANTIDAD_MAX_CINTAS_CONTENEDOR'' = 8" "parse_int_val se ''MAX_SCANNERS'' = 4"
  by (simp_all add: parse_int_val_def sin_signo_def es_digito_def constantes_int_def numero_def valor_digito_def)

lemma lineas_vector:
  "parse_line se ''int [CANTIDAD_MAX_PRODUCTORES_CINTA_CHECKIN] 0'' p = Listo \<lparr>valor_int = 0, cant_vector = 4, tipo_valor = T_INT\<rparr>"
  "parse_line se ''int [CANTIDAD_MAX_CONSUMIDORES_CINTA_CHECKIN] 0'' p = Listo \<lparr>valor_int = 0, cant_vector = 1, tipo_valor = T_INT\<rparr>"
  "parse_line se ''int [CANTIDAD_MAX_PRODUCTORES_CINTA_CENTRAL] 0'' p = Listo \<lparr>valor_int = 0, cant_vector = 6, tipo_valor = T_INT\<rparr>"
  "parse_line se ''int [CANTIDAD_MAX_CINTAS_CONTENEDOR] 0'' p = Listo \<lparr>valor_int = 0, cant_vector = 8, tipo_valor = T_INT\<rparr>"
  "parse_line se ''int [MAX_SCANNERS] 0'' p = Listo \<lparr>valor_int = 0, cant_vector = 4, tipo_valor = T_INT\<rparr>"
  "parse_line se ''int [MAX_SCANNERS] -1'' p = Listo \<lparr>valor_int = -1, cant_vector = 4, tipo_valor = T_INT\<rparr>"
  using parse_line_vector [of "''CANTIDAD_MAX_PRODUCTORES_CINTA_CHECKIN''" "CHR ''0''" se "[]" p]
    parse_line_vector [of "''CANTIDAD_MAX_CONSUMIDORES_CINTA_CHECKIN''" "CHR ''0''" se "[]" p]
    parse_line_vector [of "''CANTIDAD_MAX_PRODUCTORES_CINTA_CENTRAL''" "CHR ''0''" se "[]" p]
    parse_line_vector [of "''CANTIDAD_MAX_CINTAS_CONTENEDOR''" "CHR ''0''" se "[]" p]
    parse_line_vector [of "''MAX_SCANNERS''" "CHR ''0''" se "[]" p]
    parse_line_vector [of "''MAX_SCANNERS''" "CHR ''-''" se "''1''" p]
  by (simp_all add: valores_init)

lemma lineas_archivos:
  "lineas_init init_cinta_checkin = [''int CAPACIDAD_CINTA_CHECKIN'', ''int 0'', ''int 0'', ''int 0'',
     ''int CANTIDAD_MAX_PRODUCTORES_CINTA_CHECKIN'', ''int CANTIDAD_MAX_CONSUMIDORES_CINTA_CHECKIN'', ''int 0'', ''int 0'',
     ''int [CANTIDAD_MAX_PRODUCTORES_CINTA_CHECKIN] 0'', ''int [CANTIDAD_MAX_CONSUMIDORES_CINTA_CHECKIN] 0'']"
  "lineas_init init_cinta_principal = [''int CAPACIDAD_CINTA_CENTRAL'', ''int 0'', ''int 0'', ''int 0'',
     ''int CANTIDAD_MAX_PRODUCTORES_CINTA_CENTRAL'', ''int CANTIDAD_MAX_CONSUMIDORES_CINTA_CENTRAL'', ''int 0'', ''int 0'',
     ''int [CANTIDAD_MAX_PRODUCTORES_CINTA_CENTRAL] 0'']"
  "lineas_init init_cinta_contenedor = [''int CAPACIDAD_CINTA_CONTENEDOR'', ''int 0'', ''int 0'', ''int 0'',
     ''int CANTIDAD_MAX_CINTAS_CONTENEDOR'', ''int CANTIDAD_MAX_CINTAS_CONTENEDOR'', ''int 0'', ''int 0'', ''int 0'',
     ''int 0'', ''int [CANTIDAD_MAX_CINTAS_CONTENEDOR] 0'', ''int [CANTIDAD_MAX_CINTAS_CONTENEDOR] 0'']"
  "lineas_init init_cinta_escaner = [''int CAPACIDAD_CINTA_SCANNER'', ''int 0'', ''int 0'', ''int 0'', ''int 0'']"
  "lineas_init init_cinta_escaner_control = [''int 0'', ''int [MAX_SCANNERS] 0'', ''int [MAX_SCANNERS] -1'', ''int 0'']"
  by code_simp+

lemmas palabras_simps = lineas_archivos lineas_vector parse_line_simple valores_init T_INT_def

section \<open>The blocks of the groups\<close>

definition bloque_de :: "int \<Rightarrow> entrada_grupo \<Rightarrow> nat" where
  "bloque_de se e = tam_entrada se e + TAMANIO_TABLA_CLIENTES"

text \<open>
  A list of groups a manager can serve: its names are distinct and not empty, they and the sizes
  fit in the arrays that read them, and the sizes are not negative.
\<close>

definition entradas_ok :: "int \<Rightarrow> entrada_grupo list \<Rightarrow> bool" where
  "entradas_ok se es \<longleftrightarrow> distinct (map nombre_grupo es) \<and>
     (\<forall>e \<in> set es. nombre_grupo e \<noteq> [] \<and> cabe_entrada e \<and>
        0 \<le> parse_int_val se (tamanio_grupo e) \<and> parse_int_val se (tamanio_grupo e) < 2 ^ 31)"

lemma entradas_okD:
  assumes "entradas_ok se es" and "e \<in> set es"
  shows "nombre_grupo e \<noteq> []" and "length (nombre_grupo e) \<le> MAX_NOMBRE_RECURSO"
    and "int (tam_entrada se e) = parse_int_val se (tamanio_grupo e)" and "bloque_de se e \<le> 2 ^ 32"
proof -
  have e: "nombre_grupo e \<noteq> [] \<and> cabe_entrada e \<and>
      0 \<le> parse_int_val se (tamanio_grupo e) \<and> parse_int_val se (tamanio_grupo e) < 2 ^ 31"
    using assms by (simp add: entradas_ok_def)
  then show "nombre_grupo e \<noteq> []" "length (nombre_grupo e) \<le> MAX_NOMBRE_RECURSO" by (auto simp: cabe_entrada_def)
  show t: "int (tam_entrada se e) = parse_int_val se (tamanio_grupo e)"
    unfolding tam_entrada_def by (rule a_size_t_igual) (use e in auto)
  then have "int (tam_entrada se e) < 2 ^ 31" using e by simp
  then show "bloque_de se e \<le> 2 ^ 32"
    by (simp add: bloque_de_def TAMANIO_TABLA_CLIENTES_def MAX_NOMBRE_RECURSO_def MAX_CLIENTS_def)
qed

text \<open>The blocks of at most 127 groups are far from the end of the type.\<close>

lemma bloques_chicos:
  assumes "\<forall>e \<in> set cs. bloque_de se e \<le> 2 ^ 32" and "length cs < MAX_GRUPOS"
  shows "TAMANIO_TABLA_GRUPOS_CREADOS + (\<Sum>e \<leftarrow> cs. bloque_de se e) < 2 ^ 64"
proof -
  have "(\<Sum>e \<leftarrow> cs. bloque_de se e) \<le> length cs * 2 ^ 32"
    using assms(1) sum_list_mono [of cs "bloque_de se" "\<lambda>_. 2 ^ 32"] by (simp add: sum_list_triv)
  also have "\<dots> \<le> 128 * 2 ^ 32" using assms(2) by (simp add: MAX_GRUPOS_def)
  finally show ?thesis by (simp add: TAMANIO_TABLA_GRUPOS_CREADOS_def MAX_GRUPOS_def MAX_NOMBRE_RECURSO_def)
qed

lemma buscar_entrada_ok:
  "\<forall>e \<in> set es. cabe_entrada e \<Longrightarrow> buscar_entrada n es = Listo (find (\<lambda>e. nombre_grupo e = n) es)"
  by (induction es) auto

text \<open>The table after the groups of \<open>cs\<close> were created, in that order.\<close>

definition tabla_de :: "int \<Rightarrow> entrada_grupo list \<Rightarrow> tabla_grupos \<Rightarrow> bool" where
  "tabla_de se cs t \<longleftrightarrow>
     length cs < MAX_GRUPOS \<and> length (offsets t) = MAX_GRUPOS \<and>
     grupos_creados t = map nombre_grupo cs @ replicate (MAX_GRUPOS - length cs) [] \<and>
     (\<forall>i \<le> length cs. offsets t ! i = TAMANIO_TABLA_GRUPOS_CREADOS + (\<Sum>e \<leftarrow> take i cs. bloque_de se e))"

lemma buscar_grupo_None:
  "(buscar_grupo n i gs = None) = (\<forall>g \<in> set gs. g = [] \<or> \<not> strncmp_igual n g MAX_NOMBRE_RECURSO)"
  by (induction gs arbitrary: i) auto

lemma lugar_grupo_nuevo:
  "\<forall>g \<in> set gs. g \<noteq> [] \<and> \<not> strncmp_igual n g MAX_NOMBRE_RECURSO \<Longrightarrow> 0 < m \<Longrightarrow>
     lugar_grupo n i (gs @ replicate m []) = Some (i + length gs)"
  by (induction gs arbitrary: i) (auto simp: gr0_conv_Suc)

lemma tabla_de_inicio: "tabla_de se [] crear_tabla"
  by (simp add: tabla_de_def crear_tabla_def MAX_GRUPOS_def)

lemma tabla_de_crear:
  assumes t: "tabla_de se cs t" and e: "nombre_grupo e \<noteq> []" "length (nombre_grupo e) \<le> MAX_NOMBRE_RECURSO"
    and cs: "\<forall>c \<in> set cs. nombre_grupo c \<noteq> [] \<and> length (nombre_grupo c) \<le> MAX_NOMBRE_RECURSO \<and> nombre_grupo c \<noteq> nombre_grupo e"
    and l: "length cs + 1 < MAX_GRUPOS" and b: "\<forall>c \<in> set (cs @ [e]). bloque_de se c \<le> 2 ^ 32"
  shows "\<exists>t'. crear_grupo (nombre_grupo e) (tam_entrada se e) t = Listo (t', length cs) \<and> tabla_de se (cs @ [e]) t'"
proof -
  let ?n = "length cs" and ?x = "nombre_grupo e"
  have gs: "grupos_creados t = map nombre_grupo cs @ replicate (MAX_GRUPOS - ?n) []"
    and lo: "length (offsets t) = MAX_GRUPOS"
    and off: "\<forall>i \<le> ?n. offsets t ! i = TAMANIO_TABLA_GRUPOS_CREADOS + (\<Sum>e \<leftarrow> take i cs. bloque_de se e)"
    using t by (auto simp: tabla_de_def)
  have "lugar_grupo ?x 0 (map nombre_grupo cs @ replicate (MAX_GRUPOS - ?n) []) = Some (0 + length (map nombre_grupo cs))"
    by (rule lugar_grupo_nuevo) (use cs e l in \<open>auto simp: strncmp_igual_def\<close>)
  then have lu: "lugar_grupo ?x 0 (grupos_creados t) = Some ?n" using gs by simp
  have vacio: "grupos_creados t ! ?n = []" using gs l by (simp add: nth_append)
  have nuevo: "(map nombre_grupo cs @ replicate (MAX_GRUPOS - ?n) [])[?n := ?x] =
      map nombre_grupo (cs @ [e]) @ replicate (MAX_GRUPOS - length (cs @ [e])) []"
  proof -
    obtain m where "MAX_GRUPOS - ?n = Suc m" using l by (cases "MAX_GRUPOS - ?n") auto
    moreover have "MAX_GRUPOS - Suc ?n = m" using \<open>MAX_GRUPOS - ?n = Suc m\<close> by simp
    ultimately show ?thesis by (simp add: list_update_append)
  qed
  have o: "offsets t ! ?n + tam_entrada se e + TAMANIO_TABLA_CLIENTES =
      TAMANIO_TABLA_GRUPOS_CREADOS + (\<Sum>e \<leftarrow> take (?n + 1) (cs @ [e]). bloque_de se e)"
    using off by (simp add: bloque_de_def)
  have "\<dots> < 2 ^ 64" using bloques_chicos [OF b] l by simp
  then have o': "a_size_t (int (offsets t ! ?n + tam_entrada se e + TAMANIO_TABLA_CLIENTES)) =
      TAMANIO_TABLA_GRUPOS_CREADOS + (\<Sum>e \<leftarrow> take (?n + 1) (cs @ [e]). bloque_de se e)"
    unfolding o by (rule a_size_t_nat)
  show ?thesis
    using lu vacio lo l e(2) gs nuevo off o'
    by (auto simp: crear_grupo_def Let_def tabla_de_def nth_list_update le_Suc_eq)
qed

definition creados :: "int \<Rightarrow> entrada_grupo list \<Rightarrow> entrada_grupo list \<Rightarrow> tabla_grupos \<times> traspaso cola \<Rightarrow> bool" where
  "creados se es cs s \<longleftrightarrow> tabla_de se cs (fst s) \<and> distinct cs \<and> set cs \<subseteq> set es \<and>
     snd s = map (\<lambda>e. (1, \<lparr>tipo = 1, recurso = nombre_grupo e\<rparr>)) (filter (\<lambda>e. valor_inicial e = 1) cs)"

lemma existe_creado:
  assumes "tabla_de se cs t"
  shows "existe_grupo n t = (\<exists>c \<in> set cs. nombre_grupo c \<noteq> [] \<and> strncmp_igual n (nombre_grupo c) MAX_NOMBRE_RECURSO)"
  using assms by (auto simp: existe_grupo_def buscar_grupo_None tabla_de_def)

lemma entradas_ok_nombre:
  assumes "entradas_ok se es" and "a \<in> set es" and "b \<in> set es" and "nombre_grupo a = nombre_grupo b"
  shows "a = b"
  using assms by (auto simp: entradas_ok_def distinct_map inj_on_def)

lemma entrada_unica:
  assumes "entradas_ok se es" and "e \<in> set es" and "nombre_grupo e = n"
  shows "{x \<in> set es. nombre_grupo x = n} = {e}"
  using assms entradas_ok_nombre [OF assms(1)] by blast

lemma manager_pedido_ok:
  assumes es: "entradas_ok se es" "length es < MAX_GRUPOS" and c: "creados se es cs s"
  shows "\<exists>cs' s'. manager_pedido se es n s = Listo s' \<and> creados se es cs' s' \<and>
    set cs' = set cs \<union> {e \<in> set es. nombre_grupo e = n}"
proof -
  have t: "tabla_de se cs (fst s)" and sub: "set cs \<subseteq> set es" and dc: "distinct cs" using c by (auto simp: creados_def)
  have chico: "\<forall>c \<in> set cs. nombre_grupo c \<noteq> [] \<and> length (nombre_grupo c) \<le> MAX_NOMBRE_RECURSO"
    using sub entradas_okD [OF es(1)] by blast
  show ?thesis
  proof (cases "existe_grupo n (fst s)")
    case True
    then obtain x where x: "x \<in> set cs" "strncmp_igual n (nombre_grupo x) MAX_NOMBRE_RECURSO"
      using existe_creado [OF t] by auto
    have "e \<in> set cs" if "e \<in> set es" "nombre_grupo e = n" for e
    proof -
      have "nombre_grupo x = n" using x chico entradas_okD(1,2) [OF es(1) that(1)] that(2) by (auto simp: strncmp_igual_def)
      then show ?thesis using entradas_ok_nombre [OF es(1) that(1), of x] that x(1) sub by auto
    qed
    then show ?thesis using True c by (intro exI [of _ cs] exI [of _ s]) (auto simp: manager_pedido_def)
  next
    case False
    have buscar: "buscar_entrada n es = Listo (find (\<lambda>e. nombre_grupo e = n) es)"
      by (rule buscar_entrada_ok) (use es(1) in \<open>simp add: entradas_ok_def\<close>)
    show ?thesis
    proof (cases "find (\<lambda>e. nombre_grupo e = n) es")
      case None
      then have "{e \<in> set es. nombre_grupo e = n} = {}" by (auto simp: find_None_iff)
      moreover have "manager_pedido se es n s = Listo s"
        using False None buscar by (simp add: manager_pedido_def manager_crear_grupo_def)
      ultimately show ?thesis using c by auto
    next
      case (Some e)
      then have e: "e \<in> set es" "nombre_grupo e = n" by (auto simp: find_Some_iff)
      have en: "nombre_grupo e \<noteq> []" "length (nombre_grupo e) \<le> MAX_NOMBRE_RECURSO" using entradas_okD [OF es(1) e(1)] by auto
      have otros: "\<forall>c \<in> set cs. nombre_grupo c \<noteq> [] \<and> length (nombre_grupo c) \<le> MAX_NOMBRE_RECURSO \<and>
          nombre_grupo c \<noteq> nombre_grupo e"
        using False existe_creado [OF t, of n] chico e(2) en(2) by (fastforce simp: strncmp_igual_def)
      then have nuevo: "e \<notin> set cs" by auto
      then have "length (cs @ [e]) \<le> length es"
        using card_mono [of "set es" "set (cs @ [e])"] e(1) sub dc card_length [of es]
          distinct_card [of "cs @ [e]"] by auto
      then have "length cs + 1 < MAX_GRUPOS" using es(2) by simp
      moreover have "\<forall>c \<in> set (cs @ [e]). bloque_de se c \<le> 2 ^ 32"
        using sub e(1) entradas_okD(4) [OF es(1)] by auto
      ultimately obtain t' where
        t': "crear_grupo (nombre_grupo e) (tam_entrada se e) (fst s) = Listo (t', length cs)" "tabla_de se (cs @ [e]) t'" using tabla_de_crear [OF t en otros] by blast
      let ?s = "(t', if valor_inicial e = 1 then release_token n (snd s) else snd s)"
      have "manager_pedido se es n s = Listo ?s"
        using False Some buscar t'(1) e(2) by (simp add: manager_pedido_def manager_crear_grupo_def)
      moreover have "creados se es (cs @ [e]) ?s"
        using c t'(2) nuevo e unfolding creados_def by (simp add: release_token_def)
      moreover have "set (cs @ [e]) = set cs \<union> {x \<in> set es. nombre_grupo x = n}"
        unfolding entrada_unica [OF es(1) e] by (simp only: set_append list.set Un_insert_right Un_empty_right)
      ultimately show ?thesis by blast
    qed
  qed
qed

lemma manager_pedidos_ok:
  assumes es: "entradas_ok se es" "length es < MAX_GRUPOS" and c: "creados se es cs s"
  shows "\<exists>cs' s'. manager_pedidos se es ns s = Listo s' \<and> creados se es cs' s' \<and>
    set cs' = set cs \<union> {e \<in> set es. nombre_grupo e \<in> set ns}"
  using c
proof (induction ns arbitrary: cs s)
  case Nil
  then show ?case by auto
next
  case (Cons n ns)
  obtain cs1 s1 where a: "manager_pedido se es n s = Listo s1" "creados se es cs1 s1"
    "set cs1 = set cs \<union> {e \<in> set es. nombre_grupo e = n}"
    using manager_pedido_ok [OF es Cons.prems] by blast
  obtain cs2 s2 where b: "manager_pedidos se es ns s1 = Listo s2" "creados se es cs2 s2"
    "set cs2 = set cs1 \<union> {e \<in> set es. nombre_grupo e \<in> set ns}"
    using Cons.IH [OF a(2)] by blast
  have "set cs2 = set cs \<union> {e \<in> set es. nombre_grupo e \<in> set (n # ns)}" using a(3) b(3) by auto
  then show ?case using a(1) b(1,2) by auto
qed

lemma suma_bloques:
  assumes d: "distinct cs" and sub: "set cs \<subseteq> set es" and es: "entradas_ok se es" "length es < MAX_GRUPOS"
  shows "TAMANIO_TABLA_GRUPOS_CREADOS + (\<Sum>e \<leftarrow> cs. bloque_de se e) \<le> tamanio_segmento se es"
proof -
  have de: "distinct es" using es(1) by (auto simp: entradas_ok_def distinct_map)
  have "(\<Sum>e \<leftarrow> cs. bloque_de se e) = (\<Sum>e \<in> set cs. bloque_de se e)" using d by (simp add: sum_list_distinct_conv_sum_set)
  also have "\<dots> \<le> (\<Sum>e \<in> set es. bloque_de se e)" using sub by (intro sum_mono2) auto
  also have "\<dots> = (\<Sum>e \<leftarrow> es. bloque_de se e)" using de by (simp add: sum_list_distinct_conv_sum_set)
  finally have cs: "(\<Sum>e \<leftarrow> cs. bloque_de se e) \<le> (\<Sum>e \<leftarrow> es. bloque_de se e)" .
  have e: "TAMANIO_TABLA_GRUPOS_CREADOS + (\<Sum>e \<leftarrow> es. bloque_de se e) < 2 ^ 64"
    by (rule bloques_chicos) (use es entradas_okD(4) in auto)
  have "(\<Sum>e \<leftarrow> es. bloque_de se e) = (\<Sum>e \<leftarrow> es. tam_entrada se e) + TAMANIO_TABLA_CLIENTES * length es"
    by (simp add: bloque_de_def sum_list_addf sum_list_triv mult.commute)
  then have "memoria_total se es = a_size_t (int (\<Sum>e \<leftarrow> es. bloque_de se e))" by (simp add: memoria_total_def)
  also have "\<dots> = (\<Sum>e \<leftarrow> es. bloque_de se e)" by (rule a_size_t_nat) (use e in simp)
  finally have m: "memoria_total se es = (\<Sum>e \<leftarrow> es. bloque_de se e)" .
  have "tamanio_segmento se es = (\<Sum>e \<leftarrow> es. bloque_de se e) + TAMANIO_TABLA_GRUPOS_CREADOS"
    unfolding tamanio_segmento_def m by (rule a_size_t_nat) (use e in simp)
  then show ?thesis using cs by simp
qed

lemma lista_unica:
  assumes "set xs = {a}" and "distinct xs"
  shows "xs = [a]"
  using assms by (cases xs) (auto simp: subset_singleton_iff)

text \<open>The groups of a small airport, asked for twice and out of order.\<close>

definition entradas_ejemplo :: "entrada_grupo list" where
  "entradas_ejemplo =
     [\<lparr>nombre_grupo = ''cinta_checkin'', tamanio_grupo = ''TAMANIO_MEMORIA_CINTA_CHECKIN'', valor_inicial = 1\<rparr>,
      \<lparr>nombre_grupo = ''cpp_sem_cons_0'', tamanio_grupo = ''0'', valor_inicial = 1\<rparr>,
      \<lparr>nombre_grupo = ''cpp_sem_cons_1'', tamanio_grupo = ''0'', valor_inicial = 0\<rparr>]"

section \<open>Properties\<close>

text \<open>
  The initial memory of the belts: the five \<^verbatim>\<open>.init\<close> files lay down, whatever the
  parser held before, exactly the words on which the constructors of the belts build the
  states their properties start from, and these words fit in the memory the group list gives
  to each group, with room for its ten pieces of luggage.
\<close>

theorem init_cintas:
  "palabras_de se (lineas_init init_cinta_checkin) p = Listo palabras_checkin \<and>
   palabras_de se (lineas_init init_cinta_principal) p = Listo palabras_central \<and>
   palabras_de se (lineas_init init_cinta_contenedor) p = Listo palabras_contenedor \<and>
   palabras_de se (lineas_init init_cinta_escaner) p = Listo [10, 0, 0, 0, 0] \<and>
   palabras_de se (lineas_init init_cinta_escaner_control) p = Listo ([0] @ replicate 4 0 @ replicate 4 (-1) @ [0]) \<and>
   4 * int (length palabras_checkin) + 10 * se \<le> parse_int_val se ''TAMANIO_MEMORIA_CINTA_CHECKIN'' \<and>
   4 * int (length palabras_central) + 10 * se \<le> parse_int_val se ''TAMANIO_MEMORIA_CINTA_PRINCIPAL'' \<and>
   4 * int (length palabras_contenedor) + 10 * se \<le> parse_int_val se ''TAMANIO_MEMORIA_CINTA_CARGA''"
proof (intro conjI)
  show "palabras_de se (lineas_init init_cinta_checkin) p = Listo palabras_checkin"
    by (simp add: palabras_simps palabras_checkin_def numeral_eq_Suc)
  show "palabras_de se (lineas_init init_cinta_principal) p = Listo palabras_central"
    by (simp add: palabras_simps palabras_central_def numeral_eq_Suc)
  show "palabras_de se (lineas_init init_cinta_contenedor) p = Listo palabras_contenedor"
    by (simp add: palabras_simps palabras_contenedor_def numeral_eq_Suc)
  show "palabras_de se (lineas_init init_cinta_escaner) p = Listo [10, 0, 0, 0, 0]"
    by (simp add: palabras_simps)
  show "palabras_de se (lineas_init init_cinta_escaner_control) p = Listo ([0] @ replicate 4 0 @ replicate 4 (-1) @ [0])"
    by (simp add: palabras_simps numeral_eq_Suc)
  show "4 * int (length palabras_checkin) + 10 * se \<le> parse_int_val se ''TAMANIO_MEMORIA_CINTA_CHECKIN''"
    by (simp add: palabras_checkin_def parse_int_val_def sin_signo_def es_digito_def constantes_int_def tamanio_checkin_def)
  show "4 * int (length palabras_central) + 10 * se \<le> parse_int_val se ''TAMANIO_MEMORIA_CINTA_PRINCIPAL''"
    by (simp add: palabras_central_def parse_int_val_def sin_signo_def es_digito_def constantes_int_def tamanio_principal_def)
  show "4 * int (length palabras_contenedor) + 10 * se \<le> parse_int_val se ''TAMANIO_MEMORIA_CINTA_CARGA''"
    by (simp add: palabras_contenedor_def parse_int_val_def sin_signo_def es_digito_def constantes_int_def tamanio_carga_def)
qed

text \<open>
  C25. The blocks of the groups stay inside their segment: for a list of at most 127 groups,
  whatever sequence of names the clients ask for, every request is served, exactly the groups
  asked for exist, each in a block of its own with the memory its line says, which ends where the
  next one starts, the last one ends inside the segment the master constructor asked for, and the
  manager's queue holds one token of each group whose initial value is 1, under its name and in
  the order of creation, and no other message.
\<close>

theorem bloques_dentro:
  assumes "entradas_ok se es" and "length es < MAX_GRUPOS"
  shows "\<exists>cs t q. manager_pedidos se es ns (crear_tabla, []) = Listo (t, q) \<and>
    distinct cs \<and> set cs = {e \<in> set es. nombre_grupo e \<in> set ns} \<and>
    grupos_creados t = map nombre_grupo cs @ replicate (MAX_GRUPOS - length cs) [] \<and>
    offsets t ! 0 = TAMANIO_TABLA_GRUPOS_CREADOS \<and>
    (\<forall>i < length cs. int (offsets t ! i + TAMANIO_TABLA_CLIENTES) + parse_int_val se (tamanio_grupo (cs ! i)) =
       int (offsets t ! (i + 1))) \<and>
    offsets t ! length cs \<le> tamanio_segmento se es \<and>
    q = map (\<lambda>e. (1, \<lparr>tipo = 1, recurso = nombre_grupo e\<rparr>)) (filter (\<lambda>e. valor_inicial e = 1) cs)"
proof -
  have "creados se es [] (crear_tabla, [])" by (simp add: creados_def tabla_de_inicio)
  from manager_pedidos_ok [OF assms this, of ns] obtain cs t q where
    m: "manager_pedidos se es ns (crear_tabla, []) = Listo (t, q)" and c: "creados se es cs (t, q)"
    and s: "set cs = {e \<in> set es. nombre_grupo e \<in> set ns}" by auto
  have t: "tabla_de se cs t" and d: "distinct cs"
    and q: "q = map (\<lambda>e. (1, \<lparr>tipo = 1, recurso = nombre_grupo e\<rparr>)) (filter (\<lambda>e. valor_inicial e = 1) cs)"
    using c by (auto simp: creados_def)
  have off: "\<forall>i \<le> length cs. offsets t ! i = TAMANIO_TABLA_GRUPOS_CREADOS + (\<Sum>e \<leftarrow> take i cs. bloque_de se e)"
    using t by (simp add: tabla_de_def)
  have fin: "offsets t ! length cs \<le> tamanio_segmento se es"
    using suma_bloques [OF d _ assms] s off by auto
  have "int (offsets t ! i + TAMANIO_TABLA_CLIENTES) + parse_int_val se (tamanio_grupo (cs ! i)) = int (offsets t ! (i + 1))"
    if "i < length cs" for i
  proof -
    have "cs ! i \<in> set es" using nth_mem [OF that] s by auto
    from entradas_okD(3) [OF assms(1) this] show ?thesis
      using off that by (auto simp: take_Suc_conv_app_nth bloque_de_def)
  qed
  moreover have "offsets t ! 0 = TAMANIO_TABLA_GRUPOS_CREADOS" using off by simp
  ultimately show ?thesis using m d s q fin t by (auto simp: tabla_de_def)
qed

theorem bloques_dentro_witness:
  "\<exists>t. manager_pedidos 112 entradas_ejemplo [''cpp_sem_cons_1'', ''cinta_checkin'', ''cpp_sem_cons_1''] (crear_tabla, []) =
     Listo (t, [(1, \<lparr>tipo = 1, recurso = ''cinta_checkin''\<rparr>)]) \<and> offsets t ! 0 = TAMANIO_TABLA_GRUPOS_CREADOS"
proof -
  have "parse_int_val 112 ''TAMANIO_MEMORIA_CINTA_CHECKIN'' = tamanio_checkin 112"
    by (simp add: parse_int_val_def sin_signo_def es_digito_def constantes_int_def)
  then have "entradas_ok 112 entradas_ejemplo"
    by (simp add: entradas_ok_def entradas_ejemplo_def cabe_entrada_def MAX_NOMBRE_RECURSO_def valores_init tamanio_checkin_def)
  moreover have "length entradas_ejemplo < MAX_GRUPOS" by (simp add: entradas_ejemplo_def MAX_GRUPOS_def)
  ultimately obtain cs t where t: "manager_pedidos 112 entradas_ejemplo
      [''cpp_sem_cons_1'', ''cinta_checkin'', ''cpp_sem_cons_1''] (crear_tabla, []) =
        Listo (t, map (\<lambda>e. (1, \<lparr>tipo = 1, recurso = nombre_grupo e\<rparr>)) (filter (\<lambda>e. valor_inicial e = 1) cs))"
      "offsets t ! 0 = TAMANIO_TABLA_GRUPOS_CREADOS" "distinct cs"
      "set cs = {e \<in> set entradas_ejemplo. nombre_grupo e \<in> {''cpp_sem_cons_1'', ''cinta_checkin''}}"
    using bloques_dentro [of 112 entradas_ejemplo "[''cpp_sem_cons_1'', ''cinta_checkin'', ''cpp_sem_cons_1'']"] by auto
  have "set (filter (\<lambda>e. valor_inicial e = 1) cs) = {entradas_ejemplo ! 0}"
    unfolding set_filter t(4) by (auto simp: entradas_ejemplo_def)
  moreover have "distinct (filter (\<lambda>e. valor_inicial e = 1) cs)" using t(3) by simp
  ultimately have "filter (\<lambda>e. valor_inicial e = 1) cs = [entradas_ejemplo ! 0]" by (rule lista_unica)
  then show ?thesis using t(1,2) by (simp add: entradas_ejemplo_def)
qed

end
