(* ===== verification/Broker.thy ===== *)
theory Broker
  imports Grupo
begin

text \<open>
  The message broker: \<^verbatim>\<open>local_broker/message_broker.cpp\<close> gives names to System V
  message queues through a table in shared memory, the slot of a name being the magic
  character of its queue; \<^verbatim>\<open>local_broker/brokermessagequeue.h\<close> is the queue its clients
  see. An operation that raises keeps what it had changed, so each returns its outcome and
  the broker after it. A text is its bytes.
\<close>

section \<open>State\<close>

text \<open>\<open>colas\<close> are the kernel's queues under the path of the broker, by magic character.\<close>

record broker =
  proj_id_to_queue_id :: "string list"
  colas :: "int \<Rightarrow> byte list cola option"

definition crear_broker :: "(int \<Rightarrow> byte list cola option) \<Rightarrow> broker" where
  "crear_broker ks = \<lparr>proj_id_to_queue_id = replicate 255 [], colas = ks\<rparr>"

text \<open>An \<^verbatim>\<open>int\<close> turned into a (signed) \<^verbatim>\<open>char\<close> and back.\<close>

definition a_char :: "nat \<Rightarrow> int" where
  "a_char pos = (if pos < 128 then int pos else int pos - 256)"

fun primero :: "('a \<Rightarrow> bool) \<Rightarrow> 'a list \<Rightarrow> nat option" where
  "primero P [] = None"
| "primero P (x # xs) = (if P x then Some 0 else map_option Suc (primero P xs))"

section \<open>The table of names\<close>

definition get_proj_id :: "string \<Rightarrow> broker \<Rightarrow> int" where
  "get_proj_id queue_id b =
     (case primero (\<lambda>n. n = queue_id) (proj_id_to_queue_id b) of None \<Rightarrow> -1 | Some pos \<Rightarrow> a_char pos)"

definition exist_queue :: "string \<Rightarrow> broker \<Rightarrow> bool" where
  "exist_queue queue_id b \<longleftrightarrow> primero (\<lambda>n. n = queue_id) (proj_id_to_queue_id b) \<noteq> None"

text \<open>
  The slot found is used as a \<^verbatim>\<open>char\<close>: from 128 on it is negative. \<^verbatim>\<open>strcpy\<close> of a
  name that does not fit overruns its row.
\<close>

definition allocate_queue_id :: "string \<Rightarrow> broker \<Rightarrow> int llamada \<times> broker" where
  "allocate_queue_id queue_id b =
     (case primero (\<lambda>n. n = []) (proj_id_to_queue_id b) of
        None \<Rightarrow> (Fallo MessageBrokerError, b)
      | Some pos \<Rightarrow>
          (if a_char pos < 0 \<or> 255 \<le> length queue_id then (Fallo Fuera_de_rango, b)
           else (Listo (a_char pos),
                 b\<lparr>proj_id_to_queue_id := (proj_id_to_queue_id b)[nat (a_char pos) := queue_id]\<rparr>)))"

definition deallocate_queue_id :: "string \<Rightarrow> broker \<Rightarrow> unit llamada \<times> broker" where
  "deallocate_queue_id queue_id b =
     (if get_proj_id queue_id b < 0 then (Fallo Fuera_de_rango, b)
      else (Listo (), b\<lparr>proj_id_to_queue_id := (proj_id_to_queue_id b)[nat (get_proj_id queue_id b) := []]\<rparr>))"

section \<open>Operations\<close>

text \<open>
  Whatever the queue raises becomes a \<^verbatim>\<open>MessageBrokerError\<close>. Creating a kernel queue is
  exclusive; a message longer than what \<^verbatim>\<open>pull\<close> accepts stays in the queue.
\<close>

definition como_broker :: "falla \<Rightarrow> falla" where
  "como_broker e = (if e = Fuera_de_rango then e else MessageBrokerError)"

definition create_queue :: "string \<Rightarrow> broker \<Rightarrow> unit llamada \<times> broker" where
  "create_queue queue_id b =
     (case allocate_queue_id queue_id b of
        (Listo p, b1) \<Rightarrow>
          (if colas b1 p \<noteq> None then (Fallo MessageBrokerError, b1)
           else (Listo (), b1\<lparr>colas := (colas b1)(p := Some [])\<rparr>))
      | (Bloqueado, b1) \<Rightarrow> (Bloqueado, b1)
      | (Fallo e, b1) \<Rightarrow> (Fallo (como_broker e), b1))"

definition destroy_queue :: "string \<Rightarrow> broker \<Rightarrow> unit llamada \<times> broker" where
  "destroy_queue queue_id b =
     (let p = get_proj_id queue_id b
      in if colas b p = None then (Fallo MessageBrokerError, b)
         else case deallocate_queue_id queue_id b of
                (Fallo e, b1) \<Rightarrow> (Fallo (como_broker e), b1\<lparr>colas := (colas b1)(p := None)\<rparr>)
              | (r, b1) \<Rightarrow> (r, b1\<lparr>colas := (colas b1)(p := None)\<rparr>))"

definition broker_push :: "string \<Rightarrow> int \<Rightarrow> byte list \<Rightarrow> broker \<Rightarrow> unit llamada \<times> broker" where
  "broker_push queue_id mtype texto b =
     (let p = get_proj_id queue_id b
      in case colas b p of
           None \<Rightarrow> (Fallo MessageBrokerError, b)
         | Some q \<Rightarrow>
             (case push mtype texto q of
                Listo q' \<Rightarrow> (Listo (), b\<lparr>colas := (colas b)(p := Some q')\<rparr>)
              | Bloqueado \<Rightarrow> (Bloqueado, b)
              | Fallo e \<Rightarrow> (Fallo (como_broker e), b)))"

definition broker_pull :: "string \<Rightarrow> nat \<Rightarrow> int \<Rightarrow> broker \<Rightarrow> (int \<times> byte list) llamada \<times> broker" where
  "broker_pull queue_id max_size_txt type b =
     (let p = get_proj_id queue_id b
      in case colas b p of
           None \<Rightarrow> (Fallo MessageBrokerError, b)
         | Some q \<Rightarrow>
             (case pull type q of
                Listo (m, q') \<Rightarrow>
                  (if max_size_txt < length (snd m) then (Fallo (como_broker OSError), b)
                   else (Listo m, b\<lparr>colas := (colas b)(p := Some q')\<rparr>))
              | Bloqueado \<Rightarrow> (Bloqueado, b)
              | Fallo e \<Rightarrow> (Fallo (como_broker e), b)))"

text \<open>The destructor of the broker that owns the table: every named queue goes.\<close>

definition destruir_broker :: "broker \<Rightarrow> broker" where
  "destruir_broker b =
     b\<lparr>proj_id_to_queue_id := replicate 255 [],
       colas := (\<lambda>p. if \<exists>pos \<in> set [0..<255]. p = a_char pos \<and> proj_id_to_queue_id b ! pos \<noteq> [] then None else colas b p)\<rparr>"

section \<open>The queue of a client\<close>

text \<open>\<^verbatim>\<open>BrokerMessageQueue\<close>: the name is the path followed by the character \<^verbatim>\<open>proj_id + 1\<close>.\<close>

definition id_de_cola :: "string \<Rightarrow> nat \<Rightarrow> string" where
  "id_de_cola queue_id proj_id = queue_id @ [char_of (proj_id + 1)]"

definition crear_broker_message_queue :: "string \<Rightarrow> nat \<Rightarrow> bool \<Rightarrow> broker \<Rightarrow> unit llamada \<times> broker" where
  "crear_broker_message_queue queue_id proj_id create b =
     (if create then create_queue (id_de_cola queue_id proj_id) b else (Listo (), b))"

definition destruir_broker_message_queue :: "string \<Rightarrow> nat \<Rightarrow> bool \<Rightarrow> broker \<Rightarrow> broker" where
  "destruir_broker_message_queue queue_id proj_id is_owner b =
     (if is_owner then snd (destroy_queue (id_de_cola queue_id proj_id) b) else b)"

section \<open>Requests\<close>

text \<open>The requests of the clients of a broker, and its answer to one and to a sequence.\<close>

datatype pedido =
    Crear string
  | Destruir string
  | Meter string int "byte list"
  | Sacar string nat int

fun sin_valor :: "unit llamada \<times> 'b \<Rightarrow> (int \<times> byte list) option llamada \<times> 'b" where
  "sin_valor (Listo (), b) = (Listo None, b)"
| "sin_valor (Bloqueado, b) = (Bloqueado, b)"
| "sin_valor (Fallo e, b) = (Fallo e, b)"

fun con_valor :: "(int \<times> byte list) llamada \<times> 'b \<Rightarrow> (int \<times> byte list) option llamada \<times> 'b" where
  "con_valor (Listo m, b) = (Listo (Some m), b)"
| "con_valor (Bloqueado, b) = (Bloqueado, b)"
| "con_valor (Fallo e, b) = (Fallo e, b)"

fun atender :: "pedido \<Rightarrow> broker \<Rightarrow> (int \<times> byte list) option llamada \<times> broker" where
  "atender (Crear n) b = sin_valor (create_queue n b)"
| "atender (Destruir n) b = sin_valor (destroy_queue n b)"
| "atender (Meter n t m) b = sin_valor (broker_push n t m b)"
| "atender (Sacar n tope t) b = con_valor (broker_pull n tope t b)"

fun atender_todos :: "pedido list \<Rightarrow> broker \<Rightarrow> (int \<times> byte list) option llamada list \<times> broker" where
  "atender_todos [] b = ([], b)"
| "atender_todos (p # ps) b =
     (let (r, b1) = atender p b; (rs, b2) = atender_todos ps b1 in (r # rs, b2))"

section \<open>Specification\<close>

text \<open>What a broker promises: a map from names to queues.\<close>

type_synonym nombres = "string \<Rightarrow> byte list cola option"

fun esp_atender :: "pedido \<Rightarrow> nombres \<Rightarrow> (int \<times> byte list) option llamada \<times> nombres" where
  "esp_atender (Crear n) a = (Listo None, a(n := Some []))"
| "esp_atender (Destruir n) a = (if a n = None then (Fallo MessageBrokerError, a) else (Listo None, a(n := None)))"
| "esp_atender (Meter n t m) a =
     (case a n of
        None \<Rightarrow> (Fallo MessageBrokerError, a)
      | Some q \<Rightarrow> (if t \<le> 0 then (Fallo MessageBrokerError, a) else (Listo None, a(n := Some (q @ [(t, m)])))))"
| "esp_atender (Sacar n tope t) a =
     (case a n of
        None \<Rightarrow> (Fallo MessageBrokerError, a)
      | Some q \<Rightarrow>
          (case pull t q of
             Listo (m, q') \<Rightarrow>
               (if tope < length (snd m) then (Fallo MessageBrokerError, a) else (Listo (Some m), a(n := Some q')))
           | _ \<Rightarrow> (Bloqueado, a)))"

fun esp_atender_todos :: "pedido list \<Rightarrow> nombres \<Rightarrow> (int \<times> byte list) option llamada list \<times> nombres" where
  "esp_atender_todos [] a = ([], a)"
| "esp_atender_todos (p # ps) a =
     (let (r, a1) = esp_atender p a; (rs, a2) = esp_atender_todos ps a1 in (r # rs, a2))"

text \<open>The requests the broker can honour: names that fit, new ones created while there is room.\<close>

fun pedido_ok :: "pedido \<Rightarrow> nombres \<Rightarrow> bool" where
  "pedido_ok (Crear n) a = (n \<noteq> [] \<and> length n < 255 \<and> a n = None \<and> card (dom a) < 128)"
| "pedido_ok (Destruir n) a = (n \<noteq> [])"
| "pedido_ok (Meter n t m) a = (n \<noteq> [])"
| "pedido_ok (Sacar n tope t) a = (n \<noteq> [])"

fun pedidos_ok :: "pedido list \<Rightarrow> nombres \<Rightarrow> bool" where
  "pedidos_ok [] a = True"
| "pedidos_ok (p # ps) a = (pedido_ok p a \<and> pedidos_ok ps (snd (esp_atender p a)))"

section \<open>The invariant\<close>

definition broker_ok :: "broker \<Rightarrow> bool" where
  "broker_ok b \<longleftrightarrow> length (proj_id_to_queue_id b) = 255 \<and>
     (\<forall>i < 255. proj_id_to_queue_id b ! i \<noteq> [] \<longrightarrow> i < 128) \<and>
     (\<forall>p. (colas b p \<noteq> None) = (\<exists>i < 128. p = int i \<and> proj_id_to_queue_id b ! i \<noteq> []))"

text \<open>No name has two slots; nothing in the code forbids it.\<close>

definition sin_repetidos :: "broker \<Rightarrow> bool" where
  "sin_repetidos b \<longleftrightarrow>
     (\<forall>i < 255. \<forall>j < 255. proj_id_to_queue_id b ! i = proj_id_to_queue_id b ! j \<longrightarrow>
        proj_id_to_queue_id b ! i \<noteq> [] \<longrightarrow> i = j)"

lemma sin_repetidosD:
  "sin_repetidos b \<Longrightarrow> i < 255 \<Longrightarrow> j < 255 \<Longrightarrow> proj_id_to_queue_id b ! i = proj_id_to_queue_id b ! j \<Longrightarrow>
     proj_id_to_queue_id b ! i \<noteq> [] \<Longrightarrow> i = j"
  unfolding sin_repetidos_def by blast

definition nombres_de :: "broker \<Rightarrow> nombres" where
  "nombres_de b n = (if n = [] \<or> n \<notin> set (proj_id_to_queue_id b) then None else colas b (get_proj_id n b))"

lemma primero_Some: "primero P xs = Some i \<Longrightarrow> i < length xs \<and> P (xs ! i) \<and> (\<forall>j < i. \<not> P (xs ! j))"
  by (induction xs arbitrary: i) (auto simp: less_Suc_eq_0_disj split: if_splits)

lemma primero_None: "(primero P xs = None) = (\<forall>x \<in> set xs. \<not> P x)"
  by (induction xs) auto

lemma primero_update:
  "\<not> P x \<Longrightarrow> \<not> P (xs ! i) \<Longrightarrow> primero P (xs[i := x]) = primero P xs"
  by (induction xs arbitrary: i) (auto split: nat.splits)

lemma primero_nuevo:
  "i < length xs \<Longrightarrow> P x \<Longrightarrow> \<forall>y \<in> set xs. \<not> P y \<Longrightarrow> primero P (xs[i := x]) = Some i"
  by (induction xs arbitrary: i) (auto split: nat.splits)

lemma set_update_otro:
  assumes "x \<noteq> xs ! i" and "x \<noteq> y"
  shows "(x \<in> set (xs[i := y])) = (x \<in> set xs)"
proof
  show "x \<in> set (xs[i := y]) \<Longrightarrow> x \<in> set xs" using set_update_subset_insert [of xs i y] assms(2) by auto
  show "x \<in> set (xs[i := y])" if x: "x \<in> set xs"
  proof -
    obtain k where k: "k < length xs" "xs ! k = x" using x by (auto simp: in_set_conv_nth)
    then have "k \<noteq> i" using assms(1) by auto
    then have "xs[i := y] ! k = x" using k(2) by simp
    with k(1) show ?thesis using nth_mem [of k "xs[i := y]"] by simp
  qed
qed

lemma broker_ok_inicio: "broker_ok (crear_broker (\<lambda>_. None))" "sin_repetidos (crear_broker (\<lambda>_. None))"
  "nombres_de (crear_broker (\<lambda>_. None)) = (\<lambda>_. None)"
  by (auto simp: broker_ok_def sin_repetidos_def nombres_de_def crear_broker_def fun_eq_iff)

lemma get_proj_id_hay:
  assumes "broker_ok b" and "n \<noteq> []" and "n \<in> set (proj_id_to_queue_id b)"
  obtains i where "i < 128" "get_proj_id n b = int i" "proj_id_to_queue_id b ! i = n"
    "primero (\<lambda>m. m = n) (proj_id_to_queue_id b) = Some i"
proof -
  obtain i where i: "primero (\<lambda>m. m = n) (proj_id_to_queue_id b) = Some i"
    using assms(3) primero_None [of "\<lambda>m. m = n" "proj_id_to_queue_id b"] by auto
  then have p: "i < length (proj_id_to_queue_id b)" "proj_id_to_queue_id b ! i = n" by (auto dest: primero_Some)
  then have "i < 128" using assms(1,2) by (auto simp: broker_ok_def)
  then show thesis using that [of i] i p(2) by (simp add: get_proj_id_def a_char_def)
qed

lemma get_proj_id_no_hay: "n \<notin> set (proj_id_to_queue_id b) \<Longrightarrow> get_proj_id n b = -1"
  using primero_None [of "\<lambda>m. m = n" "proj_id_to_queue_id b"] by (auto simp: get_proj_id_def split: option.splits)

lemma broker_okD:
  assumes "broker_ok b"
  shows "length (proj_id_to_queue_id b) = 255" and "128 \<le> i \<Longrightarrow> i < 255 \<Longrightarrow> proj_id_to_queue_id b ! i = []"
    and "colas b (-1) = None" and "i < 128 \<Longrightarrow> proj_id_to_queue_id b ! i \<noteq> [] \<Longrightarrow> \<exists>q. colas b (int i) = Some q"
    and "i < 128 \<Longrightarrow> proj_id_to_queue_id b ! i = [] \<Longrightarrow> colas b (int i) = None"
proof -
  have l: "length (proj_id_to_queue_id b) = 255"
    and v: "\<forall>i < 255. proj_id_to_queue_id b ! i \<noteq> [] \<longrightarrow> i < 128"
    and c: "(colas b p \<noteq> None) = (\<exists>i < 128. p = int i \<and> proj_id_to_queue_id b ! i \<noteq> [])" for p
    using assms by (simp_all add: broker_ok_def)
  show "length (proj_id_to_queue_id b) = 255" by (rule l)
  show "128 \<le> i \<Longrightarrow> i < 255 \<Longrightarrow> proj_id_to_queue_id b ! i = []" using v by (meson not_less)
  show "colas b (-1) = None" using c [of "-1"] by (cases "colas b (-1)") auto
  show "i < 128 \<Longrightarrow> proj_id_to_queue_id b ! i \<noteq> [] \<Longrightarrow> \<exists>q. colas b (int i) = Some q"
    using c [of "int i"] by (cases "colas b (int i)") auto
  show "i < 128 \<Longrightarrow> proj_id_to_queue_id b ! i = [] \<Longrightarrow> colas b (int i) = None"
    using c [of "int i"] by (cases "colas b (int i)") auto
qed

lemma cola_de_nombre:
  assumes "broker_ok b" and "n \<noteq> []"
  shows "colas b (get_proj_id n b) = nombres_de b n"
  using assms by (cases "n \<in> set (proj_id_to_queue_id b)")
    (auto simp: nombres_de_def get_proj_id_no_hay broker_okD(3))

lemma dom_nombres:
  assumes "broker_ok b"
  shows "dom (nombres_de b) = set (proj_id_to_queue_id b) - {[]}"
proof -
  have "nombres_de b n \<noteq> None" if h: "n \<noteq> []" "n \<in> set (proj_id_to_queue_id b)" for n
  proof -
    obtain i where "i < 128" "get_proj_id n b = int i" "proj_id_to_queue_id b ! i = n" using get_proj_id_hay [OF assms h] .
    then show ?thesis using broker_okD(4) [OF assms, of i] h by (auto simp: nombres_de_def)
  qed
  moreover have "n \<noteq> [] \<and> n \<in> set (proj_id_to_queue_id b)" if "nombres_de b n \<noteq> None" for n
    using that by (auto simp: nombres_de_def split: if_splits)
  ultimately show ?thesis by (auto simp only: dom_def)
qed

lemma proj_id_distinto:
  assumes b: "broker_ok b" and "n \<noteq> []" "m \<noteq> []" "n \<noteq> m" and "n \<in> set (proj_id_to_queue_id b)"
  shows "get_proj_id n b \<noteq> get_proj_id m b"
proof (cases "m \<in> set (proj_id_to_queue_id b)")
  case True
  then show ?thesis
    using get_proj_id_hay [OF b assms(2,5)] get_proj_id_hay [OF b assms(3) True] assms(4) by (metis of_nat_eq_iff)
next
  case False
  then show ?thesis using get_proj_id_hay [OF b assms(2,5)] by (simp add: get_proj_id_no_hay) (metis of_nat_0_le_iff neg_0_le_iff_le not_one_le_zero)
qed

text \<open>A change of one queue changes one name.\<close>

lemma cambiar_cola:
  assumes b: "broker_ok b" and n: "nombres_de b n = Some q"
  shows "broker_ok (b\<lparr>colas := (colas b)(get_proj_id n b := Some q')\<rparr>)"
    and "nombres_de (b\<lparr>colas := (colas b)(get_proj_id n b := Some q')\<rparr>) = (nombres_de b)(n := Some q')"
    and "sin_repetidos (b\<lparr>colas := (colas b)(get_proj_id n b := Some q')\<rparr>) = sin_repetidos b"
proof -
  let ?b = "b\<lparr>colas := (colas b)(get_proj_id n b := Some q')\<rparr>"
  have e: "n \<noteq> []" "n \<in> set (proj_id_to_queue_id b)" and c: "colas b (get_proj_id n b) = Some q"
    using n by (auto simp: nombres_de_def split: if_splits)
  have g: "get_proj_id m ?b = get_proj_id m b" for m by (simp add: get_proj_id_def)
  have d: "(colas ?b p \<noteq> None) = (colas b p \<noteq> None)" for p using c by simp
  show "broker_ok ?b" using b d unfolding broker_ok_def by simp
  show "sin_repetidos ?b = sin_repetidos b" by (simp add: sin_repetidos_def)
  show "nombres_de ?b = (nombres_de b)(n := Some q')"
  proof
    fix m
    show "nombres_de ?b m = ((nombres_de b)(n := Some q')) m"
      using e proj_id_distinto [OF b e(1) _ _ e(2), of m] by (auto simp: nombres_de_def g)
  qed
qed

text \<open>The slot of a new queue.\<close>

lemma lugar_libre_broker:
  assumes b: "broker_ok b"
  obtains i where "i \<le> 128" "primero (\<lambda>m. m = []) (proj_id_to_queue_id b) = Some i"
    "proj_id_to_queue_id b ! i = []" "\<forall>j < i. proj_id_to_queue_id b ! j \<noteq> []" "i < 255"
proof -
  have l: "length (proj_id_to_queue_id b) = 255" and v: "proj_id_to_queue_id b ! 128 = []"
    using broker_okD(1) [OF b] broker_okD(2) [OF b, of 128] by simp_all
  then have "[] \<in> set (proj_id_to_queue_id b)" using nth_mem [of 128 "proj_id_to_queue_id b"] by simp
  then obtain i where i: "primero (\<lambda>m. m = []) (proj_id_to_queue_id b) = Some i"
    using primero_None [of "\<lambda>m. m = []" "proj_id_to_queue_id b"] by auto
  from primero_Some [OF this] l v have "i < 255" "proj_id_to_queue_id b ! i = []" "\<forall>j < i. proj_id_to_queue_id b ! j \<noteq> []" by auto
  moreover have "i \<le> 128" using calculation(3) v by (metis not_le)
  ultimately show thesis using that i by blast
qed

section \<open>The operations keep the invariant\<close>

lemma create_queue_lugar:
  assumes b: "broker_ok b" and n: "n \<noteq> []" "length n < 255"
    and i: "primero (\<lambda>m. m = []) (proj_id_to_queue_id b) = Some i" "i < 128"
  shows "create_queue n b = (Listo (), b\<lparr>proj_id_to_queue_id := (proj_id_to_queue_id b)[i := n], colas := (colas b)(int i := Some [])\<rparr>)"
proof -
  have "proj_id_to_queue_id b ! i = []" using primero_Some [OF i(1)] by simp
  then have "colas b (int i) = None" using broker_okD(5) [OF b i(2)] by simp
  then show ?thesis using i n(2) by (simp add: create_queue_def allocate_queue_id_def a_char_def)
qed

lemma broker_ok_lugar:
  assumes b: "broker_ok b" and i: "i < 128" and x: "(x = []) = (c = None)"
  shows "broker_ok (b\<lparr>proj_id_to_queue_id := (proj_id_to_queue_id b)[i := x], colas := (colas b)(int i := c)\<rparr>)"
proof -
  let ?ids = "proj_id_to_queue_id b"
  have l: "length ?ids = 255" using broker_okD(1) [OF b] .
  have c: "(colas b p \<noteq> None) = (\<exists>j < 128. p = int j \<and> ?ids ! j \<noteq> [])"
    and v: "\<forall>j < 255. ?ids ! j \<noteq> [] \<longrightarrow> j < 128" for p using b by (simp_all add: broker_ok_def)
  have "(((colas b)(int i := c)) p \<noteq> None) = (\<exists>j < 128. p = int j \<and> ?ids[i := x] ! j \<noteq> [])" for p
  proof (cases "p = int i")
    case True
    then have "(\<exists>j < 128. p = int j \<and> ?ids[i := x] ! j \<noteq> []) = (x \<noteq> [])" using i l by auto
    then show ?thesis using x True by simp
  next
    case False
    then have "(j < 128 \<and> p = int j \<and> ?ids[i := x] ! j \<noteq> []) = (j < 128 \<and> p = int j \<and> ?ids ! j \<noteq> [])" for j
      by (cases "j = i") simp_all
    then show ?thesis using c [of p] False by simp
  qed
  moreover have "\<forall>j < 255. ?ids[i := x] ! j \<noteq> [] \<longrightarrow> j < 128" using v i l by (auto simp: nth_list_update)
  ultimately show ?thesis using l unfolding broker_ok_def by simp
qed

lemma nueva_cola:
  fixes b i n
  defines "b' \<equiv> b\<lparr>proj_id_to_queue_id := (proj_id_to_queue_id b)[i := n], colas := (colas b)(int i := Some [])\<rparr>"
  assumes b: "broker_ok b" and n: "n \<noteq> []" and i: "proj_id_to_queue_id b ! i = []" "i < 128"
  shows "broker_ok b'" and "n \<notin> set (proj_id_to_queue_id b) \<Longrightarrow> nombres_de b' = (nombres_de b)(n := Some [])"
    and "n \<notin> set (proj_id_to_queue_id b) \<Longrightarrow> sin_repetidos b \<Longrightarrow> sin_repetidos b'"
proof -
  let ?ids = "proj_id_to_queue_id b"
  have l: "length ?ids = 255" using broker_okD(1) [OF b] .
  show "broker_ok b'" unfolding b'_def by (rule broker_ok_lugar [OF b i(2)]) (use n in simp)
  show "nombres_de b' = (nombres_de b)(n := Some [])" if nuevo: "n \<notin> set ?ids"
  proof
    fix m
    have s: "(m \<in> set (?ids[i := n])) = (m \<in> set ?ids)" if "m \<noteq> []" "m \<noteq> n"
      using that i set_update_otro [of m ?ids i n] by simp
    have g: "get_proj_id m b' = get_proj_id m b" if "m \<noteq> []" "m \<noteq> n"
      using that i primero_update [of "\<lambda>x. x = m" n ?ids i] by (simp add: get_proj_id_def b'_def)
    have "\<forall>y \<in> set ?ids. y \<noteq> n" using nuevo by blast
    then have "get_proj_id n b' = int i" using primero_nuevo [of i ?ids "\<lambda>x. x = n" n] l i(2)
      by (simp add: get_proj_id_def b'_def a_char_def)
    moreover have "n \<in> set (?ids[i := n])" using l i(2) by (simp add: set_update_memI)
    moreover have "get_proj_id m b \<noteq> int i" if h: "m \<noteq> []" "m \<in> set ?ids"
    proof -
      obtain j where "j < 128" "get_proj_id m b = int j" "?ids ! j = m" using get_proj_id_hay [OF b h] by metis
      then show ?thesis using i(1) h(1) by auto
    qed
    ultimately show "nombres_de b' m = ((nombres_de b)(n := Some [])) m"
      using n s g by (cases "m = []"; cases "m = n") (auto simp: nombres_de_def, auto simp: b'_def)
  qed
  show "sin_repetidos b'" if nuevo: "n \<notin> set ?ids" and "sin_repetidos b"
  proof -
    have "?ids ! j \<noteq> n" if "j < 255" for j using nuevo l that by auto
    then show ?thesis using \<open>sin_repetidos b\<close> l i(2) by (auto simp: sin_repetidos_def b'_def nth_list_update)
  qed
qed

lemma lugar_con_cupo:
  assumes b: "broker_ok b" and r: "sin_repetidos b"
    and i: "primero (\<lambda>m. m = []) (proj_id_to_queue_id b) = Some i"
  shows "i \<le> card (dom (nombres_de b))"
proof -
  let ?ids = "proj_id_to_queue_id b"
  have l: "length ?ids = 255" using broker_okD(1) [OF b] .
  have i': "i < 255" "\<forall>j < i. ?ids ! j \<noteq> []" using primero_Some [OF i] l by auto
  have "inj_on (\<lambda>j. ?ids ! j) {..<i}" using r i' by (auto simp: inj_on_def sin_repetidos_def)
  then have "i = card ((\<lambda>j. ?ids ! j) ` {..<i})" by (simp add: card_image)
  also have "\<dots> \<le> card (dom (nombres_de b))"
    using i' l by (intro card_mono) (auto simp: dom_nombres [OF b])
  finally show ?thesis .
qed

lemma destroy_queue_lugar:
  assumes "broker_ok b" and "n \<noteq> []" and "n \<in> set (proj_id_to_queue_id b)" and "get_proj_id n b = int i"
  shows "destroy_queue n b =
    (Listo (), b\<lparr>proj_id_to_queue_id := (proj_id_to_queue_id b)[i := []], colas := (colas b)(int i := None)\<rparr>)"
proof -
  have "nombres_de b n \<noteq> None" using dom_nombres [OF assms(1)] assms(2,3) by blast
  then show ?thesis using cola_de_nombre [OF assms(1,2)] assms(4)
    by (simp add: destroy_queue_def deallocate_queue_id_def Let_def)
qed

lemma destroy_queue_ok:
  fixes b n
  defines "b' \<equiv> snd (destroy_queue n b)"
  assumes b: "broker_ok b" and r: "sin_repetidos b" and n: "n \<noteq> []"
  shows "fst (destroy_queue n b) = (if nombres_de b n = None then Fallo MessageBrokerError else Listo ())"
    and "broker_ok b'" and "sin_repetidos b'" and "nombres_de b' = (nombres_de b)(n := None)"
proof -
  let ?ids = "proj_id_to_queue_id b"
  note cola = cola_de_nombre [OF b n]
  have "fst (destroy_queue n b) = (if nombres_de b n = None then Fallo MessageBrokerError else Listo ()) \<and>
     broker_ok b' \<and> sin_repetidos b' \<and> nombres_de b' = (nombres_de b)(n := None)"
  proof (cases "n \<in> set ?ids")
    case False
    then have "nombres_de b n = None" by (simp add: nombres_de_def)
    then show ?thesis using b r cola by (simp add: destroy_queue_def b'_def Let_def fun_upd_idem)
  next
    case True
    obtain i where i: "i < 128" "get_proj_id n b = int i" "?ids ! i = n" using get_proj_id_hay [OF b n True] by metis
    have l: "length ?ids = 255" using broker_okD(1) [OF b] .
    have hay: "nombres_de b n \<noteq> None" using dom_nombres [OF b] True n by blast
    note d = destroy_queue_lugar [OF b n True i(2)]
    then have b': "b' = b\<lparr>proj_id_to_queue_id := ?ids[i := []], colas := (colas b)(int i := None)\<rparr>" by (simp add: b'_def)
    have unico: "j = i" if "j < 255" "?ids ! j = n" for j
    proof -
      have "i < 255" using i(1) by simp
      from sin_repetidosD [OF r that(1) this] that(2) i(3) n show ?thesis by simp
    qed
    have "sin_repetidos b'" using r i(1) l by (auto simp: sin_repetidos_def b' nth_list_update)
    moreover have "broker_ok b'" unfolding b' by (rule broker_ok_lugar [OF b i(1)]) simp
    moreover have "nombres_de b' = (nombres_de b)(n := None)"
    proof
      fix m
      have s: "(m \<in> set (?ids[i := []])) = (m \<in> set ?ids)" if "m \<noteq> []" "m \<noteq> n"
        using that i(3) set_update_otro [of m ?ids i "[]"] by simp
      have "n \<notin> set (?ids[i := []])"
      proof
        assume "n \<in> set (?ids[i := []])"
        then obtain k where k: "k < 255" "?ids[i := []] ! k = n" using l by (auto simp: in_set_conv_nth)
        then have "k \<noteq> i" using n l by auto
        then have "?ids ! k = n" using k(2) by simp
        from unico [OF k(1) this] \<open>k \<noteq> i\<close> show False by contradiction
      qed
      note s = s this
      have g: "get_proj_id m b' = get_proj_id m b" if "m \<noteq> []" "m \<noteq> n"
        using that i(3) primero_update [of "\<lambda>x. x = m" "[]" ?ids i] by (simp add: get_proj_id_def b')
      have "nombres_de b' m = nombres_de b m" if h: "m \<noteq> []" "m \<noteq> n"
      proof (cases "m \<in> set ?ids")
        case mem: True
        have "get_proj_id m b \<noteq> int i" using proj_id_distinto [OF b n h(1) _ True] h(2) i(2) by auto
        then have "colas b' (get_proj_id m b') = colas b (get_proj_id m b)" unfolding g [OF h] by (simp add: b')
        moreover have "m \<in> set (proj_id_to_queue_id b')" using mem s(1) [OF h] by (simp add: b')
        ultimately show ?thesis using mem by (simp add: nombres_de_def)
      next
        case False
        then have "m \<notin> set (proj_id_to_queue_id b')" using s(1) [OF h] by (simp add: b')
        then show ?thesis using False by (simp add: nombres_de_def)
      qed
      moreover have "nombres_de b' n = None" using s(2) by (simp add: nombres_de_def b')
      ultimately show "nombres_de b' m = ((nombres_de b)(n := None)) m"
        by (cases "m = n"; cases "m = []") (simp_all add: nombres_de_def)
    qed
    ultimately show ?thesis using d hay by simp
  qed
  then show "fst (destroy_queue n b) = (if nombres_de b n = None then Fallo MessageBrokerError else Listo ())"
    and "broker_ok b'" and "sin_repetidos b'" and "nombres_de b' = (nombres_de b)(n := None)" by blast+
qed

section \<open>Refinement\<close>

lemma create_queue_ok:
  assumes b: "broker_ok b" "sin_repetidos b" and n: "n \<noteq> []" "length n < 255"
    and a: "nombres_de b n = None" "card (dom (nombres_de b)) < 128"
  shows "fst (create_queue n b) = Listo () \<and> broker_ok (snd (create_queue n b)) \<and>
    sin_repetidos (snd (create_queue n b)) \<and> nombres_de (snd (create_queue n b)) = (nombres_de b)(n := Some [])"
proof -
  obtain i where i: "primero (\<lambda>m. m = []) (proj_id_to_queue_id b) = Some i" "proj_id_to_queue_id b ! i = []"
    using lugar_libre_broker [OF b(1)] by metis
  have "i < 128" using lugar_con_cupo [OF b i(1)] a(2) by simp
  moreover have "n \<notin> set (proj_id_to_queue_id b)" using dom_nombres [OF b(1)] a(1) n(1) by blast
  ultimately show ?thesis
    using create_queue_lugar [OF b(1) n i(1)] nueva_cola [OF b(1) n(1) i(2)] b(2) by simp
qed

lemma pull_no_falla: "pull t q \<noteq> Fallo e"
  by (auto simp: pull_def split: option.splits)

lemma meter_refina:
  assumes b: "broker_ok b" and n: "n \<noteq> []"
  shows "fst (atender (Meter n t m) b) = fst (esp_atender (Meter n t m) (nombres_de b)) \<and>
    nombres_de (snd (atender (Meter n t m) b)) = snd (esp_atender (Meter n t m) (nombres_de b)) \<and>
    broker_ok (snd (atender (Meter n t m) b)) \<and> sin_repetidos (snd (atender (Meter n t m) b)) = sin_repetidos b"
proof (cases "nombres_de b n")
  case None
  then show ?thesis using b cola_de_nombre [OF b n] by (simp add: broker_push_def Let_def)
next
  case (Some q)
  note c = cambiar_cola [OF b Some]
  show ?thesis using Some b cola_de_nombre [OF b n] c
    by (simp add: broker_push_def Let_def push_def como_broker_def)
qed

lemma sacar_refina:
  assumes b: "broker_ok b" and n: "n \<noteq> []"
  shows "fst (atender (Sacar n k t) b) = fst (esp_atender (Sacar n k t) (nombres_de b)) \<and>
    nombres_de (snd (atender (Sacar n k t) b)) = snd (esp_atender (Sacar n k t) (nombres_de b)) \<and>
    broker_ok (snd (atender (Sacar n k t) b)) \<and> sin_repetidos (snd (atender (Sacar n k t) b)) = sin_repetidos b"
proof (cases "nombres_de b n")
  case None
  then show ?thesis using b cola_de_nombre [OF b n] by (simp add: broker_pull_def Let_def)
next
  case (Some q)
  note c = cambiar_cola [OF b Some]
  show ?thesis
  proof (cases "pull t q")
    case (Listo r)
    obtain m q' where r: "r = (m, q')" by (cases r)
    show ?thesis using Some b cola_de_nombre [OF b n] c Listo r
      by (simp add: broker_pull_def Let_def como_broker_def)
  next
    case Bloqueado
    then show ?thesis using Some b cola_de_nombre [OF b n] by (simp add: broker_pull_def Let_def)
  next
    case (Fallo e)
    then show ?thesis using pull_no_falla by blast
  qed
qed

lemma atender_refina:
  assumes b: "broker_ok b" "sin_repetidos b" and p: "pedido_ok p (nombres_de b)"
  shows "fst (atender p b) = fst (esp_atender p (nombres_de b)) \<and>
    nombres_de (snd (atender p b)) = snd (esp_atender p (nombres_de b)) \<and>
    broker_ok (snd (atender p b)) \<and> sin_repetidos (snd (atender p b))"
proof (cases p)
  case (Crear n)
  obtain b' where "create_queue n b = (Listo (), b')" "broker_ok b'" "sin_repetidos b'"
      "nombres_de b' = (nombres_de b)(n := Some [])"
    using create_queue_ok [OF b, of n] p Crear by (cases "create_queue n b") auto
  then show ?thesis using Crear by simp
next
  case (Destruir n)
  then have n: "n \<noteq> []" using p by simp
  obtain r b' where d: "destroy_queue n b = (r, b')" by (cases "destroy_queue n b")
  show ?thesis using destroy_queue_ok [OF b n] d Destruir by (auto simp: fun_upd_idem)
next
  case (Meter n t m)
  then show ?thesis using meter_refina [OF b(1), of n t m] b(2) p by simp
next
  case (Sacar n k t)
  then show ?thesis using sacar_refina [OF b(1), of n k t] b(2) p by simp
qed

lemma atender_todos_refina:
  "broker_ok b \<Longrightarrow> sin_repetidos b \<Longrightarrow> pedidos_ok ps (nombres_de b) \<Longrightarrow>
     fst (atender_todos ps b) = fst (esp_atender_todos ps (nombres_de b)) \<and>
     nombres_de (snd (atender_todos ps b)) = snd (esp_atender_todos ps (nombres_de b)) \<and>
     broker_ok (snd (atender_todos ps b)) \<and> sin_repetidos (snd (atender_todos ps b))"
proof (induction ps arbitrary: b)
  case Nil
  then show ?case by simp
next
  case (Cons p ps)
  obtain r b1 where a: "atender p b = (r, b1)" by (cases "atender p b")
  have h: "r = fst (esp_atender p (nombres_de b))" "nombres_de b1 = snd (esp_atender p (nombres_de b))"
    "broker_ok b1" "sin_repetidos b1"
    using atender_refina [OF Cons.prems(1,2), of p] Cons.prems(3) a by simp_all
  have i: "fst (atender_todos ps b1) = fst (esp_atender_todos ps (nombres_de b1)) \<and>
     nombres_de (snd (atender_todos ps b1)) = snd (esp_atender_todos ps (nombres_de b1)) \<and>
     broker_ok (snd (atender_todos ps b1)) \<and> sin_repetidos (snd (atender_todos ps b1))"
    by (rule Cons.IH [OF h(3,4)]) (use Cons.prems(3) h(2) in simp)
  show ?case using i a h by (simp add: Let_def split_beta)
qed

section \<open>The contract of a queue\<close>

text \<open>
  A named queue of the broker, for clients that pull texts of at most \<open>tope\<close> bytes,
  provides what the kernel's queue provides.
\<close>

definition cola_en :: "string \<Rightarrow> broker \<Rightarrow> int \<Rightarrow> byte list list" where
  "cola_en n b t = (case nombres_de b n of None \<Rightarrow> [] | Some q \<Rightarrow> de_tipo t q)"

definition bien_en :: "string \<Rightarrow> nat \<Rightarrow> broker \<Rightarrow> bool" where
  "bien_en n tope b \<longleftrightarrow> broker_ok b \<and> (\<exists>q. nombres_de b n = Some q \<and> (\<forall>m \<in> set q. length (snd m) \<le> tope))"

definition meter_en :: "string \<Rightarrow> int \<Rightarrow> byte list \<Rightarrow> broker \<Rightarrow> broker llamada" where
  "meter_en n t m b = (case broker_push n t m b of (Listo u, b') \<Rightarrow> Listo b' | (Bloqueado, b') \<Rightarrow> Bloqueado | (Fallo e, b') \<Rightarrow> Fallo e)"

definition tomar_en :: "string \<Rightarrow> nat \<Rightarrow> int \<Rightarrow> broker \<Rightarrow> (byte list \<times> broker) llamada" where
  "tomar_en n tope t b =
     (case broker_pull n tope t b of (Listo m, b') \<Rightarrow> Listo (snd m, b') | (Bloqueado, b') \<Rightarrow> Bloqueado | (Fallo e, b') \<Rightarrow> Fallo e)"

lemma tomar_en_ok:
  assumes b: "bien_en n tope b" and t: "0 < t" and c: "cola_en n b t = m # ms"
  shows "\<exists>b'. tomar_en n tope t b = Listo (m, b') \<and> bien_en n tope b' \<and> cola_en n b' = (cola_en n b)(t := ms)"
proof -
  obtain q where q: "broker_ok b" "nombres_de b n = Some q" "\<forall>m \<in> set q. length (snd m) \<le> tope"
    using b by (auto simp: bien_en_def)
  then have n: "n \<noteq> []" by (auto simp: nombres_de_def)
  have d: "de_tipo t q = m # ms" using c q(2) by (simp add: cola_en_def)
  then obtain u x q' where p: "pull t q = Listo ((u, x), q')"
    using pull_tipo_Listo(1) [OF t, of q] by (metis list.distinct(1) prod.exhaust)
  note o = pull_tipo_ok [OF t p]
  let ?b = "b\<lparr>colas := (colas b)(get_proj_id n b := Some q')\<rparr>"
  have "length x \<le> tope" using o(1,5) q(3) by auto
  then have "broker_pull n tope t b = (Listo (u, x), ?b)"
    using cola_de_nombre [OF q(1) n] q(2) p by (simp add: broker_pull_def Let_def)
  moreover have "x = m" "de_tipo t q' = ms" using o(2) d by auto
  moreover have "bien_en n tope ?b" using cambiar_cola [OF q(1,2), of q'] o(5) q(3) by (auto simp: bien_en_def)
  moreover have "cola_en n ?b = (cola_en n b)(t := ms)"
    using cambiar_cola(2) [OF q(1,2), of q'] q(2) o(3) calculation(3) by (auto simp: cola_en_def fun_eq_iff)
  ultimately show ?thesis by (auto simp: tomar_en_def)
qed

interpretation cola_broker: cola_mensajes "cola_en n" "bien_en n tope" "\<lambda>m. length m \<le> tope" "meter_en n" "tomar_en n tope"
  for n tope
proof unfold_locales
  fix b t m ms
  assume b: "bien_en n tope b" and t: "0 < (t::int)"
  then obtain q where q: "broker_ok b" "nombres_de b n = Some q" "\<forall>m \<in> set q. length (snd m) \<le> tope"
    by (auto simp: bien_en_def)
  then have n: "n \<noteq> []" by (auto simp: nombres_de_def)
  note k = cola_de_nombre [OF q(1) n] and c = cambiar_cola [OF q(1,2)]
  show "\<exists>b'. meter_en n t m b = Listo b' \<and> bien_en n tope b' \<and> cola_en n b' = (cola_en n b)(t := cola_en n b t @ [m])"
    if "length m \<le> tope"
    using that t q k c by (auto simp: meter_en_def broker_push_def push_def Let_def bien_en_def cola_en_def fun_eq_iff)
  show "tomar_en n tope t b = Bloqueado" if "cola_en n b t = []"
    using that pull_tipo_Listo(2) [OF t, of q] q(2) k by (simp add: tomar_en_def broker_pull_def Let_def cola_en_def)
  show "\<exists>b'. tomar_en n tope t b = Listo (m, b') \<and> bien_en n tope b' \<and> cola_en n b' = (cola_en n b)(t := ms)"
    if "cola_en n b t = m # ms" using tomar_en_ok [OF b t that] .
qed

section \<open>Names given twice\<close>

lemma primero_repetido:
  "i < length xs \<Longrightarrow> P x \<Longrightarrow> primero P xs = Some j \<Longrightarrow> primero P (xs[i := x]) = Some (min i j)"
proof (induction xs arbitrary: i j)
  case Nil
  then show ?case by simp
next
  case (Cons y xs)
  show ?case
  proof (cases i)
    case 0
    then show ?thesis using Cons.prems by simp
  next
    case (Suc k)
    show ?thesis
    proof (cases "P y")
      case True
      then show ?thesis using Cons.prems Suc by simp
    next
      case False
      then obtain j' where j': "primero P xs = Some j'" "j = Suc j'" using Cons.prems(3) by auto
      then show ?thesis using Cons.IH [of k j'] Cons.prems(1,2) Suc False by simp
    qed
  qed
qed

lemma cola_repetida:
  fixes b i n
  defines "b' \<equiv> b\<lparr>proj_id_to_queue_id := (proj_id_to_queue_id b)[i := n], colas := (colas b)(int i := Some [])\<rparr>"
  assumes b: "broker_ok b" and n: "n \<noteq> []" "n \<in> set (proj_id_to_queue_id b)" and i: "proj_id_to_queue_id b ! i = []" "i < 128"
  shows "nombres_de b' n = nombres_de b n \<or> nombres_de b' n = Some []"
    and "m \<noteq> n \<Longrightarrow> nombres_de b' m = nombres_de b m"
    and "\<not> sin_repetidos b'" and "\<exists>q. nombres_de (snd (destroy_queue n b')) n = Some q"
proof -
  let ?ids = "proj_id_to_queue_id b"
  have l: "length ?ids = 255" using broker_okD(1) [OF b] .
  obtain j where j: "j < 128" "get_proj_id n b = int j" "?ids ! j = n" "primero (\<lambda>x. x = n) ?ids = Some j"
    using get_proj_id_hay [OF b n] .
  have ij: "i \<noteq> j" using i(1) j(3) n(1) by auto
  have "primero (\<lambda>x. x = n) (?ids[i := n]) = Some (min i j)" using primero_repetido [OF _ _ j(4), of i n] i(2) l by simp
  then have g: "get_proj_id n b' = int (min i j)" using i(2) by (auto simp: get_proj_id_def b'_def a_char_def)
  have en: "n \<in> set (proj_id_to_queue_id b')" using l i(2) by (simp add: set_update_memI b'_def)
  have "nombres_de b' n = colas b' (int (min i j))" using en n(1) g by (simp add: nombres_de_def)
  moreover have "nombres_de b n = colas b (int j)" using n j(2) by (simp add: nombres_de_def)
  ultimately show "nombres_de b' n = nombres_de b n \<or> nombres_de b' n = Some []"
    using ij by (cases "i < j") (simp_all add: b'_def)
  show "nombres_de b' m = nombres_de b m" if m: "m \<noteq> n"
  proof (cases "m = [] \<or> m \<notin> set ?ids")
    case True
    then show ?thesis using m i(1) set_update_otro [of m ?ids i n] by (auto simp: nombres_de_def b'_def)
  next
    case False
    then obtain k where k: "k < 128" "get_proj_id m b = int k" "?ids ! k = m" using get_proj_id_hay [OF b, of m] by blast
    have "[] \<noteq> m" using False by auto
    then have "primero (\<lambda>x. x = m) (?ids[i := n]) = primero (\<lambda>x. x = m) ?ids"
      using m i(1) primero_update [of "\<lambda>x. x = m" n ?ids i] by simp
    then have "get_proj_id m b' = get_proj_id m b" by (simp add: get_proj_id_def b'_def)
    moreover have "m \<in> set (proj_id_to_queue_id b')" using False m i(1) set_update_otro [of m ?ids i n] by (simp add: b'_def)
    moreover have "k \<noteq> i" using k(3) i(1) False by auto
    ultimately show ?thesis using False k(2) by (simp add: nombres_de_def) (simp add: b'_def)
  qed
  show "\<not> sin_repetidos b'"
  proof
    assume r: "sin_repetidos b'"
    have "i = j" by (rule sin_repetidosD [OF r]) (use i j ij l n(1) in \<open>simp_all add: b'_def\<close>)
    then show False using ij by contradiction
  qed
  have b': "broker_ok b'" unfolding b'_def by (rule broker_ok_lugar [OF b i(2)]) (use n in simp)
  let ?b = "b'\<lparr>proj_id_to_queue_id := (proj_id_to_queue_id b')[min i j := []], colas := (colas b')(int (min i j) := None)\<rparr>"
  have "broker_ok ?b" by (rule broker_ok_lugar [OF b']) (use i(2) in auto)
  moreover have "n \<in> set (proj_id_to_queue_id ?b)"
  proof -
    have "proj_id_to_queue_id ?b ! max i j = n" using ij j(3) l i(2) by (cases "i < j") (simp_all add: b'_def max_def min_def)
    moreover have "max i j < length (proj_id_to_queue_id ?b)" using l i(2) j(1) by (simp add: b'_def)
    ultimately show ?thesis using nth_mem by metis
  qed
  ultimately have "nombres_de ?b n \<noteq> None" using dom_nombres [of ?b] n(1) by blast
  then show "\<exists>q. nombres_de (snd (destroy_queue n b')) n = Some q"
    using destroy_queue_lugar [OF b' n(1) en g] by simp
qed

section \<open>A queue through its requests\<close>

lemma meter_en_Listo: "meter_en n t m b = Listo b' \<Longrightarrow> broker_push n t m b = (Listo (), b')"
  by (auto simp: meter_en_def split: llamada.splits prod.splits)

lemma tomar_en_Listo:
  assumes "tomar_en n tope t b = Listo (m, b')" and "0 < t"
  shows "broker_pull n tope t b = (Listo (t, m), b')"
proof -
  obtain u where p: "broker_pull n tope t b = (Listo (u, m), b')"
    using assms(1) by (auto simp: tomar_en_def split: llamada.splits prod.splits)
  then obtain q q' where l: "pull t q = Listo ((u, m), q')"
    by (auto simp: broker_pull_def Let_def split: option.splits llamada.splits if_splits)
  show ?thesis using pull_tipo_ok(1) [OF assms(2) l] p by simp
qed

lemma meter_todos_pedidos:
  "cola_broker.meter_todos n t ms b = Listo b' \<Longrightarrow>
     atender_todos (map (Meter n t) ms) b = (replicate (length ms) (Listo None), b')"
proof (induction ms arbitrary: b)
  case Nil
  then show ?case by simp
next
  case (Cons m ms)
  obtain b1 where m: "meter_en n t m b = Listo b1" and "cola_broker.meter_todos n t ms b1 = Listo b'"
    using Cons.prems by (auto split: llamada.splits)
  then show ?case using Cons.IH [of b1] meter_en_Listo [OF m] by simp
qed

lemma tomar_n_pedidos:
  "cola_broker.tomar_n n tope t k b = Listo (ms, b') \<Longrightarrow> 0 < t \<Longrightarrow>
     atender_todos (replicate k (Sacar n tope t)) b = (map (\<lambda>m. Listo (Some (t, m))) ms, b')"
proof (induction k arbitrary: b ms)
  case 0
  then show ?case by simp
next
  case (Suc k)
  obtain m ms' b1 where m: "tomar_en n tope t b = Listo (m, b1)" and ms: "ms = m # ms'"
    and c: "cola_broker.tomar_n n tope t k b1 = Listo (ms', b')"
    using Suc.prems(1) by (auto split: llamada.splits prod.splits)
  show ?case using Suc.IH [OF c Suc.prems(2)] tomar_en_Listo [OF m Suc.prems(2)] ms by simp
qed

lemma atender_todos_append:
  "atender_todos (ps @ qs) b =
     (fst (atender_todos ps b) @ fst (atender_todos qs (snd (atender_todos ps b))), snd (atender_todos qs (snd (atender_todos ps b))))"
  by (induction ps arbitrary: b) (simp_all add: Let_def split_beta)

lemma atender_otros:
  assumes "broker_ok b" and "\<forall>p \<in> set ps. \<exists>t x k. p = Meter n t x \<or> p = Sacar n k t" and "n \<noteq> []" and "m \<noteq> n"
  shows "nombres_de (snd (atender_todos ps b)) m = nombres_de b m"
  using assms(1,2)
proof (induction ps arbitrary: b)
  case Nil
  then show ?case by simp
next
  case (Cons p ps)
  obtain r b1 where a: "atender p b = (r, b1)" by (cases "atender p b")
  have "broker_ok b1 \<and> nombres_de b1 m = nombres_de b m"
  proof -
    consider t x where "p = Meter n t x" | t k where "p = Sacar n k t" using Cons.prems(2) by auto
    then show ?thesis
    proof cases
      case 1
      then show ?thesis using meter_refina [OF Cons.prems(1) assms(3), of t x] a assms(4) by (simp split: option.splits if_splits)
    next
      case 2
      then show ?thesis using sacar_refina [OF Cons.prems(1) assms(3), of k t] a assms(4)
        by (simp split: option.splits llamada.splits if_splits prod.splits)
    qed
  qed
  moreover have "nombres_de (snd (atender_todos ps b1)) m = nombres_de b1 m"
    by (rule Cons.IH) (use calculation Cons.prems(2) in auto)
  ultimately show ?case using a by (simp add: Let_def split_beta)
qed

definition pedidos_ejemplo :: "pedido list" where
  "pedidos_ejemplo =
     [Crear ''a'', Crear ''b'', Meter ''a'' 1 [7], Meter ''a'' 2 [8, 9], Sacar ''a'' 4 2, Destruir ''b'', Sacar ''b'' 4 0]"

section \<open>Properties\<close>

text \<open>
  C26. The broker is a map from names to queues: on any sequence of requests that creates a
  name only when it is new and fewer than 128 are alive, every answer, errors and blocked
  calls included, is that of the map, and what is left in the table and the kernel's queues
  stands for the map's result.
\<close>

theorem broker_refina:
  assumes "broker_ok b" and "sin_repetidos b" and "pedidos_ok ps (nombres_de b)"
  shows "fst (atender_todos ps b) = fst (esp_atender_todos ps (nombres_de b)) \<and>
    nombres_de (snd (atender_todos ps b)) = snd (esp_atender_todos ps (nombres_de b)) \<and>
    broker_ok (snd (atender_todos ps b)) \<and> sin_repetidos (snd (atender_todos ps b))"
  by (rule atender_todos_refina [OF assms])

theorem broker_refina_witness:
  "fst (atender_todos pedidos_ejemplo (crear_broker (\<lambda>_. None))) =
    [Listo None, Listo None, Listo None, Listo None, Listo (Some (2, [8, 9])), Listo None, Fallo MessageBrokerError]"
proof -
  have "pedidos_ok pedidos_ejemplo (\<lambda>_. None)" by (simp add: pedidos_ejemplo_def)
  then have "fst (atender_todos pedidos_ejemplo (crear_broker (\<lambda>_. None))) = fst (esp_atender_todos pedidos_ejemplo (\<lambda>_. None))"
    using broker_refina [OF broker_ok_inicio(1,2), of pedidos_ejemplo] by (simp add: broker_ok_inicio(3))
  then show ?thesis by (simp add: pedidos_ejemplo_def pull_def)
qed

text \<open>
  A queue of the broker is a FIFO for each type: texts that fit pushed with a type on a
  queue that has none of it come back, in order, to as many pulls of that type; the other
  types of the queue and the other queues keep their messages.
\<close>

theorem broker_fifo:
  assumes "broker_ok b" and "nombres_de b n = Some q" and "0 < t" and "de_tipo t q = []"
    and "\<forall>m \<in> set q. length (snd m) \<le> tope" and "\<forall>m \<in> set ms. length m \<le> tope"
  shows "\<exists>b'. atender_todos (map (Meter n t) ms @ replicate (length ms) (Sacar n tope t)) b =
      (replicate (length ms) (Listo None) @ map (\<lambda>m. Listo (Some (t, m))) ms, b') \<and>
    (\<forall>m u. cola_en m b' u = cola_en m b u)"
proof -
  have bien: "bien_en n tope b" and nada: "cola_en n b t = []" using assms by (auto simp: bien_en_def cola_en_def)
  obtain b1 b2 where m: "cola_broker.meter_todos n t ms b = Listo b1"
    and s: "cola_broker.tomar_n n tope t (length ms) b1 = Listo (ms, b2)" and c: "cola_en n b2 = cola_en n b"
    using cola_broker.ida_y_vuelta [OF bien assms(3) nada assms(6)] by blast
  let ?ps = "map (Meter n t) ms @ replicate (length ms) (Sacar n tope t)"
  have a: "atender_todos ?ps b = (replicate (length ms) (Listo None) @ map (\<lambda>m. Listo (Some (t, m))) ms, b2)"
    using meter_todos_pedidos [OF m] tomar_n_pedidos [OF s assms(3)] by (simp add: atender_todos_append)
  have n: "n \<noteq> []" using assms(2) by (auto simp: nombres_de_def)
  have "nombres_de (snd (atender_todos ?ps b)) m = nombres_de b m" if "m \<noteq> n" for m
    by (rule atender_otros) (use that n assms(1) in auto)
  then have "cola_en m b2 u = cola_en m b u" for m u using c a by (cases "m = n") (auto simp: cola_en_def)
  then show ?thesis using a by blast
qed

theorem broker_fifo_witness:
  "\<exists>b b'. atender_todos [Meter ''a'' 3 [1], Meter ''a'' 3 [2, 2], Sacar ''a'' 8 3, Sacar ''a'' 8 3] b =
    ([Listo None, Listo None, Listo (Some (3, [1])), Listo (Some (3, [2, 2]))], b')"
proof -
  let ?b = "snd (create_queue ''a'' (crear_broker (\<lambda>_. None)))"
  have "broker_ok ?b" and "nombres_de ?b ''a'' = Some []"
    using create_queue_ok [OF broker_ok_inicio(1,2), of "''a''"] by (simp_all add: broker_ok_inicio(3))
  from broker_fifo [OF this, of 3 8 "[[1], [2, 2]]"] show ?thesis by (auto simp: numeral_eq_Suc)
qed

text \<open>
  C27. Creating a queue, on every branch: while one of the first 128 slots is free it
  succeeds, and a new name gets an empty queue; with none free it writes outside the table,
  so the error for a full table is never raised. A name that exists is not refused: it gets a
  second slot, its messages may be lost to an empty queue, and destroying it does not remove it.
\<close>

theorem create_contrato:
  assumes b: "broker_ok b" and n: "n \<noteq> []" "length n < 255"
  shows "(if \<exists>i < 128. proj_id_to_queue_id b ! i = []
     then fst (create_queue n b) = Listo () \<and> broker_ok (snd (create_queue n b)) \<and>
       (\<forall>m. m \<noteq> n \<longrightarrow> nombres_de (snd (create_queue n b)) m = nombres_de b m) \<and>
       (case nombres_de b n of
          None \<Rightarrow> nombres_de (snd (create_queue n b)) n = Some []
        | Some q \<Rightarrow> nombres_de (snd (create_queue n b)) n \<in> {Some q, Some []} \<and>
            nombres_de (snd (destroy_queue n (snd (create_queue n b)))) n \<noteq> None)
     else create_queue n b = (Fallo Fuera_de_rango, b))"
proof (cases "\<exists>i < 128. proj_id_to_queue_id b ! i = []")
  case hay: True
  obtain i where i: "primero (\<lambda>m. m = []) (proj_id_to_queue_id b) = Some i" "proj_id_to_queue_id b ! i = []" "i < 128"
    using lugar_libre_broker [OF b] hay by (metis not_less order.strict_trans1 not_less_iff_gr_or_eq)
  let ?b = "b\<lparr>proj_id_to_queue_id := (proj_id_to_queue_id b)[i := n], colas := (colas b)(int i := Some [])\<rparr>"
  have c: "create_queue n b = (Listo (), ?b)" using create_queue_lugar [OF b n i(1,3)] .
  have ok: "broker_ok ?b" using nueva_cola(1) [OF b n(1) i(2,3)] .
  show ?thesis
  proof (cases "n \<in> set (proj_id_to_queue_id b)")
    case False
    then have "nombres_de b n = None" by (simp add: nombres_de_def)
    then show ?thesis using hay c ok nueva_cola(2) [OF b n(1) i(2,3) False] by simp
  next
    case True
    then obtain q where q: "nombres_de b n = Some q" using dom_nombres [OF b] n(1) by blast
    note r = cola_repetida [OF b n(1) True i(2,3)]
    show ?thesis using hay c ok q r(1,4) r(2) by auto
  qed
next
  case False
  obtain i where "i \<le> 128" "primero (\<lambda>m. m = []) (proj_id_to_queue_id b) = Some i" "proj_id_to_queue_id b ! i = []"
    using lugar_libre_broker [OF b] by metis
  moreover have "i = 128" using calculation False by (metis le_neq_implies_less)
  ultimately have "create_queue n b = (Fallo Fuera_de_rango, b)"
    by (simp add: create_queue_def allocate_queue_id_def a_char_def como_broker_def)
  then show ?thesis using False by simp
qed

theorem create_contrato_witness:
  "fst (create_queue ''a'' (crear_broker (\<lambda>_. None))) = Listo ()"
proof -
  have "\<exists>i < 128. proj_id_to_queue_id (crear_broker (\<lambda>_. None)) ! i = []"
    by (rule exI [of _ 0]) (simp add: crear_broker_def)
  then show ?thesis using create_contrato [OF broker_ok_inicio(1), of "''a''"] by simp
qed

end
