(* ===== verification/BrokerRemoto.thy ===== *)
theory BrokerRemoto
  imports Broker Transferencia
begin

text \<open>
  The message broker over the network: \<^verbatim>\<open>local_broker/message_broker_stub.cpp\<close> turns
  each operation into a \<^verbatim>\<open>BrokerRequest\<close>, \<^verbatim>\<open>local_broker/message_broker_server.cpp\<close>
  reads it, calls the broker and writes a \<^verbatim>\<open>BrokerResponse\<close>. Both are structs sent as
  the bytes they are, on a machine where \<^verbatim>\<open>int\<close> takes 4 bytes, \<^verbatim>\<open>long\<close> and
  \<^verbatim>\<open>size_t\<close> 8, lowest first, and a field is aligned to its size. Every buffer starts with
  what the stack held.
\<close>

section \<open>Numbers and strings as bytes\<close>

primrec entero :: "nat \<Rightarrow> nat \<Rightarrow> byte list" where
  "entero 0 n = []"
| "entero (Suc k) n = of_nat (n mod 256) # entero k (n div 256)"

primrec leer :: "byte list \<Rightarrow> nat" where
  "leer [] = 0"
| "leer (b # bs) = unat b + 256 * leer bs"

definition largo :: "int \<Rightarrow> byte list" where
  "largo v = entero 8 (nat (v mod 2 ^ 64))"

definition leer_largo :: "byte list \<Rightarrow> int" where
  "leer_largo bs = (if leer bs < 2 ^ 63 then int (leer bs) else int (leer bs) - 2 ^ 64)"

definition cadena :: "string \<Rightarrow> byte list" where
  "cadena s = map of_char s @ [0]"

definition leer_cadena :: "byte list \<Rightarrow> string" where
  "leer_cadena bs = map (\<lambda>b. char_of (unat b)) (takeWhile (\<lambda>b. b \<noteq> 0) bs)"

definition campo :: "nat \<Rightarrow> nat \<Rightarrow> byte list \<Rightarrow> byte list" where
  "campo pos k buf = take k (drop pos buf)"

section \<open>Messages\<close>

definition MAX_MSG_SIZE :: nat where
  "MAX_MSG_SIZE = 16384"

definition BROKER_CREATE :: nat where "BROKER_CREATE = 0"

definition BROKER_PUSH :: nat where "BROKER_PUSH = 1"

definition BROKER_PULL :: nat where "BROKER_PULL = 2"

definition BROKER_DESTROY :: nat where "BROKER_DESTROY = 3"

definition BROKER_ERROR :: nat where "BROKER_ERROR = 4"

definition BROKER_OK :: nat where "BROKER_OK = 5"

text \<open>The offsets of \<^verbatim>\<open>BrokerRequest\<close>; \<^verbatim>\<open>mtypebroker\<close> is at 0.\<close>

definition POS_PROC :: nat where "POS_PROC = 4"

definition POS_QUEUE :: nat where "POS_QUEUE = 259"

definition POS_SIZE :: nat where "POS_SIZE = 520"

definition POS_MAX :: nat where "POS_MAX = 528"

definition POS_TYPE :: nat where "POS_TYPE = 536"

definition POS_MSG :: nat where "POS_MSG = 544"

definition TAM_REQUEST :: nat where "TAM_REQUEST = POS_MSG + 16384"

text \<open>And of \<^verbatim>\<open>BrokerResponse\<close>.\<close>

definition POS_RMSG :: nat where "POS_RMSG = 4"

definition POS_RSIZE :: nat where "POS_RSIZE = 16392"

definition TAM_RESPONSE :: nat where "TAM_RESPONSE = POS_RSIZE + 8"

lemmas broker_constantes = MAX_MSG_SIZE_def BROKER_CREATE_def BROKER_PUSH_def BROKER_PULL_def BROKER_DESTROY_def
  BROKER_ERROR_def BROKER_OK_def
lemmas posiciones = POS_PROC_def POS_QUEUE_def POS_SIZE_def POS_MAX_def POS_TYPE_def POS_MSG_def TAM_REQUEST_def
  POS_RMSG_def POS_RSIZE_def TAM_RESPONSE_def

section \<open>The broker on buffers\<close>

text \<open>A message in memory is its type, a \<^verbatim>\<open>long\<close>, followed by its text.\<close>

definition buf_push :: "string \<Rightarrow> byte list \<Rightarrow> nat \<Rightarrow> broker \<Rightarrow> unit llamada \<times> broker" where
  "buf_push queue_id msg size_txt b = broker_push queue_id (leer_largo (take 8 msg)) (take size_txt (drop 8 msg)) b"

definition buf_pull :: "string \<Rightarrow> byte list \<Rightarrow> nat \<Rightarrow> int \<Rightarrow> broker \<Rightarrow> (byte list \<times> int) llamada \<times> broker" where
  "buf_pull queue_id msg max_size_txt type b =
     (case broker_pull queue_id max_size_txt type b of
        (Listo (t, m), b') \<Rightarrow> (Listo (escribir 0 (largo t @ m) msg, int (length m)), b')
      | (Bloqueado, b') \<Rightarrow> (Bloqueado, b')
      | (Fallo e, b') \<Rightarrow> (Fallo e, b'))"

section \<open>All the bytes\<close>

text \<open>\<^verbatim>\<open>sendsome\<close> takes at least one byte of what is left, as many as the kernel wants (\<open>cortes\<close>).\<close>

function sendall :: "byte list \<Rightarrow> nat list \<Rightarrow> byte list \<times> bool" where
  "sendall bs cortes =
     (let n = leidos (length bs) bs cortes
      in if n = 0 \<or> length bs \<le> n then (take n bs, length bs \<le> n)
         else let (xs, bien) = sendall (drop n bs) (tl cortes) in (take n bs @ xs, bien))"
  by pat_completeness auto
termination
  by (relation "measure (\<lambda>(bs, cortes). length bs)") auto

declare sendall.simps [simp del]

text \<open>
  The bytes come from a stream \<open>red\<close>, whose peer closes after them unless \<open>abierta\<close>. The
  result: the buffer, whether it is complete, and what is left in the stream.
\<close>

function receiveall :: "bool \<Rightarrow> nat \<Rightarrow> nat \<Rightarrow> byte list \<Rightarrow> byte list \<Rightarrow> nat list \<Rightarrow> (byte list \<times> bool \<times> byte list) llamada" where
  "receiveall abierta data_len van buf red cortes =
     (let n = leidos (data_len - van) red cortes; b = escribir van (take n red) buf
      in if n = 0 \<and> abierta then Bloqueado
         else if n = 0 \<or> data_len \<le> van + n then Listo (b, data_len \<le> van + n, drop n red)
         else receiveall abierta data_len (van + n) b (drop n red) (tl cortes))"
  by pat_completeness auto
termination
  by (relation "measure (\<lambda>(abierta, data_len, van, buf, red, cortes). data_len - van)") (auto simp: Let_def)

declare receiveall.simps [simp del]

section \<open>The server\<close>

definition responder :: "byte list \<Rightarrow> unit llamada \<times> broker \<Rightarrow> byte list llamada \<times> broker" where
  "responder resp rb =
     (case rb of
        (Listo u, b) \<Rightarrow> (Listo resp, b)
      | (Bloqueado, b) \<Rightarrow> (Bloqueado, b)
      | (Fallo e, b) \<Rightarrow>
          (if e = MessageBrokerError then (Listo (escribir 0 (entero 4 BROKER_ERROR) resp), b) else (Fallo e, b)))"

text \<open>One turn of \<^verbatim>\<open>client_handler\<close> on a complete request. It never writes \<^verbatim>\<open>msg_size\<close>.\<close>

definition server_atender :: "byte list \<Rightarrow> byte list \<Rightarrow> broker \<Rightarrow> byte list llamada \<times> broker" where
  "server_atender req basura b =
     (let resp = escribir 0 (entero 4 BROKER_OK) basura;
          tipo = leer (campo 0 4 req);
          queue_id = leer_cadena (drop POS_QUEUE req)
      in if tipo = BROKER_CREATE then responder resp (create_queue queue_id b)
         else if tipo = BROKER_PUSH
           then responder resp (buf_push queue_id (drop POS_MSG req) (leer (campo POS_SIZE 8 req)) b)
         else if tipo = BROKER_PULL
           then (case buf_pull queue_id (drop POS_RMSG resp) (leer (campo POS_MAX 8 req)) (leer_largo (campo POS_TYPE 8 req)) b of
                   (Listo (msg, n), b') \<Rightarrow> (Listo (take POS_RMSG resp @ msg), b')
                 | (Bloqueado, b') \<Rightarrow> (Bloqueado, b')
                 | (Fallo e, b') \<Rightarrow> responder resp (Fallo e, b'))
         else if tipo = BROKER_DESTROY then responder resp (destroy_queue queue_id b)
         else (Listo resp, b))"

section \<open>The stub\<close>

text \<open>
  What one call finds: how the kernel cuts each of the four transfers, what the buffers held,
  and after how many bytes of the response the server dies, if it does.
\<close>

record conexion =
  corte_ida :: "nat list"
  corte_servidor :: "nat list"
  corte_vuelta :: "nat list"
  corte_cliente :: "nat list"
  basura_request :: "byte list"
  basura_servidor :: "byte list"
  basura_respuesta :: "byte list"
  basura_response :: "byte list"
  muere :: "nat option"

text \<open>A request, with its fields beyond the name of the queue, in the order the stub writes them.\<close>

definition armar :: "nat \<Rightarrow> string \<Rightarrow> (nat \<times> byte list) list \<Rightarrow> string \<Rightarrow> byte list \<Rightarrow> byte list" where
  "armar clase queue_id campos proc basura =
     escribir POS_PROC (cadena proc)
       (foldl (\<lambda>buf (pos, bs). escribir pos bs buf)
          (escribir POS_QUEUE (cadena queue_id) (escribir 0 (entero 4 clase) basura)) campos)"

text \<open>
  The request travels, the server answers, the response travels back. The stub does not look
  at whether \<^verbatim>\<open>receiveall\<close> completed.
\<close>

definition llamar :: "conexion \<Rightarrow> byte list \<Rightarrow> broker \<Rightarrow> byte list llamada \<times> broker" where
  "llamar cx req b =
     (case receiveall False TAM_REQUEST 0 (basura_servidor cx) (fst (sendall req (corte_ida cx))) (corte_servidor cx) of
        Listo (req', True, resto) \<Rightarrow>
          (case server_atender req' (basura_respuesta cx) b of
             (Listo resp, b') \<Rightarrow>
               (let enviado = fst (sendall resp (corte_vuelta cx));
                    llega = (case muere cx of None \<Rightarrow> enviado | Some k \<Rightarrow> take k enviado)
                in case receiveall False TAM_RESPONSE 0 (basura_response cx) llega (corte_cliente cx) of
                     Listo (resp', bien, resto') \<Rightarrow> (Listo resp', b')
                   | Bloqueado \<Rightarrow> (Bloqueado, b')
                   | Fallo e \<Rightarrow> (Fallo e, b'))
           | (Bloqueado, b') \<Rightarrow> (Bloqueado, b')
           | (Fallo e, b') \<Rightarrow> (Fallo e, b'))
      | Listo (req', False, resto) \<Rightarrow> (Listo (basura_response cx), b)
      | Bloqueado \<Rightarrow> (Bloqueado, b)
      | Fallo e \<Rightarrow> (Fallo e, b))"

definition resultado :: "byte list llamada \<times> broker \<Rightarrow> unit llamada \<times> broker" where
  "resultado rb =
     (case rb of
        (Listo resp, b) \<Rightarrow> (if leer (campo 0 4 resp) = BROKER_ERROR then Fallo MessageBrokerError else Listo (), b)
      | (Bloqueado, b) \<Rightarrow> (Bloqueado, b)
      | (Fallo e, b) \<Rightarrow> (Fallo e, b))"

definition stub_create_queue :: "conexion \<Rightarrow> string \<Rightarrow> string \<Rightarrow> broker \<Rightarrow> unit llamada \<times> broker" where
  "stub_create_queue cx proc queue_id b = resultado (llamar cx (armar BROKER_CREATE queue_id [] proc (basura_request cx)) b)"

definition stub_destroy_queue :: "conexion \<Rightarrow> string \<Rightarrow> string \<Rightarrow> broker \<Rightarrow> unit llamada \<times> broker" where
  "stub_destroy_queue cx proc queue_id b = resultado (llamar cx (armar BROKER_DESTROY queue_id [] proc (basura_request cx)) b)"

definition stub_push :: "conexion \<Rightarrow> string \<Rightarrow> string \<Rightarrow> byte list \<Rightarrow> nat \<Rightarrow> broker \<Rightarrow> unit llamada \<times> broker" where
  "stub_push cx proc queue_id msg size_txt b =
     (if MAX_MSG_SIZE < size_txt + 8 then (Fallo MessageBrokerError, b)
      else resultado (llamar cx
             (armar BROKER_PUSH queue_id [(POS_SIZE, entero 8 size_txt), (POS_MSG, take (size_txt + 8) msg)] proc (basura_request cx)) b))"

definition stub_pull :: "conexion \<Rightarrow> string \<Rightarrow> string \<Rightarrow> byte list \<Rightarrow> nat \<Rightarrow> int \<Rightarrow> broker \<Rightarrow> (byte list \<times> int) llamada \<times> broker" where
  "stub_pull cx proc queue_id msg max_size_txt type b =
     (if MAX_MSG_SIZE < max_size_txt + 8 then (Fallo MessageBrokerError, b)
      else case llamar cx (armar BROKER_PULL queue_id [(POS_MAX, entero 8 max_size_txt), (POS_TYPE, largo type)] proc (basura_request cx)) b of
             (Listo resp, b') \<Rightarrow>
               (if leer (campo 0 4 resp) = BROKER_ERROR then Fallo MessageBrokerError
                else Listo (escribir 0 (campo POS_RMSG (max_size_txt + 8) resp) msg, leer_largo (campo POS_RSIZE 8 resp)), b')
           | (Bloqueado, b') \<Rightarrow> (Bloqueado, b')
           | (Fallo e, b') \<Rightarrow> (Fallo e, b'))"

section \<open>Bytes read back\<close>

lemma length_entero [simp]: "length (entero k n) = k"
  by (induction k arbitrary: n) simp_all

lemma leer_entero: "leer (entero k n) = n mod 256 ^ k"
proof (induction k arbitrary: n)
  case 0
  then show ?case by simp
next
  case (Suc k)
  have "unat (of_nat (n mod 256) :: byte) = n mod 256" by (simp add: unat_of_nat)
  then show ?case using Suc [of "n div 256"] mod_mult2_eq [of n 256 "256 ^ k"] by simp
qed

lemma length_largo [simp]: "length (largo v) = 8"
  by (simp add: largo_def)

lemma leer_largo_largo: "- (2 ^ 63) \<le> v \<Longrightarrow> v < 2 ^ 63 \<Longrightarrow> leer_largo (largo v) = v"
proof -
  assume v: "- (2 ^ 63) \<le> v" "v < 2 ^ 63"
  have l: "leer (largo v) = nat (v mod 2 ^ 64)" by (simp add: largo_def leer_entero nat_less_iff)
  show ?thesis
  proof (cases "0 \<le> v")
    case True
    then show ?thesis using v l by (simp add: leer_largo_def nat_less_iff)
  next
    case False
    then have "v mod 2 ^ 64 = v + 2 ^ 64" using v by (simp add: mod_pos_neg_trivial zmod_trivial_iff mod_add_self2 [of v, symmetric] del: mod_add_self2)
    then show ?thesis using v False l by (simp add: leer_largo_def nat_less_iff)
  qed
qed

lemma char_byte: "char_of (unat (of_char c :: byte)) = c"
proof -
  have "(of_char c :: byte) = of_nat (of_char c)" by (simp only: of_nat_of_char)
  then have "unat (of_char c :: byte) = of_char c mod 256" by (simp add: unat_of_nat del: of_char_mod_256)
  then show ?thesis by simp
qed

lemma byte_cero: "((of_char c :: byte) = 0) = (c = CHR 0x00)"
proof
  assume "(of_char c :: byte) = 0"
  then have "char_of (unat (0 :: byte)) = c" using char_byte [of c] by simp
  moreover have "char_of (0 :: nat) = CHR 0x00" by (simp add: char_of_def)
  ultimately show "c = CHR 0x00" by simp
qed simp

lemma length_cadena [simp]: "length (cadena s) = length s + 1"
  by (simp add: cadena_def)

lemma leer_cadena_cadena:
  assumes "CHR 0x00 \<notin> set s"
  shows "leer_cadena (cadena s @ xs) = s"
proof -
  have "takeWhile (\<lambda>b. b \<noteq> 0) (map of_char s @ 0 # xs) = (map of_char s :: byte list)"
    using assms by (induction s) (auto simp: byte_cero)
  then show ?thesis by (simp add: leer_cadena_def cadena_def char_byte comp_def)
qed

lemma campo_escribir [simp]: "pos + length bs \<le> length buf \<Longrightarrow> k = length bs \<Longrightarrow> campo pos k (escribir pos bs buf) = bs"
  by (simp add: campo_def escribir_def)

lemma campo_escribir_antes:
  assumes "pos + k \<le> p" and "p + length bs \<le> length buf"
  shows "campo pos k (escribir p bs buf) = campo pos k buf"
proof -
  have "campo pos k (escribir p bs buf) = take k (drop pos (take p buf))" using assms by (simp add: campo_def escribir_def)
  also have "\<dots> = take k (take (p - pos) (drop pos buf))" by (simp only: drop_take)
  also have "\<dots> = campo pos k buf" using assms by (simp only: take_take campo_def) (simp add: min_absorb1)
  finally show ?thesis .
qed

lemma campo_escribir_despues:
  "p + length bs \<le> pos \<Longrightarrow> p + length bs \<le> length buf \<Longrightarrow> campo pos k (escribir p bs buf) = campo pos k buf"
  by (simp add: campo_def escribir_def drop_append)

lemmas campos = campo_escribir campo_escribir_antes campo_escribir_despues

section \<open>Nothing is lost on the way\<close>

lemma sendall_ok: "sendall bs cortes = (bs, True)"
proof (induction bs cortes rule: sendall.induct)
  case (1 bs cortes)
  define n where "n = leidos (length bs) bs cortes"
  show ?case
  proof (cases "n = 0 \<or> length bs \<le> n")
    case True
    then have "length bs \<le> n" using leidos_pos [of "length bs" bs cortes] by (cases "bs = []") (auto simp: n_def)
    then show ?thesis by (simp add: sendall.simps [of bs] Let_def n_def [symmetric])
  next
    case False
    then show ?thesis using 1 [OF n_def] by (simp add: sendall.simps [of bs] Let_def n_def [symmetric])
  qed
qed

lemma receiveall_ok:
  assumes "van < data_len" and "length buf = data_len" and "data_len - van \<le> length red"
  shows "receiveall abierta data_len van buf red cortes =
    Listo (take van buf @ take (data_len - van) red, True, drop (data_len - van) red)"
  using assms
proof (induction abierta data_len van buf red cortes rule: receiveall.induct)
  case (1 abierta data_len van buf red cortes)
  define n where "n = leidos (data_len - van) red cortes"
  have "red \<noteq> []" using 1(2,4) by auto
  then have n: "0 < n" "n \<le> data_len - van" "n \<le> length red"
    using leidos_pos [of "data_len - van" red cortes] leidos_cotas [of "data_len - van" red cortes] 1(2)
    unfolding n_def by auto
  define b where "b = take van buf @ take n red @ drop (van + n) buf"
  have e: "escribir van (take n red) buf = b" using n(3) by (simp add: escribir_def b_def)
  show ?case
  proof (cases "data_len \<le> van + n")
    case True
    then have "n = data_len - van" using n(2) by simp
    then show ?thesis using True n 1(2,3) e by (simp add: receiveall.simps [of _ _ van] Let_def n_def [symmetric] b_def)
  next
    case False
    have "receiveall abierta data_len (van + n) b (drop n red) (tl cortes) =
        Listo (take (van + n) b @ take (data_len - (van + n)) (drop n red), True, drop (data_len - (van + n)) (drop n red))"
      by (rule 1(1) [OF n_def e [symmetric]]) (use False n 1(2,3,4) in \<open>auto simp: b_def\<close>)
    moreover have "take (van + n) b = take van buf @ take n red" using 1(2,3) n by (simp add: b_def)
    moreover have "take n red @ take (data_len - (van + n)) (drop n red) = take (data_len - van) red"
      using take_add [of n "data_len - (van + n)" red] False by simp
    ultimately show ?thesis using n(1) False e by (simp add: receiveall.simps [of _ _ van] Let_def n_def [symmetric])
  qed
qed

text \<open>With nothing there and the peer gone, the buffer stays as it was.\<close>

lemma receiveall_nada: "0 < data_len \<Longrightarrow> receiveall False data_len 0 buf [] cortes = Listo (buf, False, [])"
  by (simp add: receiveall.simps [of _ _ 0] Let_def leidos_def escribir_def)

text \<open>A connection whose buffers have the size of their structs.\<close>

definition conexion_ok :: "conexion \<Rightarrow> bool" where
  "conexion_ok cx \<longleftrightarrow> length (basura_request cx) = TAM_REQUEST \<and> length (basura_servidor cx) = TAM_REQUEST \<and>
     length (basura_respuesta cx) = TAM_RESPONSE \<and> length (basura_response cx) = TAM_RESPONSE"

definition nombre_ok :: "string \<Rightarrow> bool" where
  "nombre_ok s \<longleftrightarrow> length s < 255 \<and> CHR 0x00 \<notin> set s"

lemma llamar_ok:
  assumes cx: "conexion_ok cx" "muere cx = None" and r: "length req = TAM_REQUEST"
    and resp: "\<And>resp. fst (server_atender req (basura_respuesta cx) b) = Listo resp \<Longrightarrow> length resp = TAM_RESPONSE"
  shows "llamar cx req b = server_atender req (basura_respuesta cx) b"
proof -
  have "receiveall False TAM_REQUEST 0 (basura_servidor cx) req (corte_servidor cx) = Listo (req, True, [])"
    using receiveall_ok [of 0 TAM_REQUEST "basura_servidor cx" req False "corte_servidor cx"] cx(1) r
    by (simp add: conexion_ok_def posiciones)
  moreover have "receiveall False TAM_RESPONSE 0 (basura_response cx) x (corte_cliente cx) = Listo (x, True, [])"
    if "length x = TAM_RESPONSE" for x
    using receiveall_ok [of 0 TAM_RESPONSE "basura_response cx" x False "corte_cliente cx"] cx(1) that
    by (simp add: conexion_ok_def posiciones)
  ultimately show ?thesis using resp cx(2)
    by (cases "server_atender req (basura_respuesta cx) b") (auto simp: llamar_def sendall_ok Let_def split: llamada.splits)
qed

lemma llamar_muere:
  assumes cx: "conexion_ok cx" "muere cx = Some 0" and r: "length req = TAM_REQUEST"
    and s: "server_atender req (basura_respuesta cx) b = (Listo resp, b')"
  shows "llamar cx req b = (Listo (basura_response cx), b')"
proof -
  have "receiveall False TAM_REQUEST 0 (basura_servidor cx) req (corte_servidor cx) = Listo (req, True, [])"
    using receiveall_ok [of 0 TAM_REQUEST "basura_servidor cx" req False "corte_servidor cx"] cx(1) r
    by (simp add: conexion_ok_def posiciones)
  moreover have "0 < TAM_RESPONSE" by (simp add: posiciones)
  ultimately show ?thesis using s cx(2) by (simp add: llamar_def sendall_ok receiveall_nada)
qed

section \<open>A request read by the server\<close>

lemma leer_nombre:
  assumes "campo POS_QUEUE (length n + 1) req = cadena n" and "nombre_ok n"
  shows "leer_cadena (drop POS_QUEUE req) = n"
proof -
  have "drop POS_QUEUE req = cadena n @ drop (length n + 1) (drop POS_QUEUE req)"
    using assms(1) append_take_drop_id [of "length n + 1" "drop POS_QUEUE req"] by (simp add: campo_def)
  then show ?thesis using leer_cadena_cadena [of n] assms(2) by (metis nombre_ok_def)
qed

lemma armar_nada:
  assumes "nombre_ok n" and "nombre_ok proc" and "length bas = TAM_REQUEST"
  shows "length (armar c n [] proc bas) = TAM_REQUEST" and "campo 0 4 (armar c n [] proc bas) = entero 4 c"
    and "campo POS_QUEUE (length n + 1) (armar c n [] proc bas) = cadena n"
  using assms by (simp_all add: armar_def nombre_ok_def posiciones campos)

lemma armar_push:
  fixes c n proc bas s m
  defines "req \<equiv> armar c n [(POS_SIZE, entero 8 s), (POS_MSG, m)] proc bas"
  assumes "nombre_ok n" and "nombre_ok proc" and "length bas = TAM_REQUEST" and "length m \<le> MAX_MSG_SIZE"
  shows "length req = TAM_REQUEST" and "campo 0 4 req = entero 4 c" and "campo POS_QUEUE (length n + 1) req = cadena n"
    and "campo POS_SIZE 8 req = entero 8 s" and "campo POS_MSG (length m) req = m"
  using assms by (simp_all add: armar_def nombre_ok_def posiciones campos MAX_MSG_SIZE_def)

lemma armar_pull:
  fixes c n proc bas k t
  defines "req \<equiv> armar c n [(POS_MAX, entero 8 k), (POS_TYPE, largo t)] proc bas"
  assumes "nombre_ok n" and "nombre_ok proc" and "length bas = TAM_REQUEST"
  shows "length req = TAM_REQUEST" and "campo 0 4 req = entero 4 c" and "campo POS_QUEUE (length n + 1) req = cadena n"
    and "campo POS_MAX 8 req = entero 8 k" and "campo POS_TYPE 8 req = largo t"
  using assms by (simp_all add: armar_def nombre_ok_def posiciones campos)

lemma respuesta_ok:
  assumes "length bas = TAM_RESPONSE"
  shows "length (escribir 0 (entero 4 c) bas) = TAM_RESPONSE" and "campo 0 4 (escribir 0 (entero 4 c) bas) = entero 4 c"
  using assms by (simp_all add: posiciones)

lemma resultado_responder:
  assumes "length resp = TAM_RESPONSE" and "leer (campo 0 4 resp) \<noteq> BROKER_ERROR"
  shows "resultado (responder resp rb) = rb"
proof -
  obtain r b where rb: "rb = (r, b)" by (cases rb)
  show ?thesis using assms rb respuesta_ok [OF assms(1), of BROKER_ERROR]
    by (cases r) (auto simp: resultado_def responder_def leer_entero BROKER_ERROR_def)
qed

lemma responder_tam:
  "length resp = TAM_RESPONSE \<Longrightarrow> fst (responder resp rb) = Listo x \<Longrightarrow> length x = TAM_RESPONSE"
  using respuesta_ok(1) [of resp BROKER_ERROR]
  by (auto simp: responder_def split: prod.splits llamada.splits if_splits)

text \<open>A request that answers with a bare response is its operation.\<close>

lemma llamar_resultado:
  assumes cx: "conexion_ok cx" "muere cx = None" and r: "length req = TAM_REQUEST"
    and s: "server_atender req (basura_respuesta cx) b = responder (escribir 0 (entero 4 BROKER_OK) (basura_respuesta cx)) rb"
  shows "resultado (llamar cx req b) = rb"
proof -
  let ?resp = "escribir 0 (entero 4 BROKER_OK) (basura_respuesta cx)"
  have l: "length ?resp = TAM_RESPONSE" and c: "campo 0 4 ?resp = entero 4 BROKER_OK"
    using respuesta_ok cx(1) by (simp_all add: conexion_ok_def)
  have "llamar cx req b = responder ?resp rb"
    using llamar_ok [OF cx r, of b] responder_tam [OF l, of rb] by (simp add: s)
  then show ?thesis using resultado_responder [OF l] c by (simp add: leer_entero broker_constantes)
qed

lemma server_por_tipo:
  "leer (campo 0 4 req) = BROKER_CREATE \<Longrightarrow> server_atender req bas b =
     responder (escribir 0 (entero 4 BROKER_OK) bas) (create_queue (leer_cadena (drop POS_QUEUE req)) b)"
  "leer (campo 0 4 req) = BROKER_DESTROY \<Longrightarrow> server_atender req bas b =
     responder (escribir 0 (entero 4 BROKER_OK) bas) (destroy_queue (leer_cadena (drop POS_QUEUE req)) b)"
  "leer (campo 0 4 req) = BROKER_PUSH \<Longrightarrow> server_atender req bas b =
     responder (escribir 0 (entero 4 BROKER_OK) bas)
       (buf_push (leer_cadena (drop POS_QUEUE req)) (drop POS_MSG req) (leer (campo POS_SIZE 8 req)) b)"
  "leer (campo 0 4 req) = BROKER_PULL \<Longrightarrow> server_atender req bas b =
     (case buf_pull (leer_cadena (drop POS_QUEUE req)) (drop POS_RMSG (escribir 0 (entero 4 BROKER_OK) bas))
             (leer (campo POS_MAX 8 req)) (leer_largo (campo POS_TYPE 8 req)) b of
        (Listo (msg, n), b') \<Rightarrow> (Listo (take POS_RMSG (escribir 0 (entero 4 BROKER_OK) bas) @ msg), b')
      | (Bloqueado, b') \<Rightarrow> (Bloqueado, b')
      | (Fallo e, b') \<Rightarrow> responder (escribir 0 (entero 4 BROKER_OK) bas) (Fallo e, b'))"
  by (simp_all add: server_atender_def BROKER_CREATE_def BROKER_DESTROY_def BROKER_PUSH_def BROKER_PULL_def Let_def)

lemma leer_tipo:
  "leer (entero 4 BROKER_CREATE) = BROKER_CREATE" "leer (entero 4 BROKER_DESTROY) = BROKER_DESTROY"
  "leer (entero 4 BROKER_PUSH) = BROKER_PUSH" "leer (entero 4 BROKER_PULL) = BROKER_PULL"
  by (simp_all add: leer_entero broker_constantes)

lemma stub_create_local:
  assumes "conexion_ok cx" "muere cx = None" and "nombre_ok n" "nombre_ok proc"
  shows "stub_create_queue cx proc n b = create_queue n b"
proof -
  have l: "length (basura_request cx) = TAM_REQUEST" using assms(1) by (simp add: conexion_ok_def)
  note a = armar_nada [OF assms(3,4) l, of BROKER_CREATE]
  show ?thesis unfolding stub_create_queue_def
    by (rule llamar_resultado [OF assms(1,2) a(1)])
      (simp add: server_por_tipo a(2) leer_tipo leer_nombre [OF a(3) assms(3)])
qed

lemma stub_destroy_local:
  assumes "conexion_ok cx" "muere cx = None" and "nombre_ok n" "nombre_ok proc"
  shows "stub_destroy_queue cx proc n b = destroy_queue n b"
proof -
  have l: "length (basura_request cx) = TAM_REQUEST" using assms(1) by (simp add: conexion_ok_def)
  note a = armar_nada [OF assms(3,4) l, of BROKER_DESTROY]
  show ?thesis unfolding stub_destroy_queue_def
    by (rule llamar_resultado [OF assms(1,2) a(1)])
      (simp add: server_por_tipo a(2) leer_tipo leer_nombre [OF a(3) assms(3)])
qed

lemma take_drop_prefijo: "campo p k req = m \<Longrightarrow> j + i \<le> k \<Longrightarrow> take i (drop j (drop p req)) = take i (drop j m)"
  by (auto simp: campo_def drop_take min_def)

lemma stub_push_local:
  assumes "conexion_ok cx" "muere cx = None" and "nombre_ok n" "nombre_ok proc"
    and m: "size_txt + 8 \<le> MAX_MSG_SIZE" "size_txt + 8 \<le> length msg"
  shows "stub_push cx proc n msg size_txt b = buf_push n msg size_txt b"
proof -
  let ?m = "take (size_txt + 8) msg"
  have l: "length (basura_request cx) = TAM_REQUEST" and lm: "length ?m = size_txt + 8" "length ?m \<le> MAX_MSG_SIZE"
    using assms(1) m by (simp_all add: conexion_ok_def)
  note a = armar_push [OF assms(3,4) l lm(2), of BROKER_PUSH size_txt]
  let ?req = "armar BROKER_PUSH n [(POS_SIZE, entero 8 size_txt), (POS_MSG, ?m)] proc (basura_request cx)"
  have s: "leer (campo POS_SIZE 8 ?req) = size_txt" using m(1) by (simp add: a leer_entero MAX_MSG_SIZE_def)
  have t: "take 8 (drop POS_MSG ?req) = take 8 msg"
    using take_drop_prefijo [OF a(5), of 0 8] lm(1) by (simp add: min_def)
  have x: "take size_txt (drop 8 (drop POS_MSG ?req)) = take size_txt (drop 8 msg)"
    using take_drop_prefijo [OF a(5), of 8 size_txt] lm(1) by (simp add: drop_take)
  have "buf_push n (drop POS_MSG ?req) size_txt b = buf_push n msg size_txt b" unfolding buf_push_def t x ..
  then have "server_atender ?req (basura_respuesta cx) b =
      responder (escribir 0 (entero 4 BROKER_OK) (basura_respuesta cx)) (buf_push n msg size_txt b)"
    using s by (simp add: server_por_tipo a(2) leer_tipo leer_nombre [OF a(3) assms(3)])
  then show ?thesis using llamar_resultado [OF assms(1,2) a(1)] m(1) by (simp add: stub_push_def)
qed

lemma broker_pull_cabe: "broker_pull n tope t b = (Listo (u, m), b') \<Longrightarrow> length m \<le> tope"
  by (auto simp: broker_pull_def Let_def split: option.splits llamada.splits if_splits)

text \<open>The response that carries a message.\<close>

lemma respuesta_con_mensaje:
  fixes bas x
  defines "resp \<equiv> escribir 0 (entero 4 BROKER_OK) bas"
  defines "r \<equiv> take POS_RMSG resp @ escribir 0 x (drop POS_RMSG resp)"
  assumes "length bas = TAM_RESPONSE" and x: "length x \<le> MAX_MSG_SIZE"
  shows "length r = TAM_RESPONSE" and "leer (campo 0 4 r) \<noteq> BROKER_ERROR" and "campo POS_RMSG (length x) r = x"
    and "campo POS_RSIZE 8 r = campo POS_RSIZE 8 bas"
proof -
  have l: "length resp = TAM_RESPONSE" and c: "campo 0 4 resp = entero 4 BROKER_OK"
    using respuesta_ok assms(3) by (simp_all add: resp_def)
  have lx: "length x \<le> length (drop POS_RMSG resp)" using l x by (simp add: posiciones MAX_MSG_SIZE_def)
  show "length r = TAM_RESPONSE" using lx l by (simp add: r_def posiciones)
  have "campo 0 4 r = campo 0 4 resp" using l by (simp add: r_def campo_def posiciones)
  then show "leer (campo 0 4 r) \<noteq> BROKER_ERROR" using c by (simp add: leer_entero broker_constantes)
  show "campo POS_RMSG (length x) r = x" using l by (simp add: r_def campo_def escribir_def posiciones)
  have "campo POS_RSIZE 8 r = campo POS_RSIZE 8 resp"
    using l x by (simp add: r_def campo_def escribir_def posiciones MAX_MSG_SIZE_def)
  also have "\<dots> = campo POS_RSIZE 8 bas" using assms(3) by (simp add: resp_def campos posiciones)
  finally show "campo POS_RSIZE 8 r = campo POS_RSIZE 8 bas" .
qed

lemma stub_pull_local:
  assumes cx: "conexion_ok cx" "muere cx = None" and n: "nombre_ok n" "nombre_ok proc"
    and m: "max_size_txt + 8 \<le> MAX_MSG_SIZE" "max_size_txt + 8 \<le> length msg" and t: "- (2 ^ 63) \<le> type" "type < 2 ^ 63"
  shows "case buf_pull n msg max_size_txt type b of
      (Listo (buf, k), b') \<Rightarrow>
        (\<exists>buf'. stub_pull cx proc n msg max_size_txt type b =
            (Listo (buf', leer_largo (campo POS_RSIZE 8 (basura_respuesta cx))), b') \<and>
          take (nat k + 8) buf' = take (nat k + 8) buf \<and> drop (max_size_txt + 8) buf' = drop (max_size_txt + 8) buf)
    | (Bloqueado, b') \<Rightarrow> stub_pull cx proc n msg max_size_txt type b = (Bloqueado, b')
    | (Fallo e, b') \<Rightarrow> stub_pull cx proc n msg max_size_txt type b = (Fallo e, b')"
proof -
  let ?bas = "basura_respuesta cx"
  let ?resp = "escribir 0 (entero 4 BROKER_OK) ?bas"
  have l: "length (basura_request cx) = TAM_REQUEST" and lb: "length ?bas = TAM_RESPONSE" using cx(1) by (simp_all add: conexion_ok_def)
  define req where "req = armar BROKER_PULL n [(POS_MAX, entero 8 max_size_txt), (POS_TYPE, largo type)] proc (basura_request cx)"
  note a = armar_pull [OF n l, of BROKER_PULL max_size_txt type, folded req_def]
  have k: "leer (campo POS_MAX 8 req) = max_size_txt" using m(1) by (simp add: a leer_entero MAX_MSG_SIZE_def)
  have ty: "leer_largo (campo POS_TYPE 8 req) = type" using leer_largo_largo [OF t] by (simp add: a)
  obtain r b' where p: "broker_pull n max_size_txt type b = (r, b')" by (cases "broker_pull n max_size_txt type b")
  have srv: "server_atender req ?bas b =
     (case r of
        Listo (u, x) \<Rightarrow> (Listo (take POS_RMSG ?resp @ escribir 0 (largo u @ x) (drop POS_RMSG ?resp)), b')
      | Bloqueado \<Rightarrow> (Bloqueado, b')
      | Fallo e \<Rightarrow> responder ?resp (Fallo e, b'))"
    using server_por_tipo(4) [of req ?bas b] p k ty
    by (cases r) (auto simp: a(2) leer_tipo leer_nombre [OF a(3) n(1)] buf_pull_def split: prod.splits)
  have stub: "stub_pull cx proc n msg max_size_txt type b =
     (case llamar cx req b of
        (Listo resp, b') \<Rightarrow>
          (if leer (campo 0 4 resp) = BROKER_ERROR then Fallo MessageBrokerError
           else Listo (escribir 0 (campo POS_RMSG (max_size_txt + 8) resp) msg, leer_largo (campo POS_RSIZE 8 resp)), b')
      | (Bloqueado, b') \<Rightarrow> (Bloqueado, b')
      | (Fallo e, b') \<Rightarrow> (Fallo e, b'))"
    using m(1) by (simp add: stub_pull_def req_def)
  show ?thesis
  proof (cases r)
    case (Listo ux)
    obtain u x where ux: "r = Listo (u, x)" using Listo by (cases ux) auto
    let ?r = "take POS_RMSG ?resp @ escribir 0 (largo u @ x) (drop POS_RMSG ?resp)"
    have x: "length x \<le> max_size_txt" using broker_pull_cabe p ux by blast
    then have lx: "length (largo u @ x) \<le> MAX_MSG_SIZE" using m(1) by simp
    note q = respuesta_con_mensaje [OF lb lx]
    have s: "server_atender req ?bas b = (Listo ?r, b')" using srv ux by simp
    then have "llamar cx req b = (Listo ?r, b')" using llamar_ok [OF cx a(1), of b] q(1) by simp
    then have st: "stub_pull cx proc n msg max_size_txt type b =
        (Listo (escribir 0 (campo POS_RMSG (max_size_txt + 8) ?r) msg, leer_largo (campo POS_RSIZE 8 ?bas)), b')"
      using stub q(2,4) by simp
    let ?c = "campo POS_RMSG (max_size_txt + 8) ?r"
    have lc: "length ?c = max_size_txt + 8" using q(1) m(1) by (simp add: campo_def posiciones MAX_MSG_SIZE_def)
    have "take (length (largo u @ x)) ?c = campo POS_RMSG (length (largo u @ x)) ?r" using x by (simp add: campo_def min_def)
    then have tc: "take (length x + 8) ?c = largo u @ x" using q(3) by (simp add: add.commute)
    have "take (length x + 8) (escribir 0 ?c msg) = largo u @ x" using tc lc x by (simp add: escribir_def)
    moreover have "take (length x + 8) (escribir 0 (largo u @ x) msg) = largo u @ x" by (simp add: escribir_def)
    moreover have "drop (max_size_txt + 8) (escribir 0 ?c msg) = drop (max_size_txt + 8) (escribir 0 (largo u @ x) msg)"
      using lc x by (simp add: escribir_def add.commute)
    ultimately show ?thesis using st p ux by (simp add: buf_pull_def)
  next
    case Bloqueado
    then have "llamar cx req b = (Bloqueado, b')" using llamar_ok [OF cx a(1), of b] srv by simp
    then show ?thesis using stub p Bloqueado by (simp add: buf_pull_def)
  next
    case (Fallo e)
    have lr: "length ?resp = TAM_RESPONSE" using respuesta_ok(1) [OF lb] .
    have "llamar cx req b = responder ?resp (Fallo e, b')"
      using llamar_ok [OF cx a(1), of b] srv Fallo responder_tam [OF lr, of "(Fallo e, b')"] by simp
    then show ?thesis using stub p Fallo respuesta_ok(2) [OF lr, of BROKER_ERROR]
      by (auto simp: buf_pull_def responder_def leer_entero BROKER_ERROR_def)
  qed
qed

lemma stub_sin_respuesta:
  assumes "conexion_ok cx" "muere cx = Some 0" and "nombre_ok n" "nombre_ok proc"
    and "leer (campo 0 4 (basura_response cx)) \<noteq> BROKER_ERROR" and "nombres_de b n = None" and "broker_ok b" and "n \<noteq> []"
  shows "stub_destroy_queue cx proc n b = (Listo (), b) \<and> fst (destroy_queue n b) = Fallo MessageBrokerError"
proof -
  have l: "length (basura_request cx) = TAM_REQUEST" using assms(1) by (simp add: conexion_ok_def)
  note a = armar_nada [OF assms(3,4) l, of BROKER_DESTROY]
  let ?req = "armar BROKER_DESTROY n [] proc (basura_request cx)"
  have d: "destroy_queue n b = (Fallo MessageBrokerError, b)"
    using cola_de_nombre [OF assms(7,8)] assms(6) by (simp add: destroy_queue_def Let_def)
  have "server_atender ?req (basura_respuesta cx) b =
      (Listo (escribir 0 (entero 4 BROKER_ERROR) (escribir 0 (entero 4 BROKER_OK) (basura_respuesta cx))), b)"
    using d by (simp add: server_por_tipo a(2) leer_tipo leer_nombre [OF a(3) assms(3)] responder_def)
  from llamar_muere [OF assms(1,2) a(1) this] show ?thesis
    using assms(5) d by (simp add: stub_destroy_queue_def resultado_def)
qed

definition conexion_ejemplo :: conexion where
  "conexion_ejemplo =
     \<lparr>corte_ida = [3, 500], corte_servidor = [0, 9000], corte_vuelta = [], corte_cliente = [1, 1, 4000],
      basura_request = replicate TAM_REQUEST 7, basura_servidor = replicate TAM_REQUEST 0,
      basura_respuesta = replicate TAM_RESPONSE 9, basura_response = replicate TAM_RESPONSE 0, muere = None\<rparr>"

section \<open>Properties\<close>

text \<open>
  C28. A broker across the network is a local broker: however the kernel cuts the bytes of
  the two transfers and whatever the buffers held, creating, destroying, pushing and pulling
  through the stub leave the broker in the same state and give the same answer, errors and
  blocked calls included, as calling it directly, for messages that fit in a request; the
  buffer of a pull ends with the same message. Only the number \<^verbatim>\<open>pull\<close> returns differs:
  it is whatever was in \<^verbatim>\<open>msg_size\<close>.
\<close>

theorem remoto_equivale:
  assumes "conexion_ok cx" "muere cx = None" and "nombre_ok n" "nombre_ok proc"
    and "k + 8 \<le> MAX_MSG_SIZE" "k + 8 \<le> length msg" and "- (2 ^ 63) \<le> type" "type < 2 ^ 63"
  shows "stub_create_queue cx proc n b = create_queue n b \<and> stub_destroy_queue cx proc n b = destroy_queue n b \<and>
    stub_push cx proc n msg k b = buf_push n msg k b \<and>
    (case buf_pull n msg k type b of
       (Listo (buf, j), b') \<Rightarrow>
         (\<exists>buf'. stub_pull cx proc n msg k type b =
             (Listo (buf', leer_largo (campo POS_RSIZE 8 (basura_respuesta cx))), b') \<and>
           take (nat j + 8) buf' = take (nat j + 8) buf \<and> drop (k + 8) buf' = drop (k + 8) buf)
     | (Bloqueado, b') \<Rightarrow> stub_pull cx proc n msg k type b = (Bloqueado, b')
     | (Fallo e, b') \<Rightarrow> stub_pull cx proc n msg k type b = (Fallo e, b'))"
  using stub_create_local [OF assms(1-4), of b] stub_destroy_local [OF assms(1-4), of b]
    stub_push_local [OF assms(1-6), of b] stub_pull_local [OF assms, of b]
  by (intro conjI) assumption+

theorem remoto_equivale_witness:
  "fst (stub_create_queue conexion_ejemplo ''tractor'' ''cola'' (crear_broker (\<lambda>_. None))) = Listo () \<and>
   fst (stub_pull conexion_ejemplo ''tractor'' ''cola'' (replicate 12 0) 4 0 (crear_broker (\<lambda>_. None))) = Fallo MessageBrokerError"
proof -
  have cx: "conexion_ok conexion_ejemplo" "muere conexion_ejemplo = None"
    by (simp_all add: conexion_ok_def conexion_ejemplo_def)
  have n: "nombre_ok ''cola''" "nombre_ok ''tractor''" by (simp_all add: nombre_ok_def)
  have "fst (create_queue ''cola'' (crear_broker (\<lambda>_. None))) = Listo ()"
    using create_queue_ok [OF broker_ok_inicio(1,2), of "''cola''"] by (simp add: broker_ok_inicio(3))
  moreover have "buf_pull ''cola'' (replicate 12 0) 4 0 (crear_broker (\<lambda>_. None)) = (Fallo MessageBrokerError, crear_broker (\<lambda>_. None))"
    by (simp add: buf_pull_def broker_pull_def crear_broker_def)
  ultimately show ?thesis
    using remoto_equivale [OF cx n, of 4 "replicate 12 0" 0 "crear_broker (\<lambda>_. None)"] by (simp add: MAX_MSG_SIZE_def)
qed

end
