(* ===== verification/SemaforoDistribuido.thy ===== *)
theory SemaforoDistribuido
  imports MemoriaDistribuida
begin

text \<open>
  The system of a distributed semaphore, or mutex: the calls of the applications
  (\<^verbatim>\<open>clientes/semaphore_set_distribuido.cpp\<close>, \<^verbatim>\<open>clientes/mutex_distribuido.cpp\<close>), the
  two processes of each \<^verbatim>\<open>local_broker_comm\<close> (\<^verbatim>\<open>loop_semaforo\<close>, \<^verbatim>\<open>loop_mutex\<close>), the
  two of each client handler of the broker (\<^verbatim>\<open>loop_semaforo\<close> of \<^verbatim>\<open>client_handler.cpp\<close>) and
  the token manager. A token is a unit of the semaphore. No client leaves.
\<close>

section \<open>Messages without memory\<close>

datatype respuesta = R_OK | R_ERROR | LEAVE_OK | R_TOKEN | R_TOKEN_CHECK

fun codigo_respuesta :: "respuesta \<Rightarrow> byte" where
  "codigo_respuesta R_OK = 0"
| "codigo_respuesta R_ERROR = 1"
| "codigo_respuesta LEAVE_OK = 2"
| "codigo_respuesta R_TOKEN = 3"
| "codigo_respuesta R_TOKEN_CHECK = 4"

definition poner_respuesta :: "respuesta \<Rightarrow> byte list \<Rightarrow> byte list" where
  "poner_respuesta r buf = escribir 4 (entero_4 (codigo_respuesta r)) buf"

definition send_token_sem :: "byte list \<Rightarrow> byte list" where
  "send_token_sem buf = poner_respuesta R_TOKEN buf"

definition send_token_libre :: "byte list \<Rightarrow> byte list" where
  "send_token_libre buf = poner_peticion TOKEN_FREE buf"

text \<open>
  One read each, of at most the size of a message: whatever arrives, were it one byte, is a
  token. The client does not look at it; the broker looks for \<^verbatim>\<open>LEAVE\<close>. The results:
  what is left in the socket, and for the broker whether it was a token, and its buffer.
\<close>

definition wait_token_sem :: "bool \<Rightarrow> byte list \<Rightarrow> nat list \<Rightarrow> byte list llamada" where
  "wait_token_sem abierta red cortes =
     (let n = leidos TAMANIO_MENSAJE red cortes
      in if n = 0 then (if abierta then Bloqueado else Fallo CommError) else Listo (drop n red))"

definition recv_token_sem :: "bool \<Rightarrow> byte list \<Rightarrow> byte list \<Rightarrow> nat list \<Rightarrow> (bool \<times> byte list \<times> byte list) llamada" where
  "recv_token_sem abierta buf red cortes =
     (let n = leidos TAMANIO_MENSAJE red cortes; b = escribir 0 (take n red) buf
      in if n = 0 then (if abierta then Bloqueado else Fallo CommError)
         else Listo (\<not> es_peticion LEAVE b, b, drop n red))"

text \<open>The tokens the client counts in a stream that ends: the reads of \<^verbatim>\<open>loop_semaforo_padre\<close>.\<close>

function tokens_contados :: "byte list \<Rightarrow> nat list \<Rightarrow> nat" where
  "tokens_contados red cortes =
     (let n = leidos TAMANIO_MENSAJE red cortes
      in if n = 0 then 0 else Suc (tokens_contados (drop n red) (tl cortes)))"
  by pat_completeness auto
termination
  by (relation "measure (\<lambda>(red, cortes). length red)") (auto simp: leidos_def)

declare tokens_contados.simps [simp del]

section \<open>State\<close>

text \<open>
  Client \<open>p\<close>: whether each of its four processes holds a token between its two calls (the
  child and the parent of the handler, the parent and the child of the communication), the
  bytes on their way each way, the semaphores, the note, the application in its call, and the
  buffers of the three senders and readers that matter. \<open>tomados\<close> is the waits the
  application completed less its signals; only the guard of a mutex reads it. \<open>faltan\<close>, which
  nobody reads, adds up what each read that was taken for a token lacked to be a whole message.
\<close>

datatype llamador = Ll_afuera | Ll_pide | Ll_concedido | Ll_suelta

record cliente_sem =
  hijo_h :: bool
  padre_h :: bool
  padre_c :: bool
  hijo_c :: bool
  ida :: "byte list"
  vuelta :: "byte list"
  sems :: semset
  nota :: control_tokens
  llamador :: llamador
  tomados :: int
  faltan :: nat
  buf_hh :: "byte list"
  buf_hp :: "byte list"
  buf_hc :: "byte list"

record sis_sem =
  sgrupo :: sis_grupo
  scli :: "nat \<Rightarrow> cliente_sem"

definition poner_sem :: "nat \<Rightarrow> cliente_sem \<Rightarrow> sis_sem \<Rightarrow> sis_sem" where
  "poner_sem p k s = s\<lparr>scli := (scli s)(p := k)\<rparr>"

definition unido :: "nat \<Rightarrow> sis_sem \<Rightarrow> bool" where
  "unido p s \<longleftrightarrow> p < MAX_CLIENTS \<and> ghs (sgrupo s) p \<noteq> H_fuera"

section \<open>Steps\<close>

text \<open>What a read that leaves \<open>red'\<close> of \<open>red\<close> lacks to be a message.\<close>

definition falta :: "byte list \<Rightarrow> byte list \<Rightarrow> nat" where
  "falta red red' = TAMANIO_MENSAJE - (length red - length red')"

text \<open>
  Semaphore \<open>n\<close> of a set of \<open>c\<close>; a mutex (\<open>excl\<close>) is semaphore 0 of a set of 1, locked
  before it is unlocked, whose note stays until the unlock. Each read is one call, which hands
  over what the kernel has ready: a message, a piece of one or the end of one with the start
  of the next. A send hands over the whole message, as a blocking one does when no signal cuts
  it. A read that the handler takes for \<^verbatim>\<open>LEAVE\<close> ends its loop (\<open>Lazos\<close>): it is not a
  step of a client that stays.
\<close>

inductive paso_sem :: "nat \<Rightarrow> nat \<Rightarrow> bool \<Rightarrow> nat \<Rightarrow> string \<Rightarrow> sis_sem \<Rightarrow> sis_sem \<Rightarrow> bool"
  for c :: nat and n :: nat and excl :: bool and base :: nat and rec :: string where
  m_manager: "pull 0 (gmgr (sgrupo s)) = Listo ((t, m), q) \<Longrightarrow>
     manager_turno base rec m ((sgrupo s)\<lparr>gmgr := q\<rparr>) = Some g \<Longrightarrow> paso_sem c n excl base rec s (s\<lparr>sgrupo := g\<rparr>)"
| m_ajeno: "tipo m = 3 \<or> recurso m \<noteq> rec \<Longrightarrow> push 1 m (gmgr (sgrupo s)) = Listo q \<Longrightarrow>
     paso_sem c n excl base rec s (s\<lparr>sgrupo := (sgrupo s)\<lparr>gmgr := q\<rparr>\<rparr>)"
| m_join: "x \<noteq> [] \<Longrightarrow> join x (ggrupo (sgrupo s)) = Listo (g, Inr (Some p)) \<Longrightarrow>
     paso_sem c n excl base rec s (s\<lparr>sgrupo := fin_join p x g (sgrupo s)\<rparr>)"
| m_lock: "unido p s \<Longrightarrow> \<not> hijo_h (scli s p) \<Longrightarrow> lock_token (base + p) (gcola (sgrupo s)) = Listo (t, q) \<Longrightarrow>
     paso_sem c n excl base rec s (poner_sem p ((scli s p)\<lparr>hijo_h := True\<rparr>) (s\<lparr>sgrupo := (sgrupo s)\<lparr>gcola := q\<rparr>\<rparr>))"
| m_enviar: "unido p s \<Longrightarrow> hijo_h (scli s p) \<Longrightarrow> send_token_sem (buf_hh (scli s p)) = b \<Longrightarrow>
     paso_sem c n excl base rec s (poner_sem p ((scli s p)\<lparr>hijo_h := False, ida := ida (scli s p) @ b, buf_hh := b\<rparr>) s)"
| m_recibir: "unido p s \<Longrightarrow> \<not> padre_c (scli s p) \<Longrightarrow> wait_token_sem True (ida (scli s p)) cortes = Listo red \<Longrightarrow>
     paso_sem c n excl base rec s (poner_sem p ((scli s p)\<lparr>padre_c := True, ida := red,
       faltan := faltan (scli s p) + falta (ida (scli s p)) red\<rparr>) s)"
| m_entregar: "unido p s \<Longrightarrow> padre_c (scli s p) \<Longrightarrow> comparar_token rec (nota (scli s p)) = Listo (k, True) \<Longrightarrow>
     semaforo_entregar_token n (sems (scli s p)) = Listo ss \<Longrightarrow>
     paso_sem c n excl base rec s (poner_sem p ((scli s p)\<lparr>padre_c := False, sems := ss, nota := k\<rparr>) s)"
| m_forwardear: "unido p s \<Longrightarrow> padre_c (scli s p) \<Longrightarrow> comparar_token rec (nota (scli s p)) = Listo (k, False) \<Longrightarrow>
     semaforo_forwardear_token c n (sems (scli s p)) = Listo ss \<Longrightarrow>
     paso_sem c n excl base rec s (poner_sem p ((scli s p)\<lparr>padre_c := False, sems := ss, nota := k\<rparr>) s)"
| m_esperar: "unido p s \<Longrightarrow> \<not> hijo_c (scli s p) \<Longrightarrow> semaforo_esperar_token c n (sems (scli s p)) = Listo ss \<Longrightarrow>
     paso_sem c n excl base rec s (poner_sem p ((scli s p)\<lparr>hijo_c := True, sems := ss\<rparr>) s)"
| m_volver: "unido p s \<Longrightarrow> hijo_c (scli s p) \<Longrightarrow> send_token_libre (buf_hc (scli s p)) = b \<Longrightarrow>
     paso_sem c n excl base rec s (poner_sem p ((scli s p)\<lparr>hijo_c := False, vuelta := vuelta (scli s p) @ b, buf_hc := b\<rparr>) s)"
| m_recv: "unido p s \<Longrightarrow> \<not> padre_h (scli s p) \<Longrightarrow>
     recv_token_sem True (buf_hp (scli s p)) (vuelta (scli s p)) cortes = Listo (True, b, red) \<Longrightarrow>
     paso_sem c n excl base rec s (poner_sem p ((scli s p)\<lparr>padre_h := True, vuelta := red, buf_hp := b,
       faltan := faltan (scli s p) + falta (vuelta (scli s p)) red\<rparr>) s)"
| m_release: "unido p s \<Longrightarrow> padre_h (scli s p) \<Longrightarrow>
     paso_sem c n excl base rec s (poner_sem p ((scli s p)\<lparr>padre_h := False\<rparr>)
       (s\<lparr>sgrupo := (sgrupo s)\<lparr>gmgr := release_token rec (gmgr (sgrupo s))\<rparr>\<rparr>))"
| m_pedir: "p < MAX_CLIENTS \<Longrightarrow> llamador (scli s p) = Ll_afuera \<Longrightarrow> excl \<longrightarrow> tomados (scli s p) = 0 \<Longrightarrow>
     cargar_esperando_token rec (nota (scli s p)) = Listo (k, ()) \<Longrightarrow>
     paso_sem c n excl base rec s (poner_sem p ((scli s p)\<lparr>llamador := Ll_pide, nota := k\<rparr>) s)"
| m_tomar: "p < MAX_CLIENTS \<Longrightarrow> llamador (scli s p) = Ll_pide \<Longrightarrow> wait_on n (sems (scli s p)) = Listo ss \<Longrightarrow>
     paso_sem c n excl base rec s (poner_sem p ((scli s p)\<lparr>llamador := (if excl then Ll_afuera else Ll_concedido),
       sems := ss, tomados := tomados (scli s p) + 1\<rparr>) s)"
| m_limpiar: "p < MAX_CLIENTS \<Longrightarrow> llamador (scli s p) = Ll_concedido \<Longrightarrow> limpiar_esperando_token (nota (scli s p)) = Listo (k, ()) \<Longrightarrow>
     paso_sem c n excl base rec s (poner_sem p ((scli s p)\<lparr>llamador := Ll_afuera, nota := k\<rparr>) s)"
| m_soltar: "p < MAX_CLIENTS \<Longrightarrow> llamador (scli s p) = Ll_afuera \<Longrightarrow> excl \<longrightarrow> 0 < tomados (scli s p) \<Longrightarrow>
     limpiar_esperando_token (nota (scli s p)) = Listo (k, ()) \<Longrightarrow>
     paso_sem c n excl base rec s (poner_sem p ((scli s p)\<lparr>llamador := Ll_suelta, nota := k\<rparr>) s)"
| m_signal: "p < MAX_CLIENTS \<Longrightarrow> llamador (scli s p) = Ll_suelta \<Longrightarrow> signalize (n + c) (sems (scli s p)) = Listo ss \<Longrightarrow>
     paso_sem c n excl base rec s (poner_sem p ((scli s p)\<lparr>llamador := Ll_afuera, sems := ss, tomados := tomados (scli s p) - 1\<rparr>) s)"
| m_otra_nota: "p < MAX_CLIENTS \<Longrightarrow> llamador (scli s p) = Ll_afuera \<Longrightarrow> cargar_esperando_token x (nota (scli s p)) = Listo (k, ()) \<Longrightarrow>
     paso_sem c n excl base rec s (poner_sem p ((scli s p)\<lparr>nota := k\<rparr>) s)"
| m_otro_sem: "p < MAX_CLIENTS \<Longrightarrow> length ss = length (sems (scli s p)) \<Longrightarrow> ss ! n = sems (scli s p) ! n \<Longrightarrow>
     ss ! (n + c) = sems (scli s p) ! (n + c) \<Longrightarrow> paso_sem c n excl base rec s (poner_sem p ((scli s p)\<lparr>sems := ss\<rparr>) s)"

inductive_cases paso_semE: "paso_sem c n excl base rec s t"

text \<open>
  The start: a group without memory, created with its initial value, which gives one token
  when it is 1. The code does not initialise the buffers: they hold anything, except that no
  byte of the one that the client sends back is the number of \<^verbatim>\<open>LEAVE\<close>, which the handler
  could take for a request when a piece starts there (\<open>leave_aparente\<close>).
\<close>

definition cliente_nuevo :: "nat \<Rightarrow> byte list \<Rightarrow> byte list \<Rightarrow> byte list \<Rightarrow> cliente_sem" where
  "cliente_nuevo c b1 b2 b3 =
     \<lparr>hijo_h = False, padre_h = False, padre_c = False, hijo_c = False, ida = [], vuelta = [],
      sems = crear_semset (replicate (2 * c) 0), nota = crear_control, llamador = Ll_afuera, tomados = 0, faltan = 0,
      buf_hh = b1, buf_hp = b2, buf_hc = b3\<rparr>"

definition ini_sem :: "nat \<Rightarrow> int \<Rightarrow> string \<Rightarrow> sis_sem \<Rightarrow> bool" where
  "ini_sem c valor rec s \<longleftrightarrow>
     sgrupo s = (ini_grupo rec 0 [])\<lparr>gmgr := if valor = 1 then release_token rec [] else []\<rparr> \<and>
     (\<forall>p. \<exists>b1 b2 b3. length b1 = TAMANIO_MENSAJE \<and> length b2 = TAMANIO_MENSAJE \<and> length b3 = TAMANIO_MENSAJE \<and>
        codigo LEAVE \<notin> set b3 \<and> scli s p = cliente_nuevo c b1 b2 b3)"

section \<open>Where the tokens are\<close>

definition tokens_cli :: "nat \<Rightarrow> nat \<Rightarrow> cliente_sem \<Rightarrow> nat" where
  "tokens_cli c n k =
     of_bool (hijo_h k) + of_bool (padre_h k) + of_bool (padre_c k) + of_bool (hijo_c k) + sems k ! n + sems k ! (n + c)"

definition bytes_cli :: "cliente_sem \<Rightarrow> nat" where
  "bytes_cli k = length (ida k) + length (vuelta k)"

text \<open>All in bytes: a token is a message, wherever it is, and what the reads lacked is subtracted.\<close>

definition saldo :: "nat \<Rightarrow> nat \<Rightarrow> cliente_sem \<Rightarrow> int" where
  "saldo c n k = int TAMANIO_MENSAJE * (int (tokens_cli c n k) + tomados k) + int (bytes_cli k) - int (faltan k)"

definition tokens_grupo :: "string \<Rightarrow> sis_grupo \<Rightarrow> nat" where
  "tokens_grupo rec g = length (gcola g) + length (filter (\<lambda>m. es_token rec (snd m)) (gmgr g))"

definition valor_total :: "nat \<Rightarrow> nat \<Rightarrow> string \<Rightarrow> sis_sem \<Rightarrow> int" where
  "valor_total c n rec s =
     int TAMANIO_MENSAJE * int (tokens_grupo rec (sgrupo s)) + (\<Sum>p < MAX_CLIENTS. saldo c n (scli s p))"

definition cli_sem_ok :: "nat \<Rightarrow> bool \<Rightarrow> cliente_sem \<Rightarrow> bool" where
  "cli_sem_ok c excl k \<longleftrightarrow>
     length (sems k) = 2 * c \<and> length (buf_hh k) = TAMANIO_MENSAJE \<and> length (buf_hc k) = TAMANIO_MENSAJE \<and>
     codigo LEAVE \<notin> set (buf_hc k) \<and> codigo LEAVE \<notin> set (vuelta k) \<and>
     (excl \<longrightarrow> 0 \<le> tomados k \<and> (llamador k = Ll_suelta \<longrightarrow> 0 < tomados k))"

definition inv_sem :: "nat \<Rightarrow> bool \<Rightarrow> sis_sem \<Rightarrow> bool" where
  "inv_sem c excl s \<longleftrightarrow> mem_size (ggrupo (sgrupo s)) = 0 \<and> (\<forall>p. cli_sem_ok c excl (scli s p))"

section \<open>Every step moves a token\<close>

lemma suma_poner:
  fixes f :: "nat \<Rightarrow> int"
  assumes "p < m"
  shows "(\<Sum>x < m. if x = p then v else f x) = (\<Sum>x < m. f x) + v - f p"
proof -
  have "(\<Sum>x < m. if x = p then v else f x) = v + (\<Sum>x \<in> {..<m} - {p}. if x = p then v else f x)"
    using assms by (subst sum.remove [of _ p]) auto
  also have "(\<Sum>x \<in> {..<m} - {p}. if x = p then v else f x) = (\<Sum>x \<in> {..<m} - {p}. f x)" by (rule sum.cong) auto
  also have "\<dots> = (\<Sum>x < m. f x) - f p" using assms by (subst sum.remove [of _ p]) auto
  finally show ?thesis by simp
qed

lemma total_poner:
  assumes "p < MAX_CLIENTS"
  shows "valor_total c n rec (poner_sem p k s) = valor_total c n rec s + saldo c n k - saldo c n (scli s p)"
proof -
  have "(\<Sum>x < MAX_CLIENTS. saldo c n (scli (poner_sem p k s) x)) =
      (\<Sum>x < MAX_CLIENTS. if x = p then saldo c n k else saldo c n (scli s x))"
    by (rule sum.cong) (simp_all add: poner_sem_def)
  then show ?thesis using suma_poner [OF assms, of "saldo c n k" "\<lambda>x. saldo c n (scli s x)"]
    by (simp add: valor_total_def poner_sem_def)
qed

lemma total_grupo:
  "valor_total c n rec (s\<lparr>sgrupo := g\<rparr>) =
     valor_total c n rec s + int TAMANIO_MENSAJE * (int (tokens_grupo rec g) - int (tokens_grupo rec (sgrupo s)))"
  by (simp add: valor_total_def right_diff_distrib)

lemma poner_sem_simps [simp]:
  "sgrupo (poner_sem p k s) = sgrupo s" "scli (poner_sem p k s) q = (if q = p then k else scli s q)"
  by (simp_all add: poner_sem_def)

lemma TAMANIO_pos: "0 < TAMANIO_MENSAJE"
  by (simp add: TAMANIO_MENSAJE_def POS_DATOS_def POS_RECURSO_def MAX_NOMBRE_RECURSO_def DATA_SIZE_def)

lemma poner_peticion_ok:
  assumes "length buf = TAMANIO_MENSAJE" and "codigo LEAVE \<notin> set buf"
  shows "length (poner_peticion TOKEN_FREE buf) = TAMANIO_MENSAJE" and "codigo LEAVE \<notin> set (poner_peticion TOKEN_FREE buf)"
proof -
  show "length (poner_peticion TOKEN_FREE buf) = TAMANIO_MENSAJE"
    using assms by (simp add: poner_peticion_def escribir_def entero_4_def
        TAMANIO_MENSAJE_def POS_DATOS_def POS_RECURSO_def MAX_NOMBRE_RECURSO_def DATA_SIZE_def)
  show "codigo LEAVE \<notin> set (poner_peticion TOKEN_FREE buf)"
    using assms(2) by (auto simp: poner_peticion_def escribir_def entero_4_def dest: in_set_dropD)
qed

lemma poner_respuesta_ok: "length buf = TAMANIO_MENSAJE \<Longrightarrow> length (poner_respuesta r buf) = TAMANIO_MENSAJE"
  by (simp add: poner_respuesta_def escribir_def entero_4_def
      TAMANIO_MENSAJE_def POS_DATOS_def POS_RECURSO_def MAX_NOMBRE_RECURSO_def DATA_SIZE_def)

text \<open>A read takes a positive number of bytes, at most a message, from the front of the socket.\<close>

lemma wait_token_trozo:
  assumes "wait_token_sem True red cortes = Listo red'"
  shows "\<exists>k. 0 < k \<and> k \<le> TAMANIO_MENSAJE \<and> k \<le> length red \<and> red' = drop k red"
  using assms leidos_cotas [of TAMANIO_MENSAJE red cortes] by (auto simp: wait_token_sem_def Let_def split: if_splits)

lemma recv_token_trozo:
  assumes "recv_token_sem True buf red cortes = Listo (tengo, b, red')"
  shows "\<exists>k. 0 < k \<and> k \<le> TAMANIO_MENSAJE \<and> k \<le> length red \<and> red' = drop k red \<and> hd b = hd red \<and> b \<noteq> []"
proof -
  define k where "k = leidos TAMANIO_MENSAJE red cortes"
  have k: "0 < k" "b = take k red @ drop k buf" "red' = drop k red"
    using assms by (auto simp: recv_token_sem_def Let_def escribir_def k_def leidos_cotas(2) min_absorb2 split: if_splits)
  have c: "k \<le> TAMANIO_MENSAJE" "k \<le> length red" unfolding k_def by (rule leidos_cotas)+
  then have "take k red \<noteq> []" "hd (take k red) = hd red" using k(1) by auto
  then show ?thesis using k c by (intro exI [of _ k]) simp
qed

text \<open>The request a handler sees starts with a byte just read.\<close>

lemma recv_token_leave:
  assumes "recv_token_sem True buf red cortes = Listo (tengo, b, red')" and "codigo LEAVE \<notin> set red"
  shows "tengo"
proof -
  obtain k where "0 < k" "k \<le> length red" "hd b = hd red" "b \<noteq> []" using recv_token_trozo [OF assms(1)] by blast
  then have "hd b \<in> set red" by (cases red) auto
  then have "\<not> es_peticion LEAVE b" using assms(2) \<open>b \<noteq> []\<close> by (cases b) (auto simp: es_peticion_def entero_4_def)
  then show ?thesis using assms(1) by (auto simp: recv_token_sem_def Let_def split: if_splits)
qed

lemma falta_trozo: "k \<le> TAMANIO_MENSAJE \<Longrightarrow> k \<le> length red \<Longrightarrow> falta red (drop k red) = TAMANIO_MENSAJE - k"
  by (simp add: falta_def)

text \<open>The broker's steps keep the tokens of the group, or move one.\<close>

lemma tokens_release: "tokens_grupo rec (g\<lparr>gmgr := release_token rec (gmgr g)\<rparr>) = Suc (tokens_grupo rec g)"
  by (simp add: tokens_grupo_def release_token_def es_token_def)

lemma tokens_lock:
  assumes "lock_token k (gcola g) = Listo (t, q)" and "0 < k"
  shows "Suc (tokens_grupo rec (g\<lparr>gcola := q\<rparr>)) = tokens_grupo rec g"
proof -
  obtain u m where "pull (int k) (gcola g) = Listo ((u, m), q)"
    using assms(1) by (auto simp: lock_token_def split: llamada.splits prod.splits)
  from pull_tipo_ok(4) [OF _ this] assms(2) show ?thesis by (simp add: tokens_grupo_def)
qed

lemma tokens_manager:
  assumes "pull 0 (gmgr g) = Listo ((t, m), q)" and "manager_turno base rec m (g\<lparr>gmgr := q\<rparr>) = Some g'"
    and "mem_size (ggrupo g) = 0"
  shows "tokens_grupo rec g' = tokens_grupo rec g \<and> mem_size (ggrupo g') = 0"
  using assms by (auto simp: manager_turno_def tokens_grupo_def es_token_def replicar_brokers_def pasar_token_def paso_simps
      split: if_splits option.splits)

section \<open>Preservation\<close>

lemma inv_cli_sem: "inv_sem c excl s \<Longrightarrow> cli_sem_ok c excl (scli s p)"
  by (simp add: inv_sem_def)

lemma paso_cliente:
  assumes inv: "inv_sem c excl s" and p: "p < MAX_CLIENTS" and k: "saldo c n k = saldo c n (scli s p)" "cli_sem_ok c excl k"
  shows "valor_total c n rec (poner_sem p k s) = valor_total c n rec s \<and> inv_sem c excl (poner_sem p k s)"
  using assms by (simp add: total_poner inv_sem_def)

lemmas cuenta = saldo_def tokens_cli_def bytes_cli_def cli_sem_ok_def

lemma conserva_m_enviar:
  assumes inv: "inv_sem c excl s" and p: "unido p s" and h: "hijo_h (scli s p)"
    and b: "send_token_sem (buf_hh (scli s p)) = b"
  shows "valor_total c n rec (poner_sem p ((scli s p)\<lparr>hijo_h := False, ida := ida (scli s p) @ b, buf_hh := b\<rparr>) s) = valor_total c n rec s \<and>
    inv_sem c excl (poner_sem p ((scli s p)\<lparr>hijo_h := False, ida := ida (scli s p) @ b, buf_hh := b\<rparr>) s)"
proof (rule paso_cliente [OF inv])
  have l: "length b = TAMANIO_MENSAJE"
    using inv_cli_sem [OF inv, of p] poner_respuesta_ok b by (auto simp: cuenta send_token_sem_def)
  show "p < MAX_CLIENTS" using p by (simp add: unido_def)
  show "saldo c n ((scli s p)\<lparr>hijo_h := False, ida := ida (scli s p) @ b, buf_hh := b\<rparr>) = saldo c n (scli s p)"
    using h l by (simp add: cuenta algebra_simps)
  show "cli_sem_ok c excl ((scli s p)\<lparr>hijo_h := False, ida := ida (scli s p) @ b, buf_hh := b\<rparr>)"
    using inv_cli_sem [OF inv, of p] l by (simp add: cli_sem_ok_def)
qed

lemma conserva_m_recibir:
  assumes inv: "inv_sem c excl s" and p: "unido p s" and h: "\<not> padre_c (scli s p)"
    and r: "wait_token_sem True (ida (scli s p)) cortes = Listo red"
  defines "k \<equiv> (scli s p)\<lparr>padre_c := True, ida := red, faltan := faltan (scli s p) + falta (ida (scli s p)) red\<rparr>"
  shows "valor_total c n rec (poner_sem p k s) = valor_total c n rec s \<and> inv_sem c excl (poner_sem p k s)"
proof (rule paso_cliente [OF inv])
  obtain i where i: "0 < i" "i \<le> TAMANIO_MENSAJE" "i \<le> length (ida (scli s p))" "red = drop i (ida (scli s p))"
    using wait_token_trozo [OF r] by blast
  show "p < MAX_CLIENTS" using p by (simp add: unido_def)
  show "saldo c n k = saldo c n (scli s p)"
    using h i falta_trozo [OF i(2,3)] by (simp add: k_def cuenta of_nat_diff algebra_simps)
  show "cli_sem_ok c excl k" using inv_cli_sem [OF inv, of p] by (simp add: k_def cli_sem_ok_def)
qed

lemma conserva_sem:
  assumes inv: "inv_sem c excl s" and p: "p < MAX_CLIENTS"
    and s1: "length (sems k) = 2 * c" and k: "cli_sem_ok c excl (k\<lparr>sems := sems (scli s p)\<rparr>)"
    and b: "saldo c n k = saldo c n (scli s p)"
  shows "valor_total c n rec (poner_sem p k s) = valor_total c n rec s \<and> inv_sem c excl (poner_sem p k s)"
  by (rule paso_cliente [OF inv p b]) (use k s1 in \<open>simp add: cli_sem_ok_def\<close>)

lemma conserva_m_entregar:
  assumes "n < c" and inv: "inv_sem c excl s" and p: "unido p s" and h: "padre_c (scli s p)"
    and t: "semaforo_entregar_token n (sems (scli s p)) = Listo ss"
  shows "valor_total c n rec (poner_sem p ((scli s p)\<lparr>padre_c := False, sems := ss, nota := k\<rparr>) s) = valor_total c n rec s \<and>
    inv_sem c excl (poner_sem p ((scli s p)\<lparr>padre_c := False, sems := ss, nota := k\<rparr>) s)"
  by (rule conserva_sem [OF inv])
    (use assms(1) p h t inv_cli_sem [OF inv, of p] in \<open>auto simp: unido_def semaforo_entregar_token_def paso_simps cuenta\<close>)

lemma conserva_m_forwardear:
  assumes "n < c" and inv: "inv_sem c excl s" and p: "unido p s" and h: "padre_c (scli s p)"
    and t: "semaforo_forwardear_token c n (sems (scli s p)) = Listo ss"
  shows "valor_total c n rec (poner_sem p ((scli s p)\<lparr>padre_c := False, sems := ss, nota := k\<rparr>) s) = valor_total c n rec s \<and>
    inv_sem c excl (poner_sem p ((scli s p)\<lparr>padre_c := False, sems := ss, nota := k\<rparr>) s)"
  by (rule conserva_sem [OF inv])
    (use assms(1) p h t inv_cli_sem [OF inv, of p] in \<open>auto simp: unido_def semaforo_forwardear_token_def paso_simps cuenta\<close>)

lemma conserva_m_esperar:
  assumes "n < c" and inv: "inv_sem c excl s" and p: "unido p s" and h: "\<not> hijo_c (scli s p)"
    and t: "semaforo_esperar_token c n (sems (scli s p)) = Listo ss"
  shows "valor_total c n rec (poner_sem p ((scli s p)\<lparr>hijo_c := True, sems := ss\<rparr>) s) = valor_total c n rec s \<and>
    inv_sem c excl (poner_sem p ((scli s p)\<lparr>hijo_c := True, sems := ss\<rparr>) s)"
  by (rule conserva_sem [OF inv])
    (use assms(1) p h t inv_cli_sem [OF inv, of p] in \<open>auto simp: unido_def semaforo_esperar_token_def paso_simps cuenta\<close>)

lemma conserva_m_volver:
  assumes inv: "inv_sem c excl s" and p: "unido p s" and h: "hijo_c (scli s p)"
    and b: "send_token_libre (buf_hc (scli s p)) = b"
  shows "valor_total c n rec (poner_sem p ((scli s p)\<lparr>hijo_c := False, vuelta := vuelta (scli s p) @ b, buf_hc := b\<rparr>) s) = valor_total c n rec s \<and>
    inv_sem c excl (poner_sem p ((scli s p)\<lparr>hijo_c := False, vuelta := vuelta (scli s p) @ b, buf_hc := b\<rparr>) s)"
proof (rule paso_cliente [OF inv])
  have l: "length b = TAMANIO_MENSAJE" and f: "codigo LEAVE \<notin> set b"
    using inv_cli_sem [OF inv, of p] poner_peticion_ok b unfolding cli_sem_ok_def send_token_libre_def by blast+
  show "p < MAX_CLIENTS" using p by (simp add: unido_def)
  show "saldo c n ((scli s p)\<lparr>hijo_c := False, vuelta := vuelta (scli s p) @ b, buf_hc := b\<rparr>) = saldo c n (scli s p)"
    using h l by (simp add: cuenta algebra_simps)
  show "cli_sem_ok c excl ((scli s p)\<lparr>hijo_c := False, vuelta := vuelta (scli s p) @ b, buf_hc := b\<rparr>)"
    using inv_cli_sem [OF inv, of p] l f by (simp add: cli_sem_ok_def)
qed

lemma conserva_m_recv:
  assumes inv: "inv_sem c excl s" and p: "unido p s" and h: "\<not> padre_h (scli s p)"
    and r: "recv_token_sem True (buf_hp (scli s p)) (vuelta (scli s p)) cortes = Listo (True, b, red)"
  defines "k \<equiv> (scli s p)\<lparr>padre_h := True, vuelta := red, buf_hp := b, faltan := faltan (scli s p) + falta (vuelta (scli s p)) red\<rparr>"
  shows "valor_total c n rec (poner_sem p k s) = valor_total c n rec s \<and> inv_sem c excl (poner_sem p k s)"
proof (rule paso_cliente [OF inv])
  obtain i where i: "0 < i" "i \<le> TAMANIO_MENSAJE" "i \<le> length (vuelta (scli s p))" "red = drop i (vuelta (scli s p))"
    using recv_token_trozo [OF r] by blast
  show "p < MAX_CLIENTS" using p by (simp add: unido_def)
  show "saldo c n k = saldo c n (scli s p)"
    using h i falta_trozo [OF i(2,3)] by (simp add: k_def cuenta of_nat_diff algebra_simps)
  show "cli_sem_ok c excl k"
    using inv_cli_sem [OF inv, of p] i(4) by (auto simp: k_def cli_sem_ok_def dest: in_set_dropD)
qed

lemma conserva_m_lock:
  assumes inv: "inv_sem c excl s" and p: "unido p s" and h: "\<not> hijo_h (scli s p)" and "0 < base"
    and t: "lock_token (base + p) (gcola (sgrupo s)) = Listo (t, q)"
  shows "valor_total c n rec (poner_sem p ((scli s p)\<lparr>hijo_h := True\<rparr>) (s\<lparr>sgrupo := (sgrupo s)\<lparr>gcola := q\<rparr>\<rparr>)) = valor_total c n rec s \<and>
    inv_sem c excl (poner_sem p ((scli s p)\<lparr>hijo_h := True\<rparr>) (s\<lparr>sgrupo := (sgrupo s)\<lparr>gcola := q\<rparr>\<rparr>))"
proof
  have p': "p < MAX_CLIENTS" using p by (simp add: unido_def)
  have "saldo c n ((scli s p)\<lparr>hijo_h := True\<rparr>) = saldo c n (scli s p) + int TAMANIO_MENSAJE"
    using h by (simp add: cuenta algebra_simps)
  moreover have "Suc (tokens_grupo rec ((sgrupo s)\<lparr>gcola := q\<rparr>)) = tokens_grupo rec (sgrupo s)"
    by (rule tokens_lock [OF t]) (use \<open>0 < base\<close> in simp)
  then have "int (tokens_grupo rec ((sgrupo s)\<lparr>gcola := q\<rparr>)) - int (tokens_grupo rec (sgrupo s)) = - 1" by simp
  ultimately show "valor_total c n rec (poner_sem p ((scli s p)\<lparr>hijo_h := True\<rparr>) (s\<lparr>sgrupo := (sgrupo s)\<lparr>gcola := q\<rparr>\<rparr>)) = valor_total c n rec s"
    by (simp add: total_poner [OF p'] total_grupo)
  show "inv_sem c excl (poner_sem p ((scli s p)\<lparr>hijo_h := True\<rparr>) (s\<lparr>sgrupo := (sgrupo s)\<lparr>gcola := q\<rparr>\<rparr>))"
    using inv by (simp add: inv_sem_def cli_sem_ok_def)
qed

lemma conserva_m_release:
  fixes c n excl base rec s p
  assumes inv: "inv_sem c excl s" and p: "unido p s" and h: "padre_h (scli s p)"
  defines "s' \<equiv> poner_sem p ((scli s p)\<lparr>padre_h := False\<rparr>) (s\<lparr>sgrupo := (sgrupo s)\<lparr>gmgr := release_token rec (gmgr (sgrupo s))\<rparr>\<rparr>)"
  shows "valor_total c n rec s' = valor_total c n rec s \<and> inv_sem c excl s'"
proof
  have p': "p < MAX_CLIENTS" using p by (simp add: unido_def)
  have "saldo c n (scli s p) = saldo c n ((scli s p)\<lparr>padre_h := False\<rparr>) + int TAMANIO_MENSAJE"
    using h by (simp add: cuenta algebra_simps)
  then show "valor_total c n rec s' = valor_total c n rec s"
    by (simp add: s'_def total_poner [OF p'] total_grupo tokens_release)
  show "inv_sem c excl s'" using inv by (simp add: s'_def inv_sem_def cli_sem_ok_def)
qed

lemma conserva_m_tomar:
  fixes c n excl rec s p ss
  assumes "n < c" and inv: "inv_sem c excl s" and p: "p < MAX_CLIENTS" and t: "wait_on n (sems (scli s p)) = Listo ss"
  defines "k \<equiv> (scli s p)\<lparr>llamador := (if excl then Ll_afuera else Ll_concedido), sems := ss, tomados := tomados (scli s p) + 1\<rparr>"
  shows "valor_total c n rec (poner_sem p k s) = valor_total c n rec s \<and> inv_sem c excl (poner_sem p k s)"
  by (rule conserva_sem [OF inv p])
    (use assms(1) t inv_cli_sem [OF inv, of p] in \<open>auto simp: k_def paso_simps cuenta\<close>)

lemma conserva_m_signal:
  fixes c n excl rec s p ss
  assumes "n < c" and inv: "inv_sem c excl s" and p: "p < MAX_CLIENTS" and l: "llamador (scli s p) = Ll_suelta"
    and t: "signalize (n + c) (sems (scli s p)) = Listo ss"
  defines "k \<equiv> (scli s p)\<lparr>llamador := Ll_afuera, sems := ss, tomados := tomados (scli s p) - 1\<rparr>"
  shows "valor_total c n rec (poner_sem p k s) = valor_total c n rec s \<and> inv_sem c excl (poner_sem p k s)"
  by (rule conserva_sem [OF inv p])
    (use assms(1) l t inv_cli_sem [OF inv, of p] in \<open>auto simp: k_def paso_simps cuenta\<close>)

lemma conserva_m_otro_sem:
  assumes inv: "inv_sem c excl s" and p: "p < MAX_CLIENTS" and "length ss = length (sems (scli s p))"
    and "ss ! n = sems (scli s p) ! n" and "ss ! (n + c) = sems (scli s p) ! (n + c)"
  shows "valor_total c n rec (poner_sem p ((scli s p)\<lparr>sems := ss\<rparr>) s) = valor_total c n rec s \<and> inv_sem c excl (poner_sem p ((scli s p)\<lparr>sems := ss\<rparr>) s)"
  by (rule conserva_sem [OF inv p]) (use assms(3-5) inv_cli_sem [OF inv, of p] in \<open>simp_all add: cuenta\<close>)

text \<open>A step of the application that only writes its place and its note.\<close>

lemma conserva_nota:
  assumes inv: "inv_sem c excl s" and p: "p < MAX_CLIENTS" and "excl \<longrightarrow> l = Ll_suelta \<longrightarrow> 0 < tomados (scli s p)"
  shows "valor_total c n rec (poner_sem p ((scli s p)\<lparr>llamador := l, nota := k\<rparr>) s) = valor_total c n rec s \<and>
    inv_sem c excl (poner_sem p ((scli s p)\<lparr>llamador := l, nota := k\<rparr>) s)"
  by (rule paso_cliente [OF inv p]) (use assms(3) inv_cli_sem [OF inv, of p] in \<open>simp_all add: cuenta\<close>)

lemma conserva_m_otra_nota:
  assumes inv: "inv_sem c excl s" and p: "p < MAX_CLIENTS"
  shows "valor_total c n rec (poner_sem p ((scli s p)\<lparr>nota := k\<rparr>) s) = valor_total c n rec s \<and>
    inv_sem c excl (poner_sem p ((scli s p)\<lparr>nota := k\<rparr>) s)"
  by (rule paso_cliente [OF inv p]) (use inv_cli_sem [OF inv, of p] in \<open>simp_all add: cuenta\<close>)

lemma conserva_grupo:
  assumes inv: "inv_sem c excl s" and "mem_size (ggrupo g) = 0" and "tokens_grupo rec g = tokens_grupo rec (sgrupo s)"
  shows "valor_total c n rec (s\<lparr>sgrupo := g\<rparr>) = valor_total c n rec s \<and> inv_sem c excl (s\<lparr>sgrupo := g\<rparr>)"
  using assms by (simp add: total_grupo inv_sem_def)

lemma join_mem_size: "join x g = Listo (g', r) \<Longrightarrow> mem_size g' = mem_size g"
  by (auto simp: join_def con_mutex_def locked_ya_esta_cliente_def split: if_splits option.splits)

lemma conserva_paso:
  assumes "paso_sem c n excl base rec s t" and "n < c" and "0 < base" and "inv_sem c excl s"
  shows "valor_total c n rec t = valor_total c n rec s \<and> inv_sem c excl t"
  using assms
proof (induction rule: paso_sem.induct)
  case (m_manager s t m q g)
  have "mem_size (ggrupo (sgrupo s)) = 0" using m_manager by (simp add: inv_sem_def)
  with tokens_manager [OF m_manager(1,2)] show ?case by (intro conserva_grupo [OF m_manager(5)]) simp_all
next
  case (m_ajeno m s q)
  then show ?case by (intro conserva_grupo) (auto simp: inv_sem_def tokens_grupo_def paso_simps es_token_def)
next
  case (m_join x s g p)
  have "mem_size g = 0" using m_join join_mem_size [OF m_join(2)] by (simp add: inv_sem_def)
  then show ?case by (intro conserva_grupo [OF m_join(5)]) (simp_all add: fin_join_def tokens_grupo_def)
next
  case (m_lock p s t q)
  then show ?case by (intro conserva_m_lock)
next
  case (m_enviar p s b)
  then show ?case by (intro conserva_m_enviar)
next
  case (m_recibir p s cortes red)
  then show ?case by (intro conserva_m_recibir)
next
  case (m_entregar p s k ss)
  then show ?case by (intro conserva_m_entregar)
next
  case (m_forwardear p s k ss)
  then show ?case by (intro conserva_m_forwardear)
next
  case (m_esperar p s ss)
  then show ?case by (intro conserva_m_esperar)
next
  case (m_volver p s b)
  then show ?case by (intro conserva_m_volver)
next
  case (m_recv p s cortes b red)
  then show ?case by (intro conserva_m_recv)
next
  case (m_release p s)
  then show ?case by (intro conserva_m_release)
next
  case (m_pedir p s k)
  then show ?case by (intro conserva_nota) simp_all
next
  case (m_tomar p s ss)
  then show ?case by (intro conserva_m_tomar)
next
  case (m_limpiar p s k)
  then show ?case by (intro conserva_nota) simp_all
next
  case (m_soltar p s k)
  then show ?case by (intro conserva_nota) simp_all
next
  case (m_signal p s ss)
  then show ?case by (intro conserva_m_signal)
next
  case (m_otra_nota p s x k)
  then show ?case by (intro conserva_m_otra_nota)
next
  case (m_otro_sem p ss s)
  then show ?case by (intro conserva_m_otro_sem)
qed

lemma ini_sem_ok:
  assumes "ini_sem c v rec s" and "n < c" and "v \<in> {0, 1}"
  shows "valor_total c n rec s = int TAMANIO_MENSAJE * v \<and> inv_sem c excl s"
proof -
  have k: "saldo c n (scli s p) = 0 \<and> cli_sem_ok c excl (scli s p)" for p
  proof -
    obtain b1 b2 b3 where "length b1 = TAMANIO_MENSAJE" "length b2 = TAMANIO_MENSAJE" "length b3 = TAMANIO_MENSAJE"
      "codigo LEAVE \<notin> set b3" "scli s p = cliente_nuevo c b1 b2 b3" using assms(1) unfolding ini_sem_def by blast
    then show ?thesis using assms(2) by (simp add: cuenta cliente_nuevo_def crear_semset_def)
  qed
  have "int (tokens_grupo rec (sgrupo s)) = v"
    using assms(1,3) by (auto simp: ini_sem_def tokens_grupo_def ini_grupo_def release_token_def es_token_def)
  moreover have "mem_size (ggrupo (sgrupo s)) = 0" using assms(1) by (simp add: ini_sem_def ini_grupo_def iniciar_grupo_def)
  ultimately show ?thesis using k by (simp add: valor_total_def inv_sem_def)
qed

lemma conserva_alcanzable:
  assumes "alcanzable (ini_sem c v rec) (paso_sem c n excl base rec) s" and "n < c" and "0 < base" and "v \<in> {0, 1}"
  shows "valor_total c n rec s = int TAMANIO_MENSAJE * v \<and> inv_sem c excl s"
  using assms(1)
proof (induction rule: alcanzable.induct)
  case (inicio s)
  then show ?case using ini_sem_ok assms(2,4) by blast
next
  case (avance s t)
  have "valor_total c n rec t = valor_total c n rec s \<and> inv_sem c excl t"
    by (rule conserva_paso [OF avance(2) assms(2,3)]) (use avance.IH in blast)
  then show ?case using avance.IH by simp
qed

text \<open>The parts of the total; so what is inside is bounded by the value and the lacks.\<close>

lemma valor_partes:
  "valor_total c n rec s + (\<Sum>p < MAX_CLIENTS. int (faltan (scli s p))) =
     int TAMANIO_MENSAJE * (int (tokens_grupo rec (sgrupo s)) +
       (\<Sum>p < MAX_CLIENTS. int (tokens_cli c n (scli s p)) + tomados (scli s p))) +
     (\<Sum>p < MAX_CLIENTS. int (bytes_cli (scli s p)))"
  by (simp add: valor_total_def saldo_def sum.distrib sum_subtractf sum_distrib_left distrib_left)

lemma tomados_total:
  "int TAMANIO_MENSAJE * (\<Sum>p < MAX_CLIENTS. tomados (scli s p)) \<le>
     valor_total c n rec s + (\<Sum>p < MAX_CLIENTS. int (faltan (scli s p)))"
proof -
  have "(\<Sum>p < MAX_CLIENTS. tomados (scli s p)) \<le>
      int (tokens_grupo rec (sgrupo s)) + (\<Sum>p < MAX_CLIENTS. int (tokens_cli c n (scli s p)) + tomados (scli s p))"
    by (simp add: sum.distrib sum_nonneg)
  then have "int TAMANIO_MENSAJE * (\<Sum>p < MAX_CLIENTS. tomados (scli s p)) \<le> int TAMANIO_MENSAJE *
      (int (tokens_grupo rec (sgrupo s)) + (\<Sum>p < MAX_CLIENTS. int (tokens_cli c n (scli s p)) + tomados (scli s p)))"
    by (rule mult_left_mono) simp
  then show ?thesis unfolding valor_partes by (simp add: sum_nonneg add_increasing2)
qed

lemma dos_tomados:
  fixes f :: "nat \<Rightarrow> int"
  assumes "\<forall>x < m. 0 \<le> f x" and "(\<Sum>x < m. f x) \<le> 1" and "p < m" and "q < m" and "p \<noteq> q"
  shows "f p \<le> 1" and "f p = 1 \<Longrightarrow> f q = 0"
proof -
  have "f p + f q = (\<Sum>x \<in> {p, q}. f x)" using assms(5) by simp
  also have "\<dots> \<le> (\<Sum>x < m. f x)" by (rule sum_mono2) (use assms in auto)
  finally have "f p + f q \<le> 1" using assms(2) by simp
  moreover have "0 \<le> f p" "0 \<le> f q" using assms(1,3,4) by auto
  ultimately show "f p \<le> 1" and "f p = 1 \<Longrightarrow> f q = 0" by auto
qed

section \<open>Runs of two clients\<close>

text \<open>
  Two clients \<open>a\<close> and \<open>b\<close> of the mutex \<open>m\<close>. \<open>punto\<close> is a reachable state with both joined,
  by what its runs look at: the two queues, the client last served and the records.
\<close>

abbreviation buf_cero :: "byte list" where "buf_cero \<equiv> replicate TAMANIO_MENSAJE 0"

definition ficha :: traspaso where "ficha = \<lparr>tipo = 1, recurso = ''m''\<rparr>"

definition nombres_ab :: "string list" where "nombres_ab = [''a'', ''b''] @ replicate 48 []"

definition grupo_ab :: "grupo \<Rightarrow> bool" where
  "grupo_ab g \<longleftrightarrow> mutex_grupo g = 1 \<and> mem_size g = 0 \<and> cant_clientes g = 2 \<and> client_names g = nombres_ab"

definition punto :: "traspaso cola \<Rightarrow> traspaso cola \<Rightarrow> nat \<Rightarrow> (nat \<Rightarrow> cliente_sem) \<Rightarrow> bool" where
  "punto m q cur ks \<longleftrightarrow> (\<exists>s. alcanzable (ini_sem 1 1 ''m'') (paso_sem 1 0 True 1 ''m'') s \<and> scli s = ks \<and>
     unido 0 s \<and> unido 1 s \<and> gmgr (sgrupo s) = m \<and> gcola (sgrupo s) = q \<and> gcur (sgrupo s) = cur \<and> grupo_ab (ggrupo (sgrupo s)))"

lemma proximo_ab: "proximo 0 nombres_ab = Some 1" "proximo 1 nombres_ab = Some 0"
  by code_simp+

lemma join_ab:
  defines "g0 \<equiv> iniciar_grupo 0 (replicate MAX_CLIENTS []) []"
  shows "\<exists>g1 g2. join ''a'' g0 = Listo (g1, Inr (Some 0)) \<and> join ''b'' g1 = Listo (g2, Inr (Some 1)) \<and> grupo_ab g2"
proof -
  define g1 where "g1 = g0\<lparr>client_names := ''a'' # replicate 49 [], cant_clientes := 1\<rparr>"
  define g2 where "g2 = g1\<lparr>client_names := nombres_ab, cant_clientes := 2\<rparr>"
  have "join ''a'' g0 = Listo (g1, Inr (Some 0))" unfolding g1_def g0_def by code_simp
  moreover have "join ''b'' g1 = Listo (g2, Inr (Some 1))" unfolding g2_def g1_def g0_def by code_simp
  moreover have "grupo_ab g2" by (simp add: grupo_ab_def g2_def g1_def g0_def iniciar_grupo_def)
  ultimately show ?thesis by blast
qed

lemma punto_inicio: "punto [(1, ficha)] [] 0 (\<lambda>_. cliente_nuevo 1 buf_cero buf_cero buf_cero)"
proof -
  let ?R = "alcanzable (ini_sem 1 1 ''m'') (paso_sem 1 0 True 1 ''m'')"
  let ?s = "\<lparr>sgrupo = (ini_grupo ''m'' 0 [])\<lparr>gmgr := release_token ''m'' []\<rparr>,
    scli = (\<lambda>_. cliente_nuevo 1 buf_cero buf_cero buf_cero)\<rparr>"
  obtain g1 g2 where g: "join ''a'' (ggrupo (sgrupo ?s)) = Listo (g1, Inr (Some 0))"
    "join ''b'' g1 = Listo (g2, Inr (Some 1))" "grupo_ab g2"
    using join_ab by (auto simp: ini_grupo_def)
  let ?s1 = "?s\<lparr>sgrupo := fin_join 0 ''a'' g1 (sgrupo ?s)\<rparr>"
  let ?s2 = "?s1\<lparr>sgrupo := fin_join 1 ''b'' g2 (sgrupo ?s1)\<rparr>"
  have "ini_sem 1 1 ''m'' ?s" unfolding ini_sem_def by (auto intro!: exI [of _ buf_cero])
  then have "?R ?s" by (rule alcanzable.inicio)
  then have "?R ?s1" by (rule alcanzable.avance) (rule paso_sem.m_join [OF _ g(1)], simp)
  then have "?R ?s2" by (rule alcanzable.avance) (rule paso_sem.m_join, simp_all add: fin_join_def g(2))
  then show ?thesis
    unfolding punto_def using g(3)
    by (intro exI [of _ ?s2]) (simp add: fin_join_def unido_def MAX_CLIENTS_def ini_grupo_def release_token_def ficha_def)
qed

lemma punto_manager:
  assumes "punto [(1, ficha)] [] cur ks" and p: "proximo cur nombres_ab = Some p" and l: "p < 2"
  shows "punto [] [(int (1 + p), ficha)] p ks"
proof -
  obtain s where s: "alcanzable (ini_sem 1 1 ''m'') (paso_sem 1 0 True 1 ''m'') s" "scli s = ks" "unido 0 s" "unido 1 s"
    "gmgr (sgrupo s) = [(1, ficha)]" "gcola (sgrupo s) = []" "gcur (sgrupo s) = cur" "grupo_ab (ggrupo (sgrupo s))"
    using assms(1) by (auto simp: punto_def)
  have n: "\<not> es_localbroker (nombres_ab ! p)" using l
    by (auto simp: nombres_ab_def es_localbroker_def strncmp_igual_def less_2_cases_iff)
  let ?g = "(sgrupo s)\<lparr>gmgr := [], ggrupo := (ggrupo (sgrupo s))\<lparr>tengo_token_grupo := 1, tengo_token_cliente := int p\<rparr>,
    gcola := [(int (1 + p), ficha)], gcur := p\<rparr>"
  have "manager_turno 1 ''m'' ficha ((sgrupo s)\<lparr>gmgr := []\<rparr>) = Some ?g"
    using s(6-8) p n by (simp add: manager_turno_def ficha_def replicar_brokers_def pasar_token_def grupo_ab_def)
  moreover have "pull 0 (gmgr (sgrupo s)) = Listo ((1, ficha), [])" using s(5) by (simp add: pull_def)
  ultimately have "alcanzable (ini_sem 1 1 ''m'') (paso_sem 1 0 True 1 ''m'') (s\<lparr>sgrupo := ?g\<rparr>)"
    using alcanzable.avance [OF s(1)] paso_sem.m_manager by blast
  then show ?thesis unfolding punto_def
    by (rule_tac x = "s\<lparr>sgrupo := ?g\<rparr>" in exI) (use s in \<open>simp add: unido_def grupo_ab_def\<close>)
qed

text \<open>A step of one client, and the two that also move the queues.\<close>

lemma punto_cli:
  assumes "punto m q cur ks" and p: "p < 2"
    and paso: "\<And>s. scli s = ks \<Longrightarrow> unido p s \<Longrightarrow> paso_sem 1 0 True 1 ''m'' s (poner_sem p k s)"
  shows "punto m q cur (ks(p := k))"
proof -
  obtain s where s: "alcanzable (ini_sem 1 1 ''m'') (paso_sem 1 0 True 1 ''m'') s" "scli s = ks" "unido 0 s" "unido 1 s"
    "gmgr (sgrupo s) = m" "gcola (sgrupo s) = q" "gcur (sgrupo s) = cur" "grupo_ab (ggrupo (sgrupo s))"
    using assms(1) by (auto simp: punto_def)
  have "unido p s" using s(3,4) p by (auto simp: less_2_cases_iff)
  then have "alcanzable (ini_sem 1 1 ''m'') (paso_sem 1 0 True 1 ''m'') (poner_sem p k s)"
    using alcanzable.avance [OF s(1)] paso s(2) by blast
  then show ?thesis unfolding punto_def
    by (rule_tac x = "poner_sem p k s" in exI) (use s in \<open>simp add: poner_sem_def unido_def\<close>)
qed

lemma punto_grupo:
  assumes "punto m q cur ks" and p: "p < 2"
    and paso: "\<And>s. scli s = ks \<Longrightarrow> unido p s \<Longrightarrow> gmgr (sgrupo s) = m \<Longrightarrow> gcola (sgrupo s) = q \<Longrightarrow>
      paso_sem 1 0 True 1 ''m'' s (poner_sem p k (s\<lparr>sgrupo := (sgrupo s)\<lparr>gmgr := m', gcola := q'\<rparr>\<rparr>))"
  shows "punto m' q' cur (ks(p := k))"
proof -
  obtain s where s: "alcanzable (ini_sem 1 1 ''m'') (paso_sem 1 0 True 1 ''m'') s" "scli s = ks" "unido 0 s" "unido 1 s"
    "gmgr (sgrupo s) = m" "gcola (sgrupo s) = q" "gcur (sgrupo s) = cur" "grupo_ab (ggrupo (sgrupo s))"
    using assms(1) by (auto simp: punto_def)
  let ?t = "poner_sem p k (s\<lparr>sgrupo := (sgrupo s)\<lparr>gmgr := m', gcola := q'\<rparr>\<rparr>)"
  have "unido p s" using s(3,4) p by (auto simp: less_2_cases_iff)
  then have "alcanzable (ini_sem 1 1 ''m'') (paso_sem 1 0 True 1 ''m'') ?t"
    using alcanzable.avance [OF s(1)] paso s(2,5,6) by blast
  then show ?thesis unfolding punto_def
    by (rule_tac x = ?t in exI) (use s in \<open>simp add: poner_sem_def unido_def\<close>)
qed

lemma punto_toma:
  assumes "punto [] [(int (1 + p), ficha)] cur ks" and p: "p < 2" and k: "ks p = k" "\<not> hijo_h k"
  shows "punto [] [] cur (ks(p := k\<lparr>hijo_h := False, ida := ida k @ send_token_sem (buf_hh k), buf_hh := send_token_sem (buf_hh k)\<rparr>))"
proof -
  have "punto [] [] cur (ks(p := k\<lparr>hijo_h := True\<rparr>))"
  proof (rule punto_grupo [OF assms(1) p])
    fix s
    assume s: "scli s = ks" "unido p s" "gmgr (sgrupo s) = []" "gcola (sgrupo s) = [(int (1 + p), ficha)]"
    have "lock_token (1 + p) (gcola (sgrupo s)) = Listo (1, [])" using s(4) by (simp add: lock_token_def pull_def ficha_def)
    from paso_sem.m_lock [OF s(2) _ this, where c = 1 and n = 0 and excl = True and rec = "''m''"]
    have "paso_sem 1 0 True 1 ''m'' s (poner_sem p (k\<lparr>hijo_h := True\<rparr>) (s\<lparr>sgrupo := (sgrupo s)\<lparr>gcola := []\<rparr>\<rparr>))"
      using s(1) k by simp
    moreover have "(sgrupo s)\<lparr>gmgr := [], gcola := []\<rparr> = (sgrupo s)\<lparr>gcola := []\<rparr>" using s(3) by (cases "sgrupo s") simp
    ultimately show "paso_sem 1 0 True 1 ''m'' s (poner_sem p (k\<lparr>hijo_h := True\<rparr>) (s\<lparr>sgrupo := (sgrupo s)\<lparr>gmgr := [], gcola := []\<rparr>\<rparr>))"
      by presburger
  qed
  then have "punto [] [] cur (ks(p := k\<lparr>hijo_h := True\<rparr>, p := k\<lparr>hijo_h := False,
      ida := ida k @ send_token_sem (buf_hh k), buf_hh := send_token_sem (buf_hh k)\<rparr>))"
  proof (rule punto_cli [OF _ p])
    fix s :: sis_sem assume "scli s = ks(p := k\<lparr>hijo_h := True\<rparr>)" "unido p s"
    then show "paso_sem 1 0 True 1 ''m'' s (poner_sem p (k\<lparr>hijo_h := False,
        ida := ida k @ send_token_sem (buf_hh k), buf_hh := send_token_sem (buf_hh k)\<rparr>) s)"
      using paso_sem.m_enviar [of p s "send_token_sem (buf_hh k)" 1 0 True 1 "''m''"] by simp
  qed
  then show ?thesis by simp
qed

text \<open>
  An application locks the mutex: it writes the note, what is in the socket is read at once,
  delivered and taken.
\<close>

lemma nota_m [simp]: "take MAX_NOMBRE_RECURSO ''m'' = ''m''"
  by (simp add: MAX_NOMBRE_RECURSO_def)

lemma punto_entra:
  assumes "punto m q cur ks" and p: "p < 2" and k: "ks p = k"
    and l: "llamador k = Ll_afuera" "tomados k = 0" "mutex_control (nota k) = 1" "sems k = [0, w]" "\<not> padre_c k"
    and i: "ida k \<noteq> []" "length (ida k) \<le> TAMANIO_MENSAJE"
  shows "punto m q cur (ks(p := k\<lparr>nota := (nota k)\<lparr>token_esperando := ''m''\<rparr>, ida := [],
     faltan := faltan k + (TAMANIO_MENSAJE - length (ida k)), tomados := 1\<rparr>))"
proof -
  let ?n = "(nota k)\<lparr>token_esperando := ''m''\<rparr>" and ?f = "faltan k + (TAMANIO_MENSAJE - length (ida k))"
  let ?k1 = "k\<lparr>llamador := Ll_pide, nota := ?n\<rparr>"
  let ?k2 = "?k1\<lparr>padre_c := True, ida := [], faltan := ?f\<rparr>"
  let ?k3 = "?k2\<lparr>padre_c := False, sems := [1, w], nota := ?n\<rparr>"
  let ?k4 = "?k3\<lparr>llamador := Ll_afuera, sems := [0, w], tomados := 1\<rparr>"
  have pm: "p < MAX_CLIENTS" using p by (simp add: MAX_CLIENTS_def)
  have "punto m q cur (ks(p := ?k1))"
  proof (rule punto_cli [OF assms(1) p])
    fix s :: sis_sem assume "scli s = ks"
    then show "paso_sem 1 0 True 1 ''m'' s (poner_sem p ?k1 s)"
      using paso_sem.m_pedir [OF pm, of s True "''m''" ?n 1 0 1] k l by (simp add: paso_simps)
  qed
  then have "punto m q cur (ks(p := ?k1, p := ?k2))"
  proof (rule punto_cli [OF _ p])
    fix s :: sis_sem assume s: "scli s = ks(p := ?k1)" "unido p s"
    have "wait_token_sem True (ida k) [] = Listo []" using i by (auto simp: wait_token_sem_def Let_def leidos_def)
    then show "paso_sem 1 0 True 1 ''m'' s (poner_sem p ?k2 s)"
      using paso_sem.m_recibir [OF s(2), of "[]" "[]" 1 0 True 1 "''m''"] s l by (simp add: falta_def)
  qed
  then have "punto m q cur (ks(p := ?k1, p := ?k2, p := ?k3))"
  proof (rule punto_cli [OF _ p])
    fix s :: sis_sem assume s: "scli s = ks(p := ?k1, p := ?k2)" "unido p s"
    then show "paso_sem 1 0 True 1 ''m'' s (poner_sem p ?k3 s)"
      using paso_sem.m_entregar [OF s(2), of "''m''" ?n 0 "[1, w]" 1 True 1] l
      by (simp add: paso_simps semaforo_entregar_token_def signalize_def semset_op_def strncmp_igual_def)
  qed
  then have "punto m q cur (ks(p := ?k1, p := ?k2, p := ?k3, p := ?k4))"
  proof (rule punto_cli [OF _ p])
    fix s :: sis_sem assume s: "scli s = ks(p := ?k1, p := ?k2, p := ?k3)" "unido p s"
    then show "paso_sem 1 0 True 1 ''m'' s (poner_sem p ?k4 s)"
      using paso_sem.m_tomar [OF pm, of s 0 "[0, w]" 1 True 1 "''m''"] l
      by (simp add: paso_simps wait_on_def semset_op_def)
  qed
  moreover have "?k4 = k\<lparr>nota := ?n, ida := [], faltan := ?f, tomados := 1\<rparr>" using l by (cases k) simp
  ultimately show ?thesis by simp
qed

text \<open>A whole message reaches \<open>b\<close>, the first that is served, and its application enters.\<close>

abbreviation cliente_cero :: cliente_sem where "cliente_cero \<equiv> cliente_nuevo 1 buf_cero buf_cero buf_cero"

abbreviation mensaje_cero :: "byte list" where "mensaje_cero \<equiv> send_token_sem buf_cero"

lemma length_mensaje_cero: "length mensaje_cero = TAMANIO_MENSAJE"
  by (simp add: send_token_sem_def poner_respuesta_ok)

lemma punto_llega:
  "punto [] [] 1 ((\<lambda>_. cliente_cero)(1 := cliente_cero\<lparr>ida := mensaje_cero, buf_hh := mensaje_cero\<rparr>))"
proof -
  note punto_manager [OF punto_inicio proximo_ab(1), simplified]
  then have "punto [] [(int (1 + 1), ficha)] 1 (\<lambda>_. cliente_cero)" by simp
  from punto_toma [OF this, of cliente_cero] show ?thesis by (simp add: cliente_nuevo_def)
qed

lemma punto_uno_adentro:
  "\<exists>ks. punto [] [] 1 ks \<and> tomados (ks 1) = 1 \<and> (\<forall>p. faltan (ks p) = 0)"
proof -
  let ?k = "cliente_cero\<lparr>ida := mensaje_cero, buf_hh := mensaje_cero\<rparr>"
  have l: "llamador ?k = Ll_afuera" "tomados ?k = 0" "mutex_control (nota ?k) = 1" "sems ?k = [0, 0]" "\<not> padre_c ?k"
    by (simp_all add: cliente_nuevo_def crear_control_def crear_semset_def numeral_2_eq_2)
  have i: "ida ?k \<noteq> []" "length (ida ?k) \<le> TAMANIO_MENSAJE"
    using length_mensaje_cero TAMANIO_pos by auto
  have p: "(1::nat) < 2" and k: "((\<lambda>_. cliente_cero)(1 := ?k)) 1 = ?k" by simp_all
  note e = punto_entra [OF punto_llega p k l i]
  show ?thesis by (rule exI, rule conjI [OF e]) (simp add: length_mensaje_cero cliente_nuevo_def)
qed

text \<open>
  The same message in two pieces. The first finds nobody waiting and goes back to the broker as
  a token, the second lets the application in; the broker gives the token to the other client.
\<close>

lemma falta_uno: "length red = TAMANIO_MENSAJE \<Longrightarrow> falta red (drop 1 red) = TAMANIO_MENSAJE - 1"
  using TAMANIO_pos by (intro falta_trozo) auto

lemma punto_partido:
  "\<exists>k. punto [] [] 1 ((\<lambda>_. cliente_cero)(1 := k)) \<and> tomados k = 1 \<and> faltan k = TAMANIO_MENSAJE \<and> sems k = [0, 1] \<and>
     \<not> hijo_c k \<and> \<not> padre_h k \<and> vuelta k = [] \<and> buf_hc k = buf_cero \<and> buf_hp k = buf_cero"
proof -
  let ?k0 = "cliente_cero\<lparr>ida := mensaje_cero, buf_hh := mensaje_cero\<rparr>"
  let ?k1 = "?k0\<lparr>padre_c := True, ida := drop 1 mensaje_cero, faltan := TAMANIO_MENSAJE - 1\<rparr>"
  let ?k2 = "?k1\<lparr>padre_c := False, sems := [0, 1]\<rparr>"
  have m: "1 < TAMANIO_MENSAJE" by (simp add: TAMANIO_MENSAJE_def DATA_SIZE_def)
  have "punto [] [] 1 ((\<lambda>_. cliente_cero)(1 := ?k0, 1 := ?k1))"
  proof (rule punto_cli [OF punto_llega])
    fix s :: sis_sem assume s: "scli s = (\<lambda>_. cliente_cero)(1 := ?k0)" "unido 1 s"
    have "wait_token_sem True mensaje_cero [0] = Listo (drop 1 mensaje_cero)"
      using m length_mensaje_cero by (simp add: wait_token_sem_def Let_def leidos_def)
    then show "paso_sem 1 0 True 1 ''m'' s (poner_sem 1 ?k1 s)"
      using paso_sem.m_recibir [OF s(2), of "[0]" "drop 1 mensaje_cero" 1 0 True 1 "''m''"] s
        falta_uno [OF length_mensaje_cero] by (simp add: cliente_nuevo_def)
  qed simp
  then have "punto [] [] 1 ((\<lambda>_. cliente_cero)(1 := ?k0, 1 := ?k1, 1 := ?k2))"
  proof (rule punto_cli)
    fix s :: sis_sem assume s: "scli s = (\<lambda>_. cliente_cero)(1 := ?k0, 1 := ?k1)" "unido 1 s"
    show "paso_sem 1 0 True 1 ''m'' s (poner_sem 1 ?k2 s)"
      using paso_sem.m_forwardear [OF s(2), of "''m''" crear_control 1 0 "[0, 1]" True 1] s
      by (simp add: paso_simps semaforo_forwardear_token_def signalize_def semset_op_def strncmp_igual_def
          cliente_nuevo_def crear_control_def crear_semset_def numeral_2_eq_2)
  qed simp
  then have p2: "punto [] [] 1 ((\<lambda>_. cliente_cero)(1 := ?k2))" by simp
  have l: "llamador ?k2 = Ll_afuera" "tomados ?k2 = 0" "mutex_control (nota ?k2) = 1" "sems ?k2 = [0, 1]" "\<not> padre_c ?k2"
    by (simp_all add: cliente_nuevo_def crear_control_def)
  have i: "ida ?k2 \<noteq> []" "length (ida ?k2) \<le> TAMANIO_MENSAJE"
    using length_mensaje_cero m by auto
  have p: "(1::nat) < 2" and k: "((\<lambda>_. cliente_cero)(1 := ?k2)) 1 = ?k2" by simp_all
  let ?k3 = "?k2\<lparr>nota := (nota ?k2)\<lparr>token_esperando := ''m''\<rparr>, ida := [],
    faltan := faltan ?k2 + (TAMANIO_MENSAJE - length (ida ?k2)), tomados := 1\<rparr>"
  from punto_entra [OF p2 p k l i] have e: "punto [] [] 1 ((\<lambda>_. cliente_cero)(1 := ?k3))" by (simp only: fun_upd_upd)
  show ?thesis by (rule exI [of _ ?k3], rule conjI [OF e]) (use m length_mensaje_cero in \<open>simp add: cliente_nuevo_def\<close>)
qed

text \<open>The token given back goes round and lets the other application in too.\<close>

lemma punto_devuelve:
  assumes "punto [] [] 1 ks" and k: "ks 1 = k" and l: "sems k = [w, 1]" "\<not> hijo_c k" "\<not> padre_h k" "vuelta k = []"
    "length (buf_hc k) = TAMANIO_MENSAJE" "length (buf_hp k) = TAMANIO_MENSAJE"
  shows "\<exists>k'. punto [(1, ficha)] [] 1 (ks(1 := k')) \<and> tomados k' = tomados k \<and> faltan k' = faltan k"
proof -
  let ?F = "send_token_libre (buf_hc k)"
  have F: "length ?F = TAMANIO_MENSAJE" "\<not> es_peticion LEAVE ?F"
    using l(5) by (simp_all add: send_token_libre_def poner_peticion_def escribir_def entero_4_def es_peticion_def
        TAMANIO_MENSAJE_def POS_DATOS_def POS_RECURSO_def MAX_NOMBRE_RECURSO_def DATA_SIZE_def)
  let ?k1 = "k\<lparr>hijo_c := True, sems := [w, 0]\<rparr>"
  let ?k2 = "?k1\<lparr>hijo_c := False, vuelta := ?F, buf_hc := ?F\<rparr>"
  let ?k3 = "?k2\<lparr>padre_h := True, vuelta := [], buf_hp := ?F, faltan := faltan k\<rparr>"
  let ?k4 = "?k3\<lparr>padre_h := False\<rparr>"
  have "punto [] [] 1 (ks(1 := ?k1))"
  proof (rule punto_cli [OF assms(1)])
    fix s :: sis_sem assume s: "scli s = ks" "unido 1 s"
    show "paso_sem 1 0 True 1 ''m'' s (poner_sem 1 ?k1 s)"
      using paso_sem.m_esperar [OF s(2), of 1 0 "[w, 0]" True 1 "''m''"] s l k
      by (simp add: semaforo_esperar_token_def wait_on_def semset_op_def)
  qed simp
  then have "punto [] [] 1 (ks(1 := ?k1, 1 := ?k2))"
  proof (rule punto_cli)
    fix s :: sis_sem assume s: "scli s = ks(1 := ?k1)" "unido 1 s"
    show "paso_sem 1 0 True 1 ''m'' s (poner_sem 1 ?k2 s)"
      using paso_sem.m_volver [OF s(2), of ?F 1 0 True 1 "''m''"] s l by simp
  qed simp
  then have "punto [] [] 1 (ks(1 := ?k1, 1 := ?k2, 1 := ?k3))"
  proof (rule punto_cli)
    fix s :: sis_sem assume s: "scli s = ks(1 := ?k1, 1 := ?k2)" "unido 1 s"
    have "recv_token_sem True (buf_hp k) ?F [] = Listo (True, ?F, [])"
      using F l(6) TAMANIO_pos by (simp add: recv_token_sem_def Let_def leidos_def escribir_def)
    then show "paso_sem 1 0 True 1 ''m'' s (poner_sem 1 ?k3 s)"
      using paso_sem.m_recv [OF s(2), of "[]" ?F "[]" 1 0 True 1 "''m''"] s l F by (simp add: falta_def)
  qed simp
  then have "punto [(1, ficha)] [] 1 (ks(1 := ?k1, 1 := ?k2, 1 := ?k3, 1 := ?k4))"
  proof (rule punto_grupo)
    fix s :: sis_sem
    assume s: "scli s = ks(1 := ?k1, 1 := ?k2, 1 := ?k3)" "unido 1 s" "gmgr (sgrupo s) = []" "gcola (sgrupo s) = []"
    have "(sgrupo s)\<lparr>gmgr := [(1, ficha)], gcola := []\<rparr> = (sgrupo s)\<lparr>gmgr := release_token ''m'' (gmgr (sgrupo s))\<rparr>"
      using s(3,4) by (cases "sgrupo s") (simp add: release_token_def ficha_def)
    then show "paso_sem 1 0 True 1 ''m'' s (poner_sem 1 ?k4 (s\<lparr>sgrupo := (sgrupo s)\<lparr>gmgr := [(1, ficha)], gcola := []\<rparr>\<rparr>))"
      using paso_sem.m_release [OF s(2), of 1 0 True 1 "''m''"] s by simp
  qed simp
  then have e: "punto [(1, ficha)] [] 1 (ks(1 := ?k4))" by (simp only: fun_upd_upd)
  show ?thesis by (rule exI [of _ ?k4], rule conjI [OF e]) simp
qed

lemma punto_dos_adentro:
  "\<exists>ks. punto [] [] 0 ks \<and> tomados (ks 0) = 1 \<and> tomados (ks 1) = 1 \<and> faltan (ks 1) = TAMANIO_MENSAJE"
proof -
  obtain k where k: "punto [] [] 1 ((\<lambda>_. cliente_cero)(1 := k))" "tomados k = 1" "faltan k = TAMANIO_MENSAJE"
    "sems k = [0, 1]" "\<not> hijo_c k" "\<not> padre_h k" "vuelta k = []" "buf_hc k = buf_cero" "buf_hp k = buf_cero"
    using punto_partido by blast
  obtain k' where k': "punto [(1, ficha)] [] 1 ((\<lambda>_. cliente_cero)(1 := k'))" "tomados k' = 1" "faltan k' = TAMANIO_MENSAJE"
    using punto_devuelve [OF k(1) _ k(4-7)] k(2,3,8,9) by fastforce
  from punto_manager [OF k'(1) proximo_ab(2)] have "punto [] [(int (1 + 0), ficha)] 0 ((\<lambda>_. cliente_cero)(1 := k'))" by simp
  from punto_toma [OF this, of cliente_cero]
  have p: "punto [] [] 0 ((\<lambda>_. cliente_cero)(1 := k', 0 := cliente_cero\<lparr>ida := mensaje_cero, buf_hh := mensaje_cero\<rparr>))"
    by (simp add: cliente_nuevo_def)
  let ?k = "cliente_cero\<lparr>ida := mensaje_cero, buf_hh := mensaje_cero\<rparr>"
  have l: "llamador ?k = Ll_afuera" "tomados ?k = 0" "mutex_control (nota ?k) = 1" "sems ?k = [0, 0]" "\<not> padre_c ?k"
    by (simp_all add: cliente_nuevo_def crear_control_def crear_semset_def numeral_2_eq_2)
  have i: "ida ?k \<noteq> []" "length (ida ?k) \<le> TAMANIO_MENSAJE"
    using length_mensaje_cero TAMANIO_pos by auto
  have q: "(0::nat) < 2" and kk: "((\<lambda>_. cliente_cero)(1 := k', 0 := ?k)) 0 = ?k" by simp_all
  note e = punto_entra [OF p q kk l i]
  show ?thesis by (rule exI, rule conjI [OF e]) (use k' in simp)
qed

section \<open>Pieces of messages\<close>

lemma tokens_contados_cota: "length red \<le> tokens_contados red cortes * TAMANIO_MENSAJE"
proof (induction red cortes rule: tokens_contados.induct)
  case (1 red cortes)
  define n where "n = leidos TAMANIO_MENSAJE red cortes"
  show ?case
  proof (cases "n = 0")
    case True
    then have "red = []" using leidos_pos [OF TAMANIO_pos, of red cortes] unfolding n_def by auto
    then show ?thesis by simp
  next
    case False
    have "tokens_contados red cortes = Suc (tokens_contados (drop n red) (tl cortes))"
      using False by (simp add: tokens_contados.simps [of red] Let_def n_def [symmetric])
    moreover have "length (drop n red) \<le> tokens_contados (drop n red) (tl cortes) * TAMANIO_MENSAJE"
      using 1 [OF n_def False] .
    moreover have "n \<le> TAMANIO_MENSAJE" using leidos_cotas(1) unfolding n_def .
    ultimately show ?thesis by simp
  qed
qed

lemma tokens_nada: "tokens_contados [] cortes = 0"
  by (subst tokens_contados.simps) (simp add: leidos_def)

lemma tokens_enteros: "length red = k * TAMANIO_MENSAJE \<Longrightarrow> tokens_contados red [] = k"
proof (induction k arbitrary: red)
  case 0
  then show ?case by (simp add: tokens_nada)
next
  case (Suc k)
  then have "leidos TAMANIO_MENSAJE red [] = TAMANIO_MENSAJE" by (simp add: leidos_def)
  moreover have "tokens_contados (drop TAMANIO_MENSAJE red) [] = k" by (rule Suc.IH) (use Suc.prems in simp)
  ultimately show ?case using TAMANIO_pos by (simp add: tokens_contados.simps [of red] Let_def)
qed

section \<open>Properties\<close>

text \<open>
  C30. The tokens of a distributed semaphore, however the kernel cuts the messages: in every
  reachable state, counting a message for a token, the tokens in the queues of the broker, in the
  hands of the four processes of each client and in its two semaphores, the waits completed less
  the signals and the bytes in the sockets make the initial value plus what the reads lacked to
  be whole messages. So the waits completed less the signals exceed the value by at most the
  whole messages the reads lacked; and while these lack less than one message, as when every
  read brings a message, no more waits complete than the value and the signals allow, and at
  most one application of the network is inside a distributed mutex, created with one token.
  No read of a handler looks like \<^verbatim>\<open>LEAVE\<close>.
\<close>

theorem semaforo_conserva:
  assumes "alcanzable (ini_sem c v rec) (paso_sem c n excl base rec) s" and "n < c" and "0 < base" and "v \<in> {0, 1}"
  shows "int TAMANIO_MENSAJE * (int (tokens_grupo rec (sgrupo s)) +
        (\<Sum>p < MAX_CLIENTS. int (tokens_cli c n (scli s p)) + tomados (scli s p))) +
      (\<Sum>p < MAX_CLIENTS. int (length (ida (scli s p)) + length (vuelta (scli s p)))) =
      int TAMANIO_MENSAJE * v + (\<Sum>p < MAX_CLIENTS. int (faltan (scli s p))) \<and>
    int TAMANIO_MENSAJE * (\<Sum>p < MAX_CLIENTS. tomados (scli s p)) \<le>
      int TAMANIO_MENSAJE * v + (\<Sum>p < MAX_CLIENTS. int (faltan (scli s p))) \<and>
    ((\<Sum>p < MAX_CLIENTS. faltan (scli s p)) < TAMANIO_MENSAJE \<longrightarrow>
      (\<Sum>p < MAX_CLIENTS. tomados (scli s p)) \<le> v \<and>
      (excl \<longrightarrow> (\<forall>p < MAX_CLIENTS. \<forall>q < MAX_CLIENTS. p \<noteq> q \<longrightarrow> tomados (scli s p) \<in> {0, 1} \<and>
         (tomados (scli s p) = 1 \<longrightarrow> tomados (scli s q) = 0)))) \<and>
    (\<forall>p cortes tengo b red. recv_token_sem True (buf_hp (scli s p)) (vuelta (scli s p)) cortes = Listo (tengo, b, red) \<longrightarrow> tengo)"
proof (intro conjI impI allI)
  note i = conserva_alcanzable [OF assms]
  show "int TAMANIO_MENSAJE * (int (tokens_grupo rec (sgrupo s)) +
        (\<Sum>p < MAX_CLIENTS. int (tokens_cli c n (scli s p)) + tomados (scli s p))) +
      (\<Sum>p < MAX_CLIENTS. int (length (ida (scli s p)) + length (vuelta (scli s p)))) =
      int TAMANIO_MENSAJE * v + (\<Sum>p < MAX_CLIENTS. int (faltan (scli s p)))"
    using valor_partes [of c n rec s] i by (simp add: bytes_cli_def)
  show cota: "int TAMANIO_MENSAJE * (\<Sum>p < MAX_CLIENTS. tomados (scli s p)) \<le>
      int TAMANIO_MENSAJE * v + (\<Sum>p < MAX_CLIENTS. int (faltan (scli s p)))"
    using tomados_total [of s c n rec] i by simp
  show "tengo" if "recv_token_sem True (buf_hp (scli s p)) (vuelta (scli s p)) cortes = Listo (tengo, b, red)"
    for p cortes tengo b red
    by (rule recv_token_leave [OF that]) (use i inv_cli_sem in \<open>auto simp: cli_sem_ok_def\<close>)
  assume "(\<Sum>p < MAX_CLIENTS. faltan (scli s p)) < TAMANIO_MENSAJE"
  then have "(\<Sum>p < MAX_CLIENTS. int (faltan (scli s p))) < int TAMANIO_MENSAJE" by (simp flip: of_nat_sum)
  with cota have "int TAMANIO_MENSAJE * (\<Sum>p < MAX_CLIENTS. tomados (scli s p)) < int TAMANIO_MENSAJE * (v + 1)"
    by (simp add: distrib_left)
  then show t: "(\<Sum>p < MAX_CLIENTS. tomados (scli s p)) \<le> v" using TAMANIO_pos by simp
  fix p q
  assume e: excl and p: "p < MAX_CLIENTS" and q: "q < MAX_CLIENTS" and pq: "p \<noteq> q"
  have pos: "\<forall>x < MAX_CLIENTS. 0 \<le> tomados (scli s x)" using i e by (simp add: inv_sem_def cli_sem_ok_def)
  have "(\<Sum>p < MAX_CLIENTS. tomados (scli s p)) \<le> 1" using t assms(4) by auto
  note d = dos_tomados [OF pos this p q pq]
  show "tomados (scli s p) \<in> {0, 1}" using d(1) pos p by fastforce
  show "tomados (scli s q) = 0" if "tomados (scli s p) = 1" using d(2) that by simp
qed

theorem semaforo_conserva_witness:
  "\<exists>s. alcanzable (ini_sem 1 1 ''m'') (paso_sem 1 0 True 1 ''m'') s \<and> tomados (scli s 1) = 1 \<and> (\<forall>p < MAX_CLIENTS. p \<noteq> 1 \<longrightarrow> tomados (scli s p) = 0)"
proof -
  obtain ks where ks: "punto [] [] 1 ks" "tomados (ks 1) = 1" "\<forall>p. faltan (ks p) = 0" using punto_uno_adentro by blast
  then obtain s where s: "alcanzable (ini_sem 1 1 ''m'') (paso_sem 1 0 True 1 ''m'') s" "scli s = ks"
    by (auto simp: punto_def)
  have "(\<Sum>p < MAX_CLIENTS. faltan (scli s p)) < TAMANIO_MENSAJE" using s(2) ks(3) TAMANIO_pos by simp
  then have "\<forall>p < MAX_CLIENTS. \<forall>q < MAX_CLIENTS. p \<noteq> q \<longrightarrow> tomados (scli s p) = 1 \<longrightarrow> tomados (scli s q) = 0"
    using semaforo_conserva [OF s(1)] by simp
  then have "\<forall>p < MAX_CLIENTS. p \<noteq> 1 \<longrightarrow> tomados (scli s p) = 0"
    using s(2) ks(2) by (metis MAX_CLIENTS_def one_less_numeral_iff semiring_norm(76))
  then show ?thesis using s ks(2) by (intro exI [of _ s]) simp
qed

text \<open>
  The bound is reached: a message read in two pieces, and two applications of the network are
  inside the same distributed mutex.
\<close>

theorem exclusion_rota:
  "\<exists>s. alcanzable (ini_sem 1 1 ''m'') (paso_sem 1 0 True 1 ''m'') s \<and>
     tomados (scli s 0) = 1 \<and> tomados (scli s 1) = 1 \<and> faltan (scli s 1) = TAMANIO_MENSAJE"
  using punto_dos_adentro by (auto simp: punto_def)

text \<open>
  Why the buffer matters: a token that carries the number of \<^verbatim>\<open>LEAVE\<close> in its unused bytes, cut
  there, is a token and then a \<^verbatim>\<open>LEAVE\<close>.
\<close>

theorem leave_aparente:
  fixes xs ys buf :: "byte list"
  defines "resto \<equiv> entero_4 (codigo LEAVE) @ ys" and "n \<equiv> 4 + length xs"
  assumes "length buf = TAMANIO_MENSAJE" and "n + length resto = TAMANIO_MENSAJE"
  shows "\<exists>b b'. recv_token_sem True buf (entero_4 (codigo TOKEN_FREE) @ xs @ resto) [n - 1] = Listo (True, b, resto) \<and>
     recv_token_sem True b resto [] = Listo (False, b', [])"
proof -
  let ?m = "entero_4 (codigo TOKEN_FREE) @ xs"
  have l: "length ?m = n" "n \<le> TAMANIO_MENSAJE" "0 < n" "length resto \<le> TAMANIO_MENSAJE" "resto \<noteq> []"
    using assms(4) by (simp_all add: n_def resto_def entero_4_def)
  have td: "take n (?m @ resto) = ?m" "drop n (?m @ resto) = resto" using l(1) by (metis append_eq_conv_conj)+
  have n: "leidos TAMANIO_MENSAJE (?m @ resto) [n - 1] = n" using l assms(4) by (simp add: leidos_def)
  have "recv_token_sem True buf (?m @ resto) [n - 1] = Listo (\<not> es_peticion LEAVE (?m @ drop n buf), ?m @ drop n buf, resto)"
    unfolding recv_token_sem_def Let_def n td escribir_def using l(1,3) by simp
  then have "recv_token_sem True buf (?m @ resto) [n - 1] = Listo (True, ?m @ drop n buf, resto)"
    by (simp add: es_peticion_def entero_4_def)
  moreover have "recv_token_sem True (?m @ drop n buf) resto [] = Listo (False, resto @ drop (length resto) (?m @ drop n buf), [])"
    using l by (simp add: recv_token_sem_def Let_def leidos_def escribir_def es_peticion_def resto_def entero_4_def)
  ultimately show ?thesis by auto
qed

text \<open>
  A token read in pieces is counted more than once: the reads of the semaphore loops
  take \<open>k\<close> messages for \<open>k\<close> tokens when each arrives whole, never for fewer, and one
  message that arrives as one byte and then the rest for two.
\<close>

theorem token_partido:
  assumes "length red = k * TAMANIO_MENSAJE"
  shows "tokens_contados red [] = k \<and> k \<le> tokens_contados red cortes \<and> (k = 1 \<longrightarrow> tokens_contados red [0] = 2)"
proof (intro conjI impI)
  show "tokens_contados red [] = k" using tokens_enteros [OF assms] .
  show "k \<le> tokens_contados red cortes"
  proof -
    have "k * TAMANIO_MENSAJE \<le> tokens_contados red cortes * TAMANIO_MENSAJE" using tokens_contados_cota [of red cortes] assms by simp
    then show ?thesis using TAMANIO_pos by simp
  qed
  assume "k = 1"
  then have l: "length red = TAMANIO_MENSAJE" using assms by simp
  have g: "1 < TAMANIO_MENSAJE" by (simp add: TAMANIO_MENSAJE_def DATA_SIZE_def)
  have "leidos TAMANIO_MENSAJE red [0] = 1" using l g by (simp add: leidos_def)
  then have "tokens_contados red [0] = Suc (tokens_contados (drop 1 red) [])" by (simp add: tokens_contados.simps [of red] Let_def)
  also have "tokens_contados (drop 1 red) [] = 1"
  proof -
    have "leidos TAMANIO_MENSAJE (drop 1 red) [] = TAMANIO_MENSAJE - 1" using l g by (simp add: leidos_def)
    moreover have "drop (TAMANIO_MENSAJE - 1) (drop 1 red) = []" using l g by simp
    ultimately have "tokens_contados (drop 1 red) [] = Suc (tokens_contados [] [])"
      using g by (subst tokens_contados.simps) (simp add: Let_def)
    then show ?thesis by (simp add: tokens_nada)
  qed
  finally show "tokens_contados red [0] = 2" by simp
qed

theorem token_partido_witness: "tokens_contados (replicate TAMANIO_MENSAJE 0) [0] = 2"
  using token_partido [of "replicate TAMANIO_MENSAJE 0" 1 "[]"] by simp

end
