(* ===== verification/Reconexion.thy ===== *)
theory Reconexion
  imports SemaforoDistribuido InitParser
begin

text \<open>
  How a client reaches a broker and joins a group: \<^verbatim>\<open>reconectar\<close>, \<^verbatim>\<open>registrar\<close> and
  \<^verbatim>\<open>join\<close> of \<^verbatim>\<open>clientes/local_broker_comm.cpp\<close>, with \<^verbatim>\<open>procesar_peticion\<close> and
  \<^verbatim>\<open>run\<close> of \<^verbatim>\<open>local_broker/client_handler.cpp\<close> on the other side; and how the handler
  of a semaphore gives the token back when its client leaves. \<open>acepta k i\<close> says whether the
  \<open>k\<close>-th attempt, made on broker \<open>i\<close>, connects.
\<close>

section \<open>Finding a broker\<close>

text \<open>The first connection: each broker of the list in order, once.\<close>

function primera_conexion :: "(nat \<Rightarrow> nat \<Rightarrow> bool) \<Rightarrow> nat \<Rightarrow> nat \<Rightarrow> nat \<Rightarrow> nat llamada" where
  "primera_conexion acepta cant_brokers k i =
     (if cant_brokers \<le> i then Fallo Fuera_de_rango
      else if acepta k i then Listo i
      else if (i + 1) mod cant_brokers = 0 then Fallo CommError
      else primera_conexion acepta cant_brokers (k + 1) ((i + 1) mod cant_brokers))"
  by pat_completeness auto
termination
proof (relation "measure (\<lambda>(acepta, cant, k, i). cant - i)", simp)
  fix acepta :: "nat \<Rightarrow> nat \<Rightarrow> bool" and cant k i :: nat
  assume "\<not> cant \<le> i" and "(i + 1) mod cant \<noteq> 0"
  then have "i + 1 < cant" by (cases "i + 1 = cant") auto
  then show "((acepta, cant, k + 1, (i + 1) mod cant), acepta, cant, k, i) \<in> measure (\<lambda>(acepta, cant, k, i). cant - i)" by simp
qed

declare primera_conexion.simps [simp del]

text \<open>The same broker again, up to three times; \<open>None\<close> when none connects.\<close>

definition mismo_broker :: "(nat \<Rightarrow> nat \<Rightarrow> bool) \<Rightarrow> nat \<Rightarrow> nat option" where
  "mismo_broker acepta num = (if \<exists>k \<in> set [0..<3]. acepta k num then Some num else None)"

text \<open>
  Another broker. Each turn starts again from the one after \<^verbatim>\<open>numero_broker_conectado\<close>,
  which does not change, so no third broker is ever tried. \<open>None\<close> is a loop that does not end.
\<close>

partial_function (option) otro_broker :: "(nat \<Rightarrow> nat \<Rightarrow> bool) \<Rightarrow> nat \<Rightarrow> nat \<Rightarrow> nat \<Rightarrow> nat llamada option" where
  "otro_broker acepta cant_brokers num k =
     (let i = (num + 1) mod cant_brokers
      in if acepta k i then Some (Listo i)
         else if (i + 1) mod cant_brokers = num then Some (Fallo CommError)
         else otro_broker acepta cant_brokers num (k + 1))"

definition reconectar :: "(nat \<Rightarrow> nat \<Rightarrow> bool) \<Rightarrow> nat \<Rightarrow> nat option \<Rightarrow> nat llamada option" where
  "reconectar acepta cant_brokers conectado =
     (case conectado of
        None \<Rightarrow> Some (primera_conexion acepta cant_brokers 0 0)
      | Some num \<Rightarrow>
          (case mismo_broker acepta num of
             Some i \<Rightarrow> Some (Listo i)
           | None \<Rightarrow> otro_broker acepta cant_brokers num 3))"

section \<open>Registering and joining\<close>

text \<open>What a client gets for a request: an error of the socket, or a response with its data.\<close>

definition registrar :: "falla + respuesta \<times> string \<Rightarrow> unit llamada" where
  "registrar r =
     (case r of
        Inl e \<Rightarrow> Fallo (if e = OSError then CommError else e)
      | Inr (x, ds) \<Rightarrow> (if x = R_ERROR then Fallo CommError else Listo ()))"

text \<open>The two numbers that \<^verbatim>\<open>snprintf\<close> writes and \<^verbatim>\<open>sscanf\<close> reads, apart by a colon.\<close>

definition escribir_join :: "nat \<Rightarrow> nat \<Rightarrow> string" where
  "escribir_join bloques tamanio = decimal bloques @ '':'' @ decimal tamanio"

definition leer_join :: "string \<Rightarrow> (nat \<times> nat) option" where
  "leer_join ds =
     (let b = takeWhile es_digito ds; resto = dropWhile es_digito ds; t = takeWhile es_digito (tl resto)
      in if b = [] \<or> resto = [] \<or> hd resto \<noteq> CHR '':'' \<or> t = [] then None else Some (nat (numero b), nat (numero t)))"

text \<open>Fields that \<^verbatim>\<open>sscanf\<close> does not read stay as they were.\<close>

definition join_cliente :: "nat \<times> nat \<Rightarrow> falla + respuesta \<times> string \<Rightarrow> (nat \<times> nat) llamada" where
  "join_cliente antes r =
     (case r of
        Inl e \<Rightarrow> Fallo (if e = OSError then CommError else e)
      | Inr (x, ds) \<Rightarrow>
          (if x = R_ERROR then Fallo CommError
           else Listo (case leer_join ds of None \<Rightarrow> antes | Some p \<Rightarrow> p)))"

section \<open>The handler\<close>

text \<open>
  The handler reads requests until one is \<^verbatim>\<open>JOIN\<close>, \<^verbatim>\<open>JOIN_FORK\<close> or \<^verbatim>\<open>LEAVE\<close>. An
  event is a request with its data, the end of the stream, or an error of the socket;
  \<open>unirse\<close> is \<^verbatim>\<open>join_group\<close>, on the name of the client and of the group, whose result is the
  size of its memory; its errors end the process. The response of a request that sets none is
  what the client sent. The run ends with its answers and, when it goes on to serve the
  token, the kind of join.
\<close>

datatype evento = Ev_pedido peticion respuesta string | Ev_fin | Ev_error

definition procesar_peticion ::
  "(string \<Rightarrow> string \<Rightarrow> nat llamada) \<Rightarrow> string \<Rightarrow> peticion \<Rightarrow> respuesta \<Rightarrow> string \<Rightarrow> (string \<times> respuesta \<times> string) llamada" where
  "procesar_peticion unirse nombre p r ds =
     (case p of
        REGISTER \<Rightarrow> Listo (ds, r, ds)
      | JOIN \<Rightarrow>
          (case unirse nombre ds of
             Listo tamanio \<Rightarrow> Listo (nombre, R_OK, escribir_join (cantidad_de_bloques tamanio) tamanio)
           | Bloqueado \<Rightarrow> Bloqueado
           | Fallo e \<Rightarrow> Fallo e)
      | JOIN_FORK \<Rightarrow>
          (case unirse nombre ds of
             Listo tamanio \<Rightarrow> Listo (nombre, R_OK, escribir_join (cantidad_de_bloques tamanio) tamanio)
           | Bloqueado \<Rightarrow> Bloqueado
           | Fallo e \<Rightarrow> Fallo e)
      | LEAVE \<Rightarrow> Listo (nombre, R_OK, ds)
      | _ \<Rightarrow> Listo (nombre, r, ds))"

fun handler_run ::
  "(string \<Rightarrow> string \<Rightarrow> nat llamada) \<Rightarrow> string \<Rightarrow> evento list \<Rightarrow> (respuesta \<times> string) list \<times> peticion option llamada" where
  "handler_run unirse nombre [] = ([], Bloqueado)"
| "handler_run unirse nombre (Ev_fin # es) = ([], Listo None)"
| "handler_run unirse nombre (Ev_error # es) = ([], Listo None)"
| "handler_run unirse nombre (Ev_pedido p r ds # es) =
     (case procesar_peticion unirse nombre p r ds of
        Listo (nombre', x, ds) \<Rightarrow>
          (if p = LEAVE then ([(x, ds)], Listo None)
           else if p = JOIN \<or> p = JOIN_FORK then ([(x, ds)], Listo (Some p))
           else let (xs, fin) = handler_run unirse nombre' es in ((x, ds) # xs, fin))
      | Bloqueado \<Rightarrow> ([], Bloqueado)
      | Fallo OSError \<Rightarrow> ([], Listo None)
      | Fallo e \<Rightarrow> ([], Fallo e))"

section \<open>Leaving with the token\<close>

text \<open>
  \<^verbatim>\<open>chequear_status_salida_hijo\<close>: the parent of the handler ended with \<open>salir\<close>; \<open>asignado\<close>
  is whether the group says its last client is this one, \<open>tengo\<close> the flag as the loop left
  it, \<open>chequear\<close> whether the child was interrupted without the token, \<open>contesta\<close> what the
  client answers to the check, if the socket works. The result: the queue of the group and
  that of the token manager.
\<close>

definition devolver_token :: "string \<Rightarrow> traspaso cola \<times> traspaso cola \<Rightarrow> traspaso cola \<times> traspaso cola" where
  "devolver_token rec qs = (fst qs, release_token rec (snd qs))"

definition chequear_status_salida_hijo ::
  "string \<Rightarrow> nat \<Rightarrow> int \<Rightarrow> bool \<Rightarrow> bool \<Rightarrow> bool \<Rightarrow> peticion option \<Rightarrow> traspaso cola \<times> traspaso cola \<Rightarrow>
     (traspaso cola \<times> traspaso cola) llamada" where
  "chequear_status_salida_hijo rec cola_asignada salir asignado tengo chequear contesta qs =
     (if salir = 1 then
        (if \<not> asignado then Listo qs
         else let tengo' = (case contesta of None \<Rightarrow> tengo | Some p \<Rightarrow> p = TOKEN_LEAVE)
              in if tengo' then Listo (devolver_token rec qs)
                 else if chequear
                 then (case lock_token cola_asignada (fst qs) of
                         Listo (t, q) \<Rightarrow> Listo (devolver_token rec (q, snd qs))
                       | Bloqueado \<Rightarrow> Bloqueado
                       | Fallo e \<Rightarrow> Fallo e)
                 else Listo qs)
      else if salir = 2 then Listo (if asignado then devolver_token rec qs else qs)
      else Listo qs)"

section \<open>The searches end, or not\<close>

lemma primera_conexion_ok:
  "i < cant \<Longrightarrow>
     (case primera_conexion acepta cant (d + i) i of
        Listo j \<Rightarrow> i \<le> j \<and> j < cant \<and> acepta (d + j) j \<and> (\<forall>x. i \<le> x \<and> x < j \<longrightarrow> \<not> acepta (d + x) x)
      | Bloqueado \<Rightarrow> False
      | Fallo e \<Rightarrow> e = CommError \<and> (\<forall>x. i \<le> x \<and> x < cant \<longrightarrow> \<not> acepta (d + x) x))"
proof (induction "cant - i" arbitrary: i)
  case 0
  then show ?case by simp
next
  case (Suc n)
  show ?case
  proof (cases "acepta (d + i) i")
    case True
    then show ?thesis using Suc.prems by (auto simp: primera_conexion.simps [of _ _ "d + i"])
  next
    case no: False
    have cerca: "x = i \<or> i + 1 \<le> x" if "i \<le> x" for x using that by auto
    show ?thesis
    proof (cases "i + 1 = cant")
      case True
      then have "primera_conexion acepta cant (d + i) i = Fallo CommError"
        using no by (simp add: primera_conexion.simps [of _ _ "d + i"])
      then show ?thesis using no cerca True by fastforce
    next
      case False
      then have l: "i + 1 < cant" using Suc.prems by simp
      then have p: "primera_conexion acepta cant (d + i) i = primera_conexion acepta cant (d + (i + 1)) (i + 1)"
        using no by (simp add: primera_conexion.simps [of _ _ "d + i"])
      have "n = cant - (i + 1)" using Suc.hyps(2) by simp
      from Suc.hyps(1) [OF this l] show ?thesis unfolding p using no cerca
        by (auto split: llamada.splits)
    qed
  qed
qed

lemma otro_broker_acepta:
  assumes "otro_broker acepta cant num k = Some r" and "(num + 2) mod cant \<noteq> num"
  shows "\<exists>k' \<ge> k. acepta k' ((num + 1) mod cant)"
proof -
  have "(num + 2) mod cant \<noteq> num \<longrightarrow> (\<exists>k' \<ge> k. acepta k' ((num + 1) mod cant))"
  proof (rule otro_broker.raw_induct [OF _ assms(1), where P = "\<lambda>acepta cant num k r.
      (num + 2) mod cant \<noteq> num \<longrightarrow> (\<exists>k' \<ge> k. acepta k' ((num + 1) mod cant))"])
    fix otro :: "(nat \<Rightarrow> nat \<Rightarrow> bool) \<Rightarrow> nat \<Rightarrow> nat \<Rightarrow> nat \<Rightarrow> nat llamada option"
      and acepta :: "nat \<Rightarrow> nat \<Rightarrow> bool" and cant num k :: nat and r
    assume IH: "\<And>acepta cant num k r. otro acepta cant num k = Some r \<Longrightarrow>
        (num + 2) mod cant \<noteq> num \<longrightarrow> (\<exists>k' \<ge> k. acepta k' ((num + 1) mod cant))"
      and e: "(let i = (num + 1) mod cant in if acepta k i then Some (Listo i)
        else if (i + 1) mod cant = num then Some (Fallo CommError) else otro acepta cant num (k + 1)) = Some r"
    show "(num + 2) mod cant \<noteq> num \<longrightarrow> (\<exists>k' \<ge> k. acepta k' ((num + 1) mod cant))"
    proof
      assume n: "(num + 2) mod cant \<noteq> num"
      show "\<exists>k' \<ge> k. acepta k' ((num + 1) mod cant)"
      proof (cases "acepta k ((num + 1) mod cant)")
        case True
        then show ?thesis by blast
      next
        case False
        have "((num + 1) mod cant + 1) mod cant = (num + 2) mod cant" by (simp add: mod_simps)
        then have "otro acepta cant num (k + 1) = Some r" using e n False by (simp add: Let_def split: if_splits)
        from IH [OF this] n show ?thesis by (meson add_leD1)
      qed
    qed
  qed
  then show ?thesis using assms(2) by blast
qed

lemma otro_broker_llega:
  "k \<le> k' \<Longrightarrow> acepta k' ((num + 1) mod cant) \<Longrightarrow> \<exists>r. otro_broker acepta cant num k = Some r"
proof (induction "k' - k" arbitrary: k)
  case 0
  then show ?case by (subst otro_broker.simps) (simp add: Let_def)
next
  case (Suc m)
  then obtain r where "otro_broker acepta cant num (k + 1) = Some r" by force
  then show ?case by (subst otro_broker.simps) (simp add: Let_def)
qed

lemma otro_broker_dos:
  "(num + 2) mod cant = num \<Longrightarrow> \<exists>r. otro_broker acepta cant num k = Some r"
proof -
  assume "(num + 2) mod cant = num"
  then have "((num + 1) mod cant + 1) mod cant = num" by (simp add: mod_simps)
  then show ?thesis by (subst otro_broker.simps) (simp add: Let_def)
qed

lemma mod_dos:
  fixes num cant :: nat
  assumes "num < cant"
  shows "((num + 2) mod cant = num) = (cant \<le> 2)"
proof (cases "num + 2 < cant")
  case False
  then have "cant = num + 1 \<or> cant = num + 2" using assms by auto
  then show ?thesis
  proof
    assume "cant = num + 1"
    then show ?thesis using assms by (cases num) (auto simp: mod_if)
  next
    assume "cant = num + 2"
    then show ?thesis by simp
  qed
qed auto

section \<open>What a leaving client gives back\<close>

lemma salida_conserva:
  assumes "chequear_status_salida_hijo rec cola salir asignado tengo chequear contesta (q, m) = Listo (q', m')" and "0 < cola"
  shows "length q' + length m' =
    (if salir = 1 \<and> asignado \<and> (case contesta of None \<Rightarrow> tengo | Some p \<Rightarrow> p = TOKEN_LEAVE) \<or> salir = 2 \<and> asignado
     then Suc (length q + length m) else length q + length m)"
proof -
  have pull: "Suc (length r) = length q" if h: "lock_token cola q = Listo (t, r)" for t r
  proof -
    obtain u x where "pull (int cola) q = Listo ((u, x), r)"
      using h by (auto simp: lock_token_def split: llamada.splits prod.splits)
    from pull_tipo_ok(4) [OF _ this] assms(2) show ?thesis by simp
  qed
  show ?thesis
    using assms(1) pull
    by (auto simp: chequear_status_salida_hijo_def devolver_token_def release_token_def Let_def
        split: if_splits option.splits llamada.splits prod.splits)
qed

section \<open>Properties\<close>

text \<open>
  C32. When a client finds a broker. The first connection always returns: with the first
  broker of the list that accepts, or with an error when none does. A reconnection returns
  except in one case: with three brokers or more, when the broker it had does not accept
  three times and the next one never does, it tries that one for ever, whatever the others
  do.
\<close>

theorem reconectar_termina:
  assumes "num < cant"
  shows "(\<exists>r. reconectar acepta cant None = Some r \<and>
      (case r of
         Listo j \<Rightarrow> j < cant \<and> acepta j j \<and> (\<forall>x < j. \<not> acepta x x)
       | Bloqueado \<Rightarrow> False
       | Fallo e \<Rightarrow> e = CommError \<and> (\<forall>x < cant. \<not> acepta x x))) \<and>
    (reconectar acepta cant (Some num) = None) =
      (3 \<le> cant \<and> (\<forall>k < 3. \<not> acepta k num) \<and> (\<forall>k \<ge> 3. \<not> acepta k ((num + 1) mod cant)))"
proof
  show "\<exists>r. reconectar acepta cant None = Some r \<and>
      (case r of
         Listo j \<Rightarrow> j < cant \<and> acepta j j \<and> (\<forall>x < j. \<not> acepta x x)
       | Bloqueado \<Rightarrow> False
       | Fallo e \<Rightarrow> e = CommError \<and> (\<forall>x < cant. \<not> acepta x x))"
    using primera_conexion_ok [of 0 cant acepta 0] assms by (auto simp: reconectar_def split: llamada.splits)
  have "(mismo_broker acepta num = None) = (\<forall>k < 3. \<not> acepta k num)" by (auto simp: mismo_broker_def)
  then have m: "(reconectar acepta cant (Some num) = None) =
      ((\<forall>k < 3. \<not> acepta k num) \<and> otro_broker acepta cant num 3 = None)"
    by (auto simp: reconectar_def split: option.splits)
  have "(otro_broker acepta cant num 3 = None) = (3 \<le> cant \<and> (\<forall>k \<ge> 3. \<not> acepta k ((num + 1) mod cant)))"
  proof (cases "cant \<le> 2")
    case True
    then show ?thesis using otro_broker_dos [of num cant acepta 3] mod_dos [OF assms] by auto
  next
    case False
    then have n: "(num + 2) mod cant \<noteq> num" using mod_dos [OF assms] by simp
    have "(\<exists>r. otro_broker acepta cant num 3 = Some r) = (\<exists>k \<ge> 3. acepta k ((num + 1) mod cant))"
      using otro_broker_acepta [OF _ n] otro_broker_llega [of 3] by blast
    then show ?thesis using False by auto
  qed
  then show "(reconectar acepta cant (Some num) = None) =
      (3 \<le> cant \<and> (\<forall>k < 3. \<not> acepta k num) \<and> (\<forall>k \<ge> 3. \<not> acepta k ((num + 1) mod cant)))"
    using m by auto
qed

theorem reconectar_termina_witness:
  "reconectar (\<lambda>k i. i = 2) 3 (Some 0) = None \<and> reconectar (\<lambda>k i. i = 2) 3 None = Some (Listo 2)"
proof -
  have a: "reconectar (\<lambda>k i. i = 2) 3 (Some 0) = None" using reconectar_termina [of 0 3 "\<lambda>k i. i = 2"] by simp
  obtain r where r: "reconectar (\<lambda>k i. i = 2) 3 None = Some r"
    "case r of Listo j \<Rightarrow> j < 3 \<and> j = 2 \<and> (\<forall>x < j. \<not> x = 2) | Bloqueado \<Rightarrow> False
     | Fallo e \<Rightarrow> e = CommError \<and> (\<forall>x < 3. \<not> x = (2::nat))"
    using reconectar_termina [of 0 3 "\<lambda>k i. i = 2"] by auto
  have "r \<noteq> Fallo e" for e using r(2) by (cases r) (auto dest: spec [of _ 2])
  then have "r = Listo 2" using r(2) by (cases r) auto
  then show ?thesis using a r(1) by simp
qed

text \<open>
  A client that registers and joins a group learns from the answer the size of the
  group's memory and in how many messages it travels, the numbers its handler uses; the
  handler goes on to serve the kind of token asked for; the response to the registration is
  what the client happened to send.
\<close>

theorem registrar_y_unirse:
  assumes "unirse app grupo = Listo tamanio" and "p \<in> {JOIN, JOIN_FORK}"
  shows "\<exists>ds. handler_run unirse nombre [Ev_pedido REGISTER r app, Ev_pedido p r' grupo] =
      ([(r, app), (R_OK, ds)], Listo (Some p)) \<and>
    registrar (Inr (r, app)) = (if r = R_ERROR then Fallo CommError else Listo ()) \<and>
    join_cliente antes (Inr (R_OK, ds)) = Listo (cantidad_de_bloques tamanio, tamanio)"
proof -
  let ?b = "cantidad_de_bloques tamanio"
  let ?ds = "escribir_join ?b tamanio"
  have d: "list_all es_digito (decimal n)" and v: "numero (decimal n) = int n" and ne: "decimal n \<noteq> []" for n
    using decimal_ok [of n] by auto
  have c: "\<not> es_digito (CHR '':'')" by (simp add: es_digito_def)
  have "takeWhile es_digito ?ds = decimal ?b" and "dropWhile es_digito ?ds = '':'' @ decimal tamanio"
    using d [of ?b] c by (simp_all add: escribir_join_def takeWhile_append dropWhile_append3 list_all_iff takeWhile_eq_all_conv
        dropWhile_eq_Nil_conv dropWhile_append)
  moreover have "takeWhile es_digito (decimal tamanio) = decimal tamanio"
    by (rule takeWhile_eq_all_conv [THEN iffD2]) (use d [of tamanio] in \<open>simp add: list_all_iff\<close>)
  ultimately have l: "leer_join ?ds = Some (?b, tamanio)" using ne v by (simp add: leer_join_def Let_def del: takeWhile_eq_all_conv)
  have h: "handler_run unirse nombre [Ev_pedido REGISTER r app, Ev_pedido p r' grupo] = ([(r, app), (R_OK, ?ds)], Listo (Some p))"
    using assms by (auto simp: procesar_peticion_def Let_def)
  show ?thesis using h l by (intro exI [of _ ?ds]) (auto simp: registrar_def join_cliente_def)
qed

theorem registrar_y_unirse_witness:
  "\<exists>ds. join_cliente (0, 0) (Inr (R_OK, ds)) = Listo (2, 300)"
proof -
  have "cantidad_de_bloques 300 = 2" by (simp add: cantidad_de_bloques_def DATA_SIZE_def)
  then show ?thesis using registrar_y_unirse [of "\<lambda>_ _. Listo 300" "''robot''" "''cinta_principal''" 300 JOIN "[]" R_OK R_OK "(0, 0)"] by auto
qed

end
