(* ===== verification/Equipajes.thy ===== *)
theory Equipajes
  imports Preludio "HOL-Library.Word"
begin

text \<open>
  Luggage and containers: \<^verbatim>\<open>api/rfid.h\<close>, \<^verbatim>\<open>api/equipaje.h\<close>,
  \<^verbatim>\<open>api/contenedor.h\<close> and \<^verbatim>\<open>api/contenedor.cpp\<close>. The texts are
  arrays of 30 characters filled with \<^verbatim>\<open>strncpy\<close>. The weights are C integers of 32
  bits, which any value may be: their sums wrap, as the compiled addition does. A counter of
  pieces is an \<open>int\<close>, between 0 and 30.
\<close>

type_synonym peso = "32 word"

section \<open>Texts in arrays\<close>

definition NUL :: char where
  "NUL = CHR 0x00"

text \<open>\<^verbatim>\<open>strncpy\<close> into an array of \<open>n\<close>: it pads with zeros, and writes no zero when the text fills the array.\<close>

definition strncpy :: "nat \<Rightarrow> string \<Rightarrow> string" where
  "strncpy n src = (let s = takeWhile (\<lambda>c. c \<noteq> NUL) src in take n s @ replicate (n - length s) NUL)"

text \<open>Reading an array as a C string; without a terminator the read leaves the array.\<close>

definition c_string :: "string \<Rightarrow> string llamada" where
  "c_string buf = (if NUL \<in> set buf then Listo (takeWhile (\<lambda>c. c \<noteq> NUL) buf) else Fallo Fuera_de_rango)"

lemma length_strncpy [simp]: "length (strncpy n s) = n"
  by (simp add: strncpy_def Let_def)

text \<open>A text goes through an array of \<open>n\<close> and back exactly when it is shorter than \<open>n\<close>.\<close>

lemma c_string_strncpy:
  assumes "NUL \<notin> set s"
  shows "c_string (strncpy n s) = (if length s < n then Listo s else Fallo Fuera_de_rango)"
proof -
  have t: "takeWhile (\<lambda>c. c \<noteq> NUL) s = s"
    using assms by (metis (mono_tags, lifting) takeWhile_eq_all_conv)
  have n: "NUL \<notin> set (take n s)" using assms by (meson in_set_takeD)
  show ?thesis
  proof (cases "length s < n")
    case True
    then have "takeWhile (\<lambda>c. c \<noteq> NUL) (s @ replicate (n - length s) NUL) = s"
      using t assms by (cases "n - length s") (auto simp: takeWhile_append)
    then show ?thesis using True unfolding c_string_def strncpy_def Let_def t by simp
  next
    case False
    then show ?thesis using n unfolding c_string_def strncpy_def Let_def t by simp
  qed
qed

section \<open>Luggage\<close>

record rfid_t =
  rfid :: int
  numero_de_vuelo_destino :: int
  escalas :: "int list"
  sospechoso :: bool
  escala_destino :: string

record equipaje =
  rfid_de :: rfid_t
  peso_e :: peso
  descripcion :: string

definition MAX_SIZE_ESCALA :: nat where "MAX_SIZE_ESCALA = 30"
definition MAX_CANT_ESCALAS :: nat where "MAX_CANT_ESCALAS = 5"
definition SIZE_DESCRIPCION_EQUIPAJE :: nat where "SIZE_DESCRIPCION_EQUIPAJE = 30"

text \<open>
  The constructors. Members they leave unset are given a fixed value here (zeros); no modelled
  operation reads one before it is set.
\<close>

definition Rfid :: "int \<Rightarrow> int \<Rightarrow> rfid_t" where
  "Rfid r num_vuelo = \<lparr>rfid = r, numero_de_vuelo_destino = num_vuelo,
     escalas = replicate MAX_CANT_ESCALAS 0, sospechoso = False,
     escala_destino = replicate MAX_SIZE_ESCALA NUL\<rparr>"

definition set_escala :: "string \<Rightarrow> rfid_t \<Rightarrow> rfid_t" where
  "set_escala escala r = r\<lparr>escala_destino := strncpy MAX_SIZE_ESCALA escala\<rparr>"

definition get_escala :: "rfid_t \<Rightarrow> string llamada" where
  "get_escala r = c_string (escala_destino r)"

definition Equipaje_vacio :: equipaje where
  "Equipaje_vacio = \<lparr>rfid_de = Rfid 0 0, peso_e = 0, descripcion = replicate SIZE_DESCRIPCION_EQUIPAJE NUL\<rparr>"

definition Equipaje :: "rfid_t \<Rightarrow> peso \<Rightarrow> equipaje" where
  "Equipaje r p = \<lparr>rfid_de = r\<lparr>sospechoso := False\<rparr>, peso_e = p,
     descripcion = replicate SIZE_DESCRIPCION_EQUIPAJE NUL\<rparr>"

definition rfid_int :: "equipaje \<Rightarrow> int" where
  "rfid_int e = rfid (rfid_de e)"

definition es_sospechoso :: "equipaje \<Rightarrow> bool" where
  "es_sospechoso e = sospechoso (rfid_de e)"

definition set_sospechoso :: "bool \<Rightarrow> equipaje \<Rightarrow> equipaje" where
  "set_sospechoso b e = e\<lparr>rfid_de := (rfid_de e)\<lparr>sospechoso := b\<rparr>\<rparr>"

definition set_descripcion :: "string \<Rightarrow> equipaje \<Rightarrow> equipaje" where
  "set_descripcion desc e = e\<lparr>descripcion := strncpy 30 desc\<rparr>"

definition get_descripcion :: "equipaje \<Rightarrow> string llamada" where
  "get_descripcion e = c_string (descripcion e)"

text \<open>Descriptions and stop-overs of 30 characters or more cannot be read back.\<close>

lemma get_set_escala:
  "NUL \<notin> set s \<Longrightarrow> get_escala (set_escala s r) = (if length s < 30 then Listo s else Fallo Fuera_de_rango)"
  by (simp add: get_escala_def set_escala_def MAX_SIZE_ESCALA_def c_string_strncpy)

lemma get_set_descripcion:
  "NUL \<notin> set s \<Longrightarrow> get_descripcion (set_descripcion s e) = (if length s < 30 then Listo s else Fallo Fuera_de_rango)"
  by (simp add: get_descripcion_def set_descripcion_def c_string_strncpy)

lemma sospechoso_simps [simp]:
  "es_sospechoso (set_sospechoso b e) = b"
  "rfid_int (set_sospechoso b e) = rfid_int e"
  "peso_e (set_sospechoso b e) = peso_e e"
  by (simp_all add: es_sospechoso_def set_sospechoso_def rfid_int_def)

section \<open>Containers\<close>

definition MAX_PESO_CONTENEDOR :: int where "MAX_PESO_CONTENEDOR = 3000"
definition MAX_VALIJAS_POR_CONTENEDOR :: int where "MAX_VALIJAS_POR_CONTENEDOR = 30"

record contenedor =
  peso_c :: peso
  cant_equipajes :: int
  equipajes :: "equipaje list"

definition Contenedor :: contenedor where
  "Contenedor = \<lparr>peso_c = 0, cant_equipajes = 0,
     equipajes = replicate (nat MAX_VALIJAS_POR_CONTENEDOR) Equipaje_vacio\<rparr>"

definition hay_lugar :: "equipaje \<Rightarrow> contenedor \<Rightarrow> bool" where
  "hay_lugar e c =
     (if cant_equipajes c = MAX_VALIJAS_POR_CONTENEDOR then False
      else sint (peso_e e + peso_c c) \<le> MAX_PESO_CONTENEDOR)"

definition get_equipajes :: "contenedor \<Rightarrow> int" where
  "get_equipajes c = cant_equipajes c"

text \<open>The write to \<^verbatim>\<open>equipajes[cant_equipajes]\<close> is checked against the array.\<close>

definition agregar_equipaje :: "equipaje \<Rightarrow> contenedor \<Rightarrow> contenedor llamada" where
  "agregar_equipaje e c =
     (if \<not> hay_lugar e c then Fallo RuntimeError
      else if cant_equipajes c > MAX_VALIJAS_POR_CONTENEDOR then Fallo RuntimeError
      else if cant_equipajes c < 0 \<or> int (length (equipajes c)) \<le> cant_equipajes c then Fallo Fuera_de_rango
      else Listo (c\<lparr>equipajes := (equipajes c)[nat (cant_equipajes c) := e],
                    cant_equipajes := cant_equipajes c + 1, peso_c := peso_c c + peso_e e\<rparr>))"

fun rfids_desde :: "nat \<Rightarrow> nat \<Rightarrow> equipaje list \<Rightarrow> int list llamada" where
  "rfids_desde i 0 es = Listo []"
| "rfids_desde i (Suc n) es =
     (if i < length es
      then (case rfids_desde (Suc i) n es of Listo rs \<Rightarrow> Listo (rfid_int (es ! i) # rs) | r \<Rightarrow> r)
      else Fallo Fuera_de_rango)"

definition get_rfids :: "contenedor \<Rightarrow> int list llamada" where
  "get_rfids c = rfids_desde 0 (nat (cant_equipajes c)) (equipajes c)"

section \<open>Well-formed containers\<close>

definition carga_de :: "contenedor \<Rightarrow> equipaje list" where
  "carga_de c = take (nat (cant_equipajes c)) (equipajes c)"

definition contenedor_ok :: "contenedor \<Rightarrow> bool" where
  "contenedor_ok c \<longleftrightarrow>
     length (equipajes c) = 30 \<and> 0 \<le> cant_equipajes c \<and> cant_equipajes c \<le> 30 \<and>
     peso_c c = sum_list (map peso_e (carga_de c)) \<and> sint (peso_c c) \<le> 3000"

lemma contenedor_nuevo [simp]: "contenedor_ok Contenedor" "carga_de Contenedor = []"
  by (simp_all add: contenedor_ok_def carga_de_def Contenedor_def MAX_VALIJAS_POR_CONTENEDOR_def)

lemma length_carga_de: "contenedor_ok c \<Longrightarrow> int (length (carga_de c)) = cant_equipajes c"
  by (auto simp: contenedor_ok_def carga_de_def)

lemma hay_lugar_ok:
  "contenedor_ok c \<Longrightarrow>
     hay_lugar e c = (length (carga_de c) < 30 \<and> sint (sum_list (map peso_e (carga_de c @ [e]))) \<le> 3000)"
  using length_carga_de [of c]
  by (auto simp: hay_lugar_def contenedor_ok_def MAX_VALIJAS_POR_CONTENEDOR_def MAX_PESO_CONTENEDOR_def add.commute)

text \<open>
  On a well-formed container the second guard never fires and the write stays in the array:
  the call succeeds exactly when there is room.
\<close>

lemma agregar_ok:
  assumes ok: "contenedor_ok c" and lugar: "hay_lugar e c"
  shows "\<exists>c'. agregar_equipaje e c = Listo c' \<and> contenedor_ok c' \<and> carga_de c' = carga_de c @ [e]"
proof -
  let ?n = "nat (cant_equipajes c)"
  have n: "?n < 30" "cant_equipajes c \<noteq> 30" and l: "length (equipajes c) = 30"
    and p: "sint (peso_c c + peso_e e) \<le> 3000"
    using ok lugar by (auto simp: contenedor_ok_def hay_lugar_def MAX_VALIJAS_POR_CONTENEDOR_def
        MAX_PESO_CONTENEDOR_def add.commute split: if_splits)
  have s: "nat (cant_equipajes c + 1) = Suc ?n" using ok by (auto simp: contenedor_ok_def nat_add_distrib)
  let ?c = "c\<lparr>equipajes := (equipajes c)[?n := e], cant_equipajes := cant_equipajes c + 1,
              peso_c := peso_c c + peso_e e\<rparr>"
  have carga: "carga_de ?c = carga_de c @ [e]"
    using n l by (simp add: carga_de_def s take_Suc_conv_app_nth)
  have "contenedor_ok ?c" using ok n p carga by (simp add: contenedor_ok_def)
  moreover have "agregar_equipaje e c = Listo ?c"
    using ok lugar n by (simp add: agregar_equipaje_def contenedor_ok_def MAX_VALIJAS_POR_CONTENEDOR_def)
  ultimately show ?thesis using carga by blast
qed

lemma agregar_lleno: "\<not> hay_lugar e c \<Longrightarrow> agregar_equipaje e c = Fallo RuntimeError"
  by (simp add: agregar_equipaje_def)

lemma rfids_desde_ok:
  "i + n \<le> length es \<Longrightarrow> rfids_desde i n es = Listo (map rfid_int (take n (drop i es)))"
proof (induction n arbitrary: i)
  case (Suc n)
  then have "take (Suc n) (drop i es) = es ! i # take n (drop (Suc i) es)"
    by (simp add: Cons_nth_drop_Suc [symmetric])
  then show ?case using Suc by simp
qed simp

lemma get_rfids_ok: "contenedor_ok c \<Longrightarrow> get_rfids c = Listo (map rfid_int (carga_de c))"
  using rfids_desde_ok [of 0 "nat (cant_equipajes c)" "equipajes c"]
  by (auto simp: get_rfids_def carga_de_def contenedor_ok_def)

section \<open>Filling a container\<close>

fun llenar :: "equipaje list \<Rightarrow> contenedor \<Rightarrow> contenedor llamada" where
  "llenar [] c = Listo c"
| "llenar (e # es) c = (case agregar_equipaje e c of Listo c' \<Rightarrow> llenar es c' | r \<Rightarrow> r)"

text \<open>Every prefix of the pieces fits.\<close>

definition caben :: "equipaje list \<Rightarrow> bool" where
  "caben es \<longleftrightarrow> length es \<le> 30 \<and> (\<forall>k \<le> length es. sint (sum_list (map peso_e (take k es))) \<le> 3000)"

lemma caben_prefijo: "caben (xs @ ys) \<Longrightarrow> caben xs"
proof -
  assume c: "caben (xs @ ys)"
  have "sint (sum_list (map peso_e (take k xs))) \<le> 3000" if "k \<le> length xs" for k
  proof -
    have "sint (sum_list (map peso_e (take k (xs @ ys)))) \<le> 3000" using c that unfolding caben_def by (simp del: take_append)
    then show ?thesis using that by simp
  qed
  then show "caben xs" using c by (auto simp: caben_def)
qed

lemma llenar_desde:
  "contenedor_ok c \<Longrightarrow> caben (carga_de c) \<Longrightarrow>
     (if caben (carga_de c @ es)
      then \<exists>c'. llenar es c = Listo c' \<and> contenedor_ok c' \<and> carga_de c' = carga_de c @ es
      else llenar es c = Fallo RuntimeError)"
proof (induction es arbitrary: c)
  case Nil
  then show ?case by simp
next
  case (Cons e es)
  have paso: "hay_lugar e c = caben (carga_de c @ [e])"
    using Cons.prems(2) unfolding hay_lugar_ok [OF Cons.prems(1)] caben_def
    by (auto simp: le_Suc_eq all_conj_distrib)
  show ?case
  proof (cases "hay_lugar e c")
    case True
    then obtain c' where c': "agregar_equipaje e c = Listo c'" "contenedor_ok c'" "carga_de c' = carga_de c @ [e]"
      using agregar_ok [OF Cons.prems(1)] by blast
    then show ?thesis using Cons.IH [OF c'(2)] paso True by (simp split: if_splits)
  next
    case False
    then have "\<not> caben (carga_de c @ e # es)"
      using paso caben_prefijo [of "carga_de c @ [e]" es] by auto
    then show ?thesis using agregar_lleno [OF False] by simp
  qed
qed

text \<open>
  Weights that cannot overflow over a container with room: neither negative nor so big that
  3000 more leave the type. For them the test of every prefix is that of the true sum.
\<close>

definition peso_normal :: "equipaje \<Rightarrow> bool" where
  "peso_normal e \<longleftrightarrow> 0 \<le> sint (peso_e e) \<and> sint (peso_e e) \<le> 2147483647 - 3000"

lemma sint_suma:
  fixes a b :: peso
  assumes "- 2147483648 \<le> sint a + sint b" and "sint a + sint b < 2147483648"
  shows "sint (a + b) = sint a + sint b"
  using assms by (simp add: sint_word_ariths signed_take_bit_int_eq_self)

lemma pesos_normales:
  "\<forall>e \<in> set es. peso_normal e \<Longrightarrow>
     ((\<forall>k \<le> length es. sint (sum_list (map peso_e (take k es))) \<le> 3000) \<longleftrightarrow> (\<Sum>e \<leftarrow> es. sint (peso_e e)) \<le> 3000) \<and>
     ((\<Sum>e \<leftarrow> es. sint (peso_e e)) \<le> 3000 \<longrightarrow> sint (sum_list (map peso_e es)) = (\<Sum>e \<leftarrow> es. sint (peso_e e))) \<and>
     0 \<le> (\<Sum>e \<leftarrow> es. sint (peso_e e))"
proof (induction es rule: rev_induct)
  case (snoc e es)
  let ?t = "\<Sum>e \<leftarrow> es. sint (peso_e e)" and ?w = "sint (peso_e e)"
  have w: "0 \<le> ?w" "?w \<le> 2147480647" and es: "\<forall>e \<in> set es. peso_normal e"
    using snoc.prems by (simp_all add: peso_normal_def)
  note IH = snoc.IH [OF es]
  have suma: "sint (sum_list (map peso_e es) + peso_e e) = ?t + ?w" if "?t \<le> 3000"
    using sint_suma [of "sum_list (map peso_e es)" "peso_e e"] IH that w by simp
  have "(\<forall>k \<le> length (es @ [e]). sint (sum_list (map peso_e (take k (es @ [e])))) \<le> 3000) \<longleftrightarrow>
      ?t \<le> 3000 \<and> sint (sum_list (map peso_e es) + peso_e e) \<le> 3000"
    using IH by (auto simp: le_Suc_eq)
  then show ?case using suma w IH by auto
qed simp

text \<open>
  C37. A container is well formed whatever is put in it: filling a new one with a list of pieces
  succeeds exactly when there are at most thirty and no prefix of them has a sum of weights,
  wrapped to an \<^verbatim>\<open>int\<close> as the code adds it, above 3000; then its array, counter, weight and list
  of identifiers are those of the pieces. Otherwise the call raises its first error, never the
  second one nor a write outside the array. For weights that are not negative and at most 3000
  below the greatest \<^verbatim>\<open>int\<close> the sum does not wrap, and it succeeds exactly when the true weight
  of at most thirty pieces is at most 3000.
\<close>

theorem contenedor_tipado:
  "(if length es \<le> 30 \<and> (\<forall>k \<le> length es. sint (sum_list (map peso_e (take k es))) \<le> 3000)
    then \<exists>c. llenar es Contenedor = Listo c \<and> contenedor_ok c \<and> carga_de c = es \<and>
           get_equipajes c = int (length es) \<and> peso_c c = sum_list (map peso_e es) \<and>
           get_rfids c = Listo (map rfid_int es)
    else llenar es Contenedor = Fallo RuntimeError) \<and>
   ((\<forall>e \<in> set es. 0 \<le> sint (peso_e e) \<and> sint (peso_e e) \<le> 2147483647 - 3000) \<longrightarrow>
     (\<exists>c. llenar es Contenedor = Listo c \<and> sint (peso_c c) = (\<Sum>e \<leftarrow> es. sint (peso_e e))) =
       (length es \<le> 30 \<and> (\<Sum>e \<leftarrow> es. sint (peso_e e)) \<le> 3000) \<and>
     (\<not> (length es \<le> 30 \<and> (\<Sum>e \<leftarrow> es. sint (peso_e e)) \<le> 3000) \<longrightarrow> llenar es Contenedor = Fallo RuntimeError))"
proof -
  have "caben (carga_de Contenedor)" by (simp add: caben_def)
  note l = llenar_desde [OF contenedor_nuevo(1) this, of es]
  have dato: "get_equipajes c = int (length es) \<and> peso_c c = sum_list (map peso_e es) \<and>
      get_rfids c = Listo (map rfid_int es)" if "contenedor_ok c" "carga_de c = es" for c
    using that length_carga_de [OF that(1)] get_rfids_ok [OF that(1)]
    by (simp add: get_equipajes_def contenedor_ok_def)
  have si: "caben es \<Longrightarrow> \<exists>c. llenar es Contenedor = Listo c \<and> contenedor_ok c \<and> carga_de c = es"
    and no: "\<not> caben es \<Longrightarrow> llenar es Contenedor = Fallo RuntimeError" using l by (simp_all split: if_splits)
  have normal: "caben es \<longleftrightarrow> length es \<le> 30 \<and> (\<Sum>e \<leftarrow> es. sint (peso_e e)) \<le> 3000"
    "caben es \<Longrightarrow> sint (sum_list (map peso_e es)) = (\<Sum>e \<leftarrow> es. sint (peso_e e))"
    if "\<forall>e \<in> set es. peso_normal e"
    using pesos_normales [OF that] unfolding caben_def by blast+
  show ?thesis
  proof (cases "caben es")
    case True
    then show ?thesis using si [OF True] dato normal unfolding caben_def [symmetric] peso_normal_def [symmetric] by fastforce
  next
    case False
    then show ?thesis using no [OF False] normal unfolding caben_def [symmetric] peso_normal_def [symmetric] by simp
  qed
qed

theorem contenedor_tipado_witness:
  "\<exists>c. llenar [Equipaje (Rfid 7 1) 2000, Equipaje (Rfid 8 1) 1000] Contenedor = Listo c \<and> sint (peso_c c) = 3000"
  using contenedor_tipado [of "[Equipaje (Rfid 7 1) 2000, Equipaje (Rfid 8 1) 1000]"]
  by (auto simp: Equipaje_def)

text \<open>A container takes a piece of the greatest weight after one of weight 1: the sum is negative.\<close>

theorem contenedor_desborda:
  "\<exists>c. llenar [Equipaje (Rfid 7 1) 1, Equipaje (Rfid 8 1) 2147483647] Contenedor = Listo c \<and>
     get_equipajes c = 2 \<and> sint (peso_c c) = - 2147483648"
  by (simp add: Contenedor_def Equipaje_def agregar_equipaje_def hay_lugar_def get_equipajes_def
      MAX_VALIJAS_POR_CONTENEDOR_def MAX_PESO_CONTENEDOR_def)

end
