(* ===== verification/Torre.thy ===== *)
theory Torre
  imports Semaforos Colas Equipajes
begin

text \<open>
  The control tower. \<^verbatim>\<open>ZonasAsignadas\<close> and \<^verbatim>\<open>ApiTorreDeControlSvc\<close>
  (\<^verbatim>\<open>api/api_torre_de_control_svc.h\<close>, \<^verbatim>\<open>.cpp\<close>) keep the flight of each
  zone in shared memory behind a mutex; the RPC server \<^verbatim>\<open>rpc/\<close> offers them to
  \<^verbatim>\<open>ApiDespachante\<close>, and the dispatch robot
  (\<^verbatim>\<open>processes/robot_despacho.cpp\<close>) asks them for the zone of each piece.
  \<^verbatim>\<open>ApiTorreDeControl\<close> keeps the free zones, desks and containers in queues.
\<close>

section \<open>The table of zones\<close>

definition MAX_ZONAS :: nat where "MAX_ZONAS = 10"

type_synonym zonas = "int list"

definition ZonasAsignadas :: zonas where
  "ZonasAsignadas = replicate MAX_ZONAS (-1)"

definition zonas_asignar :: "int \<Rightarrow> int \<Rightarrow> zonas \<Rightarrow> zonas llamada" where
  "zonas_asignar zona vuelo zs =
     (if zona \<le> 0 \<or> zona \<ge> int MAX_ZONAS then Fallo RuntimeError
      else Listo (zs[nat (zona - 1) := vuelo]))"

text \<open>The loops on \<^verbatim>\<open>i < MAX_ZONAS\<close>, with the entries left.\<close>

definition zonas_desasignar :: "int \<Rightarrow> zonas \<Rightarrow> zonas" where
  "zonas_desasignar vuelo zs = map (\<lambda>z. if z = vuelo then -1 else z) zs"

fun buscar_zona :: "int \<Rightarrow> int \<Rightarrow> zonas \<Rightarrow> int" where
  "buscar_zona vuelo i [] = -1"
| "buscar_zona vuelo i (z # zs) = (if z = vuelo then i else buscar_zona vuelo (i + 1) zs)"

definition zonas_get :: "int \<Rightarrow> zonas \<Rightarrow> int" where
  "zonas_get num_vuelo zs = buscar_zona num_vuelo 0 zs"

lemma buscar_zona_None: "0 \<le> i \<Longrightarrow> (buscar_zona v i zs = -1) = (v \<notin> set zs)"
  by (induction v i zs rule: buscar_zona.induct) auto

lemma buscar_zona_primera:
  "k < length zs \<Longrightarrow> zs ! k = v \<Longrightarrow> (\<And>j. j < k \<Longrightarrow> zs ! j \<noteq> v) \<Longrightarrow> buscar_zona v i zs = i + int k"
proof (induction zs arbitrary: i k)
  case (Cons z zs)
  show ?case
  proof (cases k)
    case 0
    then show ?thesis using Cons.prems by simp
  next
    case (Suc j)
    have "z \<noteq> v" using Cons.prems(3) [of 0] Suc by simp
    moreover have "buscar_zona v (i + 1) zs = i + 1 + int j"
    proof (rule Cons.IH)
      show "j < length zs" "zs ! j = v" using Cons.prems Suc by auto
      show "zs ! l \<noteq> v" if "l < j" for l using Cons.prems(3) [of "Suc l"] Suc that by simp
    qed
    ultimately show ?thesis using Suc by simp
  qed
qed simp

lemma zonas_get_acotada: "-1 \<le> zonas_get v zs \<and> zonas_get v zs < int (length zs)"
proof -
  have "0 \<le> i \<Longrightarrow> -1 \<le> buscar_zona v i zs \<and> buscar_zona v i zs < i + int (length zs)" for i
    by (induction v i zs rule: buscar_zona.induct) (fastforce+)
  from this [of 0] show ?thesis by (simp add: zonas_get_def)
qed

section \<open>The service\<close>

record torre =
  asignaciones :: zonas
  mutex_asignaciones :: semset

definition torre_nueva :: torre where
  "torre_nueva = \<lparr>asignaciones = ZonasAsignadas, mutex_asignaciones = crear_semset [1]\<rparr>"

text \<open>
  Each call locks, works and unlocks; when \<^verbatim>\<open>asignar_vuelo\<close> of the table throws, the
  unlock is skipped. The result is the state and what the caller gets.
\<close>

definition con_mutex_zonas :: "(zonas \<Rightarrow> ('r \<times> zonas) llamada) \<Rightarrow> torre \<Rightarrow> torre \<times> 'r llamada" where
  "con_mutex_zonas f t =
     (case mutex_lock 0 (mutex_asignaciones t) of
        Listo sem \<Rightarrow>
          (let t1 = t\<lparr>mutex_asignaciones := sem\<rparr>
           in case f (asignaciones t1) of
                Listo (r, zs) \<Rightarrow>
                  (case mutex_unlock 0 sem of
                     Listo sem' \<Rightarrow> (t1\<lparr>asignaciones := zs, mutex_asignaciones := sem'\<rparr>, Listo r)
                   | Bloqueado \<Rightarrow> (t1\<lparr>asignaciones := zs\<rparr>, Bloqueado)
                   | Fallo e \<Rightarrow> (t1\<lparr>asignaciones := zs\<rparr>, Fallo e))
              | Bloqueado \<Rightarrow> (t1, Bloqueado)
              | Fallo e \<Rightarrow> (t1, Fallo e))
      | Bloqueado \<Rightarrow> (t, Bloqueado)
      | Fallo e \<Rightarrow> (t, Fallo e))"

definition svc_asignar_vuelo :: "int \<Rightarrow> int \<Rightarrow> torre \<Rightarrow> torre \<times> int llamada" where
  "svc_asignar_vuelo zona vuelo =
     con_mutex_zonas (\<lambda>zs. case zonas_asignar zona vuelo zs of Listo zs' \<Rightarrow> Listo (0, zs') | Bloqueado \<Rightarrow> Bloqueado | Fallo e \<Rightarrow> Fallo e)"

definition svc_desasignar_vuelo :: "int \<Rightarrow> torre \<Rightarrow> torre \<times> int llamada" where
  "svc_desasignar_vuelo vuelo = con_mutex_zonas (\<lambda>zs. Listo (0, zonas_desasignar vuelo zs))"

definition svc_get_zona :: "int \<Rightarrow> torre \<Rightarrow> torre \<times> int llamada" where
  "svc_get_zona vuelo = con_mutex_zonas (\<lambda>zs. Listo (zonas_get vuelo zs, zs))"

section \<open>The RPC server and its clients\<close>

text \<open>
  \<^verbatim>\<open>torredecontrolprog_1\<close> dispatches on the procedure; an unknown one is answered with an
  error. An exception of a procedure leaves \<^verbatim>\<open>svc_run\<close> and ends the server.
\<close>

datatype pedido_torre = ASIGNAR_VUELO int int | DESASIGNAR_VUELO int | GET_ZONA int | Otro_procedimiento

record servidor_torre =
  torre_de :: torre
  atiende :: bool

definition despachar_pedido :: "pedido_torre \<Rightarrow> torre \<Rightarrow> torre \<times> int llamada" where
  "despachar_pedido p t =
     (case p of
        ASIGNAR_VUELO zona vuelo \<Rightarrow> svc_asignar_vuelo zona vuelo t
      | DESASIGNAR_VUELO vuelo \<Rightarrow> svc_desasignar_vuelo vuelo t
      | GET_ZONA vuelo \<Rightarrow> svc_get_zona vuelo t
      | Otro_procedimiento \<Rightarrow> (t, Fallo GenericError))"

text \<open>
  The network between a client and the server, which the RPC library owns: a request is answered,
  is executed but its answer is lost, or is lost. The client gets the answer or \<^verbatim>\<open>NULL\<close>.
\<close>

datatype entrega_rpc = Respondida | Sin_respuesta | Perdida

definition llamar_rpc :: "entrega_rpc \<Rightarrow> pedido_torre \<Rightarrow> servidor_torre \<Rightarrow> servidor_torre \<times> int option" where
  "llamar_rpc red p s =
     (if \<not> atiende s \<or> red = Perdida then (s, None)
      else case despachar_pedido p (torre_de s) of
             (t, Listo r) \<Rightarrow> (s\<lparr>torre_de := t\<rparr>, if red = Respondida then Some r else None)
           | (t, Bloqueado) \<Rightarrow> (s\<lparr>torre_de := t\<rparr>, None)
           | (t, Fallo e) \<Rightarrow> (s\<lparr>torre_de := t, atiende := (p = Otro_procedimiento)\<rparr>, None))"

definition despachante_asignar_vuelo :: "entrega_rpc \<Rightarrow> int \<Rightarrow> int \<Rightarrow> servidor_torre \<Rightarrow> servidor_torre \<times> unit llamada" where
  "despachante_asignar_vuelo red zona vuelo s =
     (case llamar_rpc red (ASIGNAR_VUELO zona vuelo) s of
        (s', Some r) \<Rightarrow> (s', Listo ())
      | (s', None) \<Rightarrow> (s', Fallo GenericError))"

definition despachante_desasignar_vuelo :: "entrega_rpc \<Rightarrow> int \<Rightarrow> servidor_torre \<Rightarrow> servidor_torre \<times> unit llamada" where
  "despachante_desasignar_vuelo red vuelo s =
     (case llamar_rpc red (DESASIGNAR_VUELO vuelo) s of
        (s', Some r) \<Rightarrow> (s', Listo ())
      | (s', None) \<Rightarrow> (s', Fallo GenericError))"

definition despachante_get_zona :: "entrega_rpc \<Rightarrow> int \<Rightarrow> servidor_torre \<Rightarrow> servidor_torre \<times> int llamada" where
  "despachante_get_zona red vuelo s =
     (case llamar_rpc red (GET_ZONA vuelo) s of
        (s', Some r) \<Rightarrow> (s', Listo r)
      | (s', None) \<Rightarrow> (s', Fallo GenericError))"

section \<open>The dispatch robot\<close>

text \<open>
  One turn of its loop for the piece it read from the main belt: let it pass, or take it and put it
  on the container belt of an index of its vector, whose belts are those of \<open>zona_desde\<close> to
  \<open>zona_hasta\<close>.
\<close>

datatype despacho = Deja_pasar | Toma nat int

definition cintas_del_robot :: "int \<Rightarrow> int \<Rightarrow> int list" where
  "cintas_del_robot zona_desde zona_hasta = [zona_desde..zona_hasta]"

definition decidir_despacho :: "int \<Rightarrow> int \<Rightarrow> bool \<Rightarrow> int \<Rightarrow> despacho" where
  "decidir_despacho zona_desde zona_hasta sosp num_zona =
     (if sosp then Deja_pasar
      else if num_zona = -1 \<or> num_zona < zona_desde \<or> num_zona > zona_hasta then Deja_pasar
      else Toma (nat (num_zona - zona_desde)) num_zona)"

definition vuelta_robot_despacho ::
    "entrega_rpc \<Rightarrow> int \<Rightarrow> int \<Rightarrow> rfid_t \<Rightarrow> servidor_torre \<Rightarrow> servidor_torre \<times> despacho llamada" where
  "vuelta_robot_despacho red zona_desde zona_hasta r s =
     (case despachante_get_zona red (numero_de_vuelo_destino r) s of
        (s', Listo num_zona) \<Rightarrow> (s', Listo (decidir_despacho zona_desde zona_hasta (sospechoso r) num_zona))
      | (s', Bloqueado) \<Rightarrow> (s', Bloqueado)
      | (s', Fallo e) \<Rightarrow> (s', Fallo e))"

text \<open>The robot of suspicious luggage discards a piece whose flight has no zone and keeps the others.\<close>

definition decidir_control :: "int \<Rightarrow> int \<Rightarrow> bool" where
  "decidir_control num_rfid zona_asignada \<longleftrightarrow> num_rfid \<noteq> 0 \<and> zona_asignada \<noteq> -1"

definition vuelta_robot_control :: "entrega_rpc \<Rightarrow> rfid_t \<Rightarrow> servidor_torre \<Rightarrow> servidor_torre \<times> bool llamada" where
  "vuelta_robot_control red r s =
     (case despachante_get_zona red (numero_de_vuelo_destino r) s of
        (s', Listo zona) \<Rightarrow> (s', Listo (decidir_control (rfid r) zona))
      | (s', Bloqueado) \<Rightarrow> (s', Bloqueado)
      | (s', Fallo e) \<Rightarrow> (s', Fallo e))"

section \<open>The calls on a server that works\<close>

definition servidor_ok :: "servidor_torre \<Rightarrow> bool" where
  "servidor_ok s \<longleftrightarrow> atiende s \<and> mutex_asignaciones (torre_de s) = [1] \<and> length (asignaciones (torre_de s)) = 10"

abbreviation tabla :: "servidor_torre \<Rightarrow> zonas" where
  "tabla s \<equiv> asignaciones (torre_de s)"

definition con_tabla :: "zonas \<Rightarrow> servidor_torre \<Rightarrow> servidor_torre" where
  "con_tabla zs s = s\<lparr>torre_de := (torre_de s)\<lparr>asignaciones := zs\<rparr>\<rparr>"

lemma con_tabla_simps [simp]:
  "tabla (con_tabla zs s) = zs" "atiende (con_tabla zs s) = atiende s" "con_tabla (tabla s) s = s"
  "servidor_ok s \<Longrightarrow> servidor_ok (con_tabla zs s) = (length zs = 10)"
  by (simp_all add: con_tabla_def servidor_ok_def)

lemma con_mutex_zonas_ok:
  "mutex_asignaciones t = [1] \<Longrightarrow>
     con_mutex_zonas f t = (case f (asignaciones t) of
        Listo (r, zs) \<Rightarrow> (t\<lparr>asignaciones := zs\<rparr>, Listo r)
      | Bloqueado \<Rightarrow> (t\<lparr>mutex_asignaciones := [0]\<rparr>, Bloqueado)
      | Fallo e \<Rightarrow> (t\<lparr>mutex_asignaciones := [0]\<rparr>, Fallo e))"
  by (cases t) (auto simp: con_mutex_zonas_def mutex_lock_def mutex_unlock_def wait_on_def signalize_def semset_op_def
      split: llamada.split)

lemma rpc_get_ok:
  assumes "servidor_ok s"
  shows "despachante_get_zona red v s = (s, if red = Respondida then Listo (zonas_get v (tabla s)) else Fallo GenericError)"
  using assms con_tabla_simps(3) [of s]
  by (cases red) (auto simp: despachante_get_zona_def llamar_rpc_def despachar_pedido_def svc_get_zona_def
      con_mutex_zonas_ok servidor_ok_def con_tabla_def)

lemma rpc_desasignar_ok:
  assumes "servidor_ok s"
  shows "despachante_desasignar_vuelo red v s =
    (if red = Perdida then s else con_tabla (zonas_desasignar v (tabla s)) s,
     if red = Respondida then Listo () else Fallo GenericError)"
  using assms
  by (cases red) (auto simp: despachante_desasignar_vuelo_def llamar_rpc_def despachar_pedido_def
      svc_desasignar_vuelo_def con_mutex_zonas_ok servidor_ok_def con_tabla_def)

lemma rpc_asignar_ok:
  assumes "servidor_ok s" and "0 < z" and "z < 10"
  shows "despachante_asignar_vuelo red z v s =
    (if red = Perdida then s else con_tabla ((tabla s)[nat (z - 1) := v]) s,
     if red = Respondida then Listo () else Fallo GenericError)"
  using assms
  by (cases red) (auto simp: despachante_asignar_vuelo_def llamar_rpc_def despachar_pedido_def
      svc_asignar_vuelo_def zonas_asignar_def MAX_ZONAS_def con_mutex_zonas_ok servidor_ok_def con_tabla_def)

text \<open>A zone outside 1 to 9 throws with the mutex taken, which ends the server.\<close>

lemma rpc_asignar_falla:
  assumes "servidor_ok s" and "z \<le> 0 \<or> 10 \<le> z" and "red \<noteq> Perdida"
  shows "despachante_asignar_vuelo red z v s =
    (s\<lparr>torre_de := (torre_de s)\<lparr>mutex_asignaciones := [0]\<rparr>, atiende := False\<rparr>, Fallo GenericError)"
  using assms
  by (auto simp: despachante_asignar_vuelo_def llamar_rpc_def despachar_pedido_def
      svc_asignar_vuelo_def zonas_asignar_def MAX_ZONAS_def con_mutex_zonas_ok servidor_ok_def)

lemma rpc_sin_servidor:
  "\<not> atiende s \<Longrightarrow> despachante_get_zona red v s = (s, Fallo GenericError)"
  "\<not> atiende s \<Longrightarrow> despachante_asignar_vuelo red z v s = (s, Fallo GenericError)"
  "\<not> atiende s \<Longrightarrow> despachante_desasignar_vuelo red v s = (s, Fallo GenericError)"
  by (simp_all add: despachante_get_zona_def despachante_asignar_vuelo_def despachante_desasignar_vuelo_def llamar_rpc_def)

lemma zonas_get_asignada:
  assumes "length zs = 10" and "0 < z" and "z < 10" and "\<And>j. j < nat (z - 1) \<Longrightarrow> zs ! j \<noteq> v" and "zs ! nat (z - 1) = v"
  shows "zonas_get v zs = z - 1"
  using buscar_zona_primera [of "nat (z - 1)" zs v 0] assms by (simp add: zonas_get_def)

lemma zonas_desasignar_simps [simp]:
  "length (zonas_desasignar v zs) = length zs" "v \<noteq> -1 \<Longrightarrow> v \<notin> set (zonas_desasignar v zs)"
  "i < length zs \<Longrightarrow> zonas_desasignar v zs ! i = (if zs ! i = v then -1 else zs ! i)"
  by (auto simp: zonas_desasignar_def)

lemma zonas_get_ausente: "v \<notin> set zs \<Longrightarrow> zonas_get v zs = -1"
  by (simp add: zonas_get_def buscar_zona_None)

text \<open>
  C34. Where the luggage of a flight goes. When zone \<open>z\<close> between 1 and 9 is assigned to a
  flight that has none, the robots of dispatch are told \<open>z - 1\<close>: the robot of the zones
  \<open>d\<close> to \<open>h\<close> takes a clean piece of the flight exactly when \<open>z - 1\<close> is one of them,
  inside its vector, and puts it on the belt of zone \<open>z - 1\<close>; a suspicious piece passes. Any
  other \<open>z\<close> makes the server throw with its mutex taken and end, and every later call of any
  robot fails.
\<close>

theorem zona_desfasada:
  assumes "servidor_ok s" and "v \<notin> set (tabla s)" and "v \<noteq> -1"
  shows "\<exists>s'. despachante_asignar_vuelo Respondida z v s =
      (s', if 0 < z \<and> z < 10 then Listo () else Fallo GenericError) \<and>
    (\<forall>d h r. numero_de_vuelo_destino r = v \<longrightarrow>
       vuelta_robot_despacho Respondida d h r s' =
         (s', if 0 < z \<and> z < 10
              then Listo (if \<not> sospechoso r \<and> d \<le> z - 1 \<and> z - 1 \<le> h then Toma (nat (z - 1 - d)) (z - 1) else Deja_pasar)
              else Fallo GenericError)) \<and>
    (\<forall>d h. d \<le> z - 1 \<and> z - 1 \<le> h \<longrightarrow>
       nat (z - 1 - d) < length (cintas_del_robot d h) \<and> cintas_del_robot d h ! nat (z - 1 - d) = z - 1)"
proof -
  have vec: "\<forall>d h. d \<le> z - 1 \<and> z - 1 \<le> h \<longrightarrow>
       nat (z - 1 - d) < length (cintas_del_robot d h) \<and> cintas_del_robot d h ! nat (z - 1 - d) = z - 1"
    by (auto simp: cintas_del_robot_def)
  show ?thesis
  proof (cases "0 < z \<and> z < 10")
    case True
    let ?zs = "(tabla s)[nat (z - 1) := v]"
    let ?s = "con_tabla ?zs s"
    have l: "length (tabla s) = 10" using assms(1) by (simp add: servidor_ok_def)
    have ok: "servidor_ok ?s" using assms(1) l by simp
    have "?zs ! j \<noteq> v" if "j < nat (z - 1)" for j
    proof -
      have "j < length (tabla s)" using that True l by linarith
      then have "tabla s ! j \<noteq> v" using assms(2) nth_mem by blast
      then show ?thesis using that by simp
    qed
    moreover have "?zs ! nat (z - 1) = v" by (rule nth_list_update_eq) (use True l in linarith)
    ultimately have g: "zonas_get v ?zs = z - 1" using zonas_get_asignada [of ?zs z v] True l by auto
    have "vuelta_robot_despacho Respondida d h r ?s =
        (?s, Listo (if \<not> sospechoso r \<and> d \<le> z - 1 \<and> z - 1 \<le> h then Toma (nat (z - 1 - d)) (z - 1) else Deja_pasar))"
      if "numero_de_vuelo_destino r = v" for d h r
      using that True rpc_get_ok [OF ok, of Respondida v] g
      by (auto simp: vuelta_robot_despacho_def decidir_despacho_def)
    then show ?thesis using True rpc_asignar_ok [OF assms(1), of z Respondida v] vec by auto
  next
    case False
    then have "z \<le> 0 \<or> 10 \<le> z" by linarith
    from rpc_asignar_falla [OF assms(1) this, of Respondida v] False vec show ?thesis
      by (auto simp: vuelta_robot_despacho_def rpc_sin_servidor)
  qed
qed

theorem zona_desfasada_witness:
  "\<exists>s'. despachante_asignar_vuelo Respondida 3 102 \<lparr>torre_de = torre_nueva, atiende = True\<rparr> = (s', Listo ()) \<and>
     vuelta_robot_despacho Respondida 1 2 (Rfid 8 102) s' = (s', Listo (Toma 1 2)) \<and>
     vuelta_robot_despacho Respondida 3 4 (Rfid 8 102) s' = (s', Listo Deja_pasar)"
  using zona_desfasada [of "\<lparr>torre_de = torre_nueva, atiende = True\<rparr>" 102 3]
  by (fastforce simp: servidor_ok_def torre_nueva_def ZonasAsignadas_def MAX_ZONAS_def crear_semset_def Rfid_def)

end
