(* ===== verification/Zonas.thy ===== *)
theory Zonas
  imports Torre "HOL-Library.Multiset"
begin

text \<open>
  The zones of the airport in use: the pools of \<^verbatim>\<open>api/api_torre_de_control.cpp\<close>, and
  the part that the flight controllers (\<^verbatim>\<open>processes/controlador_de_vuelo.cpp\<close>) and the
  loading robots (\<^verbatim>\<open>processes/robot_carga.cpp\<close>) have in taking a zone, registering
  the flight in the table of the tower, and giving the zone back.
\<close>

section \<open>Pools\<close>

text \<open>
  A pool is a queue of messages of type 1. A container has no contents, a desk and a zone are their
  numbers; \<^verbatim>\<open>pull\<close> without a type takes the first message.
\<close>

definition pedir :: "'r cola \<Rightarrow> ('r \<times> 'r cola) llamada" where
  "pedir q = (case pull 0 q of Listo ((t, r), q') \<Rightarrow> Listo (r, q') | Bloqueado \<Rightarrow> Bloqueado | Fallo e \<Rightarrow> Fallo e)"

definition liberar :: "'r \<Rightarrow> 'r cola \<Rightarrow> 'r cola llamada" where
  "liberar r q = push 1 r q"

definition pedir_contenedor :: "unit cola \<Rightarrow> (unit \<times> unit cola) llamada" where "pedir_contenedor = pedir"
definition liberar_contenedor :: "unit cola \<Rightarrow> unit cola llamada" where "liberar_contenedor = liberar ()"
definition pedir_puesto_checkin :: "int cola \<Rightarrow> (int \<times> int cola) llamada" where "pedir_puesto_checkin = pedir"
definition liberar_puesto_checkin :: "int \<Rightarrow> int cola \<Rightarrow> int cola llamada" where "liberar_puesto_checkin = liberar"
definition pedir_zona :: "int cola \<Rightarrow> (int \<times> int cola) llamada" where "pedir_zona = pedir"
definition liberar_zona :: "int \<Rightarrow> int cola \<Rightarrow> int cola llamada" where "liberar_zona = liberar"

lemma pedir_ok: "pedir q = Listo (r, q') \<Longrightarrow> \<exists>t. q = (t, r) # q'"
  by (cases q) (auto simp: pedir_def pull_def)

lemma pedir_bloquea: "pedir q = Bloqueado \<longleftrightarrow> q = []"
  by (cases q) (auto simp: pedir_def pull_def)

lemma liberar_ok: "liberar r q = Listo (q @ [(1, r)])"
  by (simp add: liberar_def push_def)

section \<open>Controllers and loading robots\<close>

text \<open>
  A zone that was given by the pool is held by the controller of a flight, is registered for the
  flight, ended its load, or its controller or robot died holding it.
\<close>

datatype uso_zona = Pedida int | Registrada int | Descargada int | Abandonada int

text \<open>
  The pool, the server of the tower, and how many of the two processes of each zone that announce
  it free started. Histories: the zones given and not given back, and the flight registered last
  in each zone.
\<close>

record sis_zonas =
  zcola :: "int cola"
  zserv :: servidor_torre
  zarranco :: "int \<Rightarrow> nat"
  zusos :: "(int \<times> uso_zona) list"
  zultimo :: "int \<Rightarrow> int option"

text \<open>
  The constructor of \<^verbatim>\<open>ApiCarga\<close> with a belt frees the zone. The loading robot runs it, and so
  does the \<^verbatim>\<open>control_carga_contenedores\<close> that the robot starts afterwards.
\<close>

definition fin_arranca :: "int \<Rightarrow> int cola \<Rightarrow> sis_zonas \<Rightarrow> sis_zonas" where
  "fin_arranca k q s = s\<lparr>zcola := q, zarranco := (zarranco s)(k := zarranco s k + 1)\<rparr>"

definition fin_pide :: "int \<Rightarrow> int \<Rightarrow> int cola \<Rightarrow> sis_zonas \<Rightarrow> sis_zonas" where
  "fin_pide v z q s = s\<lparr>zcola := q, zusos := zusos s @ [(z, Pedida v)]\<rparr>"

definition fin_registra ::
  "entrega_rpc \<Rightarrow> int \<Rightarrow> int \<Rightarrow> nat \<Rightarrow> servidor_torre \<Rightarrow> unit llamada \<Rightarrow> sis_zonas \<Rightarrow> sis_zonas" where
  "fin_registra red v z i serv r s =
     s\<lparr>zserv := serv, zusos := (zusos s)[i := (z, if completa r then Registrada v else Abandonada v)],
       zultimo := (if red = Perdida then zultimo s else (zultimo s)(z := Some v))\<rparr>"

text \<open>
  The end of a load: the robot of zone \<open>z\<close> calls \<^verbatim>\<open>desasignar_vuelo\<close>, which takes a
  flight, with its zone; later, when the containers left, it frees the zone.
\<close>

definition fin_descarga :: "int \<Rightarrow> int \<Rightarrow> nat \<Rightarrow> servidor_torre \<Rightarrow> unit llamada \<Rightarrow> sis_zonas \<Rightarrow> sis_zonas" where
  "fin_descarga v z i serv r s =
     s\<lparr>zserv := serv, zusos := (zusos s)[i := (z, if completa r then Descargada v else Abandonada v)]\<rparr>"

definition fin_libera :: "int cola \<Rightarrow> nat \<Rightarrow> sis_zonas \<Rightarrow> sis_zonas" where
  "fin_libera q i s = s\<lparr>zcola := q, zusos := take i (zusos s) @ drop (Suc i) (zusos s)\<rparr>"

inductive paso_zonas :: "int \<Rightarrow> sis_zonas \<Rightarrow> sis_zonas \<Rightarrow> bool" for n :: int where
  t_arranca: "1 \<le> k \<Longrightarrow> k \<le> n \<Longrightarrow> zarranco s k < 2 \<Longrightarrow> liberar_zona k (zcola s) = Listo q \<Longrightarrow>
     paso_zonas n s (fin_arranca k q s)"
| t_pide: "pedir_zona (zcola s) = Listo (z, q) \<Longrightarrow> paso_zonas n s (fin_pide v z q s)"
| t_registra: "i < length (zusos s) \<Longrightarrow> zusos s ! i = (z, Pedida v) \<Longrightarrow>
     despachante_asignar_vuelo red z v (zserv s) = (serv, r) \<Longrightarrow> paso_zonas n s (fin_registra red v z i serv r s)"
| t_descarga: "i < length (zusos s) \<Longrightarrow> zusos s ! i = (z, Registrada v) \<Longrightarrow>
     despachante_desasignar_vuelo red z (zserv s) = (serv, r) \<Longrightarrow> paso_zonas n s (fin_descarga v z i serv r s)"
| t_libera: "i < length (zusos s) \<Longrightarrow> zusos s ! i = (z, Descargada v) \<Longrightarrow>
     liberar_zona z (zcola s) = Listo q \<Longrightarrow> paso_zonas n s (fin_libera q i s)"
| t_consulta: "despachante_get_zona red v (zserv s) = (serv, r) \<Longrightarrow> paso_zonas n s (s\<lparr>zserv := serv\<rparr>)"

definition ini_zonas :: sis_zonas where
  "ini_zonas = \<lparr>zcola = [], zserv = \<lparr>torre_de = torre_nueva, atiende = True\<rparr>,
     zarranco = (\<lambda>_. 0), zusos = [], zultimo = (\<lambda>_. None)\<rparr>"

section \<open>Invariant\<close>

text \<open>
  A zone is in the pool and in use, together, as often as it was announced; the flight registered
  last in a zone is in its entry, unless the flight has the number of a zone.
\<close>

definition cuantos :: "int \<Rightarrow> (int \<times> uso_zona) list \<Rightarrow> nat" where
  "cuantos z us = length (filter (\<lambda>u. fst u = z) us)"

lemma cuantos_simps [simp]:
  "cuantos z [] = 0" "cuantos z (u # us) = (if fst u = z then 1 else 0) + cuantos z us"
  "cuantos z (us @ vs) = cuantos z us + cuantos z vs"
  by (simp_all add: cuantos_def)

lemma cuantos_update [simp]: "i < length us \<Longrightarrow> fst (us ! i) = w \<Longrightarrow> cuantos z (us[i := (w, u)]) = cuantos z us"
  by (induction us arbitrary: i) (auto split: nat.splits simp: less_Suc_eq_0_disj)

lemma cuantos_saca: "i < length us \<Longrightarrow> cuantos z us = (if fst (us ! i) = z then 1 else 0) + cuantos z (take i us @ drop (Suc i) us)"
  by (subst id_take_nth_drop [of i us]) simp_all

lemma cuantos_pos: "(w, u) \<in> set us \<Longrightarrow> 0 < cuantos w us"
  by (induction us) auto

definition pool_ok :: "int \<Rightarrow> sis_zonas \<Rightarrow> bool" where
  "pool_ok n s \<longleftrightarrow>
     (\<forall>z. count (mset (map snd (zcola s))) z + cuantos z (zusos s) = zarranco s z) \<and>
     (\<forall>z. zarranco s z \<le> 2) \<and> (\<forall>z. 0 < zarranco s z \<longrightarrow> 1 \<le> z \<and> z \<le> n)"

definition tabla_zonas_ok :: "int \<Rightarrow> sis_zonas \<Rightarrow> bool" where
  "tabla_zonas_ok n s \<longleftrightarrow> servidor_ok (zserv s) \<and>
     (\<forall>z v. zultimo s z = Some v \<longrightarrow> 1 \<le> z \<and> z \<le> n \<and> (\<not> (1 \<le> v \<and> v \<le> n) \<longrightarrow> tabla (zserv s) ! nat (z - 1) = v))"

definition inv_zonas :: "int \<Rightarrow> sis_zonas \<Rightarrow> bool" where
  "inv_zonas n s \<longleftrightarrow> pool_ok n s \<and> tabla_zonas_ok n s"

lemma pool_rango: "pool_ok n s \<Longrightarrow> (z, u) \<in> set (zusos s) \<Longrightarrow> 1 \<le> z \<and> z \<le> n"
proof -
  assume p: "pool_ok n s" and u: "(z, u) \<in> set (zusos s)"
  have "count (mset (map snd (zcola s))) z + cuantos z (zusos s) = zarranco s z" using p by (simp add: pool_ok_def)
  then have "0 < zarranco s z" using cuantos_pos [OF u] by linarith
  then show ?thesis using p by (simp add: pool_ok_def)
qed

lemma pool_pide:
  assumes "pool_ok n s" and "pedir_zona (zcola s) = Listo (z, q)"
  shows "pool_ok n (fin_pide v z q s)" and "1 \<le> z \<and> z \<le> n"
proof -
  obtain t where q: "zcola s = (t, z) # q" using pedir_ok assms(2) by (fastforce simp: pedir_zona_def)
  show p: "pool_ok n (fin_pide v z q s)" using assms(1) unfolding pool_ok_def fin_pide_def q by (auto split: if_splits)
  show "1 \<le> z \<and> z \<le> n" using pool_rango [OF p, of z "Pedida v"] by (simp add: fin_pide_def)
qed

lemma pool_arranca:
  assumes "pool_ok n s" and "1 \<le> k" and "k \<le> n" and "zarranco s k < 2" and "liberar_zona k (zcola s) = Listo q"
  shows "pool_ok n (fin_arranca k q s)"
proof -
  have "q = zcola s @ [(1, k)]" using assms(5) by (simp add: liberar_zona_def liberar_ok)
  then show ?thesis using assms(1-4) by (auto simp: pool_ok_def fin_arranca_def)
qed

lemma pool_libera:
  assumes "pool_ok n s" and i: "i < length (zusos s)" and "zusos s ! i = (z, Descargada v)"
    and "liberar_zona z (zcola s) = Listo q"
  shows "pool_ok n (fin_libera q i s)"
proof -
  have "q = zcola s @ [(1, z)]" using assms(4) by (simp add: liberar_zona_def liberar_ok)
  then have "count (mset (map snd q)) w + cuantos w (take i (zusos s) @ drop (Suc i) (zusos s)) =
      count (mset (map snd (zcola s))) w + cuantos w (zusos s)" for w
    using cuantos_saca [OF i, of w] assms(3) by simp
  then show ?thesis using assms(1) by (simp add: pool_ok_def fin_libera_def del: cuantos_simps(3))
qed

lemma tabla_registra:
  assumes n: "n < 10" and inv: "tabla_zonas_ok n s" and z: "1 \<le> z" "z \<le> n"
    and r: "despachante_asignar_vuelo red z v (zserv s) = (serv, r)"
  shows "tabla_zonas_ok n (fin_registra red v z i serv r s)"
proof -
  have ok: "servidor_ok (zserv s)" and l: "length (tabla (zserv s)) = 10" using inv by (auto simp: tabla_zonas_ok_def servidor_ok_def)
  have serv: "serv = (if red = Perdida then zserv s else con_tabla ((tabla (zserv s))[nat (z - 1) := v]) (zserv s))"
    using rpc_asignar_ok [OF ok, of z red v] r z n by auto
  have otra: "(tabla (zserv s))[nat (z - 1) := v] ! nat (w - 1) = tabla (zserv s) ! nat (w - 1)"
    if "w \<noteq> z" "zultimo s w = Some x" for w x
  proof (rule nth_list_update_neq)
    have "1 \<le> w" using inv that(2) by (simp add: tabla_zonas_ok_def)
    then show "nat (z - 1) \<noteq> nat (w - 1)" using that(1) z by linarith
  qed
  have zn: "nat (z - 1) < 10" using z n by linarith
  show ?thesis using inv ok l z zn otra
    by (auto simp: tabla_zonas_ok_def fin_registra_def serv)
qed

lemma tabla_descarga:
  assumes n: "n < 10" and inv: "tabla_zonas_ok n s" and z: "1 \<le> z" "z \<le> n"
    and r: "despachante_desasignar_vuelo red z (zserv s) = (serv, r)"
  shows "tabla_zonas_ok n (fin_descarga v z i serv r s)"
proof -
  have ok: "servidor_ok (zserv s)" and l: "length (tabla (zserv s)) = 10" using inv by (auto simp: tabla_zonas_ok_def servidor_ok_def)
  have serv: "serv = (if red = Perdida then zserv s else con_tabla (zonas_desasignar z (tabla (zserv s))) (zserv s))"
    using rpc_desasignar_ok [OF ok, of red z] r by auto
  have ind: "nat (w - 1) < 10" if "1 \<le> w" "w \<le> n" for w using that n by linarith
  show ?thesis using inv ok l z ind by (auto simp: tabla_zonas_ok_def fin_descarga_def serv)
qed

lemma inv_zonas_paso: "paso_zonas n s t \<Longrightarrow> n < 10 \<Longrightarrow> inv_zonas n s \<Longrightarrow> inv_zonas n t"
proof (induction rule: paso_zonas.induct)
  case (t_arranca k s q)
  then show ?case using pool_arranca [of n s k q] by (auto simp: inv_zonas_def tabla_zonas_ok_def fin_arranca_def)
next
  case (t_pide s z q v)
  then show ?case using pool_pide(1) [of n s z q v] by (auto simp: inv_zonas_def tabla_zonas_ok_def fin_pide_def)
next
  case (t_registra i s z v red serv r)
  then have z: "1 \<le> z \<and> z \<le> n" using pool_rango [of n s z "Pedida v"] nth_mem [of i "zusos s"] by (auto simp: inv_zonas_def)
  have "pool_ok n (fin_registra red v z i serv r s)"
    using t_registra by (simp add: inv_zonas_def pool_ok_def fin_registra_def)
  then show ?case using t_registra z tabla_registra [of n s z red v serv r i] by (simp add: inv_zonas_def)
next
  case (t_descarga i s z v red serv r)
  then have z: "1 \<le> z \<and> z \<le> n" using pool_rango [of n s z "Registrada v"] nth_mem [of i "zusos s"] by (auto simp: inv_zonas_def)
  have "pool_ok n (fin_descarga v z i serv r s)"
    using t_descarga by (simp add: inv_zonas_def pool_ok_def fin_descarga_def)
  then show ?case using t_descarga z tabla_descarga [of n s z red serv r v i] by (simp add: inv_zonas_def)
next
  case (t_libera i s z v q)
  then show ?case using pool_libera [of n s i z v q] by (auto simp: inv_zonas_def tabla_zonas_ok_def fin_libera_def)
next
  case (t_consulta red v s serv r)
  have "serv = zserv s"
    using t_consulta rpc_get_ok [of "zserv s" red v] by (simp add: inv_zonas_def tabla_zonas_ok_def)
  then show ?case using t_consulta by simp
qed

lemma inv_zonas_ini: "inv_zonas n ini_zonas"
  by (simp add: inv_zonas_def pool_ok_def tabla_zonas_ok_def ini_zonas_def servidor_ok_def torre_nueva_def
      ZonasAsignadas_def MAX_ZONAS_def crear_semset_def)

interpretation zonas: sistema "\<lambda>s. s = ini_zonas" "paso_zonas n" "\<lambda>s. n < 10 \<longrightarrow> inv_zonas n s"
  by unfold_locales (auto intro: inv_zonas_ini inv_zonas_paso)

lemma buscar_zona_encuentra: "0 \<le> i \<Longrightarrow> buscar_zona v i zs = k \<Longrightarrow> k \<noteq> -1 \<Longrightarrow> i \<le> k \<and> zs ! nat (k - i) = v"
proof (induction v i zs rule: buscar_zona.induct)
  case (1 v i)
  then show ?case by simp
next
  case (2 v i z zs)
  show ?case
  proof (cases "z = v")
    case False
    then have h: "i + 1 \<le> k \<and> zs ! nat (k - (i + 1)) = v" using 2 by simp
    then have "nat (k - i) = Suc (nat (k - (i + 1)))" by linarith
    then show ?thesis using h by simp
  qed (use 2 in simp)
qed

lemma zonas_get_encuentra: "zonas_get v zs = k \<Longrightarrow> 0 \<le> k \<Longrightarrow> zs ! nat k = v"
  using buscar_zona_encuentra [of 0 v zs k] by (simp add: zonas_get_def)

lemma desasignar_pierde:
  assumes "servidor_ok s" and "v \<noteq> -1"
  shows "despachante_get_zona Respondida v (fst (despachante_desasignar_vuelo Respondida v s))
      = (fst (despachante_desasignar_vuelo Respondida v s), Listo (-1))"
proof -
  have "servidor_ok (con_tabla (zonas_desasignar v (tabla s)) s)" using assms(1) by (simp add: servidor_ok_def con_tabla_def)
  from rpc_get_ok [OF this, of Respondida v] show ?thesis
    using assms by (simp add: rpc_desasignar_ok zonas_get_ausente)
qed

text \<open>
  C36. The use of the zones. Each zone is announced free twice, by its robot and by the controller
  that the robot starts, so it is in the pool and in use, together, as often as it was announced, at
  most twice: the pool gives a zone in use, though never to a third flight, and only zones of robots
  that started. The server never fails, whatever calls are lost, and the entry of a zone is the
  flight registered last in it, until the end; so of two flights that share a zone the tower no
  longer sends the first one to its belt. The exception is a flight whose number is that of a zone:
  the robot of that zone, at the end of a load, removes the flight, and the tower answers that it has
  no zone.
\<close>

theorem zonas_repetidas:
  assumes "n < 10" and "alcanzable (\<lambda>s. s = ini_zonas) (paso_zonas n) s"
  shows "(\<forall>z. count (mset (map snd (zcola s))) z + cuantos z (zusos s) = zarranco s z \<and> zarranco s z \<le> 2) \<and>
    (\<forall>z q. pedir_zona (zcola s) = Listo (z, q) \<longrightarrow> 1 \<le> z \<and> z \<le> n \<and> cuantos z (zusos s) \<le> 1) \<and>
    atiende (zserv s) \<and>
    (\<forall>z v. zultimo s z = Some v \<and> \<not> (1 \<le> v \<and> v \<le> n) \<longrightarrow> tabla (zserv s) ! nat (z - 1) = v \<and>
       (\<forall>w. w \<noteq> v \<longrightarrow> despachante_get_zona Respondida w (zserv s) \<noteq> (zserv s, Listo (z - 1)))) \<and>
    (\<forall>v w i serv r. i < length (zusos s) \<and> zusos s ! i = (v, Registrada w) \<and>
       despachante_desasignar_vuelo Respondida v (zserv s) = (serv, r) \<longrightarrow>
       despachante_get_zona Respondida v serv = (serv, Listo (-1)))"
proof -
  have inv: "inv_zonas n s" using zonas.inv_alcanzable [OF assms(2)] assms(1) by simp
  then have pool: "pool_ok n s" and ok: "servidor_ok (zserv s)" and t: "tabla_zonas_ok n s"
    by (auto simp: inv_zonas_def tabla_zonas_ok_def)
  have c: "count (mset (map snd (zcola s))) z + cuantos z (zusos s) = zarranco s z" "zarranco s z \<le> 2" for z
    using pool by (simp_all add: pool_ok_def)
  have p: "1 \<le> z \<and> z \<le> n \<and> cuantos z (zusos s) \<le> 1" if q: "pedir_zona (zcola s) = Listo (z, q)" for z q
  proof -
    obtain x where "zcola s = (x, z) # q" using pedir_ok q by (fastforce simp: pedir_zona_def)
    then show ?thesis using c [of z] pool_pide(2) [OF pool q] by simp
  qed
  have e: "tabla (zserv s) ! nat (z - 1) = v \<and>
      (\<forall>w. w \<noteq> v \<longrightarrow> despachante_get_zona Respondida w (zserv s) \<noteq> (zserv s, Listo (z - 1)))"
    if u: "zultimo s z = Some v" "\<not> (1 \<le> v \<and> v \<le> n)" for z v
  proof -
    have v: "tabla (zserv s) ! nat (z - 1) = v" and "1 \<le> z" using t u by (auto simp: tabla_zonas_ok_def)
    then have "w = v" if "zonas_get w (tabla (zserv s)) = z - 1" for w
      using zonas_get_encuentra [OF that] by simp
    then show ?thesis using v rpc_get_ok [OF ok, of Respondida] by auto
  qed
  have d: "despachante_get_zona Respondida v serv = (serv, Listo (-1))"
    if "i < length (zusos s)" "zusos s ! i = (v, Registrada w)"
      "despachante_desasignar_vuelo Respondida v (zserv s) = (serv, r)" for v w i serv r
  proof -
    have "1 \<le> v" using pool_rango [OF pool, of v "Registrada w"] that(1,2) nth_mem by metis
    then show ?thesis using desasignar_pierde [OF ok, of v] that(3) by simp
  qed
  show ?thesis using c p e d ok unfolding servidor_ok_def by blast
qed

text \<open>The robot of zone 1 and its controller start; flights 17 and 19 both get the zone and register.\<close>

definition servidor_ejemplo :: "zonas \<Rightarrow> servidor_torre" where
  "servidor_ejemplo zs = \<lparr>torre_de = \<lparr>asignaciones = zs, mutex_asignaciones = [1]\<rparr>, atiende = True\<rparr>"

definition estado_zonas :: sis_zonas where
  "estado_zonas = \<lparr>zcola = [], zserv = servidor_ejemplo (19 # replicate 9 (-1)), zarranco = (\<lambda>_. 0)(1 := 2),
     zusos = [(1, Registrada 17), (1, Registrada 19)], zultimo = (\<lambda>_. None)(1 := Some 19)\<rparr>"

lemma servidor_ejemplo_ok [simp]:
  "servidor_ok (servidor_ejemplo zs) = (length zs = 10)" "tabla (servidor_ejemplo zs) = zs"
  "con_tabla xs (servidor_ejemplo zs) = servidor_ejemplo xs"
  by (simp_all add: servidor_ok_def servidor_ejemplo_def con_tabla_def)

lemma estado_zonas_alcanzable: "alcanzable (\<lambda>s. s = ini_zonas) (paso_zonas 4) estado_zonas"
proof -
  let ?R = "alcanzable (\<lambda>s. s = ini_zonas) (paso_zonas 4)" and ?P = "paso_zonas 4"
  let ?t0 = "servidor_ejemplo (replicate 10 (-1))" and ?t1 = "servidor_ejemplo (17 # replicate 9 (-1))"
    and ?t2 = "servidor_ejemplo (19 # replicate 9 (-1))"
  let ?a = "\<lambda>k. (\<lambda>_. 0 :: nat)(1 := k)" and ?u = "\<lambda>v. (\<lambda>_. None :: int option)(1 := Some v)"
  let ?s = "\<lambda>q t a us u. \<lparr>zcola = q, zserv = t, zarranco = a, zusos = us, zultimo = u\<rparr> :: sis_zonas"
  have r10: "replicate 10 (-1 :: int) = -1 # replicate 9 (-1)" by (simp add: numeral_eq_Suc)
  have s0: "ini_zonas = ?s [] ?t0 (\<lambda>_. 0) [] (\<lambda>_. None)"
    by (simp add: ini_zonas_def servidor_ejemplo_def torre_nueva_def ZonasAsignadas_def MAX_ZONAS_def crear_semset_def)
  have p1: "?P ini_zonas (?s [(1, 1)] ?t0 (?a 1) [] (\<lambda>_. None))"
    using t_arranca [of 1 4 ini_zonas "[(1, 1)]"] by (simp add: s0 fin_arranca_def liberar_zona_def liberar_ok)
  have p2: "?P (?s [(1, 1)] ?t0 (?a 1) [] (\<lambda>_. None)) (?s [(1, 1), (1, 1)] ?t0 (?a 2) [] (\<lambda>_. None))"
    using t_arranca [of 1 4 "?s [(1, 1)] ?t0 (?a 1) [] (\<lambda>_. None)" "[(1, 1), (1, 1)]"]
    by (simp add: fin_arranca_def liberar_zona_def liberar_ok numeral_2_eq_2)
  have p3: "?P (?s [(1, 1), (1, 1)] ?t0 (?a 2) [] (\<lambda>_. None)) (?s [(1, 1)] ?t0 (?a 2) [(1, Pedida 17)] (\<lambda>_. None))"
    using t_pide [of "?s [(1, 1), (1, 1)] ?t0 (?a 2) [] (\<lambda>_. None)" 1 "[(1, 1)]" 4 17]
    by (simp add: fin_pide_def pedir_zona_def pedir_def pull_def)
  have p4: "?P (?s [(1, 1)] ?t0 (?a 2) [(1, Pedida 17)] (\<lambda>_. None)) (?s [] ?t0 (?a 2) [(1, Pedida 17), (1, Pedida 19)] (\<lambda>_. None))"
    using t_pide [of "?s [(1, 1)] ?t0 (?a 2) [(1, Pedida 17)] (\<lambda>_. None)" 1 "[]" 4 19]
    by (simp add: fin_pide_def pedir_zona_def pedir_def pull_def)
  have p5: "?P (?s [] ?t0 (?a 2) [(1, Pedida 17), (1, Pedida 19)] (\<lambda>_. None))
      (?s [] ?t1 (?a 2) [(1, Registrada 17), (1, Pedida 19)] (?u 17))"
    using t_registra [of 0 "?s [] ?t0 (?a 2) [(1, Pedida 17), (1, Pedida 19)] (\<lambda>_. None)" 1 17 Respondida ?t1 "Listo ()" 4]
      rpc_asignar_ok [of ?t0 1 Respondida 17]
    by (simp add: fin_registra_def r10)
  have p6: "?P (?s [] ?t1 (?a 2) [(1, Registrada 17), (1, Pedida 19)] (?u 17)) estado_zonas"
    using t_registra [of 1 "?s [] ?t1 (?a 2) [(1, Registrada 17), (1, Pedida 19)] (?u 17)" 1 19 Respondida ?t2 "Listo ()" 4]
      rpc_asignar_ok [of ?t1 1 Respondida 19]
    by (simp add: fin_registra_def estado_zonas_def)
  note a = alcanzable.avance [where paso = "paso_zonas 4"]
  have "?R ini_zonas" by (rule alcanzable.inicio) (rule refl)
  then show ?thesis by (rule a [OF a [OF a [OF a [OF a [OF a [OF _ p1] p2] p3] p4] p5] p6])
qed

theorem zonas_repetidas_witness:
  "cuantos 1 (zusos estado_zonas) = 2 \<and> tabla (zserv estado_zonas) ! 0 = 19 \<and>
   despachante_get_zona Respondida 17 (zserv estado_zonas) \<noteq> (zserv estado_zonas, Listo 0)"
proof -
  have "(4 :: int) < 10" by simp
  note t = zonas_repetidas [OF this estado_zonas_alcanzable]
  have "zultimo estado_zonas 1 = Some 19" by (simp add: estado_zonas_def)
  with t [THEN conjunct2, THEN conjunct2, THEN conjunct2, THEN conjunct1, THEN spec, THEN spec, of 1 19]
  show ?thesis by (auto simp: estado_zonas_def)
qed

end
