(* ===== verification/Carga.thy ===== *)
theory Carga
  imports Zonas Colas CintaContenedor "HOL-Library.List_Lexorder" "HOL-Library.Char_ord" "HOL-Library.Multiset"
begin

text \<open>
  The loading robot of a zone, \<^verbatim>\<open>processes/robot_carga.cpp\<close> with
  \<^verbatim>\<open>api/api_carga.h\<close>: it takes the pieces of a flight from its container belt,
  keeps an open container for each stop-over, and when the check-in closed and all the
  announced pieces arrived it hands the containers to the tractors in blocks of two.
\<close>

section \<open>Containers by stop-over\<close>

text \<open>
  \<^verbatim>\<open>std::map<std::string, Contenedor>\<close> is a list of pairs in the order of the keys;
  \<^verbatim>\<open>operator[]\<close> creates an entry with a new container when there is none.
\<close>

type_synonym por_escala = "(string \<times> contenedor) list"

fun poner_escala :: "string \<Rightarrow> contenedor \<Rightarrow> por_escala \<Rightarrow> por_escala" where
  "poner_escala k c [] = [(k, c)]"
| "poner_escala k c ((k', c') # m) =
     (if k = k' then (k, c) # m
      else if k < k' then (k, c) # (k', c') # m
      else (k', c') # poner_escala k c m)"

definition acceder_escala :: "string \<Rightarrow> por_escala \<Rightarrow> contenedor" where
  "acceder_escala k m = (case map_of m k of None \<Rightarrow> Contenedor | Some c \<Rightarrow> c)"

text \<open>
  The state of the robot: its map, the vector \<^verbatim>\<open>contenedores\<close> of its
  \<^verbatim>\<open>ApiCarga\<close> and the variables of its loop.
\<close>

record carga =
  contenedores_por_escala :: por_escala
  contenedores :: "contenedor list"
  checkin_cerro :: bool
  equipajes_cargados :: int
  equipajes_por_cargar :: int
  numero_de_vuelo :: int

definition agregar_contenedor_cargado :: "contenedor \<Rightarrow> carga \<Rightarrow> carga" where
  "agregar_contenedor_cargado c s = s\<lparr>contenedores := contenedores s @ [c]\<rparr>"

definition abrir_escala :: "string \<Rightarrow> por_escala \<Rightarrow> por_escala" where
  "abrir_escala escala m = (if map_of m escala = None then poner_escala escala Contenedor m else m)"

definition cerrar_lleno :: "equipaje \<Rightarrow> string \<Rightarrow> carga \<Rightarrow> carga" where
  "cerrar_lleno e escala s =
     (let c = acceder_escala escala (contenedores_por_escala s)
      in if hay_lugar e c then s
         else (agregar_contenedor_cargado c s)\<lparr>contenedores_por_escala :=
                 poner_escala escala Contenedor (contenedores_por_escala s)\<rparr>)"

definition agregar_equipaje_carga :: "equipaje \<Rightarrow> carga \<Rightarrow> carga llamada" where
  "agregar_equipaje_carga e s =
     (case get_escala (rfid_de e) of
        Listo escala \<Rightarrow>
          if sint (peso_e e) \<le> MAX_PESO_CONTENEDOR
          then let s1 = s\<lparr>contenedores_por_escala := abrir_escala escala (contenedores_por_escala s)\<rparr>;
                   s2 = cerrar_lleno e escala s1
               in (case agregar_equipaje e (acceder_escala escala (contenedores_por_escala s2)) of
                     Listo c \<Rightarrow> Listo (s2\<lparr>contenedores_por_escala := poner_escala escala c (contenedores_por_escala s2)\<rparr>)
                   | Bloqueado \<Rightarrow> Bloqueado
                   | Fallo f \<Rightarrow> Fallo f)
          else Listo s
      | Bloqueado \<Rightarrow> Bloqueado
      | Fallo f \<Rightarrow> Fallo f)"

section \<open>The loop of a flight\<close>

text \<open>
  What the belt hands to the robot is a list of \<open>extraccion\<close>s; the notice of the close is the
  dummy piece of identifier 0, and from then on \<^verbatim>\<open>checkin_cerrado()\<close> answers true.
  \<open>anunciado\<close> is the number announced with the notice.
\<close>

definition pieza_entregada :: "equipaje extraccion \<Rightarrow> equipaje" where
  "pieza_entregada r = (case r of Pieza e \<Rightarrow> e | _ \<Rightarrow> Equipaje_vacio)"

definition contar_pieza :: "equipaje \<Rightarrow> carga \<Rightarrow> carga llamada" where
  "contar_pieza e s =
     (if rfid_int e \<noteq> 0
      then (case agregar_equipaje_carga e (s\<lparr>numero_de_vuelo := numero_de_vuelo_destino (rfid_de e)\<rparr>) of
              Listo s' \<Rightarrow> Listo (s'\<lparr>equipajes_cargados := equipajes_cargados s' + 1\<rparr>)
            | Bloqueado \<Rightarrow> Bloqueado
            | Fallo f \<Rightarrow> Fallo f)
      else Listo s)"

definition ver_cierre :: "bool \<Rightarrow> int \<Rightarrow> carga \<Rightarrow> carga" where
  "ver_cierre cerrado anunciado s =
     (if \<not> checkin_cerro s \<and> cerrado
      then s\<lparr>checkin_cerro := True, equipajes_por_cargar := anunciado\<rparr> else s)"

definition faltan :: "carga \<Rightarrow> bool" where
  "faltan s \<longleftrightarrow> \<not> checkin_cerro s \<or> equipajes_cargados s < equipajes_por_cargar s"

text \<open>The loop with the deliveries left; \<open>Bloqueado\<close> when the robot waits for another one.\<close>

fun cargar_vuelo :: "int \<Rightarrow> bool \<Rightarrow> equipaje extraccion list \<Rightarrow> carga \<Rightarrow> (carga \<times> equipaje extraccion list) llamada" where
  "cargar_vuelo anunciado ya ds s =
     (if \<not> faltan s then Listo (s, ds)
      else case ds of
             [] \<Rightarrow> Bloqueado
           | d # ds' \<Rightarrow>
               (case contar_pieza (pieza_entregada d) s of
                  Listo s' \<Rightarrow>
                    let ya' = (ya \<or> d = Aviso_cierre)
                    in cargar_vuelo anunciado ya' ds' (ver_cierre ya' anunciado s')
                | Bloqueado \<Rightarrow> Bloqueado
                | Fallo f \<Rightarrow> Fallo f))"

definition comenzar_vuelo :: "carga \<Rightarrow> carga" where
  "comenzar_vuelo s = s\<lparr>checkin_cerro := False, equipajes_cargados := 0, equipajes_por_cargar := 0\<rparr>"

text \<open>After the loop the open containers are added in the order of their keys.\<close>

definition cerrar_escalas :: "carga \<Rightarrow> carga" where
  "cerrar_escalas s = fold (\<lambda>kc. agregar_contenedor_cargado (snd kc)) (contenedores_por_escala s) s"

section \<open>Blocks for the tractors\<close>

record bloque_contenedores =
  cantidad_total_contenedores :: int
  vuelo_destino :: int
  contenedores_actual :: int
  contenedores_b :: "contenedor list"

definition MAX_CONTENEDORES_POR_TRACTOR :: nat where "MAX_CONTENEDORES_POR_TRACTOR = 2"
definition ID_ESCUCHA_TRACTOR :: int where "ID_ESCUCHA_TRACTOR = 1"

text \<open>
  \<^verbatim>\<open>contenedores[k]\<close> of a vector is not checked; \<open>fuera\<close> is what lies behind its
  end, \<open>None\<close> when the access kills the process.
\<close>

definition leer_vector :: "contenedor option \<Rightarrow> contenedor list \<Rightarrow> nat \<Rightarrow> contenedor llamada" where
  "leer_vector fuera cs k =
     (if k < length cs then Listo (cs ! k) else case fuera of Some c \<Rightarrow> Listo c | None \<Rightarrow> Fallo Fuera_de_rango)"

fun armar_bloque :: "contenedor option \<Rightarrow> contenedor list \<Rightarrow> nat \<Rightarrow> nat \<Rightarrow> contenedor list llamada" where
  "armar_bloque fuera cs k 0 = Listo []"
| "armar_bloque fuera cs k (Suc n) =
     (case leer_vector fuera cs k of
        Listo c \<Rightarrow> (case armar_bloque fuera cs (Suc k) n of Listo b \<Rightarrow> Listo (c # b) | r \<Rightarrow> r)
      | Bloqueado \<Rightarrow> Bloqueado
      | Fallo f \<Rightarrow> Fallo f)"

text \<open>
  The loop on \<^verbatim>\<open>i\<close> with \<open>n\<close> blocks left: the queue it leaves, and the
  exception that ended it, if any.
\<close>

fun enviar_bloques_tractor :: "contenedor option \<Rightarrow> contenedor list \<Rightarrow> int \<Rightarrow> nat \<Rightarrow> nat \<Rightarrow> bloque_contenedores cola
    \<Rightarrow> bloque_contenedores cola \<times> falla option" where
  "enviar_bloques_tractor fuera cs vuelo i 0 q = (q, None)"
| "enviar_bloques_tractor fuera cs vuelo i (Suc n) q =
     (case armar_bloque fuera cs (i * MAX_CONTENEDORES_POR_TRACTOR) MAX_CONTENEDORES_POR_TRACTOR of
        Listo b \<Rightarrow>
          (case push ID_ESCUCHA_TRACTOR
                 \<lparr>cantidad_total_contenedores = int (length cs), vuelo_destino = vuelo,
                  contenedores_actual = int (length b), contenedores_b = b\<rparr> q of
             Listo q' \<Rightarrow> enviar_bloques_tractor fuera cs vuelo (Suc i) n q'
           | Bloqueado \<Rightarrow> (q, None)
           | Fallo f \<Rightarrow> (q, Some f))
      | Bloqueado \<Rightarrow> (q, None)
      | Fallo f \<Rightarrow> (q, Some f))"

definition cant_bloques :: "nat \<Rightarrow> nat" where
  "cant_bloques anunciado =
     (let n = anunciado div MAX_CONTENEDORES_POR_TRACTOR
      in if anunciado > n * MAX_CONTENEDORES_POR_TRACTOR then n + 1 else n)"

definition enviar_contenedores_a_avion ::
    "contenedor option \<Rightarrow> int \<Rightarrow> carga \<Rightarrow> bloque_contenedores cola \<Rightarrow> carga \<times> bloque_contenedores cola \<times> falla option" where
  "enviar_contenedores_a_avion fuera vuelo s q =
     (case enviar_bloques_tractor fuera (contenedores s) vuelo 0 (cant_bloques (length (contenedores s))) q of
        (q', None) \<Rightarrow> (s\<lparr>contenedores := []\<rparr>, q', None)
      | (q', Some f) \<Rightarrow> (s, q', Some f))"

text \<open>
  A whole turn of the robot of zone \<open>id\<close>: the pieces of a flight, the call to the tower (with
  its zone as the flight), the rest of the containers, the blocks, the zone back to the pool. What
  is left is to reset its belt, \<open>comenzar_nueva_carga\<close>. The result is what the turn leaves
  behind, with the exception that ended the process, if any.
\<close>

record turno_carga =
  rt_carga :: carga
  rt_resto :: "equipaje extraccion list"
  rt_cola :: "bloque_contenedores cola"
  rt_torre :: servidor_torre
  rt_zonas :: "int cola"
  rt_falla :: "falla option"

definition turno_robot_carga ::
    "entrega_rpc \<Rightarrow> contenedor option \<Rightarrow> int \<Rightarrow> int \<Rightarrow> equipaje extraccion list \<Rightarrow> carga
       \<Rightarrow> bloque_contenedores cola \<Rightarrow> servidor_torre \<Rightarrow> int cola \<Rightarrow> turno_carga llamada" where
  "turno_robot_carga red fuera id_robot anunciado ds s q serv zs =
     (case cargar_vuelo anunciado False ds (comenzar_vuelo s) of
        Listo (s1, ds') \<Rightarrow>
          (let fin = (\<lambda>s q serv zs f. Listo \<lparr>rt_carga = s, rt_resto = ds', rt_cola = q, rt_torre = serv,
                       rt_zonas = zs, rt_falla = f\<rparr>)
           in case despachante_desasignar_vuelo red id_robot serv of
                (serv', Listo u) \<Rightarrow>
                  (case enviar_contenedores_a_avion fuera (numero_de_vuelo s1) (cerrar_escalas s1) q of
                     (s2, q', None) \<Rightarrow>
                       (let s3 = s2\<lparr>contenedores_por_escala := []\<rparr>
                        in case liberar_zona id_robot zs of
                             Listo zs' \<Rightarrow> fin s3 q' serv' zs' None
                           | Bloqueado \<Rightarrow> Bloqueado
                           | Fallo f \<Rightarrow> fin s3 q' serv' zs (Some f))
                   | (s2, q', Some f) \<Rightarrow> fin s2 q' serv' zs (Some f))
              | (serv', Bloqueado) \<Rightarrow> Bloqueado
              | (serv', Fallo f) \<Rightarrow> fin s1 q serv' zs (Some f))
      | Bloqueado \<Rightarrow> Bloqueado
      | Fallo f \<Rightarrow> Fallo f)"

definition robot_carga_nuevo :: "int \<Rightarrow> carga" where
  "robot_carga_nuevo basura = \<lparr>contenedores_por_escala = [], contenedores = [], checkin_cerro = False,
     equipajes_cargados = 0, equipajes_por_cargar = 0, numero_de_vuelo = basura\<rparr>"

section \<open>The map of stop-overs\<close>

definition ordenado :: "por_escala \<Rightarrow> bool" where
  "ordenado m \<longleftrightarrow> sorted_wrt (<) (map fst m)"

definition equipajes_de :: "por_escala \<Rightarrow> equipaje multiset" where
  "equipajes_de m = mset (concat (map (\<lambda>kc. carga_de (snd kc)) m))"

lemma equipajes_de_simps [simp]:
  "equipajes_de [] = {#}"
  "equipajes_de ((k, c) # m) = mset (carga_de c) + equipajes_de m"
  by (simp_all add: equipajes_de_def)

lemma map_of_menor: "ordenado ((k', c') # m) \<Longrightarrow> k < k' \<Longrightarrow> map_of m k = None"
  by (auto simp: ordenado_def map_of_eq_None_iff dest: order.strict_trans)

lemma keys_poner: "fst ` set (poner_escala k c m) = insert k (fst ` set m)"
  by (induction k c m rule: poner_escala.induct) auto

lemma ordenado_poner: "ordenado m \<Longrightarrow> ordenado (poner_escala k c m)"
proof (induction k c m rule: poner_escala.induct)
  case (2 k c k' c' m)
  show ?case
  proof (cases "k = k' \<or> k < k'")
    case True
    then show ?thesis using 2(2) by (auto simp: ordenado_def dest: order.strict_trans)
  next
    case False
    then have "ordenado (poner_escala k c m)" using 2 by (auto simp: ordenado_def)
    moreover have "\<forall>x \<in> fst ` set (poner_escala k c m). k' < x"
      using False 2(2) unfolding keys_poner by (auto simp: ordenado_def)
    ultimately show ?thesis using False by (auto simp: ordenado_def)
  qed
qed (simp add: ordenado_def)

lemma map_of_poner: "ordenado m \<Longrightarrow> map_of (poner_escala k c m) = (map_of m)(k \<mapsto> c)"
proof (induction k c m rule: poner_escala.induct)
  case (2 k c k' c' m)
  then show ?case by (auto simp: ordenado_def fun_eq_iff)
qed simp

lemma set_poner:
  "ordenado m \<Longrightarrow> p \<in> set (poner_escala k c m) \<Longrightarrow> p = (k, c) \<or> p \<in> set m"
  by (induction k c m rule: poner_escala.induct) (auto simp: ordenado_def split: if_splits)

lemma equipajes_de_poner:
  "ordenado m \<Longrightarrow>
     equipajes_de (poner_escala k c m) + mset (carga_de (acceder_escala k m)) = equipajes_de m + mset (carga_de c)"
proof (induction k c m rule: poner_escala.induct)
  case (2 k c k' c' m)
  have "map_of m k = None" if "k < k'" using map_of_menor [OF 2(2) that] .
  then show ?case using 2 by (auto simp: acceder_escala_def ordenado_def ac_simps)
qed (simp add: acceder_escala_def)

lemma acceder_poner [simp]: "ordenado m \<Longrightarrow> acceder_escala k (poner_escala k c m) = c"
  by (simp add: acceder_escala_def map_of_poner)

lemma abrir_escala_ok:
  assumes "ordenado m"
  shows "ordenado (abrir_escala k m)" and "equipajes_de (abrir_escala k m) = equipajes_de m"
    and "acceder_escala k (abrir_escala k m) = acceder_escala k m"
    and "p \<in> set (abrir_escala k m) \<Longrightarrow> p = (k, Contenedor) \<or> p \<in> set m"
  using assms ordenado_poner [OF assms] equipajes_de_poner [OF assms, of k Contenedor] set_poner [OF assms]
  by (auto simp: abrir_escala_def acceder_escala_def map_of_poner split: if_splits)

section \<open>Loading a piece\<close>

text \<open>
  Every container is well formed and carries pieces of one stop-over, an open one those of its
  key. \<open>cargados_en\<close> is all the luggage the robot holds.
\<close>

definition de_escala :: "string \<Rightarrow> contenedor \<Rightarrow> bool" where
  "de_escala k c \<longleftrightarrow> contenedor_ok c \<and> (\<forall>e \<in> set (carga_de c). get_escala (rfid_de e) = Listo k)"

definition carga_ok :: "carga \<Rightarrow> bool" where
  "carga_ok s \<longleftrightarrow>
     ordenado (contenedores_por_escala s) \<and>
     (\<forall>(k, c) \<in> set (contenedores_por_escala s). de_escala k c) \<and>
     (\<forall>c \<in> set (contenedores s). \<exists>k. de_escala k c)"

definition cargados_en :: "carga \<Rightarrow> equipaje multiset" where
  "cargados_en s = mset (concat (map carga_de (contenedores s))) + equipajes_de (contenedores_por_escala s)"

lemma de_escala_nuevo [simp]: "de_escala k Contenedor"
  by (simp add: de_escala_def)

lemma acceder_ok: "carga_ok s \<Longrightarrow> de_escala k (acceder_escala k (contenedores_por_escala s))"
  by (auto simp: acceder_escala_def carga_ok_def split: option.split dest!: map_of_SomeD)

text \<open>The fields of the loop, which the containers do not touch.\<close>

definition lazo :: "carga \<Rightarrow> bool \<times> int \<times> int \<times> int" where
  "lazo s = (checkin_cerro s, equipajes_cargados s, equipajes_por_cargar s, numero_de_vuelo s)"

lemma carga_ok_poner:
  assumes "carga_ok s" and "de_escala k c"
  shows "carga_ok (s\<lparr>contenedores_por_escala := poner_escala k c (contenedores_por_escala s)\<rparr>)"
  using assms set_poner by (auto simp: carga_ok_def ordenado_poner dest!: set_poner [rotated])

lemma cerrar_lleno_ok:
  assumes ok: "carga_ok s"
  shows "carga_ok (cerrar_lleno e k s)" and "cargados_en (cerrar_lleno e k s) = cargados_en s"
    and "sint (peso_e e) \<le> 3000 \<Longrightarrow> hay_lugar e (acceder_escala k (contenedores_por_escala (cerrar_lleno e k s)))"
    and "lazo (cerrar_lleno e k s) = lazo s"
proof -
  let ?m = "contenedores_por_escala s"
  have ord: "ordenado ?m" using ok by (simp add: carga_ok_def)
  have c: "de_escala k (acceder_escala k ?m)" by (rule acceder_ok [OF ok])
  have "carga_ok (agregar_contenedor_cargado (acceder_escala k ?m) s)"
    using ok c by (auto simp: carga_ok_def agregar_contenedor_cargado_def)
  from carga_ok_poner [OF this de_escala_nuevo] ok show "carga_ok (cerrar_lleno e k s)"
    by (auto simp: cerrar_lleno_def Let_def agregar_contenedor_cargado_def)
  show "cargados_en (cerrar_lleno e k s) = cargados_en s"
    using equipajes_de_poner [OF ord, of k Contenedor]
    by (auto simp: cerrar_lleno_def Let_def cargados_en_def agregar_contenedor_cargado_def ac_simps)
  show "sint (peso_e e) \<le> 3000 \<Longrightarrow> hay_lugar e (acceder_escala k (contenedores_por_escala (cerrar_lleno e k s)))"
    using ord by (auto simp: cerrar_lleno_def Let_def agregar_contenedor_cargado_def hay_lugar_ok)
  show "lazo (cerrar_lleno e k s) = lazo s"
    by (auto simp: cerrar_lleno_def Let_def agregar_contenedor_cargado_def lazo_def)
qed

lemma agregar_equipaje_carga_ok:
  assumes ok: "carga_ok s" and k: "get_escala (rfid_de e) = Listo k"
  shows "\<exists>s'. agregar_equipaje_carga e s = Listo s' \<and> carga_ok s' \<and> lazo s' = lazo s \<and>
      cargados_en s' = cargados_en s + (if sint (peso_e e) \<le> 3000 then {#e#} else {#})"
proof (cases "sint (peso_e e) \<le> 3000")
  case False
  then show ?thesis using ok k by (simp add: agregar_equipaje_carga_def MAX_PESO_CONTENEDOR_def)
next
  case True
  let ?m = "contenedores_por_escala s"
  have ord: "ordenado ?m" using ok by (simp add: carga_ok_def)
  define s1 where "s1 = s\<lparr>contenedores_por_escala := abrir_escala k ?m\<rparr>"
  define s2 where "s2 = cerrar_lleno e k s1"
  have "\<forall>(a, b) \<in> set (abrir_escala k ?m). de_escala a b"
    using abrir_escala_ok(4) [OF ord] ok by (fastforce simp: carga_ok_def)
  then have s1: "carga_ok s1" "cargados_en s1 = cargados_en s" "lazo s1 = lazo s"
    using ok abrir_escala_ok(1,2) [OF ord] by (simp_all add: s1_def carga_ok_def cargados_en_def lazo_def)
  note s2 = cerrar_lleno_ok [OF s1(1), of e k, folded s2_def]
  let ?c = "acceder_escala k (contenedores_por_escala s2)"
  have c: "de_escala k ?c" by (rule acceder_ok [OF s2(1)])
  then obtain c' where c': "agregar_equipaje e ?c = Listo c'" "contenedor_ok c'" "carga_de c' = carga_de ?c @ [e]"
    using agregar_ok [of ?c e] s2(3) True by (auto simp: de_escala_def)
  let ?s = "s2\<lparr>contenedores_por_escala := poner_escala k c' (contenedores_por_escala s2)\<rparr>"
  have "de_escala k c'" using c c' k by (auto simp: de_escala_def)
  then have "carga_ok ?s" by (rule carga_ok_poner [OF s2(1)])
  moreover have "cargados_en ?s = cargados_en s + {#e#}"
  proof -
    have "ordenado (contenedores_por_escala s2)" using s2(1) by (simp add: carga_ok_def)
    from equipajes_de_poner [OF this, of k c'] c'(3)
    have "equipajes_de (poner_escala k c' (contenedores_por_escala s2)) = equipajes_de (contenedores_por_escala s2) + {#e#}"
      by simp
    then show ?thesis using s1(2) s2(2) by (simp add: cargados_en_def)
  qed
  moreover have "agregar_equipaje_carga e s = Listo ?s"
    using True k c'(1) by (simp add: agregar_equipaje_carga_def MAX_PESO_CONTENEDOR_def Let_def s1_def [symmetric] s2_def [symmetric])
  moreover have "lazo ?s = lazo s" using s1(3) s2(4) by (simp add: lazo_def)
  ultimately show ?thesis using True by auto
qed

section \<open>The loop\<close>

text \<open>The pieces that count among the deliveries: a piece of identifier 0 is taken for the notice.\<close>

definition reales :: "equipaje extraccion list \<Rightarrow> equipaje list" where
  "reales ds = filter (\<lambda>e. rfid_int e \<noteq> 0) (piezas ds)"

definition completo :: "int \<Rightarrow> equipaje extraccion list \<Rightarrow> bool" where
  "completo n ds \<longleftrightarrow> Aviso_cierre \<in> set ds \<and> n \<le> int (length (reales ds))"

definition legibles :: "equipaje extraccion list \<Rightarrow> bool" where
  "legibles ds \<longleftrightarrow> (\<forall>e \<in> set (reales ds). \<exists>k. get_escala (rfid_de e) = Listo k)"

definition livianos :: "equipaje list \<Rightarrow> equipaje list" where
  "livianos = filter (\<lambda>e. sint (peso_e e) \<le> 3000)"

lemma reales_simps [simp]:
  "reales [] = []" "reales (xs @ ys) = reales xs @ reales ys"
  "reales (d # ds) = (if rfid_int (pieza_entregada d) \<noteq> 0 then [pieza_entregada d] else []) @ reales ds"
  by (auto simp: reales_def piezas_def pieza_entregada_def Equipaje_vacio_def Rfid_def rfid_int_def
      split: extraccion.split)

lemma completo_mono: "completo n xs \<Longrightarrow> completo n (xs @ ys)"
  by (auto simp: completo_def)

text \<open>The state of the loop after the deliveries \<open>p\<close> of a flight that began in \<open>s0\<close>.\<close>

definition tras :: "int \<Rightarrow> carga \<Rightarrow> equipaje extraccion list \<Rightarrow> carga \<Rightarrow> bool" where
  "tras n s0 p s \<longleftrightarrow> carga_ok s \<and> cargados_en s = cargados_en s0 + mset (livianos (reales p)) \<and>
     lazo s = (Aviso_cierre \<in> set p, int (length (reales p)),
               if Aviso_cierre \<in> set p then n else 0,
               if reales p = [] then numero_de_vuelo s0 else numero_de_vuelo_destino (rfid_de (last (reales p))))"

lemma tras_faltan: "tras n s0 p s \<Longrightarrow> faltan s = (\<not> completo n p)"
  by (auto simp: tras_def faltan_def completo_def lazo_def)

lemma lazo_ver_cierre:
  "carga_ok (ver_cierre b n s) = carga_ok s" "cargados_en (ver_cierre b n s) = cargados_en s"
  "lazo (ver_cierre b n s) = (case lazo s of (c, k, t, v) \<Rightarrow> (c \<or> b, k, if \<not> c \<and> b then n else t, v))"
  "lazo (s\<lparr>equipajes_cargados := x\<rparr>) = (case lazo s of (c, k, t, v) \<Rightarrow> (c, x, t, v))"
  "lazo (s\<lparr>numero_de_vuelo := x\<rparr>) = (case lazo s of (c, k, t, v) \<Rightarrow> (c, k, t, x))"
  by (auto simp: ver_cierre_def carga_ok_def cargados_en_def lazo_def)

lemma tras_paso:
  assumes t: "tras n s0 p s" and leg: "legibles [d]"
  shows "\<exists>s'. contar_pieza (pieza_entregada d) s = Listo s' \<and>
      tras n s0 (p @ [d]) (ver_cierre (Aviso_cierre \<in> set (p @ [d])) n s')"
proof (cases "rfid_int (pieza_entregada d) = 0")
  case True
  then show ?thesis using t by (auto simp: contar_pieza_def tras_def lazo_ver_cierre)
next
  case False
  let ?e = "pieza_entregada d" and ?s = "s\<lparr>numero_de_vuelo := numero_de_vuelo_destino (rfid_de (pieza_entregada d))\<rparr>"
  have d: "d \<noteq> Aviso_cierre" using False
    by (auto simp: pieza_entregada_def Equipaje_vacio_def Rfid_def rfid_int_def)
  obtain k where k: "get_escala (rfid_de ?e) = Listo k" using leg False by (auto simp: legibles_def)
  have "carga_ok ?s" "cargados_en ?s = cargados_en s" using t by (auto simp: tras_def carga_ok_def cargados_en_def)
  with agregar_equipaje_carga_ok [OF this(1) k] obtain s' where s': "agregar_equipaje_carga ?e ?s = Listo s'"
    "carga_ok s'" "lazo s' = lazo ?s"
    "cargados_en s' = cargados_en s + (if sint (peso_e ?e) \<le> 3000 then {#?e#} else {#})" by auto
  let ?t = "s'\<lparr>equipajes_cargados := equipajes_cargados s' + 1\<rparr>"
  have "contar_pieza ?e s = Listo ?t" using False s'(1) by (simp add: contar_pieza_def)
  moreover have "carga_ok ?t" "cargados_en ?t = cargados_en s'"
    using s'(2) by (auto simp: carga_ok_def cargados_en_def)
  moreover have "equipajes_cargados s' = fst (snd (lazo s'))" by (simp add: lazo_def)
  ultimately show ?thesis
    using t s'(3,4) False d by (auto simp: tras_def lazo_ver_cierre livianos_def)
qed

lemma legibles_Cons: "legibles (d # ds) = (legibles [d] \<and> legibles ds)"
  by (auto simp: legibles_def)

declare cargar_vuelo.simps [simp del]

lemma cargar_vuelo_fin: "\<not> faltan s \<Longrightarrow> cargar_vuelo n ya ds s = Listo (s, ds)"
  by (simp add: cargar_vuelo.simps)

lemma cargar_vuelo_vacia: "faltan s \<Longrightarrow> cargar_vuelo n ya [] s = Bloqueado"
  by (simp add: cargar_vuelo.simps)

lemma cargar_vuelo_paso:
  assumes "faltan s" and "contar_pieza (pieza_entregada d) s = Listo s'"
  shows "cargar_vuelo n (Aviso_cierre \<in> set p) (d # ds) s =
      cargar_vuelo n (Aviso_cierre \<in> set (p @ [d])) ds (ver_cierre (Aviso_cierre \<in> set (p @ [d])) n s')"
proof -
  have "(Aviso_cierre \<in> set p \<or> d = Aviso_cierre) = (Aviso_cierre \<in> set (p @ [d]))" by auto
  then show ?thesis using assms by (subst cargar_vuelo.simps) (simp only: Let_def if_False if_True list.case llamada.case not_True_eq_False)
qed

lemma cargar_vuelo_corta:
  "tras n s0 p s \<Longrightarrow> legibles ds \<Longrightarrow> completo n (p @ ds) \<Longrightarrow> \<not> completo n (butlast (p @ ds)) \<or> ds = [] \<Longrightarrow>
     \<exists>s'. cargar_vuelo n (Aviso_cierre \<in> set p) (ds @ rest) s = Listo (s', rest) \<and> tras n s0 (p @ ds) s'"
proof (induction ds arbitrary: p s)
  case Nil
  then show ?case using tras_faltan [OF Nil(1)] cargar_vuelo_fin by fastforce
next
  case (Cons d ds)
  have "\<not> completo n p"
    using Cons.prems(4) completo_mono [of n p "butlast (d # ds)"] by (auto simp: butlast_append)
  then have f: "faltan s" using tras_faltan [OF Cons.prems(1)] by simp
  obtain s' where s': "contar_pieza (pieza_entregada d) s = Listo s'"
    "tras n s0 (p @ [d]) (ver_cierre (Aviso_cierre \<in> set (p @ [d])) n s')"
    using tras_paso [OF Cons.prems(1)] Cons.prems(2) legibles_Cons [of d ds] by blast
  have "legibles ds" "completo n ((p @ [d]) @ ds)" "\<not> completo n (butlast ((p @ [d]) @ ds)) \<or> ds = []"
    using Cons.prems legibles_Cons [of d ds] by simp_all
  from Cons.IH [OF s'(2) this] cargar_vuelo_paso [OF f s'(1)] show ?case by simp
qed

lemma cargar_vuelo_espera:
  "tras n s0 p s \<Longrightarrow> legibles ds \<Longrightarrow> \<not> completo n (p @ ds) \<Longrightarrow>
     cargar_vuelo n (Aviso_cierre \<in> set p) ds s = Bloqueado"
proof (induction ds arbitrary: p s)
  case Nil
  then show ?case using tras_faltan [OF Nil(1)] cargar_vuelo_vacia by simp
next
  case (Cons d ds)
  have "\<not> completo n p" using Cons.prems(3) completo_mono by blast
  then have f: "faltan s" using tras_faltan [OF Cons.prems(1)] by simp
  obtain s' where s': "contar_pieza (pieza_entregada d) s = Listo s'"
    "tras n s0 (p @ [d]) (ver_cierre (Aviso_cierre \<in> set (p @ [d])) n s')"
    using tras_paso [OF Cons.prems(1)] Cons.prems(2) legibles_Cons [of d ds] by blast
  have "legibles ds" "\<not> completo n ((p @ [d]) @ ds)"
    using Cons.prems legibles_Cons [of d ds] by simp_all
  from Cons.IH [OF s'(2) this] cargar_vuelo_paso [OF f s'(1)] show ?case by simp
qed

section \<open>The blocks sent\<close>

fun en_bloques :: "int \<Rightarrow> int \<Rightarrow> contenedor list \<Rightarrow> bloque_contenedores cola" where
  "en_bloques t v (a # b # cs) =
     (1, \<lparr>cantidad_total_contenedores = t, vuelo_destino = v, contenedores_actual = 2, contenedores_b = [a, b]\<rparr>)
       # en_bloques t v cs"
| "en_bloques t v [a] = []"
| "en_bloques t v [] = []"

text \<open>The containers that leave: those of the vector, and what lies behind it when they are odd.\<close>

definition relleno :: "contenedor option \<Rightarrow> contenedor list \<Rightarrow> contenedor list" where
  "relleno fuera cs = cs @ (if even (length cs) then [] else case fuera of None \<Rightarrow> [] | Some f \<Rightarrow> [f])"

lemma leer_relleno: "k < length (relleno fuera cs) \<Longrightarrow> leer_vector fuera cs k = Listo (relleno fuera cs ! k)"
  by (auto simp: leer_vector_def relleno_def nth_append split: if_splits option.splits)

lemma armar_bloque_ok:
  assumes "Suc (2 * i) < length (relleno fuera cs)"
  shows "armar_bloque fuera cs (i * MAX_CONTENEDORES_POR_TRACTOR) MAX_CONTENEDORES_POR_TRACTOR
      = Listo [relleno fuera cs ! (2 * i), relleno fuera cs ! Suc (2 * i)]"
  using leer_relleno [of _ fuera cs] assms
  by (simp add: MAX_CONTENEDORES_POR_TRACTOR_def numeral_2_eq_2 mult.commute)

text \<open>
  When the read behind the vector works, all the blocks go out; when it does not, the last one,
  which has a single container, stays behind.
\<close>

lemma enviar_bloques_tractor_ok:
  assumes "length (relleno fuera cs) = 2 * (i + n) \<and> e = None \<or>
           length (relleno fuera cs) + 1 = 2 * (i + n) \<and> 0 < n \<and> fuera = None \<and> e = Some Fuera_de_rango"
  shows "enviar_bloques_tractor fuera cs v i n q = (q @ en_bloques (int (length cs)) v (drop (2 * i) (relleno fuera cs)), e)"
  using assms
proof (induction n arbitrary: i q)
  case 0
  then show ?case by simp
next
  case (Suc n)
  let ?r = "relleno fuera cs"
  show ?case
  proof (cases "Suc (2 * i) < length ?r")
    case True
    then have "drop (2 * i) ?r = ?r ! (2 * i) # ?r ! Suc (2 * i) # drop (2 * Suc i) ?r"
      by (simp add: Cons_nth_drop_Suc)
    moreover have "enviar_bloques_tractor fuera cs v (Suc i) n p =
        (p @ en_bloques (int (length cs)) v (drop (2 * Suc i) ?r), e)" for p
      by (rule Suc.IH) (use Suc.prems True in auto)
    ultimately show ?thesis using armar_bloque_ok [OF True] by (simp add: push_def ID_ESCUCHA_TRACTOR_def)
  next
    case False
    then have e: "length ?r = Suc (2 * i)" "fuera = None" "e = Some Fuera_de_rango" using Suc.prems by auto
    then have "length cs = Suc (2 * i)" by (auto simp: relleno_def split: if_splits)
    moreover have "drop (2 * i) ?r = [?r ! (2 * i)]" using e(1) by (simp add: Cons_nth_drop_Suc [symmetric])
    ultimately show ?thesis using e
      by (simp add: leer_vector_def MAX_CONTENEDORES_POR_TRACTOR_def numeral_2_eq_2 mult.commute)
  qed
qed

text \<open>The containers of the whole blocks.\<close>

definition salen :: "contenedor option \<Rightarrow> contenedor list \<Rightarrow> contenedor list" where
  "salen fuera cs = take (2 * (length (relleno fuera cs) div 2)) (relleno fuera cs)"

lemma cant_bloques_eq: "cant_bloques n = (n + 1) div 2"
  by (auto simp: cant_bloques_def Let_def MAX_CONTENEDORES_POR_TRACTOR_def)

definition muere :: "contenedor option \<Rightarrow> contenedor list \<Rightarrow> bool" where
  "muere fuera cs \<longleftrightarrow> odd (length cs) \<and> fuera = None"

lemma enviar_contenedores_ok:
  "enviar_contenedores_a_avion fuera v s q =
    (if muere fuera (contenedores s) then s else s\<lparr>contenedores := []\<rparr>,
     q @ en_bloques (int (length (contenedores s))) v (relleno fuera (contenedores s)),
     if muere fuera (contenedores s) then Some Fuera_de_rango else None)"
proof -
  let ?cs = "contenedores s" and ?e = "if muere fuera (contenedores s) then Some Fuera_de_rango else None"
  have "length (relleno fuera ?cs) = 2 * (0 + cant_bloques (length ?cs)) \<and> ?e = None \<or>
      length (relleno fuera ?cs) + 1 = 2 * (0 + cant_bloques (length ?cs)) \<and> 0 < cant_bloques (length ?cs) \<and>
      fuera = None \<and> ?e = Some Fuera_de_rango"
    by (auto simp: relleno_def cant_bloques_eq muere_def elim!: oddE split: option.splits)
  from enviar_bloques_tractor_ok [OF this] show ?thesis by (simp add: enviar_contenedores_a_avion_def)
qed

section \<open>A whole flight\<close>

lemma cerrar_escalas_eq:
  "cerrar_escalas s = s\<lparr>contenedores := contenedores s @ map snd (contenedores_por_escala s)\<rparr>"
proof -
  have "fold (\<lambda>kc. agregar_contenedor_cargado (snd kc)) m s = s\<lparr>contenedores := contenedores s @ map snd m\<rparr>" for m s
    by (induction m arbitrary: s) (simp_all add: agregar_contenedor_cargado_def)
  then show ?thesis by (simp add: cerrar_escalas_def)
qed

lemma tras_comenzar:
  "carga_ok s \<Longrightarrow> tras n s [] (comenzar_vuelo s)"
  by (simp add: tras_def comenzar_vuelo_def carga_ok_def cargados_en_def lazo_def livianos_def)

lemma turno_tras_lazo:
  assumes ok: "servidor_ok serv" and l: "cargar_vuelo n False ds (comenzar_vuelo s) = Listo (s1, rest)"
    and cs: "cs = contenedores s1 @ map snd (contenedores_por_escala s1)"
  shows "\<exists>r. turno_robot_carga red fuera z n ds s q serv zs = Listo r \<and> rt_resto r = rest \<and>
    rt_falla r = (if red \<noteq> Respondida then Some GenericError
                  else if odd (length cs) \<and> fuera = None then Some Fuera_de_rango else None) \<and>
    rt_cola r = q @ (if red = Respondida then en_bloques (int (length cs)) (numero_de_vuelo s1) (relleno fuera cs) else []) \<and>
    rt_zonas r = zs @ (if rt_falla r = None then [(1, z)] else []) \<and>
    (rt_falla r = None \<longrightarrow> contenedores_por_escala (rt_carga r) = [] \<and> contenedores (rt_carga r) = [])"
proof -
  note d = rpc_desasignar_ok [OF ok, of red z]
  have e: "enviar_contenedores_a_avion fuera v (cerrar_escalas s1) q =
      (if muere fuera cs then s1\<lparr>contenedores := cs\<rparr> else s1\<lparr>contenedores := []\<rparr>,
       q @ en_bloques (int (length cs)) v (relleno fuera cs), if muere fuera cs then Some Fuera_de_rango else None)" for v
    by (simp add: enviar_contenedores_ok cerrar_escalas_eq cs)
  show ?thesis
  proof (cases "red = Respondida")
    case False
    then show ?thesis using l d by (simp add: turno_robot_carga_def Let_def)
  next
    case red: True
    show ?thesis
    proof (cases "muere fuera cs")
      case True
      then show ?thesis using l d e red by (simp add: turno_robot_carga_def Let_def muere_def)
    next
      case False
      then show ?thesis using l d e red
        by (auto simp: turno_robot_carga_def Let_def muere_def liberar_zona_def liberar_ok)
    qed
  qed
qed

text \<open>
  C38. The load of a flight. The robot, free of containers, is given the deliveries of its belt.
  While the notice of the close or one of the announced pieces is missing it waits for more. When
  they are complete it stops at once, and it has containers that are well formed and carry one
  stop-over each, with all the pieces of at most 3000 and nothing else; the heavier ones count but
  are left out. If the tower does not answer it dies with them. If it answers, the containers go in
  blocks of two with the flight of the last piece: when their number is odd the last block also
  carries what lies behind the vector, or the process dies on that read with the whole blocks
  already queued and its zone never given back.
\<close>

theorem carga_completa:
  assumes libre: "contenedores_por_escala s = []" "contenedores s = []" and leg: "legibles ds"
    and ok: "servidor_ok serv"
  shows "(\<not> completo n ds \<longrightarrow> turno_robot_carga red fuera z n ds s q serv zs = Bloqueado) \<and>
    (completo n ds \<and> \<not> completo n (butlast ds) \<longrightarrow>
      (\<exists>cs v r. (\<forall>c \<in> set cs. \<exists>k. de_escala k c) \<and>
        mset (concat (map carga_de cs)) = mset (livianos (reales ds)) \<and>
        (reales ds \<noteq> [] \<longrightarrow> v = numero_de_vuelo_destino (rfid_de (last (reales ds)))) \<and>
        turno_robot_carga red fuera z n (ds @ rest) s q serv zs = Listo r \<and> rt_resto r = rest \<and>
        rt_falla r = (if red \<noteq> Respondida then Some GenericError
                      else if odd (length cs) \<and> fuera = None then Some Fuera_de_rango else None) \<and>
        rt_cola r = q @ (if red = Respondida then en_bloques (int (length cs)) v (relleno fuera cs) else []) \<and>
        rt_zonas r = zs @ (if rt_falla r = None then [(1, z)] else []) \<and>
        (rt_falla r = None \<longrightarrow> contenedores_por_escala (rt_carga r) = [] \<and> contenedores (rt_carga r) = [])))"
proof (intro conjI impI)
  have ini: "tras n s [] (comenzar_vuelo s)"
    by (rule tras_comenzar) (simp add: carga_ok_def ordenado_def libre)
  show "turno_robot_carga red fuera z n ds s q serv zs = Bloqueado" if "\<not> completo n ds"
    using cargar_vuelo_espera [OF ini leg] that by (simp add: turno_robot_carga_def)
  assume fin: "completo n ds \<and> \<not> completo n (butlast ds)"
  obtain s1 where s1: "cargar_vuelo n False (ds @ rest) (comenzar_vuelo s) = Listo (s1, rest)" "tras n s ds s1"
    using cargar_vuelo_corta [OF ini leg, of rest] fin by auto
  define cs where "cs = contenedores s1 @ map snd (contenedores_por_escala s1)"
  have e: "\<forall>c \<in> set cs. \<exists>k. de_escala k c" using s1(2) by (fastforce simp: tras_def carga_ok_def cs_def)
  have c: "mset (concat (map carga_de cs)) = mset (livianos (reales ds))"
    using s1(2) by (simp add: tras_def cargados_en_def libre equipajes_de_def comp_def cs_def)
  have v: "reales ds \<noteq> [] \<longrightarrow> numero_de_vuelo s1 = numero_de_vuelo_destino (rfid_de (last (reales ds)))"
    using s1(2) by (simp add: tras_def lazo_def)
  obtain r where tr: "turno_robot_carga red fuera z n (ds @ rest) s q serv zs = Listo r" "rt_resto r = rest"
    "rt_falla r = (if red \<noteq> Respondida then Some GenericError
                   else if odd (length cs) \<and> fuera = None then Some Fuera_de_rango else None)"
    "rt_cola r = q @ (if red = Respondida then en_bloques (int (length cs)) (numero_de_vuelo s1) (relleno fuera cs) else [])"
    "rt_zonas r = zs @ (if rt_falla r = None then [(1, z)] else [])"
    "rt_falla r = None \<longrightarrow> contenedores_por_escala (rt_carga r) = [] \<and> contenedores (rt_carga r) = []"
    using turno_tras_lazo [OF ok s1(1) cs_def, of red fuera z q zs] by (elim exE conjE)
  show "\<exists>cs v r. (\<forall>c \<in> set cs. \<exists>k. de_escala k c) \<and>
        mset (concat (map carga_de cs)) = mset (livianos (reales ds)) \<and>
        (reales ds \<noteq> [] \<longrightarrow> v = numero_de_vuelo_destino (rfid_de (last (reales ds)))) \<and>
        turno_robot_carga red fuera z n (ds @ rest) s q serv zs = Listo r \<and> rt_resto r = rest \<and>
        rt_falla r = (if red \<noteq> Respondida then Some GenericError
                      else if odd (length cs) \<and> fuera = None then Some Fuera_de_rango else None) \<and>
        rt_cola r = q @ (if red = Respondida then en_bloques (int (length cs)) v (relleno fuera cs) else []) \<and>
        rt_zonas r = zs @ (if rt_falla r = None then [(1, z)] else []) \<and>
        (rt_falla r = None \<longrightarrow> contenedores_por_escala (rt_carga r) = [] \<and> contenedores (rt_carga r) = [])"
    by (rule exI [of _ cs], rule exI [of _ "numero_de_vuelo s1"], rule exI [of _ r]) (intro conjI e c v tr)
qed

text \<open>Two pieces of a stop-over, one of another, a heavy one; the notice comes before the last.\<close>

definition valija :: "int \<Rightarrow> string \<Rightarrow> peso \<Rightarrow> equipaje" where
  "valija r escala p = Equipaje (set_escala escala (Rfid r 4)) p"

theorem carga_completa_witness:
  "\<exists>cs r. mset (concat (map carga_de cs)) = {#valija 10 ''BSAS'' 2000, valija 11 ''BRASIL'' 500#} \<and>
     turno_robot_carga Respondida (Some Contenedor) 2 3 [Pieza (valija 10 ''BSAS'' 2000),
        Pieza (valija 11 ''BRASIL'' 500), Aviso_cierre, Pieza (valija 12 ''BSAS'' 4000)] (robot_carga_nuevo 0) []
        (servidor_ejemplo (replicate 10 4)) [] = Listo r \<and>
     rt_falla r = None \<and> rt_zonas r = [(1, 2)] \<and>
     rt_cola r = en_bloques (int (length cs)) 4 (relleno (Some Contenedor) cs)"
proof -
  let ?a = "valija 10 ''BSAS'' 2000" and ?b = "valija 11 ''BRASIL'' 500" and ?c = "valija 12 ''BSAS'' 4000"
  define ds where "ds = [Pieza ?a, Pieza ?b, Aviso_cierre, Pieza ?c]"
  have esc: "get_escala (rfid_de ?a) = Listo ''BSAS''" "get_escala (rfid_de ?b) = Listo ''BRASIL''"
    "get_escala (rfid_de ?c) = Listo ''BSAS''"
    by (simp_all add: valija_def Equipaje_def get_escala_def set_escala_def c_string_strncpy MAX_SIZE_ESCALA_def NUL_def)
  have r: "rfid_int ?a = 10" "rfid_int ?b = 11" "rfid_int ?c = 12" "rfid_int Equipaje_vacio = 0"
    "peso_e ?a = 2000" "peso_e ?b = 500" "peso_e ?c = 4000" "numero_de_vuelo_destino (rfid_de ?c) = 4"
    by (simp_all add: valija_def Equipaje_def rfid_int_def set_escala_def Rfid_def Equipaje_vacio_def)
  have reales: "reales ds = [?a, ?b, ?c]" by (simp add: ds_def r pieza_entregada_def)
  have leg: "legibles ds" unfolding legibles_def reales using esc by auto
  have fin: "completo 3 ds \<and> \<not> completo 3 (butlast ds)"
    by (simp add: ds_def completo_def r pieza_entregada_def)
  have liv: "livianos (reales ds) = [?a, ?b]" unfolding reales by (simp add: livianos_def r)
  have libre: "contenedores_por_escala (robot_carga_nuevo 0) = []" "contenedores (robot_carga_nuevo 0) = []"
    by (simp_all add: robot_carga_nuevo_def)
  have ok: "servidor_ok (servidor_ejemplo (replicate 10 4))" by simp
  note t = carga_completa [OF libre leg ok, of 3 Respondida "Some Contenedor" 2 "[]" "[]" "[]", THEN conjunct2, rule_format, OF fin]
  from t show ?thesis unfolding liv unfolding reales ds_def [symmetric] by (fastforce simp: r)
qed

end
