(* ===== verification/Avion.thy ===== *)
theory Avion
  imports Carga
begin

text \<open>
  Tractors and planes: \<^verbatim>\<open>api/api_tractor.h\<close> with \<^verbatim>\<open>processes/tractor.cpp\<close>,
  and \<^verbatim>\<open>api/api_avion.h\<close> with \<^verbatim>\<open>processes/avion.cpp\<close>. The
  loading robots push blocks of two containers into one queue, any tractor takes a block and pushes
  its containers one by one into the queue of the planes with the flight as the type, and the plane
  of a flight pulls until it has as many as the message announces.
\<close>

section \<open>Operations\<close>

record contenedor_avion =
  cantidad_total_a :: int
  contenedor_a :: contenedor

definition obtener_contenedores_a_cargar ::
    "bloque_contenedores cola \<Rightarrow> (bloque_contenedores \<times> bloque_contenedores cola) llamada" where
  "obtener_contenedores_a_cargar q =
     (case pull ID_ESCUCHA_TRACTOR q of
        Listo ((t, b), q') \<Rightarrow> Listo (b, q')
      | Bloqueado \<Rightarrow> Bloqueado
      | Fallo f \<Rightarrow> Fallo f)"

definition cargar_contenedor_en_avion ::
    "contenedor \<Rightarrow> int \<Rightarrow> int \<Rightarrow> contenedor_avion cola \<Rightarrow> contenedor_avion cola llamada" where
  "cargar_contenedor_en_avion c vuelo cantidad q =
     push vuelo \<lparr>cantidad_total_a = cantidad, contenedor_a = c\<rparr> q"

text \<open>One turn of \<^verbatim>\<open>esperar_carga_equipajes\<close>: the messages so far with the new one, and whether it goes on.\<close>

definition esperar_contenedor ::
    "int \<Rightarrow> contenedor_avion list \<Rightarrow> contenedor_avion cola
       \<Rightarrow> (contenedor_avion list \<times> bool \<times> contenedor_avion cola) llamada" where
  "esperar_contenedor vuelo recibidos q =
     (case pull vuelo q of
        Listo ((t, m), q') \<Rightarrow>
          Listo (recibidos @ [m], int (length recibidos) + 1 < cantidad_total_a m, q')
      | Bloqueado \<Rightarrow> Bloqueado
      | Fallo f \<Rightarrow> Fallo f)"

definition get_total_valijas :: "contenedor list \<Rightarrow> int" where
  "get_total_valijas cs = fold (\<lambda>c n. n + get_equipajes c) cs 0"

section \<open>Robots, tractors and planes\<close>

text \<open>A tractor is free, goes through a block at index \<open>i\<close>, or died with an exception.\<close>

datatype tractor = T_libre | T_lleva bloque_contenedores nat | T_muerto

text \<open>
  \<open>arecibidos\<close> keeps the messages a plane pulled, its vector is their containers;
  \<open>adespego\<close> tells that its loop ended. The ghost \<open>aenviados\<close> are the containers the
  robots queued, as the messages they will become, with their flight.
\<close>

record sis_avion =
  acola_tractores :: "bloque_contenedores cola"
  atractores :: "tractor list"
  acola_aviones :: "contenedor_avion cola"
  arecibidos :: "int \<Rightarrow> contenedor_avion list"
  adespego :: "int \<Rightarrow> bool"
  aenviados :: "contenedor_avion cola"

definition mensajes_de :: "int \<Rightarrow> contenedor list \<Rightarrow> contenedor_avion list" where
  "mensajes_de n cs = map (\<lambda>c. \<lparr>cantidad_total_a = n, contenedor_a = c\<rparr>) cs"

definition fin_enviar :: "contenedor option \<Rightarrow> int \<Rightarrow> carga \<Rightarrow> bloque_contenedores cola \<Rightarrow> sis_avion \<Rightarrow> sis_avion" where
  "fin_enviar fuera v r q s = s\<lparr>acola_tractores := q,
     aenviados := aenviados s @ map (Pair v)
       (mensajes_de (int (length (contenedores r))) (salen fuera (contenedores r)))\<rparr>"

definition fin_toma :: "nat \<Rightarrow> bloque_contenedores \<Rightarrow> bloque_contenedores cola \<Rightarrow> sis_avion \<Rightarrow> sis_avion" where
  "fin_toma k b q s = s\<lparr>acola_tractores := q, atractores := (atractores s)[k := T_lleva b 0]\<rparr>"

definition fin_carga :: "nat \<Rightarrow> bloque_contenedores \<Rightarrow> nat \<Rightarrow> contenedor_avion cola \<Rightarrow> sis_avion \<Rightarrow> sis_avion" where
  "fin_carga k b i q s = s\<lparr>acola_aviones := q, atractores := (atractores s)[k := T_lleva b (Suc i)]\<rparr>"

definition fin_avion :: "int \<Rightarrow> contenedor_avion list \<Rightarrow> bool \<Rightarrow> contenedor_avion cola \<Rightarrow> sis_avion \<Rightarrow> sis_avion" where
  "fin_avion v rs sigue q s = s\<lparr>acola_aviones := q, arecibidos := (arecibidos s)(v := rs),
     adespego := (adespego s)(v := \<not> sigue)\<rparr>"

text \<open>
  The steps. A loading robot may die in its send with some blocks already queued. Flights have positive numbers; a tractor that is given another one dies in its push.
\<close>

inductive paso_avion :: "sis_avion \<Rightarrow> sis_avion \<Rightarrow> bool" where
  a_envia: "enviar_contenedores_a_avion fuera v r (acola_tractores s) = (r', q, e) \<Longrightarrow>
     paso_avion s (fin_enviar fuera v r q s)"
| a_toma: "k < length (atractores s) \<Longrightarrow> atractores s ! k = T_libre \<Longrightarrow>
     obtener_contenedores_a_cargar (acola_tractores s) = Listo (b, q) \<Longrightarrow> paso_avion s (fin_toma k b q s)"
| a_carga: "k < length (atractores s) \<Longrightarrow> atractores s ! k = T_lleva b i \<Longrightarrow> int i < contenedores_actual b \<Longrightarrow>
     cargar_contenedor_en_avion (contenedores_b b ! i) (vuelo_destino b) (cantidad_total_contenedores b)
       (acola_aviones s) = Listo q \<Longrightarrow> paso_avion s (fin_carga k b i q s)"
| a_muere: "k < length (atractores s) \<Longrightarrow> atractores s ! k = T_lleva b i \<Longrightarrow> int i < contenedores_actual b \<Longrightarrow>
     cargar_contenedor_en_avion (contenedores_b b ! i) (vuelo_destino b) (cantidad_total_contenedores b)
       (acola_aviones s) = Fallo f \<Longrightarrow> paso_avion s (s\<lparr>atractores := (atractores s)[k := T_muerto]\<rparr>)"
| a_vuelve: "k < length (atractores s) \<Longrightarrow> atractores s ! k = T_lleva b i \<Longrightarrow> contenedores_actual b \<le> int i \<Longrightarrow>
     paso_avion s (s\<lparr>atractores := (atractores s)[k := T_libre]\<rparr>)"
| a_avion: "0 < v \<Longrightarrow> \<not> adespego s v \<Longrightarrow>
     esperar_contenedor v (arecibidos s v) (acola_aviones s) = Listo (rs, sigue, q) \<Longrightarrow>
     paso_avion s (fin_avion v rs sigue q s)"

inductive_cases paso_avionE: "paso_avion s t"

definition ini_avion :: "nat \<Rightarrow> sis_avion" where
  "ini_avion n = \<lparr>acola_tractores = [], atractores = replicate n T_libre, acola_aviones = [],
     arecibidos = (\<lambda>_. []), adespego = (\<lambda>_. False), aenviados = []\<rparr>"

section \<open>What is in flight\<close>

text \<open>The messages for the plane \<open>v\<close> still in a block from index \<open>i\<close> on, with a tractor, in the blocks queued.\<close>

definition en_bloque :: "int \<Rightarrow> bloque_contenedores \<Rightarrow> nat \<Rightarrow> contenedor_avion list" where
  "en_bloque v b i = (if vuelo_destino b = v then mensajes_de (cantidad_total_contenedores b) (drop i (contenedores_b b)) else [])"

primrec en_tractor :: "int \<Rightarrow> tractor \<Rightarrow> contenedor_avion list" where
  "en_tractor v T_libre = []"
| "en_tractor v (T_lleva b i) = en_bloque v b i"
| "en_tractor v T_muerto = []"

definition en_cola :: "int \<Rightarrow> bloque_contenedores cola \<Rightarrow> contenedor_avion list" where
  "en_cola v q = concat (map (\<lambda>p. en_bloque v (snd p) 0) q)"

definition en_tractores :: "int \<Rightarrow> tractor list \<Rightarrow> contenedor_avion list" where
  "en_tractores v ts = concat (map (en_tractor v) ts)"

definition bloque_ok :: "bloque_contenedores \<Rightarrow> bool" where
  "bloque_ok b \<longleftrightarrow> contenedores_actual b = 2 \<and> length (contenedores_b b) = 2"

primrec tractor_ok :: "tractor \<Rightarrow> bool" where
  "tractor_ok T_libre = True"
| "tractor_ok (T_lleva b i) = bloque_ok b"
| "tractor_ok T_muerto = True"

definition bloques_ok :: "sis_avion \<Rightarrow> bool" where
  "bloques_ok s \<longleftrightarrow> (\<forall>(t, b) \<in> set (acola_tractores s). t = 1 \<and> bloque_ok b) \<and> (\<forall>t \<in> set (atractores s). tractor_ok t)"

definition conserva :: "int \<Rightarrow> sis_avion \<Rightarrow> bool" where
  "conserva v s \<longleftrightarrow> mset (de_tipo v (aenviados s)) =
     mset (en_cola v (acola_tractores s)) + mset (en_tractores v (atractores s)) +
     mset (de_tipo v (acola_aviones s)) + mset (arecibidos s v)"

text \<open>The loop of a plane goes on exactly while it has fewer containers than the last message announced.\<close>

definition avion_al_dia :: "sis_avion \<Rightarrow> int \<Rightarrow> bool" where
  "avion_al_dia s v \<longleftrightarrow>
     (\<forall>k < length (arecibidos s v).
        (int k + 1 < cantidad_total_a (arecibidos s v ! k)) = (\<not> (adespego s v \<and> Suc k = length (arecibidos s v)))) \<and>
     (arecibidos s v = [] \<longrightarrow> \<not> adespego s v)"

definition inv_avion :: "sis_avion \<Rightarrow> bool" where
  "inv_avion s \<longleftrightarrow> bloques_ok s \<and> (\<forall>v > 0. conserva v s) \<and> (\<forall>v. avion_al_dia s v)"

lemma mset_concat_update:
  "k < length ts \<Longrightarrow> mset (concat (map f (ts[k := t]))) + mset (f (ts ! k)) = mset (concat (map f ts)) + mset (f t)"
  by (induction ts arbitrary: k) (auto split: nat.split)

lemma en_tractores_update:
  "k < length ts \<Longrightarrow> mset (en_tractores v (ts[k := t])) + mset (en_tractor v (ts ! k))
     = mset (en_tractores v ts) + mset (en_tractor v t)"
  unfolding en_tractores_def by (rule mset_concat_update)

lemma en_cola_simps [simp]:
  "en_cola v (q @ r) = en_cola v q @ en_cola v r" "en_cola v [] = []"
  "en_cola v ((t, b) # q) = en_bloque v b 0 @ en_cola v q"
  by (simp_all add: en_cola_def)

lemma en_cola_bloques:
  "en_cola v (en_bloques t w cs) = (if v = w then mensajes_de t (take (2 * (length cs div 2)) cs) else [])"
  by (induction t w cs rule: en_bloques.induct) (auto simp: en_bloque_def mensajes_de_def)

lemma bloques_en_bloques: "(t, b) \<in> set (en_bloques n v cs) \<Longrightarrow> t = 1 \<and> bloque_ok b"
  by (induction n v cs rule: en_bloques.induct) (auto simp: bloque_ok_def)

lemma de_tipo_Pair [simp]: "de_tipo v (map (Pair w) ms) = (if v = w then ms else [])"
  by (induction ms) auto

text \<open>All the blocks have the type the tractors ask for, so they are taken in order.\<close>

lemma obtener_primero:
  assumes "\<forall>(t, b) \<in> set q. t = 1 \<and> bloque_ok b" and "obtener_contenedores_a_cargar q = Listo (b, q')"
  shows "q = (1, b) # q'"
proof (cases q)
  case Nil
  then show ?thesis using assms(2) by (simp add: obtener_contenedores_a_cargar_def pull_def ID_ESCUCHA_TRACTOR_def)
next
  case (Cons p r)
  then show ?thesis using assms by (auto simp: obtener_contenedores_a_cargar_def pull_def ID_ESCUCHA_TRACTOR_def)
qed

lemma en_bloque_paso:
  "bloque_ok b \<Longrightarrow> int i < contenedores_actual b \<Longrightarrow>
     en_bloque v b i = (if vuelo_destino b = v
        then [\<lparr>cantidad_total_a = cantidad_total_contenedores b, contenedor_a = contenedores_b b ! i\<rparr>] else [])
      @ en_bloque v b (Suc i)"
  by (auto simp: en_bloque_def mensajes_de_def bloque_ok_def Cons_nth_drop_Suc [symmetric])

lemma en_bloque_fin: "bloque_ok b \<Longrightarrow> contenedores_actual b \<le> int i \<Longrightarrow> en_bloque v b i = []"
  by (simp add: en_bloque_def mensajes_de_def bloque_ok_def)

section \<open>Preservation\<close>

lemma inv_avion_envia:
  assumes inv: "inv_avion s" and e: "enviar_contenedores_a_avion fuera v r (acola_tractores s) = (r', q, f)"
  shows "inv_avion (fin_enviar fuera v r q s)"
proof -
  let ?cs = "contenedores r"
  have q: "q = acola_tractores s @ en_bloques (int (length ?cs)) v (relleno fuera ?cs)"
    using e by (simp add: enviar_contenedores_ok)
  have "bloques_ok (fin_enviar fuera v r q s)"
    using inv bloques_en_bloques by (force simp: inv_avion_def bloques_ok_def fin_enviar_def q)
  moreover have "conserva w (fin_enviar fuera v r q s)" if "0 < w" for w
    using inv that by (auto simp: inv_avion_def conserva_def fin_enviar_def q en_cola_bloques salen_def)
  ultimately show ?thesis using inv by (simp add: inv_avion_def avion_al_dia_def fin_enviar_def)
qed

lemma avion_al_dia_marco [simp]:
  "avion_al_dia (s\<lparr>acola_tractores := a\<rparr>) v = avion_al_dia s v"
  "avion_al_dia (s\<lparr>acola_aviones := c\<rparr>) v = avion_al_dia s v"
  "avion_al_dia (s\<lparr>atractores := b\<rparr>) v = avion_al_dia s v"
  by (simp_all add: avion_al_dia_def)

lemma tractor_ok_update:
  "\<forall>t \<in> set ts. tractor_ok t \<Longrightarrow> tractor_ok x \<Longrightarrow> \<forall>t \<in> set (ts[k := x]). tractor_ok t"
  by (auto dest: set_update_subset_insert [THEN subsetD])

lemma inv_avion_toma:
  assumes inv: "inv_avion s" and k: "k < length (atractores s)" "atractores s ! k = T_libre"
    and o: "obtener_contenedores_a_cargar (acola_tractores s) = Listo (b, q)"
  shows "inv_avion (fin_toma k b q s)"
proof -
  have q: "acola_tractores s = (1, b) # q"
    using obtener_primero [OF _ o] inv by (simp add: inv_avion_def bloques_ok_def)
  then have b: "bloque_ok b" using inv by (simp add: inv_avion_def bloques_ok_def)
  have "bloques_ok (fin_toma k b q s)"
    using inv b q tractor_ok_update [of "atractores s" "T_lleva b 0" k]
    by (simp add: inv_avion_def bloques_ok_def fin_toma_def)
  moreover have "conserva w (fin_toma k b q s)" if "0 < w" for w
    using inv that en_tractores_update [OF k(1), of w "T_lleva b 0"] k(2) q
    by (simp add: inv_avion_def conserva_def fin_toma_def ac_simps)
  ultimately show ?thesis using inv by (simp add: inv_avion_def fin_toma_def)
qed

lemma tractor_bloque:
  "inv_avion s \<Longrightarrow> k < length (atractores s) \<Longrightarrow> atractores s ! k = T_lleva b i \<Longrightarrow> bloque_ok b"
  unfolding inv_avion_def bloques_ok_def by (metis nth_mem tractor_ok.simps(2))

lemma inv_avion_carga:
  assumes inv: "inv_avion s" and k: "k < length (atractores s)" "atractores s ! k = T_lleva b i"
    and i: "int i < contenedores_actual b"
    and c: "cargar_contenedor_en_avion (contenedores_b b ! i) (vuelo_destino b) (cantidad_total_contenedores b)
       (acola_aviones s) = Listo q"
  shows "inv_avion (fin_carga k b i q s)"
proof -
  note b = tractor_bloque [OF inv k]
  have q: "q = acola_aviones s @
      [(vuelo_destino b, \<lparr>cantidad_total_a = cantidad_total_contenedores b, contenedor_a = contenedores_b b ! i\<rparr>)]"
    using c by (simp add: cargar_contenedor_en_avion_def paso_simps)
  have "bloques_ok (fin_carga k b i q s)"
    using inv b tractor_ok_update [of "atractores s" "T_lleva b (Suc i)" k]
    by (simp add: inv_avion_def bloques_ok_def fin_carga_def)
  moreover have "conserva w (fin_carga k b i q s)" if "0 < w" for w
  proof -
    have "conserva w s" using inv that by (simp add: inv_avion_def)
    then show ?thesis
      using en_tractores_update [OF k(1), of w "T_lleva b (Suc i)"] k(2) en_bloque_paso [OF b i, of w]
      by (auto simp: conserva_def fin_carga_def q split: if_splits)
  qed
  ultimately show ?thesis using inv by (simp add: inv_avion_def fin_carga_def)
qed

text \<open>A tractor drops its block only when nothing of it is for a flight with a positive number.\<close>

lemma inv_avion_suelta:
  assumes inv: "inv_avion s" and k: "k < length (atractores s)" "atractores s ! k = T_lleva b i"
    and nada: "\<And>w. 0 < w \<Longrightarrow> en_bloque w b i = []" and x: "x = T_libre \<or> x = T_muerto"
  shows "inv_avion (s\<lparr>atractores := (atractores s)[k := x]\<rparr>)"
proof -
  have "conserva w (s\<lparr>atractores := (atractores s)[k := x]\<rparr>)" if "0 < w" for w
    using inv that en_tractores_update [OF k(1), of w x] k(2) nada [OF that] x
    by (auto simp: inv_avion_def conserva_def)
  moreover have "bloques_ok (s\<lparr>atractores := (atractores s)[k := x]\<rparr>)"
    using inv x tractor_ok_update [of "atractores s" x k] by (auto simp: inv_avion_def bloques_ok_def)
  ultimately show ?thesis using inv by (simp add: inv_avion_def)
qed

lemma esperar_contenedor_ok:
  assumes "0 < v" and "esperar_contenedor v rs q = Listo (rs', sigue, q')"
  shows "\<exists>m. rs' = rs @ [m] \<and> sigue = (int (length rs) + 1 < cantidad_total_a m) \<and>
      de_tipo v q = m # de_tipo v q' \<and> (\<forall>w. w \<noteq> v \<longrightarrow> de_tipo w q' = de_tipo w q)"
proof -
  obtain t m where p: "pull v q = Listo ((t, m), q')" "rs' = rs @ [m]" "sigue = (int (length rs) + 1 < cantidad_total_a m)"
    using assms(2) by (auto simp: esperar_contenedor_def split: llamada.splits)
  show ?thesis using p(2,3) pull_tipo_ok [OF assms(1) p(1)] by auto
qed

lemma inv_avion_avion:
  assumes inv: "inv_avion s" and v: "0 < v" and d: "\<not> adespego s v"
    and e: "esperar_contenedor v (arecibidos s v) (acola_aviones s) = Listo (rs, sigue, q)"
  shows "inv_avion (fin_avion v rs sigue q s)"
proof -
  obtain m where m: "rs = arecibidos s v @ [m]" "sigue = (int (length (arecibidos s v)) + 1 < cantidad_total_a m)"
    "de_tipo v (acola_aviones s) = m # de_tipo v q" "\<And>w. w \<noteq> v \<Longrightarrow> de_tipo w q = de_tipo w (acola_aviones s)"
    using esperar_contenedor_ok [OF v e] by blast
  have "conserva w (fin_avion v rs sigue q s)" if "0 < w" for w
    using inv that m by (cases "w = v") (auto simp: inv_avion_def conserva_def fin_avion_def)
  moreover have "avion_al_dia (fin_avion v rs sigue q s) w" for w
  proof -
    have "avion_al_dia s w" using inv by (simp add: inv_avion_def)
    then show ?thesis using d m(1,2)
      by (auto simp: avion_al_dia_def fin_avion_def nth_append less_Suc_eq)
  qed
  moreover have "bloques_ok (fin_avion v rs sigue q s)"
    using inv by (simp add: inv_avion_def bloques_ok_def fin_avion_def)
  ultimately show ?thesis by (simp add: inv_avion_def)
qed

lemma inv_avion_paso: "paso_avion s t \<Longrightarrow> inv_avion s \<Longrightarrow> inv_avion t"
proof (induction rule: paso_avion.induct)
  case (a_muere k s b i f)
  have "vuelo_destino b \<le> 0" using a_muere(4) by (simp add: cargar_contenedor_en_avion_def push_def split: if_splits)
  then show ?case using inv_avion_suelta [OF a_muere(5,1,2)] by (force simp: en_bloque_def)
next
  case (a_vuelve k s b i)
  show ?case
    using inv_avion_suelta [OF a_vuelve(4,1,2)] en_bloque_fin [OF tractor_bloque [OF a_vuelve(4,1,2)] a_vuelve(3)] by simp
qed (auto intro: inv_avion_envia inv_avion_toma inv_avion_carga inv_avion_avion)

lemma inv_avion_ini: "inv_avion (ini_avion n)"
  by (auto simp: inv_avion_def ini_avion_def bloques_ok_def conserva_def avion_al_dia_def en_tractores_def)

interpretation avion: sistema "\<lambda>s. s = ini_avion n" paso_avion inv_avion
  by unfold_locales (auto intro: inv_avion_ini inv_avion_paso)

section \<open>What a plane takes off with\<close>

lemma cantidad_mensajes_de: "m \<in> set (mensajes_de n cs) \<Longrightarrow> cantidad_total_a m = n"
  by (auto simp: mensajes_de_def)

lemma contenedores_mensajes_de [simp]: "map contenedor_a (mensajes_de n cs) = cs"
  by (simp add: mensajes_de_def comp_def)

lemma length_salen:
  "length (salen fuera cs) = (if muere fuera cs then length cs - 1 else length (relleno fuera cs))"
  by (auto simp: salen_def muere_def relleno_def elim!: oddE split: option.splits)

lemma salen_par: "even (length cs) \<Longrightarrow> salen fuera cs = cs"
  by (auto simp: salen_def relleno_def)

lemma subset_eq_size_eq: "A \<subseteq># B \<Longrightarrow> size A = size B \<Longrightarrow> A = (B :: 'a multiset)"
  by (metis mset_subset_size nless_le subset_mset.le_neq_trans)

lemma salen_Nil: "salen fuera [] = []"
  by (simp add: salen_def relleno_def)

lemma get_total_valijas_eq: "get_total_valijas cs = sum_list (map get_equipajes cs)"
proof -
  have "fold (\<lambda>c n. n + get_equipajes c) cs k = k + sum_list (map get_equipajes cs)" for k
    by (induction cs arbitrary: k) simp_all
  then show ?thesis by (simp add: get_total_valijas_def)
qed

lemma sum_list_mset_eq: "mset xs = mset ys \<Longrightarrow> sum_list (map f xs) = (sum_list (map f ys) :: int)"
  by (metis mset_map sum_mset_sum_list)

text \<open>All the messages announce the same number: the plane stops exactly there.\<close>

lemma cuantos_recibe:
  assumes dia: "avion_al_dia s v" and tot: "\<forall>m \<in> set (arecibidos s v). cantidad_total_a m = n"
    and pos: "arecibidos s v \<noteq> [] \<longrightarrow> 0 < n"
  shows "adespego s v \<Longrightarrow> int (length (arecibidos s v)) = n \<and> 0 < n"
    and "\<not> adespego s v \<Longrightarrow> arecibidos s v \<noteq> [] \<Longrightarrow> int (length (arecibidos s v)) < n"
proof -
  let ?r = "arecibidos s v"
  have k: "(int k + 1 < n) = (\<not> (adespego s v \<and> Suc k = length ?r))" if "k < length ?r" for k
    using dia tot that by (auto simp: avion_al_dia_def)
  show "int (length ?r) = n \<and> 0 < n" if d: "adespego s v"
  proof -
    have ne: "?r \<noteq> []" using d dia by (auto simp: avion_al_dia_def)
    then have "\<not> int (length ?r) < n" using k [of "length ?r - 1"] d by (cases ?r) auto
    moreover have "int (length ?r) \<le> n"
      using k [of "length ?r - 2"] pos ne by (cases "length ?r < 2") (cases ?r, auto)
    ultimately show ?thesis using pos ne by simp
  qed
  show "int (length ?r) < n" if "\<not> adespego s v" "?r \<noteq> []"
    using k [of "length ?r - 1"] that by (cases ?r) auto
qed

text \<open>
  C39. What reaches a plane. Whatever the number of tractors and the interleaving, a plane whose
  flight was sent once holds containers that were sent to it, each at most as often as it was sent;
  it takes off when it has as many as the load had, and never with none, so a flight without
  luggage stays on the ground. With an even number of containers it takes off with exactly those,
  and counts all their pieces; with an odd one, the one that comes from behind the vector may
  replace another. While it waits, what it lacks is in a block, with a tractor or in its queue,
  unless the loading robot died or there was nothing to send.
\<close>

theorem avion_recibe:
  assumes alc: "alcanzable (\<lambda>s. s = ini_avion n) paso_avion s" and v: "0 < v"
    and una: "de_tipo v (aenviados s) = mensajes_de (int (length cs)) (salen fuera cs)"
  shows "mset (map contenedor_a (arecibidos s v)) \<subseteq># mset (salen fuera cs) \<and>
    (adespego s v \<longrightarrow> length (arecibidos s v) = length cs \<and> cs \<noteq> []) \<and>
    (adespego s v \<and> even (length cs) \<longrightarrow>
       mset (map contenedor_a (arecibidos s v)) = mset cs \<and>
       get_total_valijas (map contenedor_a (arecibidos s v)) = sum_list (map get_equipajes cs)) \<and>
    (\<not> adespego s v \<and> cs \<noteq> [] \<and> length cs \<le> length (salen fuera cs) \<longrightarrow>
       en_cola v (acola_tractores s) \<noteq> [] \<or> en_tractores v (atractores s) \<noteq> [] \<or>
       de_tipo v (acola_aviones s) \<noteq> [])"
proof -
  let ?r = "arecibidos s v"
  have inv: "inv_avion s" by (rule avion.inv_alcanzable [OF alc])
  then have c: "mset (mensajes_de (int (length cs)) (salen fuera cs)) =
      mset (en_cola v (acola_tractores s)) + mset (en_tractores v (atractores s)) +
      mset (de_tipo v (acola_aviones s)) + mset ?r"
    using v una [symmetric] by (simp add: inv_avion_def conserva_def)
  then have sub: "mset ?r \<subseteq># mset (mensajes_de (int (length cs)) (salen fuera cs))" by simp
  then have tot: "\<forall>m \<in> set ?r. cantidad_total_a m = int (length cs)"
    using cantidad_mensajes_de mset_subset_eqD by (metis set_mset_mset)
  have pos: "?r \<noteq> [] \<longrightarrow> 0 < int (length cs)"
    using sub by (cases cs) (auto simp: salen_Nil mensajes_de_def)
  have dia: "avion_al_dia s v" using inv by (simp add: inv_avion_def)
  note cuantos = cuantos_recibe [OF dia tot pos]
  have conts: "mset (map contenedor_a ?r) \<subseteq># mset (salen fuera cs)"
    using image_mset_subseteq_mono [OF sub, of contenedor_a] by (metis contenedores_mensajes_de mset_map)
  have todos: "mset (map contenedor_a ?r) = mset cs" if "adespego s v" "even (length cs)"
    using subset_eq_size_eq [OF conts] cuantos(1) [OF that(1)] salen_par [OF that(2), of fuera] by simp
  have espera: "en_cola v (acola_tractores s) \<noteq> [] \<or> en_tractores v (atractores s) \<noteq> [] \<or>
      de_tipo v (acola_aviones s) \<noteq> []" if "\<not> adespego s v" "cs \<noteq> []" "length cs \<le> length (salen fuera cs)"
  proof (rule ccontr)
    assume "\<not> ?thesis"
    then have "mset (mensajes_de (int (length cs)) (salen fuera cs)) = mset ?r" using c by simp
    then have l: "length ?r = length (salen fuera cs)" by (metis length_map mensajes_de_def mset_eq_length)
    then have "?r \<noteq> []" using that by auto
    then show False using cuantos(2) [OF that(1)] l that(3) by simp
  qed
  have "length ?r = length cs \<and> cs \<noteq> []" if "adespego s v" using cuantos(1) [OF that] by auto
  moreover have "get_total_valijas (map contenedor_a ?r) = sum_list (map get_equipajes cs)"
    if "adespego s v" "even (length cs)"
    unfolding get_total_valijas_eq by (rule sum_list_mset_eq [OF todos [OF that]])
  ultimately show ?thesis using conts todos espera by blast
qed

text \<open>One tractor, flight 7, two containers with a piece each.\<close>

definition contenedor_uno :: contenedor where
  "contenedor_uno = \<lparr>peso_c = 5, cant_equipajes = 1, equipajes = replicate 30 (Equipaje (Rfid 9 7) 5)\<rparr>"

definition robot_dos :: carga where
  "robot_dos = (robot_carga_nuevo 7)\<lparr>contenedores := [contenedor_uno, contenedor_uno]\<rparr>"

definition mensaje_dos :: contenedor_avion where
  "mensaje_dos = \<lparr>cantidad_total_a = 2, contenedor_a = contenedor_uno\<rparr>"

definition estado_avion :: sis_avion where
  "estado_avion = \<lparr>acola_tractores = [], atractores = [T_libre], acola_aviones = [],
     arecibidos = (\<lambda>_. [])(7 := [mensaje_dos, mensaje_dos]), adespego = (\<lambda>_. False)(7 := True),
     aenviados = [(7, mensaje_dos), (7, mensaje_dos)]\<rparr>"

lemma estado_avion_alcanzable: "alcanzable (\<lambda>s. s = ini_avion 1) paso_avion estado_avion"
proof -
  let ?b = "\<lparr>cantidad_total_contenedores = 2, vuelo_destino = 7, contenedores_actual = 2,
             contenedores_b = [contenedor_uno, contenedor_uno]\<rparr>"
  let ?s = "\<lambda>q t a r d. \<lparr>acola_tractores = q, atractores = [t], acola_aviones = a, arecibidos = (\<lambda>_. [])(7 := r),
     adespego = (\<lambda>_. False)(7 := d), aenviados = [(7, mensaje_dos), (7, mensaje_dos)]\<rparr>"
  let ?R = "alcanzable (\<lambda>s. s = ini_avion 1) paso_avion"
  have 0: "?R (ini_avion 1)" by (rule alcanzable.inicio) simp
  have "paso_avion (ini_avion 1) (?s [(1, ?b)] T_libre [] [] False)"
    using a_envia [of None 7 robot_dos "ini_avion 1", OF enviar_contenedores_ok]
    by (simp add: fin_enviar_def ini_avion_def robot_dos_def salen_def relleno_def mensajes_de_def mensaje_dos_def fun_upd_idem)
  with 0 have 1: "?R (?s [(1, ?b)] T_libre [] [] False)" by (rule alcanzable.avance)
  have "paso_avion (?s [(1, ?b)] T_libre [] [] False) (?s [] (T_lleva ?b 0) [] [] False)"
    using a_toma [of 0 "?s [(1, ?b)] T_libre [] [] False" ?b "[]"]
    by (simp add: fin_toma_def obtener_contenedores_a_cargar_def pull_def ID_ESCUCHA_TRACTOR_def)
  with 1 have 2: "?R (?s [] (T_lleva ?b 0) [] [] False)" by (rule alcanzable.avance)
  have "paso_avion (?s [] (T_lleva ?b 0) [] [] False) (?s [] (T_lleva ?b 1) [(7, mensaje_dos)] [] False)"
    using a_carga [of 0 "?s [] (T_lleva ?b 0) [] [] False" ?b 0 "[(7, mensaje_dos)]"]
    by (simp add: fin_carga_def cargar_contenedor_en_avion_def push_def mensaje_dos_def)
  with 2 have 3: "?R (?s [] (T_lleva ?b 1) [(7, mensaje_dos)] [] False)" by (rule alcanzable.avance)
  have "paso_avion (?s [] (T_lleva ?b 1) [(7, mensaje_dos)] [] False)
      (?s [] (T_lleva ?b 2) [(7, mensaje_dos), (7, mensaje_dos)] [] False)"
    using a_carga [of 0 "?s [] (T_lleva ?b 1) [(7, mensaje_dos)] [] False" ?b 1 "[(7, mensaje_dos), (7, mensaje_dos)]"]
    by (simp add: fin_carga_def cargar_contenedor_en_avion_def push_def mensaje_dos_def numeral_2_eq_2)
  with 3 have 4: "?R (?s [] (T_lleva ?b 2) [(7, mensaje_dos), (7, mensaje_dos)] [] False)" by (rule alcanzable.avance)
  have "paso_avion (?s [] (T_lleva ?b 2) [(7, mensaje_dos), (7, mensaje_dos)] [] False)
      (?s [] T_libre [(7, mensaje_dos), (7, mensaje_dos)] [] False)"
    using a_vuelve [of 0 "?s [] (T_lleva ?b 2) [(7, mensaje_dos), (7, mensaje_dos)] [] False" ?b 2] by simp
  with 4 have 5: "?R (?s [] T_libre [(7, mensaje_dos), (7, mensaje_dos)] [] False)" by (rule alcanzable.avance)
  have "paso_avion (?s [] T_libre [(7, mensaje_dos), (7, mensaje_dos)] [] False)
      (?s [] T_libre [(7, mensaje_dos)] [mensaje_dos] False)"
    using a_avion [of 7 "?s [] T_libre [(7, mensaje_dos), (7, mensaje_dos)] [] False" "[mensaje_dos]" True "[(7, mensaje_dos)]"]
    by (simp add: fin_avion_def esperar_contenedor_def pull_def mensaje_dos_def)
  with 5 have 6: "?R (?s [] T_libre [(7, mensaje_dos)] [mensaje_dos] False)" by (rule alcanzable.avance)
  have "paso_avion (?s [] T_libre [(7, mensaje_dos)] [mensaje_dos] False) (?s [] T_libre [] [mensaje_dos, mensaje_dos] True)"
    using a_avion [of 7 "?s [] T_libre [(7, mensaje_dos)] [mensaje_dos] False" "[mensaje_dos, mensaje_dos]" False "[]"]
    by (simp add: fin_avion_def esperar_contenedor_def pull_def mensaje_dos_def)
  with 6 show ?thesis unfolding estado_avion_def by (rule alcanzable.avance)
qed

theorem avion_recibe_witness:
  "adespego estado_avion 7 \<and> get_total_valijas (map contenedor_a (arecibidos estado_avion 7)) = 2"
proof -
  have "de_tipo 7 (aenviados estado_avion) =
      mensajes_de (int (length [contenedor_uno, contenedor_uno])) (salen None [contenedor_uno, contenedor_uno])"
    by (simp add: estado_avion_def mensajes_de_def mensaje_dos_def salen_par)
  from avion_recibe [OF estado_avion_alcanzable _ this] show ?thesis
    by (simp add: estado_avion_def get_equipajes_def contenedor_uno_def)
qed

end
