(* ===== verification/Checkin.thy ===== *)
theory Checkin
  imports Semaforos Colas Equipajes
begin

text \<open>
  A check-in desk: \<^verbatim>\<open>api/api_checkin.h\<close>, \<^verbatim>\<open>api/api_checkin.cpp\<close>, the
  desk (\<^verbatim>\<open>processes/puesto_checkin.cpp\<close>) and its controller
  (\<^verbatim>\<open>processes/controlador_puesto_checkin.cpp\<close>), with the passengers
  (\<^verbatim>\<open>api/api_generador_pasajeros.cpp\<close>, \<^verbatim>\<open>processes/generador_pasajeros.cpp\<close>)
  and the messages of the flight controller (\<^verbatim>\<open>api/api_controlador_de_vuelo.cpp\<close>).
  The files of passengers and luggage are parameters, lists of their records.
\<close>

section \<open>Passengers\<close>

definition MAX_EQUIPAJES_POR_PERSONA :: nat where "MAX_EQUIPAJES_POR_PERSONA = 5"

record mensaje_pasajero =
  id_pasajero :: int
  cant_equipajes_p :: int
  equipajes_p :: "equipaje list"

text \<open>The array of the message is filled from its start; the rest of it is not initialised, here empty pieces.\<close>

definition armar_mensaje_pasajero :: "int \<Rightarrow> equipaje list \<Rightarrow> mensaje_pasajero" where
  "armar_mensaje_pasajero pasajero es = \<lparr>id_pasajero = pasajero, cant_equipajes_p = int (length es),
     equipajes_p = es @ replicate (MAX_EQUIPAJES_POR_PERSONA - length es) Equipaje_vacio\<rparr>"

definition llego_pasajero_para_checkin ::
    "int \<Rightarrow> int \<Rightarrow> equipaje list \<Rightarrow> mensaje_pasajero cola \<Rightarrow> mensaje_pasajero cola llamada" where
  "llego_pasajero_para_checkin pasajero puesto es q =
     (if length es > MAX_EQUIPAJES_POR_PERSONA then Fallo RuntimeError
      else push puesto (armar_mensaje_pasajero pasajero es) q)"

fun leer_arreglo :: "'a list \<Rightarrow> nat \<Rightarrow> nat \<Rightarrow> 'a list llamada" where
  "leer_arreglo xs i 0 = Listo []"
| "leer_arreglo xs i (Suc n) =
     (if i < length xs
      then (case leer_arreglo xs (Suc i) n of Listo ys \<Rightarrow> Listo (xs ! i # ys) | r \<Rightarrow> r)
      else Fallo Fuera_de_rango)"

definition recibir_pasajero_para_checkin ::
    "int \<Rightarrow> mensaje_pasajero cola \<Rightarrow> (int \<times> equipaje list \<times> mensaje_pasajero cola) llamada" where
  "recibir_pasajero_para_checkin puesto q =
     (case pull puesto q of
        Listo ((t, m), q') \<Rightarrow>
          (case leer_arreglo (equipajes_p m) 0 (nat (cant_equipajes_p m)) of
             Listo es \<Rightarrow> Listo (id_pasajero m, es, q')
           | Bloqueado \<Rightarrow> Bloqueado
           | Fallo e \<Rightarrow> Fallo e)
      | Bloqueado \<Rightarrow> Bloqueado
      | Fallo e \<Rightarrow> Fallo e)"

lemma leer_arreglo_ok: "i + n \<le> length xs \<Longrightarrow> leer_arreglo xs i n = Listo (take n (drop i xs))"
proof (induction n arbitrary: i)
  case (Suc n)
  then have "take (Suc n) (drop i xs) = xs ! i # take n (drop (Suc i) xs)"
    by (simp add: Cons_nth_drop_Suc [symmetric])
  then show ?case using Suc by simp
qed simp

text \<open>A passenger with five pieces or fewer arrives at the desk with them; with more, not at all.\<close>

lemma pasajero_ida_y_vuelta:
  assumes "0 < puesto" and "de_tipo puesto q = []"
  shows "if length es \<le> 5
    then \<exists>q' q''. llego_pasajero_para_checkin p puesto es q = Listo q' \<and>
           recibir_pasajero_para_checkin puesto q' = Listo (p, es, q'') \<and> (\<lambda>t. de_tipo t q'') = (\<lambda>t. de_tipo t q)
    else llego_pasajero_para_checkin p puesto es q = Fallo RuntimeError"
proof (cases "length es \<le> 5")
  case True
  let ?m = "armar_mensaje_pasajero p es"
  have l: "leer_arreglo (equipajes_p ?m) 0 (nat (cant_equipajes_p ?m)) = Listo es"
    using True leer_arreglo_ok [of 0 "length es" "equipajes_p ?m"]
    by (simp add: armar_mensaje_pasajero_def MAX_EQUIPAJES_POR_PERSONA_def)
  have "de_tipo puesto (q @ [(puesto, ?m)]) = [?m]" using assms(2) by simp
  then obtain r where "pull puesto (q @ [(puesto, ?m)]) = Listo r"
    using pull_tipo_Listo(1) [OF assms(1), of "q @ [(puesto, ?m)]"] by auto
  then obtain t m q'' where p: "pull puesto (q @ [(puesto, ?m)]) = Listo ((t, m), q'')" by (metis prod.exhaust)
  note o = pull_tipo_ok [OF assms(1) p]
  have m: "m = ?m" using o(2) assms(2) by simp
  have d: "de_tipo w q'' = de_tipo w q" for w using o(2) o(3) [of w] assms(2) by (cases "w = puesto") auto
  have "llego_pasajero_para_checkin p puesto es q = Listo (q @ [(puesto, ?m)])"
    using True assms(1) by (simp add: llego_pasajero_para_checkin_def MAX_EQUIPAJES_POR_PERSONA_def push_def)
  moreover have "recibir_pasajero_para_checkin puesto (q @ [(puesto, ?m)]) = Listo (p, es, q'')"
    unfolding recibir_pasajero_para_checkin_def p using m l by (simp add: armar_mensaje_pasajero_def)
  ultimately show ?thesis using True d by auto
next
  case False
  then show ?thesis by (simp add: llego_pasajero_para_checkin_def MAX_EQUIPAJES_POR_PERSONA_def)
qed

section \<open>The files\<close>

text \<open>\<^verbatim>\<open>get_vuelo\<close> of the desk reads on until it has a flight; -1 when the passenger is not in the file.\<close>

fun get_vuelo :: "int \<Rightarrow> (int \<times> int) list \<Rightarrow> int" where
  "get_vuelo pasajero [] = -1"
| "get_vuelo pasajero ((p, v) # archivo) =
     (let num_vuelo = (if pasajero = p then v else -1)
      in if num_vuelo = -1 then get_vuelo pasajero archivo else num_vuelo)"

fun obtener_cantidad_equipaje_intercargo :: "int \<Rightarrow> (int \<times> int) list \<Rightarrow> int" where
  "obtener_cantidad_equipaje_intercargo vuelo [] = 0"
| "obtener_cantidad_equipaje_intercargo vuelo ((v, n) # archivo) =
     (if v = vuelo then n else obtener_cantidad_equipaje_intercargo vuelo archivo)"

text \<open>\<^verbatim>\<open>get_pasajeros\<close> inserts at the front; \<open>peso\<close> is the random weight of each piece.\<close>

fun get_pasajeros :: "int \<Rightarrow> (int \<times> int) list \<Rightarrow> int list \<Rightarrow> int list" where
  "get_pasajeros vuelo [] ids = ids"
| "get_pasajeros vuelo ((p, v) # archivo) ids =
     get_pasajeros vuelo archivo (if v = vuelo then p # ids else ids)"

fun get_equipajes_pasajero :: "(int \<Rightarrow> peso) \<Rightarrow> int \<Rightarrow> int \<Rightarrow> (int \<times> int \<times> int) list \<Rightarrow> equipaje list" where
  "get_equipajes_pasajero peso vuelo pasajero [] = []"
| "get_equipajes_pasajero peso vuelo pasajero ((r, p, v) # archivo) =
     (if v = vuelo \<and> p = pasajero
      then Equipaje (Rfid r v) (peso r) # get_equipajes_pasajero peso vuelo pasajero archivo
      else get_equipajes_pasajero peso vuelo pasajero archivo)"

lemma get_pasajeros_eq:
  "get_pasajeros vuelo archivo ids = rev (map fst (filter (\<lambda>(p, v). v = vuelo) archivo)) @ ids"
  by (induction vuelo archivo ids rule: get_pasajeros.induct) auto

text \<open>Every passenger that the generator brings for a flight is sent back by no desk of that flight, when each passenger has one flight.\<close>

lemma pasajero_en_su_vuelo:
  assumes "distinct (map fst archivo)" and "vuelo \<noteq> -1" and "p \<in> set (get_pasajeros vuelo archivo [])"
  shows "get_vuelo p archivo = vuelo"
proof -
  have "(p, vuelo) \<in> set archivo" using assms(3) by (auto simp: get_pasajeros_eq)
  then show ?thesis using assms(1,2)
  proof (induction p archivo rule: get_vuelo.induct)
    case (2 q p v archivo)
    then show ?case by (force simp: Let_def)
  qed simp
qed

lemma equipajes_de_su_vuelo:
  "e \<in> set (get_equipajes_pasajero peso vuelo p archivo) \<Longrightarrow> numero_de_vuelo_destino (rfid_de e) = vuelo"
  by (induction peso vuelo p archivo rule: get_equipajes_pasajero.induct)
    (auto simp: Equipaje_def Rfid_def split: if_splits)

section \<open>The shared flight of a desk\<close>

record vuelo_en_checkin =
  num_vuelo :: int
  cant_equipajes_v :: int
  id_cinta_checkin :: int

definition tVueloEnCheckin :: "int \<Rightarrow> vuelo_en_checkin" where
  "tVueloEnCheckin cinta = \<lparr>num_vuelo = -1, cant_equipajes_v = 0, id_cinta_checkin = cinta\<rparr>"

text \<open>What the calls do between the lock and the unlock.\<close>

definition iniciar_checkin :: "int \<Rightarrow> vuelo_en_checkin \<Rightarrow> vuelo_en_checkin" where
  "iniciar_checkin numero_vuelo v =
     (if num_vuelo v = -1 then v\<lparr>num_vuelo := numero_vuelo, cant_equipajes_v := 0\<rparr> else v)"

definition cerrar_checkin :: "vuelo_en_checkin \<Rightarrow> vuelo_en_checkin \<times> int llamada" where
  "cerrar_checkin v =
     (if num_vuelo v = -1 then (v, Fallo RuntimeError)
      else (v\<lparr>num_vuelo := -1\<rparr>, Listo (cant_equipajes_v v)))"

definition get_vuelo_actual :: "vuelo_en_checkin \<Rightarrow> int llamada" where
  "get_vuelo_actual v = (if num_vuelo v = -1 then Fallo PuestoSinVuelo else Listo (num_vuelo v))"

text \<open>\<^verbatim>\<open>registrar_equipaje\<close> counts the piece, then puts it on the belt.\<close>

definition registrar_equipaje :: "vuelo_en_checkin \<Rightarrow> vuelo_en_checkin llamada" where
  "registrar_equipaje v =
     (if num_vuelo v = -1 then Fallo PuestoSinVuelo
      else Listo (v\<lparr>cant_equipajes_v := cant_equipajes_v v + 1\<rparr>))"

definition get_cinta_checkin :: "vuelo_en_checkin \<Rightarrow> int" where
  "get_cinta_checkin v = id_cinta_checkin v"

section \<open>Messages of the controllers\<close>

record mensaje_checkin =
  iniciar :: bool
  num_vuelo_m :: int
  num_zona_m :: int

definition enviar_mensaje_to_checkin ::
    "int \<Rightarrow> int \<Rightarrow> int \<Rightarrow> bool \<Rightarrow> mensaje_checkin cola \<Rightarrow> mensaje_checkin cola llamada" where
  "enviar_mensaje_to_checkin vuelo puesto zona inicia q =
     push puesto \<lparr>iniciar = inicia, num_vuelo_m = vuelo, num_zona_m = zona\<rparr> q"

definition recibir_mensaje_controlador_checkin ::
    "int \<Rightarrow> mensaje_checkin cola \<Rightarrow> (mensaje_checkin \<times> mensaje_checkin cola) llamada" where
  "recibir_mensaje_controlador_checkin puesto q =
     (case pull puesto q of Listo ((t, m), q') \<Rightarrow> Listo (m, q') | Bloqueado \<Rightarrow> Bloqueado | Fallo e \<Rightarrow> Fallo e)"

text \<open>The notice for the loading robot of a zone, one queue per zone.\<close>

definition cargar_equipajes :: "int \<Rightarrow> int cola \<Rightarrow> int cola llamada" where
  "cargar_equipajes equipajes_por_cargar q = push 1 equipajes_por_cargar q"

definition get_equipajes_por_cargar :: "int cola \<Rightarrow> (int \<times> int cola) llamada" where
  "get_equipajes_por_cargar q =
     (case pull 0 q of Listo ((t, n), q') \<Rightarrow> Listo (n, q') | Bloqueado \<Rightarrow> Bloqueado | Fallo e \<Rightarrow> Fallo e)"

end
