(* ===== verification/PuestoCheckin.thy ===== *)
theory PuestoCheckin
  imports Checkin
begin

text \<open>
  A check-in desk at work: the loops of \<^verbatim>\<open>processes/puesto_checkin.cpp\<close> and
  \<^verbatim>\<open>processes/controlador_puesto_checkin.cpp\<close> on the shared flight of the desk, whose
  mutex the desk holds while it registers the luggage of a passenger.
\<close>

section \<open>The two processes\<close>

text \<open>
  The desk waits for a passenger, has one who arrived with the flight of the file, registers the
  pieces left under the mutex, is putting a piece on the belt, is about to leave, or died. The
  controller waits, has a message, or died.
\<close>

datatype puesto =
    D_espera | D_llega int "equipaje list" | D_registra int "equipaje list"
  | D_pone int equipaje "equipaje list" | D_sale | D_muerto

datatype control = K_espera | K_mensaje mensaje_checkin | K_muerto

text \<open>A close that was announced: the pieces put for the flight, those lost on the way to the belt, the intercargo, the total.\<close>

record cierre =
  c_vuelo :: int
  c_zona :: int
  c_piezas :: "(int \<times> equipaje) list"
  c_fallidos :: nat
  c_inter :: int
  c_total :: int

record sis_puesto =
  kvuelo :: vuelo_en_checkin
  kmutex :: semset
  kpasajeros :: "mensaje_pasajero cola"
  kmensajes :: "mensaje_checkin cola"
  kavisos :: "int \<Rightarrow> int cola"
  kpuesto :: puesto
  kcontrol :: control
  kintercargo :: int
  kactuales :: "(int \<times> equipaje) list"
  kfallidos :: nat
  kcierres :: "cierre list"

text \<open>
  \<^verbatim>\<open>comienza_checkin_pasajero\<close> and the test of the flight; the exception of
  \<^verbatim>\<open>get_vuelo_actual\<close> when no check-in is open, or a passenger of another flight, lead to
  the unlock.
\<close>

definition fin_entra :: "semset \<Rightarrow> int \<Rightarrow> equipaje list \<Rightarrow> sis_puesto \<Rightarrow> sis_puesto" where
  "fin_entra sem v es s = s\<lparr>kmutex := sem,
     kpuesto := (case get_vuelo_actual (kvuelo s) of
                   Listo actual \<Rightarrow> if actual = v then D_registra v es else D_sale
                 | _ \<Rightarrow> D_sale)\<rparr>"

definition fin_registra_checkin :: "vuelo_en_checkin \<Rightarrow> int \<Rightarrow> equipaje \<Rightarrow> equipaje list \<Rightarrow> sis_puesto \<Rightarrow> sis_puesto" where
  "fin_registra_checkin w v e es s = s\<lparr>kvuelo := w, kpuesto := D_pone v e es\<rparr>"

definition fin_pone :: "int \<Rightarrow> equipaje \<Rightarrow> equipaje list \<Rightarrow> sis_puesto \<Rightarrow> sis_puesto" where
  "fin_pone v e es s = s\<lparr>kactuales := kactuales s @ [(v, e)], kpuesto := D_registra v es\<rparr>"

text \<open>An error of the belt: the handler unlocks and the process ends, with the piece already counted.\<close>

definition fin_falla :: "semset \<Rightarrow> sis_puesto \<Rightarrow> sis_puesto" where
  "fin_falla sem s = s\<lparr>kmutex := sem, kfallidos := kfallidos s + 1, kpuesto := D_muerto\<rparr>"

definition fin_sale :: "semset \<Rightarrow> sis_puesto \<Rightarrow> sis_puesto" where
  "fin_sale sem s = s\<lparr>kmutex := sem, kpuesto := D_espera\<rparr>"

text \<open>The controller opens: when a check-in is open the call only logs, but the intercargo is read anyway.\<close>

definition fin_inicia :: "(int \<times> int) list \<Rightarrow> mensaje_checkin \<Rightarrow> sis_puesto \<Rightarrow> sis_puesto" where
  "fin_inicia intercargo m s = s\<lparr>kvuelo := iniciar_checkin (num_vuelo_m m) (kvuelo s),
     kactuales := (if num_vuelo (kvuelo s) = -1 then [] else kactuales s),
     kfallidos := (if num_vuelo (kvuelo s) = -1 then 0 else kfallidos s),
     kintercargo := obtener_cantidad_equipaje_intercargo (num_vuelo_m m) intercargo,
     kcontrol := K_espera\<rparr>"

definition fin_cierra :: "vuelo_en_checkin \<Rightarrow> int \<Rightarrow> mensaje_checkin \<Rightarrow> int cola \<Rightarrow> sis_puesto \<Rightarrow> sis_puesto" where
  "fin_cierra w n m q s = s\<lparr>kvuelo := w, kavisos := (kavisos s)(num_zona_m m := q), kcontrol := K_espera,
     kcierres := kcierres s @
       [\<lparr>c_vuelo = num_vuelo (kvuelo s), c_zona = num_zona_m m, c_piezas = kactuales s, c_fallidos = kfallidos s,
         c_inter = kintercargo s, c_total = n + kintercargo s\<rparr>]\<rparr>"

text \<open>
  \<open>d\<close> is the number of the desk. Passengers and messages arrive at any time. The calls of the
  controller lock, work and unlock without waiting in between, so each is one step that needs the
  mutex free.
\<close>

inductive paso_checkin_desk ::
    "int \<Rightarrow> (int \<times> int) list \<Rightarrow> (int \<times> int) list \<Rightarrow> sis_puesto \<Rightarrow> sis_puesto \<Rightarrow> bool"
  for d :: int and pasajeros :: "(int \<times> int) list" and intercargo :: "(int \<times> int) list" where
  k_llega: "llego_pasajero_para_checkin p d es (kpasajeros s) = Listo q \<Longrightarrow>
     paso_checkin_desk d pasajeros intercargo s (s\<lparr>kpasajeros := q\<rparr>)"
| k_mensaje: "enviar_mensaje_to_checkin v d z b (kmensajes s) = Listo q' \<Longrightarrow>
     paso_checkin_desk d pasajeros intercargo s (s\<lparr>kmensajes := q'\<rparr>)"
| k_recibe: "kpuesto s = D_espera \<Longrightarrow> recibir_pasajero_para_checkin d (kpasajeros s) = Listo (p, es, q) \<Longrightarrow>
     paso_checkin_desk d pasajeros intercargo s (s\<lparr>kpasajeros := q, kpuesto := D_llega (get_vuelo p pasajeros) es\<rparr>)"
| k_entra: "kpuesto s = D_llega v es \<Longrightarrow> mutex_lock 0 (kmutex s) = Listo sem \<Longrightarrow>
     paso_checkin_desk d pasajeros intercargo s (fin_entra sem v es s)"
| k_registra: "kpuesto s = D_registra v (e # es) \<Longrightarrow> registrar_equipaje (kvuelo s) = Listo w \<Longrightarrow>
     paso_checkin_desk d pasajeros intercargo s (fin_registra_checkin w v e es s)"
| k_pone: "kpuesto s = D_pone v e es \<Longrightarrow> paso_checkin_desk d pasajeros intercargo s (fin_pone v e es s)"
| k_falla: "kpuesto s = D_pone v e es \<Longrightarrow> mutex_unlock 0 (kmutex s) = Listo sem \<Longrightarrow>
     paso_checkin_desk d pasajeros intercargo s (fin_falla sem s)"
| k_sale: "kpuesto s = D_sale \<or> (\<exists>v. kpuesto s = D_registra v []) \<Longrightarrow> mutex_unlock 0 (kmutex s) = Listo sem \<Longrightarrow>
     paso_checkin_desk d pasajeros intercargo s (fin_sale sem s)"
| k_atiende: "kcontrol s = K_espera \<Longrightarrow> recibir_mensaje_controlador_checkin d (kmensajes s) = Listo (m, q') \<Longrightarrow>
     paso_checkin_desk d pasajeros intercargo s (s\<lparr>kmensajes := q', kcontrol := K_mensaje m\<rparr>)"
| k_inicia: "kcontrol s = K_mensaje m \<Longrightarrow> iniciar m \<Longrightarrow> completa (mutex_lock 0 (kmutex s)) \<Longrightarrow>
     paso_checkin_desk d pasajeros intercargo s (fin_inicia intercargo m s)"
| k_cierra: "kcontrol s = K_mensaje m \<Longrightarrow> \<not> iniciar m \<Longrightarrow> completa (mutex_lock 0 (kmutex s)) \<Longrightarrow>
     cerrar_checkin (kvuelo s) = (w, Listo n) \<Longrightarrow>
     cargar_equipajes (n + kintercargo s) (kavisos s (num_zona_m m)) = Listo q'' \<Longrightarrow>
     paso_checkin_desk d pasajeros intercargo s (fin_cierra w n m q'' s)"
| k_cierra_falla: "kcontrol s = K_mensaje m \<Longrightarrow> \<not> iniciar m \<Longrightarrow> completa (mutex_lock 0 (kmutex s)) \<Longrightarrow>
     cerrar_checkin (kvuelo s) = (w, Fallo e') \<Longrightarrow>
     paso_checkin_desk d pasajeros intercargo s (s\<lparr>kvuelo := w, kcontrol := K_muerto\<rparr>)"

text \<open>The desk \<open>d\<close> as its constructor leaves it, on the belt \<open>c\<close>.\<close>

definition ini_checkin_desk :: "int \<Rightarrow> sis_puesto" where
  "ini_checkin_desk c = \<lparr>kvuelo = tVueloEnCheckin c, kmutex = crear_semset [1], kpasajeros = [], kmensajes = [],
     kavisos = (\<lambda>_. []), kpuesto = D_espera, kcontrol = K_espera, kintercargo = 0, kactuales = [],
     kfallidos = 0, kcierres = []\<rparr>"

section \<open>Invariant\<close>

primrec dentro :: "puesto \<Rightarrow> nat" where
  "dentro D_espera = 0"
| "dentro (D_llega v es) = 0"
| "dentro (D_registra v es) = 1"
| "dentro (D_pone v e es) = 1"
| "dentro D_sale = 1"
| "dentro D_muerto = 0"

primrec poniendo :: "puesto \<Rightarrow> int" where
  "poniendo D_espera = 0"
| "poniendo (D_llega v es) = 0"
| "poniendo (D_registra v es) = 0"
| "poniendo (D_pone v e es) = 1"
| "poniendo D_sale = 0"
| "poniendo D_muerto = 0"

text \<open>The desk registers only for the flight that is open.\<close>

primrec en_vuelo :: "vuelo_en_checkin \<Rightarrow> puesto \<Rightarrow> bool" where
  "en_vuelo w D_espera = True"
| "en_vuelo w (D_llega v es) = True"
| "en_vuelo w (D_registra v es) = (num_vuelo w = v \<and> v \<noteq> -1)"
| "en_vuelo w (D_pone v e es) = (num_vuelo w = v \<and> v \<noteq> -1)"
| "en_vuelo w D_sale = True"
| "en_vuelo w D_muerto = True"

definition cuenta_ok :: "sis_puesto \<Rightarrow> bool" where
  "cuenta_ok s \<longleftrightarrow>
     cant_equipajes_v (kvuelo s) = int (length (kactuales s)) + int (kfallidos s) + poniendo (kpuesto s) \<and>
     (num_vuelo (kvuelo s) \<noteq> -1 \<longrightarrow> (\<forall>(v, e) \<in> set (kactuales s). v = num_vuelo (kvuelo s))) \<and>
     kfallidos s \<le> 1 \<and> (0 < kfallidos s \<longrightarrow> kpuesto s = D_muerto)"

definition cierre_puesto_ok :: "puesto \<Rightarrow> cierre \<Rightarrow> bool" where
  "cierre_puesto_ok p c \<longleftrightarrow>
     c_total c = int (length (c_piezas c)) + int (c_fallidos c) + c_inter c \<and>
     (\<forall>(v, e) \<in> set (c_piezas c). v = c_vuelo c) \<and>
     c_fallidos c \<le> 1 \<and> (0 < c_fallidos c \<longrightarrow> p = D_muerto)"

definition avisos_ok :: "sis_puesto \<Rightarrow> bool" where
  "avisos_ok s \<longleftrightarrow> (\<forall>z. de_tipo 1 (kavisos s z) = map c_total (filter (\<lambda>c. c_zona c = z) (kcierres s)))"

definition inv_puesto_desk :: "sis_puesto \<Rightarrow> bool" where
  "inv_puesto_desk s \<longleftrightarrow> kmutex s = [1 - dentro (kpuesto s)] \<and> en_vuelo (kvuelo s) (kpuesto s) \<and>
     cuenta_ok s \<and> (\<forall>c \<in> set (kcierres s). cierre_puesto_ok (kpuesto s) c) \<and> avisos_ok s"

lemma mutex_simps:
  "(mutex_lock 0 [k] = Listo sem) = (0 < k \<and> sem = [k - 1])" "(mutex_unlock 0 [k] = Listo sem) = (sem = [k + 1])"
  "completa (mutex_lock 0 [k]) = (0 < k)"
  by (auto simp: mutex_lock_def mutex_unlock_def paso_simps completa_iff)

text \<open>The mutex is free only when the desk is not inside.\<close>

lemma fuera_si_libre:
  "inv_puesto_desk s \<Longrightarrow> completa (mutex_lock 0 (kmutex s)) \<Longrightarrow>
     dentro (kpuesto s) = 0 \<and> poniendo (kpuesto s) = 0 \<and> en_vuelo w (kpuesto s)"
  by (cases "kpuesto s") (auto simp: inv_puesto_desk_def mutex_simps)

lemma cierres_vivos:
  "\<forall>c \<in> set cs. cierre_puesto_ok p c \<Longrightarrow> p \<noteq> D_muerto \<or> p' = D_muerto \<Longrightarrow> \<forall>c \<in> set cs. cierre_puesto_ok p' c"
  by (auto simp: cierre_puesto_ok_def)

lemma inv_puesto_puesto:
  assumes paso: "paso_checkin_desk d ps ic s t" and inv: "inv_puesto_desk s" and "kcontrol t = kcontrol s"
  shows "inv_puesto_desk t"
  using paso
proof cases
  case (k_recibe p es q)
  then show ?thesis using inv by (auto simp: inv_puesto_desk_def cuenta_ok_def cierre_puesto_ok_def avisos_ok_def)
next
  case (k_entra v es sem)
  have "sem = [0]" using inv k_entra by (auto simp: inv_puesto_desk_def mutex_simps)
  with inv k_entra show ?thesis
    by (auto simp: inv_puesto_desk_def fin_entra_def get_vuelo_actual_def cuenta_ok_def cierre_puesto_ok_def avisos_ok_def)
next
  case (k_registra v e es w)
  then show ?thesis using inv
    by (auto simp: inv_puesto_desk_def fin_registra_checkin_def registrar_equipaje_def cuenta_ok_def cierre_puesto_ok_def avisos_ok_def
        split: if_splits)
next
  case (k_pone v e es)
  then show ?thesis using inv
    by (auto simp: inv_puesto_desk_def fin_pone_def cuenta_ok_def cierre_puesto_ok_def avisos_ok_def)
next
  case (k_falla v e es sem)
  have "sem = [1]" using inv k_falla by (auto simp: inv_puesto_desk_def mutex_simps)
  with inv k_falla show ?thesis
    by (auto simp: inv_puesto_desk_def fin_falla_def cuenta_ok_def cierre_puesto_ok_def avisos_ok_def)
next
  case (k_sale sem)
  have "sem = [1]" using inv k_sale by (auto simp: inv_puesto_desk_def mutex_simps)
  with inv k_sale show ?thesis
    by (auto simp: inv_puesto_desk_def fin_sale_def cuenta_ok_def cierre_puesto_ok_def avisos_ok_def)
qed (use inv assms(3) in \<open>auto simp: inv_puesto_desk_def cuenta_ok_def avisos_ok_def fin_inicia_def fin_cierra_def\<close>)

lemma inv_puesto_inicia:
  assumes inv: "inv_puesto_desk s" and l: "completa (mutex_lock 0 (kmutex s))"
  shows "inv_puesto_desk (fin_inicia ic m s)"
  using inv fuera_si_libre [OF inv l]
  by (auto simp: inv_puesto_desk_def fin_inicia_def iniciar_checkin_def cuenta_ok_def avisos_ok_def)

lemma inv_puesto_cierra:
  assumes inv: "inv_puesto_desk s" and l: "completa (mutex_lock 0 (kmutex s))"
    and c: "cerrar_checkin (kvuelo s) = (w, Listo n)"
    and a: "cargar_equipajes (n + kintercargo s) (kavisos s (num_zona_m m)) = Listo q"
  shows "inv_puesto_desk (fin_cierra w n m q s)"
proof -
  have w: "num_vuelo (kvuelo s) \<noteq> -1" "w = (kvuelo s)\<lparr>num_vuelo := -1\<rparr>" "n = cant_equipajes_v (kvuelo s)"
    using c by (auto simp: cerrar_checkin_def split: if_splits)
  have q: "q = kavisos s (num_zona_m m) @ [(1, n + kintercargo s)]" using a by (simp add: cargar_equipajes_def paso_simps)
  show ?thesis using inv fuera_si_libre [OF inv l] w
    by (auto simp: inv_puesto_desk_def fin_cierra_def cuenta_ok_def cierre_puesto_ok_def avisos_ok_def q)
qed

lemma inv_puesto_paso: "paso_checkin_desk d ps ic s t \<Longrightarrow> inv_puesto_desk s \<Longrightarrow> inv_puesto_desk t"
proof (induction rule: paso_checkin_desk.induct)
  case (k_atiende s m q')
  then show ?case by (auto simp: inv_puesto_desk_def cuenta_ok_def avisos_ok_def)
next
  case (k_cierra_falla s m w e')
  then show ?case
    by (auto simp: inv_puesto_desk_def cuenta_ok_def avisos_ok_def cerrar_checkin_def split: if_splits)
next
  case (k_sale s sem)
  show ?case
    by (rule inv_puesto_puesto [OF paso_checkin_desk.k_sale [OF k_sale(1,2)] k_sale(3)]) (simp add: fin_sale_def)
qed (auto intro: inv_puesto_inicia inv_puesto_cierra,
     (rule inv_puesto_puesto, (rule paso_checkin_desk.intros; assumption), assumption,
       simp add: fin_entra_def fin_registra_checkin_def fin_pone_def fin_falla_def fin_sale_def)+)

lemma inv_puesto_ini: "inv_puesto_desk (ini_checkin_desk c)"
  by (simp add: inv_puesto_desk_def ini_checkin_desk_def cuenta_ok_def avisos_ok_def crear_semset_def tVueloEnCheckin_def)

interpretation puesto: sistema "\<lambda>s. s = ini_checkin_desk c" "paso_checkin_desk d ps ic" inv_puesto_desk
  by unfold_locales (auto intro: inv_puesto_ini inv_puesto_paso)

text \<open>
  C33. The count of a flight at a desk. While the desk is inside, the controller waits for the mutex,
  so no passenger is cut in two by a close. Every close announces to the loading robot of its zone,
  in order, the pieces that were put on the belt for its flight since it was opened, all of them of
  passengers of that flight, plus the intercargo read with the last opening message, and plus one
  if the desk died putting a piece of that flight: then the total is one more than what can arrive.
\<close>

theorem checkin_cuenta:
  assumes "alcanzable (\<lambda>s. s = ini_checkin_desk c) (paso_checkin_desk d ps ic) s"
  shows "(dentro (kpuesto s) = 1 \<longrightarrow> mutex_lock 0 (kmutex s) = Bloqueado) \<and>
    (\<forall>a \<in> set (kcierres s).
       c_total a = int (length (c_piezas a)) + int (c_fallidos a) + c_inter a \<and>
       (\<forall>(v, e) \<in> set (c_piezas a). v = c_vuelo a) \<and>
       c_fallidos a \<le> 1 \<and> (0 < c_fallidos a \<longrightarrow> kpuesto s = D_muerto)) \<and>
    (\<forall>z. de_tipo 1 (kavisos s z) = map c_total (filter (\<lambda>a. c_zona a = z) (kcierres s)))"
proof -
  have inv: "inv_puesto_desk s" by (rule puesto.inv_alcanzable [OF assms])
  then have "dentro (kpuesto s) = 1 \<longrightarrow> mutex_lock 0 (kmutex s) = Bloqueado"
    by (simp add: inv_puesto_desk_def mutex_lock_def paso_simps)
  then show ?thesis using inv unfolding inv_puesto_desk_def cierre_puesto_ok_def avisos_ok_def by blast
qed

text \<open>Flight 7 opens at desk 1, passenger 20 brings a piece, the flight closes with two more from intercargo.\<close>

definition pieza_ejemplo :: equipaje where
  "pieza_ejemplo = Equipaje (Rfid 200 7) 12"

definition estado_puesto :: sis_puesto where
  "estado_puesto = \<lparr>kvuelo = \<lparr>num_vuelo = -1, cant_equipajes_v = 1, id_cinta_checkin = 1\<rparr>, kmutex = [1],
     kpasajeros = [], kmensajes = [], kavisos = (\<lambda>_. [])(3 := [(1, 3)]), kpuesto = D_espera, kcontrol = K_espera,
     kintercargo = 2, kactuales = [(7, pieza_ejemplo)], kfallidos = 0,
     kcierres = [\<lparr>c_vuelo = 7, c_zona = 3, c_piezas = [(7, pieza_ejemplo)], c_fallidos = 0, c_inter = 2, c_total = 3\<rparr>]\<rparr>"

lemma estado_puesto_alcanzable:
  "alcanzable (\<lambda>s. s = ini_checkin_desk 1) (paso_checkin_desk 1 [(20, 7)] [(7, 2)]) estado_puesto"
proof -
  let ?P = "paso_checkin_desk 1 [(20, 7)] [(7, 2)]"
  let ?R = "alcanzable (\<lambda>s. s = ini_checkin_desk 1) ?P"
  let ?ab = "\<lparr>iniciar = True, num_vuelo_m = 7, num_zona_m = 3\<rparr>" and ?ce = "\<lparr>iniciar = False, num_vuelo_m = 7, num_zona_m = 3\<rparr>"
  let ?pa = "armar_mensaje_pasajero 20 [pieza_ejemplo]"
  let ?s = "\<lambda>v n m ps ms p k i a. \<lparr>kvuelo = \<lparr>num_vuelo = v, cant_equipajes_v = n, id_cinta_checkin = 1\<rparr>, kmutex = m,
     kpasajeros = ps, kmensajes = ms, kavisos = (\<lambda>_. []), kpuesto = p, kcontrol = k,
     kintercargo = i, kactuales = a, kfallidos = 0, kcierres = []\<rparr>"
  have p1: "pull 1 [(1, x)] = Listo ((1, x), [])" for x :: 'b by (simp add: pull_def)
  have l: "leer_arreglo (equipajes_p ?pa) 0 1 = Listo [pieza_ejemplo]"
    by (simp add: armar_mensaje_pasajero_def MAX_EQUIPAJES_POR_PERSONA_def)
  have c: "nat (cant_equipajes_p ?pa) = 1" "id_pasajero ?pa = 20" by (simp_all add: armar_mensaje_pasajero_def)
  have 0: "?R (?s (-1) 0 [1] [] [] D_espera K_espera 0 [])"
    by (rule alcanzable.inicio) (simp add: ini_checkin_desk_def tVueloEnCheckin_def crear_semset_def)
  have "?P (?s (-1) 0 [1] [] [] D_espera K_espera 0 []) (?s (-1) 0 [1] [] [(1, ?ab)] D_espera K_espera 0 [])"
    using k_mensaje [of 7 1 3 True "?s (-1) 0 [1] [] [] D_espera K_espera 0 []" "[(1, ?ab)]"]
    by (simp add: enviar_mensaje_to_checkin_def push_def)
  with 0 have 1: "?R (?s (-1) 0 [1] [] [(1, ?ab)] D_espera K_espera 0 [])" by (rule alcanzable.avance)
  have "?P (?s (-1) 0 [1] [] [(1, ?ab)] D_espera K_espera 0 []) (?s (-1) 0 [1] [] [] D_espera (K_mensaje ?ab) 0 [])"
    using k_atiende [of "?s (-1) 0 [1] [] [(1, ?ab)] D_espera K_espera 0 []" 1 ?ab "[]"]
    by (simp add: recibir_mensaje_controlador_checkin_def p1)
  with 1 have 2: "?R (?s (-1) 0 [1] [] [] D_espera (K_mensaje ?ab) 0 [])" by (rule alcanzable.avance)
  have "?P (?s (-1) 0 [1] [] [] D_espera (K_mensaje ?ab) 0 []) (?s 7 0 [1] [] [] D_espera K_espera 2 [])"
    using k_inicia [of "?s (-1) 0 [1] [] [] D_espera (K_mensaje ?ab) 0 []" ?ab 1 "[(20, 7)]" "[(7, 2)]"]
    by (simp add: fin_inicia_def iniciar_checkin_def mutex_simps)
  with 2 have 3: "?R (?s 7 0 [1] [] [] D_espera K_espera 2 [])" by (rule alcanzable.avance)
  have "?P (?s 7 0 [1] [] [] D_espera K_espera 2 []) (?s 7 0 [1] [(1, ?pa)] [] D_espera K_espera 2 [])"
    using k_llega [of 20 1 "[pieza_ejemplo]" "?s 7 0 [1] [] [] D_espera K_espera 2 []" "[(1, ?pa)]"]
    by (simp add: llego_pasajero_para_checkin_def MAX_EQUIPAJES_POR_PERSONA_def push_def)
  with 3 have 4: "?R (?s 7 0 [1] [(1, ?pa)] [] D_espera K_espera 2 [])" by (rule alcanzable.avance)
  have "?P (?s 7 0 [1] [(1, ?pa)] [] D_espera K_espera 2 []) (?s 7 0 [1] [] [] (D_llega 7 [pieza_ejemplo]) K_espera 2 [])"
    using k_recibe [of "?s 7 0 [1] [(1, ?pa)] [] D_espera K_espera 2 []" 1 20 "[pieza_ejemplo]" "[]"
        "[(20, 7)]" "[(7, 2)]"] l
    by (simp add: recibir_pasajero_para_checkin_def p1 c)
  with 4 have 5: "?R (?s 7 0 [1] [] [] (D_llega 7 [pieza_ejemplo]) K_espera 2 [])" by (rule alcanzable.avance)
  have "?P (?s 7 0 [1] [] [] (D_llega 7 [pieza_ejemplo]) K_espera 2 []) (?s 7 0 [0] [] [] (D_registra 7 [pieza_ejemplo]) K_espera 2 [])"
    using k_entra [of "?s 7 0 [1] [] [] (D_llega 7 [pieza_ejemplo]) K_espera 2 []" 7 "[pieza_ejemplo]" "[0]"]
    by (simp add: fin_entra_def get_vuelo_actual_def mutex_simps)
  with 5 have 6: "?R (?s 7 0 [0] [] [] (D_registra 7 [pieza_ejemplo]) K_espera 2 [])" by (rule alcanzable.avance)
  have "?P (?s 7 0 [0] [] [] (D_registra 7 [pieza_ejemplo]) K_espera 2 []) (?s 7 1 [0] [] [] (D_pone 7 pieza_ejemplo []) K_espera 2 [])"
    using k_registra [of "?s 7 0 [0] [] [] (D_registra 7 [pieza_ejemplo]) K_espera 2 []" 7 pieza_ejemplo "[]"]
    by (simp add: fin_registra_checkin_def registrar_equipaje_def)
  with 6 have 7: "?R (?s 7 1 [0] [] [] (D_pone 7 pieza_ejemplo []) K_espera 2 [])" by (rule alcanzable.avance)
  have "?P (?s 7 1 [0] [] [] (D_pone 7 pieza_ejemplo []) K_espera 2 [])
      (?s 7 1 [0] [] [] (D_registra 7 []) K_espera 2 [(7, pieza_ejemplo)])"
    using k_pone [of "?s 7 1 [0] [] [] (D_pone 7 pieza_ejemplo []) K_espera 2 []" 7 pieza_ejemplo "[]"]
    by (simp add: fin_pone_def)
  with 7 have 8: "?R (?s 7 1 [0] [] [] (D_registra 7 []) K_espera 2 [(7, pieza_ejemplo)])" by (rule alcanzable.avance)
  have "?P (?s 7 1 [0] [] [] (D_registra 7 []) K_espera 2 [(7, pieza_ejemplo)])
      (?s 7 1 [1] [] [] D_espera K_espera 2 [(7, pieza_ejemplo)])"
    using k_sale [of "?s 7 1 [0] [] [] (D_registra 7 []) K_espera 2 [(7, pieza_ejemplo)]" "[1]"]
    by (simp add: fin_sale_def mutex_simps)
  with 8 have 9: "?R (?s 7 1 [1] [] [] D_espera K_espera 2 [(7, pieza_ejemplo)])" by (rule alcanzable.avance)
  have "?P (?s 7 1 [1] [] [] D_espera K_espera 2 [(7, pieza_ejemplo)])
      (?s 7 1 [1] [] [(1, ?ce)] D_espera K_espera 2 [(7, pieza_ejemplo)])"
    using k_mensaje [of 7 1 3 False "?s 7 1 [1] [] [] D_espera K_espera 2 [(7, pieza_ejemplo)]" "[(1, ?ce)]"]
    by (simp add: enviar_mensaje_to_checkin_def push_def)
  with 9 have 10: "?R (?s 7 1 [1] [] [(1, ?ce)] D_espera K_espera 2 [(7, pieza_ejemplo)])" by (rule alcanzable.avance)
  have "?P (?s 7 1 [1] [] [(1, ?ce)] D_espera K_espera 2 [(7, pieza_ejemplo)])
      (?s 7 1 [1] [] [] D_espera (K_mensaje ?ce) 2 [(7, pieza_ejemplo)])"
    using k_atiende [of "?s 7 1 [1] [] [(1, ?ce)] D_espera K_espera 2 [(7, pieza_ejemplo)]" 1 ?ce "[]"]
    by (simp add: recibir_mensaje_controlador_checkin_def p1)
  with 10 have 11: "?R (?s 7 1 [1] [] [] D_espera (K_mensaje ?ce) 2 [(7, pieza_ejemplo)])" by (rule alcanzable.avance)
  have "?P (?s 7 1 [1] [] [] D_espera (K_mensaje ?ce) 2 [(7, pieza_ejemplo)]) estado_puesto"
    using k_cierra [of "?s 7 1 [1] [] [] D_espera (K_mensaje ?ce) 2 [(7, pieza_ejemplo)]" ?ce
        "\<lparr>num_vuelo = -1, cant_equipajes_v = 1, id_cinta_checkin = 1\<rparr>" 1 "[(1, 3)]"]
    by (simp add: fin_cierra_def cerrar_checkin_def cargar_equipajes_def push_def mutex_simps estado_puesto_def)
  with 11 show ?thesis by (rule alcanzable.avance)
qed

theorem checkin_cuenta_witness:
  "de_tipo 1 (kavisos estado_puesto 3) = [3] \<and>
   c_total (hd (kcierres estado_puesto)) =
     int (length (c_piezas (hd (kcierres estado_puesto)))) + c_inter (hd (kcierres estado_puesto))"
  using checkin_cuenta [OF estado_puesto_alcanzable] by (simp add: estado_puesto_def)

end
