(* ===== verification/Recorrido.thy ===== *)
theory Recorrido
  imports CintaCheckin CintaEscaner CintaCentral CintaContenedor Torre Colas "HOL-Library.Multiset"
begin

text \<open>
  The journey of the luggage through the airport: the belts of the other theories, joined by the
  programs that move pieces from one to the next: \<^verbatim>\<open>robot_checkin.cpp\<close>,
  \<^verbatim>\<open>robot_scanner.cpp\<close> (through \<^verbatim>\<open>api_scanner.cpp\<close>),
  \<^verbatim>\<open>robot_despacho.cpp\<close>, \<^verbatim>\<open>robot_control_equipaje_sospechoso.cpp\<close> and
  \<^verbatim>\<open>control_equipaje_sospechoso.cpp\<close> (through \<^verbatim>\<open>api_control_equipajes.cpp\<close>) and
  \<^verbatim>\<open>robot_intercargo.cpp\<close> (through \<^verbatim>\<open>api_trasbordo.cpp\<close>), with the processes that
  \<^verbatim>\<open>main.cpp\<close> starts: one robot of check-in, four scanners, two dispatch robots for the zones
  1-2 and 3-4, one robot for the suspicious luggage and its control, one robot of intercargo.
  Every step of a belt is a step of the system of that belt, so its lemmas hold here unchanged.
\<close>

section \<open>The programs between the belts\<close>

text \<open>Where each main loop stands, with the piece it has in its own memory.\<close>

datatype robot_checkin = RC_saca | RC_lleva equipaje | RC_pone
datatype robot_scanner = RS_saca | RS_escanea equipaje | RS_pone
datatype robot_despacho = RD_lee | RD_leyo | RD_pasa | RD_toma int | RD_lleva equipaje int | RD_pone int | RD_muerto
datatype robot_control = RX_lee | RX_leyo | RX_lleva equipaje | RX_muerto
datatype control_sospechoso = CE_espera | CE_lleva equipaje | CE_pone
datatype robot_intercargo = RI_espera | RI_lleva equipaje | RI_pone

text \<open>
  The airport: the belts, the queue to the control, the control tower and the programs. The
  histories \<open>xescaneos\<close> (the pieces the scanners looked at, with the verdict), \<open>xlimpiados\<close> (the
  pieces the control cleared), \<open>xtrasbordo\<close> (the pieces received from other airports) and
  \<open>xperdidos\<close> (the pieces the control robot dropped) are not in the code.
\<close>

record aeropuerto =
  xchk :: "equipaje sis_checkin"
  xesc :: "equipaje sis_escaner"
  xcen :: "equipaje sis_central"
  xzon :: "int \<Rightarrow> equipaje sis_contenedor"
  xcola :: "equipaje cola"
  xtorre :: servidor_torre
  xrobot :: robot_checkin
  xscan :: "nat \<Rightarrow> robot_scanner"
  xdesp :: "nat \<Rightarrow> robot_despacho"
  xctrl :: robot_control
  xsosp :: control_sospechoso
  xinter :: robot_intercargo
  xescaneos :: "(equipaje \<times> bool) list"
  xlimpiados :: "equipaje list"
  xtrasbordo :: "equipaje list"
  xperdidos :: "equipaje list"

text \<open>
  The producers of the main belt: a program that calls \<^verbatim>\<open>colocar_elemento\<close> with its number
  waits on the semaphore of that number less one.
\<close>

definition llamar_colocar :: "int \<Rightarrow> equipaje \<Rightarrow> equipaje sis_central \<Rightarrow> equipaje sis_central" where
  "llamar_colocar id_productor e c = c\<lparr>qprod := (qprod c)(nat (id_productor - 1) := P_espera e)\<rparr>"

definition productor_scanner :: "nat \<Rightarrow> int" where
  "productor_scanner k = int k + 1"

definition productor_control :: int where
  "productor_control = int MAX_SCANNERS + 1"

definition productor_trasbordo :: int where
  "productor_trasbordo = 1 + int MAX_SCANNERS + 1"

text \<open>The zones of the dispatch robots 1 and 2, and the belt of a zone.\<close>

definition zona_desde :: "nat \<Rightarrow> int" where "zona_desde j = 2 * int j + 1"
definition zona_hasta :: "nat \<Rightarrow> int" where "zona_hasta j = 2 * int j + 2"
definition cinta_zona :: "int \<Rightarrow> nat" where "cinta_zona z = nat (z - 1)"

text \<open>The piece read and not yet dealt with, of consumer \<open>j\<close> of the main belt.\<close>

definition leido :: "nat \<Rightarrow> aeropuerto \<Rightarrow> equipaje" where
  "leido j s = ultimo_equipaje_leido (qdesp (xcen s) j)"

text \<open>When \<^verbatim>\<open>colocar_elemento\<close> returns to producer \<open>i\<close>, its program goes back to its loop.\<close>

definition vuelve_productor :: "nat \<Rightarrow> aeropuerto \<Rightarrow> aeropuerto" where
  "vuelve_productor i s =
     (if qprod (xcen s) i \<noteq> P_fuera then s
      else if i < MAX_SCANNERS then s\<lparr>xscan := (xscan s)(i := RS_saca)\<rparr>
      else if i = nat (productor_control - 1) then s\<lparr>xsosp := CE_espera\<rparr>
      else s\<lparr>xinter := RI_espera\<rparr>)"

text \<open>After a step inside an operation of a belt, its program goes on when the operation has returned.\<close>

definition fin_saca_checkin :: "equipaje sis_checkin \<Rightarrow> aeropuerto \<Rightarrow> aeropuerto" where
  "fin_saca_checkin c s = s\<lparr>xchk := c,
     xrobot := if cons c = C_fuera then RC_lleva (last (sacados c)) else RC_saca\<rparr>"

definition fin_pone_escaner :: "equipaje sis_escaner \<Rightarrow> aeropuerto \<Rightarrow> aeropuerto" where
  "fin_pone_escaner c s = s\<lparr>xesc := c, xrobot := if eprod c = E_fuera then RC_saca else RC_pone\<rparr>"

definition fin_saca_escaner :: "nat \<Rightarrow> equipaje sis_escaner \<Rightarrow> aeropuerto \<Rightarrow> aeropuerto" where
  "fin_saca_escaner k c s = s\<lparr>xesc := c,
     xscan := (xscan s)(k := if econs c k = C_fuera then RS_escanea (last (esacados c k)) else RS_saca)\<rparr>"

definition fin_lee_despacho :: "nat \<Rightarrow> equipaje sis_central \<Rightarrow> aeropuerto \<Rightarrow> aeropuerto" where
  "fin_lee_despacho j c s = s\<lparr>xcen := c,
     xdesp := (xdesp s)(j := if qcons c j = C_fuera then RD_leyo else RD_lee)\<rparr>"

definition fin_pone_zona :: "nat \<Rightarrow> int \<Rightarrow> equipaje sis_contenedor \<Rightarrow> aeropuerto \<Rightarrow> aeropuerto" where
  "fin_pone_zona j z c s = s\<lparr>xzon := (xzon s)(z := c),
     xdesp := (xdesp s)(j := if zprod c = P_fuera then RD_lee else RD_pone z)\<rparr>"

definition fin_lee_control :: "equipaje sis_central \<Rightarrow> aeropuerto \<Rightarrow> aeropuerto" where
  "fin_lee_control c s = s\<lparr>xcen := c, xctrl := if qcons c 2 = C_fuera then RX_leyo else RX_lee\<rparr>"

lemmas fin_aeropuerto_defs = fin_saca_checkin_def fin_pone_escaner_def fin_saca_escaner_def
  fin_lee_despacho_def fin_pone_zona_def fin_lee_control_def

subsection \<open>\<^verbatim>\<open>robot_checkin.cpp\<close>\<close>

inductive paso_robot_checkin :: "aeropuerto \<Rightarrow> aeropuerto \<Rightarrow> bool" where
  rc_saca: "xrobot s = RC_saca \<Longrightarrow> paso_checkin (xchk s) c \<Longrightarrow> cons c \<noteq> cons (xchk s) \<Longrightarrow>
     paso_robot_checkin s (fin_saca_checkin c s)"
| rc_llama: "xrobot s = RC_lleva e \<Longrightarrow> eprod (xesc s) = E_fuera \<Longrightarrow>
     paso_robot_checkin s (s\<lparr>xesc := (xesc s)\<lparr>eprod := E_espera e\<rparr>, xrobot := RC_pone\<rparr>)"
| rc_pone: "xrobot s = RC_pone \<Longrightarrow> paso_escaner (xesc s) c \<Longrightarrow> eprod (xesc s) \<noteq> E_fuera \<Longrightarrow>
     eprod c \<noteq> eprod (xesc s) \<Longrightarrow>
     paso_robot_checkin s (fin_pone_escaner c s)"

subsection \<open>\<^verbatim>\<open>robot_scanner.cpp\<close>\<close>

inductive paso_robot_scanner :: "nat \<Rightarrow> aeropuerto \<Rightarrow> aeropuerto \<Rightarrow> bool" for k :: nat where
  rs_inicia: "\<not> eactivo (xesc s) k \<Longrightarrow>
     paso_robot_scanner k s (s\<lparr>xesc := (xesc s)\<lparr>emem := escaner_activar k (emem (xesc s)),
       eactivo := (eactivo (xesc s))(k := True)\<rparr>\<rparr>)"
| rs_saca: "xscan s k = RS_saca \<Longrightarrow> paso_escaner (xesc s) c \<Longrightarrow> econs c k \<noteq> econs (xesc s) k \<Longrightarrow>
     paso_robot_scanner k s (fin_saca_escaner k c s)"
| rs_escanea: "xscan s k = RS_escanea e \<Longrightarrow> qprod (xcen s) k = P_fuera \<Longrightarrow>
     paso_robot_scanner k s (s\<lparr>xcen := llamar_colocar (productor_scanner k) (set_sospechoso b e) (xcen s),
       xscan := (xscan s)(k := RS_pone), xescaneos := xescaneos s @ [(e, b)]\<rparr>)"

text \<open>The producers inside \<^verbatim>\<open>colocar_elemento\<close>: four scanners, the control and intercargo.\<close>

inductive paso_productor :: "nat \<Rightarrow> aeropuerto \<Rightarrow> aeropuerto \<Rightarrow> bool" for i :: nat where
  pr_pone: "paso_central (xcen s) c \<Longrightarrow> qprod (xcen s) i \<noteq> P_fuera \<Longrightarrow> qprod c i \<noteq> qprod (xcen s) i \<Longrightarrow>
     paso_productor i s (vuelve_productor i (s\<lparr>xcen := c\<rparr>))"

subsection \<open>\<^verbatim>\<open>robot_despacho.cpp\<close>\<close>

text \<open>
  \<open>red\<close> is what the network does to the remote call; an answer that does not come raises
  \<^verbatim>\<open>GenericError\<close>, which ends \<^verbatim>\<open>main\<close>: the robot dies with the turn of the belt.
\<close>

definition tras_zona :: "despacho llamada \<Rightarrow> robot_despacho" where
  "tras_zona r = (case r of Listo Deja_pasar \<Rightarrow> RD_pasa | Listo (Toma i z) \<Rightarrow> RD_toma z | _ \<Rightarrow> RD_muerto)"

inductive paso_robot_despacho :: "nat \<Rightarrow> aeropuerto \<Rightarrow> aeropuerto \<Rightarrow> bool" for j :: nat where
  rd_lee: "xdesp s j = RD_lee \<Longrightarrow> paso_central (xcen s) c \<Longrightarrow> qcons c j \<noteq> qcons (xcen s) j \<Longrightarrow>
     paso_robot_despacho j s (fin_lee_despacho j c s)"
| rd_zona: "xdesp s j = RD_leyo \<Longrightarrow>
     vuelta_robot_despacho red (zona_desde j) (zona_hasta j) (rfid_de (leido j s)) (xtorre s) = (t, r) \<Longrightarrow>
     paso_robot_despacho j s (s\<lparr>xtorre := t, xdesp := (xdesp s)(j := tras_zona r)\<rparr>)"
| rd_avanza: "xdesp s j = RD_pasa \<Longrightarrow>
     paso_robot_despacho j s (s\<lparr>xcen := fin_avanzar j (xcen s), xdesp := (xdesp s)(j := RD_lee)\<rparr>)"
| rd_extrae: "xdesp s j = RD_toma z \<Longrightarrow>
     paso_robot_despacho j s (s\<lparr>xcen := fin_extraer j (xcen s), xdesp := (xdesp s)(j := RD_lleva (leido j s) z)\<rparr>)"
| rd_llama: "xdesp s j = RD_lleva e z \<Longrightarrow> zprod (xzon s z) = P_fuera \<Longrightarrow>
     paso_robot_despacho j s (s\<lparr>xzon := (xzon s)(z := (xzon s z)\<lparr>zprod := P_espera e\<rparr>),
       xdesp := (xdesp s)(j := RD_pone z)\<rparr>)"
| rd_pone: "xdesp s j = RD_pone z \<Longrightarrow> paso_contenedor (cinta_zona z) (xzon s z) c \<Longrightarrow>
     zprod (xzon s z) \<noteq> P_fuera \<Longrightarrow> zprod c \<noteq> zprod (xzon s z) \<Longrightarrow>
     paso_robot_despacho j s (fin_pone_zona j z c s)"

subsection \<open>\<^verbatim>\<open>robot_control_equipaje_sospechoso.cpp\<close> and \<^verbatim>\<open>control_equipaje_sospechoso.cpp\<close>\<close>

text \<open>
  The robot is the last consumer: it takes whatever the two dispatch robots let pass, sends to the
  control the pieces of a flight with a zone and drops the others.
\<close>

inductive paso_robot_control :: "aeropuerto \<Rightarrow> aeropuerto \<Rightarrow> bool" where
  rx_lee: "xctrl s = RX_lee \<Longrightarrow> paso_central (xcen s) c \<Longrightarrow> qcons c 2 \<noteq> qcons (xcen s) 2 \<Longrightarrow>
     paso_robot_control s (fin_lee_control c s)"
| rx_extrae: "xctrl s = RX_leyo \<Longrightarrow>
     paso_robot_control s (s\<lparr>xcen := fin_extraer 2 (xcen s), xctrl := RX_lleva (leido 2 s)\<rparr>)"
| rx_envia: "xctrl s = RX_lleva e \<Longrightarrow> vuelta_robot_control red (rfid_de e) (xtorre s) = (t, Listo True) \<Longrightarrow>
     push 1 e (xcola s) = Listo q \<Longrightarrow>
     paso_robot_control s (s\<lparr>xtorre := t, xcola := q, xctrl := RX_lee\<rparr>)"
| rx_descarta: "xctrl s = RX_lleva e \<Longrightarrow> vuelta_robot_control red (rfid_de e) (xtorre s) = (t, Listo False) \<Longrightarrow>
     paso_robot_control s (s\<lparr>xtorre := t, xctrl := RX_lee, xperdidos := xperdidos s @ [e]\<rparr>)"
| rx_muere: "xctrl s = RX_lleva e \<Longrightarrow> vuelta_robot_control red (rfid_de e) (xtorre s) = (t, r) \<Longrightarrow> \<not> completa r \<Longrightarrow>
     paso_robot_control s (s\<lparr>xtorre := t, xctrl := RX_muerto, xperdidos := xperdidos s @ [e]\<rparr>)"

inductive paso_control_sospechoso :: "aeropuerto \<Rightarrow> aeropuerto \<Rightarrow> bool" where
  ce_recibe: "xsosp s = CE_espera \<Longrightarrow> pull 0 (xcola s) = Listo ((m, e), q) \<Longrightarrow>
     paso_control_sospechoso s (s\<lparr>xcola := q, xsosp := CE_lleva e\<rparr>)"
| ce_limpia: "xsosp s = CE_lleva e \<Longrightarrow> qprod (xcen s) (nat (productor_control - 1)) = P_fuera \<Longrightarrow>
     paso_control_sospechoso s (s\<lparr>xcen := llamar_colocar productor_control (set_sospechoso False e) (xcen s),
       xsosp := CE_pone, xlimpiados := xlimpiados s @ [e]\<rparr>)"

subsection \<open>\<^verbatim>\<open>robot_intercargo.cpp\<close>\<close>

text \<open>The pieces come from the loaders of other flights; here any piece may come.\<close>

inductive paso_robot_intercargo :: "aeropuerto \<Rightarrow> aeropuerto \<Rightarrow> bool" where
  ri_recibe: "xinter s = RI_espera \<Longrightarrow>
     paso_robot_intercargo s (s\<lparr>xinter := RI_lleva e, xtrasbordo := xtrasbordo s @ [e]\<rparr>)"
| ri_llama: "xinter s = RI_lleva e \<Longrightarrow> qprod (xcen s) (nat (productor_trasbordo - 1)) = P_fuera \<Longrightarrow>
     paso_robot_intercargo s (s\<lparr>xcen := llamar_colocar productor_trasbordo e (xcen s), xinter := RI_pone\<rparr>)"

subsection \<open>The airport\<close>

text \<open>
  The desks, the loading robots with their controllers and the other clients of the tower take the
  steps of their own components. The tower and the robots share nothing but the remote calls.
\<close>

inductive paso_aeropuerto :: "aeropuerto \<Rightarrow> aeropuerto \<Rightarrow> bool" where
  x_mostradores: "paso_checkin (xchk s) c \<Longrightarrow> cons c = cons (xchk s) \<Longrightarrow> paso_aeropuerto s (s\<lparr>xchk := c\<rparr>)"
| x_robot_checkin: "paso_robot_checkin s t \<Longrightarrow> paso_aeropuerto s t"
| x_scanner: "k < MAX_SCANNERS \<Longrightarrow> paso_robot_scanner k s t \<Longrightarrow> paso_aeropuerto s t"
| x_productor: "paso_productor i s t \<Longrightarrow> paso_aeropuerto s t"
| x_despacho: "j < 2 \<Longrightarrow> paso_robot_despacho j s t \<Longrightarrow> paso_aeropuerto s t"
| x_control: "paso_robot_control s t \<Longrightarrow> paso_aeropuerto s t"
| x_sospechoso: "paso_control_sospechoso s t \<Longrightarrow> paso_aeropuerto s t"
| x_intercargo: "paso_robot_intercargo s t \<Longrightarrow> paso_aeropuerto s t"
| x_carga: "z \<in> {1..4} \<Longrightarrow> paso_contenedor (cinta_zona z) (xzon s z) c \<Longrightarrow> zprod c = zprod (xzon s z) \<Longrightarrow>
     paso_aeropuerto s (s\<lparr>xzon := (xzon s)(z := c)\<rparr>)"
| x_torre: "paso_aeropuerto s (s\<lparr>xtorre := fst (llamar_rpc red p (xtorre s))\<rparr>)"

definition ini_aeropuerto :: aeropuerto where
  "ini_aeropuerto =
     \<lparr>xchk = ini_checkin Equipaje_vacio, xesc = ini_escaner Equipaje_vacio, xcen = ini_central Equipaje_vacio,
      xzon = (\<lambda>z. ini_contenedor (cinta_zona z) Equipaje_vacio), xcola = [],
      xtorre = \<lparr>torre_de = torre_nueva, atiende = True\<rparr>,
      xrobot = RC_saca, xscan = (\<lambda>_. RS_saca), xdesp = (\<lambda>_. RD_lee), xctrl = RX_lee, xsosp = CE_espera,
      xinter = RI_espera, xescaneos = [], xlimpiados = [], xtrasbordo = [], xperdidos = []\<rparr>"

section \<open>What a step of each belt moves\<close>

text \<open>The pieces that a program holds while it is inside an operation of a belt.\<close>

primrec mano_p :: "'a productor \<Rightarrow> 'a multiset" where
  "mano_p P_fuera = {#}"
| "mano_p (P_espera e) = {#e#}"
| "mano_p (P_turno e) = {#e#}"

primrec mano_e :: "'a productor_escaner \<Rightarrow> 'a multiset" where
  "mano_e E_fuera = {#}"
| "mano_e (E_espera e) = {#e#}"
| "mano_e (E_busca e) = {#e#}"
| "mano_e (E_coloca e) = {#e#}"

text \<open>What was given to the scanner belts, to the main belt and to the belt of a zone.\<close>

definition dado_escaner :: "'a sis_escaner \<Rightarrow> 'a multiset" where
  "dado_escaner s = mano_e (eprod s) + (\<Sum>k < MAX_SCANNERS. mset (epuestos s k))"

definition dado_central :: "'a sis_central \<Rightarrow> 'a multiset" where
  "dado_central s = (\<Sum>i < 6. mano_p (qprod s i)) + mset (qpuestos s)"

definition dado_zona :: "'a sis_contenedor \<Rightarrow> 'a multiset" where
  "dado_zona s = mano_p (zprod s) + mset (zpuestos s)"

lemma suma_upd:
  fixes f :: "'b \<Rightarrow> 'c multiset"
  assumes "finite A" and "i \<in> A"
  shows "(\<Sum>k \<in> A. f ((g(i := x)) k)) = f x + (\<Sum>k \<in> A - {i}. f (g k))"
    and "(\<Sum>k \<in> A. f (g k)) = f (g i) + (\<Sum>k \<in> A - {i}. f (g k))"
proof -
  have "(\<Sum>k \<in> A. f ((g(i := x)) k)) = f ((g(i := x)) i) + (\<Sum>k \<in> A - {i}. f ((g(i := x)) k))"
    by (rule sum.remove [OF assms])
  also have "(\<Sum>k \<in> A - {i}. f ((g(i := x)) k)) = (\<Sum>k \<in> A - {i}. f (g k))" by (rule sum.cong) auto
  finally show "(\<Sum>k \<in> A. f ((g(i := x)) k)) = f x + (\<Sum>k \<in> A - {i}. f (g k))" by simp
  show "(\<Sum>k \<in> A. f (g k)) = f (g i) + (\<Sum>k \<in> A - {i}. f (g k))" by (rule sum.remove [OF assms])
qed

lemma checkin_pone:
  assumes "paso_checkin s t" and "cons t = cons s"
  shows "sacados t = sacados s"
  using assms by (cases rule: paso_checkin.cases) (auto simp: fin_poner_def fin_sacar_def split: prod.splits option.splits)

lemma checkin_saca:
  assumes "paso_checkin s t" and "cons t \<noteq> cons s"
  shows "puestos t = puestos s \<and>
    mset (sacados t) = mset (sacados s) + (if cons t = C_fuera then {#last (sacados t)#} else {#})"
  using assms by (cases rule: paso_checkin.cases) (auto simp: fin_poner_def fin_sacar_def split: prod.splits option.splits)

lemma escaner_pone:
  assumes "paso_escaner s t" and "eprod s \<noteq> E_fuera" and "eprod t \<noteq> eprod s" and "eproxima s < MAX_SCANNERS"
  shows "dado_escaner t = dado_escaner s \<and> esacados t = esacados s \<and> econs t = econs s \<and> eactivo t = eactivo s"
  using assms
proof (cases rule: paso_escaner.cases)
  case (e_coloca e)
  then show ?thesis using assms(4)
    by (auto simp: fin_poner_escaner_def dado_escaner_def suma_upd [of "{..<MAX_SCANNERS}" "eproxima s" mset "epuestos s"]
        simp del: fun_upd_apply split: prod.splits)
qed (auto simp: fin_elegir_def fin_sacar_escaner_def dado_escaner_def split: prod.splits)

lemma escaner_saca:
  assumes "paso_escaner s t" and "econs t k \<noteq> econs s k" and "k < MAX_SCANNERS"
  shows "dado_escaner t = dado_escaner s \<and> eprod t = eprod s \<and>
    (\<Sum>k < MAX_SCANNERS. mset (esacados t k)) = (\<Sum>k < MAX_SCANNERS. mset (esacados s k)) +
      (if econs t k = C_fuera then {#last (esacados t k)#} else {#})"
proof -
  have "dado_escaner t = dado_escaner s \<and> eprod t = eprod s \<and>
    (\<exists>es. esacados t = (esacados s)(k := esacados s k @ es) \<and>
       mset es = (if econs t k = C_fuera then {#last (esacados t k)#} else {#}))"
    using assms(1,2)
    by (cases rule: paso_escaner.cases)
      (auto simp: fin_elegir_def fin_poner_escaner_def fin_sacar_escaner_def dado_escaner_def fun_eq_iff
        split: prod.splits option.splits if_splits intro: exI [of _ "[]"])
  moreover have "finite {..<MAX_SCANNERS}" "k \<in> {..<MAX_SCANNERS}" using assms(3) by auto
  note suma_upd [OF this, of mset "esacados s"]
  ultimately show ?thesis by (auto simp del: fun_upd_apply)
qed

lemma central_pone:
  assumes "paso_central s t" and "qprod s i \<noteq> P_fuera" and "qprod t i \<noteq> qprod s i"
    and n: "length (cinta_principal.ids_productores_esperando (qmem s)) = 6"
  shows "dado_central t = dado_central s \<and> qsacados t = qsacados s \<and> qcons t = qcons s \<and> qdesp t = qdesp s \<and> i < 6 \<and>
    (\<forall>k. k \<noteq> i \<longrightarrow> qprod t k = qprod s k)"
proof -
  have suma: "dado_central (s\<lparr>qprod := (qprod s)(i := p), qmem := c, qpuestos := qpuestos s @ es\<rparr>) =
      mano_p p + (\<Sum>k \<in> {..<6} - {i}. mano_p (qprod s k)) + mset (qpuestos s) + mset es"
    and suma': "dado_central (s\<lparr>qprod := (qprod s)(i := p), qmem := c\<rparr>) =
      mano_p p + (\<Sum>k \<in> {..<6} - {i}. mano_p (qprod s k)) + mset (qpuestos s)"
    and suma0: "dado_central s = mano_p (qprod s i) + (\<Sum>k \<in> {..<6} - {i}. mano_p (qprod s k)) + mset (qpuestos s)"
    if "i < 6" for p c es
    using that suma_upd [of "{..<6}" i mano_p "qprod s"] by (simp_all add: dado_central_def del: fun_upd_apply)
  show ?thesis
    using assms(1)
  proof (cases rule: paso_central.cases)
    case (q_pasa i' e sem)
    then have "i' = i" using assms(3) by (auto split: if_splits)
    then show ?thesis using q_pasa n suma' suma0 by simp
  next
    case (q_coloca i' e)
    then have "i' = i" using assms(3) by (auto simp: fin_colocar_def split: if_splits prod.splits)
    then show ?thesis using q_coloca n suma suma0
      by (auto simp: fin_colocar_def fun_upd_other simp del: fun_upd_apply split: prod.splits)
  qed (use assms(2,3) in \<open>auto simp: fin_proximo_def fin_leer_def fin_extraer_def fin_avanzar_def
      split: prod.splits option.splits if_splits\<close>)
qed

lemma central_lee:
  assumes "paso_central s t" and "qcons t j \<noteq> qcons s j"
  shows "dado_central t = dado_central s \<and> qprod t = qprod s \<and> qsacados t = qsacados s \<and>
    (\<forall>k. k \<noteq> j \<longrightarrow> qcons t k = qcons s k \<and> qdesp t k = qdesp s k)"
  using assms
  by (cases rule: paso_central.cases)
    (auto simp: fin_colocar_def fin_proximo_def fin_leer_def fin_extraer_def fin_avanzar_def dado_central_def
      split: prod.splits option.splits if_splits)

lemma central_llama:
  assumes "0 < n" and "n \<le> 6" and "qprod s (nat (n - 1)) = P_fuera"
  shows "dado_central (llamar_colocar n e s) = dado_central s + {#e#}"
  using assms suma_upd [of "{..<6}" "nat (n - 1)" mano_p "qprod s"]
  by (simp add: dado_central_def llamar_colocar_def del: fun_upd_apply)

lemma central_extrae:
  "dado_central (fin_extraer j s) = dado_central s \<and> qprod (fin_extraer j s) = qprod s \<and>
   qsacados (fin_extraer j s) = qsacados s @ [ultimo_equipaje_leido (qdesp s j)] \<and>
   (\<forall>k. k \<noteq> j \<longrightarrow> qdesp (fin_extraer j s) k = qdesp s k)"
  by (auto simp: fin_extraer_def despachante_extraer_def dado_central_def)

lemma central_avanza:
  "dado_central (fin_avanzar j s) = dado_central s \<and> qprod (fin_avanzar j s) = qprod s \<and>
   qsacados (fin_avanzar j s) = qsacados s \<and> (\<forall>k. k \<noteq> j \<longrightarrow> qdesp (fin_avanzar j s) k = qdesp s k)"
  by (auto simp: fin_avanzar_def dado_central_def split: prod.splits)

lemma zona_pone:
  assumes "paso_contenedor k s t" and "zprod s \<noteq> P_fuera" and "zprod t \<noteq> zprod s"
  shows "dado_zona t = dado_zona s"
  using assms
  by (cases rule: paso_contenedor.cases)
    (auto simp: fin_carga_poner_def fin_carga_sacar_def fin_nueva_carga_def fin_avisar_def dado_zona_def
      split: prod.splits if_splits)

lemma zona_otros:
  assumes "paso_contenedor k s t" and "zprod t = zprod s"
  shows "dado_zona t = dado_zona s \<and> zpuestos t = zpuestos s"
  using assms
  by (cases rule: paso_contenedor.cases)
    (auto simp: fin_carga_poner_def fin_carga_sacar_def fin_nueva_carga_def fin_avisar_def dado_zona_def
      split: prod.splits if_splits)

section \<open>The invariant of the journey\<close>

primrec mano_rc :: "robot_checkin \<Rightarrow> equipaje multiset" where
  "mano_rc RC_saca = {#}"
| "mano_rc (RC_lleva e) = {#e#}"
| "mano_rc RC_pone = {#}"

primrec mano_rs :: "robot_scanner \<Rightarrow> equipaje multiset" where
  "mano_rs RS_saca = {#}"
| "mano_rs (RS_escanea e) = {#e#}"
| "mano_rs RS_pone = {#}"

definition mano_rd :: "robot_despacho \<Rightarrow> equipaje multiset" where
  "mano_rd d = (case d of RD_lleva e z \<Rightarrow> {#e#} | _ \<Rightarrow> {#})"

definition mano_rx :: "robot_control \<Rightarrow> equipaje multiset" where
  "mano_rx d = (case d of RX_lleva e \<Rightarrow> {#e#} | _ \<Rightarrow> {#})"

primrec mano_ce :: "control_sospechoso \<Rightarrow> equipaje multiset" where
  "mano_ce CE_espera = {#}"
| "mano_ce (CE_lleva e) = {#e#}"
| "mano_ce CE_pone = {#}"

primrec mano_ri :: "robot_intercargo \<Rightarrow> equipaje multiset" where
  "mano_ri RI_espera = {#}"
| "mano_ri (RI_lleva e) = {#e#}"
| "mano_ri RI_pone = {#}"

text \<open>The belts stay in their reachable states.\<close>

definition partes_ok :: "aeropuerto \<Rightarrow> bool" where
  "partes_ok s \<longleftrightarrow> checkin_alcanzable (xchk s) \<and> escaner_alcanzable (xesc s) \<and> central_alcanzable (xcen s) \<and>
     (\<forall>z \<in> {1..4}. contenedor_alcanzable (cinta_zona z) (xzon s z))"

text \<open>Nothing is lost between two belts.\<close>

definition flujo_ok :: "aeropuerto \<Rightarrow> bool" where
  "flujo_ok s \<longleftrightarrow>
     mset (sacados (xchk s)) = mano_rc (xrobot s) + dado_escaner (xesc s) \<and>
     (\<Sum>k < MAX_SCANNERS. mset (esacados (xesc s) k)) =
       (\<Sum>k < MAX_SCANNERS. mano_rs (xscan s k)) + mset (map fst (xescaneos s)) \<and>
     dado_central (xcen s) + mano_ri (xinter s) =
       mset (map (\<lambda>(e, b). set_sospechoso b e) (xescaneos s)) +
       mset (map (set_sospechoso False) (xlimpiados s)) + mset (xtrasbordo s) \<and>
     mset (qsacados (xcen s)) =
       (\<Sum>j < 2. mano_rd (xdesp s j)) + (\<Sum>z \<in> {1..4}. dado_zona (xzon s z)) + mano_rx (xctrl s) +
       mset (map snd (xcola s)) + mano_ce (xsosp s) + mset (xlimpiados s) + mset (xperdidos s)"

text \<open>A robot that is about to pass or take a piece holds the turn of the main belt.\<close>

definition lecturas_ok :: "aeropuerto \<Rightarrow> bool" where
  "lecturas_ok s \<longleftrightarrow>
     (\<forall>j < 2. (xdesp s j = RD_leyo \<or> xdesp s j = RD_pasa \<or> xdesp s j = RD_muerto \<or> (\<exists>z. xdesp s j = RD_toma z)) \<longrightarrow>
        qcons (xcen s) j = C_fuera \<and> \<not> saco_elemento (qdesp (xcen s) j)) \<and>
     (xctrl s = RX_leyo \<longrightarrow> qcons (xcen s) 2 = C_fuera \<and> \<not> saco_elemento (qdesp (xcen s) 2))"

text \<open>A producer inside the main belt is a program that waits for it.\<close>

definition esperan_ok :: "aeropuerto \<Rightarrow> bool" where
  "esperan_ok s \<longleftrightarrow>
     (\<forall>i < 4. qprod (xcen s) i \<noteq> P_fuera \<longrightarrow> xscan s i = RS_pone) \<and>
     (qprod (xcen s) 4 \<noteq> P_fuera \<longrightarrow> xsosp s = CE_pone) \<and>
     (qprod (xcen s) 5 \<noteq> P_fuera \<longrightarrow> xinter s = RI_pone)"

text \<open>What a dispatch robot takes is clean and of its zones, and so is what reaches them.\<close>

definition zonas_del :: "nat \<Rightarrow> int set" where
  "zonas_del j = {zona_desde j..zona_hasta j}"

definition limpios_ok :: "aeropuerto \<Rightarrow> bool" where
  "limpios_ok s \<longleftrightarrow>
     (\<forall>j < 2. \<forall>z. xdesp s j = RD_toma z \<longrightarrow> z \<in> zonas_del j \<and> \<not> es_sospechoso (leido j s)) \<and>
     (\<forall>j < 2. \<forall>e z. xdesp s j = RD_lleva e z \<longrightarrow> z \<in> zonas_del j \<and> \<not> es_sospechoso e) \<and>
     (\<forall>j < 2. \<forall>z. xdesp s j = RD_pone z \<longrightarrow> z \<in> zonas_del j) \<and>
     (\<forall>z \<in> {1..4}. \<forall>e \<in># dado_zona (xzon s z). \<not> es_sospechoso e)"

definition inv_aeropuerto :: "aeropuerto \<Rightarrow> bool" where
  "inv_aeropuerto s \<longleftrightarrow> partes_ok s \<and> flujo_ok s \<and> lecturas_ok s \<and> esperan_ok s \<and> limpios_ok s"

lemma zonas_del_dentro: "z \<in> zonas_del j \<Longrightarrow> j < 2 \<Longrightarrow> z \<in> {1..4}"
  by (auto simp: fin_aeropuerto_defs zonas_del_def zona_desde_def zona_hasta_def)

lemma productores_valores [simp]:
  "productor_scanner k = int k + 1" "productor_control = 5" "productor_trasbordo = 6"
  by (simp_all add: fin_aeropuerto_defs productor_scanner_def productor_control_def productor_trasbordo_def MAX_SCANNERS_def)

lemma llamar_colocar_campos [simp]:
  "qsacados (llamar_colocar n e c) = qsacados c" "qcons (llamar_colocar n e c) = qcons c"
  "qdesp (llamar_colocar n e c) = qdesp c"
  "qprod (llamar_colocar n e c) = (qprod c)(nat (n - 1) := P_espera e)"
  by (simp_all add: fin_aeropuerto_defs llamar_colocar_def)

lemma vuelve_productor_campos [simp]:
  "xchk (vuelve_productor i s) = xchk s" "xesc (vuelve_productor i s) = xesc s" "xcen (vuelve_productor i s) = xcen s"
  "xzon (vuelve_productor i s) = xzon s" "xcola (vuelve_productor i s) = xcola s"
  "xdesp (vuelve_productor i s) = xdesp s" "xctrl (vuelve_productor i s) = xctrl s"
  "xrobot (vuelve_productor i s) = xrobot s" "xescaneos (vuelve_productor i s) = xescaneos s"
  "xlimpiados (vuelve_productor i s) = xlimpiados s" "xtrasbordo (vuelve_productor i s) = xtrasbordo s"
  "xperdidos (vuelve_productor i s) = xperdidos s"
  by (simp_all add: fin_aeropuerto_defs vuelve_productor_def)

lemma inv_aeropuerto_ini: "inv_aeropuerto ini_aeropuerto"
proof -
  have "\<forall>z \<in> {1..4}. cinta_zona z < 8" by (auto simp: fin_aeropuerto_defs cinta_zona_def)
  then have "partes_ok ini_aeropuerto"
    by (auto simp: fin_aeropuerto_defs partes_ok_def ini_aeropuerto_def intro!: alcanzable.inicio)
  then show ?thesis
    by (simp add: fin_aeropuerto_defs inv_aeropuerto_def flujo_ok_def lecturas_ok_def esperan_ok_def limpios_ok_def leido_def
        ini_aeropuerto_def dado_escaner_def dado_central_def dado_zona_def mano_rd_def mano_rx_def
        ini_checkin_def ini_escaner_def ini_central_def ini_contenedor_def)
qed

text \<open>The four flows, as equations to rewrite with.\<close>

lemma flujo_okD:
  assumes "flujo_ok s"
  shows "mset (sacados (xchk s)) = mano_rc (xrobot s) + dado_escaner (xesc s)"
    and "(\<Sum>k < MAX_SCANNERS. mset (esacados (xesc s) k)) =
      (\<Sum>k < MAX_SCANNERS. mano_rs (xscan s k)) + mset (map fst (xescaneos s))"
    and "dado_central (xcen s) + mano_ri (xinter s) = mset (map (\<lambda>(e, b). set_sospechoso b e) (xescaneos s)) +
      mset (map (set_sospechoso False) (xlimpiados s)) + mset (xtrasbordo s)"
    and "mset (qsacados (xcen s)) = (\<Sum>j < 2. mano_rd (xdesp s j)) + (\<Sum>z \<in> {1..4}. dado_zona (xzon s z)) +
      mano_rx (xctrl s) + mset (map snd (xcola s)) + mano_ce (xsosp s) + mset (xlimpiados s) + mset (xperdidos s)"
  using assms unfolding flujo_ok_def by blast+

lemma partes_okD:
  assumes "partes_ok s"
  shows "checkin_alcanzable (xchk s)" "escaner_alcanzable (xesc s)" "central_alcanzable (xcen s)"
    and "z \<in> {1..4} \<Longrightarrow> contenedor_alcanzable (cinta_zona z) (xzon s z)"
    and "inv_escaner (xesc s)" and "length (cinta_principal.ids_productores_esperando (qmem (xcen s))) = 6"
    and "length (cinta_principal.semaforo_consumidores (qmem (xcen s))) = 3"
proof -
  show "checkin_alcanzable (xchk s)" "escaner_alcanzable (xesc s)" "central_alcanzable (xcen s)"
    using assms by (auto simp: fin_aeropuerto_defs partes_ok_def)
  then show "length (cinta_principal.ids_productores_esperando (qmem (xcen s))) = 6"
    "length (cinta_principal.semaforo_consumidores (qmem (xcen s))) = 3" "inv_escaner (xesc s)"
    using dimensiones_central [of "xcen s"] escaner.inv_alcanzable [of "xesc s"] by (auto simp: fin_aeropuerto_defs dimensiones_def)
  show "contenedor_alcanzable (cinta_zona z) (xzon s z)" if "z \<in> {1..4}"
    using assms that unfolding partes_ok_def by blast
qed

lemma paso_robot_checkin_inv:
  assumes paso: "paso_robot_checkin s t" and inv: "inv_aeropuerto s"
  shows "inv_aeropuerto t"
proof -
  note p = partes_okD [of s] and f = flujo_okD [of s]
  have ok: "partes_ok s" "flujo_ok s" using inv by (auto simp: fin_aeropuerto_defs inv_aeropuerto_def)
  have resto: "lecturas_ok t \<and> esperan_ok t \<and> limpios_ok t"
    using paso inv by (cases rule: paso_robot_checkin.cases)
      (auto simp: fin_aeropuerto_defs inv_aeropuerto_def lecturas_ok_def esperan_ok_def limpios_ok_def leido_def)
  show ?thesis
    using paso
  proof (cases rule: paso_robot_checkin.cases)
    case (rc_saca c)
    have "partes_ok t" using ok(1) rc_saca by (auto simp: fin_aeropuerto_defs partes_ok_def intro: alcanzable.avance)
    moreover have "flujo_ok t"
      using ok(2) rc_saca checkin_saca [OF rc_saca(3,4)] by (auto simp: fin_aeropuerto_defs flujo_ok_def)
    ultimately show ?thesis using resto by (simp add: fin_aeropuerto_defs inv_aeropuerto_def)
  next
    case (rc_llama e)
    have "paso_escaner (xesc s) (xesc t)" using rc_llama by (auto intro: e_llama)
    then have "partes_ok t" using ok(1) rc_llama by (auto simp: fin_aeropuerto_defs partes_ok_def intro: alcanzable.avance)
    moreover have "flujo_ok t" using ok(2) rc_llama by (auto simp: fin_aeropuerto_defs flujo_ok_def dado_escaner_def)
    ultimately show ?thesis using resto by (simp add: fin_aeropuerto_defs inv_aeropuerto_def)
  next
    case (rc_pone c)
    have "eproxima (xesc s) < MAX_SCANNERS" using p(5) [OF ok(1)] by (simp add: fin_aeropuerto_defs inv_escaner_def)
    note d = escaner_pone [OF rc_pone(3,4,5) this]
    have "partes_ok t" using ok(1) rc_pone by (auto simp: fin_aeropuerto_defs partes_ok_def intro: alcanzable.avance)
    moreover have "flujo_ok t" using ok(2) rc_pone d by (auto simp: fin_aeropuerto_defs flujo_ok_def)
    ultimately show ?thesis using resto by (simp add: fin_aeropuerto_defs inv_aeropuerto_def)
  qed
qed

lemma paso_robot_scanner_inv:
  assumes paso: "paso_robot_scanner k s t" and inv: "inv_aeropuerto s" and k: "k < MAX_SCANNERS"
  shows "inv_aeropuerto t"
proof -
  note p = partes_okD [of s]
  have ok: "partes_ok s" "flujo_ok s" "lecturas_ok s" "esperan_ok s" "limpios_ok s"
    using inv by (auto simp: fin_aeropuerto_defs inv_aeropuerto_def)
  have m: "finite {..<MAX_SCANNERS}" "k \<in> {..<MAX_SCANNERS}" using k by auto
  note su = suma_upd [OF m]
  have resto: "lecturas_ok t \<and> limpios_ok t"
    using paso ok(3,5) by (cases rule: paso_robot_scanner.cases) (simp_all add: fin_aeropuerto_defs lecturas_ok_def limpios_ok_def leido_def)
  show ?thesis
    using paso
  proof (cases rule: paso_robot_scanner.cases)
    case rs_inicia
    have "paso_escaner (xesc s) (xesc t)" using rs_inicia k by (auto intro: e_activa)
    then have "partes_ok t" using ok(1) rs_inicia by (auto simp: fin_aeropuerto_defs partes_ok_def intro: alcanzable.avance)
    moreover have "flujo_ok t" using ok(2) rs_inicia by (simp add: fin_aeropuerto_defs flujo_ok_def dado_escaner_def)
    moreover have "esperan_ok t" using ok(4) rs_inicia by (simp add: fin_aeropuerto_defs esperan_ok_def)
    ultimately show ?thesis using resto by (simp add: fin_aeropuerto_defs inv_aeropuerto_def)
  next
    case (rs_saca c)
    have "partes_ok t" using ok(1) rs_saca by (auto simp: fin_aeropuerto_defs partes_ok_def intro: alcanzable.avance)
    moreover have "flujo_ok t"
      using ok(2) rs_saca escaner_saca [OF rs_saca(3,4) k] su(1) [of mano_rs "xscan s"] su(2) [of mano_rs "xscan s"]
      by (auto simp: fin_aeropuerto_defs flujo_ok_def simp del: fun_upd_apply)
    moreover have "esperan_ok t" using ok(4) rs_saca by (auto simp: fin_aeropuerto_defs esperan_ok_def)
    ultimately show ?thesis using resto by (simp add: fin_aeropuerto_defs inv_aeropuerto_def)
  next
    case (rs_escanea e b)
    have k4: "k < 4" using k by (simp add: fin_aeropuerto_defs MAX_SCANNERS_def)
    have "paso_central (xcen s) (xcen t)"
      using rs_escanea k4 p(6) [OF ok(1)] by (auto simp: fin_aeropuerto_defs llamar_colocar_def intro!: q_llama)
    then have "partes_ok t" using ok(1) rs_escanea by (auto simp: fin_aeropuerto_defs partes_ok_def intro: alcanzable.avance)
    moreover have "flujo_ok t"
      using ok(2) rs_escanea k4 su(1) [of mano_rs "xscan s"] su(2) [of mano_rs "xscan s"]
        central_llama [of "productor_scanner k" "xcen s" "set_sospechoso b e"]
      by (auto simp: fin_aeropuerto_defs flujo_ok_def simp del: fun_upd_apply)
    moreover have "esperan_ok t" using ok(4) rs_escanea k4 by (auto simp: fin_aeropuerto_defs esperan_ok_def)
    ultimately show ?thesis using resto by (simp add: fin_aeropuerto_defs inv_aeropuerto_def)
  qed
qed

lemma paso_productor_inv:
  assumes paso: "paso_productor i s t" and inv: "inv_aeropuerto s"
  shows "inv_aeropuerto t"
  using paso
proof cases
  case (pr_pone c)
  note p = partes_okD [of s]
  have ok: "partes_ok s" "flujo_ok s" "lecturas_ok s" "esperan_ok s" "limpios_ok s"
    using inv by (auto simp: fin_aeropuerto_defs inv_aeropuerto_def)
  note d = central_pone [OF pr_pone(2,3,4) p(6) [OF ok(1)]]
  have "partes_ok t" using ok(1) pr_pone by (auto simp: fin_aeropuerto_defs partes_ok_def intro: alcanzable.avance)
  moreover have esperaba: "i < 4 \<longrightarrow> xscan s i = RS_pone" "i = 4 \<longrightarrow> xsosp s = CE_pone" "i = 5 \<longrightarrow> xinter s = RI_pone"
    using ok(4) pr_pone(3) unfolding esperan_ok_def by auto
  moreover have i6: "i < 4 \<or> i = 4 \<or> i = 5" using d by auto
  moreover have "flujo_ok t"
  proof -
    have scan: "mano_rs ((xscan t) k) = mano_rs (xscan s k)" for k
      using esperaba(1) pr_pone(1) by (auto simp: fin_aeropuerto_defs vuelve_productor_def MAX_SCANNERS_def)
    have "mano_ce (xsosp t) = mano_ce (xsosp s)" and "mano_ri (xinter t) = mano_ri (xinter s)"
      using esperaba i6 pr_pone(1) by (auto simp: fin_aeropuerto_defs vuelve_productor_def MAX_SCANNERS_def)
    with scan show ?thesis using ok(2) d pr_pone(1) by (simp add: fin_aeropuerto_defs flujo_ok_def)
  qed
  moreover have "lecturas_ok t" and "limpios_ok t"
    using ok(3,5) d pr_pone(1) by (simp_all add: fin_aeropuerto_defs lecturas_ok_def limpios_ok_def leido_def)
  moreover have "esperan_ok t"
  proof -
    have q: "qprod (xcen t) k = qprod (xcen s) k" if "k \<noteq> i" for k using d that pr_pone(1) by simp
    have scan: "xscan t k = (if k = i \<and> i < 4 \<and> qprod c i = P_fuera then RS_saca else xscan s k)" for k
      using pr_pone(1) by (simp add: fin_aeropuerto_defs vuelve_productor_def MAX_SCANNERS_def)
    have sosp: "xsosp t = (if i = 4 \<and> qprod c i = P_fuera then CE_espera else xsosp s)"
      and inter: "xinter t = (if i = 5 \<and> qprod c i = P_fuera then RI_espera else xinter s)"
      using pr_pone(1) i6 by (auto simp: fin_aeropuerto_defs vuelve_productor_def MAX_SCANNERS_def)
    have qi: "qprod (xcen t) i = qprod c i" using pr_pone(1) by simp
    have "xscan t k = RS_pone" if "k < 4" "qprod (xcen t) k \<noteq> P_fuera" for k
      using that scan [of k] q [of k] qi esperaba(1) ok(4) by (cases "k = i") (auto simp: fin_aeropuerto_defs esperan_ok_def)
    moreover have "xsosp t = CE_pone" if "qprod (xcen t) 4 \<noteq> P_fuera"
      using that sosp q [of 4] qi esperaba(2) ok(4) by (cases "i = 4") (auto simp: fin_aeropuerto_defs esperan_ok_def)
    moreover have "xinter t = RI_pone" if "qprod (xcen t) 5 \<noteq> P_fuera"
      using that inter q [of 5] qi esperaba(3) ok(4) by (cases "i = 5") (auto simp: fin_aeropuerto_defs esperan_ok_def)
    ultimately show ?thesis by (simp add: fin_aeropuerto_defs esperan_ok_def)
  qed
  ultimately show ?thesis by (simp add: fin_aeropuerto_defs inv_aeropuerto_def)
qed

text \<open>The consumer whose turn it is reads; the others see no change.\<close>

lemma lecturas_lee:
  assumes "paso_central (xcen s) c" and "qcons c j \<noteq> qcons (xcen s) j"
  shows "(\<forall>k. k \<noteq> j \<longrightarrow> qcons c k = qcons (xcen s) k \<and> qdesp c k = qdesp (xcen s) k) \<and>
    (qcons c j = C_fuera \<longrightarrow> \<not> saco_elemento (qdesp c j))"
  using assms
  by (cases rule: paso_central.cases)
    (auto simp: fin_aeropuerto_defs fin_colocar_def fin_proximo_def fin_leer_def fin_extraer_def fin_avanzar_def proximo_fin_def
      split: prod.splits option.splits if_splits)

lemma despacho_parte:
  assumes "paso_robot_despacho j s t" and "inv_aeropuerto s" and j: "j < 2"
  shows "partes_ok t"
proof -
  note p = partes_okD [of s]
  have ok: "partes_ok s" "lecturas_ok s" "limpios_ok s" using assms(2) by (auto simp: fin_aeropuerto_defs inv_aeropuerto_def)
  show ?thesis
    using assms(1)
  proof (cases rule: paso_robot_despacho.cases)
    case (rd_lee c)
    then show ?thesis using ok(1) by (auto simp: fin_aeropuerto_defs partes_ok_def intro: alcanzable.avance)
  next
    case rd_avanza
    then have "paso_central (xcen s) (xcen t)"
      using ok(2) j p(7) [OF ok(1)] by (auto simp: fin_aeropuerto_defs lecturas_ok_def intro!: q_avanza)
    then show ?thesis using ok(1) rd_avanza by (auto simp: fin_aeropuerto_defs partes_ok_def intro: alcanzable.avance)
  next
    case (rd_extrae z)
    then have "paso_central (xcen s) (xcen t)"
      using ok(2) j p(7) [OF ok(1)] by (auto simp: fin_aeropuerto_defs lecturas_ok_def intro!: q_extrae)
    then show ?thesis using ok(1) rd_extrae by (auto simp: fin_aeropuerto_defs partes_ok_def intro: alcanzable.avance)
  next
    case (rd_llama e z)
    then have "paso_contenedor (cinta_zona z) (xzon s z) (xzon t z)" by (auto intro: z_llama_poner)
    then show ?thesis using ok(1) rd_llama by (auto simp: fin_aeropuerto_defs partes_ok_def intro: alcanzable.avance)
  next
    case (rd_pone z c)
    then show ?thesis using ok(1) by (auto simp: fin_aeropuerto_defs partes_ok_def intro: alcanzable.avance)
  qed (use ok(1) in \<open>auto simp: fin_aeropuerto_defs partes_ok_def\<close>)
qed

lemma despacho_flujo:
  assumes "paso_robot_despacho j s t" and "inv_aeropuerto s" and j: "j < 2"
  shows "flujo_ok t"
proof -
  have ok: "flujo_ok s" "limpios_ok s" using assms(2) by (auto simp: fin_aeropuerto_defs inv_aeropuerto_def)
  have m: "finite {..<2::nat}" "j \<in> {..<2}" using j by auto
  note mano = suma_upd [OF m, of mano_rd "xdesp s"]
  have z: "finite {1..4::int}" "z \<in> {1..4} \<Longrightarrow> z \<in> {1..4}" for z by auto
  show ?thesis
    using assms(1)
  proof (cases rule: paso_robot_despacho.cases)
    case (rd_lee c)
    then show ?thesis using ok(1) mano central_lee [OF rd_lee(3,4)]
      by (auto simp: fin_aeropuerto_defs flujo_ok_def mano_rd_def simp del: fun_upd_apply)
  next
    case (rd_zona red t' r)
    have "mano_rd (tras_zona r) = {#}" by (auto simp: fin_aeropuerto_defs tras_zona_def mano_rd_def split: llamada.splits despacho.splits)
    then show ?thesis using ok(1) mano rd_zona
      by (auto simp: fin_aeropuerto_defs flujo_ok_def mano_rd_def simp del: fun_upd_apply)
  next
    case rd_avanza
    then show ?thesis using ok(1) mano central_avanza [of j "xcen s"]
      by (auto simp: fin_aeropuerto_defs flujo_ok_def mano_rd_def simp del: fun_upd_apply)
  next
    case (rd_extrae z)
    then show ?thesis using ok(1) mano central_extrae [of j "xcen s"]
      by (auto simp: fin_aeropuerto_defs flujo_ok_def mano_rd_def leido_def simp del: fun_upd_apply)
  next
    case (rd_llama e z)
    then have "z \<in> {1..4}" using ok(2) j zonas_del_dentro unfolding limpios_ok_def by blast
    then show ?thesis using ok(1) mano rd_llama suma_upd [OF z(1), of z dado_zona "xzon s"]
      by (auto simp: fin_aeropuerto_defs flujo_ok_def mano_rd_def dado_zona_def [of "xzon s z"] dado_zona_def [of "zprod_update _ _"]
          simp del: fun_upd_apply)
  next
    case (rd_pone z c)
    then have "z \<in> {1..4}" using ok(2) j zonas_del_dentro unfolding limpios_ok_def by blast
    then show ?thesis using ok(1) mano rd_pone suma_upd [OF z(1), of z dado_zona "xzon s"] zona_pone [OF rd_pone(3-5)]
      by (auto simp: fin_aeropuerto_defs flujo_ok_def mano_rd_def simp del: fun_upd_apply)
  qed
qed

lemma despacho_lecturas:
  assumes "paso_robot_despacho j s t" and "inv_aeropuerto s" and j: "j < 2"
  shows "lecturas_ok t"
proof -
  have ok: "lecturas_ok s" using assms(2) by (auto simp: fin_aeropuerto_defs inv_aeropuerto_def)
  show ?thesis
    using assms(1)
  proof (cases rule: paso_robot_despacho.cases)
    case (rd_lee c)
    note d = lecturas_lee [OF rd_lee(3,4)]
    show ?thesis using ok rd_lee d j by (auto simp: fin_aeropuerto_defs lecturas_ok_def)
  next
    case (rd_zona red t' r)
    then show ?thesis using ok j by (auto simp: fin_aeropuerto_defs lecturas_ok_def)
  next
    case rd_avanza
    then show ?thesis using ok j central_avanza [of j "xcen s"]
      by (auto simp: fin_aeropuerto_defs lecturas_ok_def fin_avanzar_def split: prod.splits)
  next
    case (rd_extrae z)
    then show ?thesis using ok j by (auto simp: fin_aeropuerto_defs lecturas_ok_def fin_extraer_def split: prod.splits)
  qed (use ok j in \<open>auto simp: fin_aeropuerto_defs lecturas_ok_def\<close>)
qed

lemma despacho_esperan:
  assumes "paso_robot_despacho j s t" and "inv_aeropuerto s"
  shows "esperan_ok t"
proof -
  have ok: "esperan_ok s" using assms(2) by (auto simp: fin_aeropuerto_defs inv_aeropuerto_def)
  show ?thesis
    using assms(1)
  proof (cases rule: paso_robot_despacho.cases)
    case (rd_lee c)
    then show ?thesis using ok central_lee [OF rd_lee(3,4)] by (simp add: fin_aeropuerto_defs esperan_ok_def)
  qed (use ok in \<open>simp_all add: fin_aeropuerto_defs esperan_ok_def central_extrae central_avanza\<close>)
qed

text \<open>The decision of the robot: a piece it takes is clean and of a zone of its own.\<close>

lemma tras_zona_toma:
  assumes "vuelta_robot_despacho red (zona_desde j) (zona_hasta j) r s = (t, d)" and "tras_zona d = RD_toma z"
  shows "z \<in> zonas_del j \<and> \<not> sospechoso r"
  using assms
  by (auto simp: fin_aeropuerto_defs vuelta_robot_despacho_def tras_zona_def decidir_despacho_def zonas_del_def
      split: prod.splits llamada.splits despacho.splits if_splits)

lemma tras_zona_otros:
  "tras_zona d \<noteq> RD_lleva e z" "tras_zona d \<noteq> RD_pone z" "tras_zona d \<noteq> RD_lee"
  by (auto simp: fin_aeropuerto_defs tras_zona_def split: llamada.splits despacho.splits)

lemma limpios_okD:
  assumes "limpios_ok s" and "j < 2"
  shows "xdesp s j = RD_toma z \<Longrightarrow> z \<in> zonas_del j \<and> \<not> es_sospechoso (leido j s)"
    and "xdesp s j = RD_lleva e z \<Longrightarrow> z \<in> zonas_del j \<and> \<not> es_sospechoso e"
    and "xdesp s j = RD_pone z \<Longrightarrow> z \<in> zonas_del j"
  using assms unfolding limpios_ok_def by blast+

text \<open>A step of robot \<open>j\<close> that keeps what the others read and the belts of the zones.\<close>

lemma limpios_ok_upd:
  assumes "limpios_ok s" and "j < 2"
    and "\<And>k. k \<noteq> j \<Longrightarrow> xdesp t k = xdesp s k \<and> leido k t = leido k s"
    and "\<And>z. xdesp t j = RD_toma z \<Longrightarrow> z \<in> zonas_del j \<and> \<not> es_sospechoso (leido j t)"
    and "\<And>e z. xdesp t j = RD_lleva e z \<Longrightarrow> z \<in> zonas_del j \<and> \<not> es_sospechoso e"
    and "\<And>z. xdesp t j = RD_pone z \<Longrightarrow> z \<in> zonas_del j"
    and "\<And>z e. z \<in> {1..4} \<Longrightarrow> e \<in># dado_zona (xzon t z) \<Longrightarrow> \<not> es_sospechoso e"
  shows "limpios_ok t"
proof -
  have "(xdesp t k = RD_toma z \<longrightarrow> z \<in> zonas_del k \<and> \<not> es_sospechoso (leido k t)) \<and>
      (xdesp t k = RD_lleva e z \<longrightarrow> z \<in> zonas_del k \<and> \<not> es_sospechoso e) \<and>
      (xdesp t k = RD_pone z \<longrightarrow> z \<in> zonas_del k)" if "k < 2" for k e z
  proof (cases "k = j")
    case True
    then show ?thesis using assms(4-6) by blast
  next
    case False
    then show ?thesis using assms(3) [OF False] limpios_okD [OF assms(1) that] by simp
  qed
  then show ?thesis using assms(7) unfolding limpios_ok_def by blast
qed

lemma despacho_limpios:
  assumes "paso_robot_despacho j s t" and "inv_aeropuerto s" and j: "j < 2"
  shows "limpios_ok t"
proof -
  have ok: "limpios_ok s" using assms(2) by (auto simp: fin_aeropuerto_defs inv_aeropuerto_def)
  have zs: "\<not> es_sospechoso e" if "z \<in> {1..4}" "e \<in># dado_zona (xzon s z)" for z e
    using ok that unfolding limpios_ok_def by blast
  show ?thesis
    using assms(1)
  proof (cases rule: paso_robot_despacho.cases)
    case (rd_lee c)
    show ?thesis
      by (rule limpios_ok_upd [OF ok j]) (use rd_lee zs central_lee [OF rd_lee(3,4)] in \<open>auto simp: fin_aeropuerto_defs leido_def split: if_splits\<close>)
  next
    case (rd_zona red t' r)
    show ?thesis
      by (rule limpios_ok_upd [OF ok j])
        (use rd_zona zs tras_zona_toma [OF rd_zona(3)] tras_zona_otros in \<open>auto simp: fin_aeropuerto_defs leido_def es_sospechoso_def\<close>)
  next
    case rd_avanza
    show ?thesis
      by (rule limpios_ok_upd [OF ok j]) (use rd_avanza zs central_avanza [of j "xcen s"] in \<open>auto simp: fin_aeropuerto_defs leido_def\<close>)
  next
    case (rd_extrae z)
    show ?thesis
      by (rule limpios_ok_upd [OF ok j])
        (use rd_extrae zs central_extrae [of j "xcen s"] limpios_okD(1) [OF ok j] in \<open>auto simp: fin_aeropuerto_defs leido_def\<close>)
  next
    case (rd_llama e z)
    note l = limpios_okD(2) [OF ok j rd_llama(2)]
    show ?thesis
      by (rule limpios_ok_upd [OF ok j]) (use rd_llama zs l in \<open>auto simp: fin_aeropuerto_defs leido_def dado_zona_def split: if_splits\<close>)
  next
    case (rd_pone z c)
    note l = limpios_okD(3) [OF ok j rd_pone(2)] and d = zona_pone [OF rd_pone(3-5)]
    show ?thesis
      by (rule limpios_ok_upd [OF ok j]) (use rd_pone zs l d in \<open>auto simp: fin_aeropuerto_defs leido_def split: if_splits\<close>)
  qed
qed

lemma paso_robot_despacho_inv:
  "paso_robot_despacho j s t \<Longrightarrow> inv_aeropuerto s \<Longrightarrow> j < 2 \<Longrightarrow> inv_aeropuerto t"
  unfolding inv_aeropuerto_def [of t]
  by (intro conjI despacho_parte despacho_flujo despacho_lecturas despacho_esperan despacho_limpios)

lemma control_parte:
  assumes "paso_robot_control s t" and "inv_aeropuerto s"
  shows "partes_ok t"
proof -
  note p = partes_okD [of s]
  have ok: "partes_ok s" "lecturas_ok s" using assms(2) by (auto simp: fin_aeropuerto_defs inv_aeropuerto_def)
  show ?thesis
    using assms(1)
  proof (cases rule: paso_robot_control.cases)
    case (rx_lee c)
    then show ?thesis using ok(1) by (auto simp: fin_aeropuerto_defs partes_ok_def intro: alcanzable.avance)
  next
    case rx_extrae
    then have "paso_central (xcen s) (xcen t)"
      using ok(2) p(7) [OF ok(1)] by (auto simp: fin_aeropuerto_defs lecturas_ok_def intro!: q_extrae)
    then show ?thesis using ok(1) rx_extrae by (auto simp: fin_aeropuerto_defs partes_ok_def intro: alcanzable.avance)
  qed (use ok(1) in \<open>auto simp: fin_aeropuerto_defs partes_ok_def\<close>)
qed

lemma paso_robot_control_inv:
  assumes paso: "paso_robot_control s t" and inv: "inv_aeropuerto s"
  shows "inv_aeropuerto t"
proof -
  have ok: "flujo_ok s" "lecturas_ok s" "esperan_ok s" "limpios_ok s" using inv by (auto simp: fin_aeropuerto_defs inv_aeropuerto_def)
  note parte = control_parte [OF paso inv]
  show ?thesis
    using paso
  proof (cases rule: paso_robot_control.cases)
    case (rx_lee c)
    note d = central_lee [OF rx_lee(3,4)] lecturas_lee [OF rx_lee(3,4)]
    have "flujo_ok t" using ok(1) rx_lee d by (simp add: fin_aeropuerto_defs flujo_ok_def mano_rx_def)
    moreover have "lecturas_ok t" using ok(2) rx_lee d by (auto simp: fin_aeropuerto_defs lecturas_ok_def)
    moreover have "esperan_ok t" using ok(3) rx_lee d by (simp add: fin_aeropuerto_defs esperan_ok_def)
    moreover have "limpios_ok t" using ok(4) rx_lee d by (simp add: fin_aeropuerto_defs limpios_ok_def leido_def)
    ultimately show ?thesis using parte by (simp add: fin_aeropuerto_defs inv_aeropuerto_def)
  next
    case rx_extrae
    note d = central_extrae [of 2 "xcen s"]
    have "flujo_ok t" using ok(1) rx_extrae d by (simp add: fin_aeropuerto_defs flujo_ok_def mano_rx_def leido_def)
    moreover have "lecturas_ok t" using ok(2) rx_extrae d by (auto simp: fin_aeropuerto_defs lecturas_ok_def fin_extraer_def split: prod.splits)
    moreover have "esperan_ok t" using ok(3) rx_extrae d by (simp add: fin_aeropuerto_defs esperan_ok_def)
    moreover have "limpios_ok t" using ok(4) rx_extrae d by (simp add: fin_aeropuerto_defs limpios_ok_def leido_def)
    ultimately show ?thesis using parte by (simp add: fin_aeropuerto_defs inv_aeropuerto_def)
  qed (use parte ok in \<open>simp_all add: fin_aeropuerto_defs inv_aeropuerto_def flujo_ok_def lecturas_ok_def esperan_ok_def limpios_ok_def
      leido_def mano_rx_def paso_simps\<close>)
qed

lemma paso_control_sospechoso_inv:
  assumes paso: "paso_control_sospechoso s t" and inv: "inv_aeropuerto s"
  shows "inv_aeropuerto t"
proof -
  note p = partes_okD [of s]
  have ok: "partes_ok s" "flujo_ok s" "lecturas_ok s" "esperan_ok s" "limpios_ok s"
    using inv by (auto simp: fin_aeropuerto_defs inv_aeropuerto_def)
  show ?thesis
    using paso
  proof (cases rule: paso_control_sospechoso.cases)
    case (ce_recibe m e q)
    then have "xcola s = (m, e) # q" by (simp add: fin_aeropuerto_defs paso_simps)
    then show ?thesis using ok ce_recibe
      by (simp add: fin_aeropuerto_defs inv_aeropuerto_def partes_ok_def flujo_ok_def lecturas_ok_def esperan_ok_def limpios_ok_def leido_def)
  next
    case (ce_limpia e)
    have "paso_central (xcen s) (xcen t)"
      using ce_limpia p(6) [OF ok(1)] by (auto simp: fin_aeropuerto_defs llamar_colocar_def intro!: q_llama)
    then have "partes_ok t" using ok(1) ce_limpia by (auto simp: fin_aeropuerto_defs partes_ok_def intro: alcanzable.avance)
    then show ?thesis
      using ok ce_limpia central_llama [of productor_control "xcen s" "set_sospechoso False e"]
      by (simp add: fin_aeropuerto_defs inv_aeropuerto_def flujo_ok_def lecturas_ok_def esperan_ok_def limpios_ok_def leido_def)
  qed
qed

lemma paso_robot_intercargo_inv:
  assumes paso: "paso_robot_intercargo s t" and inv: "inv_aeropuerto s"
  shows "inv_aeropuerto t"
proof -
  note p = partes_okD [of s]
  have ok: "partes_ok s" "flujo_ok s" "lecturas_ok s" "esperan_ok s" "limpios_ok s"
    using inv by (auto simp: fin_aeropuerto_defs inv_aeropuerto_def)
  show ?thesis
    using paso
  proof (cases rule: paso_robot_intercargo.cases)
    case (ri_recibe e)
    then show ?thesis using ok
      by (simp add: fin_aeropuerto_defs inv_aeropuerto_def partes_ok_def flujo_ok_def lecturas_ok_def esperan_ok_def limpios_ok_def leido_def)
  next
    case (ri_llama e)
    have "paso_central (xcen s) (xcen t)"
      using ri_llama p(6) [OF ok(1)] by (auto simp: fin_aeropuerto_defs llamar_colocar_def intro!: q_llama)
    then have "partes_ok t" using ok(1) ri_llama by (auto simp: fin_aeropuerto_defs partes_ok_def intro: alcanzable.avance)
    then show ?thesis
      using ok ri_llama central_llama [of productor_trasbordo "xcen s" e]
      by (simp add: fin_aeropuerto_defs inv_aeropuerto_def flujo_ok_def lecturas_ok_def esperan_ok_def limpios_ok_def leido_def)
  qed
qed

lemma inv_aeropuerto_paso:
  assumes inv: "inv_aeropuerto s" and paso: "paso_aeropuerto s t"
  shows "inv_aeropuerto t"
proof -
  have ok: "partes_ok s" "flujo_ok s" "lecturas_ok s" "esperan_ok s" "limpios_ok s"
    using inv by (auto simp: fin_aeropuerto_defs inv_aeropuerto_def)
  note resto = lecturas_ok_def esperan_ok_def limpios_ok_def leido_def
  show ?thesis
    using paso
  proof (cases rule: paso_aeropuerto.cases)
    case (x_mostradores c)
    then have "partes_ok t" using ok(1) by (auto simp: fin_aeropuerto_defs partes_ok_def intro: alcanzable.avance)
    then show ?thesis using ok x_mostradores checkin_pone [OF x_mostradores(2,3)]
      by (simp add: fin_aeropuerto_defs inv_aeropuerto_def flujo_ok_def resto)
  next
    case (x_carga z c)
    note d = zona_otros [OF x_carga(3,4)]
    have f: "finite {1..4::int}" by simp
    have "partes_ok t" using ok(1) x_carga by (auto simp: fin_aeropuerto_defs partes_ok_def intro: alcanzable.avance)
    moreover have "flujo_ok t"
      using ok(2) x_carga d suma_upd [OF f x_carga(2), of dado_zona "xzon s"]
      by (auto simp: fin_aeropuerto_defs flujo_ok_def simp del: fun_upd_apply)
    moreover have "limpios_ok t" using ok(5) x_carga d by (auto simp: fin_aeropuerto_defs limpios_ok_def leido_def)
    ultimately show ?thesis using ok x_carga by (simp add: fin_aeropuerto_defs inv_aeropuerto_def lecturas_ok_def esperan_ok_def)
  next
    case (x_torre red q)
    then show ?thesis using ok by (simp add: fin_aeropuerto_defs inv_aeropuerto_def partes_ok_def flujo_ok_def resto)
  qed (use inv in \<open>auto intro: paso_robot_checkin_inv paso_robot_scanner_inv paso_productor_inv paso_robot_despacho_inv
      paso_robot_control_inv paso_control_sospechoso_inv paso_robot_intercargo_inv\<close>)
qed

interpretation aeropuerto: sistema "\<lambda>s. s = ini_aeropuerto" paso_aeropuerto inv_aeropuerto
  by unfold_locales (auto intro: inv_aeropuerto_ini inv_aeropuerto_paso)

abbreviation aeropuerto_alcanzable :: "aeropuerto \<Rightarrow> bool" where
  "aeropuerto_alcanzable \<equiv> alcanzable (\<lambda>s. s = ini_aeropuerto) paso_aeropuerto"

section \<open>The journey is safe\<close>

text \<open>The pieces between the check-in belt and the belts of the zones, wherever they are.\<close>

definition en_camino :: "aeropuerto \<Rightarrow> equipaje multiset" where
  "en_camino s =
     mset (contenido (mem (xchk s))) + mano_rc (xrobot s) + mano_e (eprod (xesc s)) +
     (\<Sum>k < MAX_SCANNERS. mset (contenido (cintas (emem (xesc s)) ! k))) + (\<Sum>k < MAX_SCANNERS. mano_rs (xscan s k)) +
     (\<Sum>i < 6. mano_p (qprod (xcen s) i)) + mset (contenido (qmem (xcen s))) + mano_ri (xinter s) +
     (\<Sum>j < 2. mano_rd (xdesp s j)) + mano_rx (xctrl s) + mset (map snd (xcola s)) + mano_ce (xsosp s)"

definition en_zonas :: "aeropuerto \<Rightarrow> equipaje multiset" where
  "en_zonas s = (\<Sum>z \<in> {1..4}. dado_zona (xzon s z))"

lemma set_sospechoso_dos [simp]: "set_sospechoso b (set_sospechoso c e) = set_sospechoso b e"
  by (simp add: fin_aeropuerto_defs set_sospechoso_def)

lemma es_sospechoso_set [simp]: "es_sospechoso (set_sospechoso b e) = b"
  by (simp add: fin_aeropuerto_defs es_sospechoso_def set_sospechoso_def)

lemma partes_fifo:
  assumes "partes_ok s"
  shows "puestos (xchk s) = sacados (xchk s) @ contenido (mem (xchk s))"
    and "k < MAX_SCANNERS \<Longrightarrow> epuestos (xesc s) k = esacados (xesc s) k @ contenido (cintas (emem (xesc s)) ! k)"
    and "qpuestos (xcen s) = qsacados (xcen s) @ contenido (qmem (xcen s))"
    and "z \<in> {1..4} \<Longrightarrow> zpuestos (xzon s z) = piezas (zentregados (xzon s z)) @ contenido (zmem (xzon s z))"
proof -
  note p = partes_okD [OF assms]
  show "puestos (xchk s) = sacados (xchk s) @ contenido (mem (xchk s))"
    using checkin.inv_alcanzable [OF p(1)] by (simp add: fin_aeropuerto_defs inv_checkin_def)
  show "k < MAX_SCANNERS \<Longrightarrow> epuestos (xesc s) k = esacados (xesc s) k @ contenido (cintas (emem (xesc s)) ! k)"
    using p(5) by (simp add: fin_aeropuerto_defs inv_escaner_def)
  show "qpuestos (xcen s) = qsacados (xcen s) @ contenido (qmem (xcen s))"
    using central.inv_alcanzable [OF p(3)] by (simp add: fin_aeropuerto_defs inv_central_def)
  show "zpuestos (xzon s z) = piezas (zentregados (xzon s z)) @ contenido (zmem (xzon s z))" if "z \<in> {1..4}"
    using contenedor.inv_alcanzable [OF p(4) [OF that]] by (simp add: fin_aeropuerto_defs inv_contenedor_def)
qed

lemma dado_escaner_partes:
  assumes "partes_ok s"
  shows "dado_escaner (xesc s) = mano_e (eprod (xesc s)) + (\<Sum>k < MAX_SCANNERS. mset (esacados (xesc s) k)) +
    (\<Sum>k < MAX_SCANNERS. mset (contenido (cintas (emem (xesc s)) ! k)))"
proof -
  have "(\<Sum>k < MAX_SCANNERS. mset (epuestos (xesc s) k)) =
      (\<Sum>k < MAX_SCANNERS. mset (esacados (xesc s) k) + mset (contenido (cintas (emem (xesc s)) ! k)))"
    by (rule sum.cong) (simp_all add: fin_aeropuerto_defs partes_fifo(2) [OF assms])
  then show ?thesis by (simp add: fin_aeropuerto_defs dado_escaner_def sum.distrib add.assoc)
qed

text \<open>The balance: what the scanners saw and what the control cleared come in and go out once each.\<close>

lemma cuenta_flujo:
  fixes p :: "'b multiset"
  assumes "p = rc + me + (rs + vistos) + ce + cc"
    and "mp + (q + cq) + ri = vistos + limpiados + trasbordo"
    and "q = rd + z + rx + cola + cs + limpiados + perdidos"
  shows "p + trasbordo = cc + rc + me + ce + rs + mp + cq + ri + rd + rx + cola + cs + z + perdidos"
proof (rule multiset_eqI)
  fix a
  show "count (p + trasbordo) a =
      count (cc + rc + me + ce + rs + mp + cq + ri + rd + rx + cola + cs + z + perdidos) a"
    using arg_cong [OF assms(1), of "\<lambda>m. count m a"] arg_cong [OF assms(2), of "\<lambda>m. count m a"]
      arg_cong [OF assms(3), of "\<lambda>m. count m a"] by simp
qed

text \<open>
  C1. Nothing is lost on the way. In every reachable state of the airport the pieces that the desks
  put on the check-in belt, with those that came from other airports, are, up to the mark of
  suspicion and each as many times as it came in, the pieces on the belts and in the memories of the
  robots, those given to the belts of the zones and those the control robot lost: their flight had no
  zone, their rfid was 0, or the remote call failed.
\<close>

theorem recorrido_conserva:
  assumes "aeropuerto_alcanzable s"
  shows "image_mset (set_sospechoso False) (mset (puestos (xchk s)) + mset (xtrasbordo s)) =
    image_mset (set_sospechoso False) (en_camino s + en_zonas s + mset (xperdidos s))"
proof -
  let ?I = "image_mset (set_sospechoso False)"
  have inv: "partes_ok s" "flujo_ok s" using aeropuerto.inv_alcanzable [OF assms] by (auto simp: fin_aeropuerto_defs inv_aeropuerto_def)
  note f = flujo_okD [OF inv(2)] and p = partes_fifo [OF inv(1)]
  have esc: "?I (mset (map (\<lambda>(e, b). set_sospechoso b e) (xescaneos s))) = ?I (mset (map fst (xescaneos s)))"
    by (simp add: fin_aeropuerto_defs image_mset.compositionality comp_def split_def)
  have limp: "?I (mset (map (set_sospechoso False) (xlimpiados s))) = ?I (mset (xlimpiados s))"
    by (simp add: fin_aeropuerto_defs image_mset.compositionality comp_def)
  have e1: "?I (mset (puestos (xchk s))) = ?I (mano_rc (xrobot s)) + ?I (mano_e (eprod (xesc s))) +
      (?I (\<Sum>k < MAX_SCANNERS. mano_rs (xscan s k)) + ?I (mset (map fst (xescaneos s)))) +
      ?I (\<Sum>k < MAX_SCANNERS. mset (contenido (cintas (emem (xesc s)) ! k))) + ?I (mset (contenido (mem (xchk s))))"
    unfolding p(1) mset_append image_mset_union f(1) dado_escaner_partes [OF inv(1)] f(2) by (simp only: add_ac)
  have e2: "?I (\<Sum>i < 6. mano_p (qprod (xcen s) i)) + (?I (mset (qsacados (xcen s))) + ?I (mset (contenido (qmem (xcen s))))) +
      ?I (mano_ri (xinter s)) = ?I (mset (map fst (xescaneos s))) + ?I (mset (xlimpiados s)) + ?I (mset (xtrasbordo s))"
    using arg_cong [OF f(3), of ?I] unfolding dado_central_def p(3) mset_append image_mset_union esc limp .
  note e3 = arg_cong [OF f(4), of ?I, unfolded image_mset_union]
  show ?thesis
    unfolding en_camino_def en_zonas_def image_mset_union by (rule cuenta_flujo [OF e1 e2 e3])
qed

text \<open>
  C2. Only clean luggage is loaded. In every reachable state no piece given to the belts of the zones
  is marked as suspicious, and each of them, as many times as it got there, was found clean by a
  scanner, was cleared by the control or came unmarked from another airport, which no scanner sees.
\<close>

theorem despacho_limpio:
  assumes "aeropuerto_alcanzable s"
  shows "filter_mset es_sospechoso (en_zonas s) = {#} \<and>
    en_zonas s \<subseteq># mset (map (set_sospechoso False \<circ> fst) (filter (\<lambda>x. \<not> snd x) (xescaneos s))) +
      mset (map (set_sospechoso False) (xlimpiados s)) + {#e \<in># mset (xtrasbordo s). \<not> es_sospechoso e#}"
proof -
  let ?N = "\<lambda>e. \<not> es_sospechoso e"
  have inv: "partes_ok s" "flujo_ok s" "limpios_ok s"
    using aeropuerto.inv_alcanzable [OF assms] by (auto simp: fin_aeropuerto_defs inv_aeropuerto_def)
  note f = flujo_okD [OF inv(2)]
  have n: "\<not> es_sospechoso e" if en: "e \<in># en_zonas s" for e
  proof -
    obtain z where "z \<in> {1..4}" "e \<in># dado_zona (xzon s z)"
      using en unfolding en_zonas_def set_mset_sum [OF finite_atLeastAtMost_int] by blast
    then show ?thesis using inv(3) unfolding limpios_ok_def by blast
  qed
  have todos: "filter_mset ?N (en_zonas s) = en_zonas s" using n by (simp add: fin_aeropuerto_defs filter_mset_eq_conv)
  have vistos: "filter_mset ?N (mset (map (\<lambda>(e, b). set_sospechoso b e) xs)) =
      mset (map (set_sospechoso False \<circ> fst) (filter (\<lambda>x. \<not> snd x) xs))" for xs
    by (induction xs) auto
  have limp: "filter_mset ?N (mset (map (set_sospechoso False) xs)) = mset (map (set_sospechoso False) xs)" for xs
    by (induction xs) auto
  have "en_zonas s \<subseteq># mset (qsacados (xcen s))"
    unfolding f(4) en_zonas_def [symmetric] by (simp add: fin_aeropuerto_defs subset_mset.add_increasing subset_mset.add_increasing2)
  also have "\<dots> \<subseteq># dado_central (xcen s) + mano_ri (xinter s)"
    unfolding dado_central_def partes_fifo(3) [OF inv(1)] mset_append
    by (simp add: fin_aeropuerto_defs subset_mset.add_increasing subset_mset.add_increasing2)
  finally have "filter_mset ?N (en_zonas s) \<subseteq># filter_mset ?N (dado_central (xcen s) + mano_ri (xinter s))"
    by (rule multiset_filter_mono)
  then show ?thesis using n unfolding todos f(3) filter_union_mset vistos limp
    by (simp add: fin_aeropuerto_defs filter_mset_eq_conv)
qed

text \<open>The dead robot stays dead, holding the turn.\<close>

lemma muerto_paso:
  assumes "paso_aeropuerto s t" and "xdesp s j = RD_muerto"
  shows "xdesp t j = RD_muerto"
  using assms
proof (cases rule: paso_aeropuerto.cases)
  case x_robot_checkin
  then show ?thesis using assms(2) by (cases rule: paso_robot_checkin.cases) (simp_all add: fin_aeropuerto_defs)
next
  case (x_scanner k)
  from x_scanner(2) show ?thesis using assms(2) by (cases rule: paso_robot_scanner.cases) (simp_all add: fin_aeropuerto_defs)
next
  case (x_productor i)
  then show ?thesis using assms(2) by (cases rule: paso_productor.cases) (simp_all add: fin_aeropuerto_defs)
next
  case (x_despacho j')
  from x_despacho(2) show ?thesis using assms(2) by (cases rule: paso_robot_despacho.cases) (auto simp: fin_aeropuerto_defs)
next
  case x_control
  then show ?thesis using assms(2) by (cases rule: paso_robot_control.cases) (simp_all add: fin_aeropuerto_defs)
next
  case x_sospechoso
  then show ?thesis using assms(2) by (cases rule: paso_control_sospechoso.cases) (simp_all add: fin_aeropuerto_defs)
next
  case x_intercargo
  then show ?thesis using assms(2) by (cases rule: paso_robot_intercargo.cases) (simp_all add: fin_aeropuerto_defs)
qed (simp_all add: fin_aeropuerto_defs)

lemma turno_ajeno:
  assumes inv: "inv_aeropuerto s" and m: "xdesp s j = RD_muerto" "j < 2"
    and i: "i < 3" "qcons (xcen s) i = C_fuera" "\<not> saco_elemento (qdesp (xcen s) i)"
  shows "i = j"
proof (rule ccontr)
  assume ij: "i \<noteq> j"
  have ok: "partes_ok s" "lecturas_ok s" using inv by (auto simp: fin_aeropuerto_defs inv_aeropuerto_def)
  have "qcons (xcen s) j = C_fuera" "\<not> saco_elemento (qdesp (xcen s) j)"
    using ok(2) m unfolding lecturas_ok_def by blast+
  then have t: "qturnos_c (xcen s) j = 1" "qturnos_c (xcen s) i = 1"
    using i by (auto simp: fin_aeropuerto_defs qturnos_c_def ficha_lector_def)
  have c: "inv_central (xcen s)" by (rule central.inv_alcanzable) (rule partes_okD(3) [OF ok(1)])
  have "qturnos_c (xcen s) i = 0"
    using testigo_unico(3) [OF inv_centralD(2) [OF c], of j i] partes_okD(7) [OF ok(1)] m(2) i(1) t ij by simp
  with t show False by simp
qed

lemma muerto_no_sacan:
  assumes "paso_aeropuerto s t" and inv: "inv_aeropuerto s" and m: "xdesp s j = RD_muerto" "j < 2"
  shows "qsacados (xcen t) = qsacados (xcen s)"
proof -
  have ok: "partes_ok s" "lecturas_ok s" using inv by (auto simp: fin_aeropuerto_defs inv_aeropuerto_def)
  show ?thesis
    using assms(1)
  proof (cases rule: paso_aeropuerto.cases)
    case x_robot_checkin
    then show ?thesis by (cases rule: paso_robot_checkin.cases) (simp_all add: fin_aeropuerto_defs)
  next
    case (x_scanner k)
    from x_scanner(2) show ?thesis by (cases rule: paso_robot_scanner.cases) (simp_all add: fin_aeropuerto_defs)
  next
    case (x_productor i)
    then show ?thesis
      by (cases rule: paso_productor.cases) (auto dest: central_pone [OF _ _ _ partes_okD(6) [OF ok(1)]])
  next
    case (x_despacho j')
    from x_despacho(2) show ?thesis
    proof (cases rule: paso_robot_despacho.cases)
      case (rd_extrae z)
      then have "j' = j"
        using ok(2) x_despacho(1) by (intro turno_ajeno [OF inv m]) (auto simp: fin_aeropuerto_defs lecturas_ok_def)
      then show ?thesis using rd_extrae m by simp
    qed (auto dest: central_lee simp: fin_aeropuerto_defs central_avanza)
  next
    case x_control
    then show ?thesis
    proof (cases rule: paso_robot_control.cases)
      case rx_extrae
      then have "2 = j" using ok(2) by (intro turno_ajeno [OF inv m]) (auto simp: fin_aeropuerto_defs lecturas_ok_def)
      then show ?thesis using m by simp
    qed (auto dest: central_lee simp: fin_aeropuerto_defs)
  next
    case x_sospechoso
    then show ?thesis by (cases rule: paso_control_sospechoso.cases) (simp_all add: fin_aeropuerto_defs)
  next
    case x_intercargo
    then show ?thesis by (cases rule: paso_robot_intercargo.cases) (simp_all add: fin_aeropuerto_defs)
  qed (simp_all add: fin_aeropuerto_defs)
qed

text \<open>
  C19. A remote call that fails stops the airport. The dispatch robot that gets no answer from the
  control tower ends with the turn of the main belt, and from then on, whatever the other programs do,
  nothing leaves the main belt.
\<close>

theorem sin_torre_para_la_cinta:
  assumes "aeropuerto_alcanzable s" and "j < 2" and "xdesp s j = RD_leyo"
    and "despachante_get_zona red (numero_de_vuelo_destino (rfid_de (leido j s))) (xtorre s) = (t, Fallo GenericError)"
  shows "\<exists>s'. paso_aeropuerto s s' \<and> xdesp s' j = RD_muerto \<and>
    (\<forall>u. alcanzable (\<lambda>x. x = s') paso_aeropuerto u \<longrightarrow>
       xdesp u j = RD_muerto \<and> qsacados (xcen u) = qsacados (xcen s))"
proof -
  let ?s = "s\<lparr>xtorre := t, xdesp := (xdesp s)(j := RD_muerto)\<rparr>"
  have "vuelta_robot_despacho red (zona_desde j) (zona_hasta j) (rfid_de (leido j s)) (xtorre s) = (t, Fallo GenericError)"
    using assms(4) by (simp add: fin_aeropuerto_defs vuelta_robot_despacho_def)
  then have "paso_robot_despacho j s ?s"
    using rd_zona [OF assms(3), of red] by (simp add: fin_aeropuerto_defs tras_zona_def)
  then have p: "paso_aeropuerto s ?s" using assms(2) by (rule x_despacho [rotated])
  have inv: "inv_aeropuerto ?s" by (rule inv_aeropuerto_paso [OF aeropuerto.inv_alcanzable [OF assms(1)] p])
  have "inv_aeropuerto u \<and> xdesp u j = RD_muerto \<and> qsacados (xcen u) = qsacados (xcen s)"
    if "alcanzable (\<lambda>x. x = ?s) paso_aeropuerto u" for u
    using that
  proof (induction rule: alcanzable.induct)
    case (inicio u)
    then show ?case using inv by simp
  next
    case (avance u v)
    then show ?case using muerto_paso [of u v j] muerto_no_sacan [of u v j] inv_aeropuerto_paso [of u v] assms(2) by simp
  qed
  with p show ?thesis by (intro exI [of _ ?s]) simp
qed

section \<open>A piece on its way\<close>

text \<open>The steps as actions, so that schedules can be run.\<close>

datatype accion_aeropuerto =
    A_mostrador "equipaje accion_checkin" | A_checkin "equipaje accion_checkin"
  | A_llama_escaner | A_pone_escaner "equipaje accion_escaner"
  | A_inicia nat | A_saca_escaner nat "equipaje accion_escaner" | A_escanea nat bool
  | A_productor nat "equipaje accion_central"
  | A_lee nat "equipaje accion_central" | A_zona nat entrega_rpc | A_extrae nat | A_llama_zona nat
  | A_pone_zona nat "equipaje accion_contenedor"
  | A_recibe equipaje | A_llama_trasbordo | A_torre pedido_torre

fun hacer_aeropuerto :: "accion_aeropuerto \<Rightarrow> aeropuerto \<Rightarrow> aeropuerto option" where
  "hacer_aeropuerto (A_mostrador a) s =
     (case hacer_checkin a (xchk s) of Some c \<Rightarrow> if cons c = cons (xchk s) then Some (s\<lparr>xchk := c\<rparr>) else None | None \<Rightarrow> None)"
| "hacer_aeropuerto (A_checkin a) s =
     (if xrobot s = RC_saca
      then (case hacer_checkin a (xchk s) of
              Some c \<Rightarrow> if cons c \<noteq> cons (xchk s)
                then Some (fin_saca_checkin c s)
                else None
            | None \<Rightarrow> None)
      else None)"
| "hacer_aeropuerto A_llama_escaner s =
     (case xrobot s of
        RC_lleva e \<Rightarrow> (case eprod (xesc s) of
            E_fuera \<Rightarrow> Some (s\<lparr>xesc := (xesc s)\<lparr>eprod := E_espera e\<rparr>, xrobot := RC_pone\<rparr>) | _ \<Rightarrow> None)
      | _ \<Rightarrow> None)"
| "hacer_aeropuerto (A_pone_escaner a) s =
     (if xrobot s = RC_pone \<and> eprod (xesc s) \<noteq> E_fuera
      then (case hacer_escaner a (xesc s) of
              Some c \<Rightarrow> if eprod c \<noteq> eprod (xesc s)
                then Some (fin_pone_escaner c s) else None
            | None \<Rightarrow> None)
      else None)"
| "hacer_aeropuerto (A_inicia k) s =
     (if k < MAX_SCANNERS \<and> \<not> eactivo (xesc s) k
      then Some (s\<lparr>xesc := (xesc s)\<lparr>emem := escaner_activar k (emem (xesc s)), eactivo := (eactivo (xesc s))(k := True)\<rparr>\<rparr>)
      else None)"
| "hacer_aeropuerto (A_saca_escaner k a) s =
     (if k < MAX_SCANNERS \<and> xscan s k = RS_saca
      then (case hacer_escaner a (xesc s) of
              Some c \<Rightarrow> if econs c k \<noteq> econs (xesc s) k
                then Some (fin_saca_escaner k c s)
                else None
            | None \<Rightarrow> None)
      else None)"
| "hacer_aeropuerto (A_escanea k b) s =
     (if k < MAX_SCANNERS \<and> qprod (xcen s) k = P_fuera
      then (case xscan s k of
              RS_escanea e \<Rightarrow> Some (s\<lparr>xcen := llamar_colocar (productor_scanner k) (set_sospechoso b e) (xcen s),
                 xscan := (xscan s)(k := RS_pone), xescaneos := xescaneos s @ [(e, b)]\<rparr>)
            | _ \<Rightarrow> None)
      else None)"
| "hacer_aeropuerto (A_productor i a) s =
     (if qprod (xcen s) i \<noteq> P_fuera
      then (case hacer_central a (xcen s) of
              Some c \<Rightarrow> if qprod c i \<noteq> qprod (xcen s) i then Some (vuelve_productor i (s\<lparr>xcen := c\<rparr>)) else None
            | None \<Rightarrow> None)
      else None)"
| "hacer_aeropuerto (A_lee j a) s =
     (if j < 2 \<and> xdesp s j = RD_lee
      then (case hacer_central a (xcen s) of
              Some c \<Rightarrow> if qcons c j \<noteq> qcons (xcen s) j
                then Some (fin_lee_despacho j c s)
                else None
            | None \<Rightarrow> None)
      else None)"
| "hacer_aeropuerto (A_zona j red) s =
     (if j < 2 \<and> xdesp s j = RD_leyo
      then (case vuelta_robot_despacho red (zona_desde j) (zona_hasta j) (rfid_de (leido j s)) (xtorre s) of
              (t, r) \<Rightarrow> Some (s\<lparr>xtorre := t, xdesp := (xdesp s)(j := tras_zona r)\<rparr>))
      else None)"
| "hacer_aeropuerto (A_extrae j) s =
     (case xdesp s j of
        RD_toma z \<Rightarrow> if j < 2
          then Some (s\<lparr>xcen := fin_extraer j (xcen s), xdesp := (xdesp s)(j := RD_lleva (leido j s) z)\<rparr>) else None
      | _ \<Rightarrow> None)"
| "hacer_aeropuerto (A_llama_zona j) s =
     (case xdesp s j of
        RD_lleva e z \<Rightarrow> if j < 2 \<and> zprod (xzon s z) = P_fuera
          then Some (s\<lparr>xzon := (xzon s)(z := (xzon s z)\<lparr>zprod := P_espera e\<rparr>), xdesp := (xdesp s)(j := RD_pone z)\<rparr>)
          else None
      | _ \<Rightarrow> None)"
| "hacer_aeropuerto (A_pone_zona j a) s =
     (case xdesp s j of
        RD_pone z \<Rightarrow>
          (case hacer_contenedor (cinta_zona z) a (xzon s z) of
             Some c \<Rightarrow> if j < 2 \<and> zprod (xzon s z) \<noteq> P_fuera \<and> zprod c \<noteq> zprod (xzon s z)
               then Some (fin_pone_zona j z c s)
               else None
           | None \<Rightarrow> None)
      | _ \<Rightarrow> None)"
| "hacer_aeropuerto (A_recibe e) s =
     (if xinter s = RI_espera then Some (s\<lparr>xinter := RI_lleva e, xtrasbordo := xtrasbordo s @ [e]\<rparr>) else None)"
| "hacer_aeropuerto A_llama_trasbordo s =
     (case xinter s of
        RI_lleva e \<Rightarrow> if qprod (xcen s) (nat (productor_trasbordo - 1)) = P_fuera
          then Some (s\<lparr>xcen := llamar_colocar productor_trasbordo e (xcen s), xinter := RI_pone\<rparr>) else None
      | _ \<Rightarrow> None)"
| "hacer_aeropuerto (A_torre p) s = Some (s\<lparr>xtorre := fst (llamar_rpc Respondida p (xtorre s))\<rparr>)"

lemma hacer_aeropuerto_paso: "hacer_aeropuerto a s = Some t \<Longrightarrow> paso_aeropuerto s t"
  by (cases a)
    (auto split: option.splits if_splits robot_checkin.splits robot_scanner.splits robot_despacho.splits
        robot_intercargo.splits productor_escaner.splits prod.splits
      intro: paso_aeropuerto.intros paso_robot_checkin.intros paso_robot_scanner.intros paso_productor.intros
        paso_robot_despacho.intros paso_robot_intercargo.intros hacer_checkin_paso hacer_escaner_paso
        hacer_central_paso hacer_contenedor_paso simp del: productores_valores)

interpretation aeropuerto_hacer: sistema_ejecutable "\<lambda>s. s = ini_aeropuerto" paso_aeropuerto inv_aeropuerto
    hacer_aeropuerto
  by unfold_locales (rule hacer_aeropuerto_paso)

text \<open>
  Flight 102 has zone 3, which the dispatch robots see as 2. A piece for it goes from desk 1 through
  scanner 1, which finds it clean, to the main belt, where the first dispatch robot reads it.
\<close>

definition pieza_limpia :: equipaje where
  "pieza_limpia = Equipaje (Rfid 7 102) 2000"

definition corrida_lee :: "accion_aeropuerto list" where
  "corrida_lee =
     [A_torre (ASIGNAR_VUELO 3 102),
      A_mostrador (Llama_poner 0 pieza_limpia), A_mostrador (Pasa_poner 0), A_mostrador (Seccion_poner 0),
      A_checkin Llama_sacar, A_checkin Pasa_sacar, A_checkin Seccion_sacar,
      A_inicia 0, A_llama_escaner, A_pone_escaner E_pasa, A_pone_escaner E_elige, A_pone_escaner E_pone,
      A_saca_escaner 0 (E_pide 0), A_saca_escaner 0 (E_entra 0), A_saca_escaner 0 (E_saca 0), A_escanea 0 False,
      A_productor 0 (Q_pasa 0), A_productor 0 (Q_coloca 0),
      A_lee 0 (Q_proximo 0), A_lee 0 (Q_entra 0), A_lee 0 (Q_lee 0)]"

definition corrida_zona :: "accion_aeropuerto list" where
  "corrida_zona = [A_zona 0 Respondida, A_extrae 0, A_llama_zona 0, A_pone_zona 0 Z_pasa_poner, A_pone_zona 0 Z_seccion_poner]"

declare Equipaje_vacio_def [code del]

definition estado_lee :: aeropuerto where
  "estado_lee = the (ejecutar hacer_aeropuerto corrida_lee ini_aeropuerto)"

definition estado_zona :: aeropuerto where
  "estado_zona = the (ejecutar hacer_aeropuerto corrida_zona estado_lee)"

lemma corridas_ok:
  "(case ejecutar hacer_aeropuerto corrida_lee ini_aeropuerto of
      None \<Rightarrow> False
    | Some s \<Rightarrow> xdesp s 0 = RD_leyo \<and>
        (case ejecutar hacer_aeropuerto corrida_zona s of
           None \<Rightarrow> False
         | Some t \<Rightarrow> puestos (xchk t) = [pieza_limpia] \<and> zpuestos (xzon t 2) = [pieza_limpia] \<and>
             xescaneos t = [(pieza_limpia, False)] \<and> xlimpiados t = [] \<and> xtrasbordo t = [] \<and> xperdidos t = []))"
  by code_simp

lemma estado_lee_alcanzable: "aeropuerto_alcanzable estado_lee"
  and estado_zona_alcanzable: "aeropuerto_alcanzable estado_zona"
  and estado_lee_valor: "xdesp estado_lee 0 = RD_leyo"
  and estado_zona_valores: "puestos (xchk estado_zona) = [pieza_limpia]" "zpuestos (xzon estado_zona 2) = [pieza_limpia]"
    "xescaneos estado_zona = [(pieza_limpia, False)]" "xlimpiados estado_zona = []" "xtrasbordo estado_zona = []"
    "xperdidos estado_zona = []"
proof -
  obtain s t where s: "ejecutar hacer_aeropuerto corrida_lee ini_aeropuerto = Some s"
    and t: "ejecutar hacer_aeropuerto corrida_zona s = Some t"
    using corridas_ok by (auto split: option.splits)
  then have e: "estado_lee = s" "estado_zona = t" by (simp_all add: estado_lee_def estado_zona_def)
  show a: "aeropuerto_alcanzable estado_lee" unfolding e by (rule aeropuerto_hacer.ejecutar_inicio [OF refl s])
  show "aeropuerto_alcanzable estado_zona" using aeropuerto_hacer.ejecutar_alcanzable [OF a] t e by blast
  show "xdesp estado_lee 0 = RD_leyo" "puestos (xchk estado_zona) = [pieza_limpia]"
    "zpuestos (xzon estado_zona 2) = [pieza_limpia]" "xescaneos estado_zona = [(pieza_limpia, False)]"
    "xlimpiados estado_zona = []" "xtrasbordo estado_zona = []" "xperdidos estado_zona = []"
    using corridas_ok s t unfolding e by simp_all
qed

theorem recorrido_conserva_witness:
  "pieza_limpia \<in># en_zonas estado_zona \<and>
   image_mset (set_sospechoso False) (en_camino estado_zona + en_zonas estado_zona) = {#set_sospechoso False pieza_limpia#}"
proof
  have "pieza_limpia \<in># dado_zona (xzon estado_zona 2)" by (simp add: dado_zona_def estado_zona_valores)
  then show "pieza_limpia \<in># en_zonas estado_zona"
    unfolding en_zonas_def set_mset_sum [OF finite_atLeastAtMost_int] by (intro UN_I [of 2]) auto
  show "image_mset (set_sospechoso False) (en_camino estado_zona + en_zonas estado_zona) = {#set_sospechoso False pieza_limpia#}"
    using recorrido_conserva [OF estado_zona_alcanzable] by (simp add: estado_zona_valores)
qed

theorem despacho_limpio_witness:
  "zpuestos (xzon estado_zona 2) = [pieza_limpia] \<and> en_zonas estado_zona \<subseteq># {#set_sospechoso False pieza_limpia#}"
  using despacho_limpio [OF estado_zona_alcanzable] by (simp add: estado_zona_valores)

theorem sin_torre_para_la_cinta_witness:
  "\<exists>s'. paso_aeropuerto estado_lee s' \<and> xdesp s' 0 = RD_muerto"
proof -
  have "despachante_get_zona Perdida v s = (s, Fallo GenericError)" for v s
    by (simp add: despachante_get_zona_def llamar_rpc_def)
  from sin_torre_para_la_cinta [OF estado_lee_alcanzable _ estado_lee_valor this] show ?thesis by auto
qed

end
