(* ===== verification/Intercargo.thy ===== *)
theory Intercargo
  imports Colas Equipajes "HOL-Library.Multiset"
begin

text \<open>
  The luggage that changes plane: \<^verbatim>\<open>processes/generador_vuelos_trasbordo.cpp\<close>, which announces
  the incoming flights to the flights they connect with and starts a loader per destination,
  \<^verbatim>\<open>processes/controlador_equipaje_intercargo.cpp\<close>, the loader of a destination, and the
  queues between them, \<^verbatim>\<open>api/api_comunicacion_intercargo.cpp\<close> and
  \<^verbatim>\<open>api/api_comunicacion_aeropuerto.cpp\<close>. The rows of the csv files are arguments; the lines of
  titles and the directories of the processes are left out.
\<close>

section \<open>\<open>std::multimap\<close> with integer keys\<close>

type_synonym 'v multimapa = "(int \<times> 'v) list"

text \<open>\<^verbatim>\<open>insert\<close> puts an entry after those of its key, \<^verbatim>\<open>equal_range\<close> walks them, \<^verbatim>\<open>erase\<close> drops them.\<close>

fun mm_insertar :: "int \<Rightarrow> 'v \<Rightarrow> 'v multimapa \<Rightarrow> 'v multimapa" where
  "mm_insertar k v [] = [(k, v)]"
| "mm_insertar k v (p # m) = (if fst p \<le> k then p # mm_insertar k v m else (k, v) # p # m)"

definition mm_rango :: "int \<Rightarrow> 'v multimapa \<Rightarrow> 'v list" where
  "mm_rango k m = map snd (filter (\<lambda>p. fst p = k) m)"

definition mm_borrar :: "int \<Rightarrow> 'v multimapa \<Rightarrow> 'v multimapa" where
  "mm_borrar k m = filter (\<lambda>p. fst p \<noteq> k) m"

lemma mm_insertar_set [simp]: "set (mm_insertar k v m) = insert (k, v) (set m)"
  by (induction m) auto

lemma mm_insertar_mset [simp]: "mset (mm_insertar k v m) = add_mset (k, v) (mset m)"
  by (induction m) auto

lemma mm_insertar_sorted: "sorted (map fst m) \<Longrightarrow> sorted (map fst (mm_insertar k v m))"
  by (induction m) auto

lemma mm_rango_insertar:
  "sorted (map fst m) \<Longrightarrow> mm_rango j (mm_insertar k v m) = mm_rango j m @ (if j = k then [v] else [])"
proof (induction m)
  case Nil
  then show ?case by (simp add: mm_rango_def)
next
  case (Cons p m)
  show ?case
  proof (cases "fst p \<le> k")
    case True
    then show ?thesis using Cons by (auto simp: mm_rango_def)
  next
    case False
    then have "filter (\<lambda>q. fst q = k) (p # m) = []" using Cons.prems by (auto simp: filter_empty_conv)
    then show ?thesis using False by (auto simp: mm_rango_def)
  qed
qed

lemma mm_rango_borrar: "mm_rango j (mm_borrar k m) = (if j = k then [] else mm_rango j m)"
  by (auto simp: mm_rango_def mm_borrar_def filter_empty_conv intro: arg_cong [of _ _ "map snd"] filter_cong)

section \<open>The announcements\<close>

text \<open>\<^verbatim>\<open>ApiComunicacionIntercargo\<close>: a message has the destination as its type and carries the incoming flight.\<close>

definition informar_vuelo_entrante :: "int \<Rightarrow> int \<Rightarrow> int cola \<Rightarrow> int cola llamada" where
  "informar_vuelo_entrante numero_vuelo_entrante numero_vuelo_destino q =
     push numero_vuelo_destino numero_vuelo_entrante q"

definition esperar_vuelo_entrante :: "int \<Rightarrow> int cola \<Rightarrow> (int \<times> int cola) llamada" where
  "esperar_vuelo_entrante numero_vuelo_destino q = tomar_texto numero_vuelo_destino q"

text \<open>The file of connections: rows (incoming flight, destination).\<close>

definition leer_interconexion :: "(int \<times> int) list \<Rightarrow> int multimapa" where
  "leer_interconexion filas = fold (\<lambda>(e, d). mm_insertar e d) filas []"

text \<open>
  The connections of one incoming flight: a destination seen for the first time gets its loader
  (\<open>lanzados\<close>, the keys of \<^verbatim>\<open>vuelos_lanzados\<close> in order of launch), then the announcement. An
  exception of the queue ends the program.
\<close>

fun informar_destinos :: "int \<Rightarrow> int list \<Rightarrow> int list \<Rightarrow> int cola \<Rightarrow> int list \<times> int cola \<times> falla option" where
  "informar_destinos e [] lanzados q = (lanzados, q, None)"
| "informar_destinos e (d # ds) lanzados q =
     (let lanzados' = (if d \<in> set lanzados then lanzados else lanzados @ [d])
      in case informar_vuelo_entrante e d q of
           Listo q' \<Rightarrow> informar_destinos e ds lanzados' q'
         | Bloqueado \<Rightarrow> (lanzados', q, None)
         | Fallo x \<Rightarrow> (lanzados', q, Some x))"

fun generar :: "int multimapa \<Rightarrow> int list \<Rightarrow> int list \<Rightarrow> int cola \<Rightarrow> int list \<times> int cola \<times> falla option" where
  "generar interconexion [] lanzados q = (lanzados, q, None)"
| "generar interconexion (e # entrantes) lanzados q =
     (case informar_destinos e (mm_rango e interconexion) lanzados q of
        (lanzados', q', None) \<Rightarrow> generar (mm_borrar e interconexion) entrantes lanzados' q'
      | (lanzados', q', Some x) \<Rightarrow> (lanzados', q', Some x))"

text \<open>\<^verbatim>\<open>main\<close>, on the rows of its two files.\<close>

definition generador_vuelos_trasbordo ::
    "(int \<times> int) list \<Rightarrow> (int \<times> int) list \<Rightarrow> int cola \<Rightarrow> int list \<times> int cola \<times> falla option" where
  "generador_vuelos_trasbordo filas_interconexion filas_entrantes q =
     generar (leer_interconexion filas_interconexion) (map snd filas_entrantes) [] q"

section \<open>The loader of a destination\<close>

text \<open>A row of \<^verbatim>\<open>equipaje_destino_N.csv\<close>.\<close>

record fila_equipaje =
  f_entrante :: int
  f_peso :: peso
  f_descripcion :: string
  f_rfid :: int
  f_destino :: int
  f_escalas :: "int list"
  f_escala :: string

text \<open>The piece of a row: its flight is the one of the loader, whatever the row says, and it starts unmarked.\<close>

definition equipaje_de_fila :: "int \<Rightarrow> fila_equipaje \<Rightarrow> equipaje" where
  "equipaje_de_fila numero_vuelo_destino f =
     set_descripcion (f_descripcion f)
       (Equipaje ((Rfid (f_rfid f) numero_vuelo_destino)
          \<lparr>escala_destino := strncpy MAX_SIZE_ESCALA (f_escala f), sospechoso := False, escalas := f_escalas f\<rparr>)
        (f_peso f))"

definition cargar_equipajes_destino :: "int \<Rightarrow> fila_equipaje list \<Rightarrow> equipaje multimapa" where
  "cargar_equipajes_destino numero_vuelo_destino filas =
     fold (\<lambda>f. mm_insertar (f_entrante f) (equipaje_de_fila numero_vuelo_destino f)) filas []"

text \<open>\<^verbatim>\<open>ApiComunicacionAeropuerto\<close>: the zones given to the flights, and the luggage on its way to an airport.\<close>

record mensaje_zona_asignada =
  id_aeropuerto :: int
  numero_de_vuelo :: int
  zona_asignada :: int

definition avisar_zona_asignada :: "int \<Rightarrow> int \<Rightarrow> int \<Rightarrow> mensaje_zona_asignada cola \<Rightarrow> mensaje_zona_asignada cola llamada" where
  "avisar_zona_asignada num_vuelo num_zona aero q =
     (if aero = -1 then Fallo GenericError
      else push num_vuelo \<lparr>id_aeropuerto = aero, numero_de_vuelo = num_vuelo, zona_asignada = num_zona\<rparr> q)"

definition esperar_zona_asignada :: "int \<Rightarrow> mensaje_zona_asignada cola \<Rightarrow> (int \<times> mensaje_zona_asignada cola) llamada" where
  "esperar_zona_asignada numero_vuelo q =
     (case tomar_texto numero_vuelo q of
        Listo (m, q') \<Rightarrow> Listo (id_aeropuerto m, q') | Bloqueado \<Rightarrow> Bloqueado | Fallo x \<Rightarrow> Fallo x)"

definition enviar_equipaje_intercargo :: "equipaje \<Rightarrow> int \<Rightarrow> equipaje cola \<Rightarrow> equipaje cola llamada" where
  "enviar_equipaje_intercargo e aero q = push aero e q"

definition get_proximo_equipaje_intercargo :: "int \<Rightarrow> equipaje cola \<Rightarrow> (equipaje \<times> equipaje cola) llamada" where
  "get_proximo_equipaje_intercargo aero q = tomar_texto aero q"

fun enviar_rango :: "int \<Rightarrow> equipaje list \<Rightarrow> equipaje cola \<Rightarrow> equipaje cola \<times> falla option" where
  "enviar_rango aero [] q = (q, None)"
| "enviar_rango aero (e # es) q =
     (case enviar_equipaje_intercargo e aero q of
        Listo q' \<Rightarrow> enviar_rango aero es q' | Bloqueado \<Rightarrow> (q, None) | Fallo x \<Rightarrow> (q, Some x))"

lemma tomar_texto_length: "tomar_texto t q = Listo (m, q') \<Longrightarrow> length q = Suc (length q')"
  by (auto simp: tomar_texto_def pull_def dest: sacar_primero_mset split: llamada.splits option.splits if_splits)

text \<open>
  The loop of \<^verbatim>\<open>main\<close>: while there is luggage it waits for an incoming flight and sends what
  the flight brought. Every turn takes a message, so the loop ends or blocks; the result is the
  luggage left, the queues and how the call stands.
\<close>

function atender_vuelos :: "int \<Rightarrow> int \<Rightarrow> equipaje multimapa \<Rightarrow> int cola \<Rightarrow> equipaje cola
    \<Rightarrow> equipaje multimapa \<times> int cola \<times> equipaje cola \<times> unit llamada" where
  "atender_vuelos destino aero m q qe =
     (if m = [] then (m, q, qe, Listo ())
      else case esperar_vuelo_entrante destino q of
             Listo (e, q') \<Rightarrow>
               (case enviar_rango aero (mm_rango e m) qe of
                  (qe', None) \<Rightarrow> atender_vuelos destino aero (mm_borrar e m) q' qe'
                | (qe', Some x) \<Rightarrow> (m, q', qe', Fallo x))
           | Bloqueado \<Rightarrow> (m, q, qe, Bloqueado)
           | Fallo x \<Rightarrow> (m, q, qe, Fallo x))"
  by pat_completeness auto

termination
  by (relation "measure (\<lambda>(destino, aero, m, q, qe). length q)")
    (auto simp: esperar_vuelo_entrante_def dest: tomar_texto_length)

declare atender_vuelos.simps [simp del]

definition controlador_equipaje_intercargo :: "int \<Rightarrow> fila_equipaje list \<Rightarrow> mensaje_zona_asignada cola
    \<Rightarrow> int cola \<Rightarrow> equipaje cola \<Rightarrow> equipaje multimapa \<times> int cola \<times> equipaje cola \<times> unit llamada" where
  "controlador_equipaje_intercargo destino filas zonas q qe =
     (let m = cargar_equipajes_destino destino filas
      in case esperar_zona_asignada destino zonas of
           Listo (aero, zonas') \<Rightarrow> atender_vuelos destino aero m q qe
         | Bloqueado \<Rightarrow> (m, q, qe, Bloqueado)
         | Fallo x \<Rightarrow> (m, q, qe, Fallo x))"

section \<open>What the loader sends\<close>

text \<open>The first arrival of each flight.\<close>

fun primeros :: "int list \<Rightarrow> int list" where
  "primeros [] = []"
| "primeros (x # xs) = x # filter (\<lambda>y. y \<noteq> x) (primeros xs)"

lemma set_primeros [simp]: "set (primeros xs) = set xs"
  by (induction xs) auto

lemma distinct_primeros: "distinct (primeros xs)"
  by (induction xs) auto

text \<open>What a list of announcements takes out of the luggage.\<close>

definition surtido :: "'v multimapa \<Rightarrow> int list \<Rightarrow> 'v list" where
  "surtido m ms = concat (map (\<lambda>e. mm_rango e m) (primeros ms))"

definition resto :: "'v multimapa \<Rightarrow> int list \<Rightarrow> 'v multimapa" where
  "resto m ms = filter (\<lambda>p. fst p \<notin> set ms) m"

lemma surtido_simps [simp]:
  "surtido m [] = []" "surtido [] ms = []"
  "surtido m (e # ms) = mm_rango e m @ surtido (mm_borrar e m) ms"
proof -
  show "surtido m [] = []" by (simp add: surtido_def)
  show "surtido [] ms = []" by (simp add: surtido_def mm_rango_def)
  have "concat (map (\<lambda>x. mm_rango x m) (filter (\<lambda>y. y \<noteq> e) xs)) = concat (map (\<lambda>x. mm_rango x (mm_borrar e m)) xs)" for xs
    by (induction xs) (auto simp: mm_rango_borrar)
  then show "surtido m (e # ms) = mm_rango e m @ surtido (mm_borrar e m) ms" by (simp add: surtido_def)
qed

lemma resto_simps [simp]:
  "resto m [] = m" "resto [] ms = []" "resto m (e # ms) = resto (mm_borrar e m) ms"
  by (auto simp: resto_def mm_borrar_def intro: filter_cong)

lemma mset_rango_borrar: "mset m = mset (map (Pair k) (mm_rango k m)) + mset (mm_borrar k m)"
proof -
  have "map (Pair k) (mm_rango k m) = filter (\<lambda>p. fst p = k) m" by (induction m) (auto simp: mm_rango_def)
  then show ?thesis by (simp add: mm_borrar_def)
qed

lemma surtido_resto: "mset (map snd m) = mset (surtido m ms) + mset (map snd (resto m ms))"
proof (induction ms arbitrary: m)
  case (Cons e ms)
  have "mset (map snd m) = mset (mm_rango e m) + mset (map snd (mm_borrar e m))"
    using arg_cong [OF mset_rango_borrar [of m e], of "image_mset snd"]
    by (simp add: image_mset.compositionality comp_def)
  then show ?case using Cons.IH [of "mm_borrar e m"] by simp
qed simp

lemma enviar_rango_ok: "0 < aero \<Longrightarrow> enviar_rango aero es q = (q @ map (Pair aero) es, None)"
  by (induction es arbitrary: q) (auto simp: enviar_equipaje_intercargo_def push_def)

text \<open>The loop, on the announcements that its queue holds for it.\<close>

lemma atender_vuelos_ok:
  assumes "0 < destino" and "0 < aero"
  shows "\<exists>q'. atender_vuelos destino aero m q qe =
      (resto m (de_tipo destino q), q', qe @ map (Pair aero) (surtido m (de_tipo destino q)),
       if resto m (de_tipo destino q) = [] then Listo () else Bloqueado) \<and>
    (\<forall>t. t \<noteq> destino \<longrightarrow> de_tipo t q' = de_tipo t q)"
proof (induction "length q" arbitrary: m q qe rule: less_induct)
  case less
  show ?case
  proof (cases "m = []")
    case True
    then show ?thesis by (subst atender_vuelos.simps) simp
  next
    case False
    show ?thesis
    proof (cases "de_tipo destino q")
      case Nil
      then have "esperar_vuelo_entrante destino q = Bloqueado"
        using cola_kernel.tomar_bloquea [of destino q] assms(1) by (simp add: esperar_vuelo_entrante_def)
      then show ?thesis using False Nil by (subst atender_vuelos.simps) simp
    next
      case (Cons e ms)
      then obtain q1 where q1: "tomar_texto destino q = Listo (e, q1)" "(\<lambda>u. de_tipo u q1) = (\<lambda>u. de_tipo u q)(destino := ms)"
        using tomar_texto_ok [OF assms(1) Cons] by blast
      have ms: "de_tipo destino q1 = ms" "t \<noteq> destino \<Longrightarrow> de_tipo t q1 = de_tipo t q" for t
        using fun_cong [OF q1(2), of destino] fun_cong [OF q1(2), of t] by simp_all
      have "length q1 < length q" using tomar_texto_length [OF q1(1)] by simp
      from less.hyps [OF this, of "mm_borrar e m" "qe @ map (Pair aero) (mm_rango e m)"] show ?thesis
        using False q1(1) ms Cons enviar_rango_ok [OF assms(2), of "mm_rango e m" qe]
        by (subst atender_vuelos.simps) (auto simp: esperar_vuelo_entrante_def)
    qed
  qed
qed

text \<open>A loader that blocks goes on, when more announcements come, as if it had found them all.\<close>

lemma surtido_append: "surtido m (xs @ ys) = surtido m xs @ surtido (resto m xs) ys"
  by (induction xs arbitrary: m) auto

lemma resto_append: "resto m (xs @ ys) = resto (resto m xs) ys"
  by (induction xs arbitrary: m) auto

text \<open>The luggage read from the file, per incoming flight and in the order of the file.\<close>

lemma fold_insertar:
  assumes "sorted (map fst m)"
  shows "mm_rango k (fold (\<lambda>x. mm_insertar (f x) (g x)) xs m) = mm_rango k m @ map g (filter (\<lambda>x. f x = k) xs)"
    and "set (fold (\<lambda>x. mm_insertar (f x) (g x)) xs m) = set m \<union> (\<lambda>x. (f x, g x)) ` set xs"
  using assms by (induction xs arbitrary: m) (auto simp: mm_rango_insertar mm_insertar_sorted)

lemma cargar_rango:
  "mm_rango e (cargar_equipajes_destino d filas) = map (equipaje_de_fila d) (filter (\<lambda>f. f_entrante f = e) filas)"
  using fold_insertar(1) [of "[]" e f_entrante "equipaje_de_fila d" filas]
  by (simp add: cargar_equipajes_destino_def mm_rango_def)

lemma cargar_claves: "fst ` set (cargar_equipajes_destino d filas) = f_entrante ` set filas"
  unfolding cargar_equipajes_destino_def by (simp add: fold_insertar image_image)

lemma interconexion_rango: "mm_rango e (leer_interconexion filas) = map snd (filter (\<lambda>x. fst x = e) filas)"
  using fold_insertar(1) [of "[]" e fst snd filas] by (simp add: leer_interconexion_def split_def mm_rango_def)

section \<open>What the generator announces\<close>

lemma informar_destinos_ok:
  assumes "\<forall>d \<in> set ds. 0 < d"
  shows "\<exists>l' q'. informar_destinos e ds l q = (l', q', None) \<and>
    (\<forall>d. de_tipo d q' = de_tipo d q @ replicate (count_list ds d) e) \<and>
    set l' = set l \<union> set ds \<and> (distinct l \<longrightarrow> distinct l')"
  using assms
proof (induction ds arbitrary: l q)
  case (Cons d ds)
  let ?l = "if d \<in> set l then l else l @ [d]"
  have p: "informar_vuelo_entrante e d q = Listo (q @ [(d, e)])"
    using Cons.prems by (simp add: informar_vuelo_entrante_def push_def)
  obtain l' q' where r: "informar_destinos e ds ?l (q @ [(d, e)]) = (l', q', None)"
    "\<forall>t. de_tipo t q' = de_tipo t (q @ [(d, e)]) @ replicate (count_list ds t) e"
    "set l' = set ?l \<union> set ds" "distinct ?l \<longrightarrow> distinct l'"
    using Cons.IH [of ?l "q @ [(d, e)]"] Cons.prems by auto
  then show ?case using p by (auto simp: Let_def)
qed simp

text \<open>The announcements for destination \<open>d\<close>.\<close>

definition anuncios :: "int multimapa \<Rightarrow> int list \<Rightarrow> int \<Rightarrow> int list" where
  "anuncios m es d = concat (map (\<lambda>e. replicate (count_list (mm_rango e m) d) e) (primeros es))"

lemma anuncios_Cons:
  "anuncios m (e # es) d = replicate (count_list (mm_rango e m) d) e @ anuncios (mm_borrar e m) es d"
proof -
  have "concat (map (\<lambda>e. replicate (count_list (mm_rango e m) d) e) (filter (\<lambda>y. y \<noteq> e) xs)) =
      concat (map (\<lambda>x. replicate (count_list (mm_rango x (mm_borrar e m)) d) x) xs)" for xs
    by (induction xs) (auto simp: mm_rango_borrar)
  then show ?thesis by (simp add: anuncios_def)
qed

lemma generar_ok:
  assumes "\<forall>p \<in> set m. 0 < snd p"
  shows "\<exists>l' q'. generar m es l q = (l', q', None) \<and> (\<forall>d. de_tipo d q' = de_tipo d q @ anuncios m es d) \<and>
    set l' = set l \<union> {d. anuncios m es d \<noteq> []} \<and> (distinct l \<longrightarrow> distinct l')"
  using assms
proof (induction es arbitrary: m l q)
  case Nil
  then show ?case by (simp add: anuncios_def)
next
  case (Cons e es)
  have pos: "\<forall>d \<in> set (mm_rango e m). 0 < d" using Cons.prems by (auto simp: mm_rango_def)
  obtain l1 q1 where 1: "informar_destinos e (mm_rango e m) l q = (l1, q1, None)"
    "\<forall>d. de_tipo d q1 = de_tipo d q @ replicate (count_list (mm_rango e m) d) e"
    "set l1 = set l \<union> set (mm_rango e m)" "distinct l \<longrightarrow> distinct l1"
    using informar_destinos_ok [OF pos] by blast
  have "\<forall>p \<in> set (mm_borrar e m). 0 < snd p" using Cons.prems by (auto simp: mm_borrar_def)
  then obtain l2 q2 where 2: "generar (mm_borrar e m) es l1 q1 = (l2, q2, None)"
    "\<forall>d. de_tipo d q2 = de_tipo d q1 @ anuncios (mm_borrar e m) es d"
    "set l2 = set l1 \<union> {d. anuncios (mm_borrar e m) es d \<noteq> []}" "distinct l1 \<longrightarrow> distinct l2"
    using Cons.IH by blast
  then show ?case using 1 by (auto simp: anuncios_Cons count_list_0_iff)
qed

lemma anuncios_set: "set (anuncios m es d) = {e \<in> set es. d \<in> set (mm_rango e m)}"
  by (auto simp: anuncios_def count_list_0_iff)

lemma filter_replicate_concat:
  "primeros (concat (map (\<lambda>e. replicate (n e) e) (primeros es))) = filter (\<lambda>e. n e \<noteq> 0) (primeros es)"
proof -
  have rep: "primeros (replicate k x @ ys) = (if k = 0 then primeros ys else x # filter (\<lambda>y. y \<noteq> x) (primeros ys))" for k x ys
    by (induction k) auto
  have "distinct xs \<Longrightarrow> primeros (concat (map (\<lambda>e. replicate (n e) e) xs)) = filter (\<lambda>e. n e \<noteq> 0) xs" for xs
  proof (induction xs)
    case (Cons x xs)
    then show ?case by (auto simp: rep intro!: filter_cong)
  qed simp
  then show ?thesis using distinct_primeros by blast
qed

section \<open>Generator and loader together\<close>

text \<open>The incoming flights that connect with \<open>d\<close>, in the order of their first arrival.\<close>

definition vuelos_que_llegan :: "(int \<times> int) list \<Rightarrow> (int \<times> int) list \<Rightarrow> int \<Rightarrow> int list" where
  "vuelos_que_llegan conexiones ents d = filter (\<lambda>e. (e, d) \<in> set conexiones) (primeros (map snd ents))"

text \<open>The pieces that the file of destination \<open>d\<close> has for a list of incoming flights.\<close>

definition equipaje_de_vuelos :: "int \<Rightarrow> fila_equipaje list \<Rightarrow> int list \<Rightarrow> equipaje list" where
  "equipaje_de_vuelos d filas es =
     concat (map (\<lambda>e. map (equipaje_de_fila d) (filter (\<lambda>f. f_entrante f = e) filas)) es)"

lemma primeros_anuncios:
  "primeros (anuncios (leer_interconexion conexiones) (map snd ents) d) = vuelos_que_llegan conexiones ents d"
proof -
  have "count_list (mm_rango e (leer_interconexion conexiones)) d \<noteq> 0 \<longleftrightarrow> (e, d) \<in> set conexiones" for e
    by (force simp: interconexion_rango count_list_0_iff)
  then show ?thesis by (simp add: anuncios_def filter_replicate_concat vuelos_que_llegan_def)
qed

lemma cargar_mset:
  "mset (cargar_equipajes_destino d filas) = mset (map (\<lambda>f. (f_entrante f, equipaje_de_fila d f)) filas)"
proof -
  have "mset (fold (\<lambda>f. mm_insertar (f_entrante f) (equipaje_de_fila d f)) filas m) =
      mset m + mset (map (\<lambda>f. (f_entrante f, equipaje_de_fila d f)) filas)" for m
    by (induction filas arbitrary: m) auto
  then show ?thesis by (simp add: cargar_equipajes_destino_def)
qed

text \<open>
  C40. The luggage that changes plane. After the generator has run on its two files, the loader of
  destination \<open>d\<close> has sent to the airport that gave its flight a zone, in order of arrival of the
  flights and, within one, in the order of its file, every piece whose incoming flight arrives and
  connects with \<open>d\<close>, each once. It ends exactly when no other piece is left, and otherwise waits for
  ever with those pieces. The generator started it exactly when some such flight arrives, and only once.
\<close>

theorem intercargo_completo:
  assumes con: "\<forall>p \<in> set conexiones. 0 < snd p" and pos: "0 < d" "0 < aero"
    and zona: "esperar_zona_asignada d zonas = Listo (aero, zonas')"
  shows "\<exists>lanzados q resto q'.
    generador_vuelos_trasbordo conexiones ents [] = (lanzados, q, None) \<and>
    distinct lanzados \<and> (d \<in> set lanzados \<longleftrightarrow> vuelos_que_llegan conexiones ents d \<noteq> []) \<and>
    controlador_equipaje_intercargo d filas zonas q [] =
      (resto, q', map (Pair aero) (equipaje_de_vuelos d filas (vuelos_que_llegan conexiones ents d)),
       if f_entrante ` set filas \<subseteq> set (vuelos_que_llegan conexiones ents d) then Listo () else Bloqueado) \<and>
    mset (map snd resto) =
      mset (map (equipaje_de_fila d) (filter (\<lambda>f. f_entrante f \<notin> set (vuelos_que_llegan conexiones ents d)) filas))"
proof -
  let ?i = "leer_interconexion conexiones" and ?m = "cargar_equipajes_destino d filas"
  let ?ms = "anuncios ?i (map snd ents) d" and ?v = "vuelos_que_llegan conexiones ents d"
  have s: "set ?i = set conexiones"
    using fold_insertar(2) [of "[]" fst snd conexiones] by (simp add: leer_interconexion_def split_def)
  then have "\<forall>p \<in> set ?i. 0 < snd p" using con by simp
  then obtain l q where g: "generar ?i (map snd ents) [] [] = (l, q, None)" "de_tipo d q = ?ms"
    "(d \<in> set l) = (?ms \<noteq> [])" "distinct l"
    using generar_ok [of ?i "map snd ents" "[]" "[]"] by auto
  have v: "set ?ms = set ?v" "(?ms \<noteq> []) = (?v \<noteq> [])"
    using primeros_anuncios [of conexiones ents d] set_primeros [of ?ms] by (metis set_empty)+
  obtain q' where a: "atender_vuelos d aero ?m q [] = (resto ?m ?ms, q', map (Pair aero) (surtido ?m ?ms),
      if resto ?m ?ms = [] then Listo () else Bloqueado)"
    using atender_vuelos_ok [OF pos, of ?m q "[]"] g(2) by auto
  have env: "surtido ?m ?ms = equipaje_de_vuelos d filas ?v"
    by (simp add: surtido_def equipaje_de_vuelos_def primeros_anuncios cargar_rango)
  have vacio: "(resto ?m ?ms = []) = (f_entrante ` set filas \<subseteq> set ?v)"
  proof -
    have "(resto ?m ?ms = []) = (fst ` set ?m \<subseteq> set ?v)" by (auto simp: resto_def filter_empty_conv v)
    then show ?thesis by (simp add: cargar_claves)
  qed
  have queda: "mset (map snd (resto ?m ?ms)) =
      mset (map (equipaje_de_fila d) (filter (\<lambda>f. f_entrante f \<notin> set ?v) filas))"
  proof -
    have "mset (resto ?m ?ms) = filter_mset (\<lambda>p. fst p \<notin> set ?v) (mset ?m)" by (simp add: resto_def v)
    also have "\<dots> = mset (map (\<lambda>f. (f_entrante f, equipaje_de_fila d f)) (filter (\<lambda>f. f_entrante f \<notin> set ?v) filas))"
      unfolding cargar_mset by (simp add: filter_mset_image_mset comp_def)
    finally show ?thesis by (simp add: image_mset.compositionality comp_def)
  qed
  show ?thesis
    using g a v env vacio queda zona
    by (auto simp: generador_vuelos_trasbordo_def controlador_equipaje_intercargo_def)
qed

text \<open>Flight 1 waits for pieces of the flights 201 and 202; flight 202 never arrives.\<close>

definition fila_ejemplo :: "int \<Rightarrow> int \<Rightarrow> fila_equipaje" where
  "fila_ejemplo e r = \<lparr>f_entrante = e, f_peso = 10, f_descripcion = ''valija'', f_rfid = r, f_destino = 1,
     f_escalas = [0, 0, 0, 0, 0], f_escala = ''BSAS''\<rparr>"

theorem intercargo_completo_witness:
  "\<exists>lanzados q resto q'.
    generador_vuelos_trasbordo [(201, 1), (201, 2), (202, 1)] [(10, 201), (20, 301)] [] = (lanzados, q, None) \<and>
    controlador_equipaje_intercargo 1 [fila_ejemplo 201 7, fila_ejemplo 202 8, fila_ejemplo 201 9]
      [(1, \<lparr>id_aeropuerto = 5, numero_de_vuelo = 1, zona_asignada = 2\<rparr>)] q [] =
      (resto, q', [(5, equipaje_de_fila 1 (fila_ejemplo 201 7)), (5, equipaje_de_fila 1 (fila_ejemplo 201 9))], Bloqueado)"
proof -
  let ?z = "[(1, \<lparr>id_aeropuerto = 5, numero_de_vuelo = 1, zona_asignada = 2\<rparr>)] :: mensaje_zona_asignada cola"
  have z: "esperar_zona_asignada 1 ?z = Listo (5, [])"
    by (simp add: esperar_zona_asignada_def tomar_texto_def pull_def)
  have v: "vuelos_que_llegan [(201, 1), (201, 2), (202, 1)] [(10, 201), (20, 301)] 1 = [201]"
    by (simp add: vuelos_que_llegan_def)
  show ?thesis
    using intercargo_completo [OF _ _ _ z, of "[(201, 1), (201, 2), (202, 1)]" "[(10, 201), (20, 301)]"
        "[fila_ejemplo 201 7, fila_ejemplo 202 8, fila_ejemplo 201 9]"]
    unfolding v by (fastforce simp: equipaje_de_vuelos_def fila_ejemplo_def)
qed

end
