(* ===== verification/Programador.thy ===== *)
theory Programador
  imports InitParser
begin

text \<open>
  The schedulers of flights and planes: \<^verbatim>\<open>processes/scheduler_vuelos.cpp\<close> and
  \<^verbatim>\<open>processes/scheduler_aviones.cpp\<close>. Both read the rows of a file, sort them by time and
  launch a process for each when its second comes; the second is the number of turns of the loop,
  each of which sleeps for one. The rows and the two working directories are arguments.
\<close>

section \<open>The plan\<close>

record tarea_vuelo =
  time_v :: int
  num_vuelo_t :: int

record tarea_avion =
  id_avion :: int
  time_a :: int

text \<open>\<^verbatim>\<open>push_front\<close> for each row, then \<^verbatim>\<open>list::sort\<close>, which is stable.\<close>

definition cargar_vuelos :: "(int \<times> int) list \<Rightarrow> tarea_vuelo list" where
  "cargar_vuelos filas = fold (\<lambda>(t, n) ts. \<lparr>time_v = t, num_vuelo_t = n\<rparr> # ts) filas []"

definition cargar_aviones :: "(int \<times> int \<times> int) list \<Rightarrow> tarea_avion list" where
  "cargar_aviones filas = fold (\<lambda>(t, a, num_vuelo) ts. \<lparr>id_avion = a, time_a = t\<rparr> # ts) filas []"

text \<open>
  The loop of \<^verbatim>\<open>main\<close>: in each turn the tasks at the front whose time has come are launched;
  the result is the launches with their second.
\<close>

function lanzar_desde :: "('t \<Rightarrow> int) \<Rightarrow> int \<Rightarrow> 't list \<Rightarrow> (int \<times> 't) list" where
  "lanzar_desde tiempo time [] = []"
| "lanzar_desde tiempo time (v # vs) =
     (if tiempo v \<le> time then (time, v) # lanzar_desde tiempo time vs
      else lanzar_desde tiempo (time + 1) (v # vs))"
  by pat_completeness auto

termination
  by (relation "measures [\<lambda>(tiempo, time, vs). length vs, \<lambda>(tiempo, time, vs). nat (tiempo (hd vs) - time)]") auto

definition scheduler :: "('t \<Rightarrow> int) \<Rightarrow> 't list \<Rightarrow> (int \<times> 't) list" where
  "scheduler tiempo ts = lanzar_desde tiempo 0 (sort_key tiempo ts)"

section \<open>The launch\<close>

text \<open>\<^verbatim>\<open>strcpy\<close> into an array of \<open>n\<close> characters, the last one the terminator.\<close>

definition strcpy :: "nat \<Rightarrow> string \<Rightarrow> string llamada" where
  "strcpy n s = (if length s < n then Listo s else Fallo Fuera_de_rango)"

text \<open>\<^verbatim>\<open>stringstream << int\<close>.\<close>

definition mostrar :: "int \<Rightarrow> string" where
  "mostrar n = (if n < 0 then CHR ''-'' # decimal (nat (- n)) else decimal (nat n))"

text \<open>
  The arguments of the new process. The stream of \<^verbatim>\<open>lanzar_vuelo\<close> still holds the number when
  the name is written to it.
\<close>

definition lanzar_vuelo :: "tarea_vuelo \<Rightarrow> string \<Rightarrow> string \<Rightarrow> string list llamada" where
  "lanzar_vuelo t dir config =
     (let sstr = mostrar (num_vuelo_t t)
      in case strcpy 6 sstr of
           Listo buffer_num_vuelo \<Rightarrow>
             (case strcpy 255 (sstr @ ''controlador_de_vuelo_'' @ mostrar (num_vuelo_t t)) of
                Listo nombre \<Rightarrow> Listo [nombre, dir, config, buffer_num_vuelo]
              | Bloqueado \<Rightarrow> Bloqueado | Fallo e \<Rightarrow> Fallo e)
         | Bloqueado \<Rightarrow> Bloqueado | Fallo e \<Rightarrow> Fallo e)"

definition lanzar_avion :: "tarea_avion \<Rightarrow> string \<Rightarrow> string \<Rightarrow> string list llamada" where
  "lanzar_avion t directorio config_file =
     (case strcpy 255 directorio of
        Listo dir \<Rightarrow>
          (case strcpy 255 config_file of
             Listo config \<Rightarrow>
               (case strcpy 6 (mostrar (id_avion t)) of
                  Listo buffer_id_avion \<Rightarrow>
                    (case strcpy 255 (''avion_'' @ mostrar (id_avion t)) of
                       Listo nombre \<Rightarrow> Listo [nombre, dir, config, buffer_id_avion]
                     | Bloqueado \<Rightarrow> Bloqueado | Fallo e \<Rightarrow> Fallo e)
                | Bloqueado \<Rightarrow> Bloqueado | Fallo e \<Rightarrow> Fallo e)
           | Bloqueado \<Rightarrow> Bloqueado | Fallo e \<Rightarrow> Fallo e)
      | Bloqueado \<Rightarrow> Bloqueado | Fallo e \<Rightarrow> Fallo e)"

definition scheduler_vuelos :: "(int \<times> int) list \<Rightarrow> string \<Rightarrow> string \<Rightarrow> (int \<times> string list llamada) list" where
  "scheduler_vuelos filas dir config =
     map (\<lambda>(s, t). (s, lanzar_vuelo t dir config)) (scheduler time_v (cargar_vuelos filas))"

definition scheduler_aviones :: "(int \<times> int \<times> int) list \<Rightarrow> string \<Rightarrow> string \<Rightarrow> (int \<times> string list llamada) list" where
  "scheduler_aviones filas dir config =
     map (\<lambda>(s, t). (s, lanzar_avion t dir config)) (scheduler time_a (cargar_aviones filas))"

section \<open>Every task at its second\<close>

lemma lanzar_desde_ok:
  "sorted (map tiempo ts) \<Longrightarrow> lanzar_desde tiempo time ts = map (\<lambda>t. (max time (tiempo t), t)) ts"
proof (induction tiempo time ts rule: lanzar_desde.induct)
  case (2 tiempo time v vs)
  show ?case
  proof (cases "tiempo v \<le> time")
    case True
    then show ?thesis using 2 by simp
  next
    case False
    have "max (time + 1) (tiempo t) = max time (tiempo t)" if "t \<in> set (v # vs)" for t
      using that False 2(3) by auto
    then show ?thesis using 2(2) [OF False 2(3)] False by simp
  qed
qed simp

lemma scheduler_ok: "scheduler tiempo ts = map (\<lambda>t. (max 0 (tiempo t), t)) (sort_key tiempo ts)"
  unfolding scheduler_def by (rule lanzar_desde_ok) simp

lemma cargar_vuelos_ok: "cargar_vuelos filas = rev (map (\<lambda>(t, n). \<lparr>time_v = t, num_vuelo_t = n\<rparr>) filas)"
proof -
  have "fold (\<lambda>(t, n) ts. \<lparr>time_v = t, num_vuelo_t = n\<rparr> # ts) filas ts =
      rev (map (\<lambda>(t, n). \<lparr>time_v = t, num_vuelo_t = n\<rparr>) filas) @ ts" for ts
    by (induction filas arbitrary: ts) auto
  then show ?thesis by (simp add: cargar_vuelos_def)
qed

lemma cargar_aviones_ok: "cargar_aviones filas = rev (map (\<lambda>(t, a, v). \<lparr>id_avion = a, time_a = t\<rparr>) filas)"
proof -
  have "fold (\<lambda>(t, a, v) ts. \<lparr>id_avion = a, time_a = t\<rparr> # ts) filas ts =
      rev (map (\<lambda>(t, a, v). \<lparr>id_avion = a, time_a = t\<rparr>) filas) @ ts" for ts
    by (induction filas arbitrary: ts) auto
  then show ?thesis by (simp add: cargar_aviones_def)
qed

text \<open>The number that the new process reads back.\<close>

lemma decimal_largo: "length (decimal n) \<le> m + 1 \<longleftrightarrow> n < 10 ^ (m + 1)"
proof (induction m arbitrary: n)
  case 0
  have "decimal n \<noteq> []" for n using decimal_ok [of n] by blast
  then show ?case by (subst decimal.simps) (simp add: Suc_le_eq)
next
  case (Suc m)
  show ?case
  proof (cases "n < 10")
    case True
    have "n < 10 ^ (Suc m + 1)" using True by (rule less_le_trans) simp
    then show ?thesis using True by (subst decimal.simps) simp
  next
    case False
    have "n div 10 < 10 ^ (m + 1) \<longleftrightarrow> n < 10 ^ (Suc m + 1)"
      by (simp add: div_less_iff_less_mult mult.commute)
    then show ?thesis using False Suc.IH [of "n div 10"] by (subst decimal.simps) simp
  qed
qed

lemma mostrar_corto: "length (mostrar n) < 6 \<longleftrightarrow> -10000 < n \<and> n < 100000"
  using decimal_largo [of "nat n" 4] decimal_largo [of "nat (- n)" 3] by (auto simp: mostrar_def)

lemma atoi_mostrar: "atoi (mostrar n) = n"
proof (cases "n < 0")
  case True
  then show ?thesis using decimal_ok [of "nat (- n)"] by (simp add: mostrar_def)
next
  case False
  obtain c cs where "decimal (nat n) = c # cs" using decimal_ok [of "nat n"] by (meson neq_Nil_conv)
  then show ?thesis using decimal_ok [of "nat n"] False by (simp add: mostrar_def)
qed

lemma sort_key_map: "sort_key f (map g xs) = map g (sort_key (\<lambda>x. f (g x)) xs)"
proof -
  have "insort_key f (g x) (map g ys) = map g (insort_key (\<lambda>x. f (g x)) x ys)" for x ys
    by (induction ys) auto
  then show ?thesis by (induction xs) auto
qed

lemma strcpy_mostrar:
  "strcpy 6 (mostrar n) = (if -10000 < n \<and> n < 100000 then Listo (mostrar n) else Fallo Fuera_de_rango)"
  using mostrar_corto [of n] by (simp add: strcpy_def)

lemma lanzar_vuelo_ok:
  "lanzar_vuelo t dir config =
     (let n = num_vuelo_t t
      in if -10000 < n \<and> n < 100000 then Listo [mostrar n @ ''controlador_de_vuelo_'' @ mostrar n, dir, config, mostrar n]
         else Fallo Fuera_de_rango)"
  using mostrar_corto [of "num_vuelo_t t"]
  by (cases "length (mostrar (num_vuelo_t t)) < 6") (auto simp: lanzar_vuelo_def strcpy_mostrar Let_def strcpy_def [of 255])

lemma lanzar_avion_ok:
  "lanzar_avion t dir config =
     (let n = id_avion t
      in if length dir < 255 \<and> length config < 255 \<and> -10000 < n \<and> n < 100000
         then Listo [''avion_'' @ mostrar n, dir, config, mostrar n]
         else Fallo Fuera_de_rango)"
  using mostrar_corto [of "id_avion t"]
  by (cases "length (mostrar (id_avion t)) < 6") (auto simp: lanzar_avion_def strcpy_mostrar Let_def strcpy_def [of 255])

text \<open>
  The schedulers. Each row of their files is launched exactly once, at its second and never
  before, those of one second in the reverse order of the file, and both programs end. The process
  gets a number that \<^verbatim>\<open>atoi\<close> reads back as that of the row when it has at most five characters,
  the sign included; a longer one overflows its buffer, as do directories of 255 characters or more
  for a plane.
\<close>

theorem schedulers_en_hora:
  "scheduler_vuelos filas_v dir config =
     map (\<lambda>(t, n). (max 0 t,
         if -10000 < n \<and> n < 100000 then Listo [mostrar n @ ''controlador_de_vuelo_'' @ mostrar n, dir, config, mostrar n]
         else Fallo Fuera_de_rango)) (sort_key fst (rev filas_v)) \<and>
   scheduler_aviones filas_a dir config =
     map (\<lambda>(t, n, v). (max 0 t,
         if length dir < 255 \<and> length config < 255 \<and> -10000 < n \<and> n < 100000
         then Listo [''avion_'' @ mostrar n, dir, config, mostrar n]
         else Fallo Fuera_de_rango)) (sort_key fst (rev filas_a)) \<and>
   atoi (mostrar m) = m"
proof (intro conjI)
  show "scheduler_vuelos filas_v dir config =
     map (\<lambda>(t, n). (max 0 t,
         if -10000 < n \<and> n < 100000 then Listo [mostrar n @ ''controlador_de_vuelo_'' @ mostrar n, dir, config, mostrar n]
         else Fallo Fuera_de_rango)) (sort_key fst (rev filas_v))"
    by (simp add: scheduler_vuelos_def scheduler_ok cargar_vuelos_ok rev_map sort_key_map lanzar_vuelo_ok split_def Let_def)
  show "scheduler_aviones filas_a dir config =
     map (\<lambda>(t, n, v). (max 0 t,
         if length dir < 255 \<and> length config < 255 \<and> -10000 < n \<and> n < 100000
         then Listo [''avion_'' @ mostrar n, dir, config, mostrar n]
         else Fallo Fuera_de_rango)) (sort_key fst (rev filas_a))"
    by (simp add: scheduler_aviones_def scheduler_ok cargar_aviones_ok rev_map sort_key_map lanzar_avion_ok split_def Let_def)
  show "atoi (mostrar m) = m" by (rule atoi_mostrar)
qed

end
