(* ===== verification/AnilloBrokers.thy ===== *)
theory AnilloBrokers
  imports InitParser BrokerRemoto
begin

text \<open>
  The ring of brokers. Each group has in every broker a sender
  (\<^verbatim>\<open>local_broker/group_sender.cpp\<close>) and a receiver
  (\<^verbatim>\<open>local_broker/group_receiver.cpp\<close>); the first of the ring also a leader
  (\<^verbatim>\<open>local_broker/lider.cpp\<close>); and \<^verbatim>\<open>local_broker/group_multiplexer.cpp\<close>
  shares the connection of the broker among its groups. The transport, programs in another
  language, is a FIFO from each broker to the next one. The switch
  \<^verbatim>\<open>LANZAR_SERVICIO_DE_ANILLOS\<close> is off in this commit. What is printed or logged is
  left out.
\<close>

section \<open>Messages\<close>

text \<open>\<^verbatim>\<open>GROUP_MSG_T\<close>; two of its names have the value 9.\<close>

datatype tipo_anillo =
    LEADER | TOKEN_DELIVER | GROUP_DISCOVER | TOKEN_LOST | INITIALIZATION | TOKEN_RECOVER
  | LEADER_ELECTED | MEMORY_UPDATE | TOKEN_DISCOVER | TOKEN_OK

abbreviation TOKEN_IN_TRANSIT :: tipo_anillo where
  "TOKEN_IN_TRANSIT \<equiv> TOKEN_OK"

record mensaje_grupo =
  tipo_m :: tipo_anillo
  numero_de_mensaje :: int
  cantidad_bytes_total :: nat
  nombre_grupo :: string
  data_m :: "byte list"

text \<open>
  Texts over the data: \<^verbatim>\<open>strcpy\<close> of a name, \<^verbatim>\<open>sprintf\<close> of a number, and
  \<^verbatim>\<open>sscanf\<close> of a number (\<open>None\<close>: there is none and the variable keeps its value).
\<close>

definition texto_int :: "int \<Rightarrow> string" where
  "texto_int v = (if v < 0 then CHR ''-'' # decimal (nat (- v)) else decimal (nat v))"

definition strcpy_data :: "string \<Rightarrow> byte list \<Rightarrow> byte list" where
  "strcpy_data s buf = escribir 0 (cadena s) buf"

definition sscanf_d :: "byte list \<Rightarrow> int option" where
  "sscanf_d buf =
     (let s = dropWhile espacio (leer_cadena buf);
          menos = (s \<noteq> [] \<and> hd s = CHR ''-'');
          ds = takeWhile es_digito (if s \<noteq> [] \<and> hd s \<in> {CHR ''-'', CHR ''+''} then tl s else s)
      in if ds = [] then None else Some (if menos then - numero ds else numero ds))"

section \<open>The sender\<close>

text \<open>
  \<^verbatim>\<open>send_token\<close>: each message carries \<^verbatim>\<open>DATA_SIZE\<close> bytes of the segment from
  the memory of the group on (\<open>desde\<close>), and then its number is printed over them.
\<close>

fun mensajes_token :: "nat \<Rightarrow> nat \<Rightarrow> byte list \<Rightarrow> mensaje_grupo \<Rightarrow> (mensaje_grupo list \<times> mensaje_grupo) llamada" where
  "mensajes_token i 0 desde m = Listo ([], m)"
| "mensajes_token i (Suc n) desde m =
     (if length desde < (i + 1) * DATA_SIZE then Fallo Fuera_de_rango
      else let m1 = m\<lparr>numero_de_mensaje := int i,
                      data_m := strcpy_data (texto_int (int i)) (take DATA_SIZE (drop (i * DATA_SIZE) desde))\<rparr>
           in case mensajes_token (i + 1) n desde m1 of
                Listo (ms, m2) \<Rightarrow> Listo (m1 # ms, m2)
              | r \<Rightarrow> r)"

definition tipo_envio :: "int \<Rightarrow> tipo_anillo \<Rightarrow> tipo_anillo" where
  "tipo_envio t anterior = (if t = 1 then TOKEN_DELIVER else if t = 2 then MEMORY_UPDATE else anterior)"

definition aviso_envio :: "string \<Rightarrow> mensaje_grupo \<Rightarrow> mensaje_grupo" where
  "aviso_envio broker_local m = m\<lparr>tipo_m := TOKEN_IN_TRANSIT, numero_de_mensaje := 0,
     data_m := escribir 0 (map of_char broker_local) (data_m m)\<rparr>"

definition send_token_anillo ::
  "string \<Rightarrow> int \<Rightarrow> byte list \<Rightarrow> grupo \<Rightarrow> mensaje_grupo \<Rightarrow> (mensaje_grupo list \<times> grupo \<times> mensaje_grupo) llamada" where
  "send_token_anillo broker_local t desde g m =
     (case mensajes_token 0 (cantidad_de_bloques (mem_size g)) desde (m\<lparr>tipo_m := tipo_envio t (tipo_m m)\<rparr>) of
        Listo (ms, m1) \<Rightarrow>
          (case tengo_que_avisar_envio g of
             Listo (g1, avisa) \<Rightarrow>
               (let m2 = (if avisa then aviso_envio broker_local m1 else m1)
                in case el_token_se_envio g1 of
                     Listo (g2, u) \<Rightarrow> Listo (ms @ (if avisa then [m2] else []), g2, m2)
                   | Bloqueado \<Rightarrow> Bloqueado | Fallo f \<Rightarrow> Fallo f)
           | Bloqueado \<Rightarrow> Bloqueado | Fallo f \<Rightarrow> Fallo f)
      | Bloqueado \<Rightarrow> Bloqueado | Fallo f \<Rightarrow> Fallo f)"

text \<open>The constructor's part of the message, and one turn of \<^verbatim>\<open>loop_token\<close>.\<close>

definition mensaje_sender :: "string \<Rightarrow> nat \<Rightarrow> mensaje_grupo \<Rightarrow> mensaje_grupo" where
  "mensaje_sender nombre tamanio m =
     m\<lparr>nombre_grupo := take MAX_NOMBRE_RECURSO nombre, tipo_m := TOKEN_DELIVER, cantidad_bytes_total := tamanio\<rparr>"

definition turno_sender ::
  "string \<Rightarrow> nat \<Rightarrow> byte list \<Rightarrow> grupo \<Rightarrow> mensaje_grupo \<Rightarrow> traspaso cola
     \<Rightarrow> (mensaje_grupo list \<times> grupo \<times> mensaje_grupo \<times> traspaso cola) llamada" where
  "turno_sender broker_local numero_cola desde g m q =
     (case lock_token numero_cola q of
        Listo (t, q') \<Rightarrow>
          (case send_token_anillo broker_local t desde g m of
             Listo (ms, g', m') \<Rightarrow> Listo (ms, g', m', q')
           | Bloqueado \<Rightarrow> Bloqueado | Fallo f \<Rightarrow> Fallo f)
      | Bloqueado \<Rightarrow> Bloqueado | Fallo f \<Rightarrow> Fallo f)"

section \<open>The receiver\<close>

text \<open>
  The object \<^verbatim>\<open>GroupReceiver\<close>: its names, its buffers and counters, its flags; then
  what it shares: the group, the token queues, the queue of the token manager, that of the
  leader and what it pushed to the ring. \<open>mutex_r\<close> is the flag \<^verbatim>\<open>mutex\<close>, a group
  without memory. \<open>iniciando\<close> says that \<^verbatim>\<open>run\<close> is still in \<^verbatim>\<open>inicializando\<close>;
  \<open>hay_cola_lider\<close> that the kernel has a queue for the leader, whose key is the same for
  every group of the broker.
\<close>

record receptor =
  r_broker :: string
  r_recurso :: string
  r_inicial :: "int \<times> string option \<times> init_parser"
  r_base :: nat
  r_cliente :: nat
  crear_token :: bool
  mensaje_r :: mensaje_grupo
  data_token :: "byte list"
  data_replica :: "byte list"
  data_group :: "byte list"
  cantidad_recibida_token :: nat
  cantidad_recibida_grupo :: nat
  cantidad_recibida_replica :: nat
  numero_anterior :: int
  numero_anterior_replica :: int
  mutex_r :: bool
  es_leader :: bool
  token_inicializado :: bool
  replica_ok :: bool
  numero_de_nodo :: int
  iniciando :: bool
  r_grupo :: grupo
  r_tokens :: "traspaso cola"
  r_manager :: "traspaso cola"
  r_lider :: "mensaje_grupo list"
  r_salida :: "mensaje_grupo list"
  hay_cola_lider :: bool

text \<open>The constructor, over an object whose other members hold whatever they held (\<open>token_inicializado\<close> too).\<close>

definition crear_receptor :: "string \<Rightarrow> string \<Rightarrow> bool \<Rightarrow> receptor \<Rightarrow> receptor" where
  "crear_receptor nombre broker_local lanzar_token r =
     r\<lparr>r_broker := broker_local, r_recurso := nombre, crear_token := lanzar_token,
       mensaje_r := (mensaje_r r)\<lparr>nombre_grupo := take MAX_NOMBRE_RECURSO nombre\<rparr>,
       cantidad_recibida_token := 0, cantidad_recibida_grupo := 0, numero_anterior := -1,
       mutex_r := (mem_size (r_grupo r) = 0), es_leader := False\<rparr>"

definition forward_mensaje :: "receptor \<Rightarrow> receptor" where
  "forward_mensaje r = r\<lparr>r_salida := r_salida r @ [mensaje_r r]\<rparr>"

definition reenviar_mensaje_a_lider :: "receptor \<Rightarrow> receptor" where
  "reenviar_mensaje_a_lider r = (if mutex_r r then r else r\<lparr>r_lider := r_lider r @ [mensaje_r r]\<rparr>)"

text \<open>
  The copy of a block. The room left is a difference of \<^verbatim>\<open>size_t\<close>, so that a block past
  the end is copied whole.
\<close>

definition copiar_bloque :: "nat \<Rightarrow> int \<Rightarrow> byte list \<Rightarrow> byte list \<Rightarrow> byte list llamada" where
  "copiar_bloque tamanio i d buf =
     (let pos = i * int DATA_SIZE; cuantos = min ((int tamanio - pos) mod 2 ^ 64) (int DATA_SIZE)
      in if pos < 0 \<or> int (length buf) < pos + cuantos then Fallo Fuera_de_rango
         else Listo (escribir (nat pos) (take (nat cuantos) d) buf))"

text \<open>\<^verbatim>\<open>procesar_recepcion_token\<close>; its \<^verbatim>\<open>token_roto\<close> is a local variable, false in each call.\<close>

definition procesar_recepcion_token :: "receptor \<Rightarrow> (receptor \<times> bool) llamada" where
  "procesar_recepcion_token r =
     (let i = numero_de_mensaje (mensaje_r r);
          r0 = (if i = 0 then r\<lparr>numero_anterior := -1, cantidad_recibida_token := 0\<rparr> else r)
      in if i \<noteq> numero_anterior r0 + 1
         then Listo ((forward_mensaje (r0\<lparr>mensaje_r := (mensaje_r r0)\<lparr>tipo_m := TOKEN_LOST,
                        data_m := strcpy_data (texto_int (numero_de_nodo r0)) (data_m (mensaje_r r0))\<rparr>\<rparr>))
                       \<lparr>cantidad_recibida_token := cantidad_recibida_token r0 + DATA_SIZE, token_inicializado := True\<rparr>, False)
         else case copiar_bloque (mem_size (r_grupo r0)) i (data_m (mensaje_r r0)) (data_token r0) of
                Listo d \<Rightarrow>
                  (let c = cantidad_recibida_token r0 + DATA_SIZE
                   in if c \<ge> cantidad_bytes_total (mensaje_r r0)
                      then Listo (r0\<lparr>data_token := d, cantidad_recibida_token := 0, numero_anterior := -1,
                                     token_inicializado := True\<rparr>, True)
                      else Listo (r0\<lparr>data_token := d, cantidad_recibida_token := c,
                                     numero_anterior := numero_anterior r0 + 1, token_inicializado := True\<rparr>, False))
              | Bloqueado \<Rightarrow> Bloqueado | Fallo f \<Rightarrow> Fallo f)"

definition procesar_memory_update :: "receptor \<Rightarrow> receptor llamada" where
  "procesar_memory_update r =
     (let i = numero_de_mensaje (mensaje_r r);
          r0 = (if i = 0 then r\<lparr>cantidad_recibida_replica := 0, replica_ok := False, numero_anterior_replica := -1\<rparr> else r)
      in if i \<noteq> numero_anterior_replica r0 + 1
         then (case copiar_bloque (mem_size (r_grupo r0)) i (data_m (mensaje_r r0)) (data_replica r0) of
                 Listo d \<Rightarrow>
                   (let c = cantidad_recibida_replica r0 + DATA_SIZE;
                        r1 = r0\<lparr>data_replica := d, cantidad_recibida_replica := c\<rparr>;
                        r2 = (if c \<ge> cantidad_bytes_total (mensaje_r r0)
                              then r1\<lparr>replica_ok := True, numero_anterior_replica := -1, data_token := d\<rparr> else r1);
                        r3 = r2\<lparr>numero_anterior_replica := numero_anterior_replica r2 + 1\<rparr>
                    in Listo (if es_leader r3 then r3 else forward_mensaje r3))
               | Bloqueado \<Rightarrow> Bloqueado | Fallo f \<Rightarrow> Fallo f)
         else Listo (r0\<lparr>cantidad_recibida_replica := 0, numero_anterior_replica := -1\<rparr>))"

text \<open>
  The answer to \<^verbatim>\<open>TOKEN_IN_TRANSIT\<close> copies the text \<open>%d\<close> itself, padded with NUL up
  to the number of the node.
\<close>

definition strncpy_formato :: "int \<Rightarrow> byte list \<Rightarrow> byte list llamada" where
  "strncpy_formato n buf =
     (if n < 0 \<or> int (length buf) < n then Fallo Fuera_de_rango
      else Listo (escribir 0 (take (nat n) (map of_char ''%d'' @ replicate (nat n) 0)) buf))"

definition atender_en_transito :: "receptor \<Rightarrow> receptor llamada" where
  "atender_en_transito r =
     (case tengo_el_token (r_grupo r) of
        Listo (g, tengo) \<Rightarrow>
          (if tengo
           then (case strncpy_formato (numero_de_nodo r) (data_m (mensaje_r r)) of
                   Listo d \<Rightarrow> Listo (forward_mensaje (r\<lparr>r_grupo := g, mensaje_r := (mensaje_r r)
                       \<lparr>tipo_m := TOKEN_OK, cantidad_bytes_total := 1, numero_de_mensaje := 0, data_m := d\<rparr>\<rparr>))
                 | Bloqueado \<Rightarrow> Bloqueado | Fallo f \<Rightarrow> Fallo f)
           else (case avisar_si_se_esta_enviando_token g of
                   Listo (g', u) \<Rightarrow> Listo (r\<lparr>r_grupo := g'\<rparr>)
                 | Bloqueado \<Rightarrow> Bloqueado | Fallo f \<Rightarrow> Fallo f))
      | Bloqueado \<Rightarrow> Bloqueado | Fallo f \<Rightarrow> Fallo f)"

definition atender_token_discover :: "receptor \<Rightarrow> receptor llamada" where
  "atender_token_discover r =
     (if es_leader r then Listo (reenviar_mensaje_a_lider r)
      else case tengo_el_token (r_grupo r) of
             Listo (g, tengo) \<Rightarrow>
               (if tengo
                then Listo (forward_mensaje (r\<lparr>r_grupo := g, mensaje_r := (mensaje_r r)
                       \<lparr>tipo_m := TOKEN_OK, data_m := strcpy_data (texto_int (numero_de_nodo r)) (data_m (mensaje_r r))\<rparr>\<rparr>))
                else (case avisar_si_se_esta_enviando_token g of
                        Listo (g', u) \<Rightarrow> Listo (r\<lparr>r_grupo := g'\<rparr>)
                      | Bloqueado \<Rightarrow> Bloqueado | Fallo f \<Rightarrow> Fallo f))
           | Bloqueado \<Rightarrow> Bloqueado | Fallo f \<Rightarrow> Fallo f)"

definition atender_group_discover :: "receptor \<Rightarrow> receptor \<times> bool" where
  "atender_group_discover r =
     (let c = cantidad_recibida_grupo r + DATA_SIZE; r1 = r\<lparr>data_group := take DATA_SIZE (data_m (mensaje_r r))\<rparr>
      in if c \<ge> cantidad_bytes_total (mensaje_r r) then (r1\<lparr>cantidad_recibida_grupo := 0\<rparr>, True)
         else (r1\<lparr>cantidad_recibida_grupo := c\<rparr>, False))"

text \<open>
  One turn of the loop of \<^verbatim>\<open>recv_token\<close>, with the message already in \<open>mensaje_r\<close>; the
  boolean is \<^verbatim>\<open>mensaje_completo\<close>, which no other branch has set before.
\<close>

definition turno_recv :: "receptor \<Rightarrow> (receptor \<times> bool) llamada" where
  "turno_recv r =
     (case tipo_m (mensaje_r r) of
        TOKEN_DELIVER \<Rightarrow> procesar_recepcion_token r
      | TOKEN_OK \<Rightarrow> (case atender_en_transito r of
                        Listo r' \<Rightarrow> Listo (r', False) | Bloqueado \<Rightarrow> Bloqueado | Fallo f \<Rightarrow> Fallo f)
      | GROUP_DISCOVER \<Rightarrow> Listo (atender_group_discover r)
      | MEMORY_UPDATE \<Rightarrow> (case procesar_memory_update r of
                        Listo r' \<Rightarrow> Listo (r', False) | Bloqueado \<Rightarrow> Bloqueado | Fallo f \<Rightarrow> Fallo f)
      | TOKEN_DISCOVER \<Rightarrow> (case atender_token_discover r of
                        Listo r' \<Rightarrow> Listo (r', False) | Bloqueado \<Rightarrow> Bloqueado | Fallo f \<Rightarrow> Fallo f)
      | _ \<Rightarrow> Listo (r, True))"

section \<open>What a complete message does\<close>

definition entregar_token_a_aplicacion :: "receptor \<Rightarrow> receptor" where
  "entregar_token_a_aplicacion r =
     r\<lparr>r_grupo := (r_grupo r)\<lparr>memoria_compartida :=
         escribir 0 (take (mem_size (r_grupo r)) (data_token r)) (memoria_compartida (r_grupo r))\<rparr>,
       r_manager := release_token (r_recurso r) (r_manager r)\<rparr>"

text \<open>\<^verbatim>\<open>inicializar_grupo\<close>: the words of the \<^verbatim>\<open>.init\<close> file over the memory, and the first token.\<close>

definition bytes_init :: "int list \<Rightarrow> byte list" where
  "bytes_init ws = concat (map (\<lambda>v. entero 4 (nat (v mod 2 ^ 32))) ws)"

definition inicializar_grupo :: "receptor \<Rightarrow> receptor llamada" where
  "inicializar_grupo r =
     (case r_inicial r of (se, archivo, p) \<Rightarrow>
        (case inicializar_memoria se archivo p (mem_size (r_grupo r)) [] of
           Listo ws \<Rightarrow>
             (let r1 = r\<lparr>r_grupo := (r_grupo r)\<lparr>memoria_compartida :=
                           escribir 0 (bytes_init ws) (memoria_compartida (r_grupo r))\<rparr>\<rparr>
              in Listo (if crear_token r then r1\<lparr>r_manager := release_token (r_recurso r) (r_manager r1)\<rparr> else r1))
         | Bloqueado \<Rightarrow> Bloqueado | Fallo f \<Rightarrow> Fallo f))"

text \<open>\<^verbatim>\<open>launch_lider\<close> creates the queue of the leader, which must not exist, and starts \<^verbatim>\<open>lider\<close>.\<close>

definition launch_lider :: "receptor \<Rightarrow> receptor llamada" where
  "launch_lider r =
     (if mutex_r r then Listo r
      else if hay_cola_lider r then Fallo OSError
      else Listo (r\<lparr>r_lider := [], numero_de_nodo := 1, hay_cola_lider := True\<rparr>))"

definition actualizar_numero_de_nodo :: "receptor \<Rightarrow> receptor" where
  "actualizar_numero_de_nodo r =
     (let n = (case sscanf_d (data_m (mensaje_r r)) of None \<Rightarrow> numero_de_nodo r | Some v \<Rightarrow> v) + 1
      in r\<lparr>numero_de_nodo := n, mensaje_r := (mensaje_r r)\<lparr>data_m := strcpy_data (texto_int n) (data_m (mensaje_r r))\<rparr>\<rparr>)"

definition nombre_en_datos :: "receptor \<Rightarrow> string" where
  "nombre_en_datos r = leer_cadena (data_m (mensaje_r r))"

text \<open>\<^verbatim>\<open>TOKEN_RECOVER\<close>: the number is read into an uninitialised variable, here \<open>basura\<close>.\<close>

definition recuperar_token :: "int \<Rightarrow> receptor \<Rightarrow> receptor llamada" where
  "recuperar_token basura r =
     (if es_leader r then Listo (reenviar_mensaje_a_lider r)
      else if nombre_en_datos r = ''OK'' then Listo r
      else if (case sscanf_d (data_m (mensaje_r r)) of None \<Rightarrow> basura | Some v \<Rightarrow> v) = numero_de_nodo r
      then (case reenviar_token (r_base r) (r_recurso r) (r_cliente r) (r_tokens r) (r_grupo r) of
              Listo (g, q) \<Rightarrow> Listo (forward_mensaje (r\<lparr>r_grupo := g, r_tokens := q,
                 mensaje_r := (mensaje_r r)\<lparr>data_m := strcpy_data ''OK'' (data_m (mensaje_r r))\<rparr>\<rparr>))
            | Bloqueado \<Rightarrow> Bloqueado | Fallo f \<Rightarrow> Fallo f)
      else Listo r)"

definition ser_leader :: "receptor \<Rightarrow> receptor llamada" where
  "ser_leader r =
     (let r1 = r\<lparr>es_leader := True, numero_de_nodo := 1\<rparr>
      in case (if token_inicializado r1 then Listo r1 else inicializar_grupo r1) of
           Listo r2 \<Rightarrow> launch_lider r2
         | Bloqueado \<Rightarrow> Bloqueado | Fallo f \<Rightarrow> Fallo f)"

definition procesar_mensaje :: "int \<Rightarrow> receptor \<Rightarrow> receptor llamada" where
  "procesar_mensaje basura r =
     (case tipo_m (mensaje_r r) of
        TOKEN_DELIVER \<Rightarrow> Listo (entregar_token_a_aplicacion r)
      | GROUP_DISCOVER \<Rightarrow>
          Listo (if es_leader r then reenviar_mensaje_a_lider r else forward_mensaje (actualizar_numero_de_nodo r))
      | INITIALIZATION \<Rightarrow>
          Listo (if r_broker r \<noteq> nombre_en_datos r
                 then forward_mensaje (if es_leader r
                        then r\<lparr>mensaje_r := (mensaje_r r)\<lparr>tipo_m := LEADER_ELECTED\<rparr>\<rparr> else r)
                 else r)
      | LEADER \<Rightarrow> (if es_leader r then Listo r else ser_leader r)
      | TOKEN_RECOVER \<Rightarrow> recuperar_token basura r
      | _ \<Rightarrow> Listo r)"

section \<open>The start and the loop of a receiver\<close>

definition empezar :: "receptor \<Rightarrow> receptor" where
  "empezar r = (forward_mensaje (r\<lparr>mensaje_r := (mensaje_r r)\<lparr>tipo_m := INITIALIZATION, numero_de_mensaje := 0,
     cantidad_bytes_total := length (r_broker r), data_m := strcpy_data (r_broker r) (data_m (mensaje_r r))\<rparr>\<rparr>))
     \<lparr>iniciando := True\<rparr>"

text \<open>One turn of the loop of \<^verbatim>\<open>inicializando\<close>, and one of \<^verbatim>\<open>loop_token\<close>.\<close>

definition turno_inicial :: "receptor \<Rightarrow> receptor llamada" where
  "turno_inicial r =
     (case tipo_m (mensaje_r r) of
        LEADER \<Rightarrow>
          (case (if token_inicializado r then Listo (r\<lparr>es_leader := True\<rparr>) else inicializar_grupo (r\<lparr>es_leader := True\<rparr>)) of
             Listo r1 \<Rightarrow>
               (case launch_lider r1 of
                  Listo r2 \<Rightarrow> Listo (r2\<lparr>iniciando := False\<rparr>) | Bloqueado \<Rightarrow> Bloqueado | Fallo f \<Rightarrow> Fallo f)
           | Bloqueado \<Rightarrow> Bloqueado | Fallo f \<Rightarrow> Fallo f)
      | INITIALIZATION \<Rightarrow> Listo (if r_broker r = nombre_en_datos r then r\<lparr>iniciando := False\<rparr> else r)
      | LEADER_ELECTED \<Rightarrow> Listo (r\<lparr>es_leader := False, token_inicializado := True, iniciando := False\<rparr>)
      | _ \<Rightarrow> Listo (forward_mensaje r))"

definition turno_loop :: "int \<Rightarrow> receptor \<Rightarrow> receptor llamada" where
  "turno_loop basura r =
     (case turno_recv r of
        Listo (r1, completo) \<Rightarrow> (if completo then procesar_mensaje basura r1 else Listo r1)
      | Bloqueado \<Rightarrow> Bloqueado | Fallo f \<Rightarrow> Fallo f)"

text \<open>A receiver pulls a message, and then a list of them. What it read has replaced \<^verbatim>\<open>mensaje\<close>.\<close>

definition recibir_uno :: "int \<Rightarrow> mensaje_grupo \<Rightarrow> receptor \<Rightarrow> receptor llamada" where
  "recibir_uno basura m r =
     (let r0 = r\<lparr>mensaje_r := m\<rparr> in if iniciando r0 then turno_inicial r0 else turno_loop basura r0)"

fun recibir_todos :: "int \<Rightarrow> mensaje_grupo list \<Rightarrow> receptor \<Rightarrow> receptor llamada" where
  "recibir_todos basura [] r = Listo r"
| "recibir_todos basura (m # ms) r =
     (case recibir_uno basura m r of
        Listo r' \<Rightarrow> recibir_todos basura ms r' | Bloqueado \<Rightarrow> Bloqueado | Fallo f \<Rightarrow> Fallo f)"

text \<open>
  Messages that cross the receivers of consecutive brokers: what each one pushes is what the
  next one gets. The result: the receivers, and what the last one pushed.
\<close>

fun cruzar :: "int \<Rightarrow> receptor list \<Rightarrow> mensaje_grupo list \<Rightarrow> (receptor list \<times> mensaje_grupo list) llamada" where
  "cruzar basura [] ms = Listo ([], ms)"
| "cruzar basura (r # rs) ms =
     (case recibir_todos basura ms (r\<lparr>r_salida := []\<rparr>) of
        Listo r' \<Rightarrow>
          (case cruzar basura rs (r_salida r') of
             Listo (rs', fin) \<Rightarrow> Listo (r' # rs', fin) | Bloqueado \<Rightarrow> Bloqueado | Fallo f \<Rightarrow> Fallo f)
      | Bloqueado \<Rightarrow> Bloqueado | Fallo f \<Rightarrow> Fallo f)"

section \<open>The leader\<close>

text \<open>
  \<^verbatim>\<open>lider.cpp\<close>. What a wait in \<^verbatim>\<open>wait_msg\<close> sees: a message (with \<open>True\<close> when the
  alarm went off between taking it and putting the alarm out), the alarm in the middle of the
  blocked read, or an error of the queue. An interrupted read raises
  \<^verbatim>\<open>InterruptedSyscall\<close>, which is not an \<^verbatim>\<open>OSError\<close>.
\<close>

datatype espera = Llega mensaje_grupo bool | Interrumpida | Falla_cola bool

record lider =
  mensaje_l :: mensaje_grupo
  mensaje_envio :: mensaje_grupo
  alarma :: bool
  cant_nodos :: int
  l_envios :: "mensaje_grupo list"
  l_manager :: "traspaso cola"

definition send_msg :: "lider \<Rightarrow> lider" where
  "send_msg l = l\<lparr>l_envios := l_envios l @ [mensaje_envio l]\<rparr>"

definition wait_msg :: "espera \<Rightarrow> lider \<Rightarrow> lider llamada" where
  "wait_msg e l =
     (case e of
        Llega m a \<Rightarrow> Listo (l\<lparr>mensaje_l := m, alarma := a\<rparr>)
      | Interrumpida \<Rightarrow> Fallo InterruptedSyscall
      | Falla_cola a \<Rightarrow> (if a then Listo (l\<lparr>alarma := True\<rparr>) else Fallo OSError))"

text \<open>The first word of the data as an \<^verbatim>\<open>int\<close>.\<close>

definition entero_data :: "byte list \<Rightarrow> int" where
  "entero_data buf = (let n = leer (take 4 buf) in if n < 2 ^ 31 then int n else int n - 2 ^ 32)"

definition poner_entero_data :: "int \<Rightarrow> byte list \<Rightarrow> byte list" where
  "poner_entero_data v buf = escribir 0 (entero 4 (nat (v mod 2 ^ 32))) buf"

text \<open>
  The search for the last node that had the token, one turn of the inner loop per number;
  each number but the last waits for an answer. How a turn ends: with what is left of the
  waits, in a wait that nothing ends, or with an exception.
\<close>

datatype fin_turno = Sigue "espera list" | Espera | Lanza falla

definition pedir_a_nodo :: "int \<Rightarrow> lider \<Rightarrow> lider" where
  "pedir_a_nodo v l = send_msg (l\<lparr>mensaje_envio := (mensaje_envio l)\<lparr>tipo_m := TOKEN_RECOVER,
     data_m := poner_entero_data v (data_m (mensaje_envio l))\<rparr>\<rparr>)"

function buscar_token :: "string \<Rightarrow> int \<Rightarrow> espera list \<Rightarrow> lider \<Rightarrow> lider \<times> fin_turno" where
  "buscar_token recurso_l v es l =
     (if v - 1 > 1
      then (case es of
              [] \<Rightarrow> (pedir_a_nodo (v - 1) l, Espera)
            | e # es' \<Rightarrow>
                (case wait_msg e (pedir_a_nodo (v - 1) l) of
                   Listo l1 \<Rightarrow> (if leer_cadena (data_m (mensaje_l l1)) = ''OK'' then (l1, Sigue es')
                               else buscar_token recurso_l (v - 1) es' l1)
                 | Bloqueado \<Rightarrow> (pedir_a_nodo (v - 1) l, Espera)
                 | Fallo f \<Rightarrow> (pedir_a_nodo (v - 1) l, Lanza f)))
      else (l\<lparr>mensaje_envio := (mensaje_envio l)\<lparr>data_m := poner_entero_data (v - 1) (data_m (mensaje_envio l))\<rparr>,
              l_manager := release_token recurso_l (l_manager l)\<rparr>, Sigue es))"
  by pat_completeness auto
termination by (relation "measure (\<lambda>(n, v, es, l). nat v)") auto

declare buscar_token.simps [simp del]

lemma buscar_token_resto: "snd (buscar_token recurso_l v es l) = Sigue es' \<Longrightarrow> length es' \<le> length es"
proof (induction recurso_l v es l rule: buscar_token.induct)
  case (1 recurso_l v es l)
  show ?case
  proof (cases es)
    case Nil
    then show ?thesis using 1(2) by (auto simp: buscar_token.simps [of _ v] split: if_splits)
  next
    case (Cons e fs)
    show ?thesis
    proof (cases "wait_msg e (pedir_a_nodo (v - 1) l)")
      case (Listo l1)
      then show ?thesis using 1(1) [OF _ Cons Listo] 1(2) Cons
        by (auto simp: buscar_token.simps [of _ v] split: if_splits)
    qed (use 1(2) Cons in \<open>auto simp: buscar_token.simps [of _ v] split: if_splits\<close>)
  qed
qed

text \<open>One turn of \<^verbatim>\<open>run\<close>: the message is looked at when the alarm went off.\<close>

definition turno_lider :: "string \<Rightarrow> espera \<Rightarrow> espera list \<Rightarrow> lider \<Rightarrow> lider \<times> fin_turno" where
  "turno_lider recurso_l e es l =
     (case wait_msg e l of
        Listo l1 \<Rightarrow>
          (if alarma l1
           then (case tipo_m (mensaje_l l1) of
                   GROUP_DISCOVER \<Rightarrow> (l1\<lparr>cant_nodos :=
                      (case sscanf_d (data_m (mensaje_l l1)) of None \<Rightarrow> cant_nodos l1 | Some n \<Rightarrow> n)\<rparr>, Sigue es)
                 | TOKEN_LOST \<Rightarrow> buscar_token recurso_l (entero_data (data_m (mensaje_l l1))) es l1
                 | INITIALIZATION \<Rightarrow> (l1\<lparr>mensaje_envio := (mensaje_envio l1)\<lparr>numero_de_mensaje := 1\<rparr>\<rparr>, Sigue es)
                 | _ \<Rightarrow> (l1, Sigue es))
           else (send_msg (l1\<lparr>mensaje_l := (mensaje_l l1)\<lparr>tipo_m := TOKEN_DISCOVER\<rparr>\<rparr>), Sigue es))
      | Bloqueado \<Rightarrow> (l, Espera) | Fallo f \<Rightarrow> (l, Lanza f))"

lemma turno_lider_resto: "snd (turno_lider recurso_l e es l) = Sigue es' \<Longrightarrow> length es' \<le> length es"
  by (auto simp: turno_lider_def buscar_token_resto split: llamada.splits tipo_anillo.splits if_splits)

text \<open>
  The loop of \<^verbatim>\<open>run\<close> on the waits to come. An \<^verbatim>\<open>OSError\<close> leaves it; any other
  exception goes through \<^verbatim>\<open>main\<close> and kills the process.
\<close>

datatype fin_lider = Esperando | Sale | Muere

function run_lider :: "string \<Rightarrow> espera list \<Rightarrow> lider \<Rightarrow> lider \<times> fin_lider" where
  "run_lider recurso_l [] l = (l, Esperando)"
| "run_lider recurso_l (e # es) l =
     (case turno_lider recurso_l e es l of
        (l', Sigue es') \<Rightarrow> run_lider recurso_l es' l'
      | (l', Espera) \<Rightarrow> (l', Esperando)
      | (l', Lanza f) \<Rightarrow> (l', if f = OSError then Sale else Muere))"
  by pat_completeness auto
termination
proof (relation "measure (\<lambda>(n, es, l). length es)")
  fix recurso_l e es l l' t es'
  assume "(l', t) = turno_lider recurso_l e es l" and "t = Sigue es'"
  then have "snd (turno_lider recurso_l e es l) = Sigue es'" by (metis snd_conv)
  then show "((recurso_l, es', l'), recurso_l, e # es, l) \<in> measure (\<lambda>(n, es, l). length es)"
    using turno_lider_resto [of recurso_l e es l es'] by simp
qed simp

definition empezar_lider :: "lider \<Rightarrow> lider" where
  "empezar_lider l = send_msg (l\<lparr>mensaje_envio := (mensaje_envio l)\<lparr>cantidad_bytes_total := 1,
     data_m := strcpy_data (texto_int 1) (poner_entero_data 1 (data_m (mensaje_envio l))),
     numero_de_mensaje := 1, tipo_m := GROUP_DISCOVER\<rparr>\<rparr>)"

section \<open>A leader recovers nothing\<close>

text \<open>A wait whose alarm, if any, found the leader in the blocked read.\<close>

fun a_tiempo :: "espera \<Rightarrow> bool" where
  "a_tiempo (Llega m a) = (\<not> a)"
| "a_tiempo Interrumpida = True"
| "a_tiempo (Falla_cola a) = (\<not> a)"

fun es_mensaje :: "espera \<Rightarrow> bool" where
  "es_mensaje (Llega m a) = True"
| "es_mensaje e = False"

lemma turno_lider_a_tiempo:
  "turno_lider n (Llega m False) es l =
     (send_msg (l\<lparr>alarma := False, mensaje_l := m\<lparr>tipo_m := TOKEN_DISCOVER\<rparr>\<rparr>), Sigue es)"
  "turno_lider n Interrumpida es l = (l, Lanza InterruptedSyscall)"
  "turno_lider n (Falla_cola False) es l = (l, Lanza OSError)"
  by (simp_all add: turno_lider_def wait_msg_def)

lemma run_lider_a_tiempo:
  assumes "list_all a_tiempo es"
  shows "l_manager (fst (run_lider n es l)) = l_manager l \<and>
    l_envios (fst (run_lider n es l)) =
      l_envios l @ replicate (length (takeWhile es_mensaje es)) (mensaje_envio l) \<and>
    snd (run_lider n es l) =
      (case dropWhile es_mensaje es of [] \<Rightarrow> Esperando | e # fs \<Rightarrow> if e = Interrumpida then Muere else Sale)"
  using assms
proof (induction es arbitrary: l)
  case Nil
  then show ?case by simp
next
  case (Cons e es)
  show ?case
  proof (cases e)
    case (Llega m a)
    then have "\<not> a" using Cons.prems by simp
    then show ?thesis
      using Cons.IH [of "send_msg (l\<lparr>alarma := False, mensaje_l := m\<lparr>tipo_m := TOKEN_DISCOVER\<rparr>\<rparr>)"] Cons.prems Llega
      by (simp add: turno_lider_a_tiempo send_msg_def)
  next
    case Interrumpida
    then show ?thesis by (simp add: turno_lider_a_tiempo)
  next
    case (Falla_cola a)
    then show ?thesis using Cons.prems by (cases a) (simp_all add: turno_lider_a_tiempo)
  qed
qed

text \<open>
  C29. A leader whose alarm, when it goes off, finds it in its read never looks at a message:
  whatever arrives, it sends the same GROUP_DISCOVER once at the start and once for each message
  before its first failed read, never asks a node for the token and never releases one; it dies
  at the first alarm, waits when nothing fails, and leaves its loop at an error of its queue.
\<close>

theorem lider_no_recupera:
  assumes "list_all a_tiempo es"
  shows "l_manager (fst (run_lider n es (empezar_lider l))) = l_manager l \<and>
    (\<exists>m. tipo_m m = GROUP_DISCOVER \<and>
      l_envios (fst (run_lider n es (empezar_lider l))) =
        l_envios l @ replicate (Suc (length (takeWhile es_mensaje es))) m) \<and>
    snd (run_lider n es (empezar_lider l)) =
      (case dropWhile es_mensaje es of [] \<Rightarrow> Esperando | e # fs \<Rightarrow> if e = Interrumpida then Muere else Sale)"
  using run_lider_a_tiempo [OF assms, of n "empezar_lider l"]
  by (auto simp: empezar_lider_def send_msg_def)

definition mensaje_ejemplo :: "tipo_anillo \<Rightarrow> string \<Rightarrow> mensaje_grupo" where
  "mensaje_ejemplo t s = \<lparr>tipo_m = t, numero_de_mensaje = 0, cantidad_bytes_total = 1, nombre_grupo = ''cinta'',
     data_m = strcpy_data s (replicate DATA_SIZE 0)\<rparr>"

definition lider_ejemplo :: lider where
  "lider_ejemplo = \<lparr>mensaje_l = mensaje_ejemplo LEADER [], mensaje_envio = mensaje_ejemplo LEADER [],
     alarma = False, cant_nodos = 0, l_envios = [], l_manager = []\<rparr>"

text \<open>Two lost tokens are announced, and the alarm goes off.\<close>

theorem lider_no_recupera_witness:
  "l_manager (fst (run_lider ''cinta'' [Llega (mensaje_ejemplo TOKEN_LOST ''3'') False,
      Llega (mensaje_ejemplo TOKEN_LOST ''4'') False, Interrumpida] (empezar_lider lider_ejemplo))) = [] \<and>
   length (l_envios (fst (run_lider ''cinta'' [Llega (mensaje_ejemplo TOKEN_LOST ''3'') False,
      Llega (mensaje_ejemplo TOKEN_LOST ''4'') False, Interrumpida] (empezar_lider lider_ejemplo)))) = 3 \<and>
   snd (run_lider ''cinta'' [Llega (mensaje_ejemplo TOKEN_LOST ''3'') False,
      Llega (mensaje_ejemplo TOKEN_LOST ''4'') False, Interrumpida] (empezar_lider lider_ejemplo)) = Muere"
  using lider_no_recupera [of "[Llega (mensaje_ejemplo TOKEN_LOST ''3'') False,
      Llega (mensaje_ejemplo TOKEN_LOST ''4'') False, Interrumpida]" "''cinta''" lider_ejemplo]
  by (auto simp: lider_ejemplo_def)

text \<open>Only an alarm between the message and its end would make it look: then it does ask, and release.\<close>

lemma lider_recupera_tarde:
  assumes "tipo_m m = TOKEN_LOST" and "entero_data (data_m m) \<le> 2"
  shows "l_manager (fst (turno_lider n (Llega m True) es l)) = release_token n (l_manager l)"
  using assms by (simp add: turno_lider_def wait_msg_def buscar_token.simps)

section \<open>Who learns the leader\<close>

lemma leer_strcpy: "CHR 0x00 \<notin> set s \<Longrightarrow> leer_cadena (strcpy_data s buf) = s"
  by (simp add: strcpy_data_def escribir_def leer_cadena_cadena)

lemma recibir_iniciando:
  assumes "iniciando r"
  shows "tipo_m m = INITIALIZATION \<Longrightarrow> recibir_uno b m r =
      Listo (if r_broker r = leer_cadena (data_m m) then r\<lparr>mensaje_r := m, iniciando := False\<rparr> else r\<lparr>mensaje_r := m\<rparr>)"
    and "tipo_m m = LEADER_ELECTED \<Longrightarrow> recibir_uno b m r =
      Listo (r\<lparr>mensaje_r := m, es_leader := False, token_inicializado := True, iniciando := False\<rparr>)"
  using assms by (simp_all add: recibir_uno_def turno_inicial_def nombre_en_datos_def)

lemma recibir_andando:
  assumes "\<not> iniciando r"
  shows "tipo_m m = INITIALIZATION \<Longrightarrow> r_broker r \<noteq> leer_cadena (data_m m) \<Longrightarrow>
      \<exists>m'. data_m m' = data_m m \<and> tipo_m m' = (if es_leader r then LEADER_ELECTED else INITIALIZATION) \<and>
        recibir_uno b m r = Listo (r\<lparr>mensaje_r := m', r_salida := r_salida r @ [m']\<rparr>)"
    and "tipo_m m = LEADER_ELECTED \<Longrightarrow> recibir_uno b m r = Listo (r\<lparr>mensaje_r := m\<rparr>)"
    and "tipo_m m = TOKEN_LOST \<Longrightarrow> recibir_uno b m r = Listo (r\<lparr>mensaje_r := m\<rparr>)"
proof -
  show "recibir_uno b m r = Listo (r\<lparr>mensaje_r := m\<rparr>)" if "tipo_m m = LEADER_ELECTED"
    using assms that by (simp add: recibir_uno_def turno_loop_def turno_recv_def procesar_mensaje_def)
  show "recibir_uno b m r = Listo (r\<lparr>mensaje_r := m\<rparr>)" if "tipo_m m = TOKEN_LOST"
    using assms that by (simp add: recibir_uno_def turno_loop_def turno_recv_def procesar_mensaje_def)
  assume m: "tipo_m m = INITIALIZATION" and n: "r_broker r \<noteq> leer_cadena (data_m m)"
  show "\<exists>m'. data_m m' = data_m m \<and> tipo_m m' = (if es_leader r then LEADER_ELECTED else INITIALIZATION) \<and>
        recibir_uno b m r = Listo (r\<lparr>mensaje_r := m', r_salida := r_salida r @ [m']\<rparr>)"
    by (rule exI [of _ "if es_leader r then m\<lparr>tipo_m := LEADER_ELECTED\<rparr> else m"])
      (use assms m n in \<open>auto simp: recibir_uno_def turno_loop_def turno_recv_def procesar_mensaje_def nombre_en_datos_def
        forward_mensaje_def\<close>)
qed

lemma cruzar_nada: "\<exists>rs'. cruzar b rs [] = Listo (rs', [])"
  by (induction rs) auto

lemma cruzar_elegido: "tipo_m m = LEADER_ELECTED \<Longrightarrow> rs \<noteq> [] \<Longrightarrow> \<exists>rs'. cruzar b rs [m] = Listo (rs', [])"
proof (cases rs)
  case (Cons r rs')
  assume m: "tipo_m m = LEADER_ELECTED"
  define r0 where "r0 = r\<lparr>r_salida := []\<rparr>"
  have "\<exists>r'. recibir_uno b m r0 = Listo r' \<and> r_salida r' = []"
  proof (cases "iniciando r0")
    case True
    then show ?thesis using recibir_iniciando(2) [OF True m, of b] by (simp add: r0_def)
  next
    case False
    then show ?thesis using recibir_andando(2) [OF False m, of b] by (simp add: r0_def)
  qed
  then obtain r' where "recibir_uno b m r0 = Listo r'" and "r_salida r' = []" by blast
  moreover obtain rs'' where "cruzar b rs' [] = Listo (rs'', [])" using cruzar_nada by blast
  ultimately show ?thesis using Cons by (simp add: r0_def)
qed simp

lemma cruzar_inicio:
  assumes "tipo_m m = INITIALIZATION" and "\<forall>r \<in> set rs. r_broker r \<noteq> leer_cadena (data_m m)"
  shows "\<exists>rs' ms. cruzar b rs [m] = Listo (rs', ms) \<and>
    (if (\<exists>r \<in> set rs. iniciando r) \<or> (\<exists>r \<in> set (butlast rs). es_leader r) then ms = []
     else \<exists>m'. ms = [m'] \<and> data_m m' = data_m m \<and>
            tipo_m m' = (if rs \<noteq> [] \<and> es_leader (last rs) then LEADER_ELECTED else INITIALIZATION))"
  using assms
proof (induction rs arbitrary: m)
  case Nil
  then show ?case by simp
next
  case (Cons r rs)
  define r0 where "r0 = r\<lparr>r_salida := []\<rparr>"
  have n: "r_broker r0 \<noteq> leer_cadena (data_m m)" using Cons.prems(2) by (simp add: r0_def)
  show ?case
  proof (cases "iniciando r")
    case True
    then have "recibir_uno b m r0 = Listo (r0\<lparr>mensaje_r := m\<rparr>)"
      using recibir_iniciando(1) [of r0 m b] n Cons.prems(1) by (simp add: r0_def)
    then show ?thesis using cruzar_nada [of b rs] True by (auto simp: r0_def)
  next
    case False
    then have "\<not> iniciando r0" by (simp add: r0_def)
    from recibir_andando(1) [OF this Cons.prems(1) n, of b]
    obtain m' where m': "data_m m' = data_m m"
      "tipo_m m' = (if es_leader r then LEADER_ELECTED else INITIALIZATION)"
      "recibir_uno b m r0 = Listo (r0\<lparr>mensaje_r := m', r_salida := [m']\<rparr>)" by (auto simp: r0_def)
    have c: "cruzar b (r # rs) [m] =
      (case cruzar b rs [m'] of
         Listo (rs', fin) \<Rightarrow> Listo (r0\<lparr>mensaje_r := m', r_salida := [m']\<rparr> # rs', fin)
       | Bloqueado \<Rightarrow> Bloqueado | Fallo f \<Rightarrow> Fallo f)"
      using m'(3) by (simp flip: r0_def)
    show ?thesis
    proof (cases "es_leader r")
      case True
      show ?thesis
      proof (cases "rs = []")
        case True
        then show ?thesis using c m' \<open>es_leader r\<close> False by simp
      next
        case rs: False
        have "tipo_m m' = LEADER_ELECTED" using m'(2) True by simp
        from cruzar_elegido [OF this rs, of b] obtain rs' where "cruzar b rs [m'] = Listo (rs', [])" by auto
        then show ?thesis using c rs True by auto
      qed
    next
      case False
      have "tipo_m m' = INITIALIZATION" using m'(2) False by simp
      moreover have "\<forall>r \<in> set rs. r_broker r \<noteq> leer_cadena (data_m m')" using Cons.prems(2) m'(1) by simp
      ultimately obtain rs' ms where "cruzar b rs [m'] = Listo (rs', ms)"
        and "if (\<exists>r \<in> set rs. iniciando r) \<or> (\<exists>r \<in> set (butlast rs). es_leader r) then ms = []
          else \<exists>m''. ms = [m''] \<and> data_m m'' = data_m m' \<and>
            tipo_m m'' = (if rs \<noteq> [] \<and> es_leader (last rs) then LEADER_ELECTED else INITIALIZATION)"
        using Cons.IH [of m'] by blast
      then show ?thesis using c m'(1) False \<open>\<not> iniciando r\<close> by (auto split: if_splits)
    qed
  qed
qed

text \<open>
  A broker that joins a ring pushes its INITIALIZATION, which crosses the receivers of the
  others, in order, and comes back as what the last one pushes. It ends its start exactly when
  none of them is still starting and none but its predecessor leads: a receiver that is
  starting swallows the message, and the answer of a leader is swallowed by the next receiver.
  When it ends it does not lead; it learned that there is a leader exactly when its predecessor
  is the leader. So two brokers that start together wait for ever, and in a ring of more than
  two the answer reaches one place only.
\<close>

theorem inicio_en_anillo:
  assumes "CHR 0x00 \<notin> set (r_broker nuevo)"
    and "\<not> es_leader nuevo" and "\<not> token_inicializado nuevo"
    and "\<forall>r \<in> set rs. r_broker r \<noteq> r_broker nuevo"
  shows "\<exists>rs' ms nuevo'. cruzar b rs (r_salida (empezar (nuevo\<lparr>r_salida := []\<rparr>))) = Listo (rs', ms) \<and>
    recibir_todos b ms (empezar nuevo) = Listo nuevo' \<and> \<not> es_leader nuevo' \<and>
    (\<not> iniciando nuevo' \<longleftrightarrow> (\<forall>r \<in> set rs. \<not> iniciando r) \<and> (\<forall>r \<in> set (butlast rs). \<not> es_leader r)) \<and>
    (token_inicializado nuevo' \<longleftrightarrow> \<not> iniciando nuevo' \<and> rs \<noteq> [] \<and> es_leader (last rs))"
proof -
  define m where "m = mensaje_r (empezar nuevo)"
  have out: "r_salida (empezar (nuevo\<lparr>r_salida := []\<rparr>)) = [m]"
    by (simp add: empezar_def forward_mensaje_def m_def)
  have e: "iniciando (empezar nuevo)" "r_broker (empezar nuevo) = r_broker nuevo"
    "\<not> es_leader (empezar nuevo)" "\<not> token_inicializado (empezar nuevo)"
    using assms(2,3) by (simp_all add: empezar_def forward_mensaje_def)
  have m: "tipo_m m = INITIALIZATION" "leer_cadena (data_m m) = r_broker nuevo"
    using leer_strcpy [OF assms(1)] by (simp_all add: m_def empezar_def forward_mensaje_def)
  have "\<forall>r \<in> set rs. r_broker r \<noteq> leer_cadena (data_m m)" using assms(4) m(2) by simp
  from cruzar_inicio [OF m(1) this, of b] obtain rs' ms where c: "cruzar b rs [m] = Listo (rs', ms)"
    and r: "if (\<exists>r \<in> set rs. iniciando r) \<or> (\<exists>r \<in> set (butlast rs). es_leader r) then ms = []
      else \<exists>m'. ms = [m'] \<and> data_m m' = data_m m \<and>
        tipo_m m' = (if rs \<noteq> [] \<and> es_leader (last rs) then LEADER_ELECTED else INITIALIZATION)" by blast
  show ?thesis
  proof (cases "(\<exists>r \<in> set rs. iniciando r) \<or> (\<exists>r \<in> set (butlast rs). es_leader r)")
    case True
    then have "recibir_todos b ms (empezar nuevo) = Listo (empezar nuevo)" using r by simp
    then show ?thesis using True c out e by (intro exI [of _ rs'] exI [of _ ms] exI [of _ "empezar nuevo"]) auto
  next
    case False
    then obtain m' where ms: "ms = [m']" and d: "data_m m' = data_m m"
      and t: "tipo_m m' = (if rs \<noteq> [] \<and> es_leader (last rs) then LEADER_ELECTED else INITIALIZATION)" using r by auto
    have "\<exists>n'. recibir_uno b m' (empezar nuevo) = Listo n' \<and> \<not> iniciando n' \<and> \<not> es_leader n' \<and>
        (token_inicializado n' \<longleftrightarrow> rs \<noteq> [] \<and> es_leader (last rs))"
    proof (cases "rs \<noteq> [] \<and> es_leader (last rs)")
      case True
      then show ?thesis using recibir_iniciando(2) [OF e(1), of m' b] t by auto
    next
      case False
      then show ?thesis using recibir_iniciando(1) [OF e(1), of m' b] t d m(2) e(2,3,4) by auto
    qed
    then obtain n' where n': "recibir_uno b m' (empezar nuevo) = Listo n'" "\<not> iniciando n'" "\<not> es_leader n'"
      "token_inicializado n' \<longleftrightarrow> rs \<noteq> [] \<and> es_leader (last rs)" by blast
    then have "recibir_todos b ms (empezar nuevo) = Listo n'" using ms by simp
    then show ?thesis using False c out n' by (intro exI [of _ rs'] exI [of _ ms] exI [of _ n']) auto
  qed
qed

definition grupo_ejemplo :: "byte list \<Rightarrow> grupo" where
  "grupo_ejemplo mem = iniciar_grupo (length mem) (replicate MAX_CLIENTS []) mem"

definition receptor_ejemplo :: "string \<Rightarrow> bool \<Rightarrow> bool \<Rightarrow> byte list \<Rightarrow> receptor" where
  "receptor_ejemplo nombre ini li mem =
     \<lparr>r_broker = nombre, r_recurso = ''cinta'', r_inicial = (0, None, \<lparr>valor_int = 0, cant_vector = 0, tipo_valor = 0\<rparr>),
      r_base = 1, r_cliente = 0, crear_token = False, mensaje_r = mensaje_ejemplo LEADER [],
      data_token = replicate (length mem) 0, data_replica = replicate (length mem) 0, data_group = replicate DATA_SIZE 0,
      cantidad_recibida_token = 0, cantidad_recibida_grupo = 0, cantidad_recibida_replica = 0, numero_anterior = -1,
      numero_anterior_replica = -1, mutex_r = (mem = []), es_leader = li, token_inicializado = False, replica_ok = False,
      numero_de_nodo = 1, iniciando = ini, r_grupo = grupo_ejemplo mem, r_tokens = [], r_manager = [], r_lider = [],
      r_salida = [], hay_cola_lider = False\<rparr>"

text \<open>A ring of three whose leader comes first: the newcomer waits for ever. Last: it learns it.\<close>

theorem inicio_en_anillo_witness:
  "(\<exists>rs' ms nuevo'. cruzar 0 [receptor_ejemplo ''b'' False True [], receptor_ejemplo ''c'' False False []]
        (r_salida (empezar ((receptor_ejemplo ''a'' True False [])\<lparr>r_salida := []\<rparr>))) = Listo (rs', ms) \<and>
      recibir_todos 0 ms (empezar (receptor_ejemplo ''a'' True False [])) = Listo nuevo' \<and> iniciando nuevo') \<and>
   (\<exists>rs' ms nuevo'. cruzar 0 [receptor_ejemplo ''c'' False False [], receptor_ejemplo ''b'' False True []]
        (r_salida (empezar ((receptor_ejemplo ''a'' True False [])\<lparr>r_salida := []\<rparr>))) = Listo (rs', ms) \<and>
      recibir_todos 0 ms (empezar (receptor_ejemplo ''a'' True False [])) = Listo nuevo' \<and> token_inicializado nuevo')"
  using inicio_en_anillo [of "receptor_ejemplo ''a'' True False []"
      "[receptor_ejemplo ''b'' False True [], receptor_ejemplo ''c'' False False []]" 0]
    inicio_en_anillo [of "receptor_ejemplo ''a'' True False []"
      "[receptor_ejemplo ''c'' False False [], receptor_ejemplo ''b'' False True []]" 0]
  by (auto simp: receptor_ejemplo_def)

section \<open>A token crosses the ring\<close>

text \<open>
  The memory that arrives: the bytes sent, with the number of each block printed over its start.
\<close>

definition sello :: "byte list \<Rightarrow> nat \<Rightarrow> byte" where
  "sello desde p =
     (let t = cadena (texto_int (int (p div DATA_SIZE)))
      in if p mod DATA_SIZE < length t then t ! (p mod DATA_SIZE) else desde ! p)"

definition sellada :: "nat \<Rightarrow> byte list \<Rightarrow> byte list" where
  "sellada n desde = map (sello desde) [0..<n]"

lemma length_sellada [simp]: "length (sellada n desde) = n"
  by (simp add: sellada_def)

lemma length_decimal: "n < 10 ^ Suc k \<Longrightarrow> length (decimal n) \<le> Suc k"
proof (induction k arbitrary: n)
  case 0
  then show ?case by (simp add: decimal.simps [of n])
next
  case (Suc k)
  have "n div 10 < 10 ^ Suc k" using Suc.prems by (simp add: div_less_iff_less_mult)
  then show ?case using Suc.IH [of "n div 10"] by (simp add: decimal.simps [of n])
qed

lemma length_texto: "i < 2 ^ 31 \<Longrightarrow> length (texto_int (int i)) < 11"
proof -
  assume "i < 2 ^ 31"
  then have "i < 10 ^ Suc 9" by simp
  then show ?thesis using length_decimal [of i 9] by (simp add: texto_int_def)
qed

text \<open>Block \<open>i\<close> as it is sent, up to the end of the memory, is block \<open>i\<close> of the sealed memory.\<close>

lemma bloque_sellado:
  assumes "i < 2 ^ 31" and "(i + 1) * DATA_SIZE \<le> length desde"
  shows "take (largo_bloque n i) (strcpy_data (texto_int (int i)) (take DATA_SIZE (drop (i * DATA_SIZE) desde))) =
    bloque n i (sellada n desde)"
proof (rule nth_equalityI)
  let ?t = "cadena (texto_int (int i))" and ?d = "take DATA_SIZE (drop (i * DATA_SIZE) desde)"
  have ld: "length ?d = DATA_SIZE" using assms(2) by simp
  have lt: "length ?t \<le> DATA_SIZE" using length_texto [OF assms(1)] by (simp add: DATA_SIZE_def)
  have ls: "length (strcpy_data (texto_int (int i)) ?d) = DATA_SIZE" using ld lt by (simp add: strcpy_data_def)
  have lb: "length (bloque n i (sellada n desde)) = largo_bloque n i" by (rule largo_bloque_bloque) simp
  then show "length (take (largo_bloque n i) (strcpy_data (texto_int (int i)) ?d)) = length (bloque n i (sellada n desde))"
    using ls by (simp add: largo_bloque_def)
  fix j assume "j < length (take (largo_bloque n i) (strcpy_data (texto_int (int i)) ?d))"
  then have j: "j < largo_bloque n i" "j < DATA_SIZE" "i * DATA_SIZE + j < n" using ls by (auto simp: largo_bloque_def)
  have "(i * DATA_SIZE + j) div DATA_SIZE = i" and "(i * DATA_SIZE + j) mod DATA_SIZE = j" using j(2) by auto
  then have s: "sellada n desde ! (i * DATA_SIZE + j) = (if j < length ?t then ?t ! j else desde ! (i * DATA_SIZE + j))"
    using j(3) by (simp add: sellada_def sello_def Let_def)
  have "strcpy_data (texto_int (int i)) ?d ! j = (if j < length ?t then ?t ! j else ?d ! j)"
    using j(2) ld by (simp add: strcpy_data_def escribir_def nth_append)
  moreover have "?d ! j = desde ! (i * DATA_SIZE + j)" using j(2) assms(2) by (simp add: add.commute)
  ultimately show "take (largo_bloque n i) (strcpy_data (texto_int (int i)) ?d) ! j = bloque n i (sellada n desde) ! j"
    using j s by (simp add: bloque_def)
qed

text \<open>Messages that carry blocks \<open>i\<close>, \<open>i + 1\<close>, \dots of a memory.\<close>

fun llevan :: "tipo_anillo \<Rightarrow> byte list \<Rightarrow> nat \<Rightarrow> mensaje_grupo list \<Rightarrow> bool" where
  "llevan t mem i [] = True"
| "llevan t mem i (m # ms) =
     (tipo_m m = t \<and> numero_de_mensaje m = int i \<and> cantidad_bytes_total m = length mem \<and>
      take (largo_bloque (length mem) i) (data_m m) = bloque (length mem) i mem \<and> llevan t mem (i + 1) ms)"

lemma llevan_append: "llevan t mem i (xs @ ys) \<longleftrightarrow> llevan t mem i xs \<and> llevan t mem (i + length xs) ys"
  by (induction xs arbitrary: i) auto

lemma mensajes_token_ok:
  assumes "(i + k) * DATA_SIZE \<le> length desde" and "i + k < 2 ^ 31" and "cantidad_bytes_total m = n"
  shows "\<exists>ms m'. mensajes_token i k desde m = Listo (ms, m') \<and> length ms = k \<and> llevan (tipo_m m) (sellada n desde) i ms"
  using assms
proof (induction k arbitrary: i m)
  case 0
  then show ?case by simp
next
  case (Suc k)
  define m1 where "m1 = m\<lparr>numero_de_mensaje := int i,
    data_m := strcpy_data (texto_int (int i)) (take DATA_SIZE (drop (i * DATA_SIZE) desde))\<rparr>"
  have "(i + 1) * DATA_SIZE \<le> (i + Suc k) * DATA_SIZE" by simp
  then have c: "(i + 1) * DATA_SIZE \<le> length desde" using Suc.prems(1) by linarith
  have "(i + 1 + k) * DATA_SIZE \<le> length desde" using Suc.prems(1) by simp
  then obtain ms m' where r: "mensajes_token (i + 1) k desde m1 = Listo (ms, m')" "length ms = k"
    "llevan (tipo_m m1) (sellada n desde) (i + 1) ms"
    using Suc.IH [of "i + 1" m1] Suc.prems(2,3) by (auto simp: m1_def)
  have e: "mensajes_token i (Suc k) desde m = Listo (m1 # ms, m')"
    using c r(1) by (simp add: m1_def Let_def)
  have "llevan (tipo_m m) (sellada n desde) i (m1 # ms)"
    using r(3) bloque_sellado [OF _ c, of n] Suc.prems(2,3) by (simp add: m1_def)
  then show ?case using e r(2) by auto
qed

text \<open>
  A receiver in the middle of a token: only its message, the blocks it has and their counters
  differ from the receiver \<open>r0\<close> that began.
\<close>

definition recibiendo :: "nat \<Rightarrow> byte list \<Rightarrow> receptor \<Rightarrow> receptor \<Rightarrow> bool" where
  "recibiendo i mem r0 r \<longleftrightarrow>
     (\<exists>m d c a t. r = r0\<lparr>mensaje_r := m, data_token := d, cantidad_recibida_token := c, numero_anterior := a,
                         token_inicializado := t\<rparr> \<and>
        length d = length mem \<and> copiado i mem d \<and> (i \<noteq> 0 \<longrightarrow> c = i * DATA_SIZE \<and> a = int i - 1))"

lemma copiar_bloque_ok:
  assumes "i * DATA_SIZE \<le> n" and "length buf = n" and "n < 2 ^ 31"
  shows "copiar_bloque n (int i) d buf = Listo (escribir (i * DATA_SIZE) (take (largo_bloque n i) d) buf)"
proof -
  have "int n - int i * int DATA_SIZE = int (n - i * DATA_SIZE)" using assms(1) by (simp add: of_nat_diff)
  moreover have "int (n - i * DATA_SIZE) mod 2 ^ 64 = int (n - i * DATA_SIZE)"
    by (rule mod_pos_pos_trivial) (use assms(3) in auto)
  ultimately have c: "min ((int n - int i * int DATA_SIZE) mod 2 ^ 64) (int DATA_SIZE) = int (largo_bloque n i)"
    by (simp add: largo_bloque_def)
  have p: "int i * int DATA_SIZE = int (i * DATA_SIZE)" by simp
  have "i * DATA_SIZE + largo_bloque n i \<le> n" using assms(1) by (simp add: largo_bloque_def)
  then have "\<not> int n < int (i * DATA_SIZE) + int (largo_bloque n i)" by linarith
  then show ?thesis unfolding copiar_bloque_def c Let_def using assms(2) p by (simp flip: of_nat_mult)
qed

lemma copiado_length: "copiado i mem d \<Longrightarrow> length d = length mem"
  by (simp add: copiado_def)

text \<open>What the next block does: the following one is expected, or the token is delivered.\<close>

definition entregada :: "byte list \<Rightarrow> receptor \<Rightarrow> receptor \<Rightarrow> bool" where
  "entregada mem r0 r \<longleftrightarrow>
     r_grupo r = (r_grupo r0)\<lparr>memoria_compartida := escribir 0 mem (memoria_compartida (r_grupo r0))\<rparr> \<and>
     r_manager r = release_token (r_recurso r0) (r_manager r0) \<and> r_salida r = r_salida r0"

lemma recibir_bloque:
  assumes rec: "recibiendo i mem r0 r" and m: "llevan TOKEN_DELIVER mem i [m]"
    and ini: "\<not> iniciando r0" and n: "mem_size (r_grupo r0) = length mem" "length mem < 2 ^ 31" "mem \<noteq> []"
    and i: "i < cantidad_de_bloques (length mem)"
  shows "\<exists>r'. recibir_uno b m r = Listo r' \<and>
    (if i + 1 < cantidad_de_bloques (length mem) then recibiendo (i + 1) mem r0 r' else entregada mem r0 r')"
proof -
  obtain m0 d c a t where r: "r = r0\<lparr>mensaje_r := m0, data_token := d, cantidad_recibida_token := c, numero_anterior := a,
        token_inicializado := t\<rparr>" and d: "copiado i mem d" and ca: "i \<noteq> 0 \<longrightarrow> c = i * DATA_SIZE \<and> a = int i - 1"
    using rec by (auto simp: recibiendo_def)
  have m': "tipo_m m = TOKEN_DELIVER" "numero_de_mensaje m = int i" "cantidad_bytes_total m = length mem"
    "take (largo_bloque (length mem) i) (data_m m) = bloque (length mem) i mem" using m by auto
  have cub: "(j < cantidad_de_bloques (length mem)) = (j * DATA_SIZE < length mem)" for j
    by (rule cantidad_de_bloques_cubre(2)) (use n(3) in simp)
  have il: "i * DATA_SIZE < length mem" using i cub by blast
  define d' where "d' = escribir (i * DATA_SIZE) (bloque (length mem) i mem) d"
  have d': "copiado (i + 1) mem d'" unfolding d'_def by (rule copiado_paso [OF d il])
  have cp: "copiar_bloque (length mem) (int i) (data_m m) d = Listo d'"
    using copiar_bloque_ok [of i "length mem" d "data_m m"] il copiado_length [OF d] n(2) m'(4) by (simp add: d'_def)
  define r1 where "r1 = r0\<lparr>mensaje_r := m, data_token := d', token_inicializado := True\<rparr>"
  show ?thesis
  proof (cases "i + 1 < cantidad_de_bloques (length mem)")
    case True
    then have lt: "(i + 1) * DATA_SIZE < length mem" using cub by blast
    have "recibir_uno b m r = Listo (r1\<lparr>cantidad_recibida_token := (i + 1) * DATA_SIZE, numero_anterior := int i\<rparr>)"
      using m'(1,2,3) cp lt ca ini n(1) by (cases "i = 0")
        (simp_all add: recibir_uno_def turno_loop_def turno_recv_def procesar_recepcion_token_def r r1_def Let_def add.commute)
    moreover have "recibiendo (i + 1) mem r0 (r1\<lparr>cantidad_recibida_token := (i + 1) * DATA_SIZE, numero_anterior := int i\<rparr>)"
      unfolding recibiendo_def
      by (intro exI [of _ m] exI [of _ d'] exI [of _ "(i + 1) * DATA_SIZE"] exI [of _ "int i"] exI [of _ True])
        (use d' copiado_length [OF d'] in \<open>simp add: r1_def\<close>)
    ultimately show ?thesis using True by auto
  next
    case False
    then have ge: "length mem \<le> (i + 1) * DATA_SIZE" using cub [of "i + 1"] by (simp add: not_less)
    have "cantidad_de_bloques (length mem) = i + 1" using False i by simp
    then have fin: "d' = mem" using copiado_total [of mem d'] d' by simp
    have "recibir_uno b m r =
        Listo (entregar_token_a_aplicacion (r1\<lparr>cantidad_recibida_token := 0, numero_anterior := -1\<rparr>))"
      using m'(1,2,3) cp ge ca ini n(1) by (cases "i = 0")
        (simp_all add: recibir_uno_def turno_loop_def turno_recv_def procesar_recepcion_token_def r r1_def Let_def
          procesar_mensaje_def entregar_token_a_aplicacion_def add.commute)
    then show ?thesis using False n(1) by (simp add: entregada_def entregar_token_a_aplicacion_def r1_def fin)
  qed
qed

lemma recibir_bloques_anillo:
  assumes "recibiendo i mem r0 r" and "llevan TOKEN_DELIVER mem i ms"
    and "\<not> iniciando r0" and "mem_size (r_grupo r0) = length mem" "length mem < 2 ^ 31" "mem \<noteq> []"
    and "i + length ms < cantidad_de_bloques (length mem)"
  shows "\<exists>r'. recibir_todos b ms r = Listo r' \<and> recibiendo (i + length ms) mem r0 r'"
  using assms(1,2,7)
proof (induction ms arbitrary: i r)
  case Nil
  then show ?case by simp
next
  case (Cons m ms)
  from recibir_bloque [OF Cons.prems(1) _ assms(3-6), of m b] Cons.prems(2,3)
  obtain r1 where "recibir_uno b m r = Listo r1" and "recibiendo (i + 1) mem r0 r1" by auto
  then show ?case using Cons.IH [of "i + 1" r1] Cons.prems(2,3) by auto
qed

lemma recibiendo_0: "length (data_token r) = length mem \<Longrightarrow> recibiendo 0 mem r r"
  unfolding recibiendo_def
  by (intro exI [of _ "mensaje_r r"] exI [of _ "data_token r"] exI [of _ "cantidad_recibida_token r"]
      exI [of _ "numero_anterior r"] exI [of _ "token_inicializado r"]) (simp add: copiado_def)

lemma recibir_todos_append:
  "recibir_todos b (xs @ ys) r =
     (case recibir_todos b xs r of Listo r' \<Rightarrow> recibir_todos b ys r' | Bloqueado \<Rightarrow> Bloqueado | Fallo f \<Rightarrow> Fallo f)"
  by (induction xs arbitrary: r) (auto split: llamada.splits)

text \<open>What a sender and a receiver need of their groups.\<close>

definition anillo_listo :: "grupo \<Rightarrow> byte list \<Rightarrow> receptor \<Rightarrow> bool" where
  "anillo_listo g desde r \<longleftrightarrow>
     0 < mem_size g \<and> mem_size g < 2 ^ 31 \<and> cantidad_de_bloques (mem_size g) * DATA_SIZE \<le> length desde \<and>
     0 < mutex_grupo g \<and> avisar_envio g \<noteq> 1 \<and> \<not> iniciando r \<and> mem_size (r_grupo r) = mem_size g \<and>
     length (data_token r) = mem_size g \<and> length (memoria_compartida (r_grupo r)) = mem_size g"

lemma cantidad_de_bloques_cota: "n < 2 ^ 31 \<Longrightarrow> cantidad_de_bloques n < 2 ^ 31"
proof -
  assume n: "n < 2 ^ 31"
  have "n div DATA_SIZE \<le> 2 ^ 31 div DATA_SIZE" using n by (simp add: div_le_mono)
  then have "n div DATA_SIZE \<le> 8388608" by (simp add: DATA_SIZE_def)
  then show ?thesis by (simp add: cantidad_de_bloques_def)
qed

lemma send_token_anillo_ok:
  assumes "anillo_listo g desde r" and "t = 1 \<or> t = 2"
  shows "\<exists>ms g' m'. send_token_anillo nombre t desde g (mensaje_sender recurso_g (mem_size g) m) = Listo (ms, g', m') \<and>
    token_enviado g' = 1 \<and> length ms = cantidad_de_bloques (mem_size g) \<and>
    llevan (tipo_envio t TOKEN_DELIVER) (sellada (mem_size g) desde) 0 ms"
proof -
  let ?m = "(mensaje_sender recurso_g (mem_size g) m)\<lparr>tipo_m := tipo_envio t TOKEN_DELIVER\<rparr>"
  obtain ms m' where s: "mensajes_token 0 (cantidad_de_bloques (mem_size g)) desde ?m = Listo (ms, m')"
    and "length ms = cantidad_de_bloques (mem_size g)"
    and "llevan (tipo_envio t TOKEN_DELIVER) (sellada (mem_size g) desde) 0 ms"
    using mensajes_token_ok [of 0 "cantidad_de_bloques (mem_size g)" desde ?m "mem_size g"]
      cantidad_de_bloques_cota [of "mem_size g"] assms(1) by (auto simp: anillo_listo_def mensaje_sender_def)
  moreover have "send_token_anillo nombre t desde g (mensaje_sender recurso_g (mem_size g) m) =
      Listo (ms, g\<lparr>token_enviado := 1, avisar_envio := 0\<rparr>, m')"
    using s assms(1) by (simp add: send_token_anillo_def mensaje_sender_def anillo_listo_def tengo_que_avisar_envio_def
      el_token_se_envio_def con_mutex_def)
  ultimately show ?thesis by auto
qed

text \<open>
  C16. A token that crosses the ring whole is delivered exactly once, with the last block, and
  gives the receiving group the memory of the sender with the number of each block of 256 bytes
  printed over its start: byte p is a character of that number, or its end, when it falls there,
  and the byte sent elsewhere. The first byte is always the digit zero.
\<close>

theorem anillo_token:
  assumes "anillo_listo g desde r"
  shows "\<exists>ms g' m' r'. send_token_anillo nombre 1 desde g (mensaje_sender recurso_g (mem_size g) m) = Listo (ms, g', m') \<and>
    length ms = cantidad_de_bloques (mem_size g) \<and> token_enviado g' = 1 \<and> recibir_todos b ms r = Listo r' \<and>
    memoria_compartida (r_grupo r') = map (sello desde) [0..<mem_size g] \<and> memoria_compartida (r_grupo r') ! 0 = 48 \<and>
    r_manager r' = release_token (r_recurso r) (r_manager r) \<and> r_salida r' = r_salida r"
proof -
  let ?mem = "sellada (mem_size g) desde"
  obtain ms g' m' where s: "send_token_anillo nombre 1 desde g (mensaje_sender recurso_g (mem_size g) m) = Listo (ms, g', m')"
    and g': "token_enviado g' = 1" and len: "length ms = cantidad_de_bloques (mem_size g)"
    and ll: "llevan TOKEN_DELIVER ?mem 0 ms"
    using send_token_anillo_ok [OF assms, of 1 nombre recurso_g m] by (auto simp: tipo_envio_def)
  have a: "0 < mem_size g" "mem_size g < 2 ^ 31" "\<not> iniciando r" "mem_size (r_grupo r) = length ?mem"
    "length (data_token r) = length ?mem" "length (memoria_compartida (r_grupo r)) = mem_size g"
    using assms by (simp_all add: anillo_listo_def)
  have ne: "?mem \<noteq> []" using a(1) by (metis length_sellada length_0_conv less_nat_zero_code)
  have "0 < length ms" unfolding len by (rule cantidad_de_bloques_cubre(3))
  then obtain xs x where ms: "ms = xs @ [x]" by (cases ms rule: rev_cases) auto
  have ll': "llevan TOKEN_DELIVER ?mem 0 xs" "llevan TOKEN_DELIVER ?mem (length xs) [x]"
    using ll ms llevan_append [of TOKEN_DELIVER ?mem 0 xs "[x]"] by auto
  have lx: "length xs + 1 = cantidad_de_bloques (length ?mem)" using len ms by simp
  from recibir_bloques_anillo [OF recibiendo_0 [OF a(5)] ll'(1) a(3,4) _ ne, of b]
  obtain r1 where r1: "recibir_todos b xs r = Listo r1" "recibiendo (length xs) ?mem r r1" using lx a(2) by auto
  from recibir_bloque [OF r1(2) ll'(2) a(3,4) _ ne, of b]
  obtain r2 where r2: "recibir_uno b x r1 = Listo r2" "entregada ?mem r r2" using lx a(2) by auto
  have "recibir_todos b ms r = Listo r2" using ms r1(1) r2(1) recibir_todos_append [of b xs "[x]" r] by simp
  moreover have m: "memoria_compartida (r_grupo r2) = ?mem" using r2(2) a(6) by (simp add: entregada_def escribir_def)
  moreover have "?mem ! 0 = 48" using a(1)
    by (simp add: sellada_def sello_def texto_int_def decimal.simps digito_def cadena_def Let_def)
  ultimately show ?thesis using s g' len r2(2) unfolding entregada_def sellada_def by (metis (no_types, lifting))
qed

definition memoria_de_300 :: "byte list" where
  "memoria_de_300 = replicate 300 0"

definition segmento_ejemplo :: "byte list" where
  "segmento_ejemplo = replicate 512 7"

lemma anillo_listo_ejemplo:
  "anillo_listo (grupo_ejemplo memoria_de_300) segmento_ejemplo (receptor_ejemplo ''b'' False False memoria_de_300)"
  by (simp add: anillo_listo_def grupo_ejemplo_def receptor_ejemplo_def iniciar_grupo_def cantidad_de_bloques_def
    DATA_SIZE_def memoria_de_300_def segmento_ejemplo_def)

theorem anillo_token_witness:
  "\<exists>ms g' m' r'. send_token_anillo ''a'' 1 segmento_ejemplo (grupo_ejemplo memoria_de_300)
      (mensaje_sender ''cinta'' 300 (mensaje_ejemplo LEADER [])) = Listo (ms, g', m') \<and> length ms = 2 \<and>
    recibir_todos 0 ms (receptor_ejemplo ''b'' False False memoria_de_300) = Listo r' \<and>
    map (\<lambda>p. memoria_compartida (r_grupo r') ! p) [0, 1, 2, 255, 256, 257, 258] = [48, 0, 7, 7, 49, 0, 7]"
proof -
  have n: "mem_size (grupo_ejemplo memoria_de_300) = 300"
    by (simp add: grupo_ejemplo_def iniciar_grupo_def memoria_de_300_def)
  have v: "map (\<lambda>p. map (sello segmento_ejemplo) [0..<300] ! p) [0, 1, 2, 255, 256, 257, 258] = [48, 0, 7, 7, 49, 0, 7]"
    by (simp add: sello_def Let_def DATA_SIZE_def texto_int_def decimal.simps digito_def cadena_def segmento_ejemplo_def)
  have c: "cantidad_de_bloques 300 = 2" by (simp add: cantidad_de_bloques_def DATA_SIZE_def)
  from anillo_token [OF anillo_listo_ejemplo, of "''a''" "''cinta''" "mensaje_ejemplo LEADER []" 0] show ?thesis
    unfolding n c using v by metis
qed

section \<open>A lost block\<close>

lemma recibir_fuera_de_orden:
  assumes "tipo_m m = TOKEN_DELIVER" and "numero_de_mensaje m \<noteq> 0" and "numero_de_mensaje m \<noteq> numero_anterior r + 1"
    and "\<not> iniciando r"
  shows "\<exists>p c. tipo_m p = TOKEN_LOST \<and> recibir_uno b m r =
    Listo (r\<lparr>mensaje_r := p, r_salida := r_salida r @ [p], cantidad_recibida_token := c, token_inicializado := True\<rparr>)"
  using assms
  by (intro exI [of _ "m\<lparr>tipo_m := TOKEN_LOST, data_m := strcpy_data (texto_int (numero_de_nodo r)) (data_m m)\<rparr>"]
      exI [of _ "cantidad_recibida_token r + DATA_SIZE"])
    (simp add: recibir_uno_def turno_loop_def turno_recv_def procesar_recepcion_token_def forward_mensaje_def Let_def)

lemma recibir_tras_hueco:
  assumes "llevan TOKEN_DELIVER mem i ms" and "numero_anterior r + 1 < int i" and "0 < i" and "\<not> iniciando r"
  shows "\<exists>r' ls. recibir_todos b ms r = Listo r' \<and> r_grupo r' = r_grupo r \<and> r_manager r' = r_manager r \<and>
    r_lider r' = r_lider r \<and> r_salida r' = r_salida r @ ls \<and> length ls = length ms \<and> (\<forall>p \<in> set ls. tipo_m p = TOKEN_LOST)"
  using assms
proof (induction ms arbitrary: i r)
  case Nil
  then show ?case by simp
next
  case (Cons m ms)
  from recibir_fuera_de_orden [of m r b] Cons.prems
  obtain p c where p: "tipo_m p = TOKEN_LOST" and u: "recibir_uno b m r =
    Listo (r\<lparr>mensaje_r := p, r_salida := r_salida r @ [p], cantidad_recibida_token := c, token_inicializado := True\<rparr>)"
    by auto
  from Cons.IH [of "i + 1" "r\<lparr>mensaje_r := p, r_salida := r_salida r @ [p], cantidad_recibida_token := c,
    token_inicializado := True\<rparr>"] Cons.prems
  obtain r' ls where r': "recibir_todos b (m # ms) r = Listo r'" "r_grupo r' = r_grupo r" "r_manager r' = r_manager r"
    "r_lider r' = r_lider r" "r_salida r' = (r_salida r @ [p]) @ ls" "length ls = length ms" "\<forall>p \<in> set ls. tipo_m p = TOKEN_LOST"
    using u by auto
  then show ?case using p by (intro exI [of _ r'] exI [of _ "p # ls"]) auto
qed

lemma recibir_perdidos:
  "\<not> iniciando r \<Longrightarrow> \<forall>p \<in> set ls. tipo_m p = TOKEN_LOST \<Longrightarrow>
     recibir_todos b ls r = Listo (r\<lparr>mensaje_r := last (mensaje_r r # ls)\<rparr>)"
  by (induction ls arbitrary: r) (auto simp: recibir_andando(3))

text \<open>
  C18. When block k of a token is lost on the way, the token is never delivered: the memory of
  the group, its token and the leader's queue stay as they were, and the receiver answers each
  of the later blocks with a TOKEN_LOST (none when the last block is the lost one). The receiver
  of the next broker, the leader's too, takes those TOKEN_LOST and does nothing with them.
\<close>

theorem token_perdido:
  assumes "anillo_listo g desde r" and "numero_anterior r = -1"
    and "send_token_anillo nombre 1 desde g (mensaje_sender recurso_g (mem_size g) m) = Listo (ms, g', m')"
    and "k < length ms" and "\<not> iniciando sig"
  shows "\<exists>r' ls. recibir_todos b (take k ms @ drop (k + 1) ms) r = Listo r' \<and>
    r_grupo r' = r_grupo r \<and> r_manager r' = r_manager r \<and> r_lider r' = r_lider r \<and>
    r_salida r' = r_salida r @ ls \<and> map tipo_m ls = replicate (length ms - (k + 1)) TOKEN_LOST \<and>
    recibir_todos b ls sig = Listo (sig\<lparr>mensaje_r := last (mensaje_r sig # ls)\<rparr>)"
proof -
  let ?mem = "sellada (mem_size g) desde"
  have len: "length ms = cantidad_de_bloques (mem_size g)" and ll: "llevan TOKEN_DELIVER ?mem 0 ms"
    using send_token_anillo_ok [OF assms(1), of 1 nombre recurso_g m] assms(3) by (auto simp: tipo_envio_def)
  have a: "0 < mem_size g" "mem_size g < 2 ^ 31" "\<not> iniciando r" "mem_size (r_grupo r) = length ?mem"
    "length (data_token r) = length ?mem" using assms(1) by (simp_all add: anillo_listo_def)
  have ne: "?mem \<noteq> []" using a(1) by (metis length_sellada length_0_conv less_nat_zero_code)
  have "take k ms @ drop k ms = ms" and dk: "drop k ms = ms ! k # drop (k + 1) ms" and tk: "length (take k ms) = k"
    using assms(4) by (simp_all add: Cons_nth_drop_Suc)
  then have l: "llevan TOKEN_DELIVER ?mem 0 (take k ms)" "llevan TOKEN_DELIVER ?mem (k + 1) (drop (k + 1) ms)"
    using ll llevan_append [of TOKEN_DELIVER ?mem 0 "take k ms" "drop k ms"] by auto
  have "0 + length (take k ms) < cantidad_de_bloques (length ?mem)" using len assms(4) tk by simp
  from recibir_bloques_anillo [OF recibiendo_0 [OF a(5)] l(1) a(3,4) _ ne this, of b] a(2) tk
  obtain r1 where r1: "recibir_todos b (take k ms) r = Listo r1" "recibiendo k ?mem r r1" by auto
  have f: "r_grupo r1 = r_grupo r" "r_manager r1 = r_manager r" "r_lider r1 = r_lider r" "r_salida r1 = r_salida r"
    "\<not> iniciando r1" using r1(2) a(3) by (auto simp: recibiendo_def)
  have "numero_anterior r1 + 1 < int (k + 1)"
  proof (cases "k = 0")
    case True
    then show ?thesis using r1(1) assms(2) by simp
  next
    case False
    then show ?thesis using r1(2) by (auto simp: recibiendo_def)
  qed
  from recibir_tras_hueco [OF l(2) this _ f(5), of b] obtain r' ls where
    r': "recibir_todos b (drop (k + 1) ms) r1 = Listo r'" "r_grupo r' = r_grupo r1" "r_manager r' = r_manager r1"
      "r_lider r' = r_lider r1" "r_salida r' = r_salida r1 @ ls" "length ls = length (drop (k + 1) ms)"
      and t: "\<forall>p \<in> set ls. tipo_m p = TOKEN_LOST" by auto
  have "map tipo_m ls = replicate (length ls) TOKEN_LOST" using t by (induction ls) auto
  then show ?thesis using r' f r1(1) recibir_perdidos [OF assms(5) t, of b]
    by (intro exI [of _ r'] exI [of _ ls]) (simp add: recibir_todos_append)
qed

theorem token_perdido_witness:
  "\<exists>ms g' m' r' ls. send_token_anillo ''a'' 1 segmento_ejemplo (grupo_ejemplo memoria_de_300)
      (mensaje_sender ''cinta'' 300 (mensaje_ejemplo LEADER [])) = Listo (ms, g', m') \<and>
    recibir_todos 0 (drop 1 ms) (receptor_ejemplo ''b'' False False memoria_de_300) = Listo r' \<and>
    r_manager r' = [] \<and> r_salida r' = ls \<and> map tipo_m ls = [TOKEN_LOST] \<and>
    (\<exists>m2. recibir_todos 0 ls (receptor_ejemplo ''c'' False True []) = Listo ((receptor_ejemplo ''c'' False True [])\<lparr>mensaje_r := m2\<rparr>))"
proof -
  have n: "mem_size (grupo_ejemplo memoria_de_300) = 300"
    by (simp add: grupo_ejemplo_def iniciar_grupo_def memoria_de_300_def)
  have c: "cantidad_de_bloques 300 = 2" by (simp add: cantidad_de_bloques_def DATA_SIZE_def)
  obtain ms g' m' where s: "send_token_anillo ''a'' 1 segmento_ejemplo (grupo_ejemplo memoria_de_300)
      (mensaje_sender ''cinta'' 300 (mensaje_ejemplo LEADER [])) = Listo (ms, g', m')" and l: "length ms = 2"
    using send_token_anillo_ok [OF anillo_listo_ejemplo, of 1 "''a''" "''cinta''" "mensaje_ejemplo LEADER []"] n c by auto
  show ?thesis
    using token_perdido [OF anillo_listo_ejemplo, of "''a''" "''cinta''" "mensaje_ejemplo LEADER []" ms g' m' 0
        "receptor_ejemplo ''c'' False True []" 0] s l n
    by (fastforce simp: receptor_ejemplo_def)
qed

section \<open>A replica\<close>

text \<open>
  The test of \<^verbatim>\<open>procesar_memory_update\<close> is inverted: the first block is dropped and the
  others are copied only because their number is not the one after the last one counted.
\<close>

lemma recibir_replica:
  assumes "llevan MEMORY_UPDATE mem i ms" and "i + length ms = cantidad_de_bloques (length mem)" and "mem \<noteq> []"
    and "length mem < 2 ^ 31" and "\<not> iniciando r" and "mem_size (r_grupo r) = length mem"
    and "length (data_replica r) = length mem" and "0 < i"
    and "numero_anterior_replica r = int i - 2" and "cantidad_recibida_replica r = (i - 1) * DATA_SIZE"
  shows "\<exists>r'. recibir_todos b ms r = Listo r' \<and> replica_ok r' = replica_ok r \<and> data_token r' = data_token r \<and>
    r_grupo r' = r_grupo r \<and> r_salida r' = r_salida r @ (if es_leader r then [] else ms)"
  using assms
proof (induction ms arbitrary: i r)
  case Nil
  then show ?case by simp
next
  case (Cons m ms)
  have cub: "(j < cantidad_de_bloques (length mem)) = (j * DATA_SIZE < length mem)" for j
    by (rule cantidad_de_bloques_cubre(2)) (use Cons.prems(3) in simp)
  have il: "i * DATA_SIZE < length mem" using Cons.prems(2) cub [of i] by auto
  define d where "d = escribir (i * DATA_SIZE) (take (largo_bloque (length mem) i) (data_m m)) (data_replica r)"
  have cp: "copiar_bloque (length mem) (int i) (data_m m) (data_replica r) = Listo d"
    using copiar_bloque_ok [of i "length mem" "data_replica r" "data_m m"] il Cons.prems(4,7) by (simp add: d_def)
  have "length (take (largo_bloque (length mem) i) (data_m m)) \<le> length mem - i * DATA_SIZE" by (simp add: largo_bloque_def)
  then have ld: "length d = length mem" using il Cons.prems(7) by (simp add: d_def)
  have c: "cantidad_recibida_replica r + DATA_SIZE = i * DATA_SIZE"
    using Cons.prems(8,10) by (cases i) simp_all
  define r1 where "r1 = r\<lparr>mensaje_r := m, data_replica := d, cantidad_recibida_replica := i * DATA_SIZE,
      numero_anterior_replica := int i - 1, r_salida := r_salida r @ (if es_leader r then [] else [m])\<rparr>"
  have "recibir_uno b m r = Listo r1"
    using Cons.prems(1,5,6,8,9) cp c il
    by (simp add: recibir_uno_def turno_loop_def turno_recv_def procesar_memory_update_def forward_mensaje_def Let_def r1_def)
  moreover have "\<exists>r'. recibir_todos b ms r1 = Listo r' \<and> replica_ok r' = replica_ok r1 \<and> data_token r' = data_token r1 \<and>
    r_grupo r' = r_grupo r1 \<and> r_salida r' = r_salida r1 @ (if es_leader r1 then [] else ms)"
    by (rule Cons.IH [of "i + 1"]) (use Cons.prems ld in \<open>simp_all add: r1_def\<close>)
  ultimately show ?case by (auto simp: r1_def)
qed

text \<open>
  So a replica that arrives in order is never complete: nothing is copied to the token, and what
  goes on to the next broker is the messages from the second on.
\<close>

theorem replica_nunca:
  assumes "llevan MEMORY_UPDATE mem 0 ms" and "length ms = cantidad_de_bloques (length mem)" and "mem \<noteq> []"
    and "length mem < 2 ^ 31" and "\<not> iniciando r" and "mem_size (r_grupo r) = length mem"
    and "length (data_replica r) = length mem"
  shows "\<exists>r'. recibir_todos b ms r = Listo r' \<and> \<not> replica_ok r' \<and> data_token r' = data_token r \<and>
    r_grupo r' = r_grupo r \<and> r_salida r' = r_salida r @ (if es_leader r then [] else tl ms)"
proof -
  have "0 < length ms" unfolding assms(2) by (rule cantidad_de_bloques_cubre(3))
  then obtain m ms' where ms: "ms = m # ms'" by (cases ms) auto
  define r0 where "r0 = r\<lparr>mensaje_r := m, cantidad_recibida_replica := 0, replica_ok := False, numero_anterior_replica := -1\<rparr>"
  have "recibir_uno b m r = Listo r0"
    using assms(1,5) ms
    by (simp add: recibir_uno_def turno_loop_def turno_recv_def procesar_memory_update_def Let_def r0_def)
  moreover have "\<exists>r'. recibir_todos b ms' r0 = Listo r' \<and> replica_ok r' = replica_ok r0 \<and> data_token r' = data_token r0 \<and>
    r_grupo r' = r_grupo r0 \<and> r_salida r' = r_salida r0 @ (if es_leader r0 then [] else ms')"
    by (rule recibir_replica [of mem 1]) (use assms ms in \<open>simp_all add: r0_def\<close>)
  ultimately show ?thesis using ms by (auto simp: r0_def)
qed

end
