(* ===== verification/Multiplexor.thy ===== *)
theory Multiplexor
  imports AnilloBrokers
begin

text \<open>
  The multiplexer of a broker, \<^verbatim>\<open>local_broker/group_multiplexer.cpp\<close> with the loop of
  \<^verbatim>\<open>local_broker/multiplexer.cpp\<close>: the groups share one connection to the ring, and each
  one reads its messages from a queue by the number of its entry in a shared table.
\<close>

section \<open>State and operations\<close>

text \<open>
  The shared table, the flag and the mutex, the queue of the groups; of the process, its
  map of the numbers it knows and what it pushed to the ring.
\<close>

record multiplexor =
  mx_grupos :: "string list"
  mx_lider :: bool
  mx_mutex :: nat
  mx_espera :: "mensaje_grupo cola"
  mx_cache :: "(string \<times> nat) list"
  mx_red :: "mensaje_grupo list"

text \<open>The constructor of the process; \<open>resto\<close> is what the segment held, which entry 0 keeps.\<close>

definition crear_multiplexor :: "string list \<Rightarrow> multiplexor" where
  "crear_multiplexor resto =
     \<lparr>mx_grupos = hd resto # replicate (MAX_GRUPOS - 1) [], mx_lider = False, mx_mutex = 1, mx_espera = [],
      mx_cache = [], mx_red = []\<rparr>"

text \<open>The constructor of a group: its number is never set when the table is full.\<close>

definition asignar_cola :: "string \<Rightarrow> mensaje_grupo \<Rightarrow> multiplexor \<Rightarrow> (multiplexor \<times> nat) llamada" where
  "asignar_cola nombre basura mx =
     (if mx_mutex mx = 0 then Bloqueado
      else case lugar_grupo nombre 0 (mx_grupos mx) of
             None \<Rightarrow> Fallo Fuera_de_rango
           | Some i \<Rightarrow>
               Listo (mx\<lparr>mx_grupos := (if mx_grupos mx ! i = [] then (mx_grupos mx)[i := take MAX_NOMBRE_RECURSO nombre]
                                      else mx_grupos mx),
                         mx_espera := mx_espera mx @
                           (if mx_lider mx then [(int (i + 1), basura\<lparr>tipo_m := LEADER\<rparr>)] else [])\<rparr>, i + 1))"

fun buscar_asignado :: "string \<Rightarrow> nat \<Rightarrow> string list \<Rightarrow> nat option" where
  "buscar_asignado nombre i [] = None"
| "buscar_asignado nombre i (g # gs) =
     (if g = [] then None
      else if strncmp_igual g nombre MAX_NOMBRE_RECURSO then Some i
      else buscar_asignado nombre (i + 1) gs)"

definition avisar_lider :: "mensaje_grupo \<Rightarrow> string list \<Rightarrow> mensaje_grupo cola" where
  "avisar_lider m gs = map (\<lambda>(i, g). (int i + 1, m)) (filter (\<lambda>(i, g). g \<noteq> []) (enumerate 0 gs))"

text \<open>
  \<^verbatim>\<open>forward_message\<close>: the table is searched between two signals of the mutex, where a wait and
  a signal were meant; a message of a group that is not there goes back to the ring.
\<close>

definition forward_message :: "mensaje_grupo \<Rightarrow> multiplexor \<Rightarrow> multiplexor llamada" where
  "forward_message m mx =
     (if tipo_m m = LEADER
      then (if mx_mutex mx = 0 then Bloqueado
            else Listo (mx\<lparr>mx_lider := True, mx_espera := mx_espera mx @ avisar_lider m (mx_grupos mx)\<rparr>))
      else case map_of (mx_cache mx) (nombre_grupo m) of
             Some q \<Rightarrow> Listo (mx\<lparr>mx_espera := mx_espera mx @ [(int q, m)]\<rparr>)
           | None \<Rightarrow>
               (let mx1 = mx\<lparr>mx_mutex := mx_mutex mx + 2\<rparr>
                in case buscar_asignado (nombre_grupo m) 0 (mx_grupos mx) of
                     Some i \<Rightarrow> Listo (mx1\<lparr>mx_cache := (mx_grupos mx ! i, i + 1) # mx_cache mx,
                                         mx_espera := mx_espera mx @ [(int (i + 1), m)]\<rparr>)
                   | None \<Rightarrow> Listo (mx1\<lparr>mx_red := mx_red mx @ [m]\<rparr>)))"

fun forward_todos :: "mensaje_grupo list \<Rightarrow> multiplexor \<Rightarrow> multiplexor llamada" where
  "forward_todos [] mx = Listo mx"
| "forward_todos (m # ms) mx =
     (case forward_message m mx of
        Listo mx' \<Rightarrow> forward_todos ms mx' | Bloqueado \<Rightarrow> Bloqueado | Fallo f \<Rightarrow> Fallo f)"

section \<open>The table\<close>

text \<open>The groups come first, each once, with names that the table holds whole.\<close>

definition tabla_mx_ok :: "string list \<Rightarrow> bool" where
  "tabla_mx_ok gs \<longleftrightarrow> length gs = MAX_GRUPOS \<and>
     (\<exists>ns. gs = ns @ replicate (MAX_GRUPOS - length ns) [] \<and> [] \<notin> set ns \<and> distinct ns \<and>
        (\<forall>n \<in> set ns. length n < MAX_NOMBRE_RECURSO))"

definition mx_ok :: "multiplexor \<Rightarrow> bool" where
  "mx_ok mx \<longleftrightarrow> tabla_mx_ok (mx_grupos mx) \<and>
     (\<forall>(n, q) \<in> set (mx_cache mx). \<exists>i < MAX_GRUPOS. q = i + 1 \<and> mx_grupos mx ! i = n \<and> n \<noteq> [])"

lemma strncmp_corto:
  "length a < MAX_NOMBRE_RECURSO \<Longrightarrow> length b < MAX_NOMBRE_RECURSO \<Longrightarrow> strncmp_igual a b MAX_NOMBRE_RECURSO = (a = b)"
  by (simp add: strncmp_igual_def)

lemma buscar_asignado_ok:
  assumes "[] \<notin> set ns" and "\<forall>n \<in> set ns. length n < MAX_NOMBRE_RECURSO" and "length nombre < MAX_NOMBRE_RECURSO"
  shows "(nombre \<notin> set ns \<longrightarrow> buscar_asignado nombre i (ns @ replicate k []) = None) \<and>
    (nombre \<in> set ns \<longrightarrow> (\<exists>j < length ns. ns ! j = nombre \<and> buscar_asignado nombre i (ns @ replicate k []) = Some (i + j)))"
  using assms
proof (induction ns arbitrary: i)
  case Nil
  then show ?case by (cases k) simp_all
next
  case (Cons n ns)
  show ?case
  proof (cases "n = nombre")
    case True
    then show ?thesis using Cons.prems by (auto simp: strncmp_igual_def intro!: exI [of _ 0])
  next
    case False
    have "buscar_asignado nombre i ((n # ns) @ replicate k []) = buscar_asignado nombre (i + 1) (ns @ replicate k [])"
      using False Cons.prems strncmp_corto [of n nombre] by auto
    moreover have "\<exists>j < length (n # ns). (n # ns) ! j = nombre \<and> i + 1 + j' = i + j" if "j' < length ns" "ns ! j' = nombre" for j'
      using that by (intro exI [of _ "Suc j'"]) auto
    ultimately show ?thesis using Cons.IH [of "i + 1"] Cons.prems False by fastforce
  qed
qed

lemma buscar_asignado_tabla:
  assumes "tabla_mx_ok gs" and "length nombre < MAX_NOMBRE_RECURSO" and "nombre \<noteq> []"
  shows "nombre \<notin> set gs \<Longrightarrow> buscar_asignado nombre 0 gs = None"
    and "nombre \<in> set gs \<Longrightarrow> \<exists>j < MAX_GRUPOS. gs ! j = nombre \<and> buscar_asignado nombre 0 gs = Some j"
proof -
  obtain ns where gs: "gs = ns @ replicate (MAX_GRUPOS - length ns) []" and ns: "[] \<notin> set ns"
    "\<forall>n \<in> set ns. length n < MAX_NOMBRE_RECURSO" and l: "length gs = MAX_GRUPOS" using assms(1) by (auto simp: tabla_mx_ok_def)
  note b = buscar_asignado_ok [OF ns assms(2), of 0 "MAX_GRUPOS - length ns", folded gs]
  have "set gs \<subseteq> insert [] (set ns)" unfolding gs by auto
  moreover have "set ns \<subseteq> set gs" by (subst gs) simp
  ultimately have s: "nombre \<in> set gs \<longleftrightarrow> nombre \<in> set ns" using assms(3) by blast
  show "buscar_asignado nombre 0 gs = None" if "nombre \<notin> set gs" using b s that by simp
  show "\<exists>j < MAX_GRUPOS. gs ! j = nombre \<and> buscar_asignado nombre 0 gs = Some j" if n: "nombre \<in> set gs"
  proof -
    obtain j where j: "j < length ns" "ns ! j = nombre" "buscar_asignado nombre 0 gs = Some j" using b s n by auto
    have "length ns \<le> MAX_GRUPOS" using arg_cong [OF gs, of length] l by simp
    moreover have "gs ! j = nombre" by (subst gs) (use j in \<open>simp add: nth_append\<close>)
    ultimately show ?thesis using j by auto
  qed
qed

lemma tabla_mx_inj:
  assumes "tabla_mx_ok gs" and "i < MAX_GRUPOS" and "j < MAX_GRUPOS" and "gs ! i = gs ! j" and "gs ! i \<noteq> []"
  shows "i = j"
proof -
  obtain ns where gs: "gs = ns @ replicate (MAX_GRUPOS - length ns) []" and d: "distinct ns" and l: "length gs = MAX_GRUPOS"
    using assms(1) by (auto simp: tabla_mx_ok_def)
  have e: "gs ! k = (if k < length ns then ns ! k else [])" if "k < MAX_GRUPOS" for k
    by (subst gs) (use that l gs in \<open>simp add: nth_append\<close>)
  then show ?thesis using assms(2-5) d by (auto simp: nth_eq_iff_index_eq split: if_splits)
qed

section \<open>Every message to its group\<close>

lemma forward_registrado:
  assumes "mx_ok mx" and "tipo_m m \<noteq> LEADER" and "nombre_grupo m \<in> set (mx_grupos mx)" and "nombre_grupo m \<noteq> []"
    and "length (nombre_grupo m) < MAX_NOMBRE_RECURSO"
  shows "\<exists>i mx'. i < MAX_GRUPOS \<and> mx_grupos mx ! i = nombre_grupo m \<and> forward_message m mx = Listo mx' \<and> mx_ok mx' \<and>
    mx_grupos mx' = mx_grupos mx \<and> mx_espera mx' = mx_espera mx @ [(int i + 1, m)] \<and> mx_red mx' = mx_red mx"
proof (cases "map_of (mx_cache mx) (nombre_grupo m)")
  case None
  have t: "tabla_mx_ok (mx_grupos mx)" using assms(1) by (simp add: mx_ok_def)
  from buscar_asignado_tabla(2) [OF t assms(5,4,3)]
  obtain j where j: "j < MAX_GRUPOS" "mx_grupos mx ! j = nombre_grupo m"
    "buscar_asignado (nombre_grupo m) 0 (mx_grupos mx) = Some j" by blast
  then show ?thesis using assms(1,2,4) None
    by (intro exI [of _ j]) (auto simp: forward_message_def mx_ok_def Let_def add.commute)
next
  case (Some q)
  then have "(nombre_grupo m, q) \<in> set (mx_cache mx)" by (rule map_of_SomeD)
  then obtain i where "i < MAX_GRUPOS" "q = i + 1" "mx_grupos mx ! i = nombre_grupo m" using assms(1) by (auto simp: mx_ok_def)
  then show ?thesis using assms(1,2) Some
    by (intro exI [of _ i]) (auto simp: forward_message_def mx_ok_def add.commute)
qed

lemma forward_desconocido:
  assumes "mx_ok mx" and "tipo_m m \<noteq> LEADER" and "nombre_grupo m \<notin> set (mx_grupos mx)" and "nombre_grupo m \<noteq> []"
    and "length (nombre_grupo m) < MAX_NOMBRE_RECURSO"
  shows "forward_message m mx = Listo (mx\<lparr>mx_mutex := mx_mutex mx + 2, mx_red := mx_red mx @ [m]\<rparr>)"
proof -
  have t: "tabla_mx_ok (mx_grupos mx)" and l: "length (mx_grupos mx) = MAX_GRUPOS"
    using assms(1) by (auto simp: mx_ok_def tabla_mx_ok_def)
  have "nombre_grupo m \<notin> fst ` set (mx_cache mx)"
  proof
    assume "nombre_grupo m \<in> fst ` set (mx_cache mx)"
    then obtain q where "(nombre_grupo m, q) \<in> set (mx_cache mx)" by auto
    then obtain i where "i < MAX_GRUPOS" "mx_grupos mx ! i = nombre_grupo m" using assms(1) by (auto simp: mx_ok_def)
    then show False using assms(3) l nth_mem by metis
  qed
  then have "map_of (mx_cache mx) (nombre_grupo m) = None" by (simp add: map_of_eq_None_iff)
  then show ?thesis using buscar_asignado_tabla(1) [OF t assms(5,4,3)] assms(2) by (simp add: forward_message_def Let_def)
qed

text \<open>
  Over any messages other than LEADER: each group finds in its queue its own ones, in order, and
  those of the groups that are not in the table go back to the ring in order.
\<close>

theorem multiplexor_reparte:
  assumes "mx_ok mx"
    and "\<forall>m \<in> set ms. tipo_m m \<noteq> LEADER \<and> nombre_grupo m \<noteq> [] \<and> length (nombre_grupo m) < MAX_NOMBRE_RECURSO"
  shows "\<exists>mx'. forward_todos ms mx = Listo mx' \<and> mx_ok mx' \<and> mx_grupos mx' = mx_grupos mx \<and>
    (\<forall>i < MAX_GRUPOS. mx_grupos mx ! i \<noteq> [] \<longrightarrow>
       de_tipo (int i + 1) (mx_espera mx') =
       de_tipo (int i + 1) (mx_espera mx) @ filter (\<lambda>m. nombre_grupo m = mx_grupos mx ! i) ms) \<and>
    mx_red mx' = mx_red mx @ filter (\<lambda>m. nombre_grupo m \<notin> set (mx_grupos mx)) ms"
  using assms
proof (induction ms arbitrary: mx)
  case Nil
  then show ?case by simp
next
  case (Cons m ms)
  have m: "tipo_m m \<noteq> LEADER" "nombre_grupo m \<noteq> []" "length (nombre_grupo m) < MAX_NOMBRE_RECURSO" using Cons.prems(2) by auto
  have t: "tabla_mx_ok (mx_grupos mx)" and l: "length (mx_grupos mx) = MAX_GRUPOS"
    using Cons.prems(1) by (auto simp: mx_ok_def tabla_mx_ok_def)
  show ?case
  proof (cases "nombre_grupo m \<in> set (mx_grupos mx)")
    case True
    from forward_registrado [OF Cons.prems(1) m(1) True m(2,3)]
    obtain i mx1 where f: "i < MAX_GRUPOS" "mx_grupos mx ! i = nombre_grupo m" "forward_message m mx = Listo mx1" "mx_ok mx1"
      "mx_grupos mx1 = mx_grupos mx" "mx_espera mx1 = mx_espera mx @ [(int i + 1, m)]" "mx_red mx1 = mx_red mx" by blast
    have q: "de_tipo (int j + 1) (mx_espera mx1) =
        de_tipo (int j + 1) (mx_espera mx) @ filter (\<lambda>m. nombre_grupo m = mx_grupos mx ! j) [m]"
      if "j < MAX_GRUPOS" "mx_grupos mx ! j \<noteq> []" for j
      using tabla_mx_inj [OF t f(1) that(1)] f(2,6) that m(2) by auto
    from Cons.IH [OF f(4)] Cons.prems(2) obtain mx2 where "forward_todos ms mx1 = Listo mx2" "mx_ok mx2"
      "mx_grupos mx2 = mx_grupos mx"
      and e: "\<forall>i < MAX_GRUPOS. mx_grupos mx ! i \<noteq> [] \<longrightarrow> de_tipo (int i + 1) (mx_espera mx2) =
        de_tipo (int i + 1) (mx_espera mx1) @ filter (\<lambda>m. nombre_grupo m = mx_grupos mx ! i) ms"
      and "mx_red mx2 = mx_red mx1 @ filter (\<lambda>m. nombre_grupo m \<notin> set (mx_grupos mx)) ms"
      using f(5) by auto
    moreover have "\<forall>i < MAX_GRUPOS. mx_grupos mx ! i \<noteq> [] \<longrightarrow> de_tipo (int i + 1) (mx_espera mx2) =
        de_tipo (int i + 1) (mx_espera mx) @ filter (\<lambda>m. nombre_grupo m = mx_grupos mx ! i) (m # ms)"
      using e q by auto
    ultimately show ?thesis using f(3,7) True by (intro exI [of _ mx2]) auto
  next
    case False
    define mx1 where "mx1 = mx\<lparr>mx_mutex := mx_mutex mx + 2, mx_red := mx_red mx @ [m]\<rparr>"
    have f: "forward_message m mx = Listo mx1" unfolding mx1_def by (rule forward_desconocido [OF Cons.prems(1) m(1) False m(2,3)])
    have "mx_ok mx1" using Cons.prems(1) by (simp add: mx1_def mx_ok_def)
    moreover have "mx_grupos mx ! j \<noteq> nombre_grupo m" if "j < MAX_GRUPOS" for j using False l that nth_mem by metis
    ultimately show ?thesis using Cons.IH [of mx1] Cons.prems(2) f False by (fastforce simp: mx1_def)
  qed
qed

text \<open>Announcing the leader puts the message once in the queue of each group; a group gets its entry for ever.\<close>

lemma avisar_desde:
  "j < length gs \<Longrightarrow> de_tipo (int (n + j) + 1) (map (\<lambda>(i, g). (int i + 1, m)) (filter (\<lambda>(i, g). g \<noteq> []) (enumerate n gs))) =
     (if gs ! j \<noteq> [] then [m] else [])"
proof (induction gs arbitrary: n j)
  case Nil
  then show ?case by simp
next
  case (Cons g gs)
  have r: "de_tipo (int n + 1) (map (\<lambda>(i, g). (int i + 1, m)) (filter (\<lambda>(i, g). g \<noteq> []) (enumerate (Suc n) gs))) = []"
    by (auto simp: de_tipo_def filter_empty_conv in_set_enumerate_eq)
  show ?case
  proof (cases j)
    case 0
    then show ?thesis using r by auto
  next
    case (Suc k)
    then show ?thesis using Cons.IH [of k "Suc n"] Cons.prems by (auto simp: add.commute add.left_commute)
  qed
qed

lemma avisar_lider_ok: "j < length gs \<Longrightarrow> de_tipo (int j + 1) (avisar_lider m gs) = (if gs ! j \<noteq> [] then [m] else [])"
  using avisar_desde [of j gs 0 m] by (simp add: avisar_lider_def)

lemma lugar_grupo_ok:
  assumes "[] \<notin> set ns" and "\<forall>n \<in> set ns. length n < MAX_NOMBRE_RECURSO" and "length nombre < MAX_NOMBRE_RECURSO"
  shows "(nombre \<in> set ns \<longrightarrow> (\<exists>j < length ns. ns ! j = nombre \<and> lugar_grupo nombre i (ns @ replicate k []) = Some (i + j))) \<and>
    (nombre \<notin> set ns \<longrightarrow> lugar_grupo nombre i (ns @ replicate k []) = (if k = 0 then None else Some (i + length ns)))"
  using assms
proof (induction ns arbitrary: i)
  case Nil
  then show ?case by (cases k) simp_all
next
  case (Cons n ns)
  show ?case
  proof (cases "n = nombre")
    case True
    then show ?thesis using Cons.prems by (auto simp: strncmp_igual_def intro!: exI [of _ 0])
  next
    case False
    have e: "lugar_grupo nombre i ((n # ns) @ replicate k []) = lugar_grupo nombre (i + 1) (ns @ replicate k [])"
      using False Cons.prems strncmp_corto [of nombre n] by auto
    have "\<exists>j < length (n # ns). (n # ns) ! j = nombre \<and> i + 1 + j' = i + j" if "j' < length ns" "ns ! j' = nombre" for j'
      using that by (intro exI [of _ "Suc j'"]) auto
    then show ?thesis using Cons.IH [of "i + 1"] Cons.prems False unfolding e by fastforce
  qed
qed

lemma tabla_mx_agregar:
  assumes "gs = ns @ replicate (MAX_GRUPOS - length ns) []" and "[] \<notin> set ns" and "distinct ns" and "length gs = MAX_GRUPOS"
    and "\<forall>n \<in> set ns. length n < MAX_NOMBRE_RECURSO" and "nombre \<notin> set ns" and "nombre \<noteq> []"
    and "length nombre < MAX_NOMBRE_RECURSO" and "length ns < MAX_GRUPOS"
  shows "gs ! length ns = []" and "tabla_mx_ok (gs[length ns := nombre])"
proof -
  obtain k where k: "MAX_GRUPOS - length ns = Suc k" using assms(9) by (metis Suc_diff_Suc)
  then have g: "gs = ns @ [] # replicate k []" using assms(1) by simp
  then show "gs ! length ns = []" by simp
  have "gs[length ns := nombre] = (ns @ [nombre]) @ replicate (MAX_GRUPOS - length (ns @ [nombre])) []"
    using g k by (simp add: list_update_append)
  moreover have "length (gs[length ns := nombre]) = MAX_GRUPOS" using assms(4) by simp
  ultimately show "tabla_mx_ok (gs[length ns := nombre])"
    unfolding tabla_mx_ok_def using assms(2,3,5-8) by (intro conjI exI [of _ "ns @ [nombre]"]) auto
qed

theorem asignar_cola_ok:
  assumes "mx_ok mx" and "0 < mx_mutex mx" and "nombre \<noteq> []" and "length nombre < MAX_NOMBRE_RECURSO"
    and "nombre \<in> set (mx_grupos mx) \<or> [] \<in> set (mx_grupos mx)"
  shows "\<exists>mx' i. asignar_cola nombre m mx = Listo (mx', i + 1) \<and> i < MAX_GRUPOS \<and> mx_ok mx' \<and> mx_grupos mx' ! i = nombre \<and>
    (\<forall>j < MAX_GRUPOS. mx_grupos mx ! j \<noteq> [] \<longrightarrow> mx_grupos mx' ! j = mx_grupos mx ! j) \<and> mx_mutex mx' = mx_mutex mx"
proof -
  define gs where "gs = mx_grupos mx"
  obtain ns where g: "gs = ns @ replicate (MAX_GRUPOS - length ns) []" and ns: "[] \<notin> set ns" "distinct ns"
    "\<forall>n \<in> set ns. length n < MAX_NOMBRE_RECURSO" and l: "length gs = MAX_GRUPOS"
    using assms(1) by (auto simp: mx_ok_def tabla_mx_ok_def gs_def)
  have lns: "length ns \<le> MAX_GRUPOS" using arg_cong [OF g, of length] l by simp
  note lu = lugar_grupo_ok [OF ns(1,3) assms(4), of 0 "MAX_GRUPOS - length ns", folded g]
  show ?thesis
  proof (cases "nombre \<in> set ns")
    case True
    then obtain j where j: "j < length ns" "ns ! j = nombre" "lugar_grupo nombre 0 gs = Some j" using lu by auto
    have "gs ! j = nombre" by (subst g) (use j in \<open>simp add: nth_append\<close>)
    then show ?thesis using assms(1-3) j lns unfolding gs_def
      by (intro exI [of _ "mx\<lparr>mx_espera := mx_espera mx @ (if mx_lider mx then [(int (j + 1), m\<lparr>tipo_m := LEADER\<rparr>)] else [])\<rparr>"]
          exI [of _ j]) (auto simp: asignar_cola_def mx_ok_def)
  next
    case False
    have "length ns \<noteq> MAX_GRUPOS"
    proof
      assume "length ns = MAX_GRUPOS"
      then have "gs = ns" using g by simp
      then show False using assms(5) False ns(1) by (simp add: gs_def)
    qed
    then have lt: "length ns < MAX_GRUPOS" using lns by simp
    note ag = tabla_mx_agregar [OF g ns(1,2) l ns(3) False assms(3,4) lt]
    have p: "lugar_grupo nombre 0 gs = Some (length ns)" using lu False lt by simp
    define mx1 where "mx1 = mx\<lparr>mx_grupos := gs[length ns := nombre],
      mx_espera := mx_espera mx @ (if mx_lider mx then [(int (length ns + 1), m\<lparr>tipo_m := LEADER\<rparr>)] else [])\<rparr>"
    have a: "asignar_cola nombre m mx = Listo (mx1, length ns + 1)"
      using assms(2,4) p ag(1) by (simp add: asignar_cola_def mx1_def flip: gs_def)
    have v: "gs[length ns := nombre] ! j = gs ! j" if "gs ! j \<noteq> []" for j
      using that ag(1) by (cases "j = length ns") auto
    have "mx_ok mx1" using assms(1) ag(2) v unfolding mx_ok_def mx1_def gs_def by fastforce
    then show ?thesis using a v lt l unfolding mx1_def gs_def by (intro exI [of _ mx1] exI [of _ "length ns"]) (simp add: mx1_def gs_def)
  qed
qed

end
