(* ===== verification/Cierre.thy ===== *)
theory Cierre
  imports CintaContenedor Checkin
begin

text \<open>
  How the close of a check-in reaches the loading robot of a zone: the controllers of the desks
  put the total in the queue of the zone (\<^verbatim>\<open>ApiCarga::cargar_equipajes\<close>),
  \<^verbatim>\<open>processes/control_carga_contenedores.cpp\<close> takes it and writes it on the belt, and the
  robot (\<^verbatim>\<open>processes/robot_carga.cpp\<close>) reads it, ends the load, frees the zone and then
  resets the belt. The belt is that of \<open>CintaContenedor\<close>.
\<close>

section \<open>The processes\<close>

text \<open>The robot waits for the close, knows the total, or has freed the zone and not reset the belt yet.\<close>

datatype fase_carga = F_carga | F_cerrada int | F_libre

text \<open>
  \<open>vcontrol\<close> is the total that \<^verbatim>\<open>control_carga_contenedores\<close> has in hand. Histories: the totals
  the desks announced and those written on the belt; whether the last one written is still unread;
  how many were read, overwritten and erased unread; and how many loads ended.
\<close>

record 'a sis_cierre =
  vbelt :: "'a sis_contenedor"
  vavisos :: "int cola"
  vcontrol :: "int option"
  vrobot :: fase_carga
  vcierres :: "int list"
  vescritos :: "int list"
  vpendiente :: bool
  vleidos :: nat
  vpisados :: nat
  vborrados :: nat
  vcargas :: nat

text \<open>\<open>real\<close> tells the pieces that count, those with an rfid other than 0.\<close>

definition cargadas :: "('a \<Rightarrow> bool) \<Rightarrow> 'a sis_contenedor \<Rightarrow> int" where
  "cargadas real b = int (length (filter real (piezas (zcarga b))))"

text \<open>When the robot calls \<^verbatim>\<open>sacar_equipaje\<close>, the condition of its inner loop; the belt's other steps are free.\<close>

definition sigue_cargando :: "('a \<Rightarrow> bool) \<Rightarrow> 'a sis_cierre \<Rightarrow> bool" where
  "sigue_cargando real s =
     (case vrobot s of
        F_carga \<Rightarrow> \<not> checkin_ya_cerro (zya (vbelt s))
      | F_cerrada n \<Rightarrow> cargadas real (vbelt s) < n
      | F_libre \<Rightarrow> False)"

fun de_la_cinta :: "('a \<Rightarrow> bool) \<Rightarrow> 'a sis_cierre \<Rightarrow> 'a accion_contenedor \<Rightarrow> bool" where
  "de_la_cinta real s Z_llama_sacar = sigue_cargando real s"
| "de_la_cinta real s Z_nueva_carga = False"
| "de_la_cinta real s (Z_avisar n) = False"
| "de_la_cinta real s a = True"

definition fin_cinta :: "'a sis_contenedor \<Rightarrow> 'a sis_cierre \<Rightarrow> 'a sis_cierre" where
  "fin_cinta b s =
     (let lee = zya b \<and> \<not> zya (vbelt s)
      in s\<lparr>vbelt := b, vleidos := vleidos s + (if lee then 1 else 0), vpendiente := vpendiente s \<and> \<not> lee\<rparr>)"

definition fin_recibe_cierre :: "int \<Rightarrow> int cola \<Rightarrow> 'a sis_cierre \<Rightarrow> 'a sis_cierre" where
  "fin_recibe_cierre n q s = s\<lparr>vavisos := q, vcontrol := Some n\<rparr>"

definition fin_escribe :: "int \<Rightarrow> 'a sis_cierre \<Rightarrow> 'a sis_cierre" where
  "fin_escribe n s = s\<lparr>vbelt := fin_avisar n (vbelt s), vcontrol := None, vescritos := vescritos s @ [n],
     vpisados := vpisados s + (if vpendiente s then 1 else 0), vpendiente := True\<rparr>"

definition fin_lee_total :: "'a sis_cierre \<Rightarrow> 'a sis_cierre" where
  "fin_lee_total s = s\<lparr>vrobot := F_cerrada (cantidad_valijas_totales (zya (vbelt s)) (zmem (vbelt s)))\<rparr>"

definition fin_termina :: "'a sis_cierre \<Rightarrow> 'a sis_cierre" where
  "fin_termina s = s\<lparr>vrobot := F_libre, vcargas := vcargas s + 1\<rparr>"

definition fin_reinicia :: "'a sis_cierre \<Rightarrow> 'a sis_cierre" where
  "fin_reinicia s = s\<lparr>vbelt := fin_nueva_carga (vbelt s), vrobot := F_carga,
     vborrados := vborrados s + (if vpendiente s then 1 else 0), vpendiente := False\<rparr>"

text \<open>The zone may be in the hands of more than one flight, so a close can be announced at any time.\<close>

inductive paso_cierre :: "('a \<Rightarrow> bool) \<Rightarrow> nat \<Rightarrow> 'a sis_cierre \<Rightarrow> 'a sis_cierre \<Rightarrow> bool"
  for real :: "'a \<Rightarrow> bool" and k :: nat where
  v_cinta: "hacer_contenedor k a (vbelt s) = Some b \<Longrightarrow> de_la_cinta real s a \<Longrightarrow> paso_cierre real k s (fin_cinta b s)"
| v_cierra: "cargar_equipajes n (vavisos s) = Listo q \<Longrightarrow>
     paso_cierre real k s (s\<lparr>vavisos := q, vcierres := vcierres s @ [n]\<rparr>)"
| v_recibe: "vcontrol s = None \<Longrightarrow> get_equipajes_por_cargar (vavisos s) = Listo (n, q) \<Longrightarrow>
     paso_cierre real k s (fin_recibe_cierre n q s)"
| v_escribe: "vcontrol s = Some n \<Longrightarrow> paso_cierre real k s (fin_escribe n s)"
| v_lee: "vrobot s = F_carga \<Longrightarrow> checkin_ya_cerro (zya (vbelt s)) \<Longrightarrow> zcons (vbelt s) = C_fuera \<Longrightarrow>
     paso_cierre real k s (fin_lee_total s)"
| v_termina: "vrobot s = F_cerrada n \<Longrightarrow> zcons (vbelt s) = C_fuera \<Longrightarrow> n \<le> cargadas real (vbelt s) \<Longrightarrow>
     paso_cierre real k s (fin_termina s)"
| v_reinicia: "vrobot s = F_libre \<Longrightarrow> zcons (vbelt s) = C_fuera \<Longrightarrow> paso_cierre real k s (fin_reinicia s)"

definition ini_cierre :: "'a sis_contenedor \<Rightarrow> 'a sis_cierre" where
  "ini_cierre b = \<lparr>vbelt = b, vavisos = [], vcontrol = None, vrobot = F_carga, vcierres = [], vescritos = [],
     vpendiente = False, vleidos = 0, vpisados = 0, vborrados = 0, vcargas = 0\<rparr>"

section \<open>Invariant\<close>

definition en_mano :: "int option \<Rightarrow> int list" where
  "en_mano c = (case c of None \<Rightarrow> [] | Some n \<Rightarrow> [n])"

lemma en_mano_simps [simp]: "en_mano None = []" "en_mano (Some n) = [n]"
  by (simp_all add: en_mano_def)

definition orden_ok :: "'a sis_cierre \<Rightarrow> bool" where
  "orden_ok s \<longleftrightarrow> vcierres s = vescritos s @ en_mano (vcontrol s) @ map snd (vavisos s)"

definition marca_ok :: "'a sis_cierre \<Rightarrow> bool" where
  "marca_ok s \<longleftrightarrow>
     checkin_cerrado (zmem (vbelt s)) \<in> {0, 1} \<and> (zya (vbelt s) \<longrightarrow> checkin_cerrado (zmem (vbelt s)) = 1) \<and>
     (vpendiente s \<longrightarrow> checkin_cerrado (zmem (vbelt s)) = 1) \<and>
     (checkin_cerrado (zmem (vbelt s)) = 1 \<and> \<not> zya (vbelt s) \<longrightarrow> vpendiente s) \<and>
     (checkin_cerrado (zmem (vbelt s)) = 1 \<longrightarrow> numero_de_valijas_totales (zmem (vbelt s)) \<in> set (vescritos s))"

definition fase_ok :: "'a sis_cierre \<Rightarrow> bool" where
  "fase_ok s \<longleftrightarrow>
     (case vrobot s of F_carga \<Rightarrow> True | F_cerrada n \<Rightarrow> zya (vbelt s) \<and> n \<in> set (vescritos s) | F_libre \<Rightarrow> zya (vbelt s)) \<and>
     vleidos s = vcargas s + (if zya (vbelt s) \<and> vrobot s \<noteq> F_libre then 1 else 0) \<and>
     length (vescritos s) = vleidos s + vpisados s + vborrados s + (if vpendiente s then 1 else 0)"

definition inv_cierre :: "'a sis_cierre \<Rightarrow> bool" where
  "inv_cierre s \<longleftrightarrow> orden_ok s \<and> marca_ok s \<and> fase_ok s"

text \<open>What a step of the belt keeps: the two words of the close change only in \<^verbatim>\<open>avisar\<close> and the reset.\<close>

lemma despertar_marca [simp]:
  "checkin_cerrado (carga_despertar_consumidores c) = checkin_cerrado c"
  "numero_de_valijas_totales (carga_despertar_consumidores c) = numero_de_valijas_totales c"
  "checkin_cerrado (carga_despertar_productores c) = checkin_cerrado c"
  "numero_de_valijas_totales (carga_despertar_productores c) = numero_de_valijas_totales c"
  by (simp_all add: carga_despertar_consumidores_def carga_despertar_productores_def split: prod.splits)

lemma colocar_marca [simp]:
  "checkin_cerrado (colocar e c) = checkin_cerrado c" "numero_de_valijas_totales (colocar e c) = numero_de_valijas_totales c"
  "checkin_cerrado (retirar c) = checkin_cerrado c" "numero_de_valijas_totales (retirar c) = numero_de_valijas_totales c"
  for c :: "'a cinta_carga"
  by (simp_all add: colocar_def retirar_def)

lemma poner_marca:
  "checkin_cerrado (fst (carga_poner e i c)) = checkin_cerrado c"
  "numero_de_valijas_totales (fst (carga_poner e i c)) = numero_de_valijas_totales c"
  by (auto simp: carga_poner_def Let_def)

lemma tomar_marca:
  "checkin_cerrado (fst (carga_tomar i c)) = checkin_cerrado c"
  "numero_de_valijas_totales (fst (carga_tomar i c)) = numero_de_valijas_totales c"
  by (auto simp: carga_tomar_def Let_def)

lemma sacar_marca:
  assumes "carga_sacar j ya c = (c', ya', r)"
  shows "checkin_cerrado c' = checkin_cerrado c \<and> numero_de_valijas_totales c' = numero_de_valijas_totales c \<and>
    (ya \<longrightarrow> ya') \<and> (ya' \<and> \<not> ya \<longrightarrow> checkin_cerrado c = 1)"
  using assms tomar_marca [of j c] by (auto simp: carga_sacar_def split: prod.splits if_splits)

lemma cinta_marca:
  assumes "hacer_contenedor k a b = Some b'" and "de_la_cinta real s a"
  shows "checkin_cerrado (zmem b') = checkin_cerrado (zmem b) \<and>
    numero_de_valijas_totales (zmem b') = numero_de_valijas_totales (zmem b) \<and>
    (zya b \<longrightarrow> zya b') \<and> (zya b' \<and> \<not> zya b \<longrightarrow> checkin_cerrado (zmem b) = 1)"
proof (cases a)
  case (Z_llama_poner e)
  then show ?thesis using assms(1) by (cases "zprod b") auto
next
  case Z_pasa_poner
  then show ?thesis using assms(1) by (cases "zprod b"; cases "wait_on k (semaforo_productores (zmem b))") auto
next
  case Z_seccion_poner
  then obtain e where "b' = fin_carga_poner k e b" using assms(1) by (cases "zprod b") auto
  then show ?thesis using poner_marca [of e k "zmem b"] by (cases "carga_poner e k (zmem b)") (simp add: fin_carga_poner_def)
next
  case Z_llama_sacar
  then show ?thesis using assms(1) by (cases "zcons b = C_fuera") auto
next
  case Z_pasa_sacar
  then show ?thesis using assms(1)
    by (cases "zcons b = C_espera"; cases "wait_on k (semaforo_consumidores (zmem b))") auto
next
  case Z_seccion_sacar
  then have b': "b' = fin_carga_sacar k b" using assms(1) by (cases "zcons b = C_turno") auto
  obtain c ya r where "carga_sacar k (zya b) (zmem b) = (c, ya, r)" by (metis prod_cases3)
  then have "zmem b' = c \<and> zya b' = ya" by (simp add: fin_carga_sacar_def b')
  then show ?thesis using sacar_marca [OF \<open>carga_sacar k (zya b) (zmem b) = (c, ya, r)\<close>] by blast
qed (use assms(2) in simp_all)

lemma avisar_marca [simp]:
  "checkin_cerrado (avisar_cierre_de_checkin n c) = 1" "numero_de_valijas_totales (avisar_cierre_de_checkin n c) = n"
  by (simp_all add: avisar_cierre_de_checkin_def)

lemma inv_cierre_cinta:
  assumes inv: "inv_cierre s" and h: "hacer_contenedor k a (vbelt s) = Some b" and d: "de_la_cinta real s a"
  shows "inv_cierre (fin_cinta b s)"
proof -
  note m = cinta_marca [OF h d]
  have f: "vrobot s = F_libre \<Longrightarrow> zya (vbelt s)" "vrobot s = F_cerrada n \<Longrightarrow> zya (vbelt s) \<and> n \<in> set (vescritos s)" for n
    using inv by (simp_all add: inv_cierre_def fase_ok_def)
  have o: "orden_ok (fin_cinta b s)" using inv by (simp add: inv_cierre_def orden_ok_def fin_cinta_def Let_def)
  have p: "zya b \<and> \<not> zya (vbelt s) \<Longrightarrow> vpendiente s" using m inv by (auto simp: inv_cierre_def marca_ok_def)
  have "marca_ok (fin_cinta b s)" using m inv by (auto simp: inv_cierre_def marca_ok_def fin_cinta_def Let_def)
  moreover have "fase_ok (fin_cinta b s)"
  proof (cases "zya b \<and> \<not> zya (vbelt s)")
    case True
    then have "vrobot s = F_carga" using f by (cases "vrobot s") auto
    then show ?thesis using inv True p by (simp add: inv_cierre_def fase_ok_def fin_cinta_def)
  next
    case False
    then have "zya b = zya (vbelt s)" using m by blast
    then show ?thesis using inv by (cases "vrobot s") (simp_all add: inv_cierre_def fase_ok_def fin_cinta_def)
  qed
  ultimately show ?thesis using o by (simp add: inv_cierre_def)
qed

lemma inv_cierre_escribe: "inv_cierre s \<Longrightarrow> vcontrol s = Some n \<Longrightarrow> inv_cierre (fin_escribe n s)"
  by (cases "vrobot s") (simp_all add: inv_cierre_def orden_ok_def marca_ok_def fase_ok_def fin_escribe_def fin_avisar_def)

lemma inv_cierre_reinicia: "inv_cierre s \<Longrightarrow> vrobot s = F_libre \<Longrightarrow> inv_cierre (fin_reinicia s)"
  by (simp add: inv_cierre_def orden_ok_def marca_ok_def fase_ok_def fin_reinicia_def fin_nueva_carga_def
    comenzar_nueva_carga_def)

lemma inv_cierre_lee: "inv_cierre s \<Longrightarrow> vrobot s = F_carga \<Longrightarrow> checkin_ya_cerro (zya (vbelt s)) \<Longrightarrow> inv_cierre (fin_lee_total s)"
  by (simp add: inv_cierre_def orden_ok_def marca_ok_def fase_ok_def fin_lee_total_def cantidad_valijas_totales_def
    checkin_ya_cerro_def)

lemma inv_cierre_termina: "inv_cierre s \<Longrightarrow> vrobot s = F_cerrada n \<Longrightarrow> inv_cierre (fin_termina s)"
  by (simp add: inv_cierre_def orden_ok_def marca_ok_def fase_ok_def fin_termina_def)

lemma recibe_ok: "get_equipajes_por_cargar q = Listo (n, q') \<Longrightarrow> \<exists>t. q = (t, n) # q'"
  by (cases q) (auto simp: get_equipajes_por_cargar_def pull_def)

lemma inv_cierre_paso: "paso_cierre real k s t \<Longrightarrow> inv_cierre s \<Longrightarrow> inv_cierre t"
proof (induction rule: paso_cierre.induct)
  case (v_cinta a s b)
  then show ?case by (blast intro: inv_cierre_cinta)
next
  case (v_cierra n s q)
  then show ?case
    by (cases "vrobot s") (simp_all add: inv_cierre_def orden_ok_def marca_ok_def fase_ok_def cargar_equipajes_def paso_simps)
next
  case (v_recibe s n q)
  then show ?case using recibe_ok [of "vavisos s" n q]
    by (cases "vrobot s") (auto simp: inv_cierre_def orden_ok_def marca_ok_def fase_ok_def fin_recibe_cierre_def)
qed (blast intro: inv_cierre_escribe inv_cierre_reinicia inv_cierre_lee inv_cierre_termina)+

lemma inv_cierre_ini: "inv_cierre (ini_cierre (ini_contenedor k vacio))"
  by (simp add: inv_cierre_def orden_ok_def marca_ok_def fase_ok_def ini_cierre_def ini_contenedor_def
    abrir_cinta_carga_def palabras_contenedor_def numeral_eq_Suc)

section \<open>Schedules\<close>

datatype 'a accion_cierre =
    V_cinta "'a accion_contenedor" | V_cierra int | V_recibe | V_escribe | V_lee | V_termina | V_reinicia

fun hacer_cierre :: "('a \<Rightarrow> bool) \<Rightarrow> nat \<Rightarrow> 'a accion_cierre \<Rightarrow> 'a sis_cierre \<Rightarrow> 'a sis_cierre option" where
  "hacer_cierre real k (V_cinta a) s =
     (if de_la_cinta real s a then map_option (\<lambda>b. fin_cinta b s) (hacer_contenedor k a (vbelt s)) else None)"
| "hacer_cierre real k (V_cierra n) s =
     (case cargar_equipajes n (vavisos s) of
        Listo q \<Rightarrow> Some (s\<lparr>vavisos := q, vcierres := vcierres s @ [n]\<rparr>) | _ \<Rightarrow> None)"
| "hacer_cierre real k V_recibe s =
     (if vcontrol s = None
      then (case get_equipajes_por_cargar (vavisos s) of Listo (n, q) \<Rightarrow> Some (fin_recibe_cierre n q s) | _ \<Rightarrow> None) else None)"
| "hacer_cierre real k V_escribe s = map_option (\<lambda>n. fin_escribe n s) (vcontrol s)"
| "hacer_cierre real k V_lee s =
     (if vrobot s = F_carga \<and> checkin_ya_cerro (zya (vbelt s)) \<and> zcons (vbelt s) = C_fuera then Some (fin_lee_total s) else None)"
| "hacer_cierre real k V_termina s =
     (case vrobot s of
        F_cerrada n \<Rightarrow> (if zcons (vbelt s) = C_fuera \<and> n \<le> cargadas real (vbelt s) then Some (fin_termina s) else None)
      | _ \<Rightarrow> None)"
| "hacer_cierre real k V_reinicia s =
     (if vrobot s = F_libre \<and> zcons (vbelt s) = C_fuera then Some (fin_reinicia s) else None)"

lemma hacer_cierre_paso: "hacer_cierre real k a s = Some t \<Longrightarrow> paso_cierre real k s t"
  by (cases a) (auto split: if_splits llamada.splits fase_carga.splits intro: paso_cierre.intros)

interpretation cierre: sistema_ejecutable "\<lambda>s. \<exists>vacio. s = ini_cierre (ini_contenedor k vacio)"
    "paso_cierre real k" inv_cierre "hacer_cierre real k" for real k
  by unfold_locales (auto intro: inv_cierre_ini inv_cierre_paso hacer_cierre_paso)

section \<open>Properties\<close>

text \<open>The robot waits for a close and none is on its way.\<close>

definition sin_cierre :: "'a sis_cierre \<Rightarrow> bool" where
  "sin_cierre s \<longleftrightarrow> vrobot s = F_carga \<and> \<not> checkin_ya_cerro (zya (vbelt s)) \<and> \<not> vpendiente s \<and>
     vcontrol s = None \<and> vavisos s = []"

lemma sin_cierre_paso:
  assumes "paso_cierre real k s t" and "inv_cierre s" and "sin_cierre s" and "vcierres t = vcierres s"
  shows "sin_cierre t \<and> vcargas t = vcargas s"
  using assms
proof (induction rule: paso_cierre.induct)
  case (v_cinta a s b)
  have "checkin_cerrado (zmem (vbelt s)) \<noteq> 1"
    using v_cinta(3,4) by (simp add: inv_cierre_def marca_ok_def sin_cierre_def checkin_ya_cerro_def)
  then have "\<not> zya b" using cinta_marca [OF v_cinta(1,2)] v_cinta(4) by (auto simp: sin_cierre_def checkin_ya_cerro_def)
  then show ?case using v_cinta(4) by (simp add: sin_cierre_def fin_cinta_def checkin_ya_cerro_def)
next
  case (v_recibe s n q)
  then show ?case using recibe_ok [of "vavisos s" n q] by (simp add: sin_cierre_def)
qed (simp_all add: sin_cierre_def)

text \<open>
  C35. What becomes of the closes of a zone, announced at any time and by any desk. They are written on
  the belt of the zone in the order they were announced. Of those written, each was read by the robot
  and ends one load, or was overwritten by the next one before the robot read it, or was erased unread
  when the robot reset its belt after freeing the zone, or is the one still unread on the belt. The
  total of a load is one that was announced. And a robot that waits when no close is on its way ends
  no load, whatever happens on its belt, until another close is announced.
\<close>

theorem cierre_de_zona:
  assumes "alcanzable (\<lambda>s. \<exists>vacio. s = ini_cierre (ini_contenedor k vacio)) (paso_cierre real k) s"
  shows "vcierres s = vescritos s @ en_mano (vcontrol s) @ map snd (vavisos s) \<and>
    length (vescritos s) = vcargas s + (if checkin_ya_cerro (zya (vbelt s)) \<and> vrobot s \<noteq> F_libre then 1 else 0) +
      vpisados s + vborrados s + (if vpendiente s then 1 else 0) \<and>
    (\<forall>n. vrobot s = F_cerrada n \<longrightarrow> n \<in> set (vcierres s)) \<and>
    (\<forall>t. sin_cierre s \<and> paso_cierre real k s t \<and> vcierres t = vcierres s \<longrightarrow> sin_cierre t \<and> vcargas t = vcargas s)"
proof -
  have inv: "inv_cierre s" by (rule cierre.inv_alcanzable [OF assms])
  then have o: "vcierres s = vescritos s @ en_mano (vcontrol s) @ map snd (vavisos s)" by (simp add: inv_cierre_def orden_ok_def)
  moreover have "\<forall>n. vrobot s = F_cerrada n \<longrightarrow> n \<in> set (vcierres s)"
    using inv unfolding o by (auto simp: inv_cierre_def fase_ok_def)
  ultimately show ?thesis using inv sin_cierre_paso [OF _ inv]
    by (auto simp: inv_cierre_def fase_ok_def checkin_ya_cerro_def)
qed

text \<open>
  Zone 3: a load of one piece ends and frees the zone; the next flight closes with five pieces
  before the robot resets its belt. The five pieces are never loaded.
\<close>

definition corrida_cierre :: "nat accion_cierre list" where
  "corrida_cierre =
     map V_cinta [Z_llama_sacar, Z_pasa_sacar, Z_seccion_sacar] @ [V_cierra 1, V_recibe, V_escribe] @
     map V_cinta [Z_pasa_sacar, Z_seccion_sacar] @ [V_lee] @
     map V_cinta [Z_llama_poner 7, Z_pasa_poner, Z_seccion_poner, Z_llama_sacar, Z_pasa_sacar, Z_seccion_sacar] @
     [V_termina, V_cierra 5, V_recibe, V_escribe, V_reinicia, V_cinta Z_llama_sacar]"

definition estado_cierre :: "nat sis_cierre" where
  "estado_cierre = the (ejecutar (hacer_cierre (\<lambda>e. e \<noteq> 0) 2) corrida_cierre (ini_cierre (ini_contenedor 2 0)))"

lemma corrida_cierre_ok:
  "ejecutar (hacer_cierre (\<lambda>e. e \<noteq> 0) 2) corrida_cierre (ini_cierre (ini_contenedor 2 0)) = Some estado_cierre"
proof -
  have "ejecutar (hacer_cierre (\<lambda>e. e \<noteq> 0) 2) corrida_cierre (ini_cierre (ini_contenedor 2 0)) \<noteq> None" by code_simp
  then show ?thesis unfolding estado_cierre_def by force
qed

lemma estado_cierre_alcanzable:
  "alcanzable (\<lambda>s. \<exists>vacio. s = ini_cierre (ini_contenedor 2 vacio)) (paso_cierre (\<lambda>e. e \<noteq> 0) 2) estado_cierre"
  by (rule cierre.ejecutar_inicio [OF _ corrida_cierre_ok]) auto

lemma estado_cierre_valores:
  "vcierres estado_cierre = [1, 5]" "vcargas estado_cierre = 1" "vborrados estado_cierre = 1" "vrobot estado_cierre = F_carga"
  "zya (vbelt estado_cierre) = False" "vpendiente estado_cierre = False" "vcontrol estado_cierre = None" "vavisos estado_cierre = []"
  by code_simp+

theorem cierre_de_zona_witness:
  "vcierres estado_cierre = [1, 5] \<and> vescritos estado_cierre = [1, 5] \<and> vborrados estado_cierre = 1 \<and> vpisados estado_cierre = 0 \<and>
   sin_cierre estado_cierre"
proof -
  note t = cierre_de_zona [OF estado_cierre_alcanzable]
  have e: "vescritos estado_cierre = [1, 5]" using t [THEN conjunct1] by (simp add: estado_cierre_valores)
  moreover have "vpisados estado_cierre = 0"
    using t [THEN conjunct2, THEN conjunct1] by (simp add: e estado_cierre_valores checkin_ya_cerro_def)
  ultimately show ?thesis by (simp add: estado_cierre_valores sin_cierre_def checkin_ya_cerro_def)
qed

end
