(* ===== verification/Salida.thy ===== *)
theory Salida
  imports MemoriaDistribuida
begin

text \<open>
  Clients that leave a distributed memory: the destructor of the application signals its
  \<^verbatim>\<open>local_broker_comm\<close> (\<^verbatim>\<open>clientes/memoria_distribuida.cpp\<close>), which ends by the flag
  \<^verbatim>\<open>salir\<close> or by the call the signal interrupts (\<^verbatim>\<open>loop_memoria\<close>, \<^verbatim>\<open>leave\<close> and
  \<^verbatim>\<open>main\<close> of \<^verbatim>\<open>clientes/local_broker_comm.cpp\<close>), and the handler of the broker that
  finds out at its next token (\<^verbatim>\<open>loop_memoria\<close> of \<^verbatim>\<open>local_broker/client_handler.cpp\<close>).
  The rest of the system is that of \<open>MemoriaDistribuida\<close>.
\<close>

section \<open>State\<close>

text \<open>
  \<open>ysalir p\<close> is the flag of the process of client \<open>p\<close>; \<open>yfin p\<close> says that it ended and what
  is in the connection after any token on its way back: \<^verbatim>\<open>LEAVE\<close>, or nothing when an
  interrupted call ended it. \<open>yvalor\<close> is what an application last wrote under the lock; no
  step reads it. Here the \<open>dvalor\<close> of the network also follows what a late client gives back.
\<close>

record sis_salida =
  yred :: sis_dist
  ysalir :: "nat \<Rightarrow> bool"
  yfin :: "nat \<Rightarrow> byte list option"
  yvalor :: "byte list"

section \<open>The communication process\<close>

text \<open>
  \<^verbatim>\<open>wait_token(memory)\<close> when the signal arrives between two calls: the first \<open>k\<close> blocks were
  copied to the memory, the others only leave the socket.
\<close>

definition wait_token_tardio ::
  "nat \<Rightarrow> nat \<Rightarrow> byte list \<Rightarrow> byte list \<Rightarrow> byte list \<Rightarrow> nat list \<Rightarrow> byte list \<times> recepcion" where
  "wait_token_tardio k tamanio memoria buf red cortes =
     (case recibir_bloques (\<lambda>_. False) True True tamanio 0 k memoria buf red cortes of
        (m, Completo b red' cs) \<Rightarrow>
          recibir_bloques (\<lambda>_. False) True False tamanio k (cantidad_de_bloques tamanio - k) m b red' cs
      | (m, r) \<Rightarrow> (m, r))"

text \<open>\<^verbatim>\<open>leave\<close>: one message, whose other fields nobody set.\<close>

definition mensaje_leave :: "byte list \<Rightarrow> byte list" where
  "mensaje_leave b = poner_peticion LEAVE b"

text \<open>
  The steps of the network that the two flags allow: the application does nothing after its
  destructor, an ended process does nothing, and those of a process told to leave are below.
\<close>

fun permitida :: "sis_salida \<Rightarrow> accion_dist \<Rightarrow> bool" where
  "permitida s (B_recibir p cortes) = (yfin s p = None \<and> \<not> ysalir s p)"
| "permitida s (B_comparar p) = (yfin s p = None)"
| "permitida s (B_esperar p) = (yfin s p = None)"
| "permitida s (B_devolver p) = (yfin s p = None \<and> \<not> ysalir s p)"
| "permitida s (B_volver p cortes) = (yfin s p = None)"
| "permitida s (B_pedir p) = (\<not> ysalir s p)"
| "permitida s (B_entrar p) = (\<not> ysalir s p)"
| "permitida s (B_limpiar p) = (\<not> ysalir s p)"
| "permitida s (B_escribir p m) = (\<not> ysalir s p)"
| "permitida s (B_soltar p) = (\<not> ysalir s p)"
| "permitida s (B_liberar p) = (\<not> ysalir s p)"
| "permitida s a = True"

fun escrito :: "accion_dist \<Rightarrow> byte list \<Rightarrow> byte list" where
  "escrito (B_escribir p m) v = m"
| "escrito a v = v"

definition vive :: "nat \<Rightarrow> sis_salida \<Rightarrow> bool" where
  "vive p s \<longleftrightarrow> kcom (dcli (yred s) p) \<noteq> K_fuera \<and> yfin s p = None"

definition en_red :: "nat \<Rightarrow> cliente_dist \<Rightarrow> sis_salida \<Rightarrow> sis_salida" where
  "en_red p c s = s\<lparr>yred := poner_cli p c (yred s)\<rparr>"

section \<open>Steps\<close>

text \<open>
  Besides those of the network: the signal of the destructor; the signal while the process
  is blocked in \<^verbatim>\<open>receivesome\<close> (the exception leaves \<^verbatim>\<open>main\<close>); the end of its loop; a
  token it reads with the flag set, in part or whole, and gives back; and, in the handler, the
  return of a token of a process that ended since, and the departure, by the value 0 of
  \<^verbatim>\<open>recv_token\<close> or by an error of the socket. The place goes to a new client.
\<close>

datatype accion_salida =
    Y_red accion_dist | Y_senal nat | Y_interrumpe nat | Y_termina nat "byte list" | Y_tarde nat nat "nat list"
  | Y_devolver nat | Y_volver nat "nat list" | Y_deja nat "nat list" cliente_dist | Y_falla nat cliente_dist

definition fin_deja :: "string \<Rightarrow> nat \<Rightarrow> grupo \<Rightarrow> cliente_dist \<Rightarrow> sis_salida \<Rightarrow> sis_salida" where
  "fin_deja rec p g k s = s\<lparr>yred := poner_cli p k ((yred s)\<lparr>dgrupo := fin_leave rec p g (dgrupo (yred s))\<rparr>),
     ysalir := (ysalir s)(p := False), yfin := (yfin s)(p := None)\<rparr>"

definition salir_grupo :: "string \<Rightarrow> nat \<Rightarrow> cliente_dist \<Rightarrow> byte list \<Rightarrow> sis_salida \<Rightarrow> sis_salida option" where
  "salir_grupo rec p k m s =
     (case ghs (dgrupo (yred s)) p of
        H_token n \<Rightarrow> (case leave n ((ggrupo (dgrupo (yred s)))\<lparr>memoria_compartida := m\<rparr>) of
            Listo (g, u) \<Rightarrow> Some (fin_deja rec p g k s) | _ \<Rightarrow> None)
      | _ \<Rightarrow> None)"

fun hacer_salida :: "nat \<Rightarrow> string \<Rightarrow> nat \<Rightarrow> accion_salida \<Rightarrow> sis_salida \<Rightarrow> sis_salida option" where
  "hacer_salida base rec tam (Y_red a) s =
     (if permitida s a
      then (case hacer_dist base rec a (yred s) of
              Some t \<Rightarrow> Some (s\<lparr>yred := t, yvalor := escrito a (yvalor s)\<rparr>) | None \<Rightarrow> None)
      else None)"
| "hacer_salida base rec tam (Y_senal p) s =
     (if vive p s \<and> kapp (dcli (yred s) p) = Ap_afuera then Some (s\<lparr>ysalir := (ysalir s)(p := True)\<rparr>) else None)"
| "hacer_salida base rec tam (Y_interrumpe p) s =
     (if vive p s \<and> kapp (dcli (yred s) p) = Ap_afuera \<and> \<not> ysalir s p
      then (case kcom (dcli (yred s) p) of
              K_espera \<Rightarrow> Some (s\<lparr>ysalir := (ysalir s)(p := True), yfin := (yfin s)(p := Some [])\<rparr>)
            | K_ida red \<Rightarrow> Some (s\<lparr>ysalir := (ysalir s)(p := True), yfin := (yfin s)(p := Some [])\<rparr>)
            | _ \<Rightarrow> None)
      else None)"
| "hacer_salida base rec tam (Y_termina p b) s =
     (if ysalir s p \<and> vive p s \<and> length b = TAMANIO_MENSAJE
      then (case kcom (dcli (yred s) p) of
              K_espera \<Rightarrow> Some (s\<lparr>yfin := (yfin s)(p := Some (mensaje_leave b))\<rparr>)
            | K_ida red \<Rightarrow> Some (s\<lparr>yfin := (yfin s)(p := Some (mensaje_leave b))\<rparr>)
            | K_vuelta red \<Rightarrow> Some (s\<lparr>yfin := (yfin s)(p := Some (mensaje_leave b))\<rparr>)
            | _ \<Rightarrow> None)
      else None)"
| "hacer_salida base rec tam (Y_tarde p k cortes) s =
     (case kcom (dcli (yred s) p) of
        K_ida red \<Rightarrow>
          (case wait_token_tardio k tam (kcopia (dcli (yred s) p)) (kbuf_c (dcli (yred s) p)) red cortes of
             (m, Completo b resto cs) \<Rightarrow>
               (if ysalir s p \<and> yfin s p = None \<and> k < cantidad_de_bloques tam
                then Some (s\<lparr>yred := poner_cli p ((dcli (yred s) p)\<lparr>kcom := K_recibido, kcopia := m, kbuf_c := b\<rparr>)
                       ((yred s)\<lparr>dvalor := m\<rparr>)\<rparr>)
                else None)
           | _ \<Rightarrow> None)
      | _ \<Rightarrow> None)"
| "hacer_salida base rec tam (Y_devolver p) s =
     (case send_token_cliente True tam (kcopia (dcli (yred s) p)) (kbuf_c (dcli (yred s) p)) of
        (ms, b) \<Rightarrow> (if kcom (dcli (yred s) p) = K_devolver \<and> ysalir s p \<and> yfin s p = None
          then Some (en_red p ((dcli (yred s) p)\<lparr>kcom := K_vuelta (concat ms), kbuf_c := b\<rparr>) s) else None))"
| "hacer_salida base rec tam (Y_volver p cortes) s =
     (case (kcom (dcli (yred s) p), yfin s p, ghs (dgrupo (yred s)) p) of
        (K_vuelta red, Some fin, H_token n) \<Rightarrow>
          (case recv_token False False tam (memoria_compartida (ggrupo (dgrupo (yred s)))) (kbuf_b (dcli (yred s) p))
                  (red @ fin) cortes of
             Listo (m, r, b, resto) \<Rightarrow>
               (if r = 0 then None
                else Some (s\<lparr>yred := poner_cli p ((dcli (yred s) p)\<lparr>kcom := K_espera, kbuf_b := b\<rparr>)
                       ((yred s)\<lparr>dgrupo := g_liberado rec p n (con_memoria m (dgrupo (yred s)))\<rparr>),
                       yfin := (yfin s)(p := Some resto)\<rparr>))
           | _ \<Rightarrow> None)
      | _ \<Rightarrow> None)"
| "hacer_salida base rec tam (Y_deja p cortes k) s =
     (case (kcom (dcli (yred s) p), yfin s p) of
        (K_ida red, Some fin) \<Rightarrow>
          (case recv_token False False tam (memoria_compartida (ggrupo (dgrupo (yred s)))) (kbuf_b (dcli (yred s) p)) fin cortes of
             Listo (m, r, b, resto) \<Rightarrow> (if r = 0 \<and> cliente_inicial tam k then salir_grupo rec p k m s else None)
           | _ \<Rightarrow> None)
      | _ \<Rightarrow> None)"
| "hacer_salida base rec tam (Y_falla p k) s =
     (case (kcom (dcli (yred s) p), yfin s p) of
        (K_ida red, Some fin) \<Rightarrow>
          (if cliente_inicial tam k then salir_grupo rec p k (memoria_compartida (ggrupo (dgrupo (yred s)))) s else None)
      | _ \<Rightarrow> None)"

definition paso_salida :: "nat \<Rightarrow> string \<Rightarrow> nat \<Rightarrow> sis_salida \<Rightarrow> sis_salida \<Rightarrow> bool" where
  "paso_salida base rec tam s t \<longleftrightarrow> (\<exists>a. hacer_salida base rec tam a s = Some t)"

definition ini_salida :: "nat \<Rightarrow> string \<Rightarrow> nat \<Rightarrow> sis_salida \<Rightarrow> bool" where
  "ini_salida base rec tam s \<longleftrightarrow> ini_dist base rec tam (yred s) \<and> ysalir s = (\<lambda>_. False) \<and> yfin s = (\<lambda>_. None) \<and>
     yvalor s = dvalor (yred s)"

section \<open>Lengths and messages\<close>

lemma recibir_mensaje_largo:
  "recibir_mensaje deja abierta cant buf red cortes = Completo b red' cs \<Longrightarrow> cant \<le> TAMANIO_MENSAJE \<Longrightarrow>
     length buf = TAMANIO_MENSAJE \<Longrightarrow> length b = TAMANIO_MENSAJE"
proof (induction deja abierta cant buf red cortes rule: recibir_mensaje.induct)
  case (1 deja abierta cant buf red cortes)
  define n where "n = leidos (TAMANIO_MENSAJE - cant) red cortes"
  define x where "x = escribir cant (take n red) buf"
  note c = leidos_cotas [of "TAMANIO_MENSAJE - cant" red cortes, folded n_def]
  have e: "\<not> (n = 0 \<and> abierta)" "\<not> deja x" "n \<noteq> 0"
    using 1(2) by (auto simp: recibir_mensaje.simps [of _ _ cant] Let_def n_def [symmetric] x_def [symmetric] split: if_splits)
  have lx: "length x = TAMANIO_MENSAJE" using c 1(3,4) unfolding x_def by simp
  show ?case
  proof (cases "cant + n < TAMANIO_MENSAJE")
    case True
    then have "recibir_mensaje deja abierta (cant + n) x (drop n red) (tl cortes) = Completo b red' cs"
      using 1(2) e by (simp add: recibir_mensaje.simps [of _ _ cant] Let_def n_def [symmetric] x_def [symmetric])
    from 1(1) [OF n_def x_def e True this _ lx] show ?thesis using True by simp
  next
    case False
    then have "b = x"
      using 1(2) e by (simp add: recibir_mensaje.simps [of _ _ cant] Let_def n_def [symmetric] x_def [symmetric])
    then show ?thesis using lx by simp
  qed
qed

lemma recibir_bloques_largo:
  "recibir_bloques deja abierta copia tam i n memoria buf red cortes = (m, Completo b red' cs) \<Longrightarrow>
     length buf = TAMANIO_MENSAJE \<Longrightarrow> length memoria = tam \<Longrightarrow> i + n \<le> cantidad_de_bloques tam \<Longrightarrow>
     length m = tam \<and> length b = TAMANIO_MENSAJE"
proof (induction n arbitrary: i memoria buf red cortes)
  case 0
  then show ?case by simp
next
  case (Suc n)
  obtain x red1 cs1 where r: "recibir_mensaje deja abierta 0 buf red cortes = Completo x red1 cs1"
    using Suc.prems(1) by (auto split: recepcion.splits)
  have lx: "length x = TAMANIO_MENSAJE" by (rule recibir_mensaje_largo [OF r _ Suc.prems(2)]) simp
  let ?m = "if copia \<and> tam \<noteq> 0 then escribir (i * DATA_SIZE) (take (largo_bloque tam i) (datos x)) memoria else memoria"
  have "length ?m = tam"
  proof (cases "copia \<and> tam \<noteq> 0")
    case True
    then have "i * DATA_SIZE < tam" using cantidad_de_bloques_cubre(2) [of tam i] Suc.prems(4) by simp
    then have "i * DATA_SIZE + largo_bloque tam i \<le> tam" by (simp add: largo_bloque_def)
    then show ?thesis using True Suc.prems(3) by simp
  qed (use Suc.prems(3) in auto)
  then show ?case using Suc.IH [of "i + 1" ?m x red1 cs1] Suc.prems r lx by (simp del: length_escribir)
qed

lemma wait_token_tardio_largo:
  assumes "wait_token_tardio k tam memoria buf red cortes = (m, Completo b resto cs)" and "k < cantidad_de_bloques tam"
    and "length buf = TAMANIO_MENSAJE" and "length memoria = tam"
  shows "length m = tam \<and> length b = TAMANIO_MENSAJE"
proof -
  obtain m1 b1 r1 c1 where 1: "recibir_bloques (\<lambda>_. False) True True tam 0 k memoria buf red cortes = (m1, Completo b1 r1 c1)"
    using assms(1) by (auto simp: wait_token_tardio_def split: prod.splits recepcion.splits)
  have l: "length m1 = tam \<and> length b1 = TAMANIO_MENSAJE" by (rule recibir_bloques_largo [OF 1]) (use assms in simp_all)
  have 2: "recibir_bloques (\<lambda>_. False) True False tam k (cantidad_de_bloques tam - k) m1 b1 r1 c1 = (m, Completo b resto cs)"
    using assms(1) 1 by (simp add: wait_token_tardio_def)
  show ?thesis by (rule recibir_bloques_largo [OF 2]) (use assms(2) l in simp_all)
qed

text \<open>A value of 0 leaves the memory of the group alone; what an ended process left gives 0.\<close>

lemma recv_token_cero:
  "recv_token False abierta tam mem buf red cortes = Listo (m, 0, b, resto) \<Longrightarrow> m = mem"
  using cantidad_de_bloques_cubre(3) [of tam]
  by (auto simp: recv_token_def DATA_SIZE_def split: prod.splits recepcion.splits)

definition despedida :: "byte list \<Rightarrow> bool" where
  "despedida fin \<longleftrightarrow> fin = [] \<or> length fin = TAMANIO_MENSAJE \<and> take 4 fin = entero_4 (codigo LEAVE)"

lemma despedida_leave: "length b = TAMANIO_MENSAJE \<Longrightarrow> despedida (mensaje_leave b)"
  by (simp add: despedida_def mensaje_leave_def poner_peticion_def escribir_def TAMANIO_MENSAJE_def POS_DATOS_def
      POS_RECURSO_def)

lemma despedida_mensaje:
  assumes "despedida fin" and "sin_leave buf"
  shows "\<exists>b. recibir_mensaje (es_peticion LEAVE) False 0 buf fin cortes \<in> {Dejado b, Cerrado b}"
proof (cases "fin = []")
  case True
  then show ?thesis by (simp add: recibir_mensaje.simps [of _ _ 0] leidos_def Let_def)
next
  case False
  define n where "n = leidos TAMANIO_MENSAJE fin cortes"
  have n: "0 < n" "n \<le> length fin"
    using leidos_pos [OF TAMANIO_MENSAJE_pos False, of cortes] leidos_cotas(2) [of TAMANIO_MENSAJE fin cortes]
    by (simp_all add: n_def)
  have f: "take 4 fin = entero_4 (codigo LEAVE)" "4 \<le> length fin"
    using assms(1) False by (simp_all add: despedida_def TAMANIO_MENSAJE_def POS_DATOS_def POS_RECURSO_def)
  obtain c where c: "take 4 buf = entero_4 c" using assms(2) by (auto simp: sin_leave_def)
  have e: "escribir 0 (take n fin) buf = take n fin @ drop n buf" using n(2) by (simp add: escribir_def)
  have "es_peticion LEAVE (take n fin @ drop n buf)"
    using peticion_mezclada [OF f(1) c n(1) f(2)] by (simp add: es_peticion_def)
  then show ?thesis using n(1) e by (simp add: recibir_mensaje.simps [of _ _ 0] Let_def n_def [symmetric])
qed

lemma recv_token_despedida:
  assumes "despedida fin" and "sin_leave buf"
  shows "\<exists>b resto. recv_token False False tam mem buf fin cortes = Listo (mem, 0, b, resto)"
proof -
  obtain n where n: "cantidad_de_bloques tam = Suc n" using cantidad_de_bloques_cubre(3) [of tam] by (cases "cantidad_de_bloques tam") auto
  obtain b where "recibir_mensaje (es_peticion LEAVE) False 0 buf fin cortes \<in> {Dejado b, Cerrado b}"
    using despedida_mensaje [OF assms] by blast
  then show ?thesis by (auto simp: recv_token_def n)
qed

section \<open>The invariant\<close>

definition memoria_al_dia :: "sis_dist \<Rightarrow> bool" where
  "memoria_al_dia s \<longleftrightarrow> (\<forall>p red. kcom (dcli s p) = K_ida red \<longrightarrow> memoria_compartida (ggrupo (dgrupo s)) = dvalor s)"

definition puede_terminar :: "comunicacion \<Rightarrow> bool" where
  "puede_terminar k \<longleftrightarrow> k = K_espera \<or> (\<exists>red. k = K_ida red) \<or> (\<exists>red. k = K_vuelta red)"

definition salida_ok :: "sis_salida \<Rightarrow> bool" where
  "salida_ok s \<longleftrightarrow>
     (\<forall>p. ysalir s p \<longrightarrow> kapp (dcli (yred s) p) = Ap_afuera \<and> ghs (dgrupo (yred s)) p \<noteq> H_fuera) \<and>
     (\<forall>p fin. yfin s p = Some fin \<longrightarrow> ysalir s p \<and> despedida fin \<and> puede_terminar (kcom (dcli (yred s) p)))"

definition inv_salida :: "nat \<Rightarrow> string \<Rightarrow> nat \<Rightarrow> sis_salida \<Rightarrow> bool" where
  "inv_salida base rec tam s \<longleftrightarrow> inv_dist base rec tam (yred s) \<and> memoria_al_dia (yred s) \<and> salida_ok s"

text \<open>Only one client can have the token's bytes; the others wait or are out.\<close>

lemma ida_con_token:
  assumes "inv_dist base rec tam s" and "ghs (dgrupo s) p = H_token n" and "q \<noteq> p"
  shows "kcom (dcli s q) \<in> {K_fuera, K_espera}"
proof -
  have g: "inv_grupo base rec (dgrupo s)" using assms(1) by (simp add: inv_dist_def)
  then show ?thesis using cli_token [OF assms(1), of q] un_token [OF g assms(2,3)] by blast
qed

lemma sin_token_al_dia:
  assumes "inv_dist base rec tam s" and "lock_token (base + p) (gcola (dgrupo s)) = Listo r"
  shows "memoria_compartida (ggrupo (dgrupo s)) = dvalor s"
proof -
  have g: "inv_grupo base rec (dgrupo s)" and b: "0 < base" using assms(1) by (auto simp: inv_dist_def inv_grupo_def)
  have "ghs (dgrupo s) x \<noteq> H_token y" for x y
    using token_afuera(2) [OF g, of x y] assms(2) lock_token_vacia [of "base + p"] b by auto
  then show ?thesis using assms(1) by (simp add: inv_dist_def)
qed

lemma memoria_al_dia_cli:
  "memoria_al_dia s \<Longrightarrow> (\<And>red. kcom c = K_ida red \<Longrightarrow> kcom (dcli s p) = K_ida red) \<Longrightarrow> memoria_al_dia (poner_cli p c s)"
  by (auto simp: memoria_al_dia_def)

text \<open>With the token at \<open>p\<close>, and no bytes on their way to it, the rest does not matter.\<close>

lemma memoria_al_dia_token:
  assumes "inv_dist base rec tam s" and "ghs (dgrupo s) p = H_token n" and "\<And>red. kcom c \<noteq> K_ida red"
  shows "memoria_al_dia (poner_cli p c (s\<lparr>dgrupo := g, dvalor := v\<rparr>))"
proof -
  have "kcom (dcli s q) \<noteq> K_ida red" if "q \<noteq> p" for q red using ida_con_token [OF assms(1,2) that] by auto
  then show ?thesis using assms(3) by (auto simp: memoria_al_dia_def)
qed

lemma memoria_al_dia_paso: "paso_dist base rec s t \<Longrightarrow> inv_dist base rec tam s \<Longrightarrow> memoria_al_dia s \<Longrightarrow> memoria_al_dia t"
proof (induction rule: paso_dist.induct)
  case (d_manager s t m q g)
  then show ?case using manager_memoria [OF d_manager(2)] by (simp add: memoria_al_dia_def)
next
  case (d_join n s g p)
  then show ?case using join_memoria [OF d_join(4)] by (auto simp: memoria_al_dia_def fin_join_def)
next
  case (d_enviar s p n t q ms b)
  then show ?case
    using sin_token_al_dia [OF d_enviar(4,2)] by (auto simp: memoria_al_dia_def g_bloqueado_def)
next
  case (d_volver s p red n cortes m r b resto)
  show ?case
    using memoria_al_dia_token [OF d_volver(5,2), where c = "(dcli s p)\<lparr>kcom := K_espera, kbuf_b := b\<rparr>" and v = "dvalor s"] by simp
next
  case (d_escribir s p m)
  have k: "kcom (dcli s p) = K_entregado"
    using adentro_entregado [of "dcli s p"] inv_cli [OF d_escribir(3), of p] d_escribir(1) by (simp add: cli_ok_def)
  then obtain n where h: "ghs (dgrupo s) p = H_token n" using cli_token [OF d_escribir(3), of p] by auto
  show ?case
    using memoria_al_dia_token [OF d_escribir(3) h, where c = "(dcli s p)\<lparr>kcopia := m\<rparr>" and g = "dgrupo s" and v = m] k by simp
qed (auto simp: memoria_al_dia_def)

text \<open>What a permitted step of the network keeps of the flags.\<close>

lemma permitida_kapp:
  assumes "hacer_dist base rec a (yred s) = Some t" and "permitida s a" and "ysalir s p"
  shows "kapp (dcli t p) = kapp (dcli (yred s) p)"
  using assms by (cases a) (auto split: if_splits llamada.splits prod.splits sum.splits option.splits handler.splits
      comunicacion.splits aplicacion.splits bool.splits recepcion.splits)

lemma permitida_kcom:
  assumes "hacer_dist base rec a (yred s) = Some t" and "permitida s a" and "yfin s p \<noteq> None"
  shows "kcom (dcli t p) = kcom (dcli (yred s) p) \<or> puede_terminar (kcom (dcli t p))"
  using assms by (cases a) (auto simp: puede_terminar_def split: if_splits llamada.splits prod.splits sum.splits option.splits
      handler.splits comunicacion.splits aplicacion.splits bool.splits recepcion.splits)

lemma permitida_ghs:
  assumes "hacer_dist base rec a s = Some t" and "ghs (dgrupo s) p \<noteq> H_fuera"
  shows "ghs (dgrupo t) p \<noteq> H_fuera"
  using hacer_dist_paso [OF assms(1)] assms(2)
proof (induction rule: paso_dist.induct)
  case (d_manager s t m q g)
  then show ?case using manager_memoria [OF d_manager(2)] by simp
qed (auto simp: fin_join_def g_bloqueado_def g_liberado_def)

lemma inv_s_red:
  assumes inv: "inv_salida base rec tam s" and h: "hacer_dist base rec a (yred s) = Some t" and p: "permitida s a"
  shows "inv_salida base rec tam (s\<lparr>yred := t, yvalor := escrito a (yvalor s)\<rparr>)"
proof -
  note paso = hacer_dist_paso [OF h]
  have i: "inv_dist base rec tam (yred s)" "memoria_al_dia (yred s)" "salida_ok s" using inv by (simp_all add: inv_salida_def)
  have "kapp (dcli t x) = Ap_afuera \<and> ghs (dgrupo t) x \<noteq> H_fuera" if "ysalir s x" for x
    using i(3) that permitida_kapp [OF h p that] permitida_ghs [OF h, of x] by (simp add: salida_ok_def)
  moreover have "ysalir s x \<and> despedida fin \<and> puede_terminar (kcom (dcli t x))" if "yfin s x = Some fin" for x fin
    using i(3) that permitida_kcom [OF h p, of x] by (auto simp: salida_ok_def)
  ultimately have "salida_ok (s\<lparr>yred := t, yvalor := escrito a (yvalor s)\<rparr>)" by (simp add: salida_ok_def)
  then show ?thesis
    using inv_dist_paso [OF paso i(1)] memoria_al_dia_paso [OF paso i(1,2)] by (simp add: inv_salida_def)
qed

text \<open>A change of the flags of \<open>p\<close> only, and one of its client that keeps it outside the lock.\<close>

lemma inv_s_flags:
  assumes inv: "inv_salida base rec tam s" and "kapp (dcli (yred s) p) = Ap_afuera" and "kcom (dcli (yred s) p) \<noteq> K_fuera"
    and "\<And>fin. f = Some fin \<Longrightarrow> despedida fin \<and> puede_terminar (kcom (dcli (yred s) p))"
  shows "inv_salida base rec tam (s\<lparr>ysalir := (ysalir s)(p := True), yfin := (yfin s)(p := f)\<rparr>)"
proof -
  have "ghs (dgrupo (yred s)) p \<noteq> H_fuera"
    using inv_cli [of base rec tam "yred s" p] inv assms(3) by (auto simp: inv_salida_def cli_ok_def enlace_def)
  then show ?thesis using inv assms(2,4) by (auto simp: inv_salida_def salida_ok_def)
qed

lemma inv_s_cli:
  assumes inv: "inv_salida base rec tam s" and "cli_ok rec tam (dvalor (yred s)) (ghs (dgrupo (yred s)) p) c"
    and "kapp c = kapp (dcli (yred s) p)" and "\<And>red. kcom c \<noteq> K_ida red" and "yfin s p = None"
  shows "inv_salida base rec tam (en_red p c s)"
  using inv assms(2-5) inv_dist_cli [of base rec tam "yred s" p c] memoria_al_dia_cli [of "yred s" c p]
  by (auto simp: inv_salida_def salida_ok_def en_red_def)

lemma en_red_poner: "s\<lparr>yred := poner_cli p c (yred s)\<rparr> = en_red p c s"
  by (simp add: en_red_def)

lemma inv_s_tarde:
  assumes inv: "inv_salida base rec tam s" and k: "kcom (dcli (yred s) p) = K_ida red" and "ysalir s p" and "yfin s p = None"
    and w: "wait_token_tardio k tam (kcopia (dcli (yred s) p)) (kbuf_c (dcli (yred s) p)) red cortes = (m, Completo b resto cs)"
    and "k < cantidad_de_bloques tam"
  shows "inv_salida base rec tam (s\<lparr>yred := poner_cli p ((dcli (yred s) p)\<lparr>kcom := K_recibido, kcopia := m, kbuf_c := b\<rparr>)
      ((yred s)\<lparr>dvalor := m\<rparr>)\<rparr>)"
proof -
  let ?c = "(dcli (yred s) p)\<lparr>kcom := K_recibido, kcopia := m, kbuf_c := b\<rparr>"
  have i: "inv_dist base rec tam (yred s)" and o: "salida_ok s" using inv by (simp_all add: inv_salida_def)
  note c = inv_cli [OF i, of p]
  obtain n where h: "ghs (dgrupo (yred s)) p = H_token n" using cli_token [OF i, of p] k by auto
  have l: "length m = tam \<and> length b = TAMANIO_MENSAJE"
    by (rule wait_token_tardio_largo [OF w assms(6)]) (use c in \<open>simp_all add: cli_ok_def bufs_ok_def\<close>)
  have "cli_ok rec tam m (H_token n) ?c" using c k l by (auto simp: cli_defs)
  then have "inv_dist base rec tam (poner_cli p ?c ((yred s)\<lparr>dvalor := m\<rparr>))"
    using inv_dist_valor [OF i h] l by blast
  moreover have "memoria_al_dia (poner_cli p ?c ((yred s)\<lparr>dvalor := m\<rparr>))"
    using memoria_al_dia_token [OF i h, where c = ?c and g = "dgrupo (yred s)" and v = m] by simp
  moreover have "salida_ok (s\<lparr>yred := poner_cli p ?c ((yred s)\<lparr>dvalor := m\<rparr>)\<rparr>)"
    using o assms(4) by (auto simp: salida_ok_def)
  ultimately show ?thesis by (simp add: inv_salida_def)
qed

lemma inv_s_devolver:
  assumes inv: "inv_salida base rec tam s" and k: "kcom (dcli (yred s) p) = K_devolver" and "yfin s p = None"
    and e: "send_token_cliente True tam (kcopia (dcli (yred s) p)) (kbuf_c (dcli (yred s) p)) = (ms, b)"
  shows "inv_salida base rec tam (en_red p ((dcli (yred s) p)\<lparr>kcom := K_vuelta (concat ms), kbuf_c := b\<rparr>) s)"
proof (rule inv_s_cli [OF inv])
  have i: "inv_dist base rec tam (yred s)" using inv by (simp add: inv_salida_def)
  note c = inv_cli [OF i, of p]
  have l: "length (kbuf_c (dcli (yred s) p)) = TAMANIO_MENSAJE" "length (kcopia (dcli (yred s) p)) = tam"
    using c by (simp_all add: cli_ok_def bufs_ok_def)
  show "cli_ok rec tam (dvalor (yred s)) (ghs (dgrupo (yred s)) p) ((dcli (yred s) p)\<lparr>kcom := K_vuelta (concat ms), kbuf_c := b\<rparr>)"
    using c k send_token_cliente_ok(3) [OF l(1), of True "kcopia (dcli (yred s) p)" ms b] e l
    by (auto simp: cli_defs split: handler.splits)
qed (use assms(3) in simp_all)

text \<open>The handler reads the whole return before what the process sent at its end.\<close>

lemma vuelta_leida:
  assumes i: "inv_dist base rec tam s" and k: "kcom (dcli s p) = K_vuelta red"
  obtains b where "\<And>abierta fin cortes. recv_token False abierta tam (memoria_compartida (ggrupo (dgrupo s)))
      (kbuf_b (dcli s p)) (red @ fin) cortes = Listo (dvalor s, cantidad_de_bloques tam * DATA_SIZE, b, fin)"
    and "cantidad_de_bloques tam * DATA_SIZE \<noteq> 0"
proof -
  note c = inv_cli [OF i, of p]
  have v: "length (dvalor s) = tam" "length (memoria_compartida (ggrupo (dgrupo s))) = length (dvalor s)"
    using i by (auto simp: inv_dist_def)
  have b: "length (kbuf_b (dcli s p)) = TAMANIO_MENSAJE" "sin_leave (kbuf_b (dcli s p))"
    using c by (auto simp: cli_ok_def bufs_ok_def)
  obtain salir buf ms b' where t: "length buf = TAMANIO_MENSAJE" "send_token_cliente salir (length (dvalor s)) (dvalor s) buf = (ms, b')"
    "red = concat ms" using c k by (auto simp: cli_ok_def datos_ok_def)
  show thesis
    by (rule that [of "last ms"]) (use recv_completo [OF t(1) b v(2) t(2)] v(1) t(3) in simp_all)
qed

lemma inv_s_volver:
  assumes inv: "inv_salida base rec tam s" and k: "kcom (dcli (yred s) p) = K_vuelta red" and f: "yfin s p = Some fin"
    and h: "ghs (dgrupo (yred s)) p = H_token n"
    and r: "recv_token False False tam (memoria_compartida (ggrupo (dgrupo (yred s)))) (kbuf_b (dcli (yred s) p))
       (red @ fin) cortes = Listo (m, r, b, resto)"
  shows "inv_salida base rec tam (s\<lparr>yred := poner_cli p ((dcli (yred s) p)\<lparr>kcom := K_espera, kbuf_b := b\<rparr>)
      ((yred s)\<lparr>dgrupo := g_liberado rec p n (con_memoria m (dgrupo (yred s)))\<rparr>), yfin := (yfin s)(p := Some resto)\<rparr>)"
proof -
  let ?c = "(dcli (yred s) p)\<lparr>kcom := K_espera, kbuf_b := b\<rparr>" and ?g = "g_liberado rec p n (con_memoria m (dgrupo (yred s)))"
  have i: "inv_dist base rec tam (yred s)" and o: "salida_ok s" using inv by (simp_all add: inv_salida_def)
  have tam: "length (memoria_compartida (ggrupo (dgrupo (yred s)))) = tam" using i by (simp add: inv_dist_def)
  obtain b' where v: "\<And>abierta fin cortes. recv_token False abierta tam (memoria_compartida (ggrupo (dgrupo (yred s))))
      (kbuf_b (dcli (yred s) p)) (red @ fin) cortes = Listo (dvalor (yred s), cantidad_de_bloques tam * DATA_SIZE, b', fin)"
    using vuelta_leida [OF i k] by metis
  have e: "m = dvalor (yred s)" "b = b'" "resto = fin" using r v [of False fin cortes] by simp_all
  have "inv_dist base rec tam (poner_cli p ?c ((yred s)\<lparr>dgrupo := ?g\<rparr>))"
    using inv_d_volver [OF i k h, of "[]"] v [of True "[]" "[]"] tam e by simp
  moreover have "memoria_al_dia (poner_cli p ?c ((yred s)\<lparr>dgrupo := ?g\<rparr>))"
    using memoria_al_dia_token [OF i h, where c = ?c and g = ?g and v = "dvalor (yred s)"] by simp
  moreover have "salida_ok (s\<lparr>yred := poner_cli p ?c ((yred s)\<lparr>dgrupo := ?g\<rparr>), yfin := (yfin s)(p := Some resto)\<rparr>)"
    using o f e(3) h by (auto simp: salida_ok_def g_liberado_def puede_terminar_def)
  ultimately show ?thesis by (simp add: inv_salida_def)
qed

text \<open>A handler that leaves: the group loses its client, the memory stays, the place is new.\<close>

lemma leave_mem: "leave n g = Listo (g', u) \<Longrightarrow> memoria_compartida g' = memoria_compartida g"
  by (auto simp: leave_def con_mutex_def split: if_splits option.splits)

lemma cliente_inicial_ok: "rec \<noteq> [] \<Longrightarrow> cliente_inicial tam k \<Longrightarrow> cli_ok rec tam v H_fuera k"
  using nota_vacia [of rec]
  by (auto simp: cliente_inicial_def crear_memoria_distribuida_def crear_semset_def crear_control_def
      numeral_2_eq_2 cli_defs)

lemma inv_s_salir:
  assumes inv: "inv_salida base rec tam s" and k: "kcom (dcli (yred s) p) = K_ida red" and c: "cliente_inicial tam c"
    and e: "salir_grupo rec p c (memoria_compartida (ggrupo (dgrupo (yred s)))) s = Some t"
  shows "inv_salida base rec tam t"
proof -
  have i: "inv_dist base rec tam (yred s)" and a: "memoria_al_dia (yred s)" and o: "salida_ok s"
    using inv by (simp_all add: inv_salida_def)
  obtain n g where h: "ghs (dgrupo (yred s)) p = H_token n" and l: "leave n (ggrupo (dgrupo (yred s))) = Listo (g, ())"
    and t: "t = fin_deja rec p g c s"
    using e by (auto simp: salir_grupo_def split: handler.splits llamada.splits)
  let ?g = "fin_leave rec p g (dgrupo (yred s))"
  have ig: "inv_grupo base rec (dgrupo (yred s))" and rec: "rec \<noteq> []" using i by (auto simp: inv_dist_def)
  have g': "inv_grupo base rec ?g" by (rule inv_grupo_leave [OF ig h l])
  have m: "memoria_compartida (ggrupo ?g) = dvalor (yred s)"
    using a k leave_mem [OF l] unfolding memoria_al_dia_def fin_leave_def by auto
  have "cli_ok rec tam (dvalor (yred s)) (ghs ?g q) (dcli (poner_cli p c ((yred s)\<lparr>dgrupo := ?g\<rparr>)) q)" for q
    using inv_cli [OF i, of q] cliente_inicial_ok [OF rec c] by (simp add: fin_leave_def)
  then have "inv_dist base rec tam (poner_cli p c ((yred s)\<lparr>dgrupo := ?g\<rparr>))"
    using i g' m by (simp add: inv_dist_def)
  moreover have "memoria_al_dia (poner_cli p c ((yred s)\<lparr>dgrupo := ?g\<rparr>))"
    using m by (simp add: memoria_al_dia_def)
  moreover have "salida_ok (fin_deja rec p g c s)" using o by (auto simp: salida_ok_def fin_deja_def fin_leave_def)
  ultimately show ?thesis unfolding t by (simp add: inv_salida_def fin_deja_def)
qed

lemma inv_salida_paso:
  assumes "hacer_salida base rec tam a s = Some t" and inv: "inv_salida base rec tam s"
  shows "inv_salida base rec tam t"
proof (cases a)
  case (Y_red x)
  then show ?thesis using assms(1) inv_s_red [OF inv] by (auto split: if_splits option.splits)
next
  case (Y_senal p)
  have "s\<lparr>ysalir := (ysalir s)(p := True)\<rparr> = s\<lparr>ysalir := (ysalir s)(p := True), yfin := (yfin s)(p := None)\<rparr>"
    if "yfin s p = None" using that by (simp add: fun_upd_idem)
  then show ?thesis using Y_senal assms(1) inv_s_flags [OF inv, of p None] by (auto simp: vive_def split: if_splits)
next
  case (Y_interrumpe p)
  then show ?thesis using assms(1) inv_s_flags [OF inv, of p "Some []"]
    by (auto simp: vive_def despedida_def puede_terminar_def split: if_splits comunicacion.splits)
next
  case (Y_termina p b)
  have e: "s\<lparr>yfin := f\<rparr> = s\<lparr>ysalir := (ysalir s)(p := True), yfin := f\<rparr>" if "ysalir s p" for f
    using that by (simp add: fun_upd_idem)
  have "kapp (dcli (yred s) p) = Ap_afuera" if "ysalir s p" using inv that by (auto simp: inv_salida_def salida_ok_def)
  then show ?thesis using Y_termina assms(1) e inv_s_flags [OF inv, of p "Some (mensaje_leave b)"] despedida_leave [of b]
    by (auto simp: vive_def puede_terminar_def split: if_splits comunicacion.splits)
next
  case (Y_tarde p k cortes)
  then show ?thesis using assms(1) inv_s_tarde [OF inv]
    by (auto split: if_splits comunicacion.splits recepcion.splits prod.splits)
next
  case (Y_devolver p)
  then show ?thesis using assms(1) inv_s_devolver [OF inv] by (auto split: if_splits prod.splits)
next
  case (Y_volver p cortes)
  then show ?thesis using assms(1) inv_s_volver [OF inv]
    by (auto split: if_splits prod.splits llamada.splits comunicacion.splits option.splits handler.splits)
next
  case (Y_deja p cortes c)
  then obtain red m b resto fin where "kcom (dcli (yred s) p) = K_ida red" "cliente_inicial tam c"
    "recv_token False False tam (memoria_compartida (ggrupo (dgrupo (yred s)))) (kbuf_b (dcli (yred s) p)) fin cortes =
      Listo (m, 0, b, resto)" "salir_grupo rec p c m s = Some t"
    using assms(1) by (auto split: if_splits prod.splits llamada.splits comunicacion.splits option.splits)
  then show ?thesis using inv_s_salir [OF inv] recv_token_cero by metis
next
  case (Y_falla p c)
  then show ?thesis using assms(1) inv_s_salir [OF inv]
    by (auto split: if_splits comunicacion.splits option.splits)
qed

lemma inv_salida_ini: "ini_salida base rec tam s \<Longrightarrow> inv_salida base rec tam s"
  using inv_dist_ini [of base rec tam "yred s"]
  by (auto simp: ini_salida_def inv_salida_def salida_ok_def memoria_al_dia_def ini_dist_def cliente_inicial_def)

definition salida_alcanzable :: "nat \<Rightarrow> string \<Rightarrow> nat \<Rightarrow> sis_salida \<Rightarrow> bool" where
  "salida_alcanzable base rec tam = alcanzable (ini_salida base rec tam) (paso_salida base rec tam)"

interpretation salida: sistema_ejecutable "ini_salida base rec tam" "paso_salida base rec tam" "inv_salida base rec tam"
    "hacer_salida base rec tam"
  for base :: nat and rec :: string and tam :: nat
  by unfold_locales (auto simp: paso_salida_def intro: inv_salida_ini inv_salida_paso)

lemma salida_alcanzable_inv: "salida_alcanzable base rec tam s \<Longrightarrow> inv_salida base rec tam s"
  unfolding salida_alcanzable_def by (rule salida.inv_alcanzable)

section \<open>A run\<close>

text \<open>
  Two clients join; the second one writes 8, 9 and gives the token back. The first one is told
  to leave just before it reads the token: it gives back the zeros its segment had.
\<close>

definition corrida_salida :: "accion_salida list" where
  "corrida_salida = map Y_red [B_join ''a'', B_join ''b'', B_manager, B_pedir 1, B_enviar 1, B_recibir 1 [400], B_comparar 1,
     B_entrar 1, B_limpiar 1, B_escribir 1 [8, 9], B_soltar 1, B_liberar 1, B_esperar 1, B_devolver 1, B_volver 1 [],
     B_manager] @ [Y_senal 0, Y_red (B_enviar 0), Y_tarde 0 0 [400], Y_red (B_comparar 0), Y_devolver 0,
     Y_termina 0 buffer_ejemplo, Y_volver 0 [100]]"

definition salida_ejemplo :: sis_salida where
  "salida_ejemplo = \<lparr>yred = dist_ejemplo, ysalir = (\<lambda>_. False), yfin = (\<lambda>_. None), yvalor = [5, 6]\<rparr>"

lemma salida_ejemplo_ini: "ini_salida 51 ''m'' 2 salida_ejemplo"
  using dist_ejemplo_ini by (simp add: ini_salida_def salida_ejemplo_def dist_ejemplo_def)

definition estado_salida :: sis_salida where
  "estado_salida = the (ejecutar (hacer_salida 51 ''m'' 2) corrida_salida salida_ejemplo)"

lemma corrida_salida_valores:
  "case ejecutar (hacer_salida 51 ''m'' 2) corrida_salida salida_ejemplo of
     None \<Rightarrow> False
   | Some s \<Rightarrow> memoria_compartida (ggrupo (dgrupo (yred s))) = [0, 0] \<and> yvalor s = [8, 9] \<and> yfin s 0 \<noteq> None \<and>
       ghs (dgrupo (yred s)) 0 = H_espera ''a'' \<and> ghs (dgrupo (yred s)) 1 = H_espera ''b''"
  by code_simp

definition corrida_termina :: "accion_salida list" where
  "corrida_termina = take 18 corrida_salida @ [Y_termina 0 buffer_ejemplo]"

definition estado_termina :: sis_salida where
  "estado_termina = the (ejecutar (hacer_salida 51 ''m'' 2) corrida_termina salida_ejemplo)"

definition estado_escribe :: sis_salida where
  "estado_escribe = the (ejecutar (hacer_salida 51 ''m'' 2) (take 10 corrida_salida) salida_ejemplo)"

lemma corrida_termina_valores:
  "case ejecutar (hacer_salida 51 ''m'' 2) corrida_termina salida_ejemplo of
     None \<Rightarrow> False
   | Some s \<Rightarrow> yfin s 0 = Some (mensaje_leave buffer_ejemplo) \<and> ghs (dgrupo (yred s)) 0 = H_token ''a'' \<and>
       memoria_compartida (ggrupo (dgrupo (yred s))) = [8, 9] \<and> dvalor (yred s) = [8, 9] \<and>
       (case kcom (dcli (yred s) 0) of K_ida red \<Rightarrow> True | _ \<Rightarrow> False)"
  by code_simp

lemma corrida_escribe_valores:
  "case ejecutar (hacer_salida 51 ''m'' 2) (take 10 corrida_salida) salida_ejemplo of
     None \<Rightarrow> False
   | Some s \<Rightarrow> kapp (dcli (yred s) 1) = Ap_adentro \<and> dvalor (yred s) = [8, 9] \<and> yvalor s = [8, 9]"
  by code_simp

lemma corrida_alcanzable:
  assumes "ejecutar (hacer_salida 51 ''m'' 2) as salida_ejemplo = Some s"
  shows "salida_alcanzable 51 ''m'' 2 s"
  unfolding salida_alcanzable_def by (rule salida.ejecutar_inicio [OF salida_ejemplo_ini assms])

lemma estado_salida_ok:
  "salida_alcanzable 51 ''m'' 2 estado_salida" "memoria_compartida (ggrupo (dgrupo (yred estado_salida))) = [0, 0]"
  "yvalor estado_salida = [8, 9]" "ghs (dgrupo (yred estado_salida)) 0 = H_espera ''a''"
  "ghs (dgrupo (yred estado_salida)) 1 = H_espera ''b''" "yfin estado_salida 0 \<noteq> None"
  using corrida_salida_valores corrida_alcanzable [of corrida_salida]
  by (auto simp: estado_salida_def split: option.splits)

lemma estado_termina_ok:
  "salida_alcanzable 51 ''m'' 2 estado_termina" "memoria_compartida (ggrupo (dgrupo (yred estado_termina))) = [8, 9]"
  "yfin estado_termina 0 = Some (mensaje_leave buffer_ejemplo)" "ghs (dgrupo (yred estado_termina)) 0 = H_token ''a''"
  "dvalor (yred estado_termina) = [8, 9]" "\<exists>red. kcom (dcli (yred estado_termina) 0) = K_ida red"
  using corrida_termina_valores corrida_alcanzable [of corrida_termina]
  by (auto simp: estado_termina_def split: option.splits comunicacion.splits)

lemma cliente_ejemplo_inicial: "cliente_inicial 2 cliente_ejemplo"
  using dist_ejemplo_ini by (simp add: ini_dist_def dist_ejemplo_def)

lemma estado_escribe_ok:
  "salida_alcanzable 51 ''m'' 2 estado_escribe" "kapp (dcli (yred estado_escribe) 1) = Ap_adentro"
  "dvalor (yred estado_escribe) = [8, 9]" "yvalor estado_escribe = [8, 9]"
  using corrida_escribe_valores corrida_alcanzable [of "take 10 corrida_salida"]
  by (auto simp: estado_escribe_def split: option.splits)

section \<open>Who can undo what was written\<close>

lemma hacer_dist_valor: "hacer_dist base rec a s = Some t \<Longrightarrow> dvalor t = escrito a (dvalor s)"
  by (cases a) (auto split: if_splits llamada.splits prod.splits sum.splits option.splits handler.splits
      comunicacion.splits aplicacion.splits bool.splits recepcion.splits)

lemma salir_grupo_valor: "salir_grupo rec p k m s = Some t \<Longrightarrow> dvalor (yred t) = dvalor (yred s) \<and> yvalor t = yvalor s"
  by (auto simp: salir_grupo_def fin_deja_def split: handler.splits llamada.splits)

lemma pisa_tarde:
  assumes "hacer_salida base rec tam a s = Some t" and "dvalor (yred s) = yvalor s" and "dvalor (yred t) \<noteq> yvalor t"
  shows "\<exists>p red. ysalir s p \<and> kcom (dcli (yred s) p) = K_ida red \<and> kcom (dcli (yred t) p) = K_recibido"
proof (cases a)
  case (Y_red x)
  then show ?thesis using assms hacer_dist_valor [of base rec x "yred s"] by (auto split: if_splits option.splits)
next
  case (Y_tarde p k cortes)
  then show ?thesis using assms(1) by (fastforce split: if_splits comunicacion.splits recepcion.splits prod.splits)
next
  case (Y_deja p cortes c)
  then show ?thesis using assms salir_grupo_valor [of rec p c _ s t]
    by (auto split: if_splits comunicacion.splits option.splits llamada.splits prod.splits)
next
  case (Y_falla p c)
  then show ?thesis using assms salir_grupo_valor [of rec p c _ s t]
    by (auto split: if_splits comunicacion.splits option.splits llamada.splits prod.splits)
qed (use assms in \<open>auto simp: en_red_def vive_def
    split: if_splits comunicacion.splits option.splits llamada.splits prod.splits handler.splits\<close>)

text \<open>The handler of an ended process can leave at once.\<close>

lemma salir_grupo_listo:
  assumes i: "inv_dist base rec tam (yred s)" and h: "ghs (dgrupo (yred s)) p = H_token n"
  shows "\<exists>g. salir_grupo rec p k (memoria_compartida (ggrupo (dgrupo (yred s)))) s = Some (fin_deja rec p g k s) \<and>
    memoria_compartida g = memoria_compartida (ggrupo (dgrupo (yred s))) \<and> client_names g ! p = []"
proof -
  let ?g = "ggrupo (dgrupo (yred s))"
  have g: "inv_grupo base rec (dgrupo (yred s))" using i by (simp add: inv_dist_def)
  have p: "p < MAX_CLIENTS" by (rule token_afuera(1) [OF g h])
  have ok: "clientes_ok ?g" and m: "mutex_grupo ?g \<noteq> 0" and hs: "handlers_ok (client_names ?g) (ghs (dgrupo (yred s)))"
    using g by (auto simp: inv_grupo_def tabla_ok_def)
  have n: "client_names ?g ! p = take MAX_NOMBRE_RECURSO n" "n \<noteq> []"
    using hs p h by (auto simp: handlers_ok_def nombre_de_def)
  have "p < length (client_names ?g)" using ok p by (simp add: clientes_ok_def)
  then show ?thesis using leave_ok [OF ok m p n] h
    by (intro exI [of _ "?g\<lparr>client_names := (client_names ?g)[p := []], cant_clientes := cant_clientes ?g - 1\<rparr>"])
      (simp add: salir_grupo_def)
qed

section \<open>Properties\<close>

text \<open>
  C23. With clients that leave: at most one application is inside the lock, and it is not one
  that left; it sees what the network holds, which is in the memory of the group when nobody
  has the token. What the network holds is what was last written under the lock until a
  client that was told to leave reads a token.
\<close>

theorem salida_memoria:
  assumes "salida_alcanzable base rec tam s"
  shows "(\<forall>p q. kapp (dcli (yred s) p) \<in> {Ap_concedido, Ap_adentro, Ap_libera} \<and>
      kapp (dcli (yred s) q) \<in> {Ap_concedido, Ap_adentro, Ap_libera} \<longrightarrow> p = q) \<and>
    (\<forall>p. kapp (dcli (yred s) p) = Ap_adentro \<longrightarrow> kcopia (dcli (yred s) p) = dvalor (yred s) \<and> \<not> ysalir s p) \<and>
    ((\<forall>p n. ghs (dgrupo (yred s)) p \<noteq> H_token n) \<longrightarrow>
       memoria_compartida (ggrupo (dgrupo (yred s))) = dvalor (yred s)) \<and>
    (\<forall>t. paso_salida base rec tam s t \<and> dvalor (yred s) = yvalor s \<and> dvalor (yred t) \<noteq> yvalor t \<longrightarrow>
       (\<exists>p red. ysalir s p \<and> kcom (dcli (yred s) p) = K_ida red \<and> kcom (dcli (yred t) p) = K_recibido))"
proof (intro conjI allI impI; (elim conjE)?)
  have inv: "inv_dist base rec tam (yred s)" and o: "salida_ok s"
    using salida_alcanzable_inv [OF assms] by (simp_all add: inv_salida_def)
  have tok: "\<exists>n. ghs (dgrupo (yred s)) p = H_token n" if "kapp (dcli (yred s) p) \<in> {Ap_concedido, Ap_adentro, Ap_libera}" for p
    using adentro_entregado [of "dcli (yred s) p"] inv_cli [OF inv, of p] that cli_token [OF inv, of p]
    by (auto simp: cli_ok_def)
  show "p = q" if "kapp (dcli (yred s) p) \<in> {Ap_concedido, Ap_adentro, Ap_libera}"
    "kapp (dcli (yred s) q) \<in> {Ap_concedido, Ap_adentro, Ap_libera}" for p q
    using tok [OF that(1)] tok [OF that(2)] un_token inv unfolding inv_dist_def by blast
  show "kcopia (dcli (yred s) p) = dvalor (yred s)" if "kapp (dcli (yred s) p) = Ap_adentro" for p
    using adentro_entregado [of "dcli (yred s) p"] inv_cli [OF inv, of p] that by (simp add: cli_ok_def datos_ok_def)
  show "\<not> ysalir s p" if "kapp (dcli (yred s) p) = Ap_adentro" for p using o that by (auto simp: salida_ok_def)
  show "memoria_compartida (ggrupo (dgrupo (yred s))) = dvalor (yred s)" if "\<forall>p n. ghs (dgrupo (yred s)) p \<noteq> H_token n"
    using inv that by (simp add: inv_dist_def)
  show "\<exists>p red. ysalir s p \<and> kcom (dcli (yred s) p) = K_ida red \<and> kcom (dcli (yred t) p) = K_recibido"
    if "paso_salida base rec tam s t" "dvalor (yred s) = yvalor s" "dvalor (yred t) \<noteq> yvalor t" for t
    using that pisa_tarde by (auto simp: paso_salida_def)
qed

theorem salida_memoria_witness:
  "kcopia (dcli (yred estado_escribe) 1) = [8, 9] \<and> kapp (dcli (yred estado_escribe) 1) = Ap_adentro \<and>
   \<not> ysalir estado_escribe 1"
  using salida_memoria [OF estado_escribe_ok(1)] estado_escribe_ok(2,3) by simp

text \<open>
  And it happens: in a reachable state nobody has the token, the memory of the group holds the
  zeros of the client that left, and what was last written under the lock is 8, 9.
\<close>

theorem salida_pisa:
  "salida_alcanzable 51 ''m'' 2 estado_salida \<and> memoria_compartida (ggrupo (dgrupo (yred estado_salida))) = [0, 0] \<and>
   yvalor estado_salida = [8, 9] \<and> ghs (dgrupo (yred estado_salida)) 0 = H_espera ''a'' \<and>
   ghs (dgrupo (yred estado_salida)) 1 = H_espera ''b''"
  using estado_salida_ok by simp

text \<open>
  C24. A process that ended does not keep the token of a distributed memory: when its handler has
  it, either the memory the process gave back before its end becomes that of the group, or,
  however the socket cuts the bytes, the handler leaves: the memory stays, the place in the
  table is free and the token goes to the token manager.
\<close>

theorem salida_suelta:
  assumes "salida_alcanzable base rec tam s" and "yfin s p = Some fin" and "ghs (dgrupo (yred s)) p = H_token n"
  shows "(\<exists>red. kcom (dcli (yred s) p) = K_vuelta red \<and>
      (\<forall>cortes. \<exists>t. hacer_salida base rec tam (Y_volver p cortes) s = Some t \<and> ghs (dgrupo (yred t)) p = H_espera n \<and>
        memoria_compartida (ggrupo (dgrupo (yred t))) = dvalor (yred s) \<and>
        gmgr (dgrupo (yred t)) = release_token rec (gmgr (dgrupo (yred s))))) \<or>
    (\<exists>red. kcom (dcli (yred s) p) = K_ida red \<and>
      (\<forall>cortes c. cliente_inicial tam c \<longrightarrow> (\<exists>t. hacer_salida base rec tam (Y_deja p cortes c) s = Some t \<and>
        ghs (dgrupo (yred t)) p = H_fuera \<and> client_names (ggrupo (dgrupo (yred t))) ! p = [] \<and>
        memoria_compartida (ggrupo (dgrupo (yred t))) = dvalor (yred s) \<and>
        gmgr (dgrupo (yred t)) = release_token rec (gmgr (dgrupo (yred s))))))"
proof -
  have inv: "inv_dist base rec tam (yred s)" and o: "salida_ok s" and al: "memoria_al_dia (yred s)"
    using salida_alcanzable_inv [OF assms(1)] by (simp_all add: inv_salida_def)
  have d: "despedida fin" and pt: "puede_terminar (kcom (dcli (yred s) p))"
    using o assms(2) by (auto simp: salida_ok_def)
  have sl: "sin_leave (kbuf_b (dcli (yred s) p))" using inv_cli [OF inv, of p] by (simp add: cli_ok_def bufs_ok_def)
  have "kcom (dcli (yred s) p) \<noteq> K_espera"
    using inv_cli [OF inv, of p] assms(3) by (auto simp: cli_ok_def enlace_def)
  with pt consider red where "kcom (dcli (yred s) p) = K_ida red" | red where "kcom (dcli (yred s) p) = K_vuelta red"
    by (auto simp: puede_terminar_def)
  then show ?thesis
  proof cases
    case 1
    have m: "memoria_compartida (ggrupo (dgrupo (yred s))) = dvalor (yred s)" using al 1 by (auto simp: memoria_al_dia_def)
    have "\<exists>t. hacer_salida base rec tam (Y_deja p cortes c) s = Some t \<and>
        ghs (dgrupo (yred t)) p = H_fuera \<and> client_names (ggrupo (dgrupo (yred t))) ! p = [] \<and>
        memoria_compartida (ggrupo (dgrupo (yred t))) = dvalor (yred s) \<and>
        gmgr (dgrupo (yred t)) = release_token rec (gmgr (dgrupo (yred s)))" if "cliente_inicial tam c" for cortes c
      using recv_token_despedida [OF d sl, of tam "dvalor (yred s)" cortes] salir_grupo_listo [OF inv assms(3), of c] 1 m
        assms(2) that
      by (auto simp: fin_deja_def fin_leave_def)
    then show ?thesis using 1 by blast
  next
    case 2
    obtain b where v: "\<And>fin cortes. recv_token False False tam (memoria_compartida (ggrupo (dgrupo (yred s))))
      (kbuf_b (dcli (yred s) p)) (red @ fin) cortes = Listo (dvalor (yred s), cantidad_de_bloques tam * DATA_SIZE, b, fin)"
      "cantidad_de_bloques tam * DATA_SIZE \<noteq> 0" using vuelta_leida [OF inv 2] by metis
    have "\<exists>t. hacer_salida base rec tam (Y_volver p cortes) s = Some t \<and> ghs (dgrupo (yred t)) p = H_espera n \<and>
        memoria_compartida (ggrupo (dgrupo (yred t))) = dvalor (yred s) \<and>
        gmgr (dgrupo (yred t)) = release_token rec (gmgr (dgrupo (yred s)))" for cortes
      using 2 assms(2,3) v by (simp add: g_liberado_def)
    then show ?thesis using 2 by blast
  qed
qed

theorem salida_suelta_witness:
  "\<exists>t. hacer_salida 51 ''m'' 2 (Y_deja 0 [1, 2] cliente_ejemplo) estado_termina = Some t \<and>
     ghs (dgrupo (yred t)) 0 = H_fuera \<and> memoria_compartida (ggrupo (dgrupo (yred t))) = [8, 9]"
  using salida_suelta [OF estado_termina_ok(1,3,4)] estado_termina_ok(5,6) cliente_ejemplo_inicial by fastforce

end
