(* ===== verification/Lazos.thy ===== *)
theory Lazos
  imports Reconexion
begin

text \<open>
  The control flow of the four loops of a distributed semaphore or mutex under signals and
  errors: the parent and the child of \<^verbatim>\<open>local_broker_comm\<close> with \<^verbatim>\<open>leave\<close>
  (\<^verbatim>\<open>clientes/local_broker_comm.cpp\<close>), and those of the client handler
  (\<^verbatim>\<open>local_broker/client_handler.cpp\<close>). Each loop is a function of how its blocking calls end,
  one after the other; what a token does to the queues and semaphores is in
  \<open>SemaforoDistribuido\<close>.
\<close>

section \<open>Signals\<close>

datatype senal = SIGUSR1 | SIGUSR2 | SIGTERM | SIGINT

text \<open>
  Both programs call \<^verbatim>\<open>ignore_signals\<close> (\<^verbatim>\<open>os/daemon.cpp\<close>) before these loops: the handler of
  \<^verbatim>\<open>SIGTERM\<close> and \<^verbatim>\<open>SIGINT\<close> is an empty function, also where \<^verbatim>\<open>ClientHandler\<close> had registered its
  own; the call that was blocked still fails with \<^verbatim>\<open>EINTR\<close>.
\<close>

fun handleSignal :: "senal \<Rightarrow> int \<Rightarrow> int" where
  "handleSignal SIGUSR1 salir = 1"
| "handleSignal SIGUSR2 salir = 2"
| "handleSignal SIGTERM salir = salir"
| "handleSignal SIGINT salir = salir"

text \<open>
  How a blocking call ends: with its result, with an error, or with \<^verbatim>\<open>EINTR\<close> after the handler of
  a signal ran. \<open>Senal\<close> is a signal that interrupts nothing: it arrives after the test of the
  loop, while the process runs, and only its handler does something. The test of a loop comes at
  once after the call that ends its round: a signal between the two does what it does just before
  the call ends.
\<close>

datatype 'm espera = Llega 'm | Error_so | Interrumpida senal | Senal senal

datatype fin_lazo = En_espera | Termina int | Muere

section \<open>The communication process\<close>

datatype entrega = Al_semaforo | De_vuelta

text \<open>
  \<^verbatim>\<open>loop_semaforo_padre\<close>, \<^verbatim>\<open>loop_mutex_padre\<close>: it reads a token (\<open>Llega False\<close>: nothing, the broker
  closed), asks the note whether it is waited for (\<^verbatim>\<open>comparar_token\<close>, with a mutex of its own) and
  hands it to the semaphore or back. \<^verbatim>\<open>wait_token\<close> catches an interrupted read; nobody catches
  one of the other two, so that the exception leaves the loop and \<^verbatim>\<open>main\<close>.
\<close>

datatype fase_padre = Lee | Compara | Entrega bool

fun loop_padre :: "fase_padre \<Rightarrow> int \<Rightarrow> bool espera list \<Rightarrow> entrega list \<times> fin_lazo" where
  "loop_padre f salir [] = ([], En_espera)"
| "loop_padre f salir (Senal g # es) = loop_padre f (handleSignal g salir) es"
| "loop_padre f salir (Error_so # es) = ([], Termina 1)"
| "loop_padre Lee salir (Llega leido # es) = (if leido then loop_padre Compara salir es else ([], Termina 1))"
| "loop_padre Lee salir (Interrumpida g # es) =
     (if handleSignal g salir \<noteq> 0 then ([], Termina (handleSignal g salir)) else loop_padre Lee 0 es)"
| "loop_padre Compara salir (Llega esperado # es) = loop_padre (Entrega esperado) salir es"
| "loop_padre Compara salir (Interrumpida g # es) = ([], Muere)"
| "loop_padre (Entrega esperado) salir (Llega x # es) =
     (let (xs, f) = (if salir \<noteq> 0 then ([], Termina salir) else loop_padre Lee salir es)
      in ((if esperado then Al_semaforo else De_vuelta) # xs, f))"
| "loop_padre (Entrega esperado) salir (Interrumpida g # es) = ([], Muere)"

text \<open>
  \<^verbatim>\<open>loop_semaforo_hijo\<close>, \<^verbatim>\<open>loop_mutex_hijo\<close>: waits for a token of the application and sends it
  (\<open>Llega True\<close>, or \<open>Llega False\<close> when the send fails). Nothing catches an interrupted wait:
  the exception leaves \<^verbatim>\<open>main\<close>. The number of tokens sent, and whether it ends by \<^verbatim>\<open>leave\<close>.
\<close>

fun loop_hijo :: "int \<Rightarrow> bool espera list \<Rightarrow> nat \<times> fin_lazo" where
  "loop_hijo salir [] = (0, En_espera)"
| "loop_hijo salir (Senal g # es) = loop_hijo (handleSignal g salir) es"
| "loop_hijo salir (Error_so # es) = (0, Termina salir)"
| "loop_hijo salir (Interrumpida g # es) = (0, Muere)"
| "loop_hijo salir (Llega enviado # es) =
     (if \<not> enviado then (0, Termina salir)
      else let (n, f) = (if salir \<noteq> 0 then (0, Termina salir) else loop_hijo salir es) in (Suc n, f))"

text \<open>
  \<^verbatim>\<open>leave\<close>: the requests it sends, the first one \<open>p\<close>, for the answers it reads (nothing when
  the socket fails), and whether it returned. With a memory it does not read.
\<close>

fun leave_comm :: "bool \<Rightarrow> peticion \<Rightarrow> respuesta option list \<Rightarrow> peticion list \<times> bool" where
  "leave_comm True p rs = ([p], True)"
| "leave_comm False p [] = ([p], False)"
| "leave_comm False p (None # rs) = ([p], True)"
| "leave_comm False p (Some r # rs) =
     (if r = LEAVE_OK then ([p], True)
      else let (ps, fin) = leave_comm False (if r = R_TOKEN then TOKEN_LEAVE else LEAVE) rs in (p # ps, fin))"

text \<open>
  The loops of a mutex are copies of these.
\<close>

definition loop_mutex_padre :: "bool espera list \<Rightarrow> entrega list \<times> fin_lazo" where
  "loop_mutex_padre es = loop_padre Lee 0 es"

definition loop_mutex_hijo :: "bool espera list \<Rightarrow> nat \<times> fin_lazo" where
  "loop_mutex_hijo es = loop_hijo 0 es"

text \<open>
  \<^verbatim>\<open>loop_semaforo\<close>, \<^verbatim>\<open>loop_mutex\<close>: the parent ends, signals its child and waits for it. The
  results: the requests the child sends with \<^verbatim>\<open>leave\<close>, if it gets there, and whether the parent returns.
  A child that an error ended with the flag at 0 leaves and connects again, by itself.
\<close>

definition fin_comm :: "bool espera list \<Rightarrow> bool espera list \<Rightarrow> respuesta option list \<Rightarrow> peticion list \<times> bool" where
  "fin_comm padre hijo rs =
     (case snd (loop_padre Lee 0 padre) of
        Termina _ \<Rightarrow>
          (case snd (loop_hijo 0 hijo) of
             Termina n \<Rightarrow> (fst (leave_comm False LEAVE rs), snd (leave_comm False LEAVE rs) \<and> n \<noteq> 0)
           | Muere \<Rightarrow> ([], True) | En_espera \<Rightarrow> ([], False))
      | _ \<Rightarrow> ([], False))"

section \<open>The client handler\<close>

text \<open>
  \<^verbatim>\<open>loop_semaforo_padre\<close>: it reads a message, which is a token unless its request is
  \<^verbatim>\<open>LEAVE\<close>, and releases the token (\<open>soltando\<close>; any \<open>Llega\<close> is then that release). An interrupted
  read overwrites the flag with 2; the release is outside the \<^verbatim>\<open>try\<close>. The tokens released, and how
  it ends: an error of the socket leaves the flag at 0.
\<close>

datatype lectura = L_nada | L_leave | L_token

fun handler_padre :: "bool \<Rightarrow> int \<Rightarrow> lectura espera list \<Rightarrow> nat \<times> fin_lazo" where
  "handler_padre soltando salir [] = (0, En_espera)"
| "handler_padre soltando salir (Senal g # es) = handler_padre soltando (handleSignal g salir) es"
| "handler_padre False salir (Llega L_nada # es) = (0, Termina 2)"
| "handler_padre False salir (Llega L_leave # es) = (0, Termina 1)"
| "handler_padre False salir (Llega L_token # es) = handler_padre True salir es"
| "handler_padre False salir (Error_so # es) = (0, Termina salir)"
| "handler_padre False salir (Interrumpida g # es) = (0, Termina (if handleSignal g salir \<noteq> 3 then 2 else 3))"
| "handler_padre True salir (Llega x # es) =
     (let (n, f) = (if salir \<noteq> 0 then (0, Termina salir) else handler_padre False salir es) in (Suc n, f))"
| "handler_padre True salir (Error_so # es) = (0, Muere)"
| "handler_padre True salir (Interrumpida g # es) = (0, Muere)"

text \<open>What the parent sends to its child when it ends, before it waits for it.\<close>

definition senal_al_hijo :: "int \<Rightarrow> senal option" where
  "senal_al_hijo salir =
     (if salir = 2 then Some SIGUSR2 else if salir = 1 then Some SIGUSR1 else if salir = 3 then Some SIGTERM else None)"

text \<open>
  \<^verbatim>\<open>loop_semaforo_hijo\<close>: how \<^verbatim>\<open>lock_token\<close> ends, and how \<^verbatim>\<open>send_token_sem\<close> ends after a
  token: sent, an error of the socket, or interrupted. The flags it leaves:
  \<^verbatim>\<open>salir\<close>, \<^verbatim>\<open>tengo_token\<close>, \<^verbatim>\<open>chequear_asignacion\<close>.
\<close>

datatype envio = Enviado | Roto | Cortado senal

definition vuelta_hijo :: "int \<Rightarrow> bool \<Rightarrow> bool \<Rightarrow> nat \<times> (int \<times> bool \<times> bool) option \<times> fin_lazo \<Rightarrow>
    nat \<times> (int \<times> bool \<times> bool) option \<times> fin_lazo" where
  "vuelta_hijo salir tengo chequear sigue =
     (if salir \<noteq> 0 then (0, Some (salir, tengo, chequear), Termina salir) else sigue)"

fun handler_hijo ::
  "int \<Rightarrow> bool \<Rightarrow> bool \<Rightarrow> envio espera list \<Rightarrow> nat \<times> (int \<times> bool \<times> bool) option \<times> fin_lazo" where
  "handler_hijo salir tengo chequear [] = (0, None, En_espera)"
| "handler_hijo salir tengo chequear (Senal g # es) = handler_hijo (handleSignal g salir) tengo chequear es"
| "handler_hijo salir tengo chequear (Error_so # es) = (0, None, Muere)"
| "handler_hijo salir tengo chequear (Interrumpida g # es) =
     vuelta_hijo (handleSignal g salir) False True (handler_hijo (handleSignal g salir) False True es)"
| "handler_hijo salir tengo chequear (Llega Enviado # es) =
     (let (n, r) = vuelta_hijo salir False chequear (handler_hijo salir False chequear es) in (Suc n, r))"
| "handler_hijo salir tengo chequear (Llega Roto # es) =
     (0, Some (if salir \<noteq> 3 then 2 else salir, True, chequear), Termina (if salir \<noteq> 3 then 2 else salir))"
| "handler_hijo salir tengo chequear (Llega (Cortado g) # es) =
     vuelta_hijo (handleSignal g salir) True False (handler_hijo (handleSignal g salir) True False es)"

section \<open>When a parent ends\<close>

definition pide_salir :: "senal \<Rightarrow> bool" where
  "pide_salir g \<longleftrightarrow> g = SIGUSR1 \<or> g = SIGUSR2"

lemma handleSignal_cero: "(handleSignal g 0 = 0) = (\<not> pide_salir g)"
  by (cases g) (simp_all add: pide_salir_def)

lemma handleSignal_sigue: "salir \<noteq> 0 \<Longrightarrow> handleSignal g salir \<noteq> 0"
  by (cases g) simp_all

text \<open>
  The results of the calls of a run; three make a round, whose token goes where the second one
  says. Counting from the read, with \<open>k\<close> results before and a signal that asks to end or not,
  whether an event ends the loop.
\<close>

definition resultados :: "bool espera list \<Rightarrow> bool list" where
  "resultados es = [b. Llega b \<leftarrow> es]"

fun rondas :: "bool list \<Rightarrow> entrega list" where
  "rondas (leido # esperado # x # bs) = (if esperado then Al_semaforo else De_vuelta) # rondas bs"
| "rondas _ = []"

fun corta :: "nat \<Rightarrow> bool \<Rightarrow> bool espera \<Rightarrow> bool" where
  "corta k pedido (Llega b) = (k mod 3 = 0 \<and> \<not> b \<or> k mod 3 = 2 \<and> pedido)"
| "corta k pedido Error_so = True"
| "corta k pedido (Interrumpida g) = (k mod 3 \<noteq> 0 \<or> pide_salir g \<or> pedido)"
| "corta k pedido (Senal g) = False"

definition pide :: "bool espera list \<Rightarrow> bool" where
  "pide es \<longleftrightarrow> Senal SIGUSR1 \<in> set es \<or> Senal SIGUSR2 \<in> set es"

fun para :: "nat \<Rightarrow> bool \<Rightarrow> bool espera list \<Rightarrow> bool" where
  "para k pedido [] = False"
| "para k pedido (e # es) =
     (corta k pedido e \<or> para (k + length (resultados [e])) (pedido \<or> pide [e]) es)"

lemma resultados_simps [simp]:
  "resultados [] = []" "resultados (Llega b # es) = b # resultados es"
  "resultados (Error_so # es) = resultados es" "resultados (Interrumpida g # es) = resultados es"
  "resultados (Senal g # es) = resultados es" "resultados (xs @ ys) = resultados xs @ resultados ys"
  by (simp_all add: resultados_def)

lemma length_resultados_Cons: "length (resultados (e # es)) = length (resultados [e]) + length (resultados es)"
  by (cases e) simp_all

lemma pide_simps [simp]:
  "\<not> pide []" "pide (Llega b # es) = pide es" "pide (Error_so # es) = pide es"
  "pide (Interrumpida g # es) = pide es" "pide (Senal g # es) = (pide_salir g \<or> pide es)"
  by (auto simp: pide_def pide_salir_def)

lemma corta_tres: "corta (k + 3) pedido e = corta k pedido e"
  by (cases e) simp_all

lemma para_tres: "para (k + 3) pedido es = para k pedido es"
proof (induction es arbitrary: k pedido)
  case (Cons e es)
  have "k + 3 + n = k + n + 3" for n by simp
  then show ?case by (simp only: para.simps corta_tres Cons.IH)
qed simp

lemma para_ronda [simp]: "para (Suc (Suc (Suc 0))) pedido es = para 0 pedido es"
  using para_tres [of 0 pedido es] by (simp add: numeral_3_eq_3)

lemma dos_mod_tres [simp]: "Suc (Suc 0) mod 3 = 2" "Suc 0 mod 3 = 1"
  by simp_all

text \<open>A run ends at its first event that ends it.\<close>

lemma corta_Cons:
  "corta (k + length (resultados (e # xs))) (pedido \<or> pide (e # xs)) x =
   corta (k + length (resultados [e]) + length (resultados xs)) ((pedido \<or> pide [e]) \<or> pide xs) x"
  by (cases e) (simp_all add: disj_assoc)

lemma para_cualquiera:
  "corta (k + length (resultados xs)) (pedido \<or> pide xs) x \<Longrightarrow> para k pedido (xs @ x # ys)"
proof (induction xs arbitrary: k pedido)
  case (Cons e xs)
  then show ?case unfolding corta_Cons by simp
qed simp

lemma para_primero:
  "para k pedido es \<Longrightarrow> \<exists>xs x ys. es = xs @ x # ys \<and> \<not> para k pedido xs \<and>
     corta (k + length (resultados xs)) (pedido \<or> pide xs) x"
proof (induction es arbitrary: k pedido)
  case (Cons e es)
  show ?case
  proof (cases "corta k pedido e")
    case True
    then show ?thesis by (intro exI [of _ "[]"] exI [of _ e] exI [of _ es]) simp
  next
    case False
    with Cons.prems have "para (k + length (resultados [e])) (pedido \<or> pide [e]) es" by simp
    from Cons.IH [OF this] obtain xs x ys where "es = xs @ x # ys"
      "\<not> para (k + length (resultados [e])) (pedido \<or> pide [e]) xs"
      "corta (k + length (resultados [e]) + length (resultados xs)) ((pedido \<or> pide [e]) \<or> pide xs) x" by blast
    then show ?thesis using False unfolding corta_Cons [symmetric]
      by (intro exI [of _ "e # xs"] exI [of _ x] exI [of _ ys]) simp
  qed
qed simp

text \<open>The phase says how many results of its round are in, and which.\<close>

fun hechos :: "fase_padre \<Rightarrow> bool list" where
  "hechos Lee = []"
| "hechos Compara = [True]"
| "hechos (Entrega b) = [True, b]"

lemma loop_padre_para:
  "snd (loop_padre f salir es) \<noteq> En_espera \<longleftrightarrow> para (length (hechos f)) (salir \<noteq> 0) es"
proof (induction f salir es rule: loop_padre.induct)
  case (2 f salir g es)
  then show ?case using handleSignal_cero [of g] handleSignal_sigue [of salir g] by (cases "salir = 0") auto
next
  case (5 salir g es)
  then show ?case using handleSignal_cero [of g] handleSignal_sigue [of salir g] by (cases "salir = 0") auto
next
  case (8 b salir x es)
  then show ?case by (auto split: prod.split)
qed auto

lemma loop_padre_entregas:
  "\<not> para (length (hechos f)) (salir \<noteq> 0) es \<Longrightarrow> fst (loop_padre f salir es) = rondas (hechos f @ resultados es)"
proof (induction f salir es rule: loop_padre.induct)
  case (1 f salir)
  then show ?case by (cases f) simp_all
next
  case (2 f salir g es)
  then show ?case using handleSignal_cero [of g] handleSignal_sigue [of salir g] by (cases "salir = 0") auto
next
  case (5 salir g es)
  then show ?case using handleSignal_cero [of g] by (cases "salir = 0") auto
next
  case (8 b salir x es)
  then show ?case by (auto split: prod.split)
qed auto

lemma loop_padre_fin:
  "\<not> para (length (hechos f)) (salir \<noteq> 0) xs \<Longrightarrow>
   corta (length (hechos f) + length (resultados xs)) (salir \<noteq> 0 \<or> pide xs) x \<Longrightarrow>
     fst (loop_padre f salir (xs @ x # ys)) = rondas (hechos f @ resultados (xs @ [x])) \<and>
     (snd (loop_padre f salir (xs @ x # ys)) = Muere \<longleftrightarrow>
       (\<exists>g. x = Interrumpida g) \<and> (length (hechos f) + length (resultados xs)) mod 3 \<noteq> 0)"
proof (induction f salir xs rule: loop_padre.induct)
  case (1 f salir)
  show ?case
  proof (cases x)
    case (Interrumpida g)
    then show ?thesis using 1 handleSignal_cero [of g] handleSignal_sigue [of salir g] by (cases f; cases "salir = 0") auto
  qed (use 1 in \<open>cases f; auto\<close>)+
next
  case (2 f salir g es)
  then show ?case using handleSignal_cero [of g] handleSignal_sigue [of salir g] by (cases "salir = 0") auto
next
  case (5 salir g es)
  then show ?case using handleSignal_cero [of g] by (cases "salir = 0") auto
next
  case (8 b salir y es)
  have "corta (Suc (Suc (Suc (length (resultados es))))) p x = corta (length (resultados es)) p x" for p
    using corta_tres [of "length (resultados es)" p x] by (simp add: numeral_3_eq_3)
  moreover have "Suc (Suc (Suc (length (resultados es)))) mod 3 = length (resultados es) mod 3"
    by presburger
  ultimately show ?case using 8 by (auto split: prod.split)
qed auto

lemma loop_padre_nunca_cero: "snd (loop_padre f salir es) \<noteq> Termina 0"
proof (induction f salir es rule: loop_padre.induct)
  case (8 b salir x es)
  then show ?case by (cases "salir = 0") (simp_all add: case_prod_beta)
qed simp_all

section \<open>Properties\<close>

text \<open>
  C31. The end of the parent of a distributed semaphore or mutex, for any sequence of results,
  errors and signals of its calls, three to a round: the read, the comparison with the note, the
  delivery. It ends exactly when a call fails, the broker closes, a signal interrupts the comparison
  or the delivery, \<^verbatim>\<open>SIGUSR1\<close> or \<^verbatim>\<open>SIGUSR2\<close> interrupts the read, or one of these came before and
  the read is interrupted or a delivery ends the round: it does not read again. Until then it
  delivers each token once, where the note says, in order. At that event it has delivered the
  complete rounds and nothing else, and it dies of the exception, with the token in its hands,
  exactly when the event is the interruption of the comparison or the delivery; so \<^verbatim>\<open>SIGTERM\<close>,
  which the destructor of a distributed mutex sends before it waits for this process, can only
  end it that way. It never ends with the flag at 0, as the loop around it expects, so it does
  not reconnect.
\<close>

theorem lazo_padre_termina:
  "(snd (loop_padre Lee 0 es) \<noteq> En_espera \<longleftrightarrow>
     (\<exists>xs x ys. es = xs @ x # ys \<and>
        (x = Error_so \<or>
         x = Llega False \<and> length (resultados xs) mod 3 = 0 \<or>
         (\<exists>g. x = Interrumpida g \<and> length (resultados xs) mod 3 \<noteq> 0) \<or>
         x \<in> {Interrumpida SIGUSR1, Interrumpida SIGUSR2} \<or>
         (Senal SIGUSR1 \<in> set xs \<or> Senal SIGUSR2 \<in> set xs) \<and>
           ((\<exists>g. x = Interrumpida g) \<or> (\<exists>b. x = Llega b) \<and> length (resultados xs) mod 3 = 2)))) \<and>
   (snd (loop_padre Lee 0 es) = En_espera \<longrightarrow> fst (loop_padre Lee 0 es) = rondas (resultados es)) \<and>
   (snd (loop_padre Lee 0 es) \<noteq> En_espera \<longrightarrow>
     (\<exists>xs x ys. es = xs @ x # ys \<and> snd (loop_padre Lee 0 xs) = En_espera \<and> snd (loop_padre Lee 0 (xs @ [x])) \<noteq> En_espera \<and>
        fst (loop_padre Lee 0 es) = rondas (resultados (xs @ [x])) \<and>
        (snd (loop_padre Lee 0 es) = Muere \<longleftrightarrow> (\<exists>g. x = Interrumpida g) \<and> length (resultados xs) mod 3 \<noteq> 0))) \<and>
   snd (loop_padre Lee 0 es) \<noteq> Termina 0"
proof -
  note fin = loop_padre_para [of Lee 0, simplified]
  have c: "corta (length (resultados xs)) (pide xs) x \<longleftrightarrow>
        (x = Error_so \<or> x = Llega False \<and> length (resultados xs) mod 3 = 0 \<or>
         (\<exists>g. x = Interrumpida g \<and> length (resultados xs) mod 3 \<noteq> 0) \<or>
         x \<in> {Interrumpida SIGUSR1, Interrumpida SIGUSR2} \<or>
         (Senal SIGUSR1 \<in> set xs \<or> Senal SIGUSR2 \<in> set xs) \<and>
           ((\<exists>g. x = Interrumpida g) \<or> (\<exists>b. x = Llega b) \<and> length (resultados xs) mod 3 = 2))" for xs x
    by (cases x) (auto simp: pide_def pide_salir_def)
  have "para 0 False es \<longleftrightarrow> (\<exists>xs x ys. es = xs @ x # ys \<and> corta (length (resultados xs)) (pide xs) x)"
    using para_primero [of 0 False es] para_cualquiera [of 0 _ False] by fastforce
  moreover have "\<exists>xs x ys. es = xs @ x # ys \<and> snd (loop_padre Lee 0 xs) = En_espera \<and>
        snd (loop_padre Lee 0 (xs @ [x])) \<noteq> En_espera \<and>
        fst (loop_padre Lee 0 es) = rondas (resultados (xs @ [x])) \<and>
        (snd (loop_padre Lee 0 es) = Muere \<longleftrightarrow> (\<exists>g. x = Interrumpida g) \<and> length (resultados xs) mod 3 \<noteq> 0)"
    if p: "para 0 False es"
  proof -
    obtain xs x ys where x: "es = xs @ x # ys" "\<not> para 0 False xs" "corta (length (resultados xs)) (pide xs) x"
      using para_primero [OF p] by auto
    have "para 0 False (xs @ [x])" using para_cualquiera [of 0 xs False x "[]"] x(3) by simp
    then show ?thesis using x loop_padre_fin [of Lee 0 xs x ys] fin [of xs] fin [of "xs @ [x]"]
      by (intro exI [of _ xs] exI [of _ x] exI [of _ ys]) simp
  qed
  ultimately show ?thesis
    unfolding c [symmetric] using fin [of es] loop_padre_entregas [of Lee 0 es] loop_padre_nunca_cero by auto
qed

theorem lazo_padre_termina_witness:
  "snd (loop_padre Lee 0 [Llega True, Llega False, Senal SIGUSR1, Llega True, Llega True]) \<noteq> En_espera \<and>
   loop_padre Lee 0 [Llega True, Llega True, Llega True, Interrumpida SIGTERM, Llega True, Llega False] = ([Al_semaforo], En_espera)"
  using lazo_padre_termina [of "[Llega True, Llega False, Senal SIGUSR1, Llega True, Llega True]"]
    lazo_padre_termina [of "[Llega True, Llega True, Llega True, Interrumpida SIGTERM, Llega True, Llega False]"]
  by (simp add: prod_eq_iff)

text \<open>
  The child answers to \<^verbatim>\<open>R_TOKEN_CHECK\<close>, as to anything but a token, with another \<^verbatim>\<open>LEAVE\<close>: only
  a token it reads while it leaves is given back.
\<close>

theorem leave_respuesta:
  assumes "leave_comm False p rs = (ps, fin)"
  shows "\<exists>qs. ps = p # qs \<and> length qs \<le> length rs \<and>
    (\<forall>i < length qs. qs ! i = (if rs ! i = Some R_TOKEN then TOKEN_LEAVE else LEAVE))"
  using assms
proof (induction "False" p rs arbitrary: ps fin rule: leave_comm.induct)
  case (4 p r rs)
  show ?case
  proof (cases "r = LEAVE_OK")
    case True
    then show ?thesis using 4(2) by (intro exI [of _ "[]"]) simp
  next
    case False
    obtain qs f where e: "leave_comm False (if r = R_TOKEN then TOKEN_LEAVE else LEAVE) rs = (qs, f)" by fastforce
    obtain qs' where q: "qs = (if r = R_TOKEN then TOKEN_LEAVE else LEAVE) # qs'" "length qs' \<le> length rs"
      "\<forall>i < length qs'. qs' ! i = (if rs ! i = Some R_TOKEN then TOKEN_LEAVE else LEAVE)"
      using 4(1) [OF False e] by auto
    have "ps = p # qs" using 4(2) False e by simp
    then show ?thesis using q by (auto simp: nth_Cons split: nat.splits)
  qed
qed auto

text \<open>
  So a token that the application of a leaving client kept is lost: the answer to the check is
  \<^verbatim>\<open>LEAVE\<close>, and a child of the handler that was interrupted waits for a token that is not in its
  queue.
\<close>

theorem token_retenido:
  assumes "lock_token cola q = Bloqueado"
  shows "snd (leave_comm False LEAVE [Some R_TOKEN_CHECK, Some LEAVE_OK]) \<and>
    chequear_status_salida_hijo rec cola 1 True tengo True
      (Some (fst (leave_comm False LEAVE [Some R_TOKEN_CHECK, Some LEAVE_OK]) ! 1)) (q, m) = Bloqueado"
  using assms by (simp add: chequear_status_salida_hijo_def)

text \<open>
  A client that ends without \<^verbatim>\<open>leave\<close>, as when \<^verbatim>\<open>SIGUSR1\<close> interrupts its child in the wait for the
  application, closes the connection; then the handler ends with 2, its child too, and the
  token last given to the client goes back to the token manager.
\<close>

theorem salida_sin_leave:
  assumes "\<forall>x \<in> set es. x = Llega Enviado"
  shows "fin_comm [Interrumpida SIGUSR1] [Interrumpida SIGUSR1] rs = ([], True) \<and>
    handler_padre False 0 [Llega L_nada] = (0, Termina 2) \<and> senal_al_hijo 2 = Some SIGUSR2 \<and>
    handler_hijo 0 tengo chequear (es @ [Interrumpida SIGUSR2]) = (length es, Some (2, False, True), Termina 2) \<and>
    chequear_status_salida_hijo rec cola 2 asignado False True contesta (q, m) =
      Listo (if asignado then (q, release_token rec m) else (q, m))"
proof -
  have "handler_hijo 0 t c (es @ [Interrumpida SIGUSR2]) = (length es, Some (2, False, True), Termina 2)" for t c
    using assms by (induction es arbitrary: t c) (auto simp: vuelta_hijo_def)
  then show ?thesis by (simp add: fin_comm_def senal_al_hijo_def chequear_status_salida_hijo_def devolver_token_def)
qed

text \<open>
  When the socket of the handler fails (a reset connection) before any signal, the flag stays
  at 0: nobody signals the child, which waits for tokens as before, and the parent waits for it.
\<close>

theorem handler_sin_senal:
  assumes "\<forall>x \<in> set hs. x = Llega Enviado"
  shows "handler_padre False 0 (concat (replicate n [Llega L_token, Llega soltado]) @ Error_so # resto) = (n, Termina 0) \<and>
    senal_al_hijo 0 = None \<and> handler_hijo 0 tengo chequear hs = (length hs, None, En_espera)"
proof -
  have "handler_padre False 0 (concat (replicate n [Llega L_token, Llega soltado]) @ Error_so # resto) = (n, Termina 0)"
    by (induction n) auto
  moreover have "handler_hijo 0 tengo chequear hs = (length hs, None, En_espera)"
    using assms by (induction hs arbitrary: tengo) (auto simp: vuelta_hijo_def)
  ultimately show ?thesis by (simp add: senal_al_hijo_def)
qed

text \<open>
  A signal that interrupts the comparison with the note kills the parent with the token: here
  \<^verbatim>\<open>SIGTERM\<close>, which the program meant to ignore.
\<close>

theorem sigterm_en_la_nota:
  "loop_padre Lee 0 [Llega True, Interrumpida SIGTERM] = ([], Muere) \<and> fin_comm [Llega True, Interrumpida SIGTERM] hijo rs = ([], False)"
  by (simp add: fin_comm_def)

end
