(* ===== verification/Lanzamiento.thy ===== *)
theory Lanzamiento
  imports Lazos AnilloBrokers
begin

text \<open>
  How an application starts the process that talks to the broker: the paths
  (\<^verbatim>\<open>locate_dir\<close>, \<^verbatim>\<open>relativize_dir\<close> and \<^verbatim>\<open>cp\<close> of \<^verbatim>\<open>os/dir.cpp\<close>), the arguments
  (\<^verbatim>\<open>lanzar_comunicacion\<close> of the three classes of \<^verbatim>\<open>clientes/\<close>) and what \<^verbatim>\<open>main\<close> and the
  constructor of \<^verbatim>\<open>clientes/local_broker_comm.cpp\<close> read from them. \<open>existe\<close> is \<^verbatim>\<open>stat\<close>.
\<close>

section \<open>Paths\<close>

text \<open>\<^verbatim>\<open>strrchr(s, '/')\<close>: the text up to it, with it, and the text after it.\<close>

definition hasta_barra :: "string \<Rightarrow> string option" where
  "hasta_barra s = (if CHR ''/'' \<in> set s then Some (rev (dropWhile (\<lambda>c. c \<noteq> CHR ''/'') (rev s))) else None)"

definition tras_barra :: "string \<Rightarrow> string option" where
  "tras_barra s = (if CHR ''/'' \<in> set s then Some (rev (takeWhile (\<lambda>c. c \<noteq> CHR ''/'') (rev s))) else None)"

definition locate_dir :: "(string \<Rightarrow> bool) \<Rightarrow> string \<Rightarrow> string \<Rightarrow> string llamada" where
  "locate_dir existe current_working_dir dir =
     (if existe (current_working_dir @ ''/'' @ dir) then Listo (current_working_dir @ ''/'' @ dir)
      else case hasta_barra current_working_dir of
             None \<Rightarrow> Fallo Fuera_de_rango
           | Some base \<Rightarrow> if existe (base @ dir) then Listo (base @ dir) else Fallo GenericError)"

text \<open>The loop that skips what the two directories share, character by character.\<close>

fun sin_comun :: "string \<Rightarrow> string \<Rightarrow> string \<times> string" where
  "sin_comun (a # as) (b # bs) = (if a = b then sin_comun as bs else (a # as, b # bs))"
| "sin_comun as bs = (as, bs)"

definition subir :: "string \<Rightarrow> string" where
  "subir s = (case hasta_barra s of Some t \<Rightarrow> t | None \<Rightarrow> s)"

text \<open>
  \<open>relativo\<close> is what the result holds before the call, and keeps when the directory is not of
  the form \<^verbatim>\<open>./\<close> or the launch directory has no slash.
\<close>

definition relativize_dir :: "string \<Rightarrow> string \<Rightarrow> string \<Rightarrow> string \<Rightarrow> string llamada" where
  "relativize_dir relativo directorio_de_trabajo launch_dir current_dir =
     (case tras_barra launch_dir of
        None \<Rightarrow> Listo relativo
      | Some dir \<Rightarrow>
          if take 2 directorio_de_trabajo \<noteq> ''./'' then Listo relativo
          else let dir_cmp = drop 2 directorio_de_trabajo
               in if take (length dir) dir_cmp = dir
                  then (if CHR ''/'' \<in> set dir_cmp
                        then Listo (''./'' @ tl (dropWhile (\<lambda>c. c \<noteq> CHR ''/'') dir_cmp)) else Fallo Fuera_de_rango)
                  else case sin_comun current_dir launch_dir of
                         (base1, base2) \<Rightarrow>
                           let r = (if base2 \<noteq> [] then subir launch_dir else launch_dir @ ''/'');
                               r = foldl (\<lambda>t c. if c = CHR ''/'' then subir t else t) r base2
                           in Listo (r @ (if base1 \<noteq> [] then base1 @ ''/'' else []) @ directorio_de_trabajo))"

section \<open>Copy of a file\<close>

text \<open>
  The inner loop of \<^verbatim>\<open>cp\<close>, for the results of \<^verbatim>\<open>write\<close> (\<open>None\<close> is an error): the call takes
  \<^verbatim>\<open>buf\<close>, not \<^verbatim>\<open>out_ptr\<close>, each time. What goes to the file, and the results left, or
  \<open>None\<close> while it loops.
\<close>

fun cp_bloque :: "'b list \<Rightarrow> nat \<Rightarrow> nat option list \<Rightarrow> 'b list \<times> nat option list option" where
  "cp_bloque buf nread [] = ([], None)"
| "cp_bloque buf nread (None # ws) = cp_bloque buf nread ws"
| "cp_bloque buf nread (Some k # ws) =
     (let w = min k nread
      in if w < nread then (let (xs, r) = cp_bloque buf (nread - w) ws in (take w buf @ xs, r)) else (take nread buf, Some ws))"

text \<open>\<^verbatim>\<open>cp\<close> on the blocks that \<^verbatim>\<open>read\<close> gives, none of them empty.\<close>

fun cp :: "'b list list \<Rightarrow> nat option list \<Rightarrow> 'b list option" where
  "cp [] ws = Some []"
| "cp (b # bs) ws =
     (case cp_bloque b (length b) ws of
        (xs, Some ws') \<Rightarrow> map_option (\<lambda>ys. xs @ ys) (cp bs ws') | (xs, None) \<Rightarrow> None)"

section \<open>The arguments\<close>

definition FILENAME_MAX :: nat where
  "FILENAME_MAX = 4096"

definition snprintf_s :: "nat \<Rightarrow> string \<Rightarrow> string" where
  "snprintf_s n s = take (n - 1) s"

text \<open>The three classes: each adds its own arguments at the end.\<close>

datatype tipo_ipc = SHAREDMEMORY | MUTEX | SEMAFORO int int

fun args_tipo :: "tipo_ipc \<Rightarrow> string list" where
  "args_tipo SHAREDMEMORY = []"
| "args_tipo MUTEX = [''mutex'']"
| "args_tipo (SEMAFORO num_sem cant_sems) = [''sem'', snprintf_s 6 (texto_int num_sem), snprintf_s 6 (texto_int cant_sems)]"

definition lanzar_comunicacion ::
  "(string \<Rightarrow> bool) \<Rightarrow> string \<Rightarrow> string \<Rightarrow> string \<Rightarrow> string \<Rightarrow> string \<Rightarrow> int \<Rightarrow> nat \<Rightarrow> tipo_ipc \<Rightarrow> string list llamada" where
  "lanzar_comunicacion existe cwd directorio_de_trabajo nombre_aplicacion brokers_file nom_grupo ident tamanio clase =
     (case locate_dir existe cwd ''clientes'' of
        Listo launch_dir \<Rightarrow>
          (case relativize_dir (snprintf_s FILENAME_MAX directorio_de_trabajo) directorio_de_trabajo launch_dir cwd of
             Listo directorio \<Rightarrow>
               (case relativize_dir (snprintf_s FILENAME_MAX brokers_file) brokers_file launch_dir cwd of
                  Listo brokers \<Rightarrow>
                    Listo ([''local_broker_comm'', directorio, snprintf_s 64 nombre_aplicacion, brokers, snprintf_s 64 nom_grupo,
                       snprintf_s 4 (texto_int ident), snprintf_s 10 (texto_int (int tamanio))] @ args_tipo clase)
                | Fallo e \<Rightarrow> Fallo e | Bloqueado \<Rightarrow> Bloqueado)
           | Fallo e \<Rightarrow> Fallo e | Bloqueado \<Rightarrow> Bloqueado)
      | Fallo e \<Rightarrow> Fallo e | Bloqueado \<Rightarrow> Bloqueado)"

text \<open>The mutex, and each semaphore of a set, whose groups are the name of the set and their number.\<close>

definition lanzar_mutex ::
  "(string \<Rightarrow> bool) \<Rightarrow> string \<Rightarrow> string \<Rightarrow> string \<Rightarrow> string \<Rightarrow> string \<Rightarrow> int \<Rightarrow> string list llamada" where
  "lanzar_mutex existe cwd directorio app brokers g ident = lanzar_comunicacion existe cwd directorio app brokers g ident 0 MUTEX"

definition grupo_semaforo :: "string \<Rightarrow> nat \<Rightarrow> string" where
  "grupo_semaforo nombre n = nombre @ decimal n"

definition lanzar_semaforos ::
  "(string \<Rightarrow> bool) \<Rightarrow> string \<Rightarrow> string \<Rightarrow> string \<Rightarrow> string \<Rightarrow> string \<Rightarrow> int \<Rightarrow> int \<Rightarrow> nat list \<Rightarrow> string list llamada list" where
  "lanzar_semaforos existe cwd directorio app brokers nombre ident cant numeros =
     map (\<lambda>n. lanzar_comunicacion existe cwd directorio app brokers (grupo_semaforo nombre n) ident 0
       (SEMAFORO (int n) cant)) numeros"

section \<open>What the process reads\<close>

text \<open>
  \<^verbatim>\<open>main\<close>: the name of the application, the group, the identifier, the size and the type.
  \<open>otro\<close> is the type when the eighth argument is neither: the variable is not initialised.
\<close>

definition main_comm :: "tipo_ipc \<Rightarrow> string list \<Rightarrow> (string \<times> string \<times> int \<times> nat \<times> tipo_ipc) llamada" where
  "main_comm otro argv =
     (if length argv < 7 then Fallo Fuera_de_rango
      else let tamanio = nat (atoi (argv ! 6))
           in if tamanio \<noteq> 0 then Listo (argv ! 2, argv ! 4, atoi (argv ! 5), tamanio, SHAREDMEMORY)
              else if length argv = 7 then Fallo Fuera_de_rango
              else if take 5 (argv ! 7) = ''mutex'' then Listo (argv ! 2, argv ! 4, atoi (argv ! 5), tamanio, MUTEX)
              else if take 3 (argv ! 7) = ''sem''
              then (if length argv < 10 then Fallo Fuera_de_rango
                    else Listo (argv ! 2, argv ! 4, atoi (argv ! 5), tamanio, SEMAFORO (atoi (argv ! 8)) (atoi (argv ! 9))))
              else Listo (argv ! 2, argv ! 4, atoi (argv ! 5), tamanio, otro))"

text \<open>
  The constructor of \<^verbatim>\<open>LocalBrokerComm\<close> takes the digits off the end of the group of a
  semaphore. A name of digits only has no end.
\<close>

definition nombre_semaforo :: "string \<Rightarrow> string llamada" where
  "nombre_semaforo grupo =
     (if list_all es_digito grupo then Fallo Fuera_de_rango else Listo (rev (dropWhile es_digito (rev grupo))))"

text \<open>
  \<^verbatim>\<open>obtener_lista_de_brokers\<close>: the first line is skipped, then
  \<^verbatim>\<open>fscanf("%[^:]:%[^\n]\n")\<close> until the end of the file. A turn that reads no name answers 0,
  not \<^verbatim>\<open>EOF\<close>, and the loop does not end (\<open>None\<close>); one that reads no service keeps the last one.
\<close>

definition fin_linea :: char where
  "fin_linea = CHR 0x0A"

definition saltear_linea :: "string \<Rightarrow> string" where
  "saltear_linea s = (if s = [] \<or> hd s = fin_linea then s else dropWhile espacio (dropWhile (\<lambda>c. c \<noteq> fin_linea) s))"

definition anotar_broker :: "string \<Rightarrow> string \<Rightarrow> (string \<times> string) list llamada option \<Rightarrow> (string \<times> string) list llamada option" where
  "anotar_broker h v r =
     (if MAX_NOMBRE_RECURSO \<le> length h \<or> 10 \<le> length v then Some (Fallo Fuera_de_rango)
      else case r of Some (Listo bs) \<Rightarrow> Some (Listo ((h, v) # bs)) | _ \<Rightarrow> r)"

function leer_brokers :: "string \<Rightarrow> string \<Rightarrow> (string \<times> string) list llamada option" where
  "leer_brokers viejo s =
     (let h = takeWhile (\<lambda>c. c \<noteq> CHR '':'') s; r = dropWhile (\<lambda>c. c \<noteq> CHR '':'') s;
          v = takeWhile (\<lambda>c. c \<noteq> fin_linea) (tl r); r' = dropWhile (\<lambda>c. c \<noteq> fin_linea) (tl r)
      in if s = [] then Some (Listo [])
         else if h = [] then None
         else if v = [] then anotar_broker h viejo (leer_brokers viejo (tl r))
         else anotar_broker h v (leer_brokers v (dropWhile espacio r')))"
  by pat_completeness auto
termination
proof (relation "measure (\<lambda>(v, s). length s)", goal_cases)
  case (2 viejo s h r v r')
  have "length r \<le> length s" using 2(2) by (simp add: length_dropWhile_le)
  then show ?case using 2(5) by (cases r; cases s) auto
next
  case (3 viejo s h r v r')
  have "length r \<le> length s" "length r' \<le> length (tl r)" unfolding 3(2,4) by (rule length_dropWhile_le)+
  moreover have "length (dropWhile espacio r') \<le> length r'" by (rule length_dropWhile_le)
  ultimately show ?case using 3(5) by (cases r; cases s) auto
qed simp

declare leer_brokers.simps [simp del]

definition obtener_lista_de_brokers :: "string \<Rightarrow> string \<Rightarrow> (string \<times> string) list llamada option" where
  "obtener_lista_de_brokers service archivo = leer_brokers service (saltear_linea archivo)"

section \<open>Other programs started with arguments\<close>

text \<open>
  The tower, for each row of the query (flight, flight it connects with) with the mutex of the
  information of the flights (not called by any program of this commit); the controller of a
  flight, whose arrays have 6 characters; the generator of the connecting luggage, with
  \<^verbatim>\<open>processes\<close> in place of \<^verbatim>\<open>clientes\<close>; and the two programs of the ring for each group.
\<close>

definition lanzar_notificadores_de_vuelos_de_intercargo :: "string \<Rightarrow> (int \<times> int) list \<Rightarrow> int \<Rightarrow> string list list" where
  "lanzar_notificadores_de_vuelos_de_intercargo path filas numero_vuelo =
     [[''notificador_descarga'', path, snprintf_s 10 (texto_int numero_vuelo), snprintf_s 10 (texto_int destino)].
        (origen, destino) \<leftarrow> filas, origen = numero_vuelo]"

definition notificar_llegada_vuelo ::
  "string \<Rightarrow> (int \<times> int) list \<Rightarrow> int \<Rightarrow> nat \<Rightarrow> semset \<Rightarrow> (string list list \<times> semset) llamada" where
  "notificar_llegada_vuelo path filas numero_vuelo mutex_info ss =
     (case wait_on mutex_info ss of
        Listo ss' \<Rightarrow>
          (case signalize mutex_info ss' of
             Listo ss'' \<Rightarrow> Listo (lanzar_notificadores_de_vuelos_de_intercargo path filas numero_vuelo, ss'')
           | Fallo e \<Rightarrow> Fallo e | Bloqueado \<Rightarrow> Bloqueado)
      | Fallo e \<Rightarrow> Fallo e | Bloqueado \<Rightarrow> Bloqueado)"

definition run_generador_pasajeros :: "string \<Rightarrow> string \<Rightarrow> int \<Rightarrow> int \<Rightarrow> string list llamada" where
  "run_generador_pasajeros directorio config num_vuelo num_puesto_checkin =
     (if 6 \<le> length (texto_int num_vuelo) \<or> 6 \<le> length (texto_int num_puesto_checkin) then Fallo Fuera_de_rango
      else Listo [''generador_pasajeros'', directorio, config, texto_int num_vuelo, texto_int num_puesto_checkin])"

definition ruta_relativa :: "string \<Rightarrow> string \<Rightarrow> string \<Rightarrow> string \<Rightarrow> string llamada" where
  "ruta_relativa viejo ruta launch_dir cwd =
     (if ruta \<noteq> [] \<and> hd ruta = CHR ''/'' then Listo ruta else relativize_dir viejo ruta launch_dir cwd)"

definition lanzar_cargador ::
  "(string \<Rightarrow> bool) \<Rightarrow> string \<Rightarrow> string \<Rightarrow> string \<Rightarrow> string \<Rightarrow> string \<Rightarrow> int \<Rightarrow> string list llamada" where
  "lanzar_cargador existe cwd viejo_d viejo_c directorio config vuelo_destino =
     (case locate_dir existe cwd ''processes'' of
        Listo launch_dir \<Rightarrow>
          (case (ruta_relativa viejo_d directorio launch_dir cwd, ruta_relativa viejo_c config launch_dir cwd) of
             (Listo d, Listo c) \<Rightarrow>
               (if 10 \<le> length (texto_int vuelo_destino) then Fallo Fuera_de_rango
                else Listo [''controlador_equipaje_intercargo'', d, c, texto_int vuelo_destino])
           | _ \<Rightarrow> Fallo Fuera_de_rango)
      | Fallo e \<Rightarrow> Fallo e | Bloqueado \<Rightarrow> Bloqueado)"

text \<open>\<^verbatim>\<open>GroupCommManager::levantar_grupo\<close>; the name of the broker is always \<^verbatim>\<open>localbroker1\<close>.\<close>

definition levantar_grupo ::
  "(string \<Rightarrow> bool) \<Rightarrow> string \<Rightarrow> string \<Rightarrow> string \<Rightarrow> string \<Rightarrow> int \<Rightarrow> string list list llamada" where
  "levantar_grupo existe cwd relativo directorio nom_grupo token_nuevo =
     (if 2 \<le> length (texto_int token_nuevo) then Fallo Fuera_de_rango
      else case locate_dir existe cwd ''local_broker'' of
        Listo launch_dir \<Rightarrow>
          (case relativize_dir relativo directorio launch_dir cwd of
             Listo d \<Rightarrow>
               Listo [[''group_receiver'', d, ''0'', take MAX_NOMBRE_RECURSO nom_grupo, ''localbroker1'', texto_int token_nuevo],
                      [''group_sender'', d, ''0'', take MAX_NOMBRE_RECURSO nom_grupo, ''localbroker1'']]
           | Fallo e \<Rightarrow> Fallo e | Bloqueado \<Rightarrow> Bloqueado)
      | Fallo e \<Rightarrow> Fallo e | Bloqueado \<Rightarrow> Bloqueado)"

section \<open>Paths of the usual layout\<close>

lemma barra_partes:
  assumes "CHR ''/'' \<notin> set c"
  shows "hasta_barra (b @ CHR ''/'' # c) = Some (b @ ''/'')" and "tras_barra (b @ CHR ''/'' # c) = Some c"
  using assms by (simp_all add: hasta_barra_def tras_barra_def dropWhile_append takeWhile_append)

lemma subir_barra [simp]: "subir (b @ ''/'') = b @ ''/''"
  using barra_partes(1) [of "[]" b] by (simp add: subir_def)

lemma subir_varias: "foldl (\<lambda>t x. if x = CHR ''/'' then subir t else t) (b @ ''/'') xs = b @ ''/''"
  by (induction xs) simp_all

lemma sin_comun_prefijo [simp]: "sin_comun (xs @ as) (xs @ bs) = sin_comun as bs"
  by (induction xs) simp_all

lemma sin_comun_partes:
  "sin_comun as bs = (a, b) \<Longrightarrow> \<exists>p. as = p @ a \<and> bs = p @ b \<and> (a = [] \<or> b = [] \<or> hd a \<noteq> hd b)"
proof (induction as bs rule: sin_comun.induct)
  case (1 x as y bs)
  show ?case
  proof (cases "x = y")
    case True
    then obtain p where "as = p @ a" "bs = p @ b" "a = [] \<or> b = [] \<or> hd a \<noteq> hd b" using 1 by auto
    then show ?thesis using True by (intro exI [of _ "x # p"]) simp
  next
    case False
    then show ?thesis using 1 by auto
  qed
qed auto

lemma relativize_propio:
  assumes "CHR ''/'' \<notin> set d" and "take (length d) t \<noteq> d"
  shows "relativize_dir v (''./'' @ t) (cwd @ ''/'' @ d) cwd = Listo (cwd @ ''/'' @ ''./'' @ t)"
proof -
  have "sin_comun cwd (cwd @ ''/'' @ d) = ([], ''/'' @ d)" using sin_comun_prefijo [of cwd "[]" "''/'' @ d"] by simp
  moreover have "subir (cwd @ ''/'' @ d) = cwd @ ''/''" using barra_partes(1) [OF assms(1), of cwd] by (simp add: subir_def)
  ultimately show ?thesis
    using barra_partes(2) [OF assms(1), of cwd] assms(2) subir_varias [of cwd "''/'' @ d"] by (simp add: relativize_dir_def)
qed

text \<open>Beside the current directory: right exactly when the two names are the same or start differently.\<close>

lemma relativize_hermano:
  assumes "CHR ''/'' \<notin> set d" and "CHR ''/'' \<notin> set c" and "take (length d) t \<noteq> d" and "c \<noteq> []" and "d \<noteq> []"
  shows "\<exists>r. relativize_dir v (''./'' @ t) (b @ ''/'' @ d) (b @ ''/'' @ c) = Listo r \<and>
    (r = b @ ''/'' @ c @ ''/'' @ ''./'' @ t \<longleftrightarrow> c = d \<or> hd c \<noteq> hd d)"
proof -
  obtain c' d' where s: "sin_comun c d = (c', d')" by fastforce
  obtain p where p: "c = p @ c'" "d = p @ d'" "c' = [] \<or> d' = [] \<or> hd c' \<noteq> hd d'" using sin_comun_partes [OF s] by blast
  have sc: "sin_comun (b @ ''/'' @ c) (b @ ''/'' @ d) = (c', d')" using s sin_comun_prefijo [of "b @ ''/''" c d] by simp
  have tr: "tras_barra (b @ ''/'' @ d) = Some d" using barra_partes(2) [OF assms(1), of b] by simp
  let ?r = "(if d' \<noteq> [] then b @ ''/'' else b @ ''/'' @ d @ ''/'') @ (if c' \<noteq> [] then c' @ ''/'' else []) @ ''./'' @ t"
  have sb: "subir (b @ ''/'' @ d) = b @ ''/''" using barra_partes(1) [OF assms(1), of b] by (simp add: subir_def)
  have "relativize_dir v (''./'' @ t) (b @ ''/'' @ d) (b @ ''/'' @ c) = Listo ?r"
    using tr assms(3) sc sb subir_varias [of b d'] by (simp add: relativize_dir_def)
  moreover have "?r = b @ ''/'' @ c @ ''/'' @ ''./'' @ t \<longleftrightarrow> c = d \<or> hd c \<noteq> hd d"
  proof (cases "p = []")
    case True
    then have "c' \<noteq> []" "d' \<noteq> []" "hd c \<noteq> hd d" using p assms(4,5) by auto
    then show ?thesis using True p by simp
  next
    case False
    then have h: "hd c = hd d" using p by simp
    show ?thesis using False p h by (cases "c' = []"; cases "d' = []") (auto dest: arg_cong [of _ _ length])
  qed
  ultimately show ?thesis by blast
qed

section \<open>Numbers and names\<close>

lemma atoi_texto: "atoi (texto_int v) = v"
proof -
  have "atoi (decimal n) = int n" for n using decimal_ok [of n] by (cases "decimal n") auto
  then show ?thesis using decimal_ok [of "nat (- v)"] by (simp add: texto_int_def)
qed

lemma snprintf_texto:
  assumes "- (10 ^ k) < v" and "v < 10 ^ Suc k" and "0 < k"
  shows "snprintf_s (k + 2) (texto_int v) = texto_int v"
proof (cases "v < 0")
  case True
  obtain j where k: "k = Suc j" using assms(3) by (cases k) auto
  have "- v < int (10 ^ Suc j)" using assms(1) k by simp
  then have "nat (- v) < 10 ^ Suc j" using True by (subst nat_less_iff) simp_all
  then show ?thesis using length_decimal [of "nat (- v)" j] True k by (simp add: snprintf_s_def texto_int_def)
next
  case False
  have "v < int (10 ^ Suc k)" using assms(2) by simp
  then have "nat v < 10 ^ Suc k" using False by (subst nat_less_iff) simp_all
  then show ?thesis using length_decimal [of "nat v" k] False by (simp add: snprintf_s_def texto_int_def)
qed

theorem nombre_semaforo_ok:
  assumes "nombre \<noteq> []" and "\<not> es_digito (last nombre)"
  shows "nombre_semaforo (grupo_semaforo nombre n) = Listo nombre"
proof -
  have d: "\<forall>x \<in> set (rev (decimal n)). es_digito x" using decimal_ok [of n] by (simp add: list_all_iff)
  have "dropWhile es_digito (rev nombre) = rev nombre" using assms by (cases nombre rule: rev_cases) auto
  moreover have "last nombre \<in> set nombre" using assms(1) by simp
  ultimately show ?thesis
    using d assms(2) by (auto simp: nombre_semaforo_def grupo_semaforo_def list_all_iff dropWhile_append)
qed

lemma args_leidos:
  assumes "length app < 64" and "length g < 64" and "- 100 < ident" and "ident < 1000" and "tam < 10 ^ 9"
    and "(tam \<noteq> 0) = (clase = SHAREDMEMORY)"
    and "case clase of SEMAFORO n k \<Rightarrow> 0 \<le> n \<and> n < 10 ^ 5 \<and> 0 \<le> k \<and> k < 10 ^ 5 | _ \<Rightarrow> True"
  shows "main_comm otro ([x, d, snprintf_s 64 app, f, snprintf_s 64 g, snprintf_s 4 (texto_int ident),
      snprintf_s 10 (texto_int (int tam))] @ args_tipo clase) = Listo (app, g, ident, tam, clase)"
proof -
  have i: "snprintf_s 4 (texto_int ident) = texto_int ident" using snprintf_texto [of 2 ident] assms(3,4) by simp
  have t: "snprintf_s 10 (texto_int (int tam)) = texto_int (int tam)" using snprintf_texto [of 8 "int tam"] assms(5) by simp
  have s: "snprintf_s 64 app = app" "snprintf_s 64 g = g" using assms(1,2) by (simp_all add: snprintf_s_def)
  have n: "snprintf_s 6 (texto_int v) = texto_int v" if "0 \<le> v" "v < 10 ^ 5" for v
    using snprintf_texto [of 4 v] that by simp
  show ?thesis
    using assms(6,7) i t s n by (cases clase) (simp_all add: main_comm_def atoi_texto nth_append)
qed

section \<open>The list of brokers read back\<close>

definition renglon :: "string \<times> string \<Rightarrow> string" where
  "renglon b = fst b @ '':'' @ snd b @ [fin_linea]"

definition broker_bien :: "string \<times> string \<Rightarrow> bool" where
  "broker_bien b \<longleftrightarrow> fst b \<noteq> [] \<and> CHR '':'' \<notin> set (fst b) \<and> \<not> espacio (hd (fst b)) \<and> length (fst b) < MAX_NOMBRE_RECURSO \<and>
     snd b \<noteq> [] \<and> fin_linea \<notin> set (snd b) \<and> length (snd b) < 10"

lemma sin_espacio: "list_all broker_bien bs \<Longrightarrow> dropWhile espacio (concat (map renglon bs)) = concat (map renglon bs)"
proof (cases bs)
  case (Cons b bs')
  assume "list_all broker_bien bs"
  then obtain c cs where "fst b = c # cs" "\<not> espacio c" using Cons by (cases "fst b") (auto simp: broker_bien_def)
  then show ?thesis using Cons by (simp add: renglon_def)
qed simp

lemma fin_linea_espacio: "espacio fin_linea"
  by (simp add: espacio_def fin_linea_def)

lemma leer_brokers_ok: "list_all broker_bien bs \<Longrightarrow> leer_brokers viejo (concat (map renglon bs)) = Some (Listo bs)"
proof (induction bs arbitrary: viejo)
  case Nil
  then show ?case by (simp add: leer_brokers.simps [of viejo])
next
  case (Cons b bs)
  obtain h v where b: "b = (h, v)" by (cases b)
  have ok: "h \<noteq> []" "CHR '':'' \<notin> set h" "length h < MAX_NOMBRE_RECURSO" "v \<noteq> []" "fin_linea \<notin> set v" "length v < 10"
    using Cons.prems b by (auto simp: broker_bien_def)
  let ?r = "concat (map renglon bs)"
  have s: "concat (map renglon (b # bs)) = h @ CHR '':'' # v @ fin_linea # ?r" using b by (simp add: renglon_def)
  have h: "takeWhile (\<lambda>c. c \<noteq> CHR '':'') (h @ CHR '':'' # x) = h" "dropWhile (\<lambda>c. c \<noteq> CHR '':'') (h @ CHR '':'' # x) = CHR '':'' # x" for x
    using ok(2) by (simp_all add: takeWhile_append dropWhile_append)
  have v: "takeWhile (\<lambda>c. c \<noteq> fin_linea) (v @ fin_linea # x) = v" "dropWhile (\<lambda>c. c \<noteq> fin_linea) (v @ fin_linea # x) = fin_linea # x" for x
    using ok(5) by (simp_all add: takeWhile_append dropWhile_append)
  have "leer_brokers viejo (h @ CHR '':'' # v @ fin_linea # ?r) = anotar_broker h v (leer_brokers v (dropWhile espacio (fin_linea # ?r)))"
    using ok(1,4) by (subst leer_brokers.simps) (simp add: Let_def h v)
  also have "dropWhile espacio (fin_linea # ?r) = ?r" using sin_espacio [of bs] Cons.prems by (simp add: fin_linea_espacio)
  finally show ?case using Cons ok b s by (simp add: anotar_broker_def)
qed

text \<open>A list of names and services is read back; a line that starts with a colon is read for ever.\<close>

theorem lista_de_brokers_ok:
  assumes "list_all broker_bien bs" and "titulo \<noteq> []" and "fin_linea \<notin> set titulo"
  shows "obtener_lista_de_brokers viejo (titulo @ fin_linea # concat (map renglon bs)) = Some (Listo bs)"
proof -
  have "dropWhile (\<lambda>c. c \<noteq> fin_linea) (titulo @ fin_linea # x) = fin_linea # x" for x
    using assms(3) by (simp add: dropWhile_append)
  moreover have "hd titulo \<noteq> fin_linea" using assms(2,3) by (cases titulo) auto
  ultimately have "saltear_linea (titulo @ fin_linea # concat (map renglon bs)) = concat (map renglon bs)"
    using assms(1,2) sin_espacio [of bs] by (simp add: saltear_linea_def fin_linea_espacio)
  then show ?thesis using leer_brokers_ok [OF assms(1)] by (simp add: obtener_lista_de_brokers_def)
qed

theorem lista_sin_nombre: "leer_brokers viejo (CHR '':'' # s) = None"
  by (subst leer_brokers.simps) simp

text \<open>The controller of a flight overruns its arrays from flight 100000 on.\<close>

theorem generador_pasajeros_cota:
  assumes "0 \<le> vuelo" and "0 \<le> puesto" and "puesto < 10 ^ 5"
  shows "run_generador_pasajeros d c vuelo puesto =
    (if vuelo < 10 ^ 5 then Listo [''generador_pasajeros'', d, c, texto_int vuelo, texto_int puesto] else Fallo Fuera_de_rango)"
proof -
  have corto: "length (texto_int v) < 6" if "0 \<le> v" "v < 10 ^ 5" for v
    using snprintf_texto [of 4 v] that length_decimal [of "nat v" 4] by (simp add: texto_int_def nat_less_iff)
  have "6 \<le> length (decimal n)" if "10 ^ 5 \<le> n" for n
  proof -
    have largo: "10 ^ k \<le> m \<Longrightarrow> k < length (decimal m)" for k m
    proof (induction k arbitrary: m)
      case 0
      then show ?case using decimal_ok [of m] by simp
    next
      case (Suc k)
      have "(10::nat) ^ Suc k \<ge> 10" by simp
      then have "10 \<le> m" using Suc.prems by linarith
      moreover have "10 ^ k \<le> m div 10" using Suc.prems by (simp add: less_eq_div_iff_mult_less_eq)
      ultimately show ?case using Suc.IH [of "m div 10"] by (simp add: decimal.simps [of m])
    qed
    show ?thesis using largo [OF that] by simp
  qed
  then have "6 \<le> length (texto_int vuelo)" if "\<not> vuelo < 10 ^ 5" using that by (simp add: texto_int_def nat_le_iff le_nat_iff)
  then show ?thesis using corto [OF assms(2,3)] corto [OF assms(1)] by (auto simp: run_generador_pasajeros_def)
qed

section \<open>Properties\<close>

text \<open>
  The start of the communication process: from a directory \<open>c\<close> that has
  \<^verbatim>\<open>clientes\<close> in it or beside it, with working directory and list of brokers relative to it,
  the process is launched and its \<^verbatim>\<open>main\<close> reads the names, the identifier, the size and the kind of
  resource it was given, within the sizes of the arrays; and it gets the right paths exactly when
  \<^verbatim>\<open>clientes\<close> is in \<open>c\<close>, or is \<open>c\<close>, or the name of \<open>c\<close> does not start with the same letter.
\<close>

theorem lanzar_lee:
  assumes "existe (b @ ''/'' @ c @ ''/clientes'') \<or> existe (b @ ''/clientes'')"
    and "CHR ''/'' \<notin> set c" and "c \<noteq> []" and "take 8 t \<noteq> ''clientes''" and "take 8 u \<noteq> ''clientes''"
    and "length app < 64" and "length g < 64" and "- 100 < ident" and "ident < 128" and "tam < 10 ^ 9"
    and "(tam \<noteq> 0) = (clase = SHAREDMEMORY)"
    and "case clase of SEMAFORO n k \<Rightarrow> 0 \<le> n \<and> n < 10 ^ 5 \<and> 0 \<le> k \<and> k < 10 ^ 5 | _ \<Rightarrow> True"
  shows "\<exists>argv. lanzar_comunicacion existe (b @ ''/'' @ c) (''./'' @ t) app (''./'' @ u) g ident tam clase = Listo argv \<and>
    main_comm otro argv = Listo (app, g, ident, tam, clase) \<and>
    (argv ! 1 = b @ ''/'' @ c @ ''/'' @ ''./'' @ t \<and> argv ! 3 = b @ ''/'' @ c @ ''/'' @ ''./'' @ u \<longleftrightarrow>
      existe (b @ ''/'' @ c @ ''/clientes'') \<or> c = ''clientes'' \<or> hd c \<noteq> CHR ''c'')"
proof -
  let ?d = "''clientes''" and ?cwd = "b @ ''/'' @ c"
  have "length ?d = 8" by simp
  then have d: "CHR ''/'' \<notin> set ?d" "take (length ?d) t \<noteq> ?d" "take (length ?d) u \<noteq> ?d"
    using assms(4,5) by (simp, simp only: not_False_eq_True, simp only: not_False_eq_True)
  note lee = args_leidos [OF assms(6,7,8) _ assms(10-12)]
  show ?thesis
  proof (cases "existe (b @ ''/'' @ c @ ''/clientes'')")
    case True
    have "locate_dir existe ?cwd ?d = Listo (?cwd @ ''/'' @ ?d)" using True by (simp add: locate_dir_def)
    then show ?thesis
      using relativize_propio [OF d(1,2), of _ ?cwd] relativize_propio [OF d(1,3), of _ ?cwd] lee assms(9) True
      by (simp add: lanzar_comunicacion_def)
  next
    case False
    have l: "locate_dir existe ?cwd ?d = Listo (b @ ''/'' @ ?d)"
      using False assms(1) barra_partes(1) [OF assms(2), of b] by (simp add: locate_dir_def)
    obtain r where r: "relativize_dir (snprintf_s FILENAME_MAX (''./'' @ t)) (''./'' @ t) (b @ ''/'' @ ?d) ?cwd = Listo r"
      "(r = b @ ''/'' @ c @ ''/'' @ ''./'' @ t) = (c = ?d \<or> hd c \<noteq> hd ?d)"
      using relativize_hermano [OF d(1) assms(2) d(2) assms(3)] by fastforce
    obtain q where q: "relativize_dir (snprintf_s FILENAME_MAX (''./'' @ u)) (''./'' @ u) (b @ ''/'' @ ?d) ?cwd = Listo q"
      "(q = b @ ''/'' @ c @ ''/'' @ ''./'' @ u) = (c = ?d \<or> hd c \<noteq> hd ?d)"
      using relativize_hermano [OF d(1) assms(2) d(3) assms(3)] by fastforce
    show ?thesis
      unfolding lanzar_comunicacion_def l using r q lee assms(9) False by simp
  qed
qed

theorem lanzar_lee_witness:
  "\<exists>argv. lanzar_comunicacion (\<lambda>p. p = ''/a/clientes'') ''/a/processes'' ''./wk'' ''robot'' ''./lb'' ''cinta'' 3 0
       (SEMAFORO 2 9) = Listo argv \<and> argv ! 1 = ''/a/processes/./wk'' \<and>
     main_comm MUTEX argv = Listo (''robot'', ''cinta'', 3, 0, SEMAFORO 2 9)"
  using lanzar_lee [of "\<lambda>p. p = ''/a/clientes''" "''/a''" "''processes''" "''wk''" "''lb''" "''robot''" "''cinta''" 3 0
      "SEMAFORO 2 9" MUTEX] by auto

text \<open>
  A copy is the file when \<^verbatim>\<open>write\<close> takes every block whole; when it takes a part of one, the
  part of the block that follows is not what is written next, but its beginning again; and when
  it fails, the copy does not end.
\<close>

theorem cp_copia:
  "cp bs (map (\<lambda>b. Some (length b)) bs) = Some (concat bs) \<and>
   cp [take k b @ drop k b] [Some k, Some (length b - k)] =
     (if k < length b then Some (take k b @ take (length b - k) b) else Some b) \<and>
   cp (b # bs) (replicate n None) = None"
proof (intro conjI)
  show "cp bs (map (\<lambda>b. Some (length b)) bs) = Some (concat bs)" by (induction bs) simp_all
  show "cp [take k b @ drop k b] [Some k, Some (length b - k)] =
     (if k < length b then Some (take k b @ take (length b - k) b) else Some b)"
    by (auto simp: Let_def min_def)
  have "cp_bloque b m (replicate n None) = ([], None)" for m by (induction n) simp_all
  then show "cp (b # bs) (replicate n None) = None" by simp
qed

end
