(* ===== verification/Simulacion.thy ===== *)
theory Simulacion
  imports Recorrido Lanzamiento
begin

text \<open>
  The start and the end of the simulation (\<^verbatim>\<open>processes/main.cpp\<close>): the working directories, the
  files copied to them, the processes with their arguments, and the signals of the shutdown.
  The system of \<open>Recorrido\<close> is what these processes do.
\<close>

section \<open>Directories\<close>

definition tmp :: "string \<Rightarrow> string" where
  "tmp nombre = ''/tmp/'' @ nombre"

definition working_dirs_local_broker :: "string list" where
  "working_dirs_local_broker = map tmp [''wd_local_broker1'', ''wd_local_broker2'', ''wd_local_broker3'', ''wd_local_broker4'']"

definition working_dir_generador_vuelos_trasbordo :: string where
  "working_dir_generador_vuelos_trasbordo = tmp ''wd_generador_vuelos_trasbordo''"

text \<open>\<^verbatim>\<open>load_all_dirs\<close>, in its order.\<close>

definition all_dirs :: "string list" where
  "all_dirs =
     map tmp [''wd_puesto_checkin1'', ''wd_puesto_checkin2'', ''wd_puesto_checkin3'', ''wd_robot_carga1'', ''wd_robot_carga2'',
       ''wd_robot_carga3'', ''wd_robot_carga4'', ''wd_robot_checkin'', ''wd_robot_escaner1'', ''wd_robot_escaner2'',
       ''wd_robot_escaner3'', ''wd_robot_escaner4'', ''wd_robot_despacho1'', ''wd_robot_despacho2'',
       ''wd_robot_control_equipaje'', ''wd_control_equipaje_sospechoso'', ''wd_robot_intercargo'',
       ''control_carga_contenedores''] @
     working_dirs_local_broker @ [working_dir_generador_vuelos_trasbordo] @
     map tmp [''wd_avion1'', ''wd_avion2'', ''wd_tractor1'', ''wd_tractor2'', ''wd_tractor3'', ''carpeta_keys_ftok'',
       ''carpeta_keys_ftok_broker'', ''carpeta_keys_ftok_intermediate_broker'', ''carpeta_keys_ftok_torre'']"

section \<open>The copies\<close>

text \<open>
  \<^verbatim>\<open>cp\<close> on files, when every \<^verbatim>\<open>write\<close> is whole: it opens the target with \<^verbatim>\<open>O_EXCL\<close>, so it answers
  -1 and changes nothing when the target is there, as when the source is not.
\<close>

definition cp_archivo :: "string \<Rightarrow> string \<Rightarrow> (string \<Rightarrow> 'c option) \<Rightarrow> (string \<Rightarrow> 'c option)" where
  "cp_archivo destino origen fs =
     (case fs origen of None \<Rightarrow> fs | Some c \<Rightarrow> (if fs destino = None then fs(destino := Some c) else fs))"

definition archivos_broker :: "(string \<times> string) list" where
  "archivos_broker =
     [(''/group_list.txt'', ''../local_broker/locks/group_list_all.txt''),
      (''/cinta_checkin.init'', ''../local_broker/locks/cinta_checkin.init''),
      (''/cinta_contenedor.init'', ''../local_broker/locks/cinta_contenedor.init''),
      (''/cinta_escaner_control.init'', ''../local_broker/locks/cinta_escaner_control.init''),
      (''/cinta_escaner.init'', ''../local_broker/locks/cinta_escaner.init''),
      (''/cinta_principal.init'', ''../local_broker/locks/cinta_principal.init'')]"

definition archivos_todos :: "(string \<times> string) list" where
  "archivos_todos = [(''/simulacion.ini'', ''./config/simulacion.ini''), (''/local_broker.list'', ''./locks/local_broker.list'')]"

definition archivos_trasbordo :: "string list" where
  "archivos_trasbordo =
     [''/aviones.csv'', ''/vuelos_interconexion.csv'', ''/vuelos_entrantes.csv'', ''/equipaje_destino_1.csv'',
      ''/equipaje_destino_101.csv'', ''/equipaje_destino_102.csv'', ''/equipaje_destino_3.csv'', ''/equipajes_intercargo.csv'',
      ''/equipajes.csv'', ''/pasajeros.csv'', ''/vuelos.csv'']"

definition copias :: "(string \<times> string) list" where
  "copias =
     [(w @ d, f). (d, f) \<leftarrow> archivos_broker, w \<leftarrow> working_dirs_local_broker] @
     [(w @ d, f). (d, f) \<leftarrow> archivos_todos, w \<leftarrow> all_dirs] @
     [(working_dir_generador_vuelos_trasbordo @ d, ''./locks'' @ d). d \<leftarrow> archivos_trasbordo]"

definition copy_files :: "(string \<Rightarrow> 'c option) \<Rightarrow> (string \<Rightarrow> 'c option)" where
  "copy_files fs = foldl (\<lambda>f (destino, origen). cp_archivo destino origen f) fs copias"

section \<open>The processes\<close>

text \<open>The arguments, by program and its number.\<close>

definition args_puesto_checkin :: "string \<Rightarrow> nat \<Rightarrow> string list" where
  "args_puesto_checkin config_file k =
     [''puesto_checkin_'' @ decimal k, tmp (''wd_puesto_checkin'' @ decimal k), config_file, decimal k, ''1'']"

definition args_robot_checkin :: "string \<Rightarrow> string list" where
  "args_robot_checkin config_file = [''robot_checkin'', tmp ''wd_robot_checkin'', config_file, ''1'', ''1'', ''1'']"

definition args_robot_carga :: "string \<Rightarrow> nat \<Rightarrow> string list" where
  "args_robot_carga config_file k =
     [''robot_carga_'' @ decimal k, tmp (''wd_robot_carga'' @ decimal k), config_file, decimal k, decimal k]"

definition args_scanner :: "string \<Rightarrow> nat \<Rightarrow> string list" where
  "args_scanner config_file k = [''robot_scanner_'' @ decimal k, tmp (''wd_robot_escaner'' @ decimal k), config_file, decimal k]"

definition args_robot_despacho1 :: "string \<Rightarrow> string list" where
  "args_robot_despacho1 config_file = [''robot_despacho_1'', tmp ''wd_robot_despacho1'', config_file, ''1'', ''1'', ''2'']"

definition args_robot_despacho2 :: "string \<Rightarrow> string list" where
  "args_robot_despacho2 config_file = [''robot_despacho_2'', tmp ''wd_robot_despacho2'', config_file, ''2'', ''3'', ''4'']"

definition args_robot_sospechosos :: "string \<Rightarrow> string list" where
  "args_robot_sospechosos config_file =
     [''robot_control_equipaje_sospechoso'', tmp ''wd_robot_control_equipaje'', config_file, ''3'', texto_int (int (MAX_SCANNERS + 1))]"

definition args_robot_intercargo :: "string \<Rightarrow> string list" where
  "args_robot_intercargo config_file = [''robot_intercargo'', tmp ''wd_robot_intercargo'', config_file]"

definition args_local_broker1 :: "string list" where
  "args_local_broker1 = [''localbroker1'', tmp ''wd_local_broker1'', ''1234'']"

definition args_generador_vuelos_trasbordo :: "string \<Rightarrow> string list" where
  "args_generador_vuelos_trasbordo config_file =
     [''generador_vuelos_trasbordo'', working_dir_generador_vuelos_trasbordo, config_file, ''./entrada/vuelos_entrantes.csv'',
      ''./entrada/vuelos_interconexion.csv'']"

definition args_tractor1 :: "string \<Rightarrow> string list" where
  "args_tractor1 config_file = [''tractor_1'', tmp ''wd_tractor1'', config_file, ''1'']"

definition args_scheduler :: "string \<Rightarrow> string \<Rightarrow> string \<Rightarrow> string list" where
  "args_scheduler programa directorio_de_trabajo config_file = [programa, directorio_de_trabajo, config_file]"

text \<open>The programs in the order they start.\<close>

definition processes :: "string \<Rightarrow> string \<Rightarrow> (string \<times> string list) list" where
  "processes config_file directorio_de_trabajo =
     [(''local_broker_launcher'', args_local_broker1),
      (''intermediate_broker_launcher'', [''intermediate_broker_launcher'']),
      (''message_broker_launcher'', [''message_broker_launcher'']),
      (''torre_de_control_launcher'', [''torre_de_control_launcher'']),
      (''puesto_checkin'', args_puesto_checkin config_file 1), (''puesto_checkin'', args_puesto_checkin config_file 2),
      (''puesto_checkin'', args_puesto_checkin config_file 3), (''robot_checkin'', args_robot_checkin config_file),
      (''robot_scanner'', args_scanner config_file 1), (''robot_scanner'', args_scanner config_file 2),
      (''robot_scanner'', args_scanner config_file 3), (''robot_scanner'', args_scanner config_file 4),
      (''robot_despacho'', args_robot_despacho1 config_file), (''robot_despacho'', args_robot_despacho2 config_file),
      (''robot_carga'', args_robot_carga config_file 1), (''robot_carga'', args_robot_carga config_file 2),
      (''robot_carga'', args_robot_carga config_file 3), (''robot_carga'', args_robot_carga config_file 4),
      (''robot_control_equipaje_sospechoso'', args_robot_sospechosos config_file),
      (''robot_intercargo'', args_robot_intercargo config_file),
      (''generador_vuelos_trasbordo'', args_generador_vuelos_trasbordo config_file),
      (''tractor'', args_tractor1 config_file),
      (''scheduler_aviones'', args_scheduler ''scheduler_aviones'' directorio_de_trabajo config_file),
      (''scheduler_vuelos'', args_scheduler ''scheduler_vuelos'' directorio_de_trabajo config_file)]"

lemmas args_defs = args_puesto_checkin_def args_robot_checkin_def args_robot_carga_def args_scanner_def
  args_robot_despacho1_def args_robot_despacho2_def args_robot_sospechosos_def args_robot_intercargo_def
  args_local_broker1_def args_generador_vuelos_trasbordo_def args_tractor1_def args_scheduler_def processes_def
  decimal.simps digito_def

section \<open>The shutdown\<close>

text \<open>
  Both loops go from \<^verbatim>\<open>end()\<close>, which is no process (\<open>None\<close>), down to the second one; the first
  one then gets its \<^verbatim>\<open>SIGTERM\<close> apart.
\<close>

definition recorrido_final :: "nat \<Rightarrow> nat option list" where
  "recorrido_final n = (if n = 0 then [] else None # map Some (rev [1..<n]))"

definition sigterm_a :: "nat \<Rightarrow> nat option list" where
  "sigterm_a n = recorrido_final n @ [Some 0]"

definition sigkill_a :: "nat \<Rightarrow> nat option list" where
  "sigkill_a n = recorrido_final n"

section \<open>What the copies leave\<close>

lemma cp_archivo_otro: "f \<noteq> destino \<Longrightarrow> cp_archivo destino origen fs f = fs f"
  by (simp add: cp_archivo_def split: option.split)

lemma cp_archivo_queda: "fs f = Some c \<Longrightarrow> cp_archivo destino origen fs f = Some c"
  by (auto simp: cp_archivo_def split: option.split)

text \<open>Copies to targets that are not sources, of files that are there: the first one of a target counts.\<close>

lemma copias_foldl:
  assumes "fst ` set cs \<inter> snd ` set cs = {}" and "\<And>s. s \<in> snd ` set cs \<Longrightarrow> fs s \<noteq> None"
  shows "foldl (\<lambda>h (d, s). cp_archivo d s h) fs cs f =
    (case fs f of Some c \<Rightarrow> Some c | None \<Rightarrow> (case map_of cs f of Some s \<Rightarrow> fs s | None \<Rightarrow> None))"
  using assms
proof (induction cs arbitrary: fs)
  case Nil
  then show ?case by (simp split: option.split)
next
  case (Cons x cs)
  obtain d s where x: "x = (d, s)" by (cases x)
  let ?g = "cp_archivo d s fs"
  have igual: "?g t = fs t" if "t \<in> snd ` set (x # cs)" for t
    by (rule cp_archivo_otro) (use Cons.prems(1) that x in auto)
  have ih: "foldl (\<lambda>h (d, s). cp_archivo d s h) ?g cs f =
      (case ?g f of Some c \<Rightarrow> Some c | None \<Rightarrow> (case map_of cs f of Some s \<Rightarrow> ?g s | None \<Rightarrow> None))"
  proof (rule Cons.IH)
    show "fst ` set cs \<inter> snd ` set cs = {}" using Cons.prems(1) by auto
    show "?g t \<noteq> None" if "t \<in> snd ` set cs" for t using igual [of t] Cons.prems(2) [of t] that by simp
  qed
  have src: "?g t = fs t" if "map_of cs f = Some t" for t
    by (rule igual) (use map_of_SomeD [OF that] in force)
  obtain c where c: "fs s = Some c" using Cons.prems(2) [of s] x by auto
  show ?case
  proof (cases "f = d")
    case True
    then show ?thesis using ih x c by (simp add: cp_archivo_def split: option.splits)
  next
    case False
    then show ?thesis using ih x src cp_archivo_otro [OF False, of s fs] by (simp split: option.splits)
  qed
qed

lemma all_dirs_tmp: "w \<in> set all_dirs \<Longrightarrow> hd w = CHR ''/'' \<and> w \<noteq> []"
  by (auto simp: all_dirs_def tmp_def working_dirs_local_broker_def working_dir_generador_vuelos_trasbordo_def)

lemma brokers_en_dirs: "set working_dirs_local_broker \<subseteq> set all_dirs" "working_dir_generador_vuelos_trasbordo \<in> set all_dirs"
  by (auto simp: all_dirs_def)

lemma copias_destinos: "d \<in> fst ` set copias \<Longrightarrow> hd d = CHR ''/''"
  using all_dirs_tmp brokers_en_dirs unfolding copias_def by fastforce

lemma copias_origenes: "s \<in> snd ` set copias \<Longrightarrow> hd s = CHR ''.''"
  unfolding copias_def by (auto simp: archivos_broker_def archivos_todos_def)

lemma copias_separadas: "fst ` set copias \<inter> snd ` set copias = {}"
  using copias_destinos copias_origenes by fastforce

lemma all_dirs_distinct: "distinct all_dirs"
  by (simp add: all_dirs_def tmp_def working_dirs_local_broker_def working_dir_generador_vuelos_trasbordo_def)

lemma archivos_distintos: "distinct (map fst archivos_broker @ map fst archivos_todos @ archivos_trasbordo)"
  by (simp add: archivos_broker_def archivos_todos_def archivos_trasbordo_def)

section \<open>Properties\<close>

text \<open>
  What the copies leave: a file that was there is never replaced, whatever the source, so a
  directory of an earlier run keeps its old files; and when the sources are there, a file that
  was not gets the first source of the list for it.
\<close>

theorem copias_dejan:
  "(fs f = Some c \<longrightarrow> copy_files fs f = Some c) \<and>
   ((\<forall>s \<in> snd ` set copias. fs s \<noteq> None) \<and> fs f = None \<longrightarrow>
     copy_files fs f = (case map_of copias f of Some s \<Rightarrow> fs s | None \<Rightarrow> None))"
proof (intro conjI impI)
  have "foldl (\<lambda>h (d, s). cp_archivo d s h) g cs f = Some c" if "g f = Some c" for g :: "string \<Rightarrow> 'a option" and cs
    using that by (induction cs arbitrary: g) (auto simp: cp_archivo_queda)
  then show "copy_files fs f = Some c" if "fs f = Some c" using that by (simp add: copy_files_def)
  show "copy_files fs f = (case map_of copias f of Some s \<Rightarrow> fs s | None \<Rightarrow> None)"
    if "(\<forall>s \<in> snd ` set copias. fs s \<noteq> None) \<and> fs f = None"
    using copias_foldl [OF copias_separadas, of fs f] that by (simp add: copy_files_def)
qed

text \<open>
  Every program but the launchers of the brokers and of the tower gets a directory that was
  created, no two of them the same, or, the schedulers, that of the configuration; and the
  numbers they get are those of the model of the airport: four scanners, the zones of
  each dispatch robot, a loading robot for each zone.
\<close>

theorem procesos_bien:
  "(\<forall>(p, args) \<in> set (processes config wd). 1 < length args \<longrightarrow> args ! 1 = wd \<or> args ! 1 \<in> set all_dirs) \<and>
   distinct [args ! 1. (p, args) \<leftarrow> processes config wd, 1 < length args, p \<noteq> ''scheduler_aviones'', p \<noteq> ''scheduler_vuelos''] \<and>
   [args ! 3. (p, args) \<leftarrow> processes config wd, p = ''robot_scanner''] = map (\<lambda>k. decimal (Suc k)) [0..<MAX_SCANNERS] \<and>
   [(args ! 4, args ! 5). (p, args) \<leftarrow> processes config wd, p = ''robot_despacho''] =
     map (\<lambda>j. (texto_int (zona_desde j), texto_int (zona_hasta j))) [0..<2] \<and>
   [args ! 3. (p, args) \<leftarrow> processes config wd, p = ''robot_carga''] = map decimal [1..<5]"
proof (intro conjI)
  show "\<forall>(p, args) \<in> set (processes config wd). 1 < length args \<longrightarrow> args ! 1 = wd \<or> args ! 1 \<in> set all_dirs"
    by (simp add: args_defs all_dirs_def working_dirs_local_broker_def)
  show "distinct [args ! 1. (p, args) \<leftarrow> processes config wd, 1 < length args, p \<noteq> ''scheduler_aviones'', p \<noteq> ''scheduler_vuelos'']"
    by (simp add: args_defs tmp_def working_dir_generador_vuelos_trasbordo_def)
  show "[args ! 3. (p, args) \<leftarrow> processes config wd, p = ''robot_scanner''] = map (\<lambda>k. decimal (Suc k)) [0..<MAX_SCANNERS]"
    by (simp add: args_defs MAX_SCANNERS_def upt_rec)
  show "[(args ! 4, args ! 5). (p, args) \<leftarrow> processes config wd, p = ''robot_despacho''] =
     map (\<lambda>j. (texto_int (zona_desde j), texto_int (zona_hasta j))) [0..<2]"
    by (simp add: args_defs upt_rec texto_int_def zona_desde_def zona_hasta_def)
  show "[args ! 3. (p, args) \<leftarrow> processes config wd, p = ''robot_carga''] = map decimal [1..<5]"
    by (simp add: args_defs upt_rec)
qed

text \<open>
  The shutdown: every process gets \<^verbatim>\<open>SIGTERM\<close>, but \<^verbatim>\<open>SIGKILL\<close> leaves out the first one, the local
  broker; and both loops signal the process of the end iterator, which is none.
\<close>

theorem apagado:
  assumes "0 < n"
  shows "set (sigterm_a n) = insert None (Some ` {..<n}) \<and> set (sigkill_a n) = insert None (Some ` {1..<n}) \<and>
    fst (processes config wd ! 0) = ''local_broker_launcher''"
  using assms by (auto simp: sigterm_a_def sigkill_a_def recorrido_final_def args_defs image_iff)

end
