(* ===== verification/Spec2Isabelle.thy ===== *)
theory Spec2Isabelle
  imports CintaContenedor CintaCentral CintaEscaner MemoriaDistribuida Arranque BrokerRemoto Reconexion
    Avion PuestoCheckin Recorrido Intercargo Programador Multiplexor Cierre Salida Lanzamiento Simulacion
begin

text \<open>
  The simulation of the luggage of an airport: desks, robots, belts, tractors and planes are
  processes that share belts in distributed memory and talk through message queues. This theory
  only joins the others.

  \<^bold>\<open>The program.\<close> Luggage is checked in at a desk, goes on the check-in belt, through four
  scanners to the main belt, and from there either to the belt of its zone or to the control of
  suspicious luggage and back. The loading robot of a zone fills containers, tractors carry them to
  the planes. A belt is a segment of shared memory with semaphores; both are distributed: every
  host has a local broker that keeps one group per resource, and whoever holds the token of a group
  owns the resource. The token of a segment travels with its bytes. Queues are System V queues, or
  the same queues behind a message broker over the network.

  \<^bold>\<open>Theories and sources.\<close>

  \<^item> \<open>Preludio\<close>: the results of calls (\<open>llamada\<close>: returns, blocks or raises), reachability, the
    locales \<open>sistema\<close> and \<open>sistema_ejecutable\<close> that give the invariant rule and executable schedules.
  \<^item> \<open>Anillo\<close>, \<open>Semaforos\<close>, \<open>Colas\<close>: the circular buffer of the belts, the semaphores and mutexes of
    \<^verbatim>\<open>ipc/semaphoreset.cpp\<close> and \<^verbatim>\<open>ipc/mutex.cpp\<close>, the queues of \<^verbatim>\<open>ipc/messagequeue.cpp\<close>.
    Their contracts are the locales that the belts and the brokers instantiate.
  \<^item> \<open>CintaCheckin\<close> (\<^verbatim>\<open>api/cinta.h\<close>), \<open>CintaCentral\<close> (\<^verbatim>\<open>api/cintaprincipal.h\<close>, with
    \<^verbatim>\<open>api/api_despachante.cpp\<close>), \<open>CintaContenedor\<close> (\<^verbatim>\<open>api/cintacarga.h\<close>), \<open>CintaEscaner\<close>
    (\<^verbatim>\<open>api/cintascanner.h\<close>): the critical sections of each belt as functions on its segment, and the
    belt with its processes as a step relation, one rule per point where a process can block. Each
    has an invariant of its flags, counters and semaphores; from it, that pieces keep their order
    and that no wake-up is lost.
  \<^item> \<open>Equipajes\<close>, \<open>Checkin\<close>, \<open>PuestoCheckin\<close>, \<open>Torre\<close>, \<open>Zonas\<close>, \<open>Carga\<close>, \<open>Avion\<close>, \<open>Intercargo\<close>,
    \<open>Programador\<close>: the luggage and its containers, a check-in desk with its controller, the table of
    zones of the control tower behind its RPC server, the pools of zones, the loading robot, tractors
    and planes, the luggage between airports, the schedulers (\<^verbatim>\<open>api/\<close>, \<^verbatim>\<open>rpc/\<close>, \<^verbatim>\<open>processes/\<close>).
    \<open>Cierre\<close>: how the close of a check-in goes from the desks over the belt of the zone to its robot.
  \<^item> \<open>Recorrido\<close>: the programs of \<^verbatim>\<open>processes/\<close> between the belts, composed with the step relations of
    the belts and the tower, with the processes that \<^verbatim>\<open>processes/main.cpp\<close> starts. \<open>Simulacion\<close>: that
    program itself: its directories, copies, arguments and shutdown.
  \<^item> \<open>Grupo\<close> (\<^verbatim>\<open>local_broker/grupo.cpp\<close>, \<^verbatim>\<open>token_manager.cpp\<close>), \<open>InitParser\<close>
    (\<^verbatim>\<open>init_parser.cpp\<close>), \<open>Arranque\<close> (how the segment of the groups comes up, with the
    \<^verbatim>\<open>.init\<close> files).
  \<^item> \<open>Transferencia\<close>, \<open>Reconexion\<close>, \<open>MemoriaDistribuida\<close>, \<open>SemaforoDistribuido\<close>: the protocol
    between \<^verbatim>\<open>clientes/local_broker_comm.cpp\<close> and \<^verbatim>\<open>local_broker/client_handler.cpp\<close>: on bytes,
    the search for a broker, and the two whole systems, with any number of clients, of a distributed
    memory and of a distributed semaphore or mutex.
  \<^item> \<open>Salida\<close>, \<open>Lazos\<close>, \<open>Lanzamiento\<close>: the rest of a client's life: how it leaves a distributed
    memory, over the system of \<open>MemoriaDistribuida\<close>; how the loops of a semaphore or mutex end under
    signals and errors; and how an application starts its process (\<^verbatim>\<open>os/dir.cpp\<close>, the arguments, the
    list of brokers).
  \<^item> \<open>Broker\<close> and \<open>BrokerRemoto\<close>: \<^verbatim>\<open>message_broker.cpp\<close> with the queue its clients see, then the
    stub and the server on the bytes of their structs.
  \<^item> \<open>AnilloBrokers\<close> and \<open>Multiplexor\<close>: the sender, receiver, leader and multiplexer of the ring of
    brokers (\<^verbatim>\<open>group_sender.cpp\<close>, \<^verbatim>\<open>group_receiver.cpp\<close>, \<^verbatim>\<open>lider.cpp\<close>,
    \<^verbatim>\<open>group_multiplexer.cpp\<close>), which this commit leaves off.

  \<^bold>\<open>Correspondence.\<close> A class or segment is a record with the members' names; a method is a function
  of the same name, or of that name with a prefix where Isabelle has the name. An exception is \<open>Fallo\<close>
  with its class, an access outside an array \<open>Fallo Fuera_de_rango\<close>, a call that waits \<open>Bloqueado\<close>.
  Histories (fields that the code does not have) are named as such where their record is declared.

  \<^bold>\<open>What the lemmas show.\<close> For each belt, exactly the order of its pieces, and for each blocked
  process the state of the belt that blocks it. For the whole airport, that no piece is lost,
  duplicated or dispatched without a check, with the exceptions the code has. For a group, exactly
  one token, a fair round, no deadlock. For a distributed memory, mutual exclusion and coherence, by
  refinement of the group, and what of them a client that leaves can break; for a semaphore, the
  balance of its units byte by byte, for any cut of the messages, with the cut that breaks the
  exclusion of a mutex, and when its processes end. For the broker, refinement of a
  map from names to queues, and equality of the remote with the local one. For the ring, what a token,
  a lost block, a new broker and a leader come to. Where the code fails its purpose, the theorem says
  what it does instead, and the finding of the manifest names the theorem.

  \<^bold>\<open>Bounds and fuel.\<close> Sizes are those of the code: belts of 10 pieces, 50 clients, 128 groups, names of
  64 characters, blocks of 256 bytes. Fuel appears once, in the search for the next client of a group,
  with 50 units: the search advances one entry of 50 in each turn, and its lemma shows that it never
  runs out. The other loops are structural or have a termination proof; a loop that may run for ever is
  a relation, or a result \<open>None\<close> proved to mean so. Counters are integers where the code cannot
  overflow them; the weights of the luggage, the sizes of the segment, lengths on the wire, characters
  used as indices and the words of the messages have their width, and wrap.

  \<^bold>\<open>Not modelled.\<close> The launchers of single servers, which create files and processes; the arguments of
  some of them are in \<open>Lanzamiento\<close>. The wrappers of the operating system (\<^verbatim>\<open>os/\<close>,
  \<^verbatim>\<open>ipc/sharedmemory.cpp\<close>, \<^verbatim>\<open>network/\<close>), of the data base (\<^verbatim>\<open>db/\<close>), of the log and of the errors:
  one library call each. The configuration. A client that lost its broker and connects again is a
  client that starts, in \<open>Reconexion\<close>; its old requests are not followed. Code that is not the program's own:
  \<^verbatim>\<open>external/\<close>, the SWIG file \<^verbatim>\<open>ipc/ipc_wrap.cxx\<close>, the stubs of rpcgen. The ring's transport
  (\<^verbatim>\<open>group/\<close>), which is in another language: a FIFO from each broker to the next. The programs and
  branches compiled for debugging only. In the models themselves: the RPC transport is a parameter
  (\<open>entrega_rpc\<close>), the csv files are lists of their rows, the kernel's limits on the bytes of a queue
  and signals outside the waits named are left out; without a signal a send is whole.
\<close>

end
